(* ===== verification/Prelude.thy ===== *)
theory Prelude
  imports Complex_Main "HOL-Library.Word" "HOL-Library.Char_ord" "HOL-Library.List_Lexorder"
    "HOL-Library.Product_Lexorder" "HOL-Library.Option_ord" "HOL-Library.Log_Nat" "HOL-Library.Multiset"
begin

text \<open>
  What the components share: the reading of the Rust types the program is written over
  (instants and durations of \<^verbatim>\<open>chrono\<close> and \<^verbatim>\<open>std::time\<close>, \<^verbatim>\<open>f64\<close>, strings,
  \<^verbatim>\<open>BTreeMap\<close>, \<^verbatim>\<open>HashMap\<close>), decimal printing and parsing, the stable sort by a key, and
  the generic lemmas on them. Nothing here is specific to one component.
\<close>

section \<open>Time\<close>

text \<open>
  A \<^verbatim>\<open>DateTime<Utc>\<close> and a \<^verbatim>\<open>TimeDelta\<close> are integers of nanoseconds (an instant counts
  from the Unix epoch); a \<^verbatim>\<open>std::time::Duration\<close> is a natural number of nanoseconds. The
  calendar range of chrono (years -262143 to 262142) is not represented: instants of the
  model are the ones the running program can hold, and the sums the code forms from them
  are taken to stay in that range.
\<close>

type_synonym instant = int
type_synonym timedelta = int
type_synonym duration = nat

definition nanos_per_sec :: int where
  "nanos_per_sec = 1000000000"

definition seconds :: "int \<Rightarrow> timedelta" where
  "seconds n = n * nanos_per_sec"

definition minutes :: "int \<Rightarrow> timedelta" where
  "minutes n = seconds (n * 60)"

definition days :: "int \<Rightarrow> timedelta" where
  "days n = seconds (n * 86400)"

definition from_secs :: "nat \<Rightarrow> duration" where
  "from_secs n = n * 1000000000"

text \<open>
  \<^verbatim>\<open>TimeDelta::from_std\<close> refuses a duration beyond \<^verbatim>\<open>TimeDelta::MAX\<close>, which is
  \<^verbatim>\<open>i64::MAX\<close> milliseconds.
\<close>

definition timedelta_max :: timedelta where
  "timedelta_max = (2 ^ 63 - 1) * 1000000"

definition from_std :: "duration \<Rightarrow> timedelta option" where
  "from_std d = (if int d \<le> timedelta_max then Some (int d) else None)"

text \<open>\<^verbatim>\<open>num_seconds\<close> and \<^verbatim>\<open>num_days\<close> truncate towards zero.\<close>

definition trunc_div :: "int \<Rightarrow> int \<Rightarrow> int" where
  "trunc_div a b = sgn a * sgn b * (\<bar>a\<bar> div \<bar>b\<bar>)"

definition num_seconds :: "timedelta \<Rightarrow> int" where
  "num_seconds d = trunc_div d nanos_per_sec"

definition num_days :: "timedelta \<Rightarrow> int" where
  "num_days d = trunc_div d (days 1)"

section \<open>Floating point values\<close>

text \<open>
  An \<^verbatim>\<open>f64\<close> is a finite rational, an infinity or not a number. Comparison is the IEEE one:
  exact on finite values, and false as soon as one side is not a number. The two zeros are
  one value here, as they are for every comparison.
\<close>

datatype f64 = Fin rat | PosInf | NegInf | NaN

fun is_finite :: "f64 \<Rightarrow> bool" where
  "is_finite (Fin _) = True"
| "is_finite _ = False"

fun f64_lt :: "f64 \<Rightarrow> f64 \<Rightarrow> bool" where
  "f64_lt (Fin a) (Fin b) = (a < b)"
| "f64_lt (Fin _) PosInf = True"
| "f64_lt NegInf (Fin _) = True"
| "f64_lt NegInf PosInf = True"
| "f64_lt _ _ = False"

fun f64_eq :: "f64 \<Rightarrow> f64 \<Rightarrow> bool" where
  "f64_eq (Fin a) (Fin b) = (a = b)"
| "f64_eq PosInf PosInf = True"
| "f64_eq NegInf NegInf = True"
| "f64_eq _ _ = False"

definition f64_le :: "f64 \<Rightarrow> f64 \<Rightarrow> bool" where
  "f64_le a b = (f64_lt a b \<or> f64_eq a b)"

text \<open>
  Arithmetic rounds to nearest, ties to even, on binary64: 53 bits of significand, exponents
  down to the subnormals, infinity beyond the range. \<open>bin_exp r\<close> is the exponent of the
  leading bit of a positive \<open>r\<close>.
\<close>

definition pow2 :: "int \<Rightarrow> rat" where
  "pow2 e = (if 0 \<le> e then 2 ^ nat e else 1 / 2 ^ nat (- e))"

definition bin_exp :: "rat \<Rightarrow> int" where
  "bin_exp r = (if 1 \<le> r then int (floorlog 2 (nat \<lfloor>r\<rfloor>)) - 1
                else - int (floorlog 2 (nat (\<lceil>1 / r\<rceil> - 1))))"

definition round_half_even :: "rat \<Rightarrow> int" where
  "round_half_even q =
     (let f = \<lfloor>q\<rfloor>; d = q - of_int f
      in if d < 1 / 2 then f else if d > 1 / 2 then f + 1 else if even f then f else f + 1)"

definition f64_limit :: rat where
  "f64_limit = 2 ^ 1024"

definition overflow_f64 :: "rat \<Rightarrow> f64" where
  "overflow_f64 v = (if f64_limit \<le> v then PosInf else if v \<le> - f64_limit then NegInf else Fin v)"

definition round64 :: "rat \<Rightarrow> f64" where
  "round64 r =
     (if r = 0 then Fin 0
      else let u = pow2 (max (- 1074) (bin_exp \<bar>r\<bar> - 52));
               v = of_int (round_half_even (r / u)) * u
           in overflow_f64 v)"

text \<open>
  The operations of the code. The sign of zero is not kept: a quotient by zero has the sign
  of its numerator.
\<close>

fun f64_neg :: "f64 \<Rightarrow> f64" where
  "f64_neg (Fin a) = Fin (- a)"
| "f64_neg PosInf = NegInf"
| "f64_neg NegInf = PosInf"
| "f64_neg NaN = NaN"

fun f64_add :: "f64 \<Rightarrow> f64 \<Rightarrow> f64" where
  "f64_add (Fin a) (Fin b) = round64 (a + b)"
| "f64_add PosInf NegInf = NaN"
| "f64_add NegInf PosInf = NaN"
| "f64_add NaN _ = NaN"
| "f64_add _ NaN = NaN"
| "f64_add PosInf _ = PosInf"
| "f64_add NegInf _ = NegInf"
| "f64_add _ b = b"

definition f64_sub :: "f64 \<Rightarrow> f64 \<Rightarrow> f64" where
  "f64_sub a b = f64_add a (f64_neg b)"

definition signed_inf :: "bool \<Rightarrow> f64" where
  "signed_inf positive = (if positive then PosInf else NegInf)"

fun f64_mul :: "f64 \<Rightarrow> f64 \<Rightarrow> f64" where
  "f64_mul (Fin a) (Fin b) = round64 (a * b)"
| "f64_mul NaN _ = NaN"
| "f64_mul _ NaN = NaN"
| "f64_mul (Fin a) b = (if a = 0 then NaN else signed_inf ((0 < a) = (b = PosInf)))"
| "f64_mul a (Fin b) = (if b = 0 then NaN else signed_inf ((0 < b) = (a = PosInf)))"
| "f64_mul a b = signed_inf (a = b)"

fun f64_div :: "f64 \<Rightarrow> f64 \<Rightarrow> f64" where
  "f64_div (Fin a) (Fin b) =
     (if b = 0 then (if a = 0 then NaN else signed_inf (0 < a)) else round64 (a / b))"
| "f64_div NaN _ = NaN"
| "f64_div _ NaN = NaN"
| "f64_div (Fin _) _ = Fin 0"
| "f64_div a (Fin b) = signed_inf ((0 \<le> b) = (a = PosInf))"
| "f64_div _ _ = NaN"

fun f64_abs :: "f64 \<Rightarrow> f64" where
  "f64_abs (Fin a) = Fin \<bar>a\<bar>"
| "f64_abs NegInf = PosInf"
| "f64_abs a = a"

text \<open>\<^verbatim>\<open>f64::max\<close> gives the other argument when one is not a number.\<close>

definition f64_max :: "f64 \<Rightarrow> f64 \<Rightarrow> f64" where
  "f64_max a b = (if a = NaN then b else if b = NaN then a else if f64_lt a b then b else a)"

text \<open>\<^verbatim>\<open>f64::clamp\<close> with bounds that are in order.\<close>

definition f64_clamp :: "f64 \<Rightarrow> f64 \<Rightarrow> f64 \<Rightarrow> f64" where
  "f64_clamp lo hi a = (let a' = (if f64_lt a lo then lo else a) in if f64_lt hi a' then hi else a')"

section \<open>Decimal and hexadecimal text\<close>

text \<open>A \<^verbatim>\<open>String\<close> is its UTF-8 bytes; Rust compares strings byte by byte, as
  \<^typ>\<open>string\<close> is compared with \<open>Char_ord\<close> and \<open>List_Lexorder\<close>.\<close>

definition digit_char :: "nat \<Rightarrow> char" where
  "digit_char d = (char_of (48 + d) :: char)"

fun show_nat :: "nat \<Rightarrow> string" where
  "show_nat n = (if n < 10 then [digit_char n] else show_nat (n div 10) @ [digit_char (n mod 10)])"

declare show_nat.simps [simp del]

definition show_int :: "int \<Rightarrow> string" where
  "show_int i = (if i < 0 then ''-'' @ show_nat (nat (- i)) else show_nat (nat i))"

definition char_digit :: "char \<Rightarrow> nat option" where
  "char_digit c = (let n = (of_char c :: nat) in if 48 \<le> n \<and> n \<le> 57 then Some (n - 48) else None)"

fun parse_digits :: "nat \<Rightarrow> string \<Rightarrow> nat option" where
  "parse_digits acc [] = Some acc"
| "parse_digits acc (c # cs) =
     (case char_digit c of None \<Rightarrow> None | Some d \<Rightarrow> parse_digits (acc * 10 + d) cs)"

definition parse_nat :: "string \<Rightarrow> nat option" where
  "parse_nat s = (if s = [] then None else parse_digits 0 s)"

text \<open>\<^verbatim>\<open>str::parse::<i64>\<close>: an optional sign, at least one digit, the range of 64 bits.\<close>

definition in_i64 :: "int \<Rightarrow> bool" where
  "in_i64 i = (- (2 ^ 63) \<le> i \<and> i < 2 ^ 63)"

definition parse_i64 :: "string \<Rightarrow> int option" where
  "parse_i64 s =
     (let v = (case s of
                 [] \<Rightarrow> None
               | c # cs \<Rightarrow>
                   if c = CHR ''-'' then map_option (\<lambda>n. - int n) (parse_nat cs)
                   else if c = CHR ''+'' then map_option int (parse_nat cs)
                   else map_option int (parse_nat s))
      in case v of None \<Rightarrow> None | Some i \<Rightarrow> if in_i64 i then Some i else None)"

definition hex_char :: "nat \<Rightarrow> char" where
  "hex_char d = (if d < 10 then char_of (48 + d) else char_of (87 + d))"

text \<open>\<^verbatim>\<open>{:016x}\<close>: exactly sixteen lower-case hexadecimal digits of a 64-bit value.\<close>

fun hex_digits :: "nat \<Rightarrow> nat \<Rightarrow> string" where
  "hex_digits 0 n = []"
| "hex_digits (Suc k) n = hex_digits k (n div 16) @ [hex_char (n mod 16)]"

definition hex16 :: "64 word \<Rightarrow> string" where
  "hex16 w = hex_digits 16 (unat w)"

section \<open>Ordered maps and hash maps\<close>

text \<open>
  A \<^verbatim>\<open>BTreeMap\<close> is the list of its entries in increasing key order, which is also the
  order in which the code iterates over it. \<open>bt_update k f m\<close> is
  \<^verbatim>\<open>*m.entry(k).or_insert_with(..) = ..\<close>: the new value is computed from the old one.
\<close>

type_synonym ('k, 'v) btree_map = "('k \<times> 'v) list"
type_synonym labels = "(string, string) btree_map"

fun bt_update :: "'k::linorder \<Rightarrow> ('v option \<Rightarrow> 'v) \<Rightarrow> ('k, 'v) btree_map \<Rightarrow> ('k, 'v) btree_map" where
  "bt_update k f [] = [(k, f None)]"
| "bt_update k f ((k', v) # m) =
     (if k < k' then (k, f None) # (k', v) # m
      else if k = k' then (k, f (Some v)) # m
      else (k', v) # bt_update k f m)"

definition bt_insert :: "'k::linorder \<Rightarrow> 'v \<Rightarrow> ('k, 'v) btree_map \<Rightarrow> ('k, 'v) btree_map" where
  "bt_insert k v = bt_update k (\<lambda>_. v)"

definition bt_of_list :: "('k::linorder \<times> 'v) list \<Rightarrow> ('k, 'v) btree_map" where
  "bt_of_list kvs = fold (\<lambda>(k, v). bt_insert k v) kvs []"

definition bt_wf :: "('k::linorder, 'v) btree_map \<Rightarrow> bool" where
  "bt_wf m = sorted_wrt (<) (map fst m)"

text \<open>Collecting an iterator of pairs into a \<^verbatim>\<open>HashMap\<close>: the last pair of a key wins.\<close>

definition collect_map :: "('k \<times> 'v) list \<Rightarrow> 'k \<rightharpoonup> 'v" where
  "collect_map kvs = map_of (rev kvs)"

text \<open>\<^verbatim>\<open>iter().find_map(f)\<close>.\<close>

fun find_map :: "('a \<Rightarrow> 'b option) \<Rightarrow> 'a list \<Rightarrow> 'b option" where
  "find_map f [] = None"
| "find_map f (x # xs) = (case f x of Some y \<Rightarrow> Some y | None \<Rightarrow> find_map f xs)"

text \<open>\<^verbatim>\<open>str::starts_with\<close> and \<^verbatim>\<open>str::rsplit_once(':')\<close>.\<close>

fun starts_with :: "string \<Rightarrow> string \<Rightarrow> bool" where
  "starts_with _ [] = True"
| "starts_with [] (_ # _) = False"
| "starts_with (c # cs) (p # ps) = (c = p \<and> starts_with cs ps)"

fun rsplit_once :: "char \<Rightarrow> string \<Rightarrow> (string \<times> string) option" where
  "rsplit_once d [] = None"
| "rsplit_once d (c # cs) =
     (case rsplit_once d cs of
        Some (l, r) \<Rightarrow> Some (c # l, r)
      | None \<Rightarrow> if c = d then Some ([], cs) else None)"

section \<open>Generic lemmas\<close>

named_theorems time_defs \<open>unfolding of the time constants\<close>
named_theorems f64_intros \<open>facts about comparisons of floating point values\<close>

lemmas time_unfold [time_defs] = seconds_def minutes_def days_def nanos_per_sec_def

subsection \<open>Floating point comparison\<close>

lemma f64_lt_irrefl [simp]: "\<not> f64_lt a a"
  by (cases a) auto

lemma f64_lt_trans [f64_intros]: "f64_lt a b \<Longrightarrow> f64_lt b c \<Longrightarrow> f64_lt a c"
  by (cases a; cases b; cases c) auto

lemma f64_le_lt_trans [f64_intros]: "f64_le a b \<Longrightarrow> f64_lt b c \<Longrightarrow> f64_lt a c"
  unfolding f64_le_def by (cases a; cases b; cases c) auto

lemma f64_lt_le_trans [f64_intros]: "f64_lt a b \<Longrightarrow> f64_le b c \<Longrightarrow> f64_lt a c"
  unfolding f64_le_def by (cases a; cases b; cases c) auto

lemma f64_lt_imp_le [f64_intros]: "f64_lt a b \<Longrightarrow> f64_le a b"
  by (simp add: f64_le_def)

lemma f64_le_Fin [simp]: "f64_le (Fin a) (Fin b) = (a \<le> b)"
  by (auto simp: f64_le_def)

lemma f64_le_not_lt: "f64_le a b \<Longrightarrow> \<not> f64_lt b a"
  unfolding f64_le_def by (cases a; cases b) auto

lemma is_finite_iff: "is_finite a \<longleftrightarrow> (\<exists>r. a = Fin r)"
  by (cases a) auto

lemma f64_le_refl: "a \<noteq> NaN \<Longrightarrow> f64_le a a"
  by (cases a) (auto simp: f64_le_def)

lemma f64_le_trans [f64_intros]: "f64_le a b \<Longrightarrow> f64_le b c \<Longrightarrow> f64_le a c"
  unfolding f64_le_def by (cases a; cases b; cases c) auto

lemma f64_not_lt: "a \<noteq> NaN \<Longrightarrow> b \<noteq> NaN \<Longrightarrow> \<not> f64_lt a b \<Longrightarrow> f64_le b a"
  unfolding f64_le_def by (cases a; cases b) auto

lemma f64_le_max_right: "b \<noteq> NaN \<Longrightarrow> f64_le b (f64_max a b)"
  by (auto simp: f64_max_def f64_le_refl intro: f64_not_lt)

lemma f64_le_max_left: "a \<noteq> NaN \<Longrightarrow> f64_le a (f64_max a b)"
  by (auto simp: f64_max_def f64_le_refl intro: f64_lt_imp_le)

lemma f64_max_not_NaN: "b \<noteq> NaN \<Longrightarrow> f64_max a b \<noteq> NaN"
  by (auto simp: f64_max_def)

lemma pow2_pos: "0 < pow2 e"
  by (simp add: pow2_def)

lemma round_half_even_nonneg: "0 \<le> q \<Longrightarrow> 0 \<le> round_half_even q"
  by (simp add: round_half_even_def Let_def)

lemma round_half_even_nonpos: "q \<le> 0 \<Longrightarrow> round_half_even q \<le> 0"
proof -
  assume q: "q \<le> 0"
  then have "\<lfloor>q\<rfloor> \<le> 0" by (simp add: floor_le_iff)
  moreover have "\<lfloor>q\<rfloor> = 0 \<Longrightarrow> q = 0" using q by (metis of_int_0 of_int_floor_le order_antisym)
  ultimately show ?thesis by (cases "\<lfloor>q\<rfloor> = 0") (simp_all add: round_half_even_def Let_def)
qed

lemma round64_0 [simp]: "round64 0 = Fin 0"
  by (simp add: round64_def)

lemma f64_limit_pos: "0 < f64_limit"
  unfolding f64_limit_def by (rule zero_less_power) simp

lemma overflow_f64_nonneg: "0 \<le> v \<Longrightarrow> f64_le (Fin 0) (overflow_f64 v)"
  using f64_limit_pos by (auto simp: overflow_f64_def) (simp add: f64_le_def)

lemma round64_nonneg: "0 \<le> r \<Longrightarrow> f64_le (Fin 0) (round64 r)"
proof -
  assume "0 \<le> r"
  then have "0 \<le> of_int (round_half_even (r / pow2 e)) * pow2 e" for e
    using pow2_pos [of e] by (simp add: round_half_even_nonneg)
  then show ?thesis unfolding round64_def Let_def by (auto intro: overflow_f64_nonneg)
qed

lemma round64_not_NaN [simp]: "round64 r \<noteq> NaN"
  by (simp add: round64_def overflow_f64_def Let_def)

subsection \<open>Printing and parsing\<close>

lemma char_digit_digit_char [simp]: "d < 10 \<Longrightarrow> char_digit (digit_char d) = Some d"
  by (simp add: char_digit_def digit_char_def Let_def)

lemma parse_digits_append:
  "parse_digits acc (s @ t) =
     (case parse_digits acc s of None \<Rightarrow> None | Some n \<Rightarrow> parse_digits n t)"
  by (induction s arbitrary: acc) (auto split: option.splits)

lemma show_nat_nonempty [simp]: "show_nat n \<noteq> []"
  by (subst show_nat.simps) simp

lemma parse_digits_show_nat:
  "\<exists>k. parse_digits acc (show_nat n) = Some (acc * 10 ^ Suc k + n) \<and> n < 10 ^ Suc k"
proof (induction n arbitrary: acc rule: show_nat.induct)
  case (1 n)
  show ?case
  proof (cases "n < 10")
    case True
    then show ?thesis by (subst show_nat.simps) (auto intro: exI [of _ 0])
  next
    case False
    with "1.IH" obtain k where k: "parse_digits acc (show_nat (n div 10)) =
        Some (acc * 10 ^ Suc k + n div 10)" "n div 10 < 10 ^ Suc k" by blast
    have eq: "(acc * 10 ^ Suc k + n div 10) * 10 + n mod 10 = acc * 10 ^ Suc (Suc k) + n"
      by (simp add: algebra_simps)
    have "n < 10 ^ Suc (Suc k)" using k(2) by (simp add: div_less_iff_less_mult mult.commute)
    with False k(1) eq show ?thesis
      by (subst show_nat.simps, intro exI [of _ "Suc k"]) (simp add: parse_digits_append)
  qed
qed

lemma parse_nat_show_nat [simp]: "parse_nat (show_nat n) = Some n"
  using parse_digits_show_nat [of 0 n] by (auto simp: parse_nat_def)

lemma hd_show_nat: "\<exists>d < 10. hd (show_nat n) = digit_char d"
proof (induction n rule: show_nat.induct)
  case (1 n)
  then show ?case by (subst show_nat.simps) auto
qed

lemma digit_char_no_sign: "d < 10 \<Longrightarrow> digit_char d \<noteq> CHR ''-'' \<and> digit_char d \<noteq> CHR ''+''"
proof -
  assume "d < 10"
  then have "(of_char (digit_char d) :: nat) = 48 + d" by (simp add: digit_char_def)
  moreover have "(of_char (CHR ''-'') :: nat) = 45" "(of_char (CHR ''+'') :: nat) = 43" by simp_all
  ultimately show ?thesis by auto
qed

lemma parse_i64_show_int: "in_i64 i \<Longrightarrow> parse_i64 (show_int i) = Some i"
proof (cases "i < 0")
  case True
  assume "in_i64 i"
  with True show ?thesis by (simp add: parse_i64_def show_int_def Let_def)
next
  case False
  assume i: "in_i64 i"
  obtain c cs where s: "show_nat (nat i) = c # cs"
    by (cases "show_nat (nat i)") auto
  with hd_show_nat [of "nat i"] have "c \<noteq> CHR ''-'' \<and> c \<noteq> CHR ''+''"
    using digit_char_no_sign by fastforce
  with False i s show ?thesis
    using parse_nat_show_nat [of "nat i"] by (simp add: parse_i64_def show_int_def Let_def)
qed

lemma length_hex_digits [simp]: "length (hex_digits k n) = k"
  by (induction k arbitrary: n) auto

lemma length_hex16 [simp]: "length (hex16 w) = 16"
  by (simp add: hex16_def)

subsection \<open>Ordered maps\<close>

text \<open>
  The interface of an ordered map with an entry API, and what its clients rely on: a lookup
  after an update, the order of the entries, the keys after an update.
\<close>

locale ordered_entry_map =
  fixes upd :: "'k::linorder \<Rightarrow> ('v option \<Rightarrow> 'v) \<Rightarrow> 'm \<Rightarrow> 'm"
    and lookup :: "'m \<Rightarrow> 'k \<rightharpoonup> 'v"
    and entries :: "'m \<Rightarrow> ('k \<times> 'v) list"
    and inv :: "'m \<Rightarrow> bool"
  assumes lookup_upd: "inv m \<Longrightarrow> lookup (upd k f m) = (lookup m)(k \<mapsto> f (lookup m k))"
    and inv_upd: "inv m \<Longrightarrow> inv (upd k f m)"
    and entries_sorted: "inv m \<Longrightarrow> sorted_wrt (<) (map fst (entries m))"
    and entries_lookup: "inv m \<Longrightarrow> map_of (entries m) = lookup m"
begin

lemma entries_distinct: "inv m \<Longrightarrow> distinct (map fst (entries m))"
  using entries_sorted by (simp add: strict_sorted_iff)

lemma entries_in: "inv m \<Longrightarrow> (k, v) \<in> set (entries m) \<longleftrightarrow> lookup m k = Some v"
  using entries_distinct entries_lookup by (metis map_of_eq_Some_iff)

lemma keys_upd: "inv m \<Longrightarrow> fst ` set (entries (upd k f m)) = insert k (fst ` set (entries m))"
  by (metis dom_fun_upd dom_map_of_conv_image_fst entries_lookup inv_upd lookup_upd option.discI)

lemma inv_fold:
  "inv m \<Longrightarrow> inv (fold (\<lambda>x. upd (k x) (f x)) xs m)"
  by (induction xs arbitrary: m) (auto simp: inv_upd)

lemma keys_fold:
  "inv m \<Longrightarrow> fst ` set (entries (fold (\<lambda>x. upd (k x) (f x)) xs m)) =
     k ` set xs \<union> fst ` set (entries m)"
  by (induction xs arbitrary: m) (auto simp: keys_upd inv_upd)

end

lemma bt_update_keys: "fst ` set (bt_update k f m) = insert k (fst ` set m)"
  by (induction m rule: bt_update.induct) auto

lemma map_of_above: "\<forall>k' \<in> fst ` set m. k < k' \<Longrightarrow> map_of m (k::'k::linorder) = None"
  by (metis less_irrefl map_of_eq_None_iff)

lemma bt_wf_Cons: "bt_wf ((k, v) # m) \<longleftrightarrow> (\<forall>k' \<in> fst ` set m. k < k') \<and> bt_wf m"
  by (auto simp: bt_wf_def)

lemma bt_wf_Nil [simp]: "bt_wf []"
  by (simp add: bt_wf_def)

lemma bt_wf_update: "bt_wf m \<Longrightarrow> bt_wf (bt_update k f m)"
proof (induction m)
  case (Cons p m)
  obtain k' v where p: "p = (k', v)" by force
  from Cons.prems p have m: "bt_wf m" "\<forall>j \<in> fst ` set m. k' < j" by (auto simp: bt_wf_Cons)
  consider "k < k'" | "k = k'" | "k' < k" by fastforce
  then show ?case
  proof cases
    case 1
    with m p show ?thesis by (auto simp: bt_wf_Cons)
  next
    case 2
    with m p show ?thesis by (simp add: bt_wf_Cons)
  next
    case 3
    with m p Cons.IH show ?thesis by (auto simp: bt_wf_Cons bt_update_keys)
  qed
qed (simp add: bt_wf_def)

lemma map_of_bt_update: "bt_wf m \<Longrightarrow> map_of (bt_update k f m) = (map_of m)(k \<mapsto> f (map_of m k))"
proof (induction m)
  case (Cons p m)
  obtain k' v where p: "p = (k', v)" by force
  from Cons.prems p have m: "bt_wf m" "\<forall>j \<in> fst ` set m. k' < j" by (auto simp: bt_wf_Cons)
  consider "k < k'" | "k = k'" | "k' < k" by fastforce
  then show ?case
  proof cases
    case 1
    with m have "map_of m k = None" by (intro map_of_above) (auto dest: less_trans)
    with 1 p show ?thesis by (auto simp: fun_eq_iff)
  next
    case 2
    then show ?thesis using p by (auto simp: fun_eq_iff)
  next
    case 3
    with m p Cons.IH show ?thesis by (auto simp: fun_eq_iff)
  qed
qed (simp add: fun_eq_iff)

interpretation bt: ordered_entry_map bt_update map_of "\<lambda>m. m" bt_wf
  by unfold_locales (simp_all add: map_of_bt_update bt_wf_update, simp add: bt_wf_def)

lemma bt_wf_insert: "bt_wf m \<Longrightarrow> bt_wf (bt_insert k v m)"
  by (simp add: bt_insert_def bt_wf_update)

lemma map_of_bt_insert: "bt_wf m \<Longrightarrow> map_of (bt_insert k v m) = (map_of m)(k \<mapsto> v)"
  by (simp add: bt_insert_def map_of_bt_update)

subsection \<open>Collected maps, searches, sorting\<close>

lemma collect_map_Nil [simp]: "collect_map [] = Map.empty"
  by (simp add: collect_map_def)

lemma collect_map_snoc [simp]: "collect_map (xs @ [(k, v)]) = (collect_map xs)(k \<mapsto> v)"
  by (simp add: collect_map_def)

lemma collect_map_in: "collect_map xs k = Some v \<Longrightarrow> (k, v) \<in> set xs"
  unfolding collect_map_def by (auto dest: map_of_SomeD)

lemma collect_map_None_iff: "collect_map xs k = None \<longleftrightarrow> k \<notin> fst ` set xs"
  by (simp add: collect_map_def map_of_eq_None_iff)

lemma collect_map_distinct:
  "distinct (map fst xs) \<Longrightarrow> collect_map xs k = Some v \<longleftrightarrow> (k, v) \<in> set xs"
  unfolding collect_map_def by (subst map_of_eq_Some_iff) (auto simp: rev_map [symmetric])

lemma find_map_SomeD: "find_map f xs = Some y \<Longrightarrow> \<exists>x \<in> set xs. f x = Some y"
  by (induction xs) (auto split: option.splits)

lemma find_map_None_iff: "find_map f xs = None \<longleftrightarrow> (\<forall>x \<in> set xs. f x = None)"
  by (induction xs) (auto split: option.splits)

lemma starts_with_iff: "starts_with s p \<longleftrightarrow> (\<exists>t. s = p @ t)"
  by (induction s p rule: starts_with.induct) auto

lemma rsplit_once_SomeD: "rsplit_once d s = Some (l, r) \<Longrightarrow> s = l @ d # r \<and> d \<notin> set r"
proof (induction s arbitrary: l r)
  case (Cons c cs)
  have none: "rsplit_once d cs = None \<Longrightarrow> d \<notin> set cs" for cs
    by (induction cs) (auto split: option.splits if_splits)
  with Cons show ?case by (auto split: option.splits if_splits)
qed simp

lemma set_sort_key [simp]: "set (sort_key f xs) = set xs"
  by simp

lemma distinct_map_sort_key: "distinct (map g (sort_key f xs)) = distinct (map g xs)"
proof -
  have "mset (map g (sort_key f xs)) = mset (map g xs)" by simp
  then show ?thesis by (metis distinct_count_atmost_1 set_mset_mset)
qed

text \<open>Folds that keep an invariant.\<close>

lemma foldl_invariant:
  "P acc \<Longrightarrow> (\<And>acc x. P acc \<Longrightarrow> x \<in> set xs \<Longrightarrow> P (f acc x)) \<Longrightarrow> P (foldl f acc xs)"
  by (induction xs arbitrary: acc) simp_all

lemma foldl_reaches:
  assumes "x \<in> set xs" and "\<And>acc. P (f acc x)" and "\<And>acc y. P acc \<Longrightarrow> P (f acc y)"
  shows "P (foldl f acc xs)"
proof -
  obtain ys zs where xs: "xs = ys @ x # zs" using assms(1) by (auto simp: in_set_conv_decomp)
  have "P (foldl f (f (foldl f acc ys) x) zs)"
    by (rule foldl_invariant [where P = P]) (use assms in auto)
  then show ?thesis by (simp add: xs)
qed

text \<open>An ordered map filled by a fold: what each key holds, and the keys.\<close>

lemma bt_fold:
  "bt_wf m \<Longrightarrow>
   bt_wf (foldl (\<lambda>m x. bt_update (k x) (f x) m) m xs) \<and>
   map_of (foldl (\<lambda>m x. bt_update (k x) (f x) m) m xs) t =
     foldl (\<lambda>v x. Some (f x v)) (map_of m t) (filter (\<lambda>x. k x = t) xs) \<and>
   fst ` set (foldl (\<lambda>m x. bt_update (k x) (f x) m) m xs) = fst ` set m \<union> k ` set xs"
  by (induction xs arbitrary: m) (simp_all add: bt_wf_update map_of_bt_update bt_update_keys)

lemma bt_values:
  assumes "bt_wf m" and "\<And>t. t \<in> fst ` set m \<Longrightarrow> map_of m t = Some (h t)"
  shows "map snd m = map h (map fst m)"
proof -
  have "snd p = h (fst p)" if "p \<in> set m" for p
    using assms that bt.entries_in [OF assms(1), of "fst p" "snd p"] by force
  then show ?thesis by simp
qed

end
