(* ===== verification/Alert_Model.thy ===== *)
theory Alert_Model
  imports Prelude
begin

text \<open>
  The domain types of the alerting engine (\<^verbatim>\<open>crates/server/src/alerting/model.rs\<close>, and the
  series point of \<^verbatim>\<open>source.rs\<close>): severities, rule kinds, comparison operators with
  hysteresis, target selectors, rules, target nodes, and the identity of an alert: the
  canonical key of a series and the fingerprint computed from it.
\<close>

section \<open>Identifiers and label conventions\<close>

type_synonym target_id = int

definition RULE_HOST_DOWN :: string where
  "RULE_HOST_DOWN = ''host_down''"

definition TARGET_ID_LABELS :: "string list" where
  "TARGET_ID_LABELS = [''target'', ''target_id'']"

definition TARGET_NAME_LABELS :: "string list" where
  "TARGET_NAME_LABELS = [''host'', ''hostname'']"

definition TARGET_ADDRESS_LABELS :: "string list" where
  "TARGET_ADDRESS_LABELS = [''instance'', ''address'']"

section \<open>Severity\<close>

datatype severity = Info | Warning | Critical

fun severity_rank :: "severity \<Rightarrow> nat" where
  "severity_rank Info = 0"
| "severity_rank Warning = 1"
| "severity_rank Critical = 2"

lemma severity_rank_inj: "severity_rank a = severity_rank b \<Longrightarrow> a = b"
  by (cases a; cases b) auto

text \<open>The derived \<^verbatim>\<open>Ord\<close>: declaration order.\<close>

instantiation severity :: linorder
begin

definition less_eq_severity :: "severity \<Rightarrow> severity \<Rightarrow> bool" where
  "less_eq_severity a b = (severity_rank a \<le> severity_rank b)"

definition less_severity :: "severity \<Rightarrow> severity \<Rightarrow> bool" where
  "less_severity a b = (severity_rank a < severity_rank b)"

instance
  by standard (auto simp: less_eq_severity_def less_severity_def intro: severity_rank_inj)

end

fun severity_as_str :: "severity \<Rightarrow> string" where
  "severity_as_str Info = ''info''"
| "severity_as_str Warning = ''warning''"
| "severity_as_str Critical = ''critical''"

fun severity_escalated :: "severity \<Rightarrow> severity" where
  "severity_escalated Info = Warning"
| "severity_escalated Warning = Critical"
| "severity_escalated Critical = Critical"

definition severity_parse :: "string \<Rightarrow> severity" where
  "severity_parse raw =
     (if raw = ''info'' then Info else if raw = ''critical'' then Critical else Warning)"

section \<open>Rule kinds and operators\<close>

datatype rule_kind = Threshold | Anomaly | Predict

fun rule_kind_as_str :: "rule_kind \<Rightarrow> string" where
  "rule_kind_as_str Threshold = ''threshold''"
| "rule_kind_as_str Anomaly = ''anomaly''"
| "rule_kind_as_str Predict = ''predict''"

definition rule_kind_parse :: "string \<Rightarrow> rule_kind" where
  "rule_kind_parse raw =
     (if raw = ''anomaly'' then Anomaly else if raw = ''predict'' then Predict else Threshold)"

datatype operator = Gt | Ge | Lt | Le

fun operator_as_str :: "operator \<Rightarrow> string" where
  "operator_as_str Gt = ''>''"
| "operator_as_str Ge = ''>=''"
| "operator_as_str Lt = ''<''"
| "operator_as_str Le = ''<=''"

definition operator_parse :: "string \<Rightarrow> operator" where
  "operator_parse raw =
     (if raw = ''>='' then Ge else if raw = ''<'' then Lt else if raw = ''<='' then Le else Gt)"

text \<open>\<^verbatim>\<open>Operator::test\<close>: a value that is not finite never violates a threshold.\<close>

definition operator_test :: "operator \<Rightarrow> f64 \<Rightarrow> f64 \<Rightarrow> bool" where
  "operator_test oper value threshold =
     (if \<not> is_finite value then False
      else case oper of
          Gt \<Rightarrow> f64_lt threshold value
        | Ge \<Rightarrow> f64_le threshold value
        | Lt \<Rightarrow> f64_lt value threshold
        | Le \<Rightarrow> f64_le value threshold)"

text \<open>\<^verbatim>\<open>Operator::holds\<close>: the test with hysteresis.\<close>

definition operator_holds :: "operator \<Rightarrow> f64 \<Rightarrow> f64 \<Rightarrow> f64 option \<Rightarrow> bool \<Rightarrow> bool" where
  "operator_holds oper value threshold clear active =
     (if operator_test oper value threshold then True
      else case clear of
          None \<Rightarrow> False
        | Some c \<Rightarrow>
            if \<not> is_finite c then False
            else if \<not> active \<or> \<not> is_finite value then False
            else case oper of
                Gt \<Rightarrow> f64_lt c threshold \<and> f64_le c value
              | Ge \<Rightarrow> f64_lt c threshold \<and> f64_le c value
              | Lt \<Rightarrow> f64_lt threshold c \<and> f64_le value c
              | Le \<Rightarrow> f64_lt threshold c \<and> f64_le value c)"

section \<open>Targets, selectors, rules\<close>

record target_node =
  tn_id :: target_id
  tn_name :: string
  tn_address :: string
  tn_kind :: string
  tn_parent_id :: "target_id option"
  tn_via_agent :: "target_id option"
  tn_tags :: labels
  tn_enabled :: bool
  tn_unreachable :: bool

datatype target_selector = SelAll | SelIds "target_id list" | SelLabels labels

fun selector_matches :: "target_selector \<Rightarrow> target_node option \<Rightarrow> bool" where
  "selector_matches SelAll target = True"
| "selector_matches (SelIds ids) target =
     (case target of None \<Rightarrow> False | Some t \<Rightarrow> tn_id t \<in> set ids)"
| "selector_matches (SelLabels ls) target =
     (case target of None \<Rightarrow> False
      | Some t \<Rightarrow> list_all (\<lambda>(key, value). map_of (tn_tags t) key = Some value) ls)"

record anomaly_params =
  ap_k :: f64
  ap_alpha :: f64
  ap_mad_floor_abs :: f64
  ap_mad_floor_rel :: f64
  ap_min_samples :: nat

definition anomaly_params_default :: anomaly_params where
  "anomaly_params_default =
     \<lparr>ap_k = round64 (35 / 10), ap_alpha = round64 (5 / 100),
      ap_mad_floor_abs = round64 (1 / 1000000), ap_mad_floor_rel = round64 (1 / 100),
      ap_min_samples = 3\<rparr>"

record rule =
  ru_id :: int
  ru_uid :: string
  ru_name :: string
  ru_description :: string
  ru_kind :: rule_kind
  ru_query :: string
  ru_operator :: operator
  ru_threshold :: f64
  ru_clear_threshold :: "f64 option"
  ru_for_duration :: duration
  ru_severity :: severity
  ru_selector :: target_selector
  ru_channels :: "int list"
  ru_params :: anomaly_params
  ru_unit :: string
  ru_repeat_interval :: "duration option"
  ru_escalate_after :: "duration option"
  ru_enabled :: bool
  ru_builtin :: bool

definition is_host_down :: "rule \<Rightarrow> bool" where
  "is_host_down r = (ru_uid r = RULE_HOST_DOWN)"

text \<open>One instant point of a series, as a query returns it.\<close>

record series_point =
  sp_labels :: labels
  sp_value :: f64
  sp_ts_ms :: int

section \<open>Series keys and fingerprints\<close>

text \<open>FNV-1a on 64 bits, byte by byte, with wrapping multiplication.\<close>

definition fnv1a64 :: "string \<Rightarrow> 64 word" where
  "fnv1a64 input =
     fold (\<lambda>byte hash. xor hash (of_char byte) * 0x00000100000001b3) input 0xcbf29ce484222325"

definition fingerprint :: "string \<Rightarrow> string \<Rightarrow> string" where
  "fingerprint rule_uid series_key = rule_uid @ ''@'' @ hex16 (fnv1a64 series_key)"

definition TAG_LABEL_PREFIX :: string where
  "TAG_LABEL_PREFIX = ''tag_''"

definition NAME_LABEL :: string where
  "NAME_LABEL = ''__name__''"

fun render_labels :: "bool \<Rightarrow> (string \<times> string) list \<Rightarrow> string" where
  "render_labels first [] = (if first then [] else ''}'')"
| "render_labels first ((label, value) # rest) =
     (if first then ''{'' else '','') @ label @ ''='' @ [CHR 0x22] @ value @ [CHR 0x22] @
     render_labels False rest"

definition render_key :: "labels \<Rightarrow> (string \<Rightarrow> bool) \<Rightarrow> string" where
  "render_key ls keep =
     (case map_of ls NAME_LABEL of None \<Rightarrow> [] | Some n \<Rightarrow> n) @
     render_labels True (filter (\<lambda>(k, _). k \<noteq> NAME_LABEL \<and> keep k) ls)"

definition series_key :: "labels \<Rightarrow> string" where
  "series_key ls = render_key ls (\<lambda>_. True)"

definition carries_target_id :: "labels \<Rightarrow> bool" where
  "carries_target_id ls = list_ex (\<lambda>label. map_of ls label \<noteq> None) TARGET_ID_LABELS"

definition descriptive_label :: "string \<Rightarrow> bool" where
  "descriptive_label label =
     (label \<in> set TARGET_NAME_LABELS \<or> starts_with label TAG_LABEL_PREFIX)"

definition identity_key :: "labels \<Rightarrow> string" where
  "identity_key ls =
     (if \<not> carries_target_id ls then series_key ls
      else render_key ls
        (\<lambda>label. label \<notin> set TARGET_NAME_LABELS \<and> \<not> starts_with label TAG_LABEL_PREFIX))"

section \<open>Severities\<close>

lemma severity_order [simp]:
  "Info < Warning" "Warning < Critical" "Info < Critical"
  "Info \<le> s" "s \<le> Critical" "\<not> s < Info" "\<not> Critical < s"
  by (cases s; simp add: less_severity_def less_eq_severity_def)+

lemma severity_escalated_ge: "s \<le> severity_escalated s"
  by (cases s) (auto simp: less_eq_severity_def)

lemma severity_roundtrip [simp]: "severity_parse (severity_as_str s) = s"
  by (cases s) (auto simp: severity_parse_def)

lemma rule_kind_roundtrip [simp]: "rule_kind_parse (rule_kind_as_str k) = k"
  by (cases k) (auto simp: rule_kind_parse_def)

lemma operator_roundtrip [simp]: "operator_parse (operator_as_str oper) = oper"
  by (cases oper) (auto simp: operator_parse_def)

section \<open>Hysteresis\<close>

lemma operator_test_not_finite: "\<not> is_finite v \<Longrightarrow> \<not> operator_test oper v t"
  by (simp add: operator_test_def)

lemma operator_holds_not_finite: "\<not> is_finite v \<Longrightarrow> \<not> operator_holds oper v t c a"
  by (simp add: operator_holds_def operator_test_def split: option.splits)

lemma operator_holds_inactive: "operator_holds oper v t c False = operator_test oper v t"
  by (simp add: operator_holds_def split: option.splits)

lemma operator_holds_no_clear: "operator_holds oper v t None a = operator_test oper v t"
  by (simp add: operator_holds_def)

lemma operator_test_holds: "operator_test oper v t \<Longrightarrow> operator_holds oper v t c a"
  by (simp add: operator_holds_def)

text \<open>
  The clear threshold is coherent with an operator when it lies strictly on the quiet side
  of the threshold; the dead band is the interval between the two, in which a condition
  neither starts nor stops.
\<close>

fun coherent_clear :: "operator \<Rightarrow> rat \<Rightarrow> rat \<Rightarrow> bool" where
  "coherent_clear Gt t c = (c < t)"
| "coherent_clear Ge t c = (c < t)"
| "coherent_clear Lt t c = (t < c)"
| "coherent_clear Le t c = (t < c)"

fun in_dead_band :: "operator \<Rightarrow> rat \<Rightarrow> rat \<Rightarrow> rat \<Rightarrow> bool" where
  "in_dead_band Gt t c v = (c \<le> v \<and> v \<le> t)"
| "in_dead_band Ge t c v = (c \<le> v \<and> v < t)"
| "in_dead_band Lt t c v = (t \<le> v \<and> v \<le> c)"
| "in_dead_band Le t c v = (t < v \<and> v \<le> c)"

text \<open>The condition over successive points: each verdict is the next one's \<open>active\<close>.\<close>

definition condition_run :: "operator \<Rightarrow> f64 \<Rightarrow> f64 option \<Rightarrow> bool \<Rightarrow> f64 list \<Rightarrow> bool" where
  "condition_run oper t c = foldl (\<lambda>active v. operator_holds oper v t c active)"

lemma operator_holds_dead_band:
  assumes "coherent_clear oper t c" and "in_dead_band oper t c v"
  shows "operator_holds oper (Fin v) (Fin t) (Some (Fin c)) active = active"
  using assms by (cases oper) (auto simp: operator_holds_def operator_test_def)

lemma operator_holds_incoherent:
  "\<not> coherent_clear oper t c \<Longrightarrow>
   operator_holds oper v (Fin t) (Some (Fin c)) active = operator_test oper v (Fin t)"
  by (cases oper) (auto simp: operator_holds_def)

section \<open>Identity of an alert\<close>

lemma append_hex16_inject:
  "u @ ''@'' @ hex16 a = v @ ''@'' @ hex16 b \<longleftrightarrow> u = v \<and> hex16 a = hex16 b"
proof
  assume "u @ ''@'' @ hex16 a = v @ ''@'' @ hex16 b"
  then have "(u @ ''@'') @ hex16 a = (v @ ''@'') @ hex16 b" by simp
  then show "u = v \<and> hex16 a = hex16 b" by (subst (asm) append_eq_append_conv) auto
qed simp

text \<open>Fixed-width hexadecimal is injective below its capacity.\<close>

lemma hex_char_inj: "a < 16 \<Longrightarrow> b < 16 \<Longrightarrow> hex_char a = hex_char b \<Longrightarrow> a = b"
proof -
  assume ab: "a < 16" "b < 16" and "hex_char a = hex_char b"
  then have "(of_char (hex_char a) :: nat) = of_char (hex_char b)" by simp
  with ab show "a = b" by (simp add: hex_char_def split: if_splits)
qed

lemma hex_digits_inj:
  "a < 16 ^ k \<Longrightarrow> b < 16 ^ k \<Longrightarrow> hex_digits k a = hex_digits k b \<Longrightarrow> a = b"
proof (induction k arbitrary: a b)
  case (Suc k)
  from Suc.prems(3) have eq: "hex_digits k (a div 16) = hex_digits k (b div 16)"
    "hex_char (a mod 16) = hex_char (b mod 16)" by simp_all
  from eq(2) have "a mod 16 = b mod 16" by (intro hex_char_inj) simp_all
  moreover have "a div 16 < 16 ^ k" "b div 16 < 16 ^ k"
    using Suc.prems by (simp_all add: div_less_iff_less_mult mult.commute)
  then have "a div 16 = b div 16" using Suc.IH eq(1) by blast
  ultimately show ?case by (metis div_mod_decomp)
qed simp

lemma hex16_inj: "hex16 a = hex16 b \<longleftrightarrow> a = b"
proof
  have "unat w < 16 ^ 16" for w :: "64 word" using unsigned_less [of w] by simp
  moreover assume "hex16 a = hex16 b"
  ultimately have "unat a = unat b" unfolding hex16_def by (blast intro: hex_digits_inj)
  then show "a = b" by (rule unsigned_word_eqI)
qed simp

text \<open>Two sorted maps that agree on the kept keys have the same kept entries.\<close>

lemma bt_wf_filter: "bt_wf m \<Longrightarrow> bt_wf (filter P m)"
  unfolding bt_wf_def by (auto simp: sorted_wrt_map sorted_wrt_filter)

lemma map_of_filter_keys:
  "map_of (filter (\<lambda>(k, _). P k) m) k = (if P k then map_of m k else None)"
  by (induction m) auto

lemma entries_from_keys:
  "distinct (map fst m) \<Longrightarrow> map (\<lambda>k. (k, the (map_of m k))) (map fst m) = m"
  by (auto intro!: map_idI)

lemma bt_wf_map_of_eq:
  assumes "bt_wf m" and "bt_wf m'" and "map_of m = map_of m'"
  shows "m = m'"
proof -
  have d: "sorted (map fst m)" "sorted (map fst m')" "distinct (map fst m)" "distinct (map fst m')"
    using assms(1,2) by (simp_all add: bt_wf_def strict_sorted_iff)
  moreover from assms(3) have "set (map fst m) = set (map fst m')"
    by (metis dom_map_of_conv_image_fst list.set_map)
  ultimately have "map fst m = map fst m'" by (simp add: sorted_distinct_set_unique)
  with assms(3) d show ?thesis using entries_from_keys by metis
qed

lemma filter_agree:
  assumes "bt_wf m" and "bt_wf m'" and "\<And>k. P k \<Longrightarrow> map_of m k = map_of m' k"
  shows "filter (\<lambda>(k, _). P k) m = filter (\<lambda>(k, _). P k) m'"
proof (rule bt_wf_map_of_eq)
  show "map_of (filter (\<lambda>(k, _). P k) m) = map_of (filter (\<lambda>(k, _). P k) m')"
    using assms(3) by (auto simp: map_of_filter_keys fun_eq_iff)
qed (use assms(1,2) in \<open>auto intro: bt_wf_filter\<close>)

lemma identity_key_carries:
  "carries_target_id ls \<Longrightarrow> identity_key ls = render_key ls (\<lambda>label. \<not> descriptive_label label)"
  by (simp add: identity_key_def descriptive_label_def)

lemma NAME_LABEL_not_descriptive: "\<not> descriptive_label NAME_LABEL"
  by (simp add: descriptive_label_def NAME_LABEL_def TARGET_NAME_LABELS_def TAG_LABEL_PREFIX_def)

lemma id_labels_not_descriptive: "l \<in> set TARGET_ID_LABELS \<Longrightarrow> \<not> descriptive_label l"
  by (auto simp: descriptive_label_def TARGET_ID_LABELS_def TARGET_NAME_LABELS_def
      TAG_LABEL_PREFIX_def)

section \<open>Properties\<close>

text \<open>
  hysteresis. With a clear threshold coherent with the operator, no sequence of values
  that stays in the dead band between the two thresholds changes the condition, however
  often it oscillates there: an active alert stays active and an inactive one stays inactive.
\<close>

theorem hysteresis_no_chatter:
  assumes "coherent_clear oper t c" and "list_all (in_dead_band oper t c) vs"
  shows "condition_run oper (Fin t) (Some (Fin c)) active (map Fin vs) = active"
  using assms(2)
  by (induction vs arbitrary: active)
    (simp_all add: condition_run_def operator_holds_dead_band [OF assms(1)])

theorem hysteresis_no_chatter_witness:
  "condition_run Gt (Fin 90) (Some (Fin 80)) True (map Fin [85, 90, 80]) = True"
  by (rule hysteresis_no_chatter) simp_all

text \<open>
  the identity of an alert survives a rename. Once a series carries the identifier of
  its target, two label sets that differ only in descriptive labels (the target's name and
  its tags) have the same identity key, hence the same fingerprint under every rule.
\<close>

theorem identity_survives_rename:
  assumes "bt_wf ls" and "bt_wf ls'" and "carries_target_id ls"
    and agree: "\<And>k. \<not> descriptive_label k \<Longrightarrow> map_of ls k = map_of ls' k"
  shows "fingerprint uid (identity_key ls) = fingerprint uid (identity_key ls')"
proof -
  have "carries_target_id ls'"
    using assms(3) agree id_labels_not_descriptive by (auto simp: carries_target_id_def list_ex_iff)
  moreover have "map_of ls NAME_LABEL = map_of ls' NAME_LABEL"
    using agree NAME_LABEL_not_descriptive by blast
  moreover have "filter (\<lambda>(k, _). k \<noteq> NAME_LABEL \<and> \<not> descriptive_label k) ls =
      filter (\<lambda>(k, _). k \<noteq> NAME_LABEL \<and> \<not> descriptive_label k) ls'"
    using assms(1,2) agree by (intro filter_agree) auto
  ultimately show ?thesis using assms(3) by (simp add: identity_key_carries render_key_def)
qed

theorem identity_survives_rename_witness:
  "fingerprint ''up'' (identity_key [(''host'', ''nas''), (''target'', ''4'')]) =
   fingerprint ''up'' (identity_key [(''host'', ''nas-2''), (''tag_site'', ''home''), (''target'', ''4'')])"
proof (rule identity_survives_rename)
  fix k assume k: "\<not> descriptive_label k"
  then have "k \<noteq> ''host''" "k \<noteq> ''tag_site''"
    by (auto simp: descriptive_label_def TARGET_NAME_LABELS_def TAG_LABEL_PREFIX_def)
  then show "map_of [(''host'', ''nas''), (''target'', ''4'')] k =
      map_of [(''host'', ''nas-2''), (''tag_site'', ''home''), (''target'', ''4'')] k" by simp
qed (simp_all add: bt_wf_def carries_target_id_def TARGET_ID_LABELS_def)

text \<open>
  a fingerprint determines its rule and the hash of its series: two alerts collide only
  when they belong to the same rule and their series keys have the same 64-bit hash.
\<close>

theorem fingerprint_injective:
  "fingerprint u k = fingerprint v l \<longleftrightarrow> u = v \<and> fnv1a64 k = fnv1a64 l"
  by (simp only: fingerprint_def append_hex16_inject hex16_inj)

end
