(* ===== verification/Alert_Machine.thy ===== *)
theory Alert_Machine
  imports Alert_Model
begin

text \<open>
  The state machine of one alert (\<^verbatim>\<open>crates/server/src/alerting/machine.rs\<close>): phases, the
  persistent state of a fingerprint, \<^verbatim>\<open>advance\<close>, which moves it by one evaluation cycle,
  and the acknowledgement. The step relation at the end adds what the rest of the server
  does to the stored state between two evaluations (\<^verbatim>\<open>db/alerts.rs\<close>: marking an alert
  notified and setting or clearing its acknowledgement).
\<close>

section \<open>Phases and state\<close>

datatype phase = PhOk | PhPending | PhFiring | PhResolved

fun phase_as_str :: "phase \<Rightarrow> string" where
  "phase_as_str PhOk = ''ok''"
| "phase_as_str PhPending = ''pending''"
| "phase_as_str PhFiring = ''firing''"
| "phase_as_str PhResolved = ''resolved''"

definition phase_parse :: "string \<Rightarrow> phase" where
  "phase_parse raw =
     (if raw = ''pending'' then PhPending else if raw = ''firing'' then PhFiring
      else if raw = ''resolved'' then PhResolved else PhOk)"

definition phase_is_active :: "phase \<Rightarrow> bool" where
  "phase_is_active p = (p = PhFiring)"

datatype effective_phase = EffOk | EffPending | EffFiring | EffResolved | EffSuppressed

fun effective_phase_as_str :: "effective_phase \<Rightarrow> string" where
  "effective_phase_as_str EffOk = ''ok''"
| "effective_phase_as_str EffPending = ''pending''"
| "effective_phase_as_str EffFiring = ''firing''"
| "effective_phase_as_str EffResolved = ''resolved''"
| "effective_phase_as_str EffSuppressed = ''suppressed''"

record alert_state =
  as_phase :: phase
  as_condition_since :: "instant option"
  as_firing_since :: "instant option"
  as_resolved_at :: "instant option"
  as_last_eval_at :: "instant option"
  as_last_notified_at :: "instant option"
  as_notify_count :: nat
  as_suppressed :: bool
  as_suppressed_by :: "int option"
  as_silenced :: bool
  as_learning :: bool
  as_value :: "f64 option"
  as_score :: "f64 option"
  as_acked_until :: "instant option"
  as_acked_by :: "string option"
  as_ack_note :: "string option"

definition alert_state_default :: alert_state where
  "alert_state_default =
     \<lparr>as_phase = PhOk, as_condition_since = None, as_firing_since = None,
      as_resolved_at = None, as_last_eval_at = None, as_last_notified_at = None,
      as_notify_count = 0, as_suppressed = False, as_suppressed_by = None,
      as_silenced = False, as_learning = False, as_value = None, as_score = None,
      as_acked_until = None, as_acked_by = None, as_ack_note = None\<rparr>"

definition is_acked :: "alert_state \<Rightarrow> instant \<Rightarrow> bool" where
  "is_acked s now =
     ((as_phase s = PhFiring \<or> as_phase s = PhPending) \<and>
      (case as_acked_until s of None \<Rightarrow> False | Some until \<Rightarrow> until > now))"

definition clear_ack :: "alert_state \<Rightarrow> alert_state" where
  "clear_ack s = s\<lparr>as_acked_until := None, as_acked_by := None, as_ack_note := None\<rparr>"

definition effective_phase_of :: "alert_state \<Rightarrow> effective_phase" where
  "effective_phase_of s =
     (if as_suppressed s \<and> (as_phase s = PhFiring \<or> as_phase s = PhPending) then EffSuppressed
      else case as_phase s of
          PhOk \<Rightarrow> EffOk
        | PhPending \<Rightarrow> EffPending
        | PhFiring \<Rightarrow> EffFiring
        | PhResolved \<Rightarrow> EffResolved)"

section \<open>One evaluation\<close>

record transition =
  tr_from :: phase
  tr_to :: phase

definition transition_of :: "phase \<Rightarrow> phase \<Rightarrow> transition option" where
  "transition_of from to = (if from \<noteq> to then Some \<lparr>tr_from = from, tr_to = to\<rparr> else None)"

text \<open>
  \<^verbatim>\<open>advance\<close>. A \<open>for\<close> duration beyond the range of \<^verbatim>\<open>TimeDelta\<close> counts as zero
  (\<^verbatim>\<open>from_std(..).unwrap_or_default()\<close>).
\<close>

definition for_delta :: "duration \<Rightarrow> timedelta" where
  "for_delta d = (case from_std d of None \<Rightarrow> 0 | Some t \<Rightarrow> t)"

definition advance_false :: "alert_state \<Rightarrow> instant \<Rightarrow> alert_state" where
  "advance_false previous now =
     (let from = as_phase previous;
          next = previous\<lparr>as_last_eval_at := Some now, as_condition_since := None,
            as_phase := (if from = PhFiring then PhResolved else PhOk)\<rparr>;
          next = clear_ack next
      in if as_phase next = PhResolved then next\<lparr>as_resolved_at := Some now\<rparr>
         else let next = next\<lparr>as_resolved_at := None, as_firing_since := None\<rparr>
              in if from \<noteq> PhOk then next\<lparr>as_last_notified_at := None, as_notify_count := 0\<rparr>
                 else next)"

definition advance_true :: "alert_state \<Rightarrow> instant \<Rightarrow> duration \<Rightarrow> alert_state" where
  "advance_true previous now for_duration =
     (let from = as_phase previous;
          since = (if from = PhPending \<or> from = PhFiring
                   then (case as_condition_since previous of None \<Rightarrow> now | Some t \<Rightarrow> t) else now);
          next = previous\<lparr>as_last_eval_at := Some now, as_condition_since := Some since\<rparr>
      in if from = PhFiring then next
         else if now - since \<ge> for_delta for_duration
              then next\<lparr>as_phase := PhFiring, as_firing_since := Some now, as_resolved_at := None\<rparr>
              else next\<lparr>as_phase := PhPending\<rparr>)"

definition advance ::
  "alert_state \<Rightarrow> bool \<Rightarrow> instant \<Rightarrow> duration \<Rightarrow> alert_state \<times> transition option" where
  "advance previous condition_met now for_duration =
     (if \<not> condition_met then
        (let next = advance_false previous now
         in (next, transition_of (as_phase previous) (as_phase next)))
      else
        (let next = advance_true previous now for_duration
         in (next, if as_phase previous = PhFiring then None
                   else transition_of (as_phase previous) (as_phase next))))"

section \<open>What the server does between two evaluations\<close>

text \<open>\<^verbatim>\<open>mark_notified\<close> on the row of one fingerprint, and \<^verbatim>\<open>set_ack\<close>, whose guard is
  the \<^verbatim>\<open>WHERE phase IN ('pending', 'firing')\<close> of its statement.\<close>

definition mark_notified_state :: "instant \<Rightarrow> alert_state \<Rightarrow> alert_state" where
  "mark_notified_state now s =
     s\<lparr>as_last_notified_at := Some now, as_notify_count := as_notify_count s + 1\<rparr>"

record ack =
  ack_until :: instant
  ack_by :: string
  ack_text :: "string option"

definition set_ack_state :: "ack option \<Rightarrow> alert_state \<Rightarrow> alert_state" where
  "set_ack_state a s =
     (if as_phase s = PhPending \<or> as_phase s = PhFiring then
        (case a of
           None \<Rightarrow> s\<lparr>as_acked_until := None, as_acked_by := None, as_ack_note := None\<rparr>
         | Some x \<Rightarrow> s\<lparr>as_acked_until := Some (ack_until x), as_acked_by := Some (ack_by x),
                        as_ack_note := ack_text x\<rparr>)
      else s)"

section \<open>Lemmas\<close>

lemmas advance_defs = advance_def advance_false_def advance_true_def transition_of_def Let_def

lemma phase_roundtrip [simp]: "phase_parse (phase_as_str p) = p"
  by (cases p) (auto simp: phase_parse_def)

lemma phase_cases_active: "p \<noteq> PhOk \<Longrightarrow> p \<noteq> PhResolved \<Longrightarrow> p = PhPending \<or> p = PhFiring"
  by (cases p) auto

lemma for_delta_nonneg: "0 \<le> for_delta d"
  by (auto simp: for_delta_def from_std_def split: option.splits)

lemma for_delta_std: "int d \<le> timedelta_max \<Longrightarrow> for_delta d = int d"
  by (simp add: for_delta_def from_std_def)

lemma advance_transition_iff:
  "snd (advance s c now d) = transition_of (as_phase s) (as_phase (fst (advance s c now d)))"
  by (auto simp: advance_defs clear_ack_def)

lemma advance_phase:
  "as_phase (fst (advance s c now d)) =
     (if \<not> c then (if as_phase s = PhFiring then PhResolved else PhOk)
      else if as_phase s = PhFiring then PhFiring
      else if now - (if as_phase s = PhPending
                     then (case as_condition_since s of None \<Rightarrow> now | Some t \<Rightarrow> t) else now)
              \<ge> for_delta d then PhFiring else PhPending)"
  by (auto simp: advance_defs clear_ack_def)

lemma advance_notify_count:
  "as_notify_count (fst (advance s c now d)) =
     (if \<not> c \<and> (as_phase s = PhPending \<or> as_phase s = PhResolved) then 0 else as_notify_count s)"
  by (cases "as_phase s") (auto simp: advance_defs clear_ack_def)

lemma advance_last_notified:
  "as_last_notified_at (fst (advance s c now d)) =
     (if \<not> c \<and> (as_phase s = PhPending \<or> as_phase s = PhResolved) then None
      else as_last_notified_at s)"
  by (cases "as_phase s") (auto simp: advance_defs clear_ack_def)

lemma advance_condition_since:
  "as_condition_since (fst (advance s c now d)) =
     (if \<not> c then None
      else Some (if as_phase s = PhPending \<or> as_phase s = PhFiring
                 then (case as_condition_since s of None \<Rightarrow> now | Some t \<Rightarrow> t) else now))"
  by (auto simp: advance_defs clear_ack_def)

lemma advance_eval_at: "as_last_eval_at (fst (advance s c now d)) = Some now"
  by (auto simp: advance_defs clear_ack_def)

section \<open>Invariant and step relation\<close>

text \<open>
  What the fields of a stored state say about each other: the condition is dated exactly in
  the two active phases, a firing alert knows since when, a resolved one when it resolved, a
  quiet one has forgotten its episode, and an acknowledgement is only kept while active.
\<close>

definition state_wf :: "alert_state \<Rightarrow> bool" where
  "state_wf s =
     ((as_condition_since s \<noteq> None \<longleftrightarrow> as_phase s = PhPending \<or> as_phase s = PhFiring) \<and>
      (as_phase s = PhFiring \<longrightarrow> as_firing_since s \<noteq> None \<and> as_resolved_at s = None) \<and>
      (as_phase s = PhResolved \<longrightarrow> as_resolved_at s \<noteq> None \<and> as_firing_since s \<noteq> None) \<and>
      (as_phase s = PhOk \<longrightarrow> as_firing_since s = None \<and> as_resolved_at s = None) \<and>
      (as_phase s = PhOk \<or> as_phase s = PhResolved \<longrightarrow>
         as_acked_until s = None \<and> as_acked_by s = None \<and> as_ack_note s = None) \<and>
      (as_notify_count s > 0 \<longleftrightarrow> as_last_notified_at s \<noteq> None))"

text \<open>
  A step of the life of a stored alert: an evaluation with the overlays reset and computed
  again (suppression, silence, value, score, learning), a notification, an acknowledgement.
\<close>

definition reset_overlays :: "alert_state \<Rightarrow> alert_state" where
  "reset_overlays s = s\<lparr>as_suppressed := False, as_suppressed_by := None, as_silenced := False\<rparr>"

definition set_overlays ::
  "bool \<Rightarrow> int option \<Rightarrow> bool \<Rightarrow> f64 option \<Rightarrow> f64 option \<Rightarrow> bool \<Rightarrow> alert_state \<Rightarrow> alert_state" where
  "set_overlays supp by_id sil v sc learn s =
     s\<lparr>as_suppressed := supp, as_suppressed_by := by_id, as_silenced := sil,
       as_value := v, as_score := sc, as_learning := learn\<rparr>"

inductive alert_step :: "alert_state \<Rightarrow> alert_state \<Rightarrow> bool" where
  step_eval: "alert_step s (set_overlays supp by_id sil v sc learn
      (fst (advance (reset_overlays s) c now d)))"
| step_notified: "alert_step s (mark_notified_state now s)"
| step_ack: "alert_step s (set_ack_state a s)"

inductive alert_reachable :: "alert_state \<Rightarrow> bool" where
  reach_start: "alert_reachable alert_state_default"
| reach_step: "alert_reachable s \<Longrightarrow> alert_step s t \<Longrightarrow> alert_reachable t"

inductive_cases alert_stepE: "alert_step s t"

lemma state_wf_default: "state_wf alert_state_default"
  by (simp add: state_wf_def alert_state_default_def)

lemma state_wf_overlays [simp]:
  "state_wf (set_overlays supp by_id sil v sc learn s) = state_wf s"
  "state_wf (reset_overlays s) = state_wf s"
  by (simp_all add: state_wf_def set_overlays_def reset_overlays_def)

lemma state_wf_advance: "state_wf s \<Longrightarrow> state_wf (fst (advance s c now d))"
  by (cases "as_phase s")
    (auto simp: state_wf_def advance_defs clear_ack_def split: option.splits)

lemma state_wf_advance_reset:
  "state_wf s \<Longrightarrow> state_wf (fst (advance (reset_overlays s) c now d))"
  by (simp add: state_wf_advance)

lemma state_wf_mark_notified: "state_wf s \<Longrightarrow> state_wf (mark_notified_state now s)"
  by (auto simp: state_wf_def mark_notified_state_def)

lemma state_wf_set_ack: "state_wf s \<Longrightarrow> state_wf (set_ack_state a s)"
  by (auto simp: state_wf_def set_ack_state_def split: option.splits)

text \<open>A state machine with an invariant: the contract of the steps and what runs keep.\<close>

locale invariant_machine =
  fixes start :: "'s \<Rightarrow> bool" and step :: "'s \<Rightarrow> 's \<Rightarrow> bool" and invar :: "'s \<Rightarrow> bool"
  assumes invar_start: "start s \<Longrightarrow> invar s"
    and invar_step: "invar s \<Longrightarrow> step s t \<Longrightarrow> invar t"
begin

lemma invar_steps: "step\<^sup>*\<^sup>* s t \<Longrightarrow> invar s \<Longrightarrow> invar t"
  by (induction rule: rtranclp_induct) (auto intro: invar_step)

lemma invar_run: "start s \<Longrightarrow> step\<^sup>*\<^sup>* s t \<Longrightarrow> invar t"
  using invar_start invar_steps by blast

end

interpretation alert_machine:
  invariant_machine "\<lambda>s. s = alert_state_default" alert_step state_wf
  by unfold_locales
    (auto simp: state_wf_default elim!: alert_stepE
      intro: state_wf_advance_reset state_wf_mark_notified state_wf_set_ack)

lemma alert_reachable_steps: "alert_reachable s \<longleftrightarrow> alert_step\<^sup>*\<^sup>* alert_state_default s"
proof
  show "alert_reachable s \<Longrightarrow> alert_step\<^sup>*\<^sup>* alert_state_default s"
    by (induction rule: alert_reachable.induct) (auto intro: rtranclp.rtrancl_into_rtrancl)
  show "alert_step\<^sup>*\<^sup>* alert_state_default s \<Longrightarrow> alert_reachable s"
    by (induction rule: rtranclp_induct) (auto intro: alert_reachable.intros)
qed

section \<open>Runs with a standing condition\<close>

definition evals :: "bool \<Rightarrow> duration \<Rightarrow> instant list \<Rightarrow> alert_state \<Rightarrow> alert_state" where
  "evals c d ts s = foldl (\<lambda>s now. fst (advance s c now d)) s ts"

lemma evals_Nil [simp]: "evals c d [] s = s"
  by (simp add: evals_def)

lemma evals_Cons [simp]: "evals c d (t # ts) s = evals c d ts (fst (advance s c t d))"
  by (simp add: evals_def)

lemma evals_firing_stays: "as_phase s = PhFiring \<Longrightarrow> as_phase (evals True d ts s) = PhFiring"
  by (induction ts arbitrary: s) (auto simp: advance_phase)

lemma evals_pending:
  assumes "as_phase s = PhPending" and "as_condition_since s = Some t0"
  shows "as_phase (evals True d ts s) =
     (if \<exists>t \<in> set ts. for_delta d \<le> t - t0 then PhFiring else PhPending)"
  using assms
proof (induction ts arbitrary: s)
  case (Cons t ts)
  show ?case
  proof (cases "for_delta d \<le> t - t0")
    case True
    with Cons.prems show ?thesis by (simp add: evals_firing_stays advance_phase)
  next
    case False
    with Cons.prems have "as_phase (fst (advance s True t d)) = PhPending"
      "as_condition_since (fst (advance s True t d)) = Some t0"
      by (simp_all add: advance_phase advance_condition_since)
    with Cons.IH False show ?thesis by simp
  qed
qed simp

section \<open>Properties\<close>

text \<open>
  C20: the \<open>for\<close> duration is respected exactly. From an alert that is not active, while the
  condition holds at every evaluation, the alert is firing after the evaluations at
  \<open>t0 # ts\<close> exactly when one of them is at least the duration after \<open>t0\<close>; a clock that
  steps back, or cycles that are missed, change nothing to this.
\<close>

theorem for_duration_exact:
  assumes "as_phase s = PhOk \<or> as_phase s = PhResolved" and "int d \<le> timedelta_max"
  shows "as_phase (evals True d (t0 # ts) s) =
     (if \<exists>t \<in> set (t0 # ts). int d \<le> t - t0 then PhFiring else PhPending)"
proof (cases "d = 0")
  case True
  with assms show ?thesis by (auto simp: evals_firing_stays advance_phase for_delta_std)
next
  case False
  let ?s = "fst (advance s True t0 d)"
  from False assms have "as_phase ?s = PhPending" "as_condition_since ?s = Some t0"
    by (auto simp: advance_phase advance_condition_since for_delta_std)
  then have "as_phase (evals True d ts ?s) =
      (if \<exists>t \<in> set ts. int d \<le> t - t0 then PhFiring else PhPending)"
    using evals_pending for_delta_std [OF assms(2)] by metis
  with False show ?thesis by simp
qed

theorem for_duration_exact_witness:
  "as_phase (evals True 300 [0, 299, 300] alert_state_default) = PhFiring"
  by (subst for_duration_exact) (simp_all add: alert_state_default_def timedelta_max_def)

text \<open>
  the stored state of every alert is well formed whatever sequence of evaluations,
  notifications and acknowledgements it went through.
\<close>

theorem reachable_states_wf: "alert_reachable s \<Longrightarrow> state_wf s"
  using alert_machine.invar_run by (simp add: alert_reachable_steps)

theorem reachable_states_wf_witness:
  "state_wf (set_ack_state (Some \<lparr>ack_until = 9, ack_by = ''admin'', ack_text = None\<rparr>)
     (mark_notified_state 2 (set_overlays False None False None None False
       (fst (advance (reset_overlays alert_state_default) True 1 0)))))"
  by (intro reachable_states_wf alert_reachable.reach_step [OF _ alert_step.step_ack]
      alert_reachable.reach_step [OF _ alert_step.step_notified]
      alert_reachable.reach_step [OF _ alert_step.step_eval] alert_reachable.reach_start)

text \<open>
  the transitions an evaluation can report. It reports one exactly when the phase
  changes, and never anything but: pending or firing from a quiet alert, firing or quiet
  from a pending one, resolved from a firing one, and quiet, pending or firing again from a
  resolved one. In particular an alert never resolves without having fired.
\<close>

theorem advance_transitions_legal:
  "(case snd (advance s c now d) of
      None \<Rightarrow> as_phase (fst (advance s c now d)) = as_phase s
    | Some t \<Rightarrow> tr_from t = as_phase s \<and> tr_to t = as_phase (fst (advance s c now d)) \<and>
        (tr_from t, tr_to t) \<in>
          {(PhOk, PhPending), (PhOk, PhFiring), (PhPending, PhFiring), (PhPending, PhOk),
           (PhFiring, PhResolved), (PhResolved, PhOk), (PhResolved, PhPending),
           (PhResolved, PhFiring)})"
  by (cases "as_phase s") (auto simp: advance_transition_iff transition_of_def advance_phase)

end
