(* ===== verification/Alert_Grouping.thy ===== *)
theory Alert_Grouping
  imports Alert_Machine
begin

text \<open>
  Decision to notify, grouping by host, reminders and escalation
  (\<^verbatim>\<open>crates/server/src/alerting/group.rs\<close>). \<open>decide\<close> says whether an evaluated alert speaks
  at this cycle and why; \<open>group_alerts\<close> turns the alerts that speak into one message per host.
\<close>

section \<open>Reasons, outcomes, messages\<close>

datatype notify_reason =
  NrFiring | NrResolved | NrReminder | NrEscalation | NrUnacked | NrFlapping

fun notify_reason_as_str :: "notify_reason \<Rightarrow> string" where
  "notify_reason_as_str NrFiring = ''firing''"
| "notify_reason_as_str NrResolved = ''resolved''"
| "notify_reason_as_str NrReminder = ''reminder''"
| "notify_reason_as_str NrEscalation = ''escalation''"
| "notify_reason_as_str NrUnacked = ''unacked''"
| "notify_reason_as_str NrFlapping = ''flapping''"

definition notify_reason_parse :: "string \<Rightarrow> notify_reason option" where
  "notify_reason_parse raw =
     (if raw = ''firing'' then Some NrFiring
      else if raw = ''resolved'' then Some NrResolved
      else if raw = ''reminder'' then Some NrReminder
      else if raw = ''escalation'' then Some NrEscalation
      else if raw = ''unacked'' then Some NrUnacked
      else if raw = ''flapping'' then Some NrFlapping
      else None)"

definition is_firing_like :: "notify_reason \<Rightarrow> bool" where
  "is_firing_like r = (r \<noteq> NrResolved)"

record alert_outcome =
  ao_fingerprint :: string
  ao_rule_uid :: string
  ao_rule_name :: string
  ao_target_id :: "target_id option"
  ao_target_name :: string
  ao_series_key :: string
  ao_labels :: labels
  ao_state :: alert_state
  ao_severity :: severity
  ao_value :: "f64 option"
  ao_score :: "f64 option"
  ao_unit :: string
  ao_operator :: string
  ao_threshold :: f64
  ao_channels :: "int list"
  ao_repeat_interval :: "duration option"
  ao_escalate_after :: "duration option"
  ao_unacked_after :: "duration option"
  ao_just_transitioned :: bool

definition outcome_effective_phase :: "alert_outcome \<Rightarrow> effective_phase" where
  "outcome_effective_phase out = effective_phase_of (ao_state out)"

text \<open>A delay counted from the moment the alert fired: \<^verbatim>\<open>escalated_at\<close>, \<^verbatim>\<open>unacked_at\<close>.\<close>

definition escalated_at :: "alert_outcome \<Rightarrow> instant option" where
  "escalated_at out =
     (case ao_escalate_after out of None \<Rightarrow> None | Some d \<Rightarrow>
       (case from_std d of None \<Rightarrow> None | Some after \<Rightarrow>
         (case as_firing_since (ao_state out) of None \<Rightarrow> None | Some since \<Rightarrow> Some (since + after))))"

definition unacked_at :: "alert_outcome \<Rightarrow> instant option" where
  "unacked_at out =
     (case ao_unacked_after out of None \<Rightarrow> None | Some d \<Rightarrow>
       (case from_std d of None \<Rightarrow> None | Some after \<Rightarrow>
         (case as_firing_since (ao_state out) of None \<Rightarrow> None | Some since \<Rightarrow> Some (since + after))))"

definition effective_severity :: "alert_outcome \<Rightarrow> instant \<Rightarrow> severity" where
  "effective_severity out now =
     (if (case escalated_at out of None \<Rightarrow> False | Some t \<Rightarrow> now \<ge> t)
      then severity_escalated (ao_severity out) else ao_severity out)"

section \<open>Whether an alert speaks\<close>

text \<open>A threshold in time that lies between the last notification and now.\<close>

definition crossed :: "instant \<Rightarrow> instant \<Rightarrow> instant option \<Rightarrow> bool" where
  "crossed prev now at' = (case at' of None \<Rightarrow> False | Some t \<Rightarrow> prev < t \<and> now \<ge> t)"

definition decide :: "alert_outcome \<Rightarrow> instant \<Rightarrow> notify_reason option" where
  "decide out now =
     (let s = ao_state out
      in if as_suppressed s \<or> as_silenced s \<or> as_learning s then None
         else case as_phase s of
             PhFiring \<Rightarrow>
               if is_acked s now then None
               else if as_notify_count s = 0 then Some NrFiring
               else (case as_last_notified_at s of
                       None \<Rightarrow> None
                     | Some prev \<Rightarrow>
                         if crossed prev now (escalated_at out) then Some NrEscalation
                         else if crossed prev now (unacked_at out) then Some NrUnacked
                         else (case ao_repeat_interval out of
                                 None \<Rightarrow> None
                               | Some d \<Rightarrow>
                                   (case from_std d of
                                      None \<Rightarrow> None
                                    | Some repeat \<Rightarrow>
                                        if now - prev \<ge> repeat then Some NrReminder else None)))
           | PhResolved \<Rightarrow>
               if as_notify_count s > 0 then
                 (case as_resolved_at s of
                    None \<Rightarrow> None
                  | Some resolved_at \<Rightarrow>
                      (case as_last_notified_at s of
                         None \<Rightarrow> None
                       | Some prev \<Rightarrow> if prev < resolved_at then Some NrResolved else None))
               else None
           | _ \<Rightarrow> None)"

section \<open>Messages\<close>

record group_item =
  gi_fingerprint :: string
  gi_rule_uid :: string
  gi_rule_name :: string
  gi_severity :: severity
  gi_reason :: notify_reason
  gi_value :: "f64 option"
  gi_score :: "f64 option"
  gi_unit :: string
  gi_operator :: string
  gi_threshold :: f64
  gi_series_key :: string
  gi_since :: "instant option"
  gi_phase :: effective_phase
  gi_note :: "string option"

record alert_group =
  ag_target_id :: "target_id option"
  ag_target_name :: string
  ag_target_kind :: string
  ag_target_tags :: labels
  ag_severity :: severity
  ag_items :: "group_item list"
  ag_channels :: "int list"
  ag_at :: instant

definition is_resolution :: "alert_group \<Rightarrow> bool" where
  "is_resolution g = list_all (\<lambda>i. gi_reason i = NrResolved) (ag_items g)"

definition item_of :: "alert_outcome \<Rightarrow> notify_reason \<Rightarrow> instant \<Rightarrow> group_item" where
  "item_of out reason now =
     \<lparr>gi_fingerprint = ao_fingerprint out, gi_rule_uid = ao_rule_uid out,
      gi_rule_name = ao_rule_name out, gi_severity = effective_severity out now,
      gi_reason = reason, gi_value = ao_value out, gi_score = ao_score out,
      gi_unit = ao_unit out, gi_operator = ao_operator out, gi_threshold = ao_threshold out,
      gi_series_key = ao_series_key out, gi_since = as_firing_since (ao_state out),
      gi_phase = outcome_effective_phase out, gi_note = None\<rparr>"

definition empty_group :: "target_id option \<Rightarrow> string \<Rightarrow> instant \<Rightarrow> alert_group" where
  "empty_group target name now =
     \<lparr>ag_target_id = target, ag_target_name = name, ag_target_kind = [], ag_target_tags = [],
      ag_severity = Info, ag_items = [], ag_channels = [], ag_at = now\<rparr>"

definition push_channel :: "int list \<Rightarrow> int \<Rightarrow> int list" where
  "push_channel cs c = (if c \<in> set cs then cs else cs @ [c])"

text \<open>Descending severity, then ascending name: the comparison of the two stable sorts.\<close>

definition sev_desc :: "severity \<Rightarrow> nat" where
  "sev_desc s = 2 - severity_rank s"

definition sort_items :: "group_item list \<Rightarrow> group_item list" where
  "sort_items = sort_key (\<lambda>i. (sev_desc (gi_severity i), gi_rule_name i))"

definition sort_groups :: "alert_group list \<Rightarrow> alert_group list" where
  "sort_groups = sort_key (\<lambda>g. (sev_desc (ag_severity g), ag_target_name g))"

section \<open>Grouping\<close>

record group_acc =
  ga_groups :: "(target_id option, alert_group) btree_map"
  ga_seen :: "string set"
  ga_broadcast :: "target_id option set"

definition add_line :: "alert_outcome \<Rightarrow> notify_reason \<Rightarrow> instant \<Rightarrow> alert_group option \<Rightarrow> alert_group" where
  "add_line out reason now g =
     (let g = (case g of None \<Rightarrow> empty_group (ao_target_id out) (ao_target_name out) now | Some g \<Rightarrow> g);
          g = g\<lparr>ag_severity := max (ag_severity g) (effective_severity out now)\<rparr>;
          g = g\<lparr>ag_channels := foldl push_channel (ag_channels g) (ao_channels out)\<rparr>
      in g\<lparr>ag_items := ag_items g @ [item_of out reason now]\<rparr>)"

definition group_step :: "instant \<Rightarrow> group_acc \<Rightarrow> alert_outcome \<Rightarrow> group_acc" where
  "group_step now acc out =
     (if ao_fingerprint out \<in> ga_seen acc then acc
      else
        (let acc = acc\<lparr>ga_seen := insert (ao_fingerprint out) (ga_seen acc)\<rparr>
         in case decide out now of
              None \<Rightarrow> acc
            | Some reason \<Rightarrow>
                acc\<lparr>ga_groups := bt_update (ao_target_id out) (add_line out reason now) (ga_groups acc),
                    ga_broadcast := (if ao_channels out = [] then insert (ao_target_id out) (ga_broadcast acc)
                                     else ga_broadcast acc)\<rparr>))"

definition finish_group :: "target_id option set \<Rightarrow> alert_group \<Rightarrow> alert_group" where
  "finish_group broadcast g =
     (let g = (if ag_target_id g \<in> broadcast then g\<lparr>ag_channels := []\<rparr> else g)
      in g\<lparr>ag_items := sort_items (ag_items g)\<rparr>)"

definition group_alerts :: "alert_outcome list \<Rightarrow> instant \<Rightarrow> alert_group list" where
  "group_alerts outcomes now =
     (let acc = foldl (group_step now) \<lparr>ga_groups = [], ga_seen = {}, ga_broadcast = {}\<rparr> outcomes
      in sort_groups (map (finish_group (ga_broadcast acc)) (map snd (ga_groups acc))))"

section \<open>Lemmas on the decision\<close>

lemma notify_reason_roundtrip [simp]: "notify_reason_parse (notify_reason_as_str r) = Some r"
  by (cases r) (auto simp: notify_reason_parse_def)

lemma decide_muted:
  "as_suppressed (ao_state out) \<or> as_silenced (ao_state out) \<or> as_learning (ao_state out) \<Longrightarrow>
   decide out now = None"
  by (simp add: decide_def Let_def)

lemma decide_never_flapping: "decide out now \<noteq> Some NrFlapping"
  by (auto simp: decide_def Let_def split: phase.splits option.splits)

lemma decide_phase:
  "decide out now = Some r \<Longrightarrow>
     (r = NrResolved \<and> as_phase (ao_state out) = PhResolved) \<or>
     (r \<noteq> NrResolved \<and> as_phase (ao_state out) = PhFiring)"
  by (auto simp: decide_def Let_def split: phase.splits option.splits if_splits)

lemma decide_firing_iff:
  "decide out now = Some NrFiring \<longleftrightarrow>
     \<not> as_suppressed (ao_state out) \<and> \<not> as_silenced (ao_state out) \<and> \<not> as_learning (ao_state out) \<and>
     as_phase (ao_state out) = PhFiring \<and> \<not> is_acked (ao_state out) now \<and>
     as_notify_count (ao_state out) = 0"
  by (auto simp: decide_def Let_def split: phase.splits option.splits if_splits)

lemma decide_not_acked: "is_acked (ao_state out) now \<Longrightarrow> decide out now = None"
  by (auto simp: decide_def is_acked_def Let_def split: phase.splits)

text \<open>What the server records after a notification, seen from the next cycle.\<close>

definition notified :: "instant \<Rightarrow> alert_outcome \<Rightarrow> alert_outcome" where
  "notified now out = out\<lparr>ao_state := mark_notified_state now (ao_state out)\<rparr>"

lemma notified_simps [simp]:
  "escalated_at (notified now out) = escalated_at out"
  "unacked_at (notified now out) = unacked_at out"
  "as_phase (ao_state (notified now out)) = as_phase (ao_state out)"
  "as_resolved_at (ao_state (notified now out)) = as_resolved_at (ao_state out)"
  "as_last_notified_at (ao_state (notified now out)) = Some now"
  "as_notify_count (ao_state (notified now out)) = as_notify_count (ao_state out) + 1"
  by (simp_all add: escalated_at_def unacked_at_def notified_def mark_notified_state_def
      split: option.splits)

lemma crossed_once: "crossed prev now at' \<Longrightarrow> \<not> crossed now t at'"
  by (auto simp: crossed_def split: option.splits)

lemma decide_escalation_crossed:
  "decide out now = Some NrEscalation \<Longrightarrow>
     \<exists>prev. as_last_notified_at (ao_state out) = Some prev \<and> crossed prev now (escalated_at out)"
  by (auto simp: decide_def Let_def split: phase.splits option.splits if_splits)

lemma decide_unacked_crossed:
  "decide out now = Some NrUnacked \<Longrightarrow>
     \<exists>prev. as_last_notified_at (ao_state out) = Some prev \<and> crossed prev now (unacked_at out)"
  by (auto simp: decide_def Let_def split: phase.splits option.splits if_splits)

lemma decide_resolved_late:
  "decide out now = Some NrResolved \<Longrightarrow>
     \<exists>r prev. as_resolved_at (ao_state out) = Some r \<and>
       as_last_notified_at (ao_state out) = Some prev \<and> prev < r"
  by (auto simp: decide_def Let_def split: phase.splits option.splits if_splits)

section \<open>Reference for the grouping\<close>

text \<open>
  The alerts that speak: the first occurrence of each fingerprint, kept when \<open>decide\<close>
  gives a reason. \<open>spec_group\<close> is the message of one target, said directly from them.
\<close>

fun first_by :: "('a \<Rightarrow> 'k) \<Rightarrow> 'k set \<Rightarrow> 'a list \<Rightarrow> 'a list" where
  "first_by f seen [] = []"
| "first_by f seen (x # xs) =
     (if f x \<in> seen then first_by f seen xs else x # first_by f (insert (f x) seen) xs)"

type_synonym line = "alert_outcome \<times> notify_reason"

definition reasons :: "instant \<Rightarrow> alert_outcome list \<Rightarrow> line list" where
  "reasons now outs = List.map_filter (\<lambda>out. map_option (Pair out) (decide out now)) outs"

definition speaking :: "alert_outcome list \<Rightarrow> instant \<Rightarrow> line list" where
  "speaking outs now = reasons now (first_by ao_fingerprint {} outs)"

definition lines_of :: "line list \<Rightarrow> target_id option \<Rightarrow> line list" where
  "lines_of ls t = filter (\<lambda>(out, r). ao_target_id out = t) ls"

definition raw_group :: "line list \<Rightarrow> target_id option \<Rightarrow> instant \<Rightarrow> alert_group" where
  "raw_group ls t now =
     \<lparr>ag_target_id = t, ag_target_name = ao_target_name (fst (hd ls)), ag_target_kind = [],
      ag_target_tags = [],
      ag_severity = foldl max Info (map (\<lambda>(out, r). effective_severity out now) ls),
      ag_items = map (\<lambda>(out, r). item_of out r now) ls,
      ag_channels = foldl push_channel [] (concat (map (ao_channels \<circ> fst) ls)), ag_at = now\<rparr>"

definition spec_group :: "line list \<Rightarrow> instant \<Rightarrow> target_id option \<Rightarrow> alert_group" where
  "spec_group ls now t =
     (let g = raw_group (lines_of ls t) t now
      in g\<lparr>ag_items := sort_items (ag_items g),
           ag_channels := (if \<exists>(out, r) \<in> set (lines_of ls t). ao_channels out = [] then []
                           else ag_channels g)\<rparr>)"

lemma first_by_in: "x \<in> set (first_by f seen xs) \<Longrightarrow> x \<in> set xs \<and> f x \<notin> seen"
  by (induction f seen xs rule: first_by.induct) (auto split: if_splits)

lemma first_by_distinct: "distinct (map f (first_by f seen xs))"
  by (induction f seen xs rule: first_by.induct) (auto dest: first_by_in)

lemma first_by_keys: "f ` set (first_by f seen xs) = f ` set xs - seen"
  by (induction f seen xs rule: first_by.induct) auto

lemma first_by_id: "distinct (map f xs) \<Longrightarrow> f ` set xs \<inter> seen = {} \<Longrightarrow> first_by f seen xs = xs"
  by (induction f seen xs rule: first_by.induct) auto

lemma reasons_simps [simp]:
  "reasons now [] = []"
  "reasons now (out # outs) =
     (case decide out now of None \<Rightarrow> reasons now outs | Some r \<Rightarrow> (out, r) # reasons now outs)"
  by (simp_all add: reasons_def List.map_filter_simps split: option.splits)

lemma in_reasons: "(out, r) \<in> set (reasons now outs) \<longleftrightarrow> out \<in> set outs \<and> decide out now = Some r"
  by (induction outs) (auto split: option.splits)

lemma reasons_fingerprints: "distinct (map f outs) \<Longrightarrow> distinct (map (f \<circ> fst) (reasons now outs))"
  by (induction outs) (force simp: in_reasons split: option.splits)+

lemma speaking_distinct: "distinct (map (ao_fingerprint \<circ> fst) (speaking outs now))"
  by (simp add: speaking_def reasons_fingerprints first_by_distinct)

text \<open>The fold of the code is a fold of \<open>add_line\<close> over the lines that speak.\<close>

definition add_speaker :: "instant \<Rightarrow> group_acc \<Rightarrow> line \<Rightarrow> group_acc" where
  "add_speaker now acc l =
     acc\<lparr>ga_groups := bt_update (ao_target_id (fst l)) (add_line (fst l) (snd l) now) (ga_groups acc),
         ga_broadcast := (if ao_channels (fst l) = [] then insert (ao_target_id (fst l)) (ga_broadcast acc)
                          else ga_broadcast acc)\<rparr>"

lemma add_speaker_seen:
  "add_speaker now (acc\<lparr>ga_seen := S\<rparr>) l = (add_speaker now acc l)\<lparr>ga_seen := S\<rparr>"
  by (simp add: add_speaker_def)

lemma foldl_add_speaker_seen:
  "foldl (add_speaker now) (acc\<lparr>ga_seen := S\<rparr>) ls = (foldl (add_speaker now) acc ls)\<lparr>ga_seen := S\<rparr>"
  by (induction ls arbitrary: acc) (simp_all add: add_speaker_seen)

lemma group_step_cases:
  "group_step now acc out =
     (if ao_fingerprint out \<in> ga_seen acc then acc
      else case decide out now of
          None \<Rightarrow> acc\<lparr>ga_seen := insert (ao_fingerprint out) (ga_seen acc)\<rparr>
        | Some r \<Rightarrow> (add_speaker now acc (out, r))\<lparr>ga_seen := insert (ao_fingerprint out) (ga_seen acc)\<rparr>)"
  by (simp add: group_step_def add_speaker_def Let_def split: option.splits)

lemma group_fold:
  "\<exists>S. foldl (group_step now) acc outs =
     (foldl (add_speaker now) acc (reasons now (first_by ao_fingerprint (ga_seen acc) outs)))\<lparr>ga_seen := S\<rparr>"
proof (induction outs arbitrary: acc)
  case Nil
  have "acc = acc\<lparr>ga_seen := ga_seen acc\<rparr>" by simp
  then show ?case by (auto intro: exI [of _ "ga_seen acc"])
next
  case (Cons out outs)
  let ?S = "insert (ao_fingerprint out) (ga_seen acc)"
  show ?case
    using Cons.IH [of acc] Cons.IH [of "acc\<lparr>ga_seen := ?S\<rparr>"]
      Cons.IH [of "(add_speaker now acc (out, the (decide out now)))\<lparr>ga_seen := ?S\<rparr>"]
    by (auto simp: group_step_cases foldl_add_speaker_seen split: option.splits)
qed

text \<open>What the fold holds after the lines \<open>ls\<close>.\<close>

definition acc_ok :: "instant \<Rightarrow> line list \<Rightarrow> group_acc \<Rightarrow> bool" where
  "acc_ok now ls acc =
     (bt_wf (ga_groups acc) \<and>
      (\<forall>t. map_of (ga_groups acc) t =
         (if lines_of ls t = [] then None else Some (raw_group (lines_of ls t) t now))) \<and>
      ga_broadcast acc = {ao_target_id out | out r. (out, r) \<in> set ls \<and> ao_channels out = []})"

lemma add_line_raw:
  "add_line out r now (if ls = [] then None else Some (raw_group ls (ao_target_id out) now)) =
     raw_group (ls @ [(out, r)]) (ao_target_id out) now"
  by (simp add: add_line_def raw_group_def empty_group_def Let_def hd_append)

lemma lines_of_snoc [simp]:
  "lines_of (ls @ [(out, r)]) t =
     (if ao_target_id out = t then lines_of ls t @ [(out, r)] else lines_of ls t)"
  by (simp add: lines_of_def)

lemma acc_ok_start: "acc_ok now [] \<lparr>ga_groups = [], ga_seen = {}, ga_broadcast = {}\<rparr>"
  by (simp add: acc_ok_def lines_of_def)

lemma acc_ok_step: "acc_ok now ls acc \<Longrightarrow> acc_ok now (ls @ [l]) (add_speaker now acc l)"
proof -
  assume ok: "acc_ok now ls acc"
  obtain out r where l: "l = (out, r)" by (cases l)
  have "map_of (ga_groups (add_speaker now acc l)) t =
      (if lines_of (ls @ [l]) t = [] then None
       else Some (raw_group (lines_of (ls @ [l]) t) t now))" for t
    using ok add_line_raw [of out r now "lines_of ls t"]
    by (cases "t = ao_target_id out")
      (simp_all add: acc_ok_def add_speaker_def map_of_bt_update l split: if_splits)
  with ok show ?thesis
    by (auto simp: acc_ok_def add_speaker_def bt_wf_update l)
qed

lemma acc_ok_fold: "acc_ok now ls acc \<Longrightarrow> acc_ok now (ls @ ls') (foldl (add_speaker now) acc ls')"
proof (induction ls' arbitrary: ls acc)
  case (Cons l ls')
  from Cons.IH [OF acc_ok_step [OF Cons.prems]] show ?case by simp
qed simp

lemma group_acc_ok:
  "\<exists>acc. acc_ok now (speaking outs now) acc \<and>
     group_alerts outs now = sort_groups (map (finish_group (ga_broadcast acc)) (map snd (ga_groups acc)))"
proof -
  let ?start = "\<lparr>ga_groups = [], ga_seen = {}, ga_broadcast = {}\<rparr> :: group_acc"
  obtain S where S: "foldl (group_step now) ?start outs =
      (foldl (add_speaker now) ?start (speaking outs now))\<lparr>ga_seen := S\<rparr>"
    using group_fold [of now ?start outs] by (auto simp: speaking_def)
  have "acc_ok now (speaking outs now) (foldl (add_speaker now) ?start (speaking outs now))"
    using acc_ok_fold [OF acc_ok_start] by simp
  with S show ?thesis
    by (intro exI [of _ "foldl (group_step now) ?start outs"]) (simp add: acc_ok_def group_alerts_def)
qed

lemma raw_group_target [simp]: "ag_target_id (raw_group ls t now) = t"
  by (simp add: raw_group_def)

lemma spec_group_target [simp]: "ag_target_id (spec_group ls now t) = t"
  by (simp add: spec_group_def Let_def)

lemma finish_raw_group:
  "broadcast = {ao_target_id out | out r. (out, r) \<in> set ls \<and> ao_channels out = []} \<Longrightarrow>
   finish_group broadcast (raw_group (lines_of ls t) t now) = spec_group ls now t"
  by (auto simp: finish_group_def spec_group_def lines_of_def Let_def)

lemma lines_of_nonempty: "lines_of ls t \<noteq> [] \<longleftrightarrow> t \<in> (ao_target_id \<circ> fst) ` set ls"
  by (force simp: lines_of_def filter_empty_conv image_iff)

lemma acc_ok_groups:
  assumes "acc_ok now ls acc"
  shows "map (finish_group (ga_broadcast acc)) (map snd (ga_groups acc)) =
      map (spec_group ls now) (map fst (ga_groups acc))"
    and "set (map fst (ga_groups acc)) = (ao_target_id \<circ> fst) ` set ls"
    and "distinct (map fst (ga_groups acc))"
proof -
  from assms have wf: "bt_wf (ga_groups acc)"
    and lk: "map_of (ga_groups acc) t = (if lines_of ls t = [] then None
        else Some (raw_group (lines_of ls t) t now))" for t
    by (auto simp: acc_ok_def)
  have "finish_group (ga_broadcast acc) g = spec_group ls now t" if "(t, g) \<in> set (ga_groups acc)" for t g
    using bt.entries_in [OF wf] that lk [of t] assms finish_raw_group [of "ga_broadcast acc" ls t now]
    by (auto simp: acc_ok_def split: if_splits)
  then show "map (finish_group (ga_broadcast acc)) (map snd (ga_groups acc)) =
      map (spec_group ls now) (map fst (ga_groups acc))" by force
  have "t \<in> fst ` set (ga_groups acc) \<longleftrightarrow> lines_of ls t \<noteq> []" for t
    using lk [of t] by (metis domIff dom_map_of_conv_image_fst option.distinct(1))
  then show "set (map fst (ga_groups acc)) = (ao_target_id \<circ> fst) ` set ls"
    by (auto simp: lines_of_nonempty)
  show "distinct (map fst (ga_groups acc))" by (rule bt.entries_distinct [OF wf])
qed

lemma group_alerts_targets: "distinct (map ag_target_id (group_alerts outs now))"
proof -
  obtain acc where acc: "acc_ok now (speaking outs now) acc"
    "group_alerts outs now = sort_groups (map (finish_group (ga_broadcast acc)) (map snd (ga_groups acc)))"
    using group_acc_ok by blast
  then show ?thesis
    unfolding acc(2) sort_groups_def distinct_map_sort_key acc_ok_groups(1) [OF acc(1)]
    using acc_ok_groups(3) [OF acc(1)] by (simp add: o_def)
qed

lemma group_alerts_set:
  "set (group_alerts outs now) =
     spec_group (speaking outs now) now ` (ao_target_id \<circ> fst) ` set (speaking outs now)"
proof -
  obtain acc where acc: "acc_ok now (speaking outs now) acc"
    "group_alerts outs now = sort_groups (map (finish_group (ga_broadcast acc)) (map snd (ga_groups acc)))"
    using group_acc_ok by blast
  then show ?thesis
    unfolding acc(2) sort_groups_def set_sort_key acc_ok_groups(1) [OF acc(1)] set_map
    using acc_ok_groups(2) [OF acc(1)] by simp
qed

lemma mset_partition:
  assumes "distinct ts" and "k ` set xs \<subseteq> set ts"
  shows "mset (concat (map (\<lambda>t. filter (\<lambda>x. k x = t) xs) ts)) = mset xs"
  using assms
proof (induction ts arbitrary: xs)
  case (Cons t ts)
  let ?rest = "filter (\<lambda>x. k x \<noteq> t) xs"
  have "k ` set ?rest \<subseteq> set ts" using Cons.prems by auto
  then have IH: "mset (concat (map (\<lambda>u. filter (\<lambda>x. k x = u) ?rest) ts)) = mset ?rest"
    by (intro Cons.IH) (use Cons.prems in simp_all)
  have "filter (\<lambda>x. k x = u) ?rest = filter (\<lambda>x. k x = u) xs" if "u \<in> set ts" for u
    using that Cons.prems by (auto intro: filter_cong)
  then have "map (\<lambda>u. filter (\<lambda>x. k x = u) ?rest) ts = map (\<lambda>u. filter (\<lambda>x. k x = u) xs) ts"
    by (intro map_cong) simp_all
  with IH have "mset (concat (map (\<lambda>u. filter (\<lambda>x. k x = u) xs) ts)) = mset ?rest"
    by (simp only:)
  then show ?case
    using multiset_partition [of "mset xs" "\<lambda>x. k x = t"] by (simp flip: mset_filter)
qed simp

lemma mset_concat_sort_key:
  "mset (concat (map h (sort_key f xs))) = mset (concat (map h xs))"
  by (metis mset_concat mset_map mset_sort mset_map sum_mset_sum_list)

lemma mset_concat_cong:
  "(\<And>x. x \<in> set xs \<Longrightarrow> mset (g x) = mset (h x)) \<Longrightarrow>
   mset (concat (map g xs)) = mset (concat (map h xs))"
  by (induction xs) auto

definition line_item :: "instant \<Rightarrow> line \<Rightarrow> group_item" where
  "line_item now l = item_of (fst l) (snd l) now"

lemma spec_group_items:
  "mset (ag_items (spec_group ls now t)) =
     mset (map (line_item now) (filter (\<lambda>l. ao_target_id (fst l) = t) ls))"
  by (simp add: spec_group_def raw_group_def sort_items_def lines_of_def Let_def split_def
      line_item_def [abs_def])

lemma group_alerts_items:
  "mset (concat (map ag_items (group_alerts outs now))) = mset (map (line_item now) (speaking outs now))"
proof -
  let ?ls = "speaking outs now"
  obtain acc where acc: "acc_ok now ?ls acc"
    "group_alerts outs now = sort_groups (map (finish_group (ga_broadcast acc)) (map snd (ga_groups acc)))"
    using group_acc_ok by blast
  let ?ts = "map fst (ga_groups acc)"
  have "mset (concat (map ag_items (group_alerts outs now))) =
      mset (concat (map (\<lambda>t. ag_items (spec_group ?ls now t)) ?ts))"
    unfolding acc(2) sort_groups_def mset_concat_sort_key acc_ok_groups(1) [OF acc(1)]
    by (simp add: o_def)
  also have "\<dots> = mset (concat (map (\<lambda>t. map (line_item now) (filter (\<lambda>l. ao_target_id (fst l) = t) ?ls)) ?ts))"
    by (rule mset_concat_cong) (rule spec_group_items)
  also have "\<dots> = mset (map (line_item now)
      (concat (map (\<lambda>t. filter (\<lambda>l. ao_target_id (fst l) = t) ?ls) ?ts)))"
    by (simp add: map_concat o_def)
  also have "\<dots> = mset (map (line_item now) ?ls)"
    unfolding mset_map
    by (subst mset_partition) (use acc_ok_groups(2,3) [OF acc(1)] in \<open>auto simp: o_def\<close>)
  finally show ?thesis .
qed

section \<open>Runs of one episode\<close>

text \<open>The reasons one alert gives at the cycles \<open>ts\<close>, each of them recorded as sent.\<close>

fun speak_run :: "alert_outcome \<Rightarrow> instant list \<Rightarrow> notify_reason list" where
  "speak_run out [] = []"
| "speak_run out (t # ts) =
     (case decide out t of
        None \<Rightarrow> speak_run out ts
      | Some r \<Rightarrow> r # speak_run (notified t out) ts)"

text \<open>A reason that is spent: what it announces is not after the last notification.\<close>

definition spent :: "notify_reason \<Rightarrow> alert_outcome \<Rightarrow> instant \<Rightarrow> bool" where
  "spent r out prev =
     (case r of
        NrFiring \<Rightarrow> True
      | NrResolved \<Rightarrow> (case as_resolved_at (ao_state out) of None \<Rightarrow> True | Some t \<Rightarrow> t \<le> prev)
      | NrEscalation \<Rightarrow> (case escalated_at out of None \<Rightarrow> True | Some t \<Rightarrow> t \<le> prev)
      | NrUnacked \<Rightarrow> (case unacked_at out of None \<Rightarrow> True | Some t \<Rightarrow> t \<le> prev)
      | NrFlapping \<Rightarrow> True
      | NrReminder \<Rightarrow> False)"

lemma spent_notified [simp]: "spent r (notified t out) = spent r out"
  by (rule ext) (simp add: spent_def split: notify_reason.splits)

lemma spent_mono: "spent r out prev \<Longrightarrow> prev \<le> t \<Longrightarrow> spent r out t"
  by (auto simp: spent_def split: notify_reason.splits option.splits)

lemma decide_not_spent:
  assumes "spent r out prev" and "as_last_notified_at (ao_state out) = Some prev"
    and "as_notify_count (ao_state out) > 0"
  shows "decide out t \<noteq> Some r"
  using assms decide_never_flapping [of out t]
  by (cases r) (auto simp: spent_def decide_firing_iff crossed_def
      dest!: decide_escalation_crossed decide_unacked_crossed decide_resolved_late
      split: option.splits)

lemma speak_run_spent:
  assumes "spent r out prev" and "as_last_notified_at (ao_state out) = Some prev"
    and "as_notify_count (ao_state out) > 0" and "sorted (prev # ts)"
  shows "r \<notin> set (speak_run out ts)"
  using assms
proof (induction ts arbitrary: out prev)
  case (Cons t ts)
  have IH: "r \<notin> set (speak_run out ts)" using Cons by (intro Cons.IH) auto
  have "r \<notin> set (speak_run (notified t out) ts)"
    using Cons.prems by (intro Cons.IH [of _ t]) (auto intro: spent_mono)
  with IH decide_not_spent [OF Cons.prems(1-3)] show ?case by (auto split: option.splits)
qed simp

lemma decide_spends:
  assumes "decide out t = Some r" and "r \<noteq> NrReminder"
    and "\<And>u. as_resolved_at (ao_state out) = Some u \<Longrightarrow> u \<le> t"
  shows "spent r out t"
  using assms decide_never_flapping [of out t]
  by (cases r) (auto simp: spent_def crossed_def
      dest!: decide_escalation_crossed decide_unacked_crossed decide_resolved_late
      split: option.splits)

lemma count_list_le_1: "x \<notin> set xs \<Longrightarrow> count_list (y # xs) x \<le> 1"
  by (simp add: count_list_0_iff)

lemma evals_true_count: "as_notify_count (evals True d ts s) = as_notify_count s"
  by (induction ts arbitrary: s) (simp_all add: advance_notify_count)

section \<open>Properties\<close>

text \<open>
  C7: grouping refines its specification. There is at most one message per host, the
  messages are ordered by falling severity then name, and they are exactly the specified
  messages of the hosts that have an alert that speaks: highest severity of the lines, lines
  sorted by falling severity then rule name, channels in order of first request, or all
  channels as soon as one of the rules asks for all of them.
\<close>

theorem group_alerts_refines:
  "distinct (map ag_target_id (group_alerts outs now)) \<and>
   sorted (map (\<lambda>g. (sev_desc (ag_severity g), ag_target_name g)) (group_alerts outs now)) \<and>
   set (group_alerts outs now) =
     spec_group (speaking outs now) now ` (ao_target_id \<circ> fst) ` set (speaking outs now)"
  using group_alerts_targets group_alerts_set sorted_sort_key
  unfolding group_alerts_def sort_groups_def Let_def by auto

text \<open>
  no line is lost and none is said twice. Over all the messages of a cycle, the lines are
  those of the alerts that speak, as often as they occur there, and no fingerprint occurs on
  two of them.
\<close>

theorem group_alerts_lines:
  "mset (concat (map ag_items (group_alerts outs now))) =
     mset (map (\<lambda>(out, r). item_of out r now) (speaking outs now)) \<and>
   distinct (map gi_fingerprint (concat (map ag_items (group_alerts outs now))))"
proof -
  let ?items = "concat (map ag_items (group_alerts outs now))"
  have "mset (map gi_fingerprint ?items) = mset (map (ao_fingerprint \<circ> fst) (speaking outs now))"
    unfolding mset_map [of gi_fingerprint] group_alerts_items
    by (simp add: multiset.map_comp o_def line_item_def item_of_def)
  then have "distinct (map gi_fingerprint ?items)"
    using speaking_distinct [of outs now] by (metis distinct_count_atmost_1 set_mset_mset)
  then show ?thesis
    using group_alerts_items [of outs now] by (simp add: line_item_def [abs_def] split_def)
qed

text \<open>
  C21: over the cycles of one episode, in the order of time, every announcement other than a
  reminder is made at most once: one firing, one rise of severity, one hand-off to the
  escalation channel, one resolution (whose date is not in the future).
\<close>

theorem announced_at_most_once:
  assumes "sorted ts" and "r \<noteq> NrReminder"
    and "\<And>u t. as_resolved_at (ao_state out) = Some u \<Longrightarrow> t \<in> set ts \<Longrightarrow> u \<le> t"
  shows "count_list (speak_run out ts) r \<le> 1"
  using assms
proof (induction ts arbitrary: out)
  case (Cons t ts)
  show ?case
  proof (cases "decide out t")
    case None
    with Cons show ?thesis by simp
  next
    case (Some r')
    have IH: "count_list (speak_run (notified t out) ts) r \<le> 1"
      using Cons.prems by (intro Cons.IH) auto
    have "r \<notin> set (speak_run (notified t out) ts)" if "r' = r"
      using that Some Cons.prems decide_spends [of out t r]
      by (intro speak_run_spent [of _ _ t]) auto
    with IH Some show ?thesis by (auto simp: count_list_0_iff)
  qed
qed simp

definition sample_outcome :: alert_outcome where
  "sample_outcome =
     \<lparr>ao_fingerprint = ''f'', ao_rule_uid = ''r'', ao_rule_name = ''disk'', ao_target_id = Some 1,
      ao_target_name = ''nas'', ao_series_key = '''', ao_labels = [],
      ao_state = alert_state_default
        \<lparr>as_phase := PhFiring, as_condition_since := Some 0, as_firing_since := Some 0\<rparr>,
      ao_severity = Warning, ao_value = None, ao_score = None, ao_unit = '''', ao_operator = ''>'',
      ao_threshold = Fin 90, ao_channels = [], ao_repeat_interval = Some 10,
      ao_escalate_after = Some 25, ao_unacked_after = Some 40, ao_just_transitioned = True\<rparr>"

lemmas sample_outcome_eval =
  sample_outcome_def alert_state_default_def decide_def is_acked_def escalated_at_def unacked_at_def
  crossed_def notified_def mark_notified_state_def from_std_def timedelta_max_def Let_def

theorem announced_at_most_once_witness:
  "speak_run sample_outcome [0, 5, 10, 30, 45] =
     [NrFiring, NrReminder, NrEscalation, NrUnacked] \<and>
   count_list (speak_run sample_outcome [0, 5, 10, 30, 45]) NrEscalation \<le> 1"
proof
  show "speak_run sample_outcome [0, 5, 10, 30, 45] = [NrFiring, NrReminder, NrEscalation, NrUnacked]"
    by (simp add: sample_outcome_eval)
  show "count_list (speak_run sample_outcome [0, 5, 10, 30, 45]) NrEscalation \<le> 1"
    by (rule announced_at_most_once) (auto simp: sample_outcome_def alert_state_default_def)
qed

text \<open>
  an alert that must be quiet is quiet: suppressed by a dependency, under a silence, learning,
  or acknowledged until after now, it says nothing, whatever its reminders and delays; and when
  an alert speaks, it is firing or it is a resolution of an alert that was announced.
\<close>

theorem decide_quiet_or_justified:
  "(case decide out now of
      None \<Rightarrow> True
    | Some r \<Rightarrow>
        \<not> (as_suppressed (ao_state out) \<or> as_silenced (ao_state out) \<or> as_learning (ao_state out) \<or>
           is_acked (ao_state out) now) \<and>
        (if r = NrResolved
         then as_phase (ao_state out) = PhResolved \<and> as_notify_count (ao_state out) > 0
         else as_phase (ao_state out) = PhFiring) \<and>
        (r \<in> {NrReminder, NrEscalation, NrUnacked} \<longleftrightarrow>
           r \<noteq> NrResolved \<and> as_notify_count (ao_state out) > 0))"
  using decide_never_flapping [of out now]
  by (auto simp: decide_def Let_def is_acked_def split: phase.splits option.splits if_splits)

text \<open>
  reminders do come. A firing alert that was announced, that nothing mutes and that nobody
  acknowledged says something at every cycle at least \<open>repeat_interval\<close> after its last
  notification.
\<close>

theorem reminder_is_due:
  assumes "as_phase (ao_state out) = PhFiring" and "as_last_notified_at (ao_state out) = Some prev"
    and "\<not> as_suppressed (ao_state out)" "\<not> as_silenced (ao_state out)" "\<not> as_learning (ao_state out)"
    and "\<not> is_acked (ao_state out) now"
    and "ao_repeat_interval out = Some d" and "int d \<le> timedelta_max" and "now - prev \<ge> int d"
  shows "decide out now \<noteq> None"
  using assms by (simp add: decide_def Let_def from_std_def)

theorem reminder_is_due_witness:
  "decide (notified 3 sample_outcome) 13 \<noteq> None"
  by (rule reminder_is_due [where prev = 3 and d = 10])
    (simp_all add: sample_outcome_eval)

text \<open>
  a hand-off that is lost. When a cycle is the first one to see both the severity
  escalation and the unacknowledged delay elapsed, the alert announces the escalation, and the
  hand-off to the escalation channel is never announced, at this cycle or at any later one.
\<close>

theorem unacked_swallowed_by_escalation:
  assumes "as_phase (ao_state out) = PhFiring" and "as_notify_count (ao_state out) > 0"
    and "as_last_notified_at (ao_state out) = Some prev"
    and "\<not> as_suppressed (ao_state out)" "\<not> as_silenced (ao_state out)" "\<not> as_learning (ao_state out)"
    and "\<not> is_acked (ao_state out) now"
    and "escalated_at out = Some e" "prev < e" "e \<le> now"
    and "unacked_at out = Some u" "prev < u" "u \<le> now"
    and "sorted (now # ts)"
  shows "decide out now = Some NrEscalation \<and> NrUnacked \<notin> set (speak_run out (now # ts))"
proof -
  have "decide out now = Some NrEscalation"
    using assms by (simp add: decide_def Let_def crossed_def)
  moreover have "NrUnacked \<notin> set (speak_run (notified now out) ts)"
    using assms by (intro speak_run_spent [of _ _ now]) (auto simp: spent_def)
  ultimately show ?thesis by simp
qed

theorem unacked_swallowed_by_escalation_witness:
  "decide (notified 3 sample_outcome) 60 = Some NrEscalation \<and>
   NrUnacked \<notin> set (speak_run (notified 3 sample_outcome) (60 # [70, 1000]))"
  by (rule unacked_swallowed_by_escalation [where prev = 3 and e = 25 and u = 40])
    (simp_all add: sample_outcome_eval)

text \<open>
  a relapse that is not announced. When an alert that was announced has just resolved and its
  condition holds again at the following evaluations, the alert fires again, but it is never
  announced as firing: \<open>advance\<close> has kept the notification count of the previous episode.
\<close>

theorem relapse_not_announced:
  assumes "as_phase s = PhResolved" and "as_notify_count s > 0"
    and "int d \<le> timedelta_max" and "\<exists>t \<in> set (start # ts). int d \<le> t - start"
    and "ao_state out = evals True d (start # ts) s"
  shows "as_phase (ao_state out) = PhFiring \<and> decide out now \<noteq> Some NrFiring"
proof -
  let ?s = "fst (advance s True start d)"
  have "as_phase (evals True d (start # ts) s) = PhFiring"
  proof (cases "d = 0")
    case True
    with assms show ?thesis by (simp add: evals_firing_stays advance_phase for_delta_std)
  next
    case False
    with assms have "as_phase ?s = PhPending" "as_condition_since ?s = Some start"
      by (auto simp: advance_phase advance_condition_since for_delta_std)
    with False assms show ?thesis by (simp add: evals_pending for_delta_std)
  qed
  with assms(2,5) show ?thesis by (simp add: decide_firing_iff evals_true_count del: evals_Cons)
qed

theorem relapse_not_announced_witness:
  "let s = mark_notified_state 1 (fst (advance alert_state_default True 0 0));
       s = mark_notified_state 3 (fst (advance s False 2 0));
       out = sample_outcome\<lparr>ao_state := evals True 0 [4] s\<rparr>
   in as_phase (ao_state out) = PhFiring \<and> decide out 4 \<noteq> Some NrFiring"
  unfolding Let_def
  by (rule relapse_not_announced [where d = 0 and start = 4 and ts = "[]" and
      s = "mark_notified_state 3 (fst (advance (mark_notified_state 1
             (fst (advance alert_state_default True 0 0))) False 2 0))"])
    (simp_all add: mark_notified_state_def advance_phase advance_notify_count alert_state_default_def
      for_delta_def from_std_def timedelta_max_def)

end
