(* ===== verification/Dependency_Suppression.thy ===== *)
theory Dependency_Suppression
  imports Alert_Model
begin

text \<open>
  Suppression by dependency (\<^verbatim>\<open>crates/server/src/alerting/suppress.rs\<close>): the parent index of
  the targets, the bounded breadth-first search for the nearest ancestor that is down, and
  the decision to suppress an alert. The search is compared with the plain definition of the
  ancestors at a given distance.
\<close>

section \<open>Topology and search\<close>

definition MAX_DEPTH :: nat where
  "MAX_DEPTH = 64"

type_synonym topology = "target_id \<rightharpoonup> target_id list"

definition direct_parents :: "target_node \<Rightarrow> target_id list" where
  "direct_parents t =
     (let up = (case tn_parent_id t of None \<Rightarrow> [] | Some p \<Rightarrow> [p])
      in case tn_via_agent t of
           None \<Rightarrow> up
         | Some relay \<Rightarrow> if relay \<notin> set up then up @ [relay] else up)"

definition topology_new :: "target_node list \<Rightarrow> topology" where
  "topology_new targets = collect_map (map (\<lambda>t. (tn_id t, direct_parents t)) targets)"

text \<open>
  The inner loop over one generation: the ancestor that is down (left), or the visited set
  and the next generation (right).
\<close>

fun scan_generation ::
  "topology \<Rightarrow> target_id set \<Rightarrow> target_id list \<Rightarrow> target_id set \<Rightarrow> target_id list \<Rightarrow>
   target_id + target_id set \<times> target_id list" where
  "scan_generation topo down [] visited next = Inr (visited, next)"
| "scan_generation topo down (ancestor # rest) visited next =
     (if ancestor \<in> visited then scan_generation topo down rest visited next
      else if ancestor \<in> down then Inl ancestor
      else scan_generation topo down rest (insert ancestor visited)
             (next @ (case topo ancestor of None \<Rightarrow> [] | Some up \<Rightarrow> up)))"

text \<open>The outer loop, \<^verbatim>\<open>for _ in 0..MAX_DEPTH\<close>, with the rounds that are left.\<close>

fun search_generations ::
  "topology \<Rightarrow> target_id set \<Rightarrow> nat \<Rightarrow> target_id list \<Rightarrow> target_id set \<Rightarrow> target_id option" where
  "search_generations topo down 0 generation visited = None"
| "search_generations topo down (Suc n) generation visited =
     (if generation = [] then None
      else case scan_generation topo down generation visited [] of
          Inl ancestor \<Rightarrow> Some ancestor
        | Inr (visited', next) \<Rightarrow> search_generations topo down n next visited')"

definition first_ancestor_down ::
  "topology \<Rightarrow> target_id \<Rightarrow> target_id set \<Rightarrow> target_id option" where
  "first_ancestor_down topo target down =
     (case topo target of
        None \<Rightarrow> None
      | Some generation \<Rightarrow> search_generations topo down MAX_DEPTH generation {target})"

definition topology_contains :: "topology \<Rightarrow> target_id \<Rightarrow> bool" where
  "topology_contains topo target = (topo target \<noteq> None)"

datatype suppression = AncestorDown target_id | SelfDown

fun culprit :: "suppression \<Rightarrow> target_id \<Rightarrow> target_id" where
  "culprit (AncestorDown ancestor) target = ancestor"
| "culprit SelfDown target = target"

definition suppression_for ::
  "topology \<Rightarrow> target_id option \<Rightarrow> bool \<Rightarrow> target_id set \<Rightarrow> suppression option" where
  "suppression_for topo target is_host_down_rule down =
     (case target of
        None \<Rightarrow> None
      | Some t \<Rightarrow>
          (case first_ancestor_down topo t down of
             Some ancestor \<Rightarrow> Some (AncestorDown ancestor)
           | None \<Rightarrow> if \<not> is_host_down_rule \<and> t \<in> down then Some SelfDown else None))"

section \<open>Ancestors by distance\<close>

definition ups :: "topology \<Rightarrow> target_id \<Rightarrow> target_id list" where
  "ups topo a = (case topo a of None \<Rightarrow> [] | Some up \<Rightarrow> up)"

text \<open>The targets reached by climbing exactly \<open>k\<close> links.\<close>

fun level :: "topology \<Rightarrow> target_id \<Rightarrow> nat \<Rightarrow> target_id set" where
  "level topo t 0 = {t}"
| "level topo t (Suc k) = (\<Union>a \<in> level topo t k. set (ups topo a))"

definition below :: "topology \<Rightarrow> target_id \<Rightarrow> nat \<Rightarrow> target_id set" where
  "below topo t k = (\<Union>j < k. level topo t j)"

lemma below_0 [simp]: "below topo t 0 = {}"
  by (simp add: below_def)

lemma below_Suc: "below topo t (Suc k) = below topo t k \<union> level topo t k"
  by (auto simp: below_def less_Suc_eq)

lemma below_Suc_0 [simp]: "below topo t (Suc 0) = {t}"
  by (simp add: below_Suc)

lemma scan_generation_Inl:
  "scan_generation topo down gen visited next = Inl a \<Longrightarrow>
   a \<in> set gen \<and> a \<notin> visited \<and> a \<in> down"
  by (induction topo down gen visited "next" rule: scan_generation.induct) (auto split: if_splits)

text \<open>A scan that finds nobody visits the generation and queues the parents of what is new.\<close>

lemma scan_generation_Inr:
  "scan_generation topo down gen visited next = Inr (visited', next') \<Longrightarrow>
   visited' = visited \<union> set gen \<and> (set gen - visited) \<inter> down = {} \<and>
   set next' = set next \<union> (\<Union>a \<in> set gen - visited. set (ups topo a))"
proof (induction topo down gen visited "next" rule: scan_generation.induct)
  case (2 topo down ancestor rest visited "next")
  show ?case
  proof (cases "ancestor \<in> visited")
    case True
    with 2 have "visited' = visited \<union> set rest \<and> (set rest - visited) \<inter> down = {} \<and>
        set next' = set next \<union> (\<Union>a \<in> set rest - visited. set (ups topo a))" by simp
    with True show ?thesis by (auto simp: insert_Diff_if insert_absorb)
  next
    case False
    with "2.prems" have nd: "ancestor \<notin> down" by (auto split: if_splits)
    let ?next = "next @ ups topo ancestor"
    from False nd 2 have "visited' = insert ancestor visited \<union> set rest \<and>
        (set rest - insert ancestor visited) \<inter> down = {} \<and>
        set next' = set ?next \<union> (\<Union>a \<in> set rest - insert ancestor visited. set (ups topo a))"
      by (simp add: ups_def)
    with False nd show ?thesis by auto
  qed
qed (simp add: ups_def)

text \<open>
  The invariant of the outer loop at distance \<open>k\<close>: everything closer is visited and not
  down (but for the target itself), the generation holds the rest of level \<open>k\<close>, and the
  parents of what is visited strictly closer are visited or in the generation.
\<close>

definition frontier :: "topology \<Rightarrow> target_id \<Rightarrow> target_id set \<Rightarrow> nat \<Rightarrow> target_id list \<Rightarrow> target_id set \<Rightarrow> bool" where
  "frontier topo t down k gen visited =
     (visited = below topo t k \<and> set gen \<subseteq> level topo t k \<and>
      level topo t k \<subseteq> visited \<union> set gen \<and> visited \<inter> down \<subseteq> {t} \<and> t \<in> visited)"

lemma frontier_start:
  "topo t = Some gen \<Longrightarrow> frontier topo t down (Suc 0) gen {t}"
  by (auto simp: frontier_def ups_def)

lemma frontier_step:
  assumes "frontier topo t down k gen visited"
    and "scan_generation topo down gen visited [] = Inr (visited', next)"
  shows "frontier topo t down (Suc k) next visited'"
proof -
  from scan_generation_Inr [OF assms(2)] have v: "visited' = visited \<union> set gen"
    and nd: "(set gen - visited) \<inter> down = {}"
    and nx: "set next = (\<Union>a \<in> set gen - visited. set (ups topo a))" by auto
  from assms(1) have f: "visited = below topo t k" "set gen \<subseteq> level topo t k"
    "level topo t k \<subseteq> visited \<union> set gen" "visited \<inter> down \<subseteq> {t}" "t \<in> visited"
    by (auto simp: frontier_def)
  have v': "visited' = below topo t (Suc k)" using v f by (auto simp: below_Suc)
  have "set next \<subseteq> level topo t (Suc k)" using nx f(2) by auto
  moreover have "level topo t (Suc k) \<subseteq> visited' \<union> set next"
  proof
    fix b assume "b \<in> level topo t (Suc k)"
    then obtain a where a: "a \<in> level topo t k" "b \<in> set (ups topo a)" by auto
    show "b \<in> visited' \<union> set next"
    proof (cases "a \<in> visited")
      case True
      with f(1) obtain j where "j < k" "a \<in> level topo t j" by (auto simp: below_def)
      then have "b \<in> level topo t (Suc j)" and "Suc j < Suc k" using a(2) by auto
      then show ?thesis unfolding v' below_def by blast
    next
      case False
      with a f(3) have "a \<in> set gen - visited" by auto
      then have "b \<in> set next" using a(2) nx by blast
      then show ?thesis by simp
    qed
  qed
  moreover have "visited' \<inter> down \<subseteq> {t}" using v nd f(4) by auto
  ultimately show ?thesis using v v' f(5) by (simp add: frontier_def)
qed

lemma level_mono_empty: "level topo t k = {} \<Longrightarrow> k \<le> j \<Longrightarrow> level topo t j = {}"
proof (induction j)
  case (Suc j)
  then show ?case by (cases "k = Suc j") auto
qed simp

text \<open>When a level adds nothing new, every later target has already been seen.\<close>

lemma below_closed:
  assumes "level topo t k \<subseteq> below topo t k" and "k \<le> j"
  shows "level topo t j \<subseteq> below topo t k"
  using assms(2)
proof (induction j rule: nat_induct_at_least)
  case base
  show ?case by (rule assms(1))
next
  case (Suc j)
  show ?case
  proof
    fix b assume "b \<in> level topo t (Suc j)"
    then obtain a where a: "a \<in> level topo t j" "b \<in> set (ups topo a)" by auto
    with Suc.IH obtain i where "i < k" "a \<in> level topo t i" by (auto simp: below_def)
    then have b: "b \<in> level topo t (Suc i)" using a(2) by auto
    show "b \<in> below topo t k"
    proof (cases "Suc i = k")
      case True
      with b assms(1) show ?thesis by auto
    next
      case False
      with b \<open>i < k\<close> show ?thesis unfolding below_def by (auto intro!: bexI [of _ "Suc i"])
    qed
  qed
qed

lemma search_generations_Some:
  assumes "frontier topo t down k gen visited"
    and "search_generations topo down n gen visited = Some a"
  shows "\<exists>j. k \<le> j \<and> j < k + n \<and> a \<in> level topo t j \<and> a \<in> down \<and> a \<noteq> t \<and>
     below topo t j \<inter> down \<subseteq> {t}"
  using assms
proof (induction n arbitrary: k gen visited)
  case (Suc n)
  show ?case
  proof (cases "scan_generation topo down gen visited []")
    case (Inl b)
    with Suc.prems have "b = a" by (auto split: if_splits)
    with scan_generation_Inl [OF Inl] Suc.prems(1) show ?thesis
      by (intro exI [of _ k]) (auto simp: frontier_def)
  next
    case (Inr r)
    obtain v nx where r: "r = (v, nx)" by force
    with Inr Suc.prems have "search_generations topo down n nx v = Some a"
      by (auto split: if_splits)
    moreover have "frontier topo t down (Suc k) nx v"
      using frontier_step Suc.prems(1) Inr r by blast
    ultimately obtain j where j: "Suc k \<le> j" "j < Suc k + n" "a \<in> level topo t j"
      "a \<in> down" "a \<noteq> t" "below topo t j \<inter> down \<subseteq> {t}" using Suc.IH by blast
    then show ?thesis by (intro exI [of _ j]) auto
  qed
qed simp

lemma search_generations_None:
  assumes "frontier topo t down k gen visited"
    and "search_generations topo down n gen visited = None"
  shows "below topo t (k + n) \<inter> down \<subseteq> {t}"
  using assms
proof (induction n arbitrary: k gen visited)
  case 0
  then show ?case by (auto simp: frontier_def)
next
  case (Suc n)
  show ?case
  proof (cases "gen = []")
    case True
    with Suc.prems(1) have sub: "level topo t k \<subseteq> below topo t k" and d: "below topo t k \<inter> down \<subseteq> {t}"
      by (auto simp: frontier_def)
    have "below topo t (k + Suc n) \<subseteq> below topo t k"
    proof
      fix b assume "b \<in> below topo t (k + Suc n)"
      then obtain j where "b \<in> level topo t j" by (auto simp: below_def)
      then show "b \<in> below topo t k"
        using below_closed [OF sub, of j] by (cases "k \<le> j") (auto simp: below_def)
    qed
    with d show ?thesis by blast
  next
    case False
    with Suc.prems(2) obtain v nx where r: "scan_generation topo down gen visited [] = Inr (v, nx)"
      and "search_generations topo down n nx v = None"
      by (auto split: sum.splits prod.splits)
    with frontier_step [OF Suc.prems(1) r] Suc.IH show ?thesis by fastforce
  qed
qed

lemma level_unknown: "topo t = None \<Longrightarrow> 0 < k \<Longrightarrow> level topo t k = {}"
  by (rule level_mono_empty [of topo t "Suc 0"]) (auto simp: ups_def)

lemma first_ancestor_down_None_iff:
  "first_ancestor_down topo t down = None \<longleftrightarrow>
     (\<Union>k \<in> {1..MAX_DEPTH}. level topo t k) \<inter> down \<subseteq> {t}"
proof
  assume none: "first_ancestor_down topo t down = None"
  show "(\<Union>k \<in> {1..MAX_DEPTH}. level topo t k) \<inter> down \<subseteq> {t}"
  proof (cases "topo t")
    case None
    then show ?thesis using level_unknown [of topo t] by force
  next
    case (Some gen)
    with none have "search_generations topo down MAX_DEPTH gen {t} = None"
      by (simp add: first_ancestor_down_def)
    from search_generations_None [OF frontier_start [of topo t gen down, OF Some] this]
    have "below topo t (Suc MAX_DEPTH) \<inter> down \<subseteq> {t}" by simp
    moreover have "(\<Union>k \<in> {1..MAX_DEPTH}. level topo t k) \<subseteq> below topo t (Suc MAX_DEPTH)"
      unfolding below_def by force
    ultimately show ?thesis by blast
  qed
next
  assume none: "(\<Union>k \<in> {1..MAX_DEPTH}. level topo t k) \<inter> down \<subseteq> {t}"
  show "first_ancestor_down topo t down = None"
  proof (rule ccontr)
    assume "first_ancestor_down topo t down \<noteq> None"
    then obtain a gen where g: "topo t = Some gen"
      and s: "search_generations topo down MAX_DEPTH gen {t} = Some a"
      by (auto simp: first_ancestor_down_def split: option.splits)
    from search_generations_Some [OF frontier_start [of topo t gen down, OF g] s] none show False by fastforce
  qed
qed

section \<open>Properties\<close>

text \<open>
  the search returns the nearest ancestor that is down. When it returns \<open>a\<close>, then
  \<open>a\<close> is down, is not the target, is reached by climbing between one and \<open>MAX_DEPTH\<close>
  links, and nothing that is reached with fewer links is down except possibly the target.
\<close>

theorem first_ancestor_down_nearest:
  assumes "first_ancestor_down topo t down = Some a"
  shows "\<exists>k. 1 \<le> k \<and> k \<le> MAX_DEPTH \<and> a \<in> level topo t k \<and> a \<in> down \<and> a \<noteq> t \<and>
     (\<Union>j < k. level topo t j) \<inter> down \<subseteq> {t}"
proof -
  from assms obtain gen where "topo t = Some gen"
    and s: "search_generations topo down MAX_DEPTH gen {t} = Some a"
    by (auto simp: first_ancestor_down_def split: option.splits)
  from search_generations_Some [OF frontier_start [of topo t gen down, OF this(1)] s] show ?thesis
    unfolding below_def by (auto simp: less_Suc_eq_le)
qed

theorem first_ancestor_down_nearest_witness:
  "\<exists>k. 1 \<le> k \<and> k \<le> MAX_DEPTH \<and> 2 \<in> level [1 \<mapsto> [], 2 \<mapsto> [1], 3 \<mapsto> [2]] 3 k \<and>
     (2::int) \<in> {1, 2} \<and> (2::int) \<noteq> 3 \<and> (\<Union>j < k. level [1 \<mapsto> [], 2 \<mapsto> [1], 3 \<mapsto> [2]] 3 j) \<inter> {1, 2} \<subseteq> {3}"
  by (rule first_ancestor_down_nearest) (simp add: first_ancestor_down_def MAX_DEPTH_def eval_nat_numeral)

text \<open>
  the search is complete and terminates on every topology, cyclic ones included: it
  returns nobody exactly when no other target within \<open>MAX_DEPTH\<close> links up is down.
\<close>

theorem first_ancestor_down_complete:
  "first_ancestor_down topo t down = None \<longleftrightarrow>
     (\<Union>k \<in> {1..MAX_DEPTH}. level topo t k) \<inter> down \<subseteq> {t}"
  by (rule first_ancestor_down_None_iff)

text \<open>
  a target that is alone in being down is always announced: the alert that says a
  target is unreachable is suppressed only because of another target that is down above it,
  never because of the target itself, while its other alerts are suppressed by it.
\<close>

theorem host_down_never_self_suppressed:
  "suppression_for topo (Some t) True down = (case first_ancestor_down topo t down of
       None \<Rightarrow> None | Some a \<Rightarrow> Some (AncestorDown a)) \<and>
   suppression_for topo (Some t) True {t} = None \<and>
   suppression_for topo (Some t) False {t} = Some SelfDown"
proof -
  have "first_ancestor_down topo t {t} = None"
    using first_ancestor_down_None_iff [of topo t "{t}"] by blast
  then show ?thesis by (auto simp: suppression_for_def split: option.splits)
qed

end
