(* ===== verification/Rust_Text.thy ===== *)
theory Rust_Text
  imports Prelude "HOL-Library.AList"
begin

text \<open>
  The operations of Rust's \<^verbatim>\<open>str\<close>, \<^verbatim>\<open>HashMap\<close>, \<^verbatim>\<open>Instant\<close> and unsigned integers that the authentication code uses.
  A string is its UTF-8 bytes, so that a character is a sequence of one to four bytes: white space is matched by its
  encodings, and characters are counted by the bytes that do not continue one.
\<close>

section \<open>Strings\<close>

text \<open>The code points with the Unicode property \<^verbatim>\<open>White_Space\<close>, encoded.\<close>

definition white_space :: "string list" where
  "white_space =
     map (\<lambda>b. [char_of (b :: nat)]) [9, 10, 11, 12, 13, 32] @
     map (map char_of) [[194, 133], [194, 160], [225, 154, 128 :: nat], [226, 128, 168], [226, 128, 169],
       [226, 128, 175], [226, 129, 159], [227, 128, 128]] @
     map (\<lambda>b. map char_of [226, 128, b :: nat]) [128..<139]"

definition strip_prefix :: "string \<Rightarrow> string \<Rightarrow> string option" where
  "strip_prefix p s = (if starts_with s p then Some (drop (length p) s) else None)"

definition strip_suffix :: "string \<Rightarrow> string \<Rightarrow> string option" where
  "strip_suffix p s = map_option rev (strip_prefix (rev p) (rev s))"

lemma strip_prefix_Some: "strip_prefix p s = Some t \<longleftrightarrow> s = p @ t"
  by (auto simp: strip_prefix_def starts_with_iff)

lemma strip_suffix_Some: "strip_suffix p s = Some t \<longleftrightarrow> s = t @ p"
  by (auto simp: strip_suffix_def strip_prefix_Some rev_swap)

text \<open>\<open>trim_with ws s\<close> drops from the front every character of \<open>ws\<close>, as often as there is one.\<close>

function trim_with :: "string list \<Rightarrow> string \<Rightarrow> string" where
  "trim_with ws s =
     (case find_map (\<lambda>w. if w = [] then None else strip_prefix w s) ws of
        None \<Rightarrow> s
      | Some t \<Rightarrow> trim_with ws t)"
  by auto

termination
proof (relation "measure (\<lambda>(_, s). length s)")
  fix ws s t
  assume "find_map (\<lambda>w. if w = [] then None else strip_prefix w s) ws = Some t"
  then obtain w where "w \<noteq> []" "strip_prefix w s = Some t"
    by (auto dest!: find_map_SomeD split: if_splits)
  then show "((ws, t), (ws, s)) \<in> measure (\<lambda>(_, s). length s)"
    by (auto simp: strip_prefix_Some)
qed simp

declare trim_with.simps [simp del]

definition trim_start :: "string \<Rightarrow> string" where
  "trim_start s = trim_with white_space s"

definition trim_end :: "string \<Rightarrow> string" where
  "trim_end s = rev (trim_with (map rev white_space) (rev s))"

definition trim :: "string \<Rightarrow> string" where
  "trim s = trim_end (trim_start s)"

text \<open>A text that begins and ends with visible ASCII characters is already trimmed.\<close>

definition plain_char :: "char \<Rightarrow> bool" where
  "plain_char c = (let n = (of_char c :: nat) in 33 \<le> n \<and> n < 128)"

lemma white_space_ends: "w \<in> set white_space \<Longrightarrow> w \<noteq> [] \<and> \<not> plain_char (hd w) \<and> \<not> plain_char (last w)"
proof -
  have "list_all (\<lambda>w. w \<noteq> [] \<and> \<not> plain_char (hd w) \<and> \<not> plain_char (last w)) white_space" by code_simp
  then show "w \<in> set white_space \<Longrightarrow> ?thesis" by (simp add: list_all_iff)
qed

lemma no_white_prefix:
  assumes "\<And>w. w \<in> set ws \<Longrightarrow> w \<noteq> [] \<and> \<not> plain_char (hd w)" "s = [] \<or> plain_char (hd s)"
  shows "find_map (\<lambda>w. if w = [] then None else strip_prefix w s) ws = None"
  using assms by (auto simp: find_map_None_iff strip_prefix_def starts_with_iff hd_append)

lemma trim_with_plain:
  assumes "\<And>w. w \<in> set ws \<Longrightarrow> w \<noteq> [] \<and> \<not> plain_char (hd w)" "s = [] \<or> plain_char (hd s)"
  shows "trim_with ws s = s"
  using no_white_prefix [OF assms] by (subst trim_with.simps) simp

lemma trim_plain: "s = [] \<or> (plain_char (hd s) \<and> plain_char (last s)) \<Longrightarrow> trim s = s"
proof -
  assume s: "s = [] \<or> (plain_char (hd s) \<and> plain_char (last s))"
  have "trim_start s = s"
    unfolding trim_start_def using s white_space_ends by (intro trim_with_plain) auto
  moreover have "trim_end s = s"
    unfolding trim_end_def using s white_space_ends
    by (subst trim_with_plain) (auto simp: hd_rev)
  ultimately show ?thesis by (simp add: trim_def)
qed

text \<open>\<^verbatim>\<open>str::split_once(c)\<close> for a one-byte pattern, and \<^verbatim>\<open>str::split(c)\<close>: always at least one piece.\<close>

fun split_once :: "char \<Rightarrow> string \<Rightarrow> (string \<times> string) option" where
  "split_once d [] = None"
| "split_once d (c # cs) =
     (if c = d then Some ([], cs) else map_option (\<lambda>(l, r). (c # l, r)) (split_once d cs))"

fun split_on :: "char \<Rightarrow> string \<Rightarrow> string list" where
  "split_on d [] = [[]]"
| "split_on d (c # cs) =
     (if c = d then [] # split_on d cs
      else case split_on d cs of p # ps \<Rightarrow> (c # p) # ps | [] \<Rightarrow> [[c]])"

lemma split_once_Some: "split_once d s = Some (l, r) \<longleftrightarrow> s = l @ d # r \<and> d \<notin> set l"
proof (induction s arbitrary: l)
  case Nil
  show ?case by simp
next
  case (Cons c s)
  show ?case
    by (cases l) (auto simp: Cons.IH)
qed

lemma split_once_None: "split_once d s = None \<longleftrightarrow> d \<notin> set s"
  by (induction s) auto

lemma split_on_nonempty [simp]: "split_on d s \<noteq> []"
  by (induction s) (auto split: list.splits)

text \<open>\<^verbatim>\<open>str::split(|c| p(c))\<close> for ASCII separators, and \<^verbatim>\<open>trim_end_matches(c)\<close>.\<close>

fun split_any :: "(char \<Rightarrow> bool) \<Rightarrow> string \<Rightarrow> string list" where
  "split_any sep [] = [[]]"
| "split_any sep (c # cs) =
     (if sep c then [] # split_any sep cs
      else case split_any sep cs of p # ps \<Rightarrow> (c # p) # ps | [] \<Rightarrow> [[c]])"

definition trim_end_char :: "char \<Rightarrow> string \<Rightarrow> string" where
  "trim_end_char c s = rev (dropWhile (\<lambda>x. x = c) (rev s))"

text \<open>\<^verbatim>\<open>to_ascii_lowercase\<close>, \<^verbatim>\<open>to_ascii_uppercase\<close> and \<^verbatim>\<open>eq_ignore_ascii_case\<close>: bytes beyond ASCII stay.\<close>

definition ascii_lower :: "char \<Rightarrow> char" where
  "ascii_lower c = (let n = (of_char c :: nat) in if 65 \<le> n \<and> n \<le> 90 then char_of (n + 32) else c)"

definition ascii_upper :: "char \<Rightarrow> char" where
  "ascii_upper c = (let n = (of_char c :: nat) in if 97 \<le> n \<and> n \<le> 122 then char_of (n - 32) else c)"

definition eq_ignore_ascii_case :: "string \<Rightarrow> string \<Rightarrow> bool" where
  "eq_ignore_ascii_case s t = (map ascii_lower s = map ascii_lower t)"

definition is_ascii_digit :: "char \<Rightarrow> bool" where
  "is_ascii_digit c = (let n = (of_char c :: nat) in 48 \<le> n \<and> n \<le> 57)"

definition is_ascii_alphanumeric :: "char \<Rightarrow> bool" where
  "is_ascii_alphanumeric c =
     (let n = (of_char c :: nat) in (48 \<le> n \<and> n \<le> 57) \<or> (65 \<le> n \<and> n \<le> 90) \<or> (97 \<le> n \<and> n \<le> 122))"

text \<open>\<^verbatim>\<open>s.chars().count()\<close>: a byte 10xxxxxx continues the character before it.\<close>

definition continues_char :: "char \<Rightarrow> bool" where
  "continues_char c = (let n = (of_char c :: nat) in 128 \<le> n \<and> n < 192)"

definition chars_count :: "string \<Rightarrow> nat" where
  "chars_count s = length (filter (\<lambda>c. \<not> continues_char c) s)"

text \<open>\<^verbatim>\<open>s.chars().filter(|c| !c.is_whitespace())\<close>.\<close>

function drop_white :: "string \<Rightarrow> string" where
  "drop_white s =
     (case find_map (\<lambda>w. if w = [] then None else strip_prefix w s) white_space of
        Some t \<Rightarrow> drop_white t
      | None \<Rightarrow> (case s of [] \<Rightarrow> [] | c # cs \<Rightarrow> c # drop_white cs))"
  by auto

termination
proof (relation "measure length")
  fix s t
  assume "find_map (\<lambda>w. if w = [] then None else strip_prefix w s) white_space = Some t"
  then obtain w where "w \<noteq> []" "strip_prefix w s = Some t"
    by (auto dest!: find_map_SomeD split: if_splits)
  then show "(t, s) \<in> measure length"
    by (auto simp: strip_prefix_Some)
qed auto

declare drop_white.simps [simp del]

text \<open>\<^verbatim>\<open>split_whitespace\<close>: the pieces between white space, none of them empty; \<open>word\<close> is the piece being read, backwards.\<close>

function words_from :: "string \<Rightarrow> string \<Rightarrow> string list" where
  "words_from word s =
     (case find_map (\<lambda>w. if w = [] then None else strip_prefix w s) white_space of
        Some t \<Rightarrow> (if word = [] then [] else [rev word]) @ words_from [] t
      | None \<Rightarrow> (case s of [] \<Rightarrow> if word = [] then [] else [rev word] | c # cs \<Rightarrow> words_from (c # word) cs))"
  by auto

termination
proof (relation "measure (\<lambda>(_, s). length s)")
  fix word s t
  assume "find_map (\<lambda>w. if w = [] then None else strip_prefix w s) white_space = Some t"
  then obtain w where "w \<noteq> []" "strip_prefix w s = Some t"
    by (auto dest!: find_map_SomeD split: if_splits)
  then show "(([], t), (word, s)) \<in> measure (\<lambda>(_, s). length s)"
    by (auto simp: strip_prefix_Some)
qed auto

declare words_from.simps [simp del]

definition split_whitespace :: "string \<Rightarrow> string list" where
  "split_whitespace s = words_from [] s"

text \<open>\<^verbatim>\<open>s.chars().any(char::is_whitespace)\<close>, and the control characters: U+0000 to U+001F, U+007F to U+009F.\<close>

definition has_white :: "string \<Rightarrow> bool" where
  "has_white s = (drop_white s \<noteq> s)"

fun has_control :: "string \<Rightarrow> bool" where
  "has_control [] = False"
| "has_control (c # cs) =
     (let n = (of_char c :: nat)
      in n < 32 \<or> n = 127 \<or>
         (n = 194 \<and> (case cs of [] \<Rightarrow> False | c' # _ \<Rightarrow> (let m = (of_char c' :: nat) in 128 \<le> m \<and> m < 160))) \<or>
         has_control cs)"

lemma drop_white_plain: "list_all plain_char s \<Longrightarrow> drop_white s = s"
proof (induction s)
  case Nil
  have "find_map (\<lambda>w. if w = [] then None else strip_prefix w []) white_space = None"
    using white_space_ends by (intro no_white_prefix) auto
  then show ?case by (subst drop_white.simps) simp
next
  case (Cons c cs)
  then have "find_map (\<lambda>w. if w = [] then None else strip_prefix w (c # cs)) white_space = None"
    using white_space_ends by (intro no_white_prefix) auto
  then show ?case using Cons by (subst drop_white.simps) simp
qed

lemma has_white_plain: "list_all plain_char s \<Longrightarrow> \<not> has_white s"
  by (simp add: has_white_def drop_white_plain)

text \<open>\<^verbatim>\<open>hex::encode\<close>.\<close>

definition hex_encode :: "8 word list \<Rightarrow> string" where
  "hex_encode bs = concat (map (\<lambda>b. hex_digits 2 (unat b)) bs)"

lemma length_hex_encode [simp]: "length (hex_encode bs) = 2 * length bs"
  by (induction bs) (simp_all add: hex_encode_def)

text \<open>\<^verbatim>\<open>format!("{:0width$}", n)\<close>.\<close>

definition show_padded :: "nat \<Rightarrow> nat \<Rightarrow> string" where
  "show_padded width n = replicate (width - length (show_nat n)) (CHR ''0'') @ show_nat n"

definition str_bytes :: "string \<Rightarrow> 8 word list" where
  "str_bytes s = map (\<lambda>c. of_nat (of_char c)) s"

section \<open>Instants, counters and tables\<close>

lemma find_SomeD: "find P xs = Some x \<Longrightarrow> x \<in> set xs \<and> P x"
  by (induction xs) (auto split: if_splits)

text \<open>
  An \<^verbatim>\<open>Instant\<close> counts nanoseconds of the monotonic clock. \<^verbatim>\<open>duration_since\<close> gives zero rather than a negative
  duration.
\<close>

definition duration_since :: "instant \<Rightarrow> instant \<Rightarrow> timedelta" where
  "duration_since now earlier = max 0 (now - earlier)"

definition whole_seconds :: "timedelta \<Rightarrow> nat" where
  "whole_seconds d = nat (d div nanos_per_sec)"

definition saturating_inc :: "32 word \<Rightarrow> 32 word" where
  "saturating_inc c = (if c = - 1 then c else c + 1)"

lemma unat_saturating_inc: "unat (saturating_inc c) = min (2 ^ 32 - 1) (unat c + 1)"
proof (cases "c = - 1")
  case True
  have "unat (- 1 :: 32 word) = 2 ^ 32 - 1" by (simp add: unsigned_minus_1_eq_mask mask_eq_exp_minus_1)
  then show ?thesis by (simp add: True saturating_inc_def)
next
  case False
  then have "unat (1 + c) = Suc (unat c)"
    by (intro unatSuc) (metis add.commute add_eq_0_iff)
  moreover have "unat (1 + c) < 2 ^ 32"
    using unsigned_less [of "1 + c"] by simp
  ultimately show ?thesis
    using False by (simp add: saturating_inc_def add.commute)
qed

text \<open>
  A \<^verbatim>\<open>HashMap\<close> whose size or whole content is used is an association list with distinct keys; its order is the order
  in which the map is walked, and no result below depends on it but the choice between entries of the same age.
\<close>

definition table_wf :: "('k \<times> 'v) list \<Rightarrow> bool" where
  "table_wf m = distinct (map fst m)"

definition retain :: "('v \<Rightarrow> bool) \<Rightarrow> ('k \<times> 'v) list \<Rightarrow> ('k \<times> 'v) list" where
  "retain keep m = filter (\<lambda>(_, v). keep v) m"

lemma table_wf_update [simp]: "table_wf m \<Longrightarrow> table_wf (AList.update k v m)"
  by (simp add: table_wf_def distinct_update)

lemma table_wf_delete [simp]: "table_wf m \<Longrightarrow> table_wf (AList.delete k m)"
  by (simp add: table_wf_def distinct_delete)

lemma table_wf_retain [simp]: "table_wf m \<Longrightarrow> table_wf (retain keep m)"
  by (simp add: table_wf_def retain_def distinct_map_filter)

lemma map_of_retain:
  assumes "table_wf m"
  shows "map_of (retain keep m) k = (case map_of m k of None \<Rightarrow> None | Some v \<Rightarrow> if keep v then Some v else None)"
  using assms
proof (induction m)
  case Nil
  show ?case by (simp add: retain_def)
next
  case (Cons e m)
  obtain k' v' where e: "e = (k', v')" by (cases e)
  have "map_of m k' = None"
    using Cons.prems by (simp add: e table_wf_def map_of_eq_None_iff)
  then show ?case
    using Cons by (auto simp: e retain_def table_wf_def)
qed

lemma map_of_delete [simp]: "map_of (AList.delete k m) j = (if j = k then None else map_of m j)"
  by (simp add: delete_conv')

lemma map_of_update [simp]: "map_of (AList.update k v m) j = (if j = k then Some v else map_of m j)"
  by (simp add: update_conv')

end
