(* ===== verification/Maintenance_Silence.thy ===== *)
theory Maintenance_Silence
  imports Alert_Model Rust_Text
begin

text \<open>
  Maintenance windows and quiet hours (\<^verbatim>\<open>crates/server/src/alerting/silence.rs\<close>): clocks
  with a named zone or a fixed offset, schedules (once, weekly, monthly), the search for the
  window that contains an instant and for the next one, and the silences built on them.

  A \<^verbatim>\<open>NaiveDate\<close> is its day number (1970-01-01 is 0, a Thursday) and a local date-time the
  nanoseconds since local 1970-01-01. The parts of chrono and chrono-tz that are data or
  tables are parameters, in the record \<open>calendar\<close>: the day and month of a date, the first
  and last date, and the table of named zones; a zone is what the code asks of it.
\<close>

section \<open>Calendar and clocks\<close>

type_synonym date = int

record tz =
  tz_local_date :: "instant \<Rightarrow> date"
  tz_earliest :: "int \<Rightarrow> instant option"

record calendar =
  cal_day :: "date \<Rightarrow> nat"
  cal_month :: "date \<Rightarrow> nat"
  cal_min_date :: date
  cal_max_date :: date
  cal_tz :: "string \<Rightarrow> tz option"

definition checked_sub_days :: "calendar \<Rightarrow> date \<Rightarrow> nat \<Rightarrow> date option" where
  "checked_sub_days cal d n = (if cal_min_date cal \<le> d - int n then Some (d - int n) else None)"

definition checked_add_days :: "calendar \<Rightarrow> date \<Rightarrow> nat \<Rightarrow> date option" where
  "checked_add_days cal d n = (if d + int n \<le> cal_max_date cal then Some (d + int n) else None)"

text \<open>\<^verbatim>\<open>weekday().num_days_from_monday()\<close>.\<close>

definition weekday :: "date \<Rightarrow> nat" where
  "weekday d = nat ((d + 3) mod 7)"

definition MINUTES_PER_DAY :: nat where
  "MINUTES_PER_DAY = 24 * 60"

definition NEXT_SEARCH_DAYS :: nat where
  "NEXT_SEARCH_DAYS = 400"

datatype clock = Named tz | Fixed int

definition fixed_clock :: "int \<Rightarrow> clock" where
  "fixed_clock offset_minutes = Fixed (max (- 14 * 60) (min (14 * 60) offset_minutes) * 60)"

definition clock_resolve :: "calendar \<Rightarrow> string option \<Rightarrow> int \<Rightarrow> clock" where
  "clock_resolve cal timezone offset_minutes =
     (case timezone of
        None \<Rightarrow> fixed_clock offset_minutes
      | Some raw \<Rightarrow>
          if trim raw = [] then fixed_clock offset_minutes
          else (case cal_tz cal (trim raw) of
                  Some z \<Rightarrow> Named z
                | None \<Rightarrow> fixed_clock offset_minutes))"

fun clock_date_of :: "clock \<Rightarrow> instant \<Rightarrow> date" where
  "clock_date_of (Named z) now = tz_local_date z now"
| "clock_date_of (Fixed offset) now = (now + seconds offset) div days 1"

fun clock_instant_at :: "clock \<Rightarrow> date \<Rightarrow> nat \<Rightarrow> instant option" where
  "clock_instant_at (Fixed offset) d minute =
     Some (days d + minutes (int (minute mod MINUTES_PER_DAY)) - seconds offset)"
| "clock_instant_at (Named z) d minute =
     (let naive = days d + minutes (int (minute mod MINUTES_PER_DAY))
      in case tz_earliest z naive of
           Some inst \<Rightarrow> Some inst
         | None \<Rightarrow> find_map (\<lambda>hours. tz_earliest z (naive + seconds (hours * 3600))) [1, 2, 3, 4])"

section \<open>Schedules\<close>

record nth_weekday =
  nw_nth :: int
  nw_weekday :: nat

datatype schedule =
    Once instant instant
  | Weekly "nat list" nat nat int "string option"
  | Monthly "nat list" "nth_weekday list" nat nat int "string option"

fun schedule_clock :: "calendar \<Rightarrow> schedule \<Rightarrow> clock option" where
  "schedule_clock cal (Once _ _) = None"
| "schedule_clock cal (Weekly _ _ _ offset timezone) = Some (clock_resolve cal timezone offset)"
| "schedule_clock cal (Monthly _ _ _ _ offset timezone) = Some (clock_resolve cal timezone offset)"

fun schedule_timezone :: "schedule \<Rightarrow> string option" where
  "schedule_timezone (Once _ _) = None"
| "schedule_timezone (Weekly _ _ _ _ timezone) = timezone"
| "schedule_timezone (Monthly _ _ _ _ _ timezone) = timezone"

fun schedule_duration :: "schedule \<Rightarrow> timedelta" where
  "schedule_duration (Once starts_at ends_at) = ends_at - starts_at"
| "schedule_duration (Weekly _ start_minute end_minute _ _) =
     (let start = start_minute mod MINUTES_PER_DAY; end = end_minute mod MINUTES_PER_DAY
      in minutes (int (if end > start then end - start else MINUTES_PER_DAY - start + end)))"
| "schedule_duration (Monthly _ _ _ duration_minutes _ _) = minutes (int (max duration_minutes 1))"

fun schedule_start_minute :: "schedule \<Rightarrow> nat" where
  "schedule_start_minute (Once _ _) = 0"
| "schedule_start_minute (Weekly _ start_minute _ _ _) = start_minute mod MINUTES_PER_DAY"
| "schedule_start_minute (Monthly _ _ start_minute _ _ _) = start_minute mod MINUTES_PER_DAY"

definition nth_matches :: "calendar \<Rightarrow> date \<Rightarrow> nth_weekday \<Rightarrow> bool" where
  "nth_matches cal d nw =
     (if weekday d \<noteq> nw_weekday nw then False
      else if nw_nth nw > 0 then
        (let rank = (cal_day cal d - 1) div 7 + 1 in rank \<le> 127 \<and> int rank = nw_nth nw)
      else (case checked_add_days cal d 7 of
              None \<Rightarrow> True
            | Some next \<Rightarrow> cal_month cal next \<noteq> cal_month cal d))"

fun schedule_selects :: "calendar \<Rightarrow> schedule \<Rightarrow> date \<Rightarrow> bool" where
  "schedule_selects cal (Once _ _) d = False"
| "schedule_selects cal (Weekly ds _ _ _ _) d = (weekday d \<in> set ds)"
| "schedule_selects cal (Monthly ds nws _ _ _ _) d =
     (list_ex (\<lambda>wanted. wanted = cal_day cal d) ds \<or> list_ex (nth_matches cal d) nws)"

text \<open>One round of the search: the window that opens \<open>offset\<close> days before today, if it covers.\<close>

definition window_on ::
  "calendar \<Rightarrow> schedule \<Rightarrow> clock \<Rightarrow> instant \<Rightarrow> date \<Rightarrow> nat \<Rightarrow> (instant \<times> instant) option" where
  "window_on cal sched clk now today offset =
     (case checked_sub_days cal today offset of
        None \<Rightarrow> None
      | Some d \<Rightarrow>
          if \<not> schedule_selects cal sched d then None
          else (case clock_instant_at clk d (schedule_start_minute sched) of
                  None \<Rightarrow> None
                | Some start \<Rightarrow>
                    let end = start + schedule_duration sched
                    in if now \<ge> start \<and> now < end then Some (start, end) else None))"

definition search_back :: "schedule \<Rightarrow> nat" where
  "search_back sched = nat (max (num_days (schedule_duration sched)) 0) + 1"

definition window_containing :: "calendar \<Rightarrow> schedule \<Rightarrow> instant \<Rightarrow> (instant \<times> instant) option" where
  "window_containing cal sched now =
     (case sched of
        Once starts_at ends_at \<Rightarrow>
          if now \<ge> starts_at \<and> now < ends_at then Some (starts_at, ends_at) else None
      | _ \<Rightarrow>
          (case schedule_clock cal sched of
             None \<Rightarrow> None
           | Some clk \<Rightarrow>
               find_map (window_on cal sched clk now (clock_date_of clk now))
                 [0..<search_back sched + 1]))"

definition schedule_covers :: "calendar \<Rightarrow> schedule \<Rightarrow> instant \<Rightarrow> bool" where
  "schedule_covers cal sched now = (window_containing cal sched now \<noteq> None)"

text \<open>The loop of \<^verbatim>\<open>next_start\<close>; the end of the calendar breaks it.\<close>

fun next_start_loop ::
  "calendar \<Rightarrow> schedule \<Rightarrow> clock \<Rightarrow> instant \<Rightarrow> date \<Rightarrow> nat list \<Rightarrow> instant option" where
  "next_start_loop cal sched clk now today [] = None"
| "next_start_loop cal sched clk now today (offset # rest) =
     (case checked_add_days cal today offset of
        None \<Rightarrow> None
      | Some d \<Rightarrow>
          if \<not> schedule_selects cal sched d then next_start_loop cal sched clk now today rest
          else (case clock_instant_at clk d (schedule_start_minute sched) of
                  None \<Rightarrow> next_start_loop cal sched clk now today rest
                | Some start \<Rightarrow>
                    if start > now then Some start
                    else next_start_loop cal sched clk now today rest))"

definition next_start :: "calendar \<Rightarrow> schedule \<Rightarrow> instant \<Rightarrow> instant option" where
  "next_start cal sched now =
     (case sched of
        Once starts_at _ \<Rightarrow> if starts_at > now then Some starts_at else None
      | _ \<Rightarrow>
          (case schedule_clock cal sched of
             None \<Rightarrow> None
           | Some clk \<Rightarrow>
               next_start_loop cal sched clk now (clock_date_of clk now) [0..<NEXT_SEARCH_DAYS + 1]))"

fun schedule_is_expired :: "schedule \<Rightarrow> instant \<Rightarrow> bool" where
  "schedule_is_expired (Once _ ends_at) now = (now \<ge> ends_at)"
| "schedule_is_expired (Weekly _ _ _ _ _) now = False"
| "schedule_is_expired (Monthly _ _ _ _ _ _) now = False"

section \<open>Silences\<close>

record silence =
  si_id :: int
  si_name :: string
  si_comment :: string
  si_target_id :: "target_id option"
  si_matchers :: labels
  si_schedule :: schedule
  si_enabled :: bool

definition silence_matches ::
  "calendar \<Rightarrow> silence \<Rightarrow> instant \<Rightarrow> target_id option \<Rightarrow> labels \<Rightarrow> bool" where
  "silence_matches cal s now target ls =
     (if \<not> si_enabled s \<or> \<not> schedule_covers cal (si_schedule s) now then False
      else if (case si_target_id s of None \<Rightarrow> False | Some wanted \<Rightarrow> target \<noteq> Some wanted) then False
      else list_all (\<lambda>(key, value). map_of ls key = Some value) (si_matchers s))"

definition first_match ::
  "calendar \<Rightarrow> silence list \<Rightarrow> instant \<Rightarrow> target_id option \<Rightarrow> labels \<Rightarrow> silence option" where
  "first_match cal silences now target ls =
     find (\<lambda>s. silence_matches cal s now target ls) silences"

section \<open>Wall clocks\<close>

text \<open>
  What the search of a window relies on from a clock: once a window that opens on local date
  \<open>d\<close> has opened, the local date is \<open>d\<close> or later, and before \<open>k\<close> full days after its
  opening the local date is at most \<open>d + k\<close>.
\<close>

locale wall_clock =
  fixes date_of :: "instant \<Rightarrow> date" and instant_at :: "date \<Rightarrow> nat \<Rightarrow> instant option"
  assumes not_before: "instant_at d m = Some s \<Longrightarrow> s \<le> t \<Longrightarrow> d \<le> date_of t"
    and not_after: "instant_at d m = Some s \<Longrightarrow> t < s + days k \<Longrightarrow> date_of t \<le> d + k"
begin

lemma search_range:
  assumes "instant_at d m = Some s" and "s \<le> t" and "t < s + dur"
  shows "d \<le> date_of t \<and> date_of t - d \<le> num_days dur + 1"
proof -
  have dur: "0 < dur" using assms(2,3) by simp
  then have "dur < days (num_days dur + 1)"
    by (simp add: num_days_def trunc_div_def time_defs)
  with assms have "t < s + days (num_days dur + 1)" by simp
  with assms(1) have "date_of t \<le> d + (num_days dur + 1)" by (rule not_after)
  with not_before [OF assms(1,2)] show ?thesis by simp
qed

end

lemma minute_mod_bound: "minutes (int (m mod MINUTES_PER_DAY)) < days 1"
proof -
  have "m mod MINUTES_PER_DAY < 1440" by (simp add: MINUTES_PER_DAY_def)
  then show ?thesis by (simp add: time_defs)
qed

lemma minute_nonneg: "0 \<le> minutes (int m)"
  by (simp add: time_defs)

lemma days_pos: "0 < days 1"
  by (simp add: time_defs)

lemma days_mult: "days d = d * days 1"
  by (simp add: time_defs)

lemma day_div_ge: "days d \<le> x \<Longrightarrow> d \<le> x div days 1"
  by (simp add: time_defs)

lemma day_div_less: "x < days (d + 1) \<Longrightarrow> x div days 1 \<le> d"
  by (simp add: time_defs)


interpretation fixed_wall: wall_clock "clock_date_of (Fixed offset)" "clock_instant_at (Fixed offset)"
  for offset :: int
proof unfold_locales
  fix d m s t
  assume s: "clock_instant_at (Fixed offset) d m = Some s" and "s \<le> t"
  then have "days d \<le> t + seconds offset" using minute_nonneg [of "m mod MINUTES_PER_DAY"] by simp
  then show "d \<le> clock_date_of (Fixed offset) t" by (simp add: day_div_ge)
next
  fix d m s t k
  assume "clock_instant_at (Fixed offset) d m = Some s" and "t < s + days k"
  moreover have "days (d + k + 1) = days d + days k + days 1" by (simp add: time_defs algebra_simps)
  ultimately have "t + seconds offset < days (d + k + 1)" using minute_mod_bound [of m] by simp
  then show "clock_date_of (Fixed offset) t \<le> d + k" by (simp add: day_div_less)
qed

section \<open>The search for a window\<close>

text \<open>The windows of a recurring schedule on a clock, without any search.\<close>

definition opens :: "calendar \<Rightarrow> schedule \<Rightarrow> clock \<Rightarrow> date \<Rightarrow> instant \<Rightarrow> bool" where
  "opens cal sched clk d s =
     (cal_min_date cal \<le> d \<and> schedule_selects cal sched d \<and>
      clock_instant_at clk d (schedule_start_minute sched) = Some s)"

lemma window_on_iff:
  "window_on cal sched clk now today offset = Some (s, e) \<longleftrightarrow>
     opens cal sched clk (today - int offset) s \<and> e = s + schedule_duration sched \<and>
     s \<le> now \<and> now < e"
  by (auto simp: window_on_def opens_def checked_sub_days_def Let_def split: option.splits if_splits)

lemma window_containing_recurring:
  assumes "schedule_clock cal sched = Some clk"
  shows "window_containing cal sched now =
     find_map (window_on cal sched clk now (clock_date_of clk now)) [0..<search_back sched + 1]"
  using assms by (cases sched) (simp_all add: window_containing_def)

lemma window_containing_sound:
  assumes "schedule_clock cal sched = Some clk" and "window_containing cal sched now = Some (s, e)"
  shows "\<exists>d. opens cal sched clk d s \<and> e = s + schedule_duration sched \<and> s \<le> now \<and> now < e"
  using assms(2) unfolding window_containing_recurring [OF assms(1)]
  by (blast dest!: find_map_SomeD iffD1 [OF window_on_iff])

lemma window_containing_complete:
  assumes clk: "schedule_clock cal sched = Some clk"
    and wall: "wall_clock (clock_date_of clk) (clock_instant_at clk)"
    and op: "opens cal sched clk d s" and t: "s \<le> now" "now < s + schedule_duration sched"
  shows "schedule_covers cal sched now"
proof -
  let ?today = "clock_date_of clk now"
  from op have "clock_instant_at clk d (schedule_start_minute sched) = Some s" by (simp add: opens_def)
  from wall_clock.search_range [OF wall this t]
  have r: "d \<le> ?today" "?today - d \<le> num_days (schedule_duration sched) + 1" by simp_all
  define k where "k = nat (?today - d)"
  from r have k: "?today - int k = d" "k \<in> set [0..<search_back sched + 1]"
    by (auto simp: k_def search_back_def)
  from op t have "window_on cal sched clk now ?today k = Some (s, s + schedule_duration sched)"
    by (simp add: window_on_iff k(1))
  with k(2) have "find_map (window_on cal sched clk now ?today) [0..<search_back sched + 1] \<noteq> None"
    by (auto simp: find_map_None_iff)
  then show ?thesis by (simp add: schedule_covers_def window_containing_recurring [OF clk])
qed

lemma fixed_clock_wall: "wall_clock (clock_date_of (fixed_clock off)) (clock_instant_at (fixed_clock off))"
  by (simp add: fixed_clock_def fixed_wall.wall_clock_axioms)

section \<open>The search for the next window\<close>

lemma fixed_instant_mono:
  assumes "clock_instant_at (fixed_clock off) d m = Some s"
    and "clock_instant_at (fixed_clock off) d' m = Some s'" and "d \<le> d'"
  shows "s \<le> s'"
  using assms by (auto simp: fixed_clock_def days_mult [of d] days_mult [of d'] days_pos
      intro!: mult_right_mono)

lemma next_start_loop_Some:
  assumes "next_start_loop cal sched clk now today offs = Some s" and "sorted offs"
  shows "\<exists>i \<in> set offs. schedule_selects cal sched (today + int i) \<and> now < s \<and>
     clock_instant_at clk (today + int i) (schedule_start_minute sched) = Some s \<and>
     (\<forall>j \<in> set offs. j < i \<longrightarrow> schedule_selects cal sched (today + int j) \<longrightarrow>
        (\<forall>s'. clock_instant_at clk (today + int j) (schedule_start_minute sched) = Some s' \<longrightarrow> s' \<le> now))"
  using assms
proof (induction offs)
  case (Cons j offs)
  from Cons.prems(1) have add: "checked_add_days cal today j = Some (today + int j)"
    by (auto simp: checked_add_days_def split: option.splits if_splits)
  show ?case
  proof (cases "next_start_loop cal sched clk now today offs = Some s \<and>
      (schedule_selects cal sched (today + int j) \<longrightarrow>
        (\<forall>s'. clock_instant_at clk (today + int j) (schedule_start_minute sched) = Some s' \<longrightarrow> s' \<le> now))")
    case True
    with Cons obtain k where "k \<in> set offs" "schedule_selects cal sched (today + int k)" "now < s"
      "clock_instant_at clk (today + int k) (schedule_start_minute sched) = Some s"
      "\<forall>l \<in> set offs. l < k \<longrightarrow> schedule_selects cal sched (today + int l) \<longrightarrow>
        (\<forall>s'. clock_instant_at clk (today + int l) (schedule_start_minute sched) = Some s' \<longrightarrow> s' \<le> now)"
      by auto
    with True show ?thesis by (intro bexI [of _ k]) auto
  next
    case False
    with Cons.prems add have "schedule_selects cal sched (today + int j)" "now < s"
      "clock_instant_at clk (today + int j) (schedule_start_minute sched) = Some s"
      by (auto split: if_splits option.splits)
    with Cons.prems(2) show ?thesis by (intro bexI [of _ j]) auto
  qed
qed simp

lemma next_start_loop_upt:
  assumes "next_start_loop cal sched clk now today [0..<n] = Some s"
  shows "\<exists>i. schedule_selects cal sched (today + int i) \<and> now < s \<and>
     clock_instant_at clk (today + int i) (schedule_start_minute sched) = Some s \<and>
     (\<forall>j s'. j < i \<longrightarrow> schedule_selects cal sched (today + int j) \<longrightarrow>
        clock_instant_at clk (today + int j) (schedule_start_minute sched) = Some s' \<longrightarrow> s' \<le> now)"
proof -
  from next_start_loop_Some [OF assms sorted_upt] obtain i where "i \<in> set [0..<n]"
    and "schedule_selects cal sched (today + int i)" "now < s"
    and "clock_instant_at clk (today + int i) (schedule_start_minute sched) = Some s"
    and "\<forall>j \<in> set [0..<n]. j < i \<longrightarrow> schedule_selects cal sched (today + int j) \<longrightarrow>
      (\<forall>s'. clock_instant_at clk (today + int j) (schedule_start_minute sched) = Some s' \<longrightarrow> s' \<le> now)"
    by blast
  then show ?thesis by (intro exI [of _ i]) auto
qed

lemma fixed_covers_iff:
  assumes "schedule_clock cal sched = Some (fixed_clock off)"
  shows "schedule_covers cal sched now \<longleftrightarrow>
     (\<exists>d s. opens cal sched (fixed_clock off) d s \<and> s \<le> now \<and> now < s + schedule_duration sched)"
proof
  assume "schedule_covers cal sched now"
  then obtain s e where "window_containing cal sched now = Some (s, e)"
    by (auto simp: schedule_covers_def)
  from window_containing_sound [OF assms this]
  show "\<exists>d s. opens cal sched (fixed_clock off) d s \<and> s \<le> now \<and> now < s + schedule_duration sched"
    by blast
qed (use window_containing_complete [OF assms fixed_clock_wall] in blast)

text \<open>The local time of a fixed offset, clamped as the code clamps it.\<close>

definition local_time :: "int \<Rightarrow> instant \<Rightarrow> int" where
  "local_time off now = now + seconds (max (- 14 * 60) (min (14 * 60) off) * 60)"

lemma weekly_opens:
  "opens cal (Weekly ds sm em off None) (fixed_clock off) d s \<longleftrightarrow>
     cal_min_date cal \<le> d \<and> weekday d \<in> set ds \<and>
     local_time off s = days d + minutes (int (sm mod MINUTES_PER_DAY))"
  by (auto simp: opens_def fixed_clock_def local_time_def)

lemma day_window_arith:
  fixes a b d D tod :: int
  assumes "0 \<le> tod" "tod < 86400000000000" "0 \<le> a" "a < b" "b < 1440"
  shows "(d * 86400 * 1000000000 + a * 60 * 1000000000 \<le> D * 86400 * 1000000000 + tod \<and>
      D * 86400 * 1000000000 + tod <
        d * 86400 * 1000000000 + a * 60 * 1000000000 + (b - a) * 60 * 1000000000) \<longleftrightarrow>
    d = D \<and> a * 60 * 1000000000 \<le> tod \<and> tod < b * 60 * 1000000000"
proof -
  consider "d = D" | "d \<le> D - 1" | "D + 1 \<le> d" by linarith
  then show ?thesis by cases (use assms in \<open>auto; linarith\<close>)+
qed

lemma night_window_arith:
  fixes a b d D tod :: int
  assumes "0 \<le> tod" "tod < 86400000000000" "0 \<le> b" "b \<le> a" "a < 1440"
  shows "(d * 86400 * 1000000000 + a * 60 * 1000000000 \<le> D * 86400 * 1000000000 + tod \<and>
      D * 86400 * 1000000000 + tod <
        d * 86400 * 1000000000 + a * 60 * 1000000000 + (1440 - a + b) * 60 * 1000000000) \<longleftrightarrow>
    (d = D \<and> a * 60 * 1000000000 \<le> tod) \<or> (d = D - 1 \<and> tod < b * 60 * 1000000000)"
proof -
  consider "d = D" | "d = D - 1" | "d \<le> D - 2" | "D + 1 \<le> d" by linarith
  then show ?thesis by cases (use assms in \<open>auto; linarith\<close>)+
qed

lemma weekly_covers_days:
  fixes D tod :: int
  assumes "local_time off now = days D + tod" and "0 \<le> tod" and "tod < days 1"
  shows "schedule_covers cal (Weekly ds sm em off None) now \<longleftrightarrow>
     (\<exists>d. cal_min_date cal \<le> d \<and> weekday d \<in> set ds \<and>
        (let a = int (sm mod MINUTES_PER_DAY); b = int (em mod MINUTES_PER_DAY)
         in if a < b then d = D \<and> minutes a \<le> tod \<and> tod < minutes b
            else (d = D \<and> minutes a \<le> tod) \<or> (d = D - 1 \<and> tod < minutes b)))"
    (is "?covers \<longleftrightarrow> (\<exists>d. _ \<and> _ \<and> ?ref d)")
proof -
  let ?dur = "schedule_duration (Weekly ds sm em off None)"
  let ?a = "int (sm mod MINUTES_PER_DAY)" and ?b = "int (em mod MINUTES_PER_DAY)"
  have clk: "schedule_clock cal (Weekly ds sm em off None) = Some (fixed_clock off)"
    by (simp add: clock_resolve_def)
  have ab: "0 \<le> ?a" "?a < 1440" "0 \<le> ?b" "?b < 1440" by (simp_all add: MINUTES_PER_DAY_def)
  have dur: "?dur = (if ?a < ?b then minutes (?b - ?a) else minutes (1440 - ?a + ?b))"
    using ab by (simp add: MINUTES_PER_DAY_def of_nat_diff add_diff_eq diff_add_eq)
  have key: "(days d + minutes ?a \<le> days D + tod \<and> days D + tod < days d + minutes ?a + ?dur) \<longleftrightarrow> ?ref d" for d
  proof (cases "?a < ?b")
    case True
    with day_window_arith [OF assms(2) _ ab(1) True ab(4), of d D] assms(3) show ?thesis
      unfolding dur Let_def by (simp add: time_defs)
  next
    case False
    then have "?b \<le> ?a" by simp
    with night_window_arith [OF assms(2) _ ab(3) this ab(2), of d D] assms(3) False show ?thesis
      unfolding dur Let_def by (simp add: time_defs)
  qed
  have "?covers \<longleftrightarrow> (\<exists>d s. opens cal (Weekly ds sm em off None) (fixed_clock off) d s \<and>
      local_time off s \<le> local_time off now \<and> local_time off now < local_time off s + ?dur)"
    unfolding fixed_covers_iff [OF clk] by (simp add: local_time_def)
  also have "\<dots> \<longleftrightarrow> (\<exists>d. cal_min_date cal \<le> d \<and> weekday d \<in> set ds \<and>
      days d + minutes ?a \<le> days D + tod \<and> days D + tod < days d + minutes ?a + ?dur)"
  proof -
    have "\<exists>s. local_time off s = x" for x by (simp add: local_time_def) (metis diff_add_cancel)
    then show ?thesis unfolding weekly_opens assms(1) by (metis (no_types, lifting))
  qed
  also have "\<dots> \<longleftrightarrow> (\<exists>d. cal_min_date cal \<le> d \<and> weekday d \<in> set ds \<and> ?ref d)"
    using key by blast
  finally show ?thesis .
qed

lemma weekly_covers_split:
  fixes D tod :: int
  assumes "local_time off now = days D + tod" and "0 \<le> tod" and "tod < days 1"
    and "cal_min_date cal < D"
  shows "schedule_covers cal (Weekly ds sm em off None) now \<longleftrightarrow>
     (let a = int (sm mod MINUTES_PER_DAY); b = int (em mod MINUTES_PER_DAY)
      in if a < b then weekday D \<in> set ds \<and> minutes a \<le> tod \<and> tod < minutes b
         else (weekday D \<in> set ds \<and> minutes a \<le> tod) \<or>
              (weekday (D - 1) \<in> set ds \<and> tod < minutes b))"
proof (cases "int (sm mod MINUTES_PER_DAY) < int (em mod MINUTES_PER_DAY)")
  case True
  with assms(4) show ?thesis unfolding weekly_covers_days [OF assms(1-3)] Let_def by auto
next
  case False
  from assms(4) have "cal_min_date cal \<le> D" "cal_min_date cal \<le> D - 1" by simp_all
  with False show ?thesis unfolding weekly_covers_days [OF assms(1-3)] Let_def
    by (auto intro: exI [of _ D] exI [of _ "D - 1"])
qed

lemma local_time_split:
  "local_time off now = days (local_time off now div days 1) + local_time off now mod days 1"
  by (metis days_mult mult_div_mod_eq mult.commute)

section \<open>A zone whose clock moves forward\<close>

text \<open>
  A concrete zone for the boundary of the search: one hour east of Greenwich until
  instant \<open>change\<close>, two hours after it. The local hour that is skipped does not exist.
\<close>

definition spring_zone :: "instant \<Rightarrow> tz" where
  "spring_zone change =
     \<lparr>tz_local_date = (\<lambda>t. (t + seconds (if t < change then 3600 else 7200)) div days 1),
      tz_earliest = (\<lambda>l. if l - seconds 3600 < change then Some (l - seconds 3600)
                          else if change \<le> l - seconds 7200 then Some (l - seconds 7200) else None)\<rparr>"

definition spring_calendar :: calendar where
  "spring_calendar =
     \<lparr>cal_day = (\<lambda>_. 1), cal_month = (\<lambda>_. 1), cal_min_date = -1000, cal_max_date = 1000,
      cal_tz = (\<lambda>_. Some (spring_zone (days 3 + seconds 3600)))\<rparr>"

section \<open>Properties\<close>



text \<open>
  the weekly window agrees with its reading. With a fixed offset, write the local time
  as a date and a time of day: the window from \<open>a\<close> to \<open>b\<close> covers it when the date is a
  chosen weekday and the time is between the two, and a window that ends at or before its
  start runs over midnight, from a chosen day into the next one.
\<close>

theorem weekly_window_reference:
  assumes "cal_min_date cal < local_time off now div days 1"
  shows "schedule_covers cal (Weekly ds sm em off None) now \<longleftrightarrow>
     (let D = local_time off now div days 1; tod = local_time off now mod days 1;
          a = int (sm mod MINUTES_PER_DAY); b = int (em mod MINUTES_PER_DAY)
      in if a < b then weekday D \<in> set ds \<and> minutes a \<le> tod \<and> tod < minutes b
         else (weekday D \<in> set ds \<and> minutes a \<le> tod) \<or>
              (weekday (D - 1) \<in> set ds \<and> tod < minutes b))"
proof -
  have "0 \<le> local_time off now mod days 1" "local_time off now mod days 1 < days 1"
    using days_pos by simp_all
  from weekly_covers_split [OF local_time_split this assms] show ?thesis by (simp only: Let_def)
qed

theorem weekly_window_reference_witness:
  "schedule_covers spring_calendar (Weekly [6] 1380 60 0 None) (days 4 + minutes 30) \<longleftrightarrow>
     (let D = local_time 0 (days 4 + minutes 30) div days 1;
          tod = local_time 0 (days 4 + minutes 30) mod days 1;
          a = int (1380 mod MINUTES_PER_DAY); b = int (60 mod MINUTES_PER_DAY)
      in if a < b then weekday D \<in> set [6] \<and> minutes a \<le> tod \<and> tod < minutes b
         else (weekday D \<in> set [6] \<and> minutes a \<le> tod) \<or>
              (weekday (D - 1) \<in> set [6] \<and> tod < minutes b))"
  by (rule weekly_window_reference) (simp add: spring_calendar_def local_time_def time_defs)

text \<open>
  the next window is the next one. For a recurring schedule on a fixed offset, the
  instant returned is the opening of a window on a selected date, lies in the future, and
  no window on any selected date opens between now and it.
\<close>

theorem next_start_least:
  assumes "schedule_clock cal sched = Some (fixed_clock off)" and "next_start cal sched now = Some s"
  shows "now < s \<and>
     (\<exists>d. schedule_selects cal sched d \<and>
        clock_instant_at (fixed_clock off) d (schedule_start_minute sched) = Some s) \<and>
     (\<forall>d s'. schedule_selects cal sched d \<longrightarrow>
        clock_instant_at (fixed_clock off) d (schedule_start_minute sched) = Some s' \<longrightarrow>
        now < s' \<longrightarrow> s \<le> s')"
proof -
  let ?today = "clock_date_of (fixed_clock off) now"
  let ?at = "\<lambda>d. clock_instant_at (fixed_clock off) d (schedule_start_minute sched)"
  from assms have "next_start_loop cal sched (fixed_clock off) now ?today [0..<NEXT_SEARCH_DAYS + 1] = Some s"
    by (cases sched) (auto simp: next_start_def)
  from next_start_loop_upt [OF this] obtain i where i: "schedule_selects cal sched (?today + int i)"
    "now < s" "?at (?today + int i) = Some s"
    and before: "\<forall>j s'. j < i \<longrightarrow> schedule_selects cal sched (?today + int j) \<longrightarrow>
      ?at (?today + int j) = Some s' \<longrightarrow> s' \<le> now" by blast
  have "s \<le> s'" if d: "schedule_selects cal sched d" "?at d = Some s'" "now < s'" for d s'
  proof (cases "?today + int i \<le> d")
    case True
    then show ?thesis using fixed_instant_mono i(3) d(2) by blast
  next
    case False
    have "?today \<le> d"
      using wall_clock.not_after [OF fixed_clock_wall d(2), of now 0] d(3) by (simp add: time_defs)
    with False have "d = ?today + int (nat (d - ?today))" "nat (d - ?today) < i" by simp_all
    with before d show ?thesis by (metis not_less)
  qed
  with i show ?thesis by blast
qed

theorem next_start_least_witness:
  "days 3 < days 8 + minutes 60 \<and>
   (\<exists>d. schedule_selects spring_calendar (Weekly [4] 60 120 0 None) d \<and>
      clock_instant_at (fixed_clock 0) d (schedule_start_minute (Weekly [4] 60 120 0 None)) =
        Some (days 8 + minutes 60))"
proof -
  have clock: "schedule_clock spring_calendar (Weekly [4] 60 120 0 None) = Some (fixed_clock 0)"
    by (simp add: clock_resolve_def)
  have "next_start spring_calendar (Weekly [4] 60 120 0 None) (days 3) = Some (days 8 + minutes 60)"
    by code_simp
  from next_start_least [OF clock this] show ?thesis by blast
qed

text \<open>
  where the search ends too early. A weekly window of 23 h 59 min that opens on Saturday
  at 23:30 in a zone that moves its clock forward on the following night still runs on Monday
  at 00:15 local time, two local dates later; the search goes back one day only and reports
  that the window does not cover that instant.
\<close>

theorem window_cut_short_by_clock_change:
  "let sched = Weekly [5] (23 * 60 + 30) (23 * 60 + 29) 0 (Some ''Europe/Paris'');
       s = days 2 + minutes (22 * 60 + 30); now = days 3 + minutes (22 * 60 + 15)
   in schedule_clock spring_calendar sched = Some (Named (spring_zone (days 3 + seconds 3600))) \<and>
      opens spring_calendar sched (Named (spring_zone (days 3 + seconds 3600))) 2 s \<and>
      s \<le> now \<and> now < s + schedule_duration sched \<and>
      \<not> schedule_covers spring_calendar sched now"
proof -
  have trim: "trim ''Europe/Paris'' = ''Europe/Paris''" by code_simp
  show ?thesis
    by (simp add: trim Let_def clock_resolve_def spring_calendar_def opens_def weekday_def
        spring_zone_def time_defs MINUTES_PER_DAY_def schedule_covers_def window_containing_def
        search_back_def num_days_def trunc_div_def window_on_def checked_sub_days_def
        numeral_2_eq_2)
qed

end
