(* ===== verification/Channel_Matcher.thy ===== *)
theory Channel_Matcher
  imports Alert_Model
begin

text \<open>
  Routing of alerts by labels (\<^verbatim>\<open>crates/server/src/alerting/matcher.rs\<close>): the conditions a
  channel can put on the device, its collector or the rule, and the include/exclude filter
  built on them; and the per-device overrides of a rule
  (\<^verbatim>\<open>crates/server/src/alerting/overrides.rs\<close>).
\<close>

section \<open>Channel filter\<close>

record match_context =
  mc_rule_uid :: string
  mc_kind :: string
  mc_tags :: labels

datatype condition = CondTag string string | CondKind string | CondRule string

fun condition_holds :: "condition \<Rightarrow> match_context \<Rightarrow> bool" where
  "condition_holds (CondTag key value) ctx = (map_of (mc_tags ctx) key = Some value)"
| "condition_holds (CondKind value) ctx = (mc_kind ctx = value)"
| "condition_holds (CondRule value) ctx = (mc_rule_uid ctx = value)"

fun condition_family :: "condition \<Rightarrow> string \<times> string" where
  "condition_family (CondTag key _) = (''tag'', key)"
| "condition_family (CondKind _) = (''kind'', [])"
| "condition_family (CondRule _) = (''rule'', [])"

record channel_matcher =
  cm_include :: "condition list"
  cm_exclude :: "condition list"

definition channel_matcher_default :: channel_matcher where
  "channel_matcher_default = \<lparr>cm_include = [], cm_exclude = []\<rparr>"

definition matcher_is_empty :: "channel_matcher \<Rightarrow> bool" where
  "matcher_is_empty m = (cm_include m = [] \<and> cm_exclude m = [])"

definition matcher_len :: "channel_matcher \<Rightarrow> nat" where
  "matcher_len m = length (cm_include m) + length (cm_exclude m)"

fun is_rule_condition :: "condition \<Rightarrow> bool" where
  "is_rule_condition (CondRule _) = True"
| "is_rule_condition _ = False"

definition device_part :: "channel_matcher \<Rightarrow> channel_matcher" where
  "device_part m =
     \<lparr>cm_include = filter (\<lambda>c. \<not> is_rule_condition c) (cm_include m),
      cm_exclude = filter (\<lambda>c. \<not> is_rule_condition c) (cm_exclude m)\<rparr>"

fun pick_rules :: "condition list \<Rightarrow> string list" where
  "pick_rules [] = []"
| "pick_rules (CondRule value # cs) = value # pick_rules cs"
| "pick_rules (_ # cs) = pick_rules cs"

definition rule_values :: "channel_matcher \<Rightarrow> string list \<times> string list" where
  "rule_values m = (pick_rules (cm_include m), pick_rules (cm_exclude m))"

text \<open>The families in order of first appearance, without repetition.\<close>

fun collect_families :: "(string \<times> string) list \<Rightarrow> condition list \<Rightarrow> (string \<times> string) list" where
  "collect_families families [] = families"
| "collect_families families (c # cs) =
     (let family = condition_family c
      in collect_families (if family \<notin> set families then families @ [family] else families) cs)"

definition matcher_accepts :: "channel_matcher \<Rightarrow> match_context \<Rightarrow> bool" where
  "matcher_accepts m ctx =
     (if list_ex (\<lambda>c. condition_holds c ctx) (cm_exclude m) then False
      else if cm_include m = [] then True
      else list_all
             (\<lambda>family. list_ex (\<lambda>c. condition_holds c ctx)
                (filter (\<lambda>c. condition_family c = family) (cm_include m)))
             (collect_families [] (cm_include m)))"

section \<open>Overrides per device\<close>

record rule_override =
  ro_rule_uid :: string
  ro_target_id :: target_id
  ro_threshold :: "f64 option"
  ro_clear_threshold :: "f64 option"
  ro_enabled :: "bool option"

definition override_is_empty :: "rule_override \<Rightarrow> bool" where
  "override_is_empty o' =
     (ro_threshold o' = None \<and> ro_clear_threshold o' = None \<and> ro_enabled o' = None)"

record effective =
  ef_threshold :: f64
  ef_clear_threshold :: "f64 option"
  ef_enabled :: bool

type_synonym override_index = "string \<times> target_id \<rightharpoonup> rule_override"

definition override_index_new :: "rule_override list \<Rightarrow> override_index" where
  "override_index_new overrides =
     collect_map (map (\<lambda>v. ((ro_rule_uid v, ro_target_id v), v)) overrides)"

definition override_get :: "override_index \<Rightarrow> string \<Rightarrow> target_id \<Rightarrow> rule_override option" where
  "override_get idx rule_uid target = idx (rule_uid, target)"

definition effective_thresholds :: "override_index \<Rightarrow> rule \<Rightarrow> target_id option \<Rightarrow> effective" where
  "effective_thresholds idx r target =
     (let base = \<lparr>ef_threshold = ru_threshold r, ef_clear_threshold = ru_clear_threshold r,
                  ef_enabled = True\<rparr>
      in case (case target of None \<Rightarrow> None | Some i \<Rightarrow> override_get idx (ru_uid r) i) of
           None \<Rightarrow> base
         | Some v \<Rightarrow>
             \<lparr>ef_threshold = (case ro_threshold v of None \<Rightarrow> ef_threshold base | Some t \<Rightarrow> t),
              ef_clear_threshold = (case ro_clear_threshold v of
                  None \<Rightarrow> ef_clear_threshold base | Some c \<Rightarrow> Some c),
              ef_enabled = (case ro_enabled v of None \<Rightarrow> True | Some b \<Rightarrow> b)\<rparr>)"

section \<open>Lemmas\<close>

lemma set_collect_families:
  "set (collect_families fs cs) = set fs \<union> condition_family ` set cs"
  by (induction fs cs rule: collect_families.induct) (auto simp: Let_def)

text \<open>The filter without its loop: no exclusion holds, and every included condition has a
  condition of its own family that holds.\<close>

lemma matcher_accepts_iff:
  "matcher_accepts m ctx \<longleftrightarrow>
     (\<forall>c \<in> set (cm_exclude m). \<not> condition_holds c ctx) \<and>
     (\<forall>c \<in> set (cm_include m). \<exists>c' \<in> set (cm_include m).
        condition_family c' = condition_family c \<and> condition_holds c' ctx)"
  by (auto simp: matcher_accepts_def list_all_iff list_ex_iff set_collect_families)

lemma family_of_rule: "condition_family c = condition_family c' \<Longrightarrow> is_rule_condition c = is_rule_condition c'"
  by (cases c; cases c') auto

lemma condition_holds_device:
  "\<not> is_rule_condition c \<Longrightarrow> condition_holds c (ctx\<lparr>mc_rule_uid := u\<rparr>) = condition_holds c ctx"
  by (cases c) auto

lemma effective_override:
  "idx (ru_uid r, i) = None \<Longrightarrow> effective_thresholds idx r (Some i) =
     \<lparr>ef_threshold = ru_threshold r, ef_clear_threshold = ru_clear_threshold r, ef_enabled = True\<rparr>"
  "effective_thresholds idx r None =
     \<lparr>ef_threshold = ru_threshold r, ef_clear_threshold = ru_clear_threshold r, ef_enabled = True\<rparr>"
  by (simp_all add: effective_thresholds_def override_get_def)

section \<open>Properties\<close>

text \<open>
  the filter of a channel reads as its documentation says: an alert is accepted exactly
  when none of the excluded conditions holds and, for every family that occurs among the
  included conditions, at least one condition of that family holds. An empty filter accepts
  everything, and a matching exclusion wins over any inclusion.
\<close>

theorem matcher_or_within_and_between:
  "matcher_accepts m ctx \<longleftrightarrow>
     \<not> list_ex (\<lambda>c. condition_holds c ctx) (cm_exclude m) \<and>
     list_all (\<lambda>family. list_ex (\<lambda>c. condition_family c = family \<and> condition_holds c ctx) (cm_include m))
       (map condition_family (cm_include m))"
  by (auto simp: matcher_accepts_iff list_all_iff list_ex_iff)

text \<open>
  the device part of a filter is what a preview can evaluate: it does not depend on the
  rule of the alert, and a device that receives some alert through the filter is accepted
  by its device part, so the preview never hides a device that the channel hears about.
\<close>

theorem device_part_sound:
  "matcher_accepts (device_part m) (ctx\<lparr>mc_rule_uid := u\<rparr>) = matcher_accepts (device_part m) ctx \<and>
   (matcher_accepts m ctx \<longrightarrow> matcher_accepts (device_part m) ctx)"
proof
  show "matcher_accepts (device_part m) (ctx\<lparr>mc_rule_uid := u\<rparr>) = matcher_accepts (device_part m) ctx"
    unfolding matcher_accepts_iff
    by (auto simp: device_part_def condition_holds_device)
  show "matcher_accepts m ctx \<longrightarrow> matcher_accepts (device_part m) ctx"
    unfolding matcher_accepts_iff device_part_def by (simp, metis family_of_rule)
qed

theorem device_part_sound_witness:
  "matcher_accepts (device_part \<lparr>cm_include = [CondTag ''site'' ''cellar'', CondRule ''disk_full''], cm_exclude = []\<rparr>)
     \<lparr>mc_rule_uid = ''disk_full'', mc_kind = ''snmp'', mc_tags = [(''site'', ''cellar'')]\<rparr>"
proof -
  let ?m = "\<lparr>cm_include = [CondTag ''site'' ''cellar'', CondRule ''disk_full''], cm_exclude = []\<rparr>"
  let ?ctx = "\<lparr>mc_rule_uid = ''disk_full'', mc_kind = ''snmp'', mc_tags = [(''site'', ''cellar'')]\<rparr>"
  have "matcher_accepts ?m ?ctx" by (simp add: matcher_accepts_def)
  then show ?thesis using device_part_sound [where m = ?m and ctx = ?ctx] by blast
qed

end
