(* ===== verification/Seasonal_Baseline.thy ===== *)
theory Seasonal_Baseline
  imports Alert_Model
begin

text \<open>
  Seasonal baselines of the anomaly rules (\<^verbatim>\<open>crates/server/src/alerting/baseline.rs\<close>): the
  168 buckets of a week, the smoothed mean and deviation of a bucket, the score of a point
  and the learning period of a series. Arithmetic is that of \<^verbatim>\<open>f64\<close>, rounding included.
\<close>

section \<open>Buckets\<close>

definition BUCKETS :: nat where
  "BUCKETS = 168"

definition MAD_TO_SIGMA :: f64 where
  "MAD_TO_SIGMA = round64 (14826 / 10000)"

definition LEARNING_PERIOD_DAYS :: int where
  "LEARNING_PERIOD_DAYS = 14"

definition f64_epsilon :: f64 where
  "f64_epsilon = Fin (1 / 2 ^ 52)"

definition u32_max :: nat where
  "u32_max = 2 ^ 32 - 1"

definition u64_max :: nat where
  "u64_max = 2 ^ 64 - 1"

text \<open>Day 0 of the epoch is a Thursday, day 3 of a week that starts on Monday.\<close>

definition bucket_of :: "instant \<Rightarrow> nat" where
  "bucket_of t =
     (let day = nat ((t div days 1 + 3) mod 7); hour = nat (t div seconds 3600 mod 24)
      in day * 24 + hour)"

record bucket =
  bk_ewma :: f64
  bk_mad :: f64
  bk_samples :: nat

definition bucket_default :: bucket where
  "bucket_default = \<lparr>bk_ewma = Fin 0, bk_mad = Fin 0, bk_samples = 0\<rparr>"

definition bucket_scale :: "bucket \<Rightarrow> anomaly_params \<Rightarrow> f64" where
  "bucket_scale b params =
     (let floor' = f64_max (f64_mul (ap_mad_floor_rel params) (f64_abs (bk_ewma b)))
                     (ap_mad_floor_abs params)
      in f64_max (f64_mul MAD_TO_SIGMA (bk_mad b)) floor')"

definition bucket_score :: "bucket \<Rightarrow> f64 \<Rightarrow> anomaly_params \<Rightarrow> f64 option" where
  "bucket_score b value params =
     (if bk_samples b < ap_min_samples params \<or> \<not> is_finite value then None
      else Some (f64_div (f64_abs (f64_sub value (bk_ewma b))) (bucket_scale b params)))"

definition bucket_observe :: "bucket \<Rightarrow> f64 \<Rightarrow> anomaly_params \<Rightarrow> bucket" where
  "bucket_observe b value params =
     (if \<not> is_finite value then b
      else
        (let b' =
           (if bk_samples b = 0 then b\<lparr>bk_ewma := value, bk_mad := Fin 0\<rparr>
            else
              (let alpha = f64_clamp f64_epsilon (Fin 1) (ap_alpha params);
                   deviation = f64_abs (f64_sub value (bk_ewma b));
                   rest = f64_sub (Fin 1) alpha
               in b\<lparr>bk_mad := f64_add (f64_mul alpha deviation) (f64_mul rest (bk_mad b)),
                    bk_ewma := f64_add (f64_mul alpha value) (f64_mul rest (bk_ewma b))\<rparr>))
         in b'\<lparr>bk_samples := min (bk_samples b' + 1) u32_max\<rparr>))"

section \<open>Series and verdicts\<close>

record series_baseline =
  sb_first_seen :: instant
  sb_updates :: nat

definition series_baseline_new :: "instant \<Rightarrow> series_baseline" where
  "series_baseline_new first_seen = \<lparr>sb_first_seen = first_seen, sb_updates = 0\<rparr>"

definition is_learning :: "series_baseline \<Rightarrow> instant \<Rightarrow> bool" where
  "is_learning s now = (now - sb_first_seen s < days LEARNING_PERIOD_DAYS)"

fun insert_f64 :: "f64 \<Rightarrow> f64 list \<Rightarrow> f64 list" where
  "insert_f64 a [] = [a]"
| "insert_f64 a (b # bs) = (if f64_lt a b then a # b # bs else b # insert_f64 a bs)"

text \<open>The stable sort of finite values, then the middle one or the mean of the two middle ones.\<close>

definition median :: "f64 list \<Rightarrow> f64 option" where
  "median values =
     (let finite = filter is_finite values;
          sorted' = fold insert_f64 finite [];
          middle = length sorted' div 2
      in if finite = [] then None
         else Some (if even (length sorted')
                    then f64_div (f64_add (sorted' ! (middle - 1)) (sorted' ! middle)) (Fin 2)
                    else sorted' ! middle))"

record anomaly_verdict =
  av_score :: "f64 option"
  av_exceeds :: bool
  av_anomalous :: bool
  av_learning :: bool

definition baseline_evaluate ::
  "series_baseline \<Rightarrow> bucket \<Rightarrow> f64 \<Rightarrow> instant \<Rightarrow> anomaly_params \<Rightarrow> anomaly_verdict" where
  "baseline_evaluate series b value now params =
     (let learning = is_learning series now;
          score = bucket_score b value params;
          exceeds = (case score of None \<Rightarrow> False | Some s \<Rightarrow> f64_le (ap_k params) s)
      in \<lparr>av_score = score, av_exceeds = exceeds, av_anomalous = exceeds \<and> \<not> learning,
          av_learning = learning\<rparr>)"

section \<open>Lemmas\<close>

lemma nat_day_hour: "0 \<le> x \<Longrightarrow> 0 \<le> y \<Longrightarrow> nat (24 * x + y) = nat x * 24 + nat y"
  by (simp add: nat_add_distrib nat_mult_distrib)

lemma hour_of_week: "bucket_of t = nat ((t div seconds 3600 + 72) mod 168)"
proof -
  define h where "h = t div seconds 3600"
  have day: "t div days 1 = h div 24"
    by (simp add: h_def time_defs zdiv_zmult2_eq [symmetric])
  have "(h + 72) mod 168 = (h + 72) mod (24 * 7)" by simp
  also have "\<dots> = 24 * ((h + 72) div 24 mod 7) + (h + 72) mod 24" by (subst zmod_zmult2_eq) simp_all
  also have "\<dots> = 24 * ((h div 24 + 3) mod 7) + h mod 24"
  proof -
    have "(h + 72) div 24 = h div 24 + 3" "(h + 72) mod 24 = h mod 24"
      using div_mult_self1 [of 24 h 3] mod_mult_self1 [of h 3 24] by simp_all
    then show ?thesis by simp
  qed
  finally have "nat ((h + 72) mod 168) = nat (24 * ((h div 24 + 3) mod 7) + h mod 24)" by (rule arg_cong)
  also have "\<dots> = nat ((h div 24 + 3) mod 7) * 24 + nat (h mod 24)"
    by (intro nat_day_hour pos_mod_sign) simp_all
  finally have "nat ((h + 72) mod 168) = nat ((h div 24 + 3) mod 7) * 24 + nat (h mod 24)" .
  then show ?thesis by (simp only: bucket_of_def Let_def day h_def [symmetric])
qed

section \<open>Properties\<close>

text \<open>
  the buckets are the hours of the week: an instant falls in one of the 168 buckets, in
  the same one a week later, and two instants share a bucket exactly when their hours differ
  by a whole number of weeks.
\<close>

theorem bucket_is_hour_of_week:
  "bucket_of t < BUCKETS \<and> bucket_of (t + days 7) = bucket_of t \<and>
   (bucket_of t = bucket_of u \<longleftrightarrow> 168 dvd (t div seconds 3600 - u div seconds 3600))"
proof -
  have "(t + days 7) div seconds 3600 = t div seconds 3600 + 168" by (simp add: time_defs)
  moreover have "(t div seconds 3600 + 168 + 72) mod 168 = (t div seconds 3600 + 72) mod 168"
    using mod_mult_self1 [of "t div seconds 3600 + 72" 1 168] by (simp add: algebra_simps)
  ultimately have "bucket_of (t + days 7) = bucket_of t" by (simp only: hour_of_week)
  moreover have "bucket_of t < BUCKETS" by (simp add: hour_of_week BUCKETS_def nat_less_iff)
  moreover have "bucket_of t = bucket_of u \<longleftrightarrow>
      (t div seconds 3600 + 72) mod 168 = (u div seconds 3600 + 72) mod 168"
    by (simp add: hour_of_week eq_nat_nat_iff)
  moreover have "\<dots> \<longleftrightarrow> 168 dvd (t div seconds 3600 - u div seconds 3600)"
    by (simp add: mod_eq_dvd_iff)
  ultimately show ?thesis by blast
qed

text \<open>
  the score of a flat series stays bounded: whatever the bucket holds, even after an
  overflow, the scale in the denominator of the score is a number and is at least the
  absolute floor of the rule.
\<close>

theorem scale_at_least_floor:
  assumes "ap_mad_floor_abs params = Fin fl"
  shows "bucket_scale b params \<noteq> NaN \<and> f64_le (Fin fl) (bucket_scale b params)"
proof -
  let ?floor = "f64_max (f64_mul (ap_mad_floor_rel params) (f64_abs (bk_ewma b))) (Fin fl)"
  have "?floor \<noteq> NaN" by (rule f64_max_not_NaN) simp
  moreover have "f64_le (Fin fl) ?floor" by (rule f64_le_max_right) simp
  ultimately show ?thesis unfolding bucket_scale_def Let_def assms
    using f64_max_not_NaN f64_le_max_right f64_le_trans by blast
qed

theorem scale_at_least_floor_witness:
  "bucket_scale bucket_default \<lparr>ap_k = Fin 3, ap_alpha = Fin 1, ap_mad_floor_abs = Fin 2,
      ap_mad_floor_rel = Fin 0, ap_min_samples = 3\<rparr> \<noteq> NaN \<and>
   f64_le (Fin 2) (bucket_scale bucket_default \<lparr>ap_k = Fin 3, ap_alpha = Fin 1,
      ap_mad_floor_abs = Fin 2, ap_mad_floor_rel = Fin 0, ap_min_samples = 3\<rparr>)"
  by (rule scale_at_least_floor) simp

end
