(* ===== verification/Eval_Cycle.thy ===== *)
theory Eval_Cycle
  imports Alert_Grouping Dependency_Suppression Maintenance_Silence Channel_Matcher Seasonal_Baseline
begin

text \<open>
  One evaluation cycle, without input or output (\<^verbatim>\<open>crates/server/src/alerting/cycle.rs\<close>):
  attaching series to targets, evaluating every series of every rule, letting vanished series
  resolve, laying suppression and silences over the new states, and building the messages and
  the history. The cycle is a fold over the rules, each rule a fold over its candidates and then
  over its stored alerts, exactly in the order of the code.
\<close>

section \<open>What a cycle reads and returns\<close>

definition UNKNOWN_TARGET :: string where
  "UNKNOWN_TARGET = ''no device''"

definition FORGOTTEN_TARGET_REASON :: string where
  "FORGOTTEN_TARGET_REASON = ''device removed or disabled''"

record stored_alert =
  sa_fingerprint :: string
  sa_rule_uid :: string
  sa_target_id :: "target_id option"
  sa_series_key :: string
  sa_labels :: labels
  sa_state :: alert_state

text \<open>\<open>ob_series\<close> is \<open>None\<close> when the query of the rule failed.\<close>

record rule_observations =
  ob_rule :: rule
  ob_series :: "series_point list option"

record baseline_store =
  bs_series :: "string \<rightharpoonup> series_baseline"
  bs_buckets :: "string \<times> nat \<rightharpoonup> bucket"
  bs_dirty_series :: "string set"
  bs_dirty_buckets :: "(string \<times> nat) set"

definition baseline_store_new ::
  "(string \<rightharpoonup> series_baseline) \<Rightarrow> (string \<times> nat \<rightharpoonup> bucket) \<Rightarrow> baseline_store" where
  "baseline_store_new series buckets =
     \<lparr>bs_series = series, bs_buckets = buckets, bs_dirty_series = {}, bs_dirty_buckets = {}\<rparr>"

text \<open>\<^verbatim>\<open>dirty\<close> and \<^verbatim>\<open>dirty_series\<close>: the entries that are written back, whatever their order.\<close>

definition dirty :: "baseline_store \<Rightarrow> (string \<times> nat \<times> bucket) set" where
  "dirty store = {(fst key, snd key, b) | key b. key \<in> bs_dirty_buckets store \<and> bs_buckets store key = Some b}"

definition dirty_series :: "baseline_store \<Rightarrow> (string \<times> series_baseline) set" where
  "dirty_series store = {(key, s) | key s. key \<in> bs_dirty_series store \<and> bs_series store key = Some s}"

record cycle_input =
  ci_now :: instant
  ci_observations :: "rule_observations list"
  ci_targets :: "target_node list"
  ci_previous :: "stored_alert list"
  ci_silences :: "silence list"
  ci_overrides :: "rule_override list"
  ci_unacked_after :: "duration option"

record history_entry =
  he_fingerprint :: string
  he_rule_uid :: string
  he_target_id :: "target_id option"
  he_transition :: transition
  he_severity :: severity
  he_value :: "f64 option"
  he_reason :: string
  he_at :: instant

record cycle_outcome =
  co_alerts :: "alert_outcome list"
  co_groups :: "alert_group list"
  co_history :: "history_entry list"
  co_carried_over :: "string list"

section \<open>Attaching a series to a target\<close>

record target_index =
  ti_by_id :: "target_id \<rightharpoonup> target_node"
  ti_by_name :: "string \<rightharpoonup> target_id"
  ti_by_address :: "string \<rightharpoonup> target_id"

definition target_index_new :: "target_node list \<Rightarrow> target_index" where
  "target_index_new targets =
     \<lparr>ti_by_id = collect_map (map (\<lambda>t. (tn_id t, t)) targets),
      ti_by_name = collect_map (map (\<lambda>t. (tn_name t, tn_id t)) targets),
      ti_by_address = collect_map (map (\<lambda>t. (tn_address t, tn_id t)) targets)\<rparr>"

definition resolve_id :: "target_index \<Rightarrow> labels \<Rightarrow> string \<Rightarrow> target_node option" where
  "resolve_id idx ls label =
     (case map_of ls label of
        None \<Rightarrow> None
      | Some raw \<Rightarrow> (case parse_i64 raw of None \<Rightarrow> None | Some i \<Rightarrow> ti_by_id idx i))"

definition resolve_name :: "target_index \<Rightarrow> labels \<Rightarrow> string \<Rightarrow> target_node option" where
  "resolve_name idx ls label =
     (case map_of ls label of
        None \<Rightarrow> None
      | Some name \<Rightarrow> (case ti_by_name idx name of None \<Rightarrow> None | Some i \<Rightarrow> ti_by_id idx i))"

definition resolve_address :: "target_index \<Rightarrow> labels \<Rightarrow> string \<Rightarrow> target_node option" where
  "resolve_address idx ls label =
     (case map_of ls label of
        None \<Rightarrow> None
      | Some address \<Rightarrow>
          (let host = (case rsplit_once (CHR '':'') address of None \<Rightarrow> address | Some (h, _) \<Rightarrow> h)
           in case (case ti_by_address idx address of Some i \<Rightarrow> Some i | None \<Rightarrow> ti_by_address idx host) of
                None \<Rightarrow> None
              | Some i \<Rightarrow> ti_by_id idx i))"

definition resolve :: "target_index \<Rightarrow> labels \<Rightarrow> target_node option" where
  "resolve idx ls =
     (if carries_target_id ls then find_map (resolve_id idx ls) TARGET_ID_LABELS
      else case find_map (resolve_name idx ls) TARGET_NAME_LABELS of
          Some node \<Rightarrow> Some node
        | None \<Rightarrow> find_map (resolve_address idx ls) TARGET_ADDRESS_LABELS)"

definition is_live :: "target_index \<Rightarrow> target_id \<Rightarrow> bool" where
  "is_live idx i = (case ti_by_id idx i of None \<Rightarrow> False | Some node \<Rightarrow> tn_enabled node)"

definition is_orphan :: "target_index \<Rightarrow> stored_alert \<Rightarrow> bool" where
  "is_orphan idx alert =
     (case sa_target_id alert of
        Some i \<Rightarrow> \<not> is_live idx i
      | None \<Rightarrow> carries_target_id (sa_labels alert))"

section \<open>Candidates of a rule\<close>

record candidate =
  cd_fingerprint :: string
  cd_target :: "target_node option"
  cd_point :: series_point

definition bears_current_name :: "candidate \<Rightarrow> bool" where
  "bears_current_name c =
     (case cd_target c of
        None \<Rightarrow> True
      | Some target \<Rightarrow>
          list_all (\<lambda>n. n = tn_name target)
            (List.map_filter (\<lambda>l. map_of (sp_labels (cd_point c)) l) TARGET_NAME_LABELS))"

text \<open>The two guards of the first pass: the series of a live target, that the rule selects.\<close>

definition keeps_point :: "rule \<Rightarrow> target_node option \<Rightarrow> series_point \<Rightarrow> bool" where
  "keeps_point r target point =
     (if (case target of None \<Rightarrow> False | Some t \<Rightarrow> \<not> tn_enabled t) \<or>
         (target = None \<and> carries_target_id (sp_labels point))
      then False
      else selector_matches (ru_selector r) target)"

definition add_candidate ::
  "target_index \<Rightarrow> rule \<Rightarrow> candidate list \<times> (string \<rightharpoonup> nat) \<Rightarrow> series_point \<Rightarrow>
   candidate list \<times> (string \<rightharpoonup> nat)" where
  "add_candidate idx r acc point =
     (let (candidates, position) = acc; target = resolve idx (sp_labels point)
      in if \<not> keeps_point r target point then (candidates, position)
         else
           (let fp = fingerprint (ru_uid r) (identity_key (sp_labels point));
                candidate = \<lparr>cd_fingerprint = fp, cd_target = target, cd_point = point\<rparr>
            in case position fp of
                 Some i \<Rightarrow>
                   if \<not> bears_current_name (candidates ! i) \<and> bears_current_name candidate
                   then (candidates[i := candidate], position)
                   else (candidates, position)
               | None \<Rightarrow> (candidates @ [candidate], position(fp \<mapsto> length candidates))))"

definition candidates_of :: "target_index \<Rightarrow> rule \<Rightarrow> series_point list \<Rightarrow> candidate list" where
  "candidates_of idx r series = fst (foldl (add_candidate idx r) ([], Map.empty) series)"

section \<open>Evaluating a point\<close>

definition evaluate_anomaly ::
  "rule \<Rightarrow> string \<Rightarrow> series_point \<Rightarrow> instant \<Rightarrow> baseline_store \<Rightarrow>
   (bool \<times> f64 option \<times> bool) \<times> baseline_store" where
  "evaluate_anomaly r key point now store =
     (let index = bucket_of now;
          series = (case bs_series store key of None \<Rightarrow> series_baseline_new now | Some s \<Rightarrow> s);
          is_first_sight = (sb_updates series = 0);
          b = (case bs_buckets store (key, index) of None \<Rightarrow> bucket_default | Some b \<Rightarrow> b);
          verdict = baseline_evaluate series b (sp_value point) now (ru_params r);
          store = store
            \<lparr>bs_buckets := (bs_buckets store)((key, index) \<mapsto> bucket_observe b (sp_value point) (ru_params r)),
             bs_dirty_buckets := insert (key, index) (bs_dirty_buckets store),
             bs_series := (bs_series store)(key \<mapsto> series\<lparr>sb_updates := min (sb_updates series + 1) u64_max\<rparr>)\<rparr>;
          store = (if is_first_sight then store\<lparr>bs_dirty_series := insert key (bs_dirty_series store)\<rparr>
                   else store)
      in ((av_exceeds verdict, av_score verdict, av_learning verdict), store))"

definition evaluate_point ::
  "rule \<Rightarrow> effective \<Rightarrow> bool \<Rightarrow> string \<Rightarrow> series_point \<Rightarrow> instant \<Rightarrow> baseline_store \<Rightarrow>
   (bool \<times> f64 option \<times> bool) \<times> baseline_store" where
  "evaluate_point r eff active key point now store =
     (case ru_kind r of
        Anomaly \<Rightarrow> evaluate_anomaly r key point now store
      | _ \<Rightarrow>
          ((operator_holds (ru_operator r) (sp_value point) (ef_threshold eff) (ef_clear_threshold eff) active,
            None, False), store))"

section \<open>The cycle\<close>

record evaluated =
  ev_fingerprint :: string
  ev_rule_index :: nat
  ev_target_id :: "target_id option"
  ev_target_name :: string
  ev_series_key :: string
  ev_labels :: labels
  ev_state :: alert_state
  ev_transition :: "transition option"
  ev_value :: "f64 option"
  ev_score :: "f64 option"
  ev_threshold :: f64

record cycle_acc =
  ca_evaluated :: "evaluated list"
  ca_seen :: "string set"
  ca_carried_over :: "string list"
  ca_baselines :: baseline_store

text \<open>The stored alerts by fingerprint, then by the fingerprint of today's formula.\<close>

definition rekeyed :: "stored_alert \<Rightarrow> string" where
  "rekeyed alert = fingerprint (sa_rule_uid alert) (identity_key (sa_labels alert))"

definition previous_index :: "stored_alert list \<Rightarrow> string \<rightharpoonup> stored_alert" where
  "previous_index live =
     foldl (\<lambda>m alert. case m (rekeyed alert) of None \<Rightarrow> m(rekeyed alert \<mapsto> alert) | Some _ \<Rightarrow> m)
       (collect_map (map (\<lambda>alert. (sa_fingerprint alert, alert)) live)) live"

definition series_target_name :: "target_node option \<Rightarrow> labels \<Rightarrow> string" where
  "series_target_name target ls =
     (case target of
        Some t \<Rightarrow> tn_name t
      | None \<Rightarrow> (case find_map (map_of ls) TARGET_NAME_LABELS of Some n \<Rightarrow> n | None \<Rightarrow> UNKNOWN_TARGET))"

definition evaluate_candidate ::
  "instant \<Rightarrow> override_index \<Rightarrow> (string \<rightharpoonup> stored_alert) \<Rightarrow> rule \<Rightarrow> nat \<Rightarrow> cycle_acc \<Rightarrow> candidate \<Rightarrow> cycle_acc" where
  "evaluate_candidate now overrides previous r rule_index acc c =
     (let eff = effective_thresholds overrides r (map_option tn_id (cd_target c))
      in if \<not> ef_enabled eff then acc
         else
           (let key = series_key (sp_labels (cd_point c));
                seen = insert (cd_fingerprint c) (ca_seen acc);
                stored = previous (cd_fingerprint c);
                seen = (case stored of
                          None \<Rightarrow> seen
                        | Some s \<Rightarrow> if sa_fingerprint s \<noteq> cd_fingerprint c then insert (sa_fingerprint s) seen else seen);
                before = reset_overlays (case stored of None \<Rightarrow> alert_state_default | Some s \<Rightarrow> sa_state s);
                active = (as_condition_since before \<noteq> None);
                ((condition, score, learning), store) =
                  evaluate_point r eff active key (cd_point c) now (ca_baselines acc);
                (state, transition) = advance before condition now (ru_for_duration r);
                state = state\<lparr>as_value := Some (sp_value (cd_point c)), as_score := score, as_learning := learning\<rparr>
            in acc\<lparr>ca_seen := seen, ca_baselines := store,
                 ca_evaluated := ca_evaluated acc @
                   [\<lparr>ev_fingerprint = cd_fingerprint c, ev_rule_index = rule_index,
                     ev_target_id = map_option tn_id (cd_target c),
                     ev_target_name = series_target_name (cd_target c) (sp_labels (cd_point c)),
                     ev_series_key = key, ev_labels = sp_labels (cd_point c), ev_state = state,
                     ev_transition = transition, ev_value = Some (sp_value (cd_point c)),
                     ev_score = score, ev_threshold = ef_threshold eff\<rparr>]\<rparr>))"

definition vanish ::
  "instant \<Rightarrow> target_index \<Rightarrow> override_index \<Rightarrow> rule \<Rightarrow> nat \<Rightarrow> cycle_acc \<Rightarrow> stored_alert \<Rightarrow> cycle_acc" where
  "vanish now idx overrides r rule_index acc stored =
     (if sa_fingerprint stored \<in> ca_seen acc then acc
      else
        (let before = reset_overlays (sa_state stored);
             (state, transition) = advance before False now (ru_for_duration r)
         in if as_phase state = PhOk \<and> transition = None then acc
            else acc\<lparr>ca_seen := insert (sa_fingerprint stored) (ca_seen acc),
                   ca_evaluated := ca_evaluated acc @
                     [\<lparr>ev_fingerprint = sa_fingerprint stored, ev_rule_index = rule_index,
                       ev_target_id = sa_target_id stored,
                       ev_target_name =
                         (case (case sa_target_id stored of None \<Rightarrow> None | Some i \<Rightarrow> ti_by_id idx i) of
                            Some t \<Rightarrow> tn_name t | None \<Rightarrow> UNKNOWN_TARGET),
                       ev_series_key = sa_series_key stored, ev_labels = sa_labels stored,
                       ev_state = state, ev_transition = transition, ev_value = None,
                       ev_score = None,
                       ev_threshold = ef_threshold (effective_thresholds overrides r (sa_target_id stored))\<rparr>]\<rparr>))"

definition evaluate_rule ::
  "instant \<Rightarrow> target_index \<Rightarrow> override_index \<Rightarrow> stored_alert list \<Rightarrow> (string \<rightharpoonup> stored_alert) \<Rightarrow>
   cycle_acc \<Rightarrow> nat \<times> rule_observations \<Rightarrow> cycle_acc" where
  "evaluate_rule now idx overrides live previous acc obs =
     (let (rule_index, observation) = obs; r = ob_rule observation;
          stored = filter (\<lambda>a. sa_rule_uid a = ru_uid r) live
      in case ob_series observation of
           None \<Rightarrow> acc\<lparr>ca_carried_over := ca_carried_over acc @ map sa_fingerprint stored\<rparr>
         | Some series \<Rightarrow>
             foldl (vanish now idx overrides r rule_index)
               (foldl (evaluate_candidate now overrides previous r rule_index) acc (candidates_of idx r series))
               stored)"

definition history_reason :: "alert_state \<Rightarrow> instant \<Rightarrow> string" where
  "history_reason s now =
     (if as_learning s then ''learning: would have fired''
      else if as_suppressed s then
        (case as_suppressed_by s of
           Some c \<Rightarrow> ''suppressed: device '' @ show_int c @ '' unreachable''
         | None \<Rightarrow> ''suppressed by dependency'')
      else if as_silenced s then ''maintenance window''
      else if is_acked s now then
        (case as_acked_by s of
           Some who \<Rightarrow> ''acknowledged by '' @ who
         | None \<Rightarrow> ''acknowledged'')
      else [])"

definition orphan_entry :: "cycle_input \<Rightarrow> stored_alert \<Rightarrow> history_entry" where
  "orphan_entry input alert =
     \<lparr>he_fingerprint = sa_fingerprint alert, he_rule_uid = sa_rule_uid alert,
      he_target_id = sa_target_id alert,
      he_transition = \<lparr>tr_from = as_phase (sa_state alert), tr_to = PhResolved\<rparr>,
      he_severity =
        (case find (\<lambda>obs. ru_uid (ob_rule obs) = sa_rule_uid alert) (ci_observations input) of
           None \<Rightarrow> Warning | Some obs \<Rightarrow> ru_severity (ob_rule obs)),
      he_value = None, he_reason = FORGOTTEN_TARGET_REASON, he_at = ci_now input\<rparr>"

definition rule_at :: "cycle_input \<Rightarrow> nat \<Rightarrow> rule" where
  "rule_at input i = ob_rule (ci_observations input ! i)"

definition down_targets :: "cycle_input \<Rightarrow> evaluated list \<Rightarrow> target_id set" where
  "down_targets input evs =
     set (List.map_filter ev_target_id
       (filter (\<lambda>e. is_host_down (rule_at input (ev_rule_index e)) \<and> as_phase (ev_state e) = PhFiring) evs)) \<union>
     tn_id ` set (filter tn_unreachable (ci_targets input))"

definition overlay :: "calendar \<Rightarrow> cycle_input \<Rightarrow> topology \<Rightarrow> target_id set \<Rightarrow> evaluated \<Rightarrow> evaluated" where
  "overlay cal input topo down e =
     (let r = rule_at input (ev_rule_index e);
          e = (case suppression_for topo (ev_target_id e) (is_host_down r) down of
                 None \<Rightarrow> e
               | Some suppression \<Rightarrow>
                   e\<lparr>ev_state := (ev_state e)\<lparr>as_suppressed := True,
                       as_suppressed_by := map_option (culprit suppression) (ev_target_id e)\<rparr>\<rparr>)
      in case first_match cal (ci_silences input) (ci_now input) (ev_target_id e) (ev_labels e) of
           None \<Rightarrow> e
         | Some _ \<Rightarrow> e\<lparr>ev_state := (ev_state e)\<lparr>as_silenced := True\<rparr>\<rparr>)"

definition history_of :: "cycle_input \<Rightarrow> evaluated \<Rightarrow> history_entry option" where
  "history_of input e =
     (let r = rule_at input (ev_rule_index e)
      in map_option (\<lambda>t.
           \<lparr>he_fingerprint = ev_fingerprint e, he_rule_uid = ru_uid r, he_target_id = ev_target_id e,
            he_transition = t, he_severity = ru_severity r, he_value = ev_value e,
            he_reason = history_reason (ev_state e) (ci_now input), he_at = ci_now input\<rparr>)
           (ev_transition e))"

definition outcome_of :: "cycle_input \<Rightarrow> evaluated \<Rightarrow> alert_outcome" where
  "outcome_of input e =
     (let r = rule_at input (ev_rule_index e)
      in \<lparr>ao_fingerprint = ev_fingerprint e, ao_rule_uid = ru_uid r, ao_rule_name = ru_name r,
          ao_target_id = ev_target_id e, ao_target_name = ev_target_name e,
          ao_series_key = ev_series_key e, ao_labels = ev_labels e, ao_state = ev_state e,
          ao_severity = ru_severity r, ao_value = ev_value e, ao_score = ev_score e,
          ao_unit = ru_unit r, ao_operator = operator_as_str (ru_operator r),
          ao_threshold = ev_threshold e, ao_channels = ru_channels r,
          ao_repeat_interval = ru_repeat_interval r, ao_escalate_after = ru_escalate_after r,
          ao_unacked_after = ci_unacked_after input,
          ao_just_transitioned = (ev_transition e \<noteq> None)\<rparr>)"

definition describe_group :: "target_index \<Rightarrow> alert_group \<Rightarrow> alert_group" where
  "describe_group idx g =
     (case (case ag_target_id g of None \<Rightarrow> None | Some i \<Rightarrow> ti_by_id idx i) of
        None \<Rightarrow> g
      | Some node \<Rightarrow> g\<lparr>ag_target_kind := tn_kind node, ag_target_tags := tn_tags node\<rparr>)"

definition evaluate_rules :: "cycle_input \<Rightarrow> baseline_store \<Rightarrow> cycle_acc" where
  "evaluate_rules input store =
     (let idx = target_index_new (ci_targets input);
          live = filter (\<lambda>alert. \<not> is_orphan idx alert) (ci_previous input)
      in foldl (evaluate_rule (ci_now input) idx (override_index_new (ci_overrides input)) live (previous_index live))
           \<lparr>ca_evaluated = [], ca_seen = {}, ca_carried_over = [], ca_baselines = store\<rparr>
           (enumerate 0 (ci_observations input)))"

definition plan_cycle :: "calendar \<Rightarrow> cycle_input \<Rightarrow> baseline_store \<Rightarrow> cycle_outcome \<times> baseline_store" where
  "plan_cycle cal input store =
     (let idx = target_index_new (ci_targets input);
          topo = topology_new (ci_targets input);
          orphans = filter (is_orphan idx) (ci_previous input);
          acc = evaluate_rules input store;
          down = down_targets input (ca_evaluated acc);
          evs = map (overlay cal input topo down) (ca_evaluated acc);
          alerts = map (outcome_of input) evs
      in (\<lparr>co_alerts = alerts,
           co_groups = map (describe_group idx) (group_alerts alerts (ci_now input)),
           co_history =
             map (orphan_entry input) (filter (\<lambda>a. phase_is_active (as_phase (sa_state a))) orphans) @
             List.map_filter (history_of input) evs,
           co_carried_over = ca_carried_over acc\<rparr>,
          ca_baselines acc))"

section \<open>Where the entries of a cycle come from\<close>

definition from_candidate ::
  "instant \<Rightarrow> override_index \<Rightarrow> (string \<rightharpoonup> stored_alert) \<Rightarrow> rule \<Rightarrow> candidate \<Rightarrow> evaluated \<Rightarrow> bool" where
  "from_candidate now overrides previous r c e =
     (ef_enabled (effective_thresholds overrides r (map_option tn_id (cd_target c))) \<and>
      ev_fingerprint e = cd_fingerprint c \<and> ev_target_id e = map_option tn_id (cd_target c) \<and>
      ev_labels e = sp_labels (cd_point c) \<and>
      (\<exists>condition score learning.
         ev_state e = (fst (advance (reset_overlays (case previous (cd_fingerprint c) of
             None \<Rightarrow> alert_state_default | Some s \<Rightarrow> sa_state s)) condition now (ru_for_duration r)))
           \<lparr>as_value := Some (sp_value (cd_point c)), as_score := score, as_learning := learning\<rparr>))"

definition from_vanished :: "instant \<Rightarrow> rule \<Rightarrow> stored_alert \<Rightarrow> evaluated \<Rightarrow> bool" where
  "from_vanished now r a e =
     (ev_fingerprint e = sa_fingerprint a \<and> ev_target_id e = sa_target_id a \<and>
      ev_labels e = sa_labels a \<and>
      ev_state e = fst (advance (reset_overlays (sa_state a)) False now (ru_for_duration r)))"

lemma evaluate_candidate_effect:
  "evaluate_candidate now overrides previous r i acc c = acc \<and>
     \<not> ef_enabled (effective_thresholds overrides r (map_option tn_id (cd_target c))) \<or>
   (\<exists>e. ca_evaluated (evaluate_candidate now overrides previous r i acc c) = ca_evaluated acc @ [e] \<and>
      ca_seen (evaluate_candidate now overrides previous r i acc c) =
        insert (cd_fingerprint c) (ca_seen acc) \<union>
        (case previous (cd_fingerprint c) of None \<Rightarrow> {} | Some a \<Rightarrow> {sa_fingerprint a}) \<and>
      ca_carried_over (evaluate_candidate now overrides previous r i acc c) = ca_carried_over acc \<and>
      ev_rule_index e = i \<and> from_candidate now overrides previous r c e)"
  by (auto simp: evaluate_candidate_def Let_def from_candidate_def split_def split: option.splits)

lemma vanish_effect:
  "vanish now idx overrides r i acc a = acc \<and>
     (sa_fingerprint a \<in> ca_seen acc \<or>
      as_phase (fst (advance (reset_overlays (sa_state a)) False now (ru_for_duration r))) = PhOk \<and>
      snd (advance (reset_overlays (sa_state a)) False now (ru_for_duration r)) = None) \<or>
   (\<exists>e. sa_fingerprint a \<notin> ca_seen acc \<and>
      ca_evaluated (vanish now idx overrides r i acc a) = ca_evaluated acc @ [e] \<and>
      ca_seen (vanish now idx overrides r i acc a) = insert (sa_fingerprint a) (ca_seen acc) \<and>
      ca_carried_over (vanish now idx overrides r i acc a) = ca_carried_over acc \<and>
      ev_rule_index e = i \<and> from_vanished now r a e)"
  by (auto simp: vanish_def Let_def from_vanished_def split_def)

text \<open>The environment of a cycle, as \<open>evaluate_rules\<close> computes it.\<close>

definition cycle_index :: "cycle_input \<Rightarrow> target_index" where
  "cycle_index input = target_index_new (ci_targets input)"

definition cycle_live :: "cycle_input \<Rightarrow> stored_alert list" where
  "cycle_live input = filter (\<lambda>alert. \<not> is_orphan (cycle_index input) alert) (ci_previous input)"

definition cycle_overrides :: "cycle_input \<Rightarrow> override_index" where
  "cycle_overrides input = override_index_new (ci_overrides input)"

definition cycle_step :: "cycle_input \<Rightarrow> cycle_acc \<Rightarrow> nat \<times> rule_observations \<Rightarrow> cycle_acc" where
  "cycle_step input =
     evaluate_rule (ci_now input) (cycle_index input) (cycle_overrides input) (cycle_live input)
       (previous_index (cycle_live input))"

lemma evaluate_rules_fold:
  "evaluate_rules input store =
     foldl (cycle_step input) \<lparr>ca_evaluated = [], ca_seen = {}, ca_carried_over = [], ca_baselines = store\<rparr>
       (enumerate 0 (ci_observations input))"
  by (simp add: evaluate_rules_def cycle_step_def cycle_index_def cycle_live_def cycle_overrides_def Let_def)

text \<open>One rule, with an invariant kept by its candidates and by its vanished series.\<close>

lemma cycle_step_invariant:
  assumes "P acc"
    and failed: "\<And>fps. ob_series obs = None \<Longrightarrow>
      set fps = sa_fingerprint ` {a \<in> set (cycle_live input). sa_rule_uid a = ru_uid (ob_rule obs)} \<Longrightarrow>
      P (acc\<lparr>ca_carried_over := ca_carried_over acc @ fps\<rparr>)"
    and cand: "\<And>acc c series. P acc \<Longrightarrow> ob_series obs = Some series \<Longrightarrow>
      c \<in> set (candidates_of (cycle_index input) (ob_rule obs) series) \<Longrightarrow>
      P (evaluate_candidate (ci_now input) (cycle_overrides input) (previous_index (cycle_live input))
           (ob_rule obs) i acc c)"
    and van: "\<And>acc a. P acc \<Longrightarrow> a \<in> set (cycle_live input) \<Longrightarrow> sa_rule_uid a = ru_uid (ob_rule obs) \<Longrightarrow>
      ob_series obs \<noteq> None \<Longrightarrow>
      P (vanish (ci_now input) (cycle_index input) (cycle_overrides input) (ob_rule obs) i acc a)"
  shows "P (cycle_step input acc (i, obs))"
proof (cases "ob_series obs")
  case None
  then show ?thesis
    using failed [of "map sa_fingerprint (filter (\<lambda>a. sa_rule_uid a = ru_uid (ob_rule obs)) (cycle_live input))"]
    by (simp add: cycle_step_def evaluate_rule_def Let_def)
next
  case (Some series)
  have "P (foldl (evaluate_candidate (ci_now input) (cycle_overrides input) (previous_index (cycle_live input))
      (ob_rule obs) i) acc (candidates_of (cycle_index input) (ob_rule obs) series))"
    by (rule foldl_invariant [where P = P]) (use assms(1) cand [OF _ Some] in auto)
  then show ?thesis
    unfolding cycle_step_def evaluate_rule_def Let_def split option.case Some
    by (rule foldl_invariant [where P = P]) (use van Some in auto)
qed

text \<open>Every entry comes from a candidate or from a vanished series of an evaluated rule.\<close>

definition entry_origin :: "cycle_input \<Rightarrow> evaluated \<Rightarrow> bool" where
  "entry_origin input e =
     (\<exists>obs series. ev_rule_index e < length (ci_observations input) \<and>
        obs = ci_observations input ! ev_rule_index e \<and> ob_series obs = Some series \<and>
        ((\<exists>c \<in> set (candidates_of (cycle_index input) (ob_rule obs) series).
            from_candidate (ci_now input) (cycle_overrides input) (previous_index (cycle_live input)) (ob_rule obs) c e) \<or>
         (\<exists>a \<in> set (cycle_live input). sa_rule_uid a = ru_uid (ob_rule obs) \<and>
            from_vanished (ci_now input) (ob_rule obs) a e)))"

lemma in_enumerate: "(i, x) \<in> set (enumerate 0 xs) \<longleftrightarrow> i < length xs \<and> xs ! i = x"
  by (auto simp: in_set_enumerate_eq)

lemma evaluate_rules_origin:
  "\<forall>e \<in> set (ca_evaluated (evaluate_rules input store)). entry_origin input e"
  unfolding evaluate_rules_fold
proof (rule foldl_invariant [where P = "\<lambda>acc. \<forall>e \<in> set (ca_evaluated acc). entry_origin input e"])
  fix acc :: cycle_acc and x
  assume acc: "\<forall>e \<in> set (ca_evaluated acc). entry_origin input e"
    and "x \<in> set (enumerate 0 (ci_observations input))"
  then obtain i obs where x: "x = (i, obs)" and i: "i < length (ci_observations input)" "ci_observations input ! i = obs"
    by (cases x) (auto simp: in_enumerate)
  show "\<forall>e \<in> set (ca_evaluated (cycle_step input acc x)). entry_origin input e"
    unfolding x
  proof (rule cycle_step_invariant [where P = "\<lambda>acc. \<forall>e \<in> set (ca_evaluated acc). entry_origin input e"])
    fix acc :: cycle_acc and c series
    assume "\<forall>e \<in> set (ca_evaluated acc). entry_origin input e" "ob_series obs = Some series"
      "c \<in> set (candidates_of (cycle_index input) (ob_rule obs) series)"
    then show "\<forall>e \<in> set (ca_evaluated (evaluate_candidate (ci_now input) (cycle_overrides input)
        (previous_index (cycle_live input)) (ob_rule obs) i acc c)). entry_origin input e"
      using evaluate_candidate_effect [of "ci_now input" "cycle_overrides input"
          "previous_index (cycle_live input)" "ob_rule obs" i acc c] i
      unfolding entry_origin_def by (elim disjE exE conjE) auto
  next
    fix acc :: cycle_acc and a
    assume "\<forall>e \<in> set (ca_evaluated acc). entry_origin input e" "a \<in> set (cycle_live input)"
      "sa_rule_uid a = ru_uid (ob_rule obs)" "ob_series obs \<noteq> None"
    then show "\<forall>e \<in> set (ca_evaluated (vanish (ci_now input) (cycle_index input) (cycle_overrides input)
        (ob_rule obs) i acc a)). entry_origin input e"
      using vanish_effect [of "ci_now input" "cycle_index input" "cycle_overrides input" "ob_rule obs" i acc a] i
      unfolding entry_origin_def by (elim disjE exE conjE) auto
  qed (use acc in auto)
qed simp

section \<open>Reference for the choice of candidates\<close>

text \<open>
  The series a rule keeps, in the order of the answer, and for a fingerprint the first of them
  that bears the current name of its target, or else the first of them.
\<close>

definition kept_candidates :: "target_index \<Rightarrow> rule \<Rightarrow> series_point list \<Rightarrow> candidate list" where
  "kept_candidates idx r series =
     map (\<lambda>p. \<lparr>cd_fingerprint = fingerprint (ru_uid r) (identity_key (sp_labels p)),
               cd_target = resolve idx (sp_labels p), cd_point = p\<rparr>)
       (filter (\<lambda>p. keeps_point r (resolve idx (sp_labels p)) p) series)"

definition best_candidate :: "candidate list \<Rightarrow> string \<Rightarrow> candidate option" where
  "best_candidate ks fp =
     (case find (\<lambda>c. cd_fingerprint c = fp \<and> bears_current_name c) ks of
        Some c \<Rightarrow> Some c
      | None \<Rightarrow> find (\<lambda>c. cd_fingerprint c = fp) ks)"

definition fingerprints :: "candidate list \<Rightarrow> string list" where
  "fingerprints ks = map cd_fingerprint (first_by cd_fingerprint {} ks)"

definition merge_candidate ::
  "candidate list \<times> (string \<rightharpoonup> nat) \<Rightarrow> candidate \<Rightarrow> candidate list \<times> (string \<rightharpoonup> nat)" where
  "merge_candidate acc c =
     (case snd acc (cd_fingerprint c) of
        Some i \<Rightarrow>
          if \<not> bears_current_name (fst acc ! i) \<and> bears_current_name c
          then ((fst acc)[i := c], snd acc) else acc
      | None \<Rightarrow> (fst acc @ [c], (snd acc)(cd_fingerprint c \<mapsto> length (fst acc))))"

definition merge_ok :: "candidate list \<Rightarrow> candidate list \<times> (string \<rightharpoonup> nat) \<Rightarrow> bool" where
  "merge_ok ks acc =
     (map Some (fst acc) = map (best_candidate ks) (fingerprints ks) \<and>
      (\<forall>fp i. snd acc fp = Some i \<longleftrightarrow> i < length (fingerprints ks) \<and> fingerprints ks ! i = fp))"

lemma candidates_of_merge:
  "candidates_of idx r series = fst (foldl merge_candidate ([], Map.empty) (kept_candidates idx r series))"
proof -
  have "foldl (add_candidate idx r) acc series = foldl merge_candidate acc (kept_candidates idx r series)" for acc
    by (induction series arbitrary: acc)
      (auto simp: kept_candidates_def add_candidate_def merge_candidate_def Let_def split_def
        split: option.splits)
  then show ?thesis by (simp add: candidates_of_def)
qed

lemma find_append: "find P (xs @ ys) = (case find P xs of None \<Rightarrow> find P ys | Some x \<Rightarrow> Some x)"
  by (induction xs) auto

lemma first_by_snoc:
  "first_by f S (xs @ [x]) = first_by f S xs @ (if f x \<in> S \<union> f ` set xs then [] else [x])"
  by (induction f S xs rule: first_by.induct) auto

lemma set_fingerprints: "set (fingerprints ks) = cd_fingerprint ` set ks"
  using first_by_keys [of cd_fingerprint "{}" ks] by (simp add: fingerprints_def)

lemma fingerprints_snoc:
  "fingerprints (ks @ [c]) =
     fingerprints ks @ (if cd_fingerprint c \<in> cd_fingerprint ` set ks then [] else [cd_fingerprint c])"
  by (simp add: fingerprints_def first_by_snoc)

lemma best_candidate_other:
  "fp \<noteq> cd_fingerprint c \<Longrightarrow> best_candidate (ks @ [c]) fp = best_candidate ks fp"
  by (simp add: best_candidate_def find_append split: option.splits)

lemma best_candidate_SomeD:
  "best_candidate ks fp = Some c \<Longrightarrow> c \<in> set ks \<and> cd_fingerprint c = fp"
  by (auto simp: best_candidate_def find_Some_iff split: option.splits)

lemma best_candidate_current:
  assumes "best_candidate ks fp = Some b" and "cd_fingerprint c = fp"
  shows "best_candidate (ks @ [c]) fp =
     Some (if \<not> bears_current_name b \<and> bears_current_name c then c else b)"
proof (cases "find (\<lambda>c. cd_fingerprint c = fp \<and> bears_current_name c) ks")
  case None
  then have b: "find (\<lambda>c. cd_fingerprint c = fp) ks = Some b"
    using assms(1) by (simp add: best_candidate_def)
  then have "\<not> bears_current_name b"
    using None by (auto simp: find_Some_iff find_None_iff)
  with None b assms(2) show ?thesis by (simp add: best_candidate_def find_append)
next
  case (Some a)
  then have "bears_current_name a" by (auto simp: find_Some_iff)
  with Some assms show ?thesis by (simp add: best_candidate_def find_append)
qed

lemma best_candidate_new:
  "cd_fingerprint c \<notin> cd_fingerprint ` set ks \<Longrightarrow> best_candidate (ks @ [c]) (cd_fingerprint c) = Some c"
proof -
  assume new: "cd_fingerprint c \<notin> cd_fingerprint ` set ks"
  have other: "cd_fingerprint d \<noteq> cd_fingerprint c" if "d \<in> set ks" for d
    using new that by (metis image_eqI)
  have "find (\<lambda>d. cd_fingerprint d = cd_fingerprint c) ks = None"
    "find (\<lambda>d. cd_fingerprint d = cd_fingerprint c \<and> bears_current_name d) ks = None"
    using other by (auto simp: find_None_iff)
  then show ?thesis by (simp add: best_candidate_def find_append)
qed

lemma merge_ok_step: "merge_ok ks acc \<Longrightarrow> merge_ok (ks @ [c]) (merge_candidate acc c)"
proof (cases "cd_fingerprint c \<in> cd_fingerprint ` set ks")
  assume ok: "merge_ok ks acc"
  let ?fps = "fingerprints ks"
  have len: "length (fst acc) = length ?fps"
    using ok unfolding merge_ok_def by (metis length_map)
  {
    case False
    then have none: "snd acc (cd_fingerprint c) = None"
      using ok unfolding merge_ok_def set_fingerprints [symmetric]
      by (metis in_set_conv_nth not_None_eq)
    have "map (best_candidate (ks @ [c])) ?fps = map (best_candidate ks) ?fps"
      by (intro map_cong refl best_candidate_other) (use False in \<open>metis set_fingerprints\<close>)
    moreover have "?fps ! i \<noteq> cd_fingerprint c" if "i < length ?fps" for i
      using False that by (metis nth_mem set_fingerprints)
    ultimately show ?thesis
      using ok False none len
      by (auto simp: merge_ok_def merge_candidate_def fingerprints_snoc best_candidate_new nth_append
          less_Suc_eq)
  next
    case True
    then obtain i where i: "i < length ?fps" "?fps ! i = cd_fingerprint c"
      unfolding set_fingerprints [symmetric] by (auto simp: in_set_conv_nth)
    with ok have pos: "snd acc (cd_fingerprint c) = Some i" by (simp add: merge_ok_def)
    have nth_best: "best_candidate ks (?fps ! j) = Some (fst acc ! j)" if "j < length ?fps" for j
      using ok that len unfolding merge_ok_def by (metis nth_map)
    have dist: "distinct ?fps" by (simp add: fingerprints_def first_by_distinct)
    let ?b = "fst acc ! i"
    let ?new = "if \<not> bears_current_name ?b \<and> bears_current_name c then c else ?b"
    have "map Some ((fst acc)[i := ?new]) = map (best_candidate (ks @ [c])) ?fps"
    proof (rule nth_equalityI)
      fix j assume "j < length (map Some ((fst acc)[i := ?new]))"
      then have j: "j < length ?fps" using len by simp
      show "map Some ((fst acc)[i := ?new]) ! j = map (best_candidate (ks @ [c])) ?fps ! j"
      proof (cases "j = i")
        case True
        with i len nth_best [OF i(1)] show ?thesis
          using best_candidate_current [of ks "cd_fingerprint c" ?b c] by simp
      next
        case False
        then have "?fps ! j \<noteq> cd_fingerprint c" using dist i j by (metis nth_eq_iff_index_eq)
        with False j len nth_best [OF j] show ?thesis by (simp add: best_candidate_other)
      qed
    qed (simp add: len)
    moreover have "merge_candidate acc c = ((fst acc)[i := ?new], snd acc)"
      by (simp add: merge_candidate_def pos)
    moreover have "fingerprints (ks @ [c]) = ?fps" by (simp add: fingerprints_snoc True)
    ultimately show ?thesis using ok by (simp add: merge_ok_def)
  }
qed

lemma merge_ok_fold: "merge_ok ks acc \<Longrightarrow> merge_ok (ks @ ks') (foldl merge_candidate acc ks')"
proof (induction ks' arbitrary: ks acc)
  case (Cons c ks')
  from Cons.IH [OF merge_ok_step [OF Cons.prems]] show ?case by simp
qed simp

lemma candidates_of_best:
  "map Some (candidates_of idx r series) =
     map (best_candidate (kept_candidates idx r series)) (fingerprints (kept_candidates idx r series))"
proof -
  have "merge_ok [] ([], Map.empty)" by (simp add: merge_ok_def fingerprints_def)
  from merge_ok_fold [OF this, of "kept_candidates idx r series"] show ?thesis
    by (simp add: merge_ok_def candidates_of_merge)
qed

lemma candidates_of_kept: "c \<in> set (candidates_of idx r series) \<Longrightarrow> c \<in> set (kept_candidates idx r series)"
proof -
  assume "c \<in> set (candidates_of idx r series)"
  then have "Some c \<in> set (map Some (candidates_of idx r series))" by simp
  then show ?thesis unfolding candidates_of_best by (auto dest!: sym [of "Some c"] best_candidate_SomeD)
qed

lemma candidates_of_fingerprints:
  "map cd_fingerprint (candidates_of idx r series) = fingerprints (kept_candidates idx r series)"
proof -
  let ?ks = "kept_candidates idx r series"
  have "map (cd_fingerprint \<circ> the) (map Some (candidates_of idx r series)) =
      map (cd_fingerprint \<circ> the) (map (best_candidate ?ks) (fingerprints ?ks))"
    by (simp only: candidates_of_best)
  moreover have "cd_fingerprint (the (best_candidate ?ks fp)) = fp" if "fp \<in> set (fingerprints ?ks)" for fp
  proof -
    have "find (\<lambda>c. cd_fingerprint c = fp) ?ks \<noteq> None"
      using that by (auto simp: set_fingerprints find_None_iff)
    then have "best_candidate ?ks fp \<noteq> None" by (simp add: best_candidate_def split: option.splits)
    then show ?thesis using best_candidate_SomeD by fastforce
  qed
  ultimately show ?thesis by (simp add: o_def map_idI)
qed

section \<open>Targets of the entries\<close>

lemma by_id_new:
  "ti_by_id (target_index_new targets) i = Some t \<Longrightarrow> t \<in> set targets \<and> tn_id t = i"
  by (auto simp: target_index_new_def dest!: collect_map_in)

lemma resolve_by_id: "resolve idx ls = Some t \<Longrightarrow> \<exists>i. ti_by_id idx i = Some t"
  by (auto simp: resolve_def resolve_id_def resolve_name_def resolve_address_def Let_def
      dest!: find_map_SomeD split: if_splits option.splits)

text \<open>The guard of the first pass and the partition of the orphans, in the same words.\<close>

definition live_target :: "cycle_input \<Rightarrow> target_id option \<Rightarrow> labels \<Rightarrow> bool" where
  "live_target input target ls =
     (case target of
        Some i \<Rightarrow> \<exists>t \<in> set (ci_targets input). tn_id t = i \<and> tn_enabled t
      | None \<Rightarrow> \<not> carries_target_id ls)"

lemma kept_candidate_live:
  assumes "c \<in> set (kept_candidates (cycle_index input) r series)"
  shows "live_target input (map_option tn_id (cd_target c)) (sp_labels (cd_point c))"
proof -
  from assms have keep: "keeps_point r (cd_target c) (cd_point c)"
    and res: "resolve (cycle_index input) (sp_labels (cd_point c)) = cd_target c"
    by (auto simp: kept_candidates_def)
  have "t \<in> set (ci_targets input)" if "cd_target c = Some t" for t
    using res that by (auto simp: cycle_index_def dest!: resolve_by_id by_id_new)
  with keep show ?thesis
    by (cases "cd_target c") (auto simp: keeps_point_def live_target_def split: if_splits)
qed

lemma live_alert_live:
  "a \<in> set (cycle_live input) \<Longrightarrow> live_target input (sa_target_id a) (sa_labels a)"
  by (auto simp: cycle_live_def is_orphan_def is_live_def live_target_def cycle_index_def
      split: option.splits dest!: by_id_new)

lemma entry_live: "entry_origin input e \<Longrightarrow> live_target input (ev_target_id e) (ev_labels e)"
  unfolding entry_origin_def from_candidate_def from_vanished_def
  by (auto dest!: candidates_of_kept kept_candidate_live live_alert_live)

section \<open>Fingerprints of the entries\<close>

text \<open>A stored row is keyed under its rule: what every fingerprint computed by the code is.\<close>

definition keyed_under :: "string \<Rightarrow> string \<Rightarrow> bool" where
  "keyed_under uid fp = (\<exists>h. fp = uid @ ''@'' @ hex16 h)"

lemma keyed_under_fingerprint: "keyed_under uid (fingerprint uid key)"
  by (auto simp: keyed_under_def fingerprint_def)

lemma keyed_under_unique: "keyed_under u fp \<Longrightarrow> keyed_under v fp \<Longrightarrow> u = v"
  unfolding keyed_under_def using append_hex16_inject by metis

lemma candidate_keyed:
  "c \<in> set (candidates_of idx r series) \<Longrightarrow> keyed_under (ru_uid r) (cd_fingerprint c)"
  by (auto dest!: candidates_of_kept simp: kept_candidates_def keyed_under_fingerprint)

text \<open>
  The invariant of the fold: no fingerprint occurs twice among the entries, all of them are
  marked seen, and an entry is keyed under a rule already treated.
\<close>

definition rows_keyed :: "stored_alert list \<Rightarrow> bool" where
  "rows_keyed rows = list_all (\<lambda>a. keyed_under (sa_rule_uid a) (sa_fingerprint a)) rows"

definition fingerprints_ok :: "string set \<Rightarrow> cycle_acc \<Rightarrow> bool" where
  "fingerprints_ok uids acc =
     (distinct (map ev_fingerprint (ca_evaluated acc)) \<and>
      ev_fingerprint ` set (ca_evaluated acc) \<subseteq> ca_seen acc \<and>
      (\<forall>e \<in> set (ca_evaluated acc). \<exists>uid \<in> uids. keyed_under uid (ev_fingerprint e)))"

lemma fingerprints_ok_mono: "fingerprints_ok U acc \<Longrightarrow> U \<subseteq> V \<Longrightarrow> fingerprints_ok V acc"
  unfolding fingerprints_ok_def by blast

lemma fingerprints_ok_candidate:
  assumes "fingerprints_ok U acc" and "keyed_under (ru_uid r) (cd_fingerprint c)" and "ru_uid r \<in> U"
    and "cd_fingerprint c \<notin> ev_fingerprint ` set (ca_evaluated acc)"
  shows "fingerprints_ok U (evaluate_candidate now overrides previous r i acc c)"
  using assms evaluate_candidate_effect [of now overrides previous r i acc c]
  by (elim disjE exE conjE) (auto simp: fingerprints_ok_def from_candidate_def)

lemma fingerprints_ok_candidates:
  assumes "fingerprints_ok U acc" and "ru_uid r \<notin> U"
    and "distinct (map cd_fingerprint cs)" and "\<And>c. c \<in> set cs \<Longrightarrow> keyed_under (ru_uid r) (cd_fingerprint c)"
  shows "fingerprints_ok (insert (ru_uid r) U)
     (foldl (evaluate_candidate now overrides previous r i) acc cs)"
proof -
  have new: "fp \<notin> ev_fingerprint ` set (ca_evaluated acc)" if "keyed_under (ru_uid r) fp" for fp
  proof
    assume "fp \<in> ev_fingerprint ` set (ca_evaluated acc)"
    then obtain uid where "uid \<in> U" "keyed_under uid fp"
      using assms(1) unfolding fingerprints_ok_def by blast
    with assms(2) that keyed_under_unique show False by blast
  qed
  have "fingerprints_ok (insert (ru_uid r) U) (foldl (evaluate_candidate now overrides previous r i) acc cs) \<and>
      ev_fingerprint ` set (ca_evaluated (foldl (evaluate_candidate now overrides previous r i) acc cs)) \<subseteq>
        ev_fingerprint ` set (ca_evaluated acc) \<union> cd_fingerprint ` set cs"
    using assms(3,4)
  proof (induction cs rule: rev_induct)
    case Nil
    with assms(1) show ?case by (auto intro: fingerprints_ok_mono)
  next
    case (snoc c cs)
    let ?acc = "foldl (evaluate_candidate now overrides previous r i) acc cs"
    from snoc have ih: "fingerprints_ok (insert (ru_uid r) U) ?acc"
      "ev_fingerprint ` set (ca_evaluated ?acc) \<subseteq> ev_fingerprint ` set (ca_evaluated acc) \<union> cd_fingerprint ` set cs"
      by auto
    have key: "keyed_under (ru_uid r) (cd_fingerprint c)" using snoc.prems by simp
    have "cd_fingerprint c \<notin> cd_fingerprint ` set cs" using snoc.prems(1) by auto
    with new [OF key] ih(2) have "cd_fingerprint c \<notin> ev_fingerprint ` set (ca_evaluated ?acc)" by blast
    with ih(1) key have "fingerprints_ok (insert (ru_uid r) U) (evaluate_candidate now overrides previous r i ?acc c)"
      by (intro fingerprints_ok_candidate) auto
    moreover have "ev_fingerprint ` set (ca_evaluated (evaluate_candidate now overrides previous r i ?acc c)) \<subseteq>
        insert (cd_fingerprint c) (ev_fingerprint ` set (ca_evaluated ?acc))"
      using evaluate_candidate_effect [of now overrides previous r i ?acc c]
      by (elim disjE exE conjE) (auto simp: from_candidate_def)
    ultimately show ?case using ih(2) by auto
  qed
  then show ?thesis by simp
qed

lemma fingerprints_ok_vanish:
  assumes "fingerprints_ok U acc" and "keyed_under (ru_uid r) (sa_fingerprint a)" and "ru_uid r \<in> U"
  shows "fingerprints_ok U (vanish now idx overrides r i acc a)"
  using assms vanish_effect [of now idx overrides r i acc a]
  by (elim disjE exE conjE) (auto simp: fingerprints_ok_def from_vanished_def)

lemma fingerprints_ok_step:
  assumes "fingerprints_ok U acc" and "ru_uid (ob_rule obs) \<notin> U" and "rows_keyed (cycle_live input)"
  shows "fingerprints_ok (insert (ru_uid (ob_rule obs)) U) (cycle_step input acc (i, obs))"
proof (cases "ob_series obs")
  case None
  with assms(1) show ?thesis
    by (auto simp: cycle_step_def evaluate_rule_def fingerprints_ok_def)
next
  case (Some series)
  let ?r = "ob_rule obs"
  have "fingerprints_ok (insert (ru_uid ?r) U)
      (foldl (evaluate_candidate (ci_now input) (cycle_overrides input) (previous_index (cycle_live input)) ?r i)
        acc (candidates_of (cycle_index input) ?r series))"
    using assms(1,2) candidate_keyed
    by (intro fingerprints_ok_candidates)
      (auto simp: candidates_of_fingerprints fingerprints_def first_by_distinct)
  then show ?thesis
    unfolding cycle_step_def evaluate_rule_def Let_def split option.case Some
    by (rule foldl_invariant [where P = "fingerprints_ok (insert (ru_uid ?r) U)"])
      (use assms(3) in \<open>auto simp: rows_keyed_def list_all_iff intro!: fingerprints_ok_vanish\<close>)
qed

lemma fingerprints_ok_steps:
  assumes "fingerprints_ok U acc" and "rows_keyed (cycle_live input)"
    and "distinct (map (ru_uid \<circ> ob_rule) obss)" and "U \<inter> (ru_uid \<circ> ob_rule) ` set obss = {}"
  shows "\<exists>V. fingerprints_ok V (foldl (cycle_step input) acc (enumerate n obss))"
  using assms
proof (induction obss arbitrary: U acc n)
  case (Cons obs obss)
  have "fingerprints_ok (insert (ru_uid (ob_rule obs)) U) (cycle_step input acc (n, obs))"
    using Cons.prems by (intro fingerprints_ok_step) auto
  from Cons.IH [OF this] Cons.prems show ?case by auto
qed auto

lemma evaluate_rules_distinct:
  assumes "rows_keyed (ci_previous input)" and "distinct (map (ru_uid \<circ> ob_rule) (ci_observations input))"
  shows "distinct (map ev_fingerprint (ca_evaluated (evaluate_rules input store)))"
proof -
  have "rows_keyed (cycle_live input)"
    using assms(1) by (auto simp: rows_keyed_def cycle_live_def list_all_iff)
  moreover have "fingerprints_ok {} \<lparr>ca_evaluated = [], ca_seen = {}, ca_carried_over = [], ca_baselines = store\<rparr>"
    by (simp add: fingerprints_ok_def)
  ultimately show ?thesis
    using fingerprints_ok_steps [of "{}"] assms(2) unfolding evaluate_rules_fold fingerprints_ok_def
    by fastforce
qed

end
