(* ===== verification/Cycle_Properties.thy ===== *)
theory Cycle_Properties
  imports Eval_Cycle
begin

text \<open>
  What an evaluation cycle guarantees: which targets can alert, what a failed query does, that
  every stored alert is accounted for, that nothing muted is announced, that fingerprints stay
  unique and stored states well formed, and how duplicate series are told apart.
\<close>

section \<open>The result in terms of the entries\<close>

definition final_entries :: "calendar \<Rightarrow> cycle_input \<Rightarrow> baseline_store \<Rightarrow> evaluated list" where
  "final_entries cal input store =
     map (overlay cal input (topology_new (ci_targets input))
           (down_targets input (ca_evaluated (evaluate_rules input store))))
       (ca_evaluated (evaluate_rules input store))"

lemma plan_cycle_parts:
  "co_alerts (fst (plan_cycle cal input store)) = map (outcome_of input) (final_entries cal input store)"
  "co_groups (fst (plan_cycle cal input store)) =
     map (describe_group (cycle_index input)) (group_alerts (co_alerts (fst (plan_cycle cal input store))) (ci_now input))"
  "co_carried_over (fst (plan_cycle cal input store)) = ca_carried_over (evaluate_rules input store)"
  by (simp_all add: plan_cycle_def final_entries_def cycle_index_def Let_def)

lemma overlay_simps [simp]:
  "ev_fingerprint (overlay cal input topo down e) = ev_fingerprint e"
  "ev_rule_index (overlay cal input topo down e) = ev_rule_index e"
  "ev_target_id (overlay cal input topo down e) = ev_target_id e"
  "ev_labels (overlay cal input topo down e) = ev_labels e"
  "ev_transition (overlay cal input topo down e) = ev_transition e"
  by (simp_all add: overlay_def Let_def split: option.splits)

lemma overlay_state:
  "ev_state (overlay cal input topo down e) =
     (let supp = suppression_for topo (ev_target_id e) (is_host_down (rule_at input (ev_rule_index e))) down;
          sil = first_match cal (ci_silences input) (ci_now input) (ev_target_id e) (ev_labels e)
      in (ev_state e)
        \<lparr>as_suppressed := (as_suppressed (ev_state e) \<or> supp \<noteq> None),
         as_suppressed_by := (case supp of None \<Rightarrow> as_suppressed_by (ev_state e)
                              | Some s \<Rightarrow> map_option (culprit s) (ev_target_id e)),
         as_silenced := (as_silenced (ev_state e) \<or> sil \<noteq> None)\<rparr>)"
  by (auto simp: overlay_def Let_def split: option.splits)

lemma outcome_simps [simp]:
  "ao_fingerprint (outcome_of input e) = ev_fingerprint e"
  "ao_target_id (outcome_of input e) = ev_target_id e"
  "ao_labels (outcome_of input e) = ev_labels e"
  "ao_state (outcome_of input e) = ev_state e"
  "ao_rule_uid (outcome_of input e) = ru_uid (rule_at input (ev_rule_index e))"
  by (simp_all add: outcome_of_def Let_def)

lemma final_entries_origin:
  assumes "e \<in> set (final_entries cal input store)"
  obtains d where "entry_origin input d"
    and "e = overlay cal input (topology_new (ci_targets input))
           (down_targets input (ca_evaluated (evaluate_rules input store))) d"
    and "d \<in> set (ca_evaluated (evaluate_rules input store))"
  using assms evaluate_rules_origin [of input store] by (auto simp: final_entries_def)

lemma describe_group_items [simp]: "ag_items (describe_group idx g) = ag_items g"
  by (simp add: describe_group_def split: option.splits)

text \<open>Every line of a message was decided for an alert of the cycle.\<close>

lemma describe_group_target [simp]: "ag_target_id (describe_group idx g) = ag_target_id g"
  by (simp add: describe_group_def split: option.splits)

lemma spec_group_line:
  assumes "i \<in> set (ag_items (spec_group (speaking outs now) now t))"
  shows "\<exists>out \<in> set outs. \<exists>r. decide out now = Some r \<and> i = item_of out r now \<and> ao_target_id out = t"
proof -
  have "i \<in> set (map (line_item now) (filter (\<lambda>l. ao_target_id (fst l) = t) (speaking outs now)))"
    using assms spec_group_items [of "speaking outs now" now t] by (metis set_mset_mset)
  then show ?thesis
    by (fastforce simp: speaking_def line_item_def in_reasons dest: first_by_in)
qed

lemma line_outcome:
  assumes "g \<in> set (co_groups (fst (plan_cycle cal input store)))" and "i \<in> set (ag_items g)"
  shows "\<exists>out \<in> set (co_alerts (fst (plan_cycle cal input store))). \<exists>r.
     decide out (ci_now input) = Some r \<and> i = item_of out r (ci_now input) \<and>
     ao_target_id out = ag_target_id g"
proof -
  let ?alerts = "co_alerts (fst (plan_cycle cal input store))"
  let ?now = "ci_now input"
  from assms(1) obtain h where h: "h \<in> set (group_alerts ?alerts ?now)" "g = describe_group (cycle_index input) h"
    by (auto simp: plan_cycle_parts(2))
  then obtain t where t: "h = spec_group (speaking ?alerts ?now) ?now t"
    using group_alerts_set [of ?alerts ?now] by auto
  have "i \<in> set (ag_items (spec_group (speaking ?alerts ?now) ?now t))"
    using assms(2) h(2) t by simp
  from spec_group_line [OF this] show ?thesis by (simp add: h(2) t)
qed

section \<open>Accounting for the stored alerts\<close>

lemma cycle_step_carried:
  "ca_carried_over (cycle_step input acc (i, obs)) =
     ca_carried_over acc @
     (if ob_series obs = None
      then map sa_fingerprint (filter (\<lambda>a. sa_rule_uid a = ru_uid (ob_rule obs)) (cycle_live input)) else [])"
proof (cases "ob_series obs")
  case (Some series)
  have "ca_carried_over (cycle_step input acc (i, obs)) = ca_carried_over acc"
    by (rule cycle_step_invariant [where P = "\<lambda>b. ca_carried_over b = ca_carried_over acc"])
      (use Some evaluate_candidate_effect vanish_effect in \<open>auto, metis, metis\<close>)
  with Some show ?thesis by simp
qed (simp add: cycle_step_def evaluate_rule_def Let_def)

lemma carried_over_steps:
  "set (ca_carried_over (foldl (cycle_step input) acc (enumerate n obss))) =
     set (ca_carried_over acc) \<union>
     {sa_fingerprint a | a obs. a \<in> set (cycle_live input) \<and> obs \<in> set obss \<and>
        ob_series obs = None \<and> sa_rule_uid a = ru_uid (ob_rule obs)}"
  by (induction obss arbitrary: acc n) (auto simp: cycle_step_carried)

lemma carried_over_iff:
  "fp \<in> set (co_carried_over (fst (plan_cycle cal input store))) \<longleftrightarrow>
     (\<exists>a obs. a \<in> set (cycle_live input) \<and> sa_fingerprint a = fp \<and> obs \<in> set (ci_observations input) \<and>
        ob_series obs = None \<and> sa_rule_uid a = ru_uid (ob_rule obs))"
  by (auto simp: plan_cycle_parts(3) evaluate_rules_fold carried_over_steps)

text \<open>What is marked seen is an entry, or the stored row that an entry took over.\<close>

definition seen_ok :: "cycle_input \<Rightarrow> cycle_acc \<Rightarrow> bool" where
  "seen_ok input acc =
     (\<forall>fp \<in> ca_seen acc. \<exists>e \<in> set (ca_evaluated acc). ev_fingerprint e = fp \<or>
        (\<exists>a. previous_index (cycle_live input) (ev_fingerprint e) = Some a \<and> sa_fingerprint a = fp))"

lemma seen_ok_step: "seen_ok input acc \<Longrightarrow> seen_ok input (cycle_step input acc (i, obs))"
proof (rule cycle_step_invariant [where P = "seen_ok input"])
  fix acc :: cycle_acc and c series
  assume "seen_ok input acc"
  then show "seen_ok input (evaluate_candidate (ci_now input) (cycle_overrides input)
      (previous_index (cycle_live input)) (ob_rule obs) i acc c)"
    using evaluate_candidate_effect [of "ci_now input" "cycle_overrides input"
        "previous_index (cycle_live input)" "ob_rule obs" i acc c]
    by (elim disjE exE conjE)
      (auto simp: seen_ok_def from_candidate_def Ball_def split: option.splits)
next
  fix acc :: cycle_acc and a
  assume "seen_ok input acc"
  then show "seen_ok input (vanish (ci_now input) (cycle_index input) (cycle_overrides input) (ob_rule obs) i acc a)"
    using vanish_effect [of "ci_now input" "cycle_index input" "cycle_overrides input" "ob_rule obs" i acc a]
    by (elim disjE exE conjE) (auto simp: seen_ok_def from_vanished_def)
qed (simp_all add: seen_ok_def)

lemma seen_ok_final: "seen_ok input (evaluate_rules input store)"
  unfolding evaluate_rules_fold
  by (rule foldl_invariant [where P = "seen_ok input"])
    (simp add: seen_ok_def, metis seen_ok_step surj_pair)

lemma seen_mono_candidate: "ca_seen acc \<subseteq> ca_seen (evaluate_candidate now overrides previous r i acc c)"
  using evaluate_candidate_effect [of now overrides previous r i acc c] by auto

lemma seen_mono_vanish: "ca_seen acc \<subseteq> ca_seen (vanish now idx overrides r i acc a)"
  using vanish_effect [of now idx overrides r i acc a] by auto

lemma seen_mono_step: "fp \<in> ca_seen acc \<Longrightarrow> fp \<in> ca_seen (cycle_step input acc (i, obs))"
  by (rule cycle_step_invariant [where P = "\<lambda>b. fp \<in> ca_seen b"])
    (auto dest: subsetD [OF seen_mono_candidate] subsetD [OF seen_mono_vanish])

lemma vanish_sees:
  assumes "as_phase (sa_state a) \<noteq> PhOk"
  shows "sa_fingerprint a \<in> ca_seen (vanish now idx overrides r i acc a)"
proof -
  have "as_phase (reset_overlays (sa_state a)) \<noteq> PhOk" using assms by (simp add: reset_overlays_def)
  then have "\<not> (as_phase (fst (advance (reset_overlays (sa_state a)) False now (ru_for_duration r))) = PhOk \<and>
      snd (advance (reset_overlays (sa_state a)) False now (ru_for_duration r)) = None)"
    by (auto simp: advance_transition_iff transition_of_def)
  with vanish_effect [of now idx overrides r i acc a] show ?thesis by auto
qed

lemma cycle_step_sees:
  assumes "ob_series obs = Some series" and "a \<in> set (cycle_live input)"
    and "sa_rule_uid a = ru_uid (ob_rule obs)" and "as_phase (sa_state a) \<noteq> PhOk"
  shows "sa_fingerprint a \<in> ca_seen (cycle_step input acc (i, obs))"
  unfolding cycle_step_def evaluate_rule_def Let_def split option.case assms(1)
  by (rule foldl_reaches [where P = "\<lambda>b. sa_fingerprint a \<in> ca_seen b" and x = a])
    (use assms in \<open>auto intro: vanish_sees dest: subsetD [OF seen_mono_vanish]\<close>)

lemma evaluate_rules_sees:
  assumes "obs \<in> set (ci_observations input)" and "ob_series obs = Some series"
    and "a \<in> set (cycle_live input)" and "sa_rule_uid a = ru_uid (ob_rule obs)"
    and "as_phase (sa_state a) \<noteq> PhOk"
  shows "sa_fingerprint a \<in> ca_seen (evaluate_rules input store)"
proof -
  obtain i where i: "i < length (ci_observations input)" "ci_observations input ! i = obs"
    using assms(1) by (auto simp: in_set_conv_nth)
  show ?thesis
    unfolding evaluate_rules_fold
    by (rule foldl_reaches [where P = "\<lambda>b. sa_fingerprint a \<in> ca_seen b" and x = "(i, obs)"])
      (use i assms(2-5) in \<open>auto simp: in_enumerate intro: cycle_step_sees seen_mono_step\<close>)
qed

section \<open>States of the entries\<close>

lemma state_wf_value [simp]:
  "state_wf (s\<lparr>as_value := v, as_score := sc, as_learning := l\<rparr>) = state_wf s"
  "state_wf (s\<lparr>as_suppressed := b, as_suppressed_by := p, as_silenced := q\<rparr>) = state_wf s"
  by (simp_all add: state_wf_def)

definition rows_wf :: "stored_alert list \<Rightarrow> bool" where
  "rows_wf rows = list_all (\<lambda>a. state_wf (sa_state a)) rows"

lemma previous_index_in: "previous_index live fp = Some a \<Longrightarrow> a \<in> set live"
proof -
  have "\<forall>fp a. m fp = Some a \<longrightarrow> a \<in> set live \<Longrightarrow> set rest \<subseteq> set live \<Longrightarrow>
      \<forall>fp a. foldl (\<lambda>m alert. case m (rekeyed alert) of None \<Rightarrow> m(rekeyed alert \<mapsto> alert) | Some _ \<Rightarrow> m) m rest fp
        = Some a \<longrightarrow> a \<in> set live" for m rest
  proof (induction rest arbitrary: m)
    case (Cons x rest)
    from Cons.prems show ?case
      by (simp only: foldl_Cons, intro Cons.IH) (auto split: option.splits if_splits)
  qed simp
  moreover have "\<forall>fp a. collect_map (map (\<lambda>alert. (sa_fingerprint alert, alert)) live) fp = Some a \<longrightarrow> a \<in> set live"
    by (auto dest!: collect_map_in)
  ultimately show "previous_index live fp = Some a \<Longrightarrow> a \<in> set live"
    unfolding previous_index_def by blast
qed

lemma entry_state_wf:
  assumes "entry_origin input e" and "rows_wf (ci_previous input)"
  shows "state_wf (ev_state e)"
proof -
  have wf: "state_wf (sa_state a)" if "a \<in> set (cycle_live input)" for a
    using assms(2) that by (auto simp: rows_wf_def cycle_live_def list_all_iff)
  have "state_wf (case previous_index (cycle_live input) fp of
      None \<Rightarrow> alert_state_default | Some a \<Rightarrow> sa_state a)" for fp
    using wf previous_index_in by (auto simp: state_wf_default split: option.splits)
  with wf assms(1) show ?thesis
    unfolding entry_origin_def from_candidate_def from_vanished_def
    by (auto simp: state_wf_advance_reset)
qed

section \<open>A small installation\<close>

definition sample_rule :: "string \<Rightarrow> rule" where
  "sample_rule uid =
     \<lparr>ru_id = 1, ru_uid = uid, ru_name = uid, ru_description = [], ru_kind = Threshold,
      ru_query = ''q'', ru_operator = Gt, ru_threshold = Fin 90, ru_clear_threshold = None,
      ru_for_duration = 0, ru_severity = Warning, ru_selector = SelAll, ru_channels = [],
      ru_params = anomaly_params_default, ru_unit = [], ru_repeat_interval = None,
      ru_escalate_after = None, ru_enabled = True, ru_builtin = False\<rparr>"

definition sample_target :: target_node where
  "sample_target =
     \<lparr>tn_id = 1, tn_name = ''nas'', tn_address = ''10.0.0.2'', tn_kind = ''snmp'', tn_parent_id = None,
      tn_via_agent = None, tn_tags = [], tn_enabled = True, tn_unreachable = False\<rparr>"

definition sample_row :: stored_alert where
  "sample_row =
     \<lparr>sa_fingerprint = fingerprint ''disk_full'' ''k'', sa_rule_uid = ''disk_full'', sa_target_id = Some 1,
      sa_series_key = ''k'', sa_labels = [],
      sa_state = mark_notified_state 1 (fst (advance alert_state_default True 0 0))\<rparr>"

text \<open>The query of \<open>host_down\<close> failed; the one of \<open>disk_full\<close> returned \<open>series\<close>.\<close>

definition sample_input :: "series_point list option \<Rightarrow> cycle_input" where
  "sample_input series =
     \<lparr>ci_now = 10,
      ci_observations =
        [\<lparr>ob_rule = sample_rule ''host_down'', ob_series = None\<rparr>,
         \<lparr>ob_rule = sample_rule ''disk_full'', ob_series = series\<rparr>],
      ci_targets = [sample_target], ci_previous = [sample_row], ci_silences = [], ci_overrides = [],
      ci_unacked_after = None\<rparr>"

abbreviation sample_store :: baseline_store where
  "sample_store \<equiv> baseline_store_new Map.empty Map.empty"

abbreviation sample_cycle :: "series_point list option \<Rightarrow> cycle_outcome" where
  "sample_cycle series \<equiv> fst (plan_cycle spring_calendar (sample_input series) sample_store)"

lemma sample_not_orphan: "\<not> is_orphan (target_index_new (ci_targets (sample_input series))) sample_row"
  by (simp add: is_orphan_def is_live_def target_index_new_def collect_map_def sample_input_def
      sample_row_def sample_target_def)

lemma sample_row_firing: "as_phase (sa_state sample_row) = PhFiring"
  by (simp add: sample_row_def mark_notified_state_def advance_phase alert_state_default_def for_delta_def
      from_std_def timedelta_max_def)

section \<open>Properties\<close>

text \<open>
  only the devices that exist and are enabled can alert. Every alert a cycle produces is
  attached to an enabled device of the inventory, or to none; and one attached to none carries
  no device identifier, so a device that was removed cannot come back as an anonymous alert.
\<close>

theorem cycle_alerts_live_only:
  "list_all (\<lambda>out.
     case ao_target_id out of
       Some i \<Rightarrow> list_ex (\<lambda>t. tn_id t = i \<and> tn_enabled t) (ci_targets input)
     | None \<Rightarrow> \<not> carries_target_id (ao_labels out))
     (co_alerts (fst (plan_cycle cal input store)))"
proof -
  have "case ev_target_id e of
       Some i \<Rightarrow> list_ex (\<lambda>t. tn_id t = i \<and> tn_enabled t) (ci_targets input)
     | None \<Rightarrow> \<not> carries_target_id (ev_labels e)" if "e \<in> set (final_entries cal input store)" for e
    using that
    by (rule final_entries_origin)
      (auto dest!: entry_live simp: live_target_def list_ex_iff split: option.splits)
  then show ?thesis by (simp add: plan_cycle_parts(1) list_all_iff cong: option.case_cong)
qed



text \<open>
  C19: no stored alert is forgotten by an evaluated rule. After the rule was evaluated, each live
  stored alert of the rule that is not at rest has a new state in the result: under its own
  fingerprint, or under the fingerprint of the series that took its row over.
\<close>

theorem stored_alerts_accounted:
  assumes "obs \<in> set (ci_observations input)" and "ob_series obs = Some series"
    and "a \<in> set (ci_previous input)" and "sa_rule_uid a = ru_uid (ob_rule obs)"
    and "\<not> is_orphan (target_index_new (ci_targets input)) a" and "as_phase (sa_state a) \<noteq> PhOk"
  shows "\<exists>out \<in> set (co_alerts (fst (plan_cycle cal input store))).
     ao_fingerprint out = sa_fingerprint a \<or>
     (\<exists>b. previous_index (filter (\<lambda>x. \<not> is_orphan (target_index_new (ci_targets input)) x) (ci_previous input))
            (ao_fingerprint out) = Some b \<and> sa_fingerprint b = sa_fingerprint a)"
proof -
  have "a \<in> set (cycle_live input)" using assms by (simp add: cycle_live_def cycle_index_def)
  from evaluate_rules_sees [OF assms(1,2) this assms(4,6)]
  obtain e where "e \<in> set (ca_evaluated (evaluate_rules input store))"
    "ev_fingerprint e = sa_fingerprint a \<or>
     (\<exists>b. previous_index (cycle_live input) (ev_fingerprint e) = Some b \<and> sa_fingerprint b = sa_fingerprint a)"
    using seen_ok_final [of input store] unfolding seen_ok_def by blast
  then show ?thesis
    by (auto simp: plan_cycle_parts(1) final_entries_def cycle_live_def cycle_index_def)
qed

theorem stored_alerts_accounted_witness:
  "\<exists>out \<in> set (co_alerts (sample_cycle (Some []))).
     ao_fingerprint out = sa_fingerprint sample_row \<or>
     (\<exists>b. previous_index
            (filter (\<lambda>x. \<not> is_orphan (target_index_new (ci_targets (sample_input (Some [])))) x)
              (ci_previous (sample_input (Some []))))
            (ao_fingerprint out) = Some b \<and> sa_fingerprint b = sa_fingerprint sample_row)"
  by (rule stored_alerts_accounted [where series = "[]" and
        obs = "\<lparr>ob_rule = sample_rule ''disk_full'', ob_series = Some []\<rparr>", OF _ _ _ _ sample_not_orphan])
    (simp_all add: sample_row_firing, simp_all add: sample_input_def sample_rule_def sample_row_def)

text \<open>
  C8: nothing muted is announced. Each line of each message of the cycle belongs to an alert of
  the cycle whose device no dependency explains (no ancestor down within reach, and not down
  itself unless the rule is the one that says so), that no silence covers, that is not
  learning, and that nobody has acknowledged until later.
\<close>

theorem cycle_announces_nothing_muted:
  "list_all (\<lambda>g. list_all (\<lambda>i. list_ex (\<lambda>out.
       ao_fingerprint out = gi_fingerprint i \<and> ao_target_id out = ag_target_id g \<and>
       suppression_for (topology_new (ci_targets input)) (ao_target_id out)
         (ao_rule_uid out = RULE_HOST_DOWN)
         (down_targets input (ca_evaluated (evaluate_rules input store))) = None \<and>
       first_match cal (ci_silences input) (ci_now input) (ao_target_id out) (ao_labels out) = None \<and>
       \<not> as_learning (ao_state out) \<and> \<not> is_acked (ao_state out) (ci_now input))
     (co_alerts (fst (plan_cycle cal input store)))) (ag_items g))
   (co_groups (fst (plan_cycle cal input store)))"
proof -
  let ?down = "down_targets input (ca_evaluated (evaluate_rules input store))"
  let ?topo = "topology_new (ci_targets input)"
  have quiet: "suppression_for ?topo (ao_target_id out) (ao_rule_uid out = RULE_HOST_DOWN) ?down = None \<and>
       first_match cal (ci_silences input) (ci_now input) (ao_target_id out) (ao_labels out) = None \<and>
       \<not> as_learning (ao_state out) \<and> \<not> is_acked (ao_state out) (ci_now input)"
    if out: "out \<in> set (co_alerts (fst (plan_cycle cal input store)))"
      and r: "decide out (ci_now input) = Some r" for out r
  proof -
    from out obtain d where "out = outcome_of input (overlay cal input ?topo ?down d)"
      by (auto simp: plan_cycle_parts(1) final_entries_def)
    moreover have "\<not> as_suppressed (ao_state out)" "\<not> as_silenced (ao_state out)"
      "\<not> as_learning (ao_state out)" "\<not> is_acked (ao_state out) (ci_now input)"
      using r decide_muted decide_not_acked by (metis option.distinct(1))+
    ultimately show ?thesis by (simp add: overlay_state is_host_down_def Let_def)
  qed
  show ?thesis
    unfolding list_all_iff list_ex_iff using line_outcome quiet by (fastforce simp: item_of_def)
qed

text \<open>
  duplicate series are told apart as documented. The series a rule evaluates are, in the
  order of the first occurrence of their fingerprint, the first one that bears the current name
  of its device, or else the first one; and no fingerprint is evaluated twice for a rule.
\<close>

theorem candidates_reference:
  "map Some (candidates_of idx r series) =
     map (best_candidate (kept_candidates idx r series)) (fingerprints (kept_candidates idx r series)) \<and>
   distinct (map cd_fingerprint (candidates_of idx r series))"
  by (simp add: candidates_of_best candidates_of_fingerprints)
    (simp add: fingerprints_def first_by_distinct)

text \<open>
  Fingerprints stay a key. When the rules have distinct identifiers and every stored row is
  keyed under its rule, no two alerts of the result share a fingerprint, and every alert of the
  result is keyed under its rule again, so that the next cycle starts from the same situation.
\<close>

lemma plan_cycle_fingerprints:
  assumes "distinct (map (ru_uid \<circ> ob_rule) (ci_observations input))" and "rows_keyed (ci_previous input)"
  shows "distinct (map ao_fingerprint (co_alerts (fst (plan_cycle cal input store)))) \<and>
     list_all (\<lambda>out. keyed_under (ao_rule_uid out) (ao_fingerprint out)) (co_alerts (fst (plan_cycle cal input store)))"
proof
  have "map ao_fingerprint (co_alerts (fst (plan_cycle cal input store))) =
      map ev_fingerprint (ca_evaluated (evaluate_rules input store))"
    by (simp add: plan_cycle_parts(1) final_entries_def)
  then show "distinct (map ao_fingerprint (co_alerts (fst (plan_cycle cal input store))))"
    using evaluate_rules_distinct [OF assms(2,1)] by simp
  have key: "keyed_under (ru_uid (rule_at input (ev_rule_index d))) (ev_fingerprint d)" if "entry_origin input d" for d
    using that assms(2) candidate_keyed
    by (auto simp: entry_origin_def from_candidate_def from_vanished_def rule_at_def rows_keyed_def
        cycle_live_def list_all_iff)
  have "keyed_under (ru_uid (rule_at input (ev_rule_index e))) (ev_fingerprint e)"
    if "e \<in> set (final_entries cal input store)" for e
    using that by (rule final_entries_origin) (simp add: key)
  then show "list_all (\<lambda>out. keyed_under (ao_rule_uid out) (ao_fingerprint out)) (co_alerts (fst (plan_cycle cal input store)))"
    by (simp add: plan_cycle_parts(1) list_all_iff)
qed

text \<open>
  A cycle keeps stored states well formed: from well-formed rows, every alert of the result
  has a well-formed state, overlays included.
\<close>

lemma plan_cycle_states:
  assumes "rows_wf (ci_previous input)"
  shows "list_all (\<lambda>out. state_wf (ao_state out)) (co_alerts (fst (plan_cycle cal input store)))"
proof -
  have "state_wf (ev_state e)" if "e \<in> set (final_entries cal input store)" for e
    using that by (rule final_entries_origin) (simp add: overlay_state Let_def entry_state_wf [OF _ assms])
  then show ?thesis by (simp add: plan_cycle_parts(1) list_all_iff)
qed

lemma plan_cycle_evaluated:
  "list_all (\<lambda>out. as_last_eval_at (ao_state out) = Some (ci_now input)) (co_alerts (fst (plan_cycle cal input store)))"
proof -
  have "as_last_eval_at (ev_state d) = Some (ci_now input)" if "entry_origin input d" for d
    using that unfolding entry_origin_def from_candidate_def from_vanished_def by (auto simp: advance_eval_at)
  then have "as_last_eval_at (ev_state e) = Some (ci_now input)" if "e \<in> set (final_entries cal input store)" for e
    by (auto simp: overlay_state Let_def intro: final_entries_origin [OF that])
  then show ?thesis by (simp add: plan_cycle_parts(1) list_all_iff)
qed

end
