(* ===== verification/Notify_Policy.thy ===== *)
theory Notify_Policy
  imports Alert_Grouping Channel_Matcher Maintenance_Silence
begin

text \<open>
  The notification policy (\<^verbatim>\<open>crates/server/src/alerting/notify_policy.rs\<close>): once an alert may
  speak, when and on which channel it does. The groups of a cycle go through flapping
  detection, the filters of each channel, its cooldown and quiet hours into a queue, and what
  is ripe in the queue leaves as messages, under an hourly cap. \<open>notify_plan\<close> is \<^verbatim>\<open>plan\<close>;
  its mutable locals are the fields of \<open>planner\<close>.
\<close>

section \<open>Policies and recipients\<close>

definition DEFAULT_BATCH_WINDOW_SECS :: nat where "DEFAULT_BATCH_WINDOW_SECS = 60"
definition DEFAULT_MAX_PER_HOUR :: nat where "DEFAULT_MAX_PER_HOUR = 20"
definition DEFAULT_FLAP_EVENTS :: nat where "DEFAULT_FLAP_EVENTS = 4"
definition DEFAULT_FLAP_WINDOW_SECS :: nat where "DEFAULT_FLAP_WINDOW_SECS = 30 * 60"
definition DEFAULT_FLAP_HOLD_SECS :: nat where "DEFAULT_FLAP_HOLD_SECS = 30 * 60"
definition LEDGER_HOUR_SECS :: int where "LEDGER_HOUR_SECS = 3600"
definition INTAKE_CHANNEL :: int where "INTAKE_CHANNEL = 0"

definition ONCALL_KINDS :: "string list" where
  "ONCALL_KINDS = [''pagerduty'', ''opsgenie'']"

record global_policy =
  gp_batch_window_secs :: nat
  gp_max_per_hour :: nat
  gp_flap_events :: nat
  gp_flap_window_secs :: nat
  gp_flap_hold_secs :: nat
  gp_public_url :: string
  gp_escalate_after_secs :: nat
  gp_escalate_channel :: "int option"

definition global_policy_default :: global_policy where
  "global_policy_default =
     \<lparr>gp_batch_window_secs = DEFAULT_BATCH_WINDOW_SECS, gp_max_per_hour = DEFAULT_MAX_PER_HOUR,
      gp_flap_events = DEFAULT_FLAP_EVENTS, gp_flap_window_secs = DEFAULT_FLAP_WINDOW_SECS,
      gp_flap_hold_secs = DEFAULT_FLAP_HOLD_SECS, gp_public_url = [], gp_escalate_after_secs = 0,
      gp_escalate_channel = None\<rparr>"

definition secs :: "nat \<Rightarrow> timedelta" where
  "secs v = seconds (int v)"

definition trim_end_slashes :: "string \<Rightarrow> string" where
  "trim_end_slashes s = rev (dropWhile (\<lambda>c. c = CHR ''/'') (rev s))"

definition public_url :: "global_policy \<Rightarrow> string option \<Rightarrow> string option" where
  "public_url p env_fallback =
     (case (if trim (gp_public_url p) = [] then env_fallback else Some (gp_public_url p)) of
        None \<Rightarrow> None
      | Some raw \<Rightarrow>
          (let trimmed = trim_end_slashes (trim raw) in if trimmed \<noteq> [] then Some trimmed else None))"

definition escalation :: "global_policy \<Rightarrow> (timedelta \<times> int) option" where
  "escalation p =
     (case gp_escalate_channel p of
        None \<Rightarrow> None
      | Some channel \<Rightarrow>
          if gp_escalate_after_secs p > 0 then Some (secs (gp_escalate_after_secs p), channel) else None)"

record channel_policy =
  cp_min_severity :: severity
  cp_notify_resolved :: bool
  cp_min_interval_secs :: nat
  cp_quiet_hours :: "schedule option"
  cp_matcher :: channel_matcher

definition channel_policy_default :: channel_policy where
  "channel_policy_default =
     \<lparr>cp_min_severity = Info, cp_notify_resolved = True, cp_min_interval_secs = 0,
      cp_quiet_hours = None, cp_matcher = channel_matcher_default\<rparr>"

definition in_quiet_hours :: "calendar \<Rightarrow> channel_policy \<Rightarrow> instant \<Rightarrow> bool" where
  "in_quiet_hours cal p now =
     (case cp_quiet_hours p of None \<Rightarrow> False | Some sched \<Rightarrow> schedule_covers cal sched now)"

record recipient =
  rc_id :: int
  rc_kind :: string
  rc_enabled :: bool
  rc_policy :: channel_policy

definition is_oncall :: "recipient \<Rightarrow> bool" where
  "is_oncall r = (rc_kind r \<in> set ONCALL_KINDS)"

section \<open>Queue, ledger, messages\<close>

datatype hold = HBatch | HQuiet

fun hold_as_str :: "hold \<Rightarrow> string" where
  "hold_as_str HBatch = ''batch''"
| "hold_as_str HQuiet = ''quiet''"

definition hold_parse :: "string \<Rightarrow> hold" where
  "hold_parse raw = (if raw = ''quiet'' then HQuiet else HBatch)"

record queued_item =
  qi_id :: "int option"
  qi_channel_id :: int
  qi_target_id :: "target_id option"
  qi_target_name :: string
  qi_hold :: hold
  qi_item :: group_item
  qi_resolved_meanwhile :: bool
  qi_queued_at :: instant

record log_entry =
  le_channel_id :: int
  le_fingerprint :: string
  le_reason :: notify_reason
  le_at :: instant

record ledger =
  lg_queue :: "queued_item list"
  lg_log :: "log_entry list"
  lg_flap_holds :: "string \<rightharpoonup> instant"
  lg_messages :: "(int \<times> instant) list"

record digest =
  dg_groups :: "alert_group list"
  dg_resolved_meanwhile :: "(string \<times> group_item) list"
  dg_hold :: "hold option"
  dg_at :: instant

definition item_count :: "digest \<Rightarrow> nat" where
  "item_count d = sum_list (map (\<lambda>g. length (ag_items g)) (dg_groups d))"

definition digest_is_empty :: "digest \<Rightarrow> bool" where
  "digest_is_empty d = (dg_groups d = [] \<and> dg_resolved_meanwhile d = [])"

record outgoing =
  og_channel_id :: int
  og_digest :: digest
  og_queue_ids :: "int list"
  og_retry :: "queued_item list"
  og_sent :: "(string \<times> notify_reason) list"

record plan =
  pl_outgoing :: "outgoing list"
  pl_enqueue :: "queued_item list"
  pl_dequeue :: "int list"
  pl_flap_holds :: "(string \<times> instant) list"
  pl_intake :: "log_entry list"
  pl_handled :: "string set"
  pl_announced :: "string set"
  pl_verdicts :: "string \<rightharpoonup> string"

definition plan_default :: plan where
  "plan_default =
     \<lparr>pl_outgoing = [], pl_enqueue = [], pl_dequeue = [], pl_flap_holds = [], pl_intake = [],
      pl_handled = {}, pl_announced = {}, pl_verdicts = Map.empty\<rparr>"

definition note' :: "string \<Rightarrow> string \<Rightarrow> plan \<Rightarrow> plan" where
  "note' fp verdict p = p\<lparr>pl_verdicts := (pl_verdicts p)(fp \<mapsto> verdict)\<rparr>"

text \<open>A row of the working queue, with its dirty flag.\<close>

type_synonym queue = "(queued_item \<times> bool) list"

definition row_fp :: "queued_item \<times> bool \<Rightarrow> string" where
  "row_fp row = gi_fingerprint (qi_item (fst row))"

definition row_key :: "queued_item \<times> bool \<Rightarrow> int \<times> string" where
  "row_key row = (qi_channel_id (fst row), row_fp row)"

section \<open>Operations on the queue\<close>

definition purge_fingerprint :: "queue \<Rightarrow> string \<Rightarrow> int list \<Rightarrow> queue \<times> int list" where
  "purge_fingerprint q fp dequeue =
     (filter (\<lambda>row. row_fp row \<noteq> fp) q,
      dequeue @ List.map_filter (\<lambda>row. if row_fp row = fp then qi_id (fst row) else None) q)"

text \<open>\<^verbatim>\<open>max_by_key(|e| e.at)\<close>: the last of the latest entries.\<close>

definition latest :: "log_entry list \<Rightarrow> log_entry option" where
  "latest es =
     foldl (\<lambda>best e. case best of None \<Rightarrow> Some e | Some b \<Rightarrow> if le_at e \<ge> le_at b then Some e else Some b) None es"

definition last_sent :: "ledger \<Rightarrow> int \<Rightarrow> string \<Rightarrow> log_entry option" where
  "last_sent lg channel fp =
     latest (filter (\<lambda>e. le_channel_id e = channel \<and> le_fingerprint e = fp) (lg_log lg))"

fun position :: "('a \<Rightarrow> bool) \<Rightarrow> 'a list \<Rightarrow> nat option" where
  "position P [] = None"
| "position P (x # xs) = (if P x then Some 0 else map_option Suc (position P xs))"

definition merge_resolution :: "group_item \<Rightarrow> queued_item \<times> bool \<Rightarrow> queued_item \<times> bool" where
  "merge_resolution item row =
     (let queued = fst row;
          queued = (if is_firing_like (gi_reason (qi_item queued))
                    then queued\<lparr>qi_resolved_meanwhile := True\<rparr> else queued)
      in (queued\<lparr>qi_item := item\<rparr>, True))"

definition merge_row :: "group_item \<Rightarrow> hold \<Rightarrow> queued_item \<times> bool \<Rightarrow> queued_item \<times> bool" where
  "merge_row item h row =
     (let queued = fst row;
          keep_firing = (gi_reason (qi_item queued) = NrFiring \<and> gi_reason item = NrReminder);
          merged = (if keep_firing then item\<lparr>gi_reason := NrFiring\<rparr> else item)
      in (queued\<lparr>qi_item := merged, qi_resolved_meanwhile := False, qi_hold := h\<rparr>, True))"

definition new_row :: "recipient \<Rightarrow> alert_group \<Rightarrow> group_item \<Rightarrow> hold \<Rightarrow> instant \<Rightarrow> queued_item \<times> bool" where
  "new_row r g item h now =
     (\<lparr>qi_id = None, qi_channel_id = rc_id r, qi_target_id = ag_target_id g,
       qi_target_name = ag_target_name g, qi_hold = h, qi_item = item,
       qi_resolved_meanwhile = False, qi_queued_at = now\<rparr>, True)"

text \<open>The two early exits of \<^verbatim>\<open>route\<close> that depend on the channel's settings alone.\<close>

definition channel_refuses :: "recipient \<Rightarrow> alert_group \<Rightarrow> group_item \<Rightarrow> string option" where
  "channel_refuses r g item =
     (let policy = rc_policy r; escalating = (gi_reason item = NrUnacked)
      in if \<not> escalating \<and> gi_severity item < cp_min_severity policy then
           Some (''below the minimum severity of channel '' @ show_int (rc_id r))
         else if \<not> escalating \<and>
             \<not> matcher_accepts (cp_matcher policy)
                 \<lparr>mc_rule_uid = gi_rule_uid item, mc_kind = ag_target_kind g, mc_tags = ag_target_tags g\<rparr> then
           Some (''outside the routing filter of channel '' @ show_int (rc_id r))
         else if gi_reason item = NrResolved \<and> \<not> cp_notify_resolved policy then
           Some (''channel '' @ show_int (rc_id r) @ '' does not announce resolutions'')
         else None)"

definition cooling_down :: "recipient \<Rightarrow> ledger \<Rightarrow> group_item \<Rightarrow> instant \<Rightarrow> instant option" where
  "cooling_down r lg item now =
     (if gi_reason item \<noteq> NrUnacked \<and> cp_min_interval_secs (rc_policy r) > 0 \<and> gi_reason item \<noteq> NrFlapping then
        (case last_sent lg (rc_id r) (gi_fingerprint item) of
           None \<Rightarrow> None
         | Some e \<Rightarrow> if now - le_at e < secs (cp_min_interval_secs (rc_policy r)) then Some (le_at e) else None)
      else None)"

definition hold_for :: "calendar \<Rightarrow> recipient \<Rightarrow> group_item \<Rightarrow> instant \<Rightarrow> hold" where
  "hold_for cal r item now =
     (if gi_reason item \<noteq> NrUnacked \<and> in_quiet_hours cal (rc_policy r) now \<and> gi_severity item < Critical
      then HQuiet else HBatch)"

definition enqueue_row ::
  "calendar \<Rightarrow> recipient \<Rightarrow> alert_group \<Rightarrow> group_item \<Rightarrow> nat option \<Rightarrow> instant \<Rightarrow> queue \<times> plan \<Rightarrow> queue \<times> plan" where
  "enqueue_row cal r g item existing now acc =
     (let (q, p) = acc; h = hold_for cal r item now;
          p = p\<lparr>pl_announced := insert (gi_fingerprint item) (pl_announced p)\<rparr>
      in case existing of
           Some pos \<Rightarrow> (q[pos := merge_row item h (q ! pos)], p)
         | None \<Rightarrow> (q @ [new_row r g item h now], p))"

definition route ::
  "calendar \<Rightarrow> recipient \<Rightarrow> alert_group \<Rightarrow> group_item \<Rightarrow> ledger \<Rightarrow> instant \<Rightarrow> queue \<times> plan \<Rightarrow> queue \<times> plan" where
  "route cal r g item lg now acc =
     (let (q, p) = acc; fp = gi_fingerprint item
      in case channel_refuses r g item of
           Some verdict \<Rightarrow> (q, note' fp verdict p)
         | None \<Rightarrow>
             (let existing = position (\<lambda>row. row_key row = (rc_id r, fp)) q
              in if gi_reason item = NrResolved then
                   (case existing of
                      Some pos \<Rightarrow>
                        (q[pos := merge_resolution item (q ! pos)],
                         p\<lparr>pl_announced := insert fp (pl_announced p)\<rparr>)
                    | None \<Rightarrow>
                        if (case last_sent lg (rc_id r) fp of None \<Rightarrow> False | Some e \<Rightarrow> is_firing_like (le_reason e))
                        then enqueue_row cal r g item existing now (q, p)
                        else (q, note' fp (''channel '' @ show_int (rc_id r) @ '' never announced the firing'') p))
                 else
                   (case cooling_down r lg item now of
                      Some since \<Rightarrow>
                        (q, note' fp (''channel '' @ show_int (rc_id r) @ '': cooldown, last message '' @
                               show_int (num_seconds (now - since)) @ '' s ago'') p)
                    | None \<Rightarrow> enqueue_row cal r g item existing now (q, p))))"

section \<open>Hand-off to the escalation channel\<close>

definition first_sent :: "ledger \<Rightarrow> string \<Rightarrow> instant option" where
  "first_sent lg fp =
     (let ats = map le_at (filter (\<lambda>e. le_channel_id e \<noteq> INTAKE_CHANNEL \<and> le_fingerprint e = fp \<and>
                                      is_firing_like (le_reason e)) (lg_log lg))
      in if ats = [] then None else Some (Min (set ats)))"

definition handoff ::
  "calendar \<Rightarrow> recipient list \<Rightarrow> global_policy \<Rightarrow> alert_group \<Rightarrow> group_item \<Rightarrow> ledger \<Rightarrow> instant \<Rightarrow>
   queue \<times> plan \<Rightarrow> queue \<times> plan" where
  "handoff cal active policy g item lg now acc =
     (let (q, p) = acc; fp = gi_fingerprint item
      in case escalation policy of
           None \<Rightarrow> (q, note' fp ''no escalation channel configured'' p)
         | Some (after, channel_id) \<Rightarrow>
             (case first_sent lg fp of
                None \<Rightarrow>
                  (q, note' fp ''escalation waiting: nobody has been told yet'' (p\<lparr>pl_handled := pl_handled p - {fp}\<rparr>))
              | Some first \<Rightarrow>
                  (let due = first + after
                   in if now < due then
                        (q, note' fp (''escalation waiting: '' @ show_int (num_seconds (now - (due - after))) @
                               '' s since the first message, '' @ show_int (num_seconds after) @ '' s needed'')
                              (p\<lparr>pl_handled := pl_handled p - {fp}\<rparr>))
                      else
                        (case find (\<lambda>r. rc_id r = channel_id) active of
                           None \<Rightarrow>
                             (q, note' fp (''escalation channel '' @ show_int channel_id @ '' is missing or disabled'') p)
                         | Some r \<Rightarrow> route cal r g item lg now (q, p)))))"

section \<open>Messages\<close>

definition add_queued :: "instant \<Rightarrow> queued_item \<Rightarrow> alert_group option \<Rightarrow> alert_group" where
  "add_queued now q g =
     (let g = (case g of None \<Rightarrow> empty_group (qi_target_id q) (qi_target_name q) now | Some g \<Rightarrow> g)
      in g\<lparr>ag_severity := max (ag_severity g) (gi_severity (qi_item q)),
           ag_items := ag_items g @ [qi_item q]\<rparr>)"

definition outgoing_of :: "int \<Rightarrow> queued_item list \<Rightarrow> hold option \<Rightarrow> instant \<Rightarrow> outgoing" where
  "outgoing_of channel_id items h now =
     (let shown = filter (\<lambda>q. \<not> qi_resolved_meanwhile q) items;
          groups = foldl (\<lambda>m q. bt_update (qi_target_id q) (add_queued now q) m) [] shown;
          groups = map (\<lambda>g. g\<lparr>ag_items := sort_items (ag_items g)\<rparr>) (map snd groups)
      in \<lparr>og_channel_id = channel_id,
          og_digest = \<lparr>dg_groups = sort_groups groups,
            dg_resolved_meanwhile =
              map (\<lambda>q. (qi_target_name q, qi_item q)) (filter qi_resolved_meanwhile items),
            dg_hold = h, dg_at = now\<rparr>,
          og_queue_ids = List.map_filter qi_id items,
          og_retry = items,
          og_sent = map (\<lambda>q. (gi_fingerprint (qi_item q), gi_reason (qi_item q))) items\<rparr>)"

definition push_by_target :: "queued_item \<Rightarrow> queued_item list option \<Rightarrow> queued_item list" where
  "push_by_target q qs = (case qs of None \<Rightarrow> [q] | Some qs \<Rightarrow> qs @ [q])"

definition messages_of :: "recipient \<Rightarrow> queued_item list \<Rightarrow> hold option \<Rightarrow> instant \<Rightarrow> outgoing list" where
  "messages_of r ready h now =
     (if is_oncall r then
        map (\<lambda>items. outgoing_of (rc_id r) items h now)
          (map snd (foldl (\<lambda>m q. bt_update (qi_target_id q) (push_by_target q) m) [] ready))
      else [outgoing_of (rc_id r) ready h now])"

section \<open>Flushing\<close>

definition sent_last_hour :: "ledger \<Rightarrow> int \<Rightarrow> instant \<Rightarrow> nat" where
  "sent_last_hour lg channel now =
     length (filter (\<lambda>(c, t). c = channel \<and> t > now - seconds LEDGER_HOUR_SECS) (lg_messages lg))"

definition channel_window :: "recipient \<Rightarrow> global_policy \<Rightarrow> timedelta" where
  "channel_window r policy = (if is_oncall r then 0 else secs (gp_batch_window_secs policy))"

definition flush_channel ::
  "calendar \<Rightarrow> global_policy \<Rightarrow> ledger \<Rightarrow> instant \<Rightarrow> queue \<times> plan \<Rightarrow> recipient \<Rightarrow> queue \<times> plan" where
  "flush_channel cal policy lg now acc r =
     (let (q, p) = acc;
          mine = filter (\<lambda>x. qi_channel_id x = rc_id r) (map fst q)
      in if mine = [] then (q, p)
         else
           (let window = channel_window r policy;
                quiet_now = in_quiet_hours cal (rc_policy r) now;
                has_quiet = list_ex (\<lambda>x. qi_hold x = HQuiet) mine;
                batch_due = list_ex (\<lambda>x. qi_hold x = HBatch \<and> now - qi_queued_at x \<ge> window) mine;
                take_quiet = (has_quiet \<and> \<not> quiet_now);
                take_batch = (batch_due \<or> take_quiet)
            in if \<not> take_batch \<and> \<not> take_quiet then (q, p)
               else if gp_max_per_hour policy > 0 \<and> sent_last_hour lg (rc_id r) now \<ge> gp_max_per_hour policy then
                 (q, foldl (\<lambda>p x. note' (gi_fingerprint (qi_item x))
                        (''channel '' @ show_int (rc_id r) @ '': hourly cap of '' @
                         show_nat (gp_max_per_hour policy) @ '' messages reached, waiting'') p) p mine)
               else
                 (let ready = filter (\<lambda>x. case qi_hold x of HBatch \<Rightarrow> take_batch | HQuiet \<Rightarrow> take_quiet) mine;
                      ready_keys = set (map (\<lambda>x. (qi_channel_id x, gi_fingerprint (qi_item x))) ready);
                      q = filter (\<lambda>row. row_key row \<notin> ready_keys) q;
                      h = (if take_quiet then Some HQuiet else None)
                  in (q, p\<lparr>pl_outgoing := pl_outgoing p @ messages_of r ready h now\<rparr>))))"

definition flush ::
  "calendar \<Rightarrow> recipient list \<Rightarrow> global_policy \<Rightarrow> ledger \<Rightarrow> instant \<Rightarrow> queue \<times> plan \<Rightarrow> queue \<times> plan" where
  "flush cal recipients policy lg now acc = foldl (flush_channel cal policy lg now) acc recipients"

section \<open>The plan\<close>

record planner =
  pn_plan :: plan
  pn_queue :: queue
  pn_flap_holds :: "string \<rightharpoonup> instant"
  pn_intake :: "log_entry list"

definition is_change :: "notify_reason \<Rightarrow> bool" where
  "is_change r = (r = NrFiring \<or> r = NrResolved)"

definition two_digits :: "nat \<Rightarrow> string" where
  "two_digits n = [digit_char (n div 10), digit_char (n mod 10)]"

text \<open>\<^verbatim>\<open>until.format("%H:%M UTC")\<close>.\<close>

definition hhmm_utc :: "instant \<Rightarrow> string" where
  "hhmm_utc t =
     two_digits (nat (t div seconds 3600 mod 24)) @ '':'' @ two_digits (nat (t div seconds 60 mod 60)) @ '' UTC''"

definition intake_step :: "group_item \<Rightarrow> instant \<Rightarrow> planner \<Rightarrow> planner" where
  "intake_step item now s =
     (let fp = gi_fingerprint item; p = pn_plan s;
          p = p\<lparr>pl_handled := insert fp (pl_handled p)\<rparr>
      in if is_change (gi_reason item) then
           (let e = \<lparr>le_channel_id = INTAKE_CHANNEL, le_fingerprint = fp, le_reason = gi_reason item, le_at = now\<rparr>
            in s\<lparr>pn_plan := p\<lparr>pl_intake := pl_intake p @ [e]\<rparr>, pn_intake := pn_intake s @ [e]\<rparr>)
         else s\<lparr>pn_plan := p\<rparr>)"

definition purge_step :: "string \<Rightarrow> planner \<Rightarrow> planner" where
  "purge_step fp s =
     (let (q, dq) = purge_fingerprint (pn_queue s) fp (pl_dequeue (pn_plan s))
      in s\<lparr>pn_queue := q, pn_plan := (pn_plan s)\<lparr>pl_dequeue := dq\<rparr>\<rparr>)"

definition changes_since :: "planner \<Rightarrow> string \<Rightarrow> instant \<Rightarrow> nat" where
  "changes_since s fp since =
     length (filter (\<lambda>e. is_change (le_reason e))
       (filter (\<lambda>e. le_fingerprint e = fp \<and> le_at e > since) (pn_intake s)))"

text \<open>Flapping detection: the item to route from now on, and the state.\<close>

definition flap_step :: "global_policy \<Rightarrow> instant \<Rightarrow> group_item \<Rightarrow> planner \<Rightarrow> group_item \<times> planner" where
  "flap_step policy now item s =
     (let fp = gi_fingerprint item
      in if gp_flap_events policy > 0 \<and> is_change (gi_reason item) then
           (let changes = changes_since s fp (now - secs (gp_flap_window_secs policy))
            in if changes \<ge> gp_flap_events policy then
                 (let until = now + secs (gp_flap_hold_secs policy);
                      s = s\<lparr>pn_flap_holds := (pn_flap_holds s)(fp \<mapsto> until),
                            pn_plan := (pn_plan s)\<lparr>pl_flap_holds := pl_flap_holds (pn_plan s) @ [(fp, until)]\<rparr>\<rparr>;
                      s = purge_step fp s
                  in (item\<lparr>gi_reason := NrFlapping,
                           gi_note := Some (''flapping: '' @ show_nat changes @ '' changes in '' @
                             show_nat (gp_flap_window_secs policy div 60) @ '' min, notifications held for '' @
                             show_nat (gp_flap_hold_secs policy div 60) @ '' min'')\<rparr>, s))
               else (item, s))
         else (item, s))"

definition with_queue :: "(queue \<times> plan \<Rightarrow> queue \<times> plan) \<Rightarrow> planner \<Rightarrow> planner" where
  "with_queue f s = (let (q, p) = f (pn_queue s, pn_plan s) in s\<lparr>pn_queue := q, pn_plan := p\<rparr>)"

definition dispatch_item ::
  "calendar \<Rightarrow> recipient list \<Rightarrow> recipient list \<Rightarrow> global_policy \<Rightarrow> ledger \<Rightarrow> instant \<Rightarrow> alert_group \<Rightarrow>
   group_item \<Rightarrow> planner \<Rightarrow> planner" where
  "dispatch_item cal active targets policy lg now g item s =
     (if targets = [] then s
      else if gi_reason item = NrUnacked then with_queue (handoff cal active policy g item lg now) s
      else foldl (\<lambda>s r. with_queue (route cal r g item lg now) s) s targets)"

definition plan_item ::
  "calendar \<Rightarrow> recipient list \<Rightarrow> recipient list \<Rightarrow> global_policy \<Rightarrow> ledger \<Rightarrow> instant \<Rightarrow> alert_group \<Rightarrow>
   planner \<Rightarrow> group_item \<Rightarrow> planner" where
  "plan_item cal active targets policy lg now g s item =
     (let fp = gi_fingerprint item; s = intake_step item now s
      in case pn_flap_holds s fp of
           Some until \<Rightarrow>
             purge_step fp (s\<lparr>pn_plan := note' fp (''flapping: held until '' @ hhmm_utc until) (pn_plan s)\<rparr>)
         | None \<Rightarrow>
             (let (item, s) = flap_step policy now item s
              in dispatch_item cal active targets policy lg now g item s))"

definition plan_group ::
  "calendar \<Rightarrow> recipient list \<Rightarrow> global_policy \<Rightarrow> ledger \<Rightarrow> instant \<Rightarrow> planner \<Rightarrow> alert_group \<Rightarrow> planner" where
  "plan_group cal active policy lg now s g =
     (let targets = filter (\<lambda>r. ag_channels g = [] \<or> rc_id r \<in> set (ag_channels g)) active
      in foldl (plan_item cal active targets policy lg now g) s (ag_items g))"

definition planner_start :: "ledger \<Rightarrow> instant \<Rightarrow> planner" where
  "planner_start lg now =
     \<lparr>pn_plan = plan_default, pn_queue = map (\<lambda>q. (q, False)) (lg_queue lg),
      pn_flap_holds = (\<lambda>fp. case lg_flap_holds lg fp of
          None \<Rightarrow> None | Some until \<Rightarrow> if until > now then Some until else None),
      pn_intake = filter (\<lambda>e. le_channel_id e = INTAKE_CHANNEL) (lg_log lg)\<rparr>"

definition run_plan ::
  "calendar \<Rightarrow> alert_group list \<Rightarrow> recipient list \<Rightarrow> global_policy \<Rightarrow> ledger \<Rightarrow> instant \<Rightarrow> planner" where
  "run_plan cal groups recipients policy lg now =
     (let active = filter rc_enabled recipients
      in with_queue (flush cal active policy lg now)
           (foldl (plan_group cal active policy lg now) (planner_start lg now) groups))"

definition notify_plan ::
  "calendar \<Rightarrow> alert_group list \<Rightarrow> recipient list \<Rightarrow> global_policy \<Rightarrow> ledger \<Rightarrow> instant \<Rightarrow> plan" where
  "notify_plan cal groups recipients policy lg now =
     (let s = run_plan cal groups recipients policy lg now
      in (pn_plan s)\<lparr>pl_enqueue := map fst (filter snd (pn_queue s))\<rparr>)"

end
