(* ===== verification/Notify_Properties.thy ===== *)
theory Notify_Properties
  imports Notify_Policy
begin

text \<open>
  What the notification policy guarantees. The pass over the items and the final flush are seen
  as a sequence of elementary moves of the planner; \<open>planner_invariant\<close> is the contract of
  an invariant of these moves, and each invariant below is an interpretation of it.
\<close>

section \<open>Elementary moves\<close>

lemma position_SomeD: "position P xs = Some i \<Longrightarrow> i < length xs \<and> P (xs ! i)"
  by (induction P xs arbitrary: i rule: position.induct) (auto split: if_splits)

lemma position_None_iff: "position P xs = None \<longleftrightarrow> (\<forall>x \<in> set xs. \<not> P x)"
  by (induction P xs rule: position.induct) auto

lemma note_simps [simp]:
  "pl_outgoing (note' fp v p) = pl_outgoing p" "pl_dequeue (note' fp v p) = pl_dequeue p"
  "pl_flap_holds (note' fp v p) = pl_flap_holds p" "pl_intake (note' fp v p) = pl_intake p"
  "pl_handled (note' fp v p) = pl_handled p" "pl_announced (note' fp v p) = pl_announced p"
  by (simp_all add: note'_def)

lemma merge_row_keys [simp]:
  "qi_channel_id (fst (merge_row item h row)) = qi_channel_id (fst row)"
  "gi_fingerprint (qi_item (fst (merge_row item h row))) = gi_fingerprint item"
  "qi_channel_id (fst (merge_resolution item row)) = qi_channel_id (fst row)"
  "qi_item (fst (merge_resolution item row)) = item"
  "snd (merge_row item h row)" "snd (merge_resolution item row)" "snd (new_row r g item h now)"
  by (simp_all add: merge_row_def merge_resolution_def new_row_def Let_def)

text \<open>The four ways \<open>route\<close> can end.\<close>

inductive routed ::
  "calendar \<Rightarrow> recipient \<Rightarrow> alert_group \<Rightarrow> group_item \<Rightarrow> ledger \<Rightarrow> instant \<Rightarrow> queue \<Rightarrow> queue \<Rightarrow> bool"
  for cal r g item lg now q where
  routed_aside: "routed cal r g item lg now q q"
| routed_resolution:
    "channel_refuses r g item = None \<Longrightarrow> gi_reason item = NrResolved \<Longrightarrow> pos < length q \<Longrightarrow>
     row_key (q ! pos) = (rc_id r, gi_fingerprint item) \<Longrightarrow>
     routed cal r g item lg now q (q[pos := merge_resolution item (q ! pos)])"
| routed_merge:
    "channel_refuses r g item = None \<Longrightarrow> gi_reason item \<noteq> NrResolved \<Longrightarrow>
     cooling_down r lg item now = None \<Longrightarrow> pos < length q \<Longrightarrow>
     row_key (q ! pos) = (rc_id r, gi_fingerprint item) \<Longrightarrow>
     routed cal r g item lg now q (q[pos := merge_row item (hold_for cal r item now) (q ! pos)])"
| routed_new:
    "channel_refuses r g item = None \<Longrightarrow> (rc_id r, gi_fingerprint item) \<notin> row_key ` set q \<Longrightarrow>
     (gi_reason item = NrResolved \<Longrightarrow>
        \<exists>e. last_sent lg (rc_id r) (gi_fingerprint item) = Some e \<and> is_firing_like (le_reason e)) \<Longrightarrow>
     (gi_reason item \<noteq> NrResolved \<Longrightarrow> cooling_down r lg item now = None) \<Longrightarrow>
     routed cal r g item lg now q (q @ [new_row r g item (hold_for cal r item now) now])"

inductive_cases routedE: "routed cal r g item lg now q q'"

lemma route_routed: "routed cal r g item lg now q (fst (route cal r g item lg now (q, p)))"
proof (cases "channel_refuses r g item")
  case None
  let ?P = "\<lambda>row. row_key row = (rc_id r, gi_fingerprint item)"
  show ?thesis
  proof (cases "position ?P q")
    case absent: None
    then have "(rc_id r, gi_fingerprint item) \<notin> row_key ` set q"
      by (force simp: position_None_iff)
    with None absent show ?thesis
      by (auto simp: route_def enqueue_row_def Let_def intro: routed.intros split: option.splits)
  next
    case (Some pos)
    with None position_SomeD [OF Some] show ?thesis
      by (auto simp: route_def enqueue_row_def Let_def intro: routed.intros split: option.splits)
  qed
qed (simp add: route_def routed_aside)

lemma route_plan:
  "pl_outgoing (snd (route cal r g item lg now (q, p))) = pl_outgoing p"
  "pl_dequeue (snd (route cal r g item lg now (q, p))) = pl_dequeue p"
  "pl_flap_holds (snd (route cal r g item lg now (q, p))) = pl_flap_holds p"
  "pl_handled (snd (route cal r g item lg now (q, p))) = pl_handled p"
  "pl_announced (snd (route cal r g item lg now (q, p))) \<subseteq> insert (gi_fingerprint item) (pl_announced p)"
  by (auto simp: route_def enqueue_row_def Let_def split: option.splits if_splits)

lemma with_queue_simps [simp]:
  "pn_queue (with_queue f s) = fst (f (pn_queue s, pn_plan s))"
  "pn_plan (with_queue f s) = snd (f (pn_queue s, pn_plan s))"
  "pn_flap_holds (with_queue f s) = pn_flap_holds s"
  "pn_intake (with_queue f s) = pn_intake s"
  by (simp_all add: with_queue_def split_def Let_def)

text \<open>A position that can be routed: who asks, for what, on which channel.\<close>

definition routable ::
  "recipient list \<Rightarrow> global_policy \<Rightarrow> alert_group list \<Rightarrow> recipient \<Rightarrow> alert_group \<Rightarrow> group_item \<Rightarrow> bool" where
  "routable active policy groups r g item =
     (r \<in> set active \<and> g \<in> set groups \<and>
      (\<exists>i \<in> set (ag_items g). gi_fingerprint item = gi_fingerprint i \<and> gi_severity item = gi_severity i \<and>
         gi_rule_uid item = gi_rule_uid i) \<and>
      (if gi_reason item = NrUnacked then \<exists>after. escalation policy = Some (after, rc_id r)
       else ag_channels g = [] \<or> rc_id r \<in> set (ag_channels g)))"

definition waiting :: "global_policy \<Rightarrow> ledger \<Rightarrow> instant \<Rightarrow> string \<Rightarrow> bool" where
  "waiting policy lg now fp =
     (case escalation policy of
        None \<Rightarrow> False
      | Some (after, _) \<Rightarrow> (case first_sent lg fp of None \<Rightarrow> True | Some first \<Rightarrow> now < first + after))"

locale planner_pass =
  fixes cal :: calendar and active :: "recipient list" and policy :: global_policy
    and groups :: "alert_group list" and lg :: ledger and now :: instant
    and I :: "planner \<Rightarrow> bool"
  assumes I_intake: "I s \<Longrightarrow> g \<in> set groups \<Longrightarrow> item \<in> set (ag_items g) \<Longrightarrow> I (intake_step item now s)"
    and I_note: "I s \<Longrightarrow> I (s\<lparr>pn_plan := note' fp v (pn_plan s)\<rparr>)"
    and I_wait: "I s \<Longrightarrow> waiting policy lg now fp \<Longrightarrow>
      I (s\<lparr>pn_plan := (pn_plan s)\<lparr>pl_handled := pl_handled (pn_plan s) - {fp}\<rparr>\<rparr>)"
    and I_flap: "I s \<Longrightarrow> fp \<notin> dom (pn_flap_holds s) \<Longrightarrow> I (s\<lparr>pn_flap_holds := (pn_flap_holds s)(fp \<mapsto> until),
      pn_plan := (pn_plan s)\<lparr>pl_flap_holds := pl_flap_holds (pn_plan s) @ [(fp, until)]\<rparr>\<rparr>)"
    and I_purge: "I s \<Longrightarrow> fp \<in> dom (pn_flap_holds s) \<Longrightarrow> I (purge_step fp s)"
    and I_route: "I s \<Longrightarrow> routable active policy groups r g item \<Longrightarrow>
      gi_fingerprint item \<notin> dom (pn_flap_holds s) \<or>
        gi_reason item = NrFlapping \<and> gi_fingerprint item \<in> fst ` set (pl_flap_holds (pn_plan s)) \<Longrightarrow>
      I (with_queue (route cal r g item lg now) s)"
begin

lemma I_handoff:
  assumes "I s" and "g \<in> set groups" and "item \<in> set (ag_items g)" and "gi_reason item = NrUnacked"
    and "gi_fingerprint item \<notin> dom (pn_flap_holds s)"
  shows "I (with_queue (handoff cal active policy g item lg now) s)"
proof -
  let ?fp = "gi_fingerprint item"
  have noted: "I (s\<lparr>pn_plan := note' ?fp v (pn_plan s)\<rparr>)" for v using I_note assms(1) .
  have same: "with_queue (\<lambda>(q, p). (q, f p)) s = s\<lparr>pn_plan := f (pn_plan s)\<rparr>" for f
    by (simp add: with_queue_def)
  have waits: "I (s\<lparr>pn_plan := note' ?fp v ((pn_plan s)\<lparr>pl_handled := pl_handled (pn_plan s) - {?fp}\<rparr>)\<rparr>)"
    if "waiting policy lg now ?fp" for v
    using I_note [OF I_wait [OF assms(1) that]] by simp
  show ?thesis
  proof (cases "escalation policy")
    case None
    then show ?thesis using noted same by (simp add: handoff_def with_queue_def)
  next
    case (Some e)
    obtain after channel where e: "escalation policy = Some (after, channel)" using Some by (cases e) auto
    show ?thesis
    proof (cases "waiting policy lg now ?fp")
      case True
      then show ?thesis
        using e waits [OF True]
        by (auto simp: handoff_def with_queue_def waiting_def Let_def split: option.splits)
    next
      case False
      then obtain first where f: "first_sent lg ?fp = Some first" "\<not> now < first + after"
        using e by (auto simp: waiting_def split: option.splits)
      show ?thesis
      proof (cases "find (\<lambda>r. rc_id r = channel) active")
        case None
        with e f noted show ?thesis by (simp add: handoff_def with_queue_def Let_def)
      next
        case (Some r)
        then have r: "r \<in> set active" "rc_id r = channel" by (auto simp: find_Some_iff)
        with assms e have "routable active policy groups r g item" by (auto simp: routable_def)
        with Some e f assms I_route show ?thesis by (simp add: handoff_def with_queue_def Let_def)
      qed
    qed
  qed
qed

lemma I_routes:
  assumes "I s" and "\<And>r. r \<in> set rs \<Longrightarrow> routable active policy groups r g item"
    and "gi_fingerprint item \<notin> dom (pn_flap_holds s) \<or>
        gi_reason item = NrFlapping \<and> gi_fingerprint item \<in> fst ` set (pl_flap_holds (pn_plan s))"
  shows "I (foldl (\<lambda>s r. with_queue (route cal r g item lg now) s) s rs)"
  using assms
proof (induction rs arbitrary: s)
  case (Cons r rs)
  let ?s = "with_queue (route cal r g item lg now) s"
  have "I ?s" using Cons.prems by (intro I_route) auto
  moreover have "pn_flap_holds ?s = pn_flap_holds s" "pl_flap_holds (pn_plan ?s) = pl_flap_holds (pn_plan s)"
    by (simp_all add: route_plan)
  ultimately show ?case using Cons by simp
qed simp

lemma I_dispatch:
  assumes "I s" and "g \<in> set groups" and "i \<in> set (ag_items g)"
    and "gi_fingerprint item = gi_fingerprint i" "gi_severity item = gi_severity i" "gi_rule_uid item = gi_rule_uid i"
    and "gi_reason item = NrUnacked \<Longrightarrow> item = i"
    and "gi_fingerprint item \<notin> dom (pn_flap_holds s) \<or>
        gi_reason item = NrFlapping \<and> gi_fingerprint item \<in> fst ` set (pl_flap_holds (pn_plan s))"
  shows "I (dispatch_item cal active
     (filter (\<lambda>r. ag_channels g = [] \<or> rc_id r \<in> set (ag_channels g)) active) policy lg now g item s)"
proof (cases "gi_reason item = NrUnacked")
  case True
  with assms I_handoff [of s g item] show ?thesis by (auto simp: dispatch_item_def)
next
  case False
  let ?targets = "filter (\<lambda>r. ag_channels g = [] \<or> rc_id r \<in> set (ag_channels g)) active"
  have "\<exists>j \<in> set (ag_items g). gi_fingerprint item = gi_fingerprint j \<and> gi_severity item = gi_severity j \<and>
      gi_rule_uid item = gi_rule_uid j"
    using assms(3-6) by blast
  then have "routable active policy groups r g item" if "r \<in> set ?targets" for r
    using that assms(2) False by (auto simp: routable_def)
  then have "I (foldl (\<lambda>s r. with_queue (route cal r g item lg now) s) s ?targets)"
    using assms(1,8) by (intro I_routes) blast+
  with False assms(1) show ?thesis by (simp add: dispatch_item_def)
qed

lemma I_item:
  assumes "I s" and "g \<in> set groups" and "i \<in> set (ag_items g)"
  shows "I (plan_item cal active
     (filter (\<lambda>r. ag_channels g = [] \<or> rc_id r \<in> set (ag_channels g)) active) policy lg now g s i)"
proof -
  let ?s = "intake_step i now s"
  let ?fp = "gi_fingerprint i"
  have s: "I ?s" using I_intake assms .
  show ?thesis
  proof (cases "pn_flap_holds ?s ?fp")
    case (Some until)
    then show ?thesis
      using I_purge [OF I_note [OF s], of ?fp] by (auto simp: plan_item_def Let_def)
  next
    case None
    obtain item t where flap: "flap_step policy now i ?s = (item, t)" by fastforce
    have ok: "I t \<and> gi_fingerprint item = ?fp \<and> gi_severity item = gi_severity i \<and> gi_rule_uid item = gi_rule_uid i \<and>
        (gi_reason item = NrUnacked \<longrightarrow> item = i) \<and>
        (gi_fingerprint item \<notin> dom (pn_flap_holds t) \<or>
         gi_reason item = NrFlapping \<and> gi_fingerprint item \<in> fst ` set (pl_flap_holds (pn_plan t)))"
      using flap s None I_purge [OF I_flap [OF s], of ?fp]
      by (auto simp: flap_step_def purge_step_def purge_fingerprint_def Let_def split: if_splits)
    have "I (dispatch_item cal active
        (filter (\<lambda>r. ag_channels g = [] \<or> rc_id r \<in> set (ag_channels g)) active) policy lg now g item t)"
      by (rule I_dispatch [of t g i item]) (use ok assms(2,3) in blast)+
    with flap None show ?thesis by (simp add: plan_item_def Let_def)
  qed
qed

lemma I_group: "I s \<Longrightarrow> g \<in> set groups \<Longrightarrow> I (plan_group cal active policy lg now s g)"
  unfolding plan_group_def Let_def
  by (rule foldl_invariant [where P = I]) (auto intro: I_item)

lemma I_groups: "I s \<Longrightarrow> set gs \<subseteq> set groups \<Longrightarrow> I (foldl (plan_group cal active policy lg now) s gs)"
  by (rule foldl_invariant [where P = I]) (auto intro: I_group)

end

locale planner_invariant = planner_pass +
  assumes I_flush: "I s \<Longrightarrow> r \<in> set active \<Longrightarrow> I (with_queue (\<lambda>a. flush_channel cal policy lg now a r) s)"
begin

lemma I_flushes:
  assumes "I s" and "set rs \<subseteq> set active"
  shows "I (with_queue (\<lambda>a. foldl (flush_channel cal policy lg now) a rs) s)"
  using assms
proof (induction rs arbitrary: s)
  case Nil
  then show ?case by (simp add: with_queue_def)
next
  case (Cons r rs)
  let ?s = "with_queue (\<lambda>a. flush_channel cal policy lg now a r) s"
  have "I ?s" using Cons.prems by (intro I_flush) auto
  moreover have "with_queue (\<lambda>a. foldl (flush_channel cal policy lg now) a (r # rs)) s =
      with_queue (\<lambda>a. foldl (flush_channel cal policy lg now) a rs) ?s"
    by (simp add: with_queue_def split_def Let_def)
  ultimately show ?case using Cons.IH [of ?s] Cons.prems by (simp only:) simp
qed

lemma I_run:
  assumes "I (planner_start lg now)" and "active = filter rc_enabled recipients"
  shows "I (run_plan cal groups recipients policy lg now)"
proof -
  have "I (foldl (plan_group cal active policy lg now) (planner_start lg now) groups)"
    using assms(1) by (intro I_groups) auto
  then show ?thesis
    using I_flushes [of _ active] by (simp add: run_plan_def flush_def [abs_def] assms(2) Let_def)
qed

end

text \<open>What a flush of one channel does to the queue and to the messages.\<close>

definition ready_rows :: "calendar \<Rightarrow> global_policy \<Rightarrow> instant \<Rightarrow> queue \<Rightarrow> recipient \<Rightarrow> queued_item list" where
  "ready_rows cal policy now q r =
     (let mine = filter (\<lambda>x. qi_channel_id x = rc_id r) (map fst q);
          batch_due = list_ex (\<lambda>x. qi_hold x = HBatch \<and> now - qi_queued_at x \<ge> channel_window r policy) mine;
          take_quiet = (list_ex (\<lambda>x. qi_hold x = HQuiet) mine \<and> \<not> in_quiet_hours cal (rc_policy r) now)
      in filter (\<lambda>x. case qi_hold x of HBatch \<Rightarrow> batch_due \<or> take_quiet | HQuiet \<Rightarrow> take_quiet) mine)"

definition capped :: "global_policy \<Rightarrow> ledger \<Rightarrow> instant \<Rightarrow> recipient \<Rightarrow> bool" where
  "capped policy lg now r =
     (gp_max_per_hour policy > 0 \<and> sent_last_hour lg (rc_id r) now \<ge> gp_max_per_hour policy)"

definition row_of :: "queued_item \<Rightarrow> int \<times> string" where
  "row_of x = (qi_channel_id x, gi_fingerprint (qi_item x))"

lemma row_key_row_of: "row_key row = row_of (fst row)"
  by (simp add: row_key_def row_fp_def row_of_def)

lemma notes_outgoing [simp]:
  "pl_outgoing (foldl (\<lambda>p x. note' (f x) v p) p xs) = pl_outgoing p"
  "pl_handled (foldl (\<lambda>p x. note' (f x) v p) p xs) = pl_handled p"
  "pl_announced (foldl (\<lambda>p x. note' (f x) v p) p xs) = pl_announced p"
  "pl_flap_holds (foldl (\<lambda>p x. note' (f x) v p) p xs) = pl_flap_holds p"
  by (induction xs arbitrary: p) simp_all

lemma ready_rows_subset:
  "x \<in> set (ready_rows cal policy now q r) \<Longrightarrow> x \<in> fst ` set q \<and> qi_channel_id x = rc_id r"
  by (auto simp: ready_rows_def Let_def)

lemma filter_holds_empty:
  assumes "b \<longleftrightarrow> list_ex (\<lambda>x. qi_hold x = HBatch \<and> due x) mine"
    and "t \<longleftrightarrow> list_ex (\<lambda>x. qi_hold x = HQuiet) mine \<and> c"
  shows "filter (\<lambda>x. case qi_hold x of HBatch \<Rightarrow> b \<or> t | HQuiet \<Rightarrow> t) mine = [] \<longleftrightarrow> \<not> b \<and> \<not> t"
  using assms by (auto simp: filter_empty_conv list_ex_iff split: hold.splits)

lemma flush_channel_cases:
  "flush_channel cal policy lg now (q, p) r =
     (if ready_rows cal policy now q r = [] then (q, p)
      else if capped policy lg now r then
        (q, foldl (\<lambda>p x. note' (gi_fingerprint (qi_item x))
            (''channel '' @ show_int (rc_id r) @ '': hourly cap of '' @
             show_nat (gp_max_per_hour policy) @ '' messages reached, waiting'') p) p
            (filter (\<lambda>x. qi_channel_id x = rc_id r) (map fst q)))
      else
        (filter (\<lambda>row. row_key row \<notin> set (map row_of (ready_rows cal policy now q r))) q,
         p\<lparr>pl_outgoing := pl_outgoing p @
             messages_of r (ready_rows cal policy now q r)
               (if list_ex (\<lambda>x. qi_hold x = HQuiet) (filter (\<lambda>x. qi_channel_id x = rc_id r) (map fst q)) \<and>
                   \<not> in_quiet_hours cal (rc_policy r) now then Some HQuiet else None) now\<rparr>))"
proof -
  define mine where "mine = filter (\<lambda>x. qi_channel_id x = rc_id r) (map fst q)"
  define b where "b = list_ex (\<lambda>x. qi_hold x = HBatch \<and> now - qi_queued_at x \<ge> channel_window r policy) mine"
  define t where "t = (list_ex (\<lambda>x. qi_hold x = HQuiet) mine \<and> \<not> in_quiet_hours cal (rc_policy r) now)"
  define ready where "ready = filter (\<lambda>x. case qi_hold x of HBatch \<Rightarrow> b \<or> t | HQuiet \<Rightarrow> t) mine"
  have ready: "ready_rows cal policy now q r = ready"
    by (simp only: ready_rows_def ready_def b_def t_def mine_def Let_def)
  have empty: "ready = [] \<longleftrightarrow> \<not> b \<and> \<not> t"
    unfolding ready_def by (rule filter_holds_empty [OF b_def t_def])
  have none: "mine = [] \<Longrightarrow> ready = []" by (simp add: ready_def)
  have unf: "flush_channel cal policy lg now (q, p) r =
     (if mine = [] then (q, p) else if \<not> (b \<or> t) \<and> \<not> t then (q, p)
      else if capped policy lg now r then
        (q, foldl (\<lambda>p x. note' (gi_fingerprint (qi_item x))
            (''channel '' @ show_int (rc_id r) @ '': hourly cap of '' @
             show_nat (gp_max_per_hour policy) @ '' messages reached, waiting'') p) p mine)
      else
        (filter (\<lambda>row. row_key row \<notin> set (map row_of ready)) q,
         p\<lparr>pl_outgoing := pl_outgoing p @ messages_of r ready (if t then Some HQuiet else None) now\<rparr>))"
    by (simp only: flush_channel_def capped_def Let_def split mine_def b_def t_def ready_def row_of_def [abs_def])
  show ?thesis
    unfolding unf ready mine_def [symmetric] t_def [symmetric] using empty none by auto
qed

text \<open>The rows of the messages are the ready rows.\<close>

lemma outgoing_of_simps [simp]:
  "og_channel_id (outgoing_of c items h now) = c" "og_retry (outgoing_of c items h now) = items"
  by (simp_all add: outgoing_of_def Let_def)

lemma push_by_target_fold:
  "foldl (\<lambda>v q. Some (push_by_target q v)) (Some qs) xs = Some (qs @ xs)"
  by (induction xs arbitrary: qs) (simp_all add: push_by_target_def)

lemma messages_of_rows:
  "\<exists>qss. messages_of r ready h now = map (\<lambda>items. outgoing_of (rc_id r) items h now) qss \<and>
     mset (concat qss) = mset ready \<and> (\<not> is_oncall r \<longrightarrow> qss = [ready])"
proof (cases "is_oncall r")
  case True
  let ?m = "foldl (\<lambda>m q. bt_update (qi_target_id q) (push_by_target q) m) [] ready"
  have fold: "bt_wf ?m"
    "map_of ?m t = foldl (\<lambda>v x. Some (push_by_target x v)) None (filter (\<lambda>q. qi_target_id q = t) ready)"
    "fst ` set ?m = qi_target_id ` set ready" for t
    using bt_fold [of "[] :: (target_id option \<times> queued_item list) list" qi_target_id push_by_target ready t]
    by auto
  have "map_of ?m t = Some (filter (\<lambda>q. qi_target_id q = t) ready)" if "t \<in> fst ` set ?m" for t
  proof -
    from that fold(3) have "filter (\<lambda>q. qi_target_id q = t) ready \<noteq> []"
      by (auto simp: filter_empty_conv)
    then show ?thesis unfolding fold(2)
      by (cases "filter (\<lambda>q. qi_target_id q = t) ready")
        (simp_all add: push_by_target_fold, simp add: push_by_target_def push_by_target_fold)
  qed
  then have vals: "map snd ?m = map (\<lambda>t. filter (\<lambda>q. qi_target_id q = t) ready) (map fst ?m)"
    by (intro bt_values fold(1)) auto
  have "mset (concat (map (\<lambda>t. filter (\<lambda>q. qi_target_id q = t) ready) (map fst ?m))) = mset ready"
    using fold(3) by (intro mset_partition bt.entries_distinct fold(1)) simp
  then have "mset (concat (map snd ?m)) = mset ready" unfolding vals .
  then show ?thesis
    using True by (intro exI [of _ "map snd ?m"]) (simp add: messages_of_def)
qed (simp add: messages_of_def)

lemma messages_of_channel: "og \<in> set (messages_of r ready h now) \<Longrightarrow> og_channel_id og = rc_id r"
  by (auto simp: messages_of_def split: if_splits)

lemma messages_of_retry:
  "(\<exists>og \<in> set (messages_of r ready h now). x \<in> set (og_retry og)) \<longleftrightarrow> x \<in> set ready"
proof -
  obtain qss where qss: "messages_of r ready h now = map (\<lambda>items. outgoing_of (rc_id r) items h now) qss"
    "mset (concat qss) = mset ready" using messages_of_rows by blast
  have "set (concat qss) = set ready" using qss(2) by (metis set_mset_mset)
  then show ?thesis unfolding qss(1) by auto
qed

section \<open>Invariants of the planner\<close>

lemmas move_simps = intake_step_def purge_step_def purge_fingerprint_def Let_def

lemma intake_simps [simp]:
  "pn_queue (intake_step item now s) = pn_queue s"
  "pn_flap_holds (intake_step item now s) = pn_flap_holds s"
  "pl_outgoing (pn_plan (intake_step item now s)) = pl_outgoing (pn_plan s)"
  "pl_flap_holds (pn_plan (intake_step item now s)) = pl_flap_holds (pn_plan s)"
  "pl_handled (pn_plan (intake_step item now s)) = insert (gi_fingerprint item) (pl_handled (pn_plan s))"
  by (simp_all add: intake_step_def Let_def)

lemma purge_simps [simp]:
  "pn_queue (purge_step fp s) = filter (\<lambda>row. row_fp row \<noteq> fp) (pn_queue s)"
  "pn_flap_holds (purge_step fp s) = pn_flap_holds s"
  "pl_outgoing (pn_plan (purge_step fp s)) = pl_outgoing (pn_plan s)"
  "pl_flap_holds (pn_plan (purge_step fp s)) = pl_flap_holds (pn_plan s)"
  "pl_handled (pn_plan (purge_step fp s)) = pl_handled (pn_plan s)"
  by (simp_all add: purge_step_def purge_fingerprint_def Let_def)

lemma flush_channel_simps [simp]:
  "pl_handled (snd (flush_channel cal policy lg now (q, p) r)) = pl_handled p"
  "pl_flap_holds (snd (flush_channel cal policy lg now (q, p) r)) = pl_flap_holds p"
  by (auto simp: flush_channel_cases)

lemma flush_channel_subset: "set (fst (flush_channel cal policy lg now (q, p) r)) \<subseteq> set q"
  by (auto simp: flush_channel_cases)

lemma flush_channel_outgoing:
  assumes "og \<in> set (pl_outgoing (snd (flush_channel cal policy lg now (q, p) r)))"
  shows "og \<in> set (pl_outgoing p) \<or>
     og_channel_id og = rc_id r \<and> \<not> capped policy lg now r \<and> set (og_retry og) \<subseteq> set (ready_rows cal policy now q r)"
  using assms messages_of_channel messages_of_retry
  by (fastforce simp: flush_channel_cases split: if_splits)

text \<open>One row per channel and fingerprint.\<close>

lemma routed_keys:
  "routed cal r g item lg now q q' \<Longrightarrow>
   map row_key q' = map row_key q \<or>
   map row_key q' = map row_key q @ [(rc_id r, gi_fingerprint item)] \<and>
     (rc_id r, gi_fingerprint item) \<notin> row_key ` set q"
  by (erule routedE)
    (auto simp: map_update row_key_def row_fp_def new_row_def list_update_id
      intro!: list_update_same_conv [THEN iffD2])

definition keys_unique :: "planner \<Rightarrow> bool" where
  "keys_unique s = distinct (map row_key (pn_queue s))"

interpretation keys: planner_invariant cal active policy groups lg now keys_unique
  for cal active policy groups lg now
proof unfold_locales
  fix s :: planner and r g and item :: group_item
  assume "keys_unique s"
  then show "keys_unique (with_queue (route cal r g item lg now) s)"
    using routed_keys [OF route_routed [of cal r g item lg now "pn_queue s" "pn_plan s"]]
    by (auto simp: keys_unique_def)
next
  fix s :: planner and r
  assume "keys_unique s"
  then show "keys_unique (with_queue (\<lambda>a. flush_channel cal policy lg now a r) s)"
    by (auto simp: keys_unique_def flush_channel_cases distinct_map_filter)
qed (simp_all add: keys_unique_def distinct_map_filter)

text \<open>Where rows come from.\<close>

definition admitted ::
  "calendar \<Rightarrow> recipient list \<Rightarrow> global_policy \<Rightarrow> alert_group list \<Rightarrow> ledger \<Rightarrow> instant \<Rightarrow> queued_item \<Rightarrow> bool" where
  "admitted cal active policy groups lg now x =
     (\<exists>r g item. routable active policy groups r g item \<and> channel_refuses r g item = None \<and>
        qi_channel_id x = rc_id r \<and>
        (qi_item x = item \<or> gi_reason item = NrReminder \<and> qi_item x = item\<lparr>gi_reason := NrFiring\<rparr>) \<and>
        (gi_reason item \<noteq> NrResolved \<longrightarrow>
           qi_hold x = hold_for cal r item now \<and> cooling_down r lg item now = None))"

lemma admittedI:
  "routable active policy groups r g item \<Longrightarrow> channel_refuses r g item = None \<Longrightarrow>
   qi_channel_id x = rc_id r \<Longrightarrow>
   qi_item x = item \<or> gi_reason item = NrReminder \<and> qi_item x = item\<lparr>gi_reason := NrFiring\<rparr> \<Longrightarrow>
   (gi_reason item \<noteq> NrResolved \<Longrightarrow> qi_hold x = hold_for cal r item now \<and> cooling_down r lg item now = None) \<Longrightarrow>
   admitted cal active policy groups lg now x"
  unfolding admitted_def by blast

definition rows_admitted ::
  "calendar \<Rightarrow> recipient list \<Rightarrow> global_policy \<Rightarrow> alert_group list \<Rightarrow> ledger \<Rightarrow> instant \<Rightarrow> planner \<Rightarrow> bool" where
  "rows_admitted cal active policy groups lg now s =
     ((\<forall>row \<in> set (pn_queue s). if snd row then admitted cal active policy groups lg now (fst row)
         else fst row \<in> set (lg_queue lg)) \<and>
      (\<forall>og \<in> set (pl_outgoing (pn_plan s)). \<forall>x \<in> set (og_retry og).
         x \<in> set (lg_queue lg) \<or> admitted cal active policy groups lg now x))"

lemma routed_admitted:
  assumes "routed cal r g item lg now q q'" and "routable active policy groups r g item" and "row \<in> set q'"
  shows "row \<in> set q \<or> snd row \<and> admitted cal active policy groups lg now (fst row)"
  using assms(1)
proof (rule routedE)
  assume "q' = q"
  with assms(3) show ?thesis by simp
next
  fix pos
  assume "q' = q[pos := merge_resolution item (q ! pos)]" "channel_refuses r g item = None"
    "gi_reason item = NrResolved" "row_key (q ! pos) = (rc_id r, gi_fingerprint item)"
  with assms(2,3) show ?thesis
    by (auto dest!: set_update_subset_insert [THEN subsetD] simp: row_key_def
        intro!: admittedI [where r = r and g = g and item = item])
next
  fix pos
  assume "q' = q[pos := merge_row item (hold_for cal r item now) (q ! pos)]" "channel_refuses r g item = None"
    "cooling_down r lg item now = None" "row_key (q ! pos) = (rc_id r, gi_fingerprint item)"
  with assms(2,3) show ?thesis
    by (auto dest!: set_update_subset_insert [THEN subsetD] simp: row_key_def merge_row_def Let_def
        split: if_splits intro!: admittedI [where r = r and g = g and item = item])
next
  assume "q' = q @ [new_row r g item (hold_for cal r item now) now]" "channel_refuses r g item = None"
    "gi_reason item \<noteq> NrResolved \<Longrightarrow> cooling_down r lg item now = None"
  with assms(2,3) show ?thesis
    by (auto simp: new_row_def intro!: admittedI [where r = r and g = g and item = item])
qed

interpretation provenance: planner_invariant cal active policy groups lg now
  "rows_admitted cal active policy groups lg now" for cal active policy groups lg now
proof unfold_locales
  fix s :: planner and r g and item :: group_item
  assume "rows_admitted cal active policy groups lg now s" "routable active policy groups r g item"
  then show "rows_admitted cal active policy groups lg now (with_queue (route cal r g item lg now) s)"
    using routed_admitted [OF route_routed [of cal r g item lg now "pn_queue s" "pn_plan s"]]
    by (fastforce simp: rows_admitted_def route_plan)
next
  fix s :: planner and r
  assume s: "rows_admitted cal active policy groups lg now s"
  have "x \<in> set (lg_queue lg) \<or> admitted cal active policy groups lg now x"
    if "x \<in> set (ready_rows cal policy now (pn_queue s) r)" for x
    using ready_rows_subset [OF that] s by (fastforce simp: rows_admitted_def split: if_splits)
  then have "x \<in> set (lg_queue lg) \<or> admitted cal active policy groups lg now x"
    if "og \<in> set (pl_outgoing (snd (flush_channel cal policy lg now (pn_queue s, pn_plan s) r)))"
      "x \<in> set (og_retry og)" for og x
    using flush_channel_outgoing [OF that(1)] that(2) s by (auto simp: rows_admitted_def)
  with s show "rows_admitted cal active policy groups lg now (with_queue (\<lambda>a. flush_channel cal policy lg now a r) s)"
    using flush_channel_subset [of cal policy lg now "pn_queue s" "pn_plan s" r]
    unfolding rows_admitted_def with_queue_simps by blast
qed (auto simp: rows_admitted_def)

text \<open>No row of the ledger is lost: it waits, it leaves, or its fingerprint is held for flapping.\<close>

definition rows_kept :: "ledger \<Rightarrow> planner \<Rightarrow> bool" where
  "rows_kept lg s =
     (\<forall>x \<in> set (lg_queue lg). row_of x \<in> row_key ` set (pn_queue s) \<or>
        (\<exists>og \<in> set (pl_outgoing (pn_plan s)). row_of x \<in> row_of ` set (og_retry og)) \<or>
        gi_fingerprint (qi_item x) \<in> dom (pn_flap_holds s))"

lemma routed_keys_mono: "routed cal r g item lg now q q' \<Longrightarrow> row_key ` set q \<subseteq> row_key ` set q'"
  using routed_keys [of cal r g item lg now q q'] by (metis Un_upper1 list.set_map order_refl set_append)

lemma flush_keeps_key:
  assumes "k \<in> row_key ` set q"
  shows "k \<in> row_key ` set (fst (flush_channel cal policy lg now (q, p) r)) \<or>
     (\<exists>og \<in> set (pl_outgoing (snd (flush_channel cal policy lg now (q, p) r))). k \<in> row_of ` set (og_retry og))"
proof (cases "ready_rows cal policy now q r = [] \<or> capped policy lg now r \<or>
    k \<notin> row_of ` set (ready_rows cal policy now q r)")
  case True
  with assms show ?thesis by (auto simp: flush_channel_cases)
next
  case False
  then obtain x where "x \<in> set (ready_rows cal policy now q r)" "k = row_of x" by auto
  with False messages_of_retry [of r "ready_rows cal policy now q r" _ now x] show ?thesis
    by (fastforce simp: flush_channel_cases)
qed

lemma flush_keeps_outgoing:
  "set (pl_outgoing p) \<subseteq> set (pl_outgoing (snd (flush_channel cal policy lg now (q, p) r)))"
  by (auto simp: flush_channel_cases)

interpretation kept: planner_invariant cal active policy groups lg now "rows_kept lg"
  for cal active policy groups lg now
proof unfold_locales
  fix s :: planner and r g and item :: group_item
  assume "rows_kept lg s"
  then show "rows_kept lg (with_queue (route cal r g item lg now) s)"
    using routed_keys_mono [OF route_routed [of cal r g item lg now "pn_queue s" "pn_plan s"]]
    unfolding rows_kept_def with_queue_simps route_plan by blast
next
  fix s :: planner and r
  assume "rows_kept lg s"
  then show "rows_kept lg (with_queue (\<lambda>a. flush_channel cal policy lg now a r) s)"
    using flush_keeps_key [where q = "pn_queue s" and p = "pn_plan s" and cal = cal and policy = policy and lg = lg and now = now and r = r]
      flush_keeps_outgoing [of "pn_plan s" cal policy lg now "pn_queue s" r]
    unfolding rows_kept_def with_queue_simps by blast
next
  fix s :: planner and fp
  assume s: "rows_kept lg s" and fp: "fp \<in> dom (pn_flap_holds s)"
  have "row_of x \<in> row_key ` set (pn_queue (purge_step fp s))"
    if "row_of x \<in> row_key ` set (pn_queue s)" "gi_fingerprint (qi_item x) \<noteq> fp" for x
    using that by (auto simp: row_key_def row_of_def)
  with s fp show "rows_kept lg (purge_step fp s)"
    unfolding rows_kept_def by (metis purge_simps(2,3))
qed (auto simp: rows_kept_def)

text \<open>What is handled, up to the hand-offs that wait.\<close>

definition handled_or_waiting :: "global_policy \<Rightarrow> ledger \<Rightarrow> instant \<Rightarrow> string \<Rightarrow> planner \<Rightarrow> bool" where
  "handled_or_waiting policy lg now fp s = (fp \<in> pl_handled (pn_plan s) \<or> waiting policy lg now fp)"

interpretation handled: planner_invariant cal active policy groups lg now "handled_or_waiting policy lg now fp"
  for cal active policy groups lg now fp
  by unfold_locales (auto simp: handled_or_waiting_def route_plan)

text \<open>A fingerprint held since an earlier cycle is not routed; once it was seen, it has no row.\<close>

definition held_quiet :: "ledger \<Rightarrow> string \<Rightarrow> planner \<Rightarrow> bool" where
  "held_quiet lg fp s =
     (fp \<in> dom (pn_flap_holds s) \<and> fp \<notin> fst ` set (pl_flap_holds (pn_plan s)) \<and>
      (\<forall>row \<in> set (pn_queue s). row_fp row = fp \<longrightarrow> \<not> snd row \<and> fst row \<in> set (lg_queue lg)) \<and>
      (\<forall>og \<in> set (pl_outgoing (pn_plan s)). \<forall>x \<in> set (og_retry og).
         gi_fingerprint (qi_item x) = fp \<longrightarrow> x \<in> set (lg_queue lg)))"

definition held_gone :: "string \<Rightarrow> planner \<Rightarrow> bool" where
  "held_gone fp s =
     (fp \<in> dom (pn_flap_holds s) \<and> fp \<notin> fst ` set (pl_flap_holds (pn_plan s)) \<and>
      (\<forall>row \<in> set (pn_queue s). row_fp row \<noteq> fp) \<and>
      (\<forall>og \<in> set (pl_outgoing (pn_plan s)). \<forall>x \<in> set (og_retry og). gi_fingerprint (qi_item x) \<noteq> fp))"

lemma routed_other:
  assumes "routed cal r g item lg now q q'" and "row \<in> set q'" and "row_fp row \<noteq> gi_fingerprint item"
  shows "row \<in> set q"
  using assms(1)
  by (rule routedE)
    (use assms(2,3) in \<open>auto dest!: set_update_subset_insert [THEN subsetD] simp: row_fp_def new_row_def\<close>)

lemma ready_rows_fp:
  "x \<in> set (ready_rows cal policy now q r) \<Longrightarrow> \<exists>row \<in> set q. row_fp row = gi_fingerprint (qi_item x) \<and> fst row = x"
  by (auto dest!: ready_rows_subset simp: row_fp_def)

interpretation held: planner_invariant cal active policy groups lg now "held_quiet lg fp"
  for cal active policy groups lg now fp
proof unfold_locales
  fix s :: planner and r g and item :: group_item
  assume s: "held_quiet lg fp s" and
    "gi_fingerprint item \<notin> dom (pn_flap_holds s) \<or>
     gi_reason item = NrFlapping \<and> gi_fingerprint item \<in> fst ` set (pl_flap_holds (pn_plan s))"
  then have "gi_fingerprint item \<noteq> fp" by (auto simp: held_quiet_def)
  then have "row \<in> set (pn_queue s)"
    if "row \<in> set (fst (route cal r g item lg now (pn_queue s, pn_plan s)))" "row_fp row = fp" for row
    using routed_other [OF route_routed that(1)] that(2) by simp
  with s show "held_quiet lg fp (with_queue (route cal r g item lg now) s)"
    unfolding held_quiet_def with_queue_simps route_plan by blast
next
  fix s :: planner and r
  assume s: "held_quiet lg fp s"
  have "x \<in> set (lg_queue lg)"
    if "x \<in> set (ready_rows cal policy now (pn_queue s) r)" "gi_fingerprint (qi_item x) = fp" for x
    using ready_rows_fp [OF that(1)] that(2) s by (auto simp: held_quiet_def)
  with s show "held_quiet lg fp (with_queue (\<lambda>a. flush_channel cal policy lg now a r) s)"
    using flush_channel_outgoing [of _ cal policy lg now "pn_queue s" "pn_plan s" r]
      flush_channel_subset [of cal policy lg now "pn_queue s" "pn_plan s" r]
    unfolding held_quiet_def with_queue_simps flush_channel_simps(2) by blast
qed (auto simp: held_quiet_def)

interpretation gone: planner_invariant cal active policy groups lg now "held_gone fp"
  for cal active policy groups lg now fp
proof unfold_locales
  fix s :: planner and r g and item :: group_item
  assume s: "held_gone fp s" and
    "gi_fingerprint item \<notin> dom (pn_flap_holds s) \<or>
     gi_reason item = NrFlapping \<and> gi_fingerprint item \<in> fst ` set (pl_flap_holds (pn_plan s))"
  then have "gi_fingerprint item \<noteq> fp" by (auto simp: held_gone_def)
  then have "row \<in> set (pn_queue s)"
    if "row \<in> set (fst (route cal r g item lg now (pn_queue s, pn_plan s)))" "row_fp row = fp" for row
    using routed_other [OF route_routed that(1)] that(2) by simp
  with s show "held_gone fp (with_queue (route cal r g item lg now) s)"
    unfolding held_gone_def with_queue_simps route_plan by blast
next
  fix s :: planner and r
  assume s: "held_gone fp s"
  have "gi_fingerprint (qi_item x) \<noteq> fp" if "x \<in> set (ready_rows cal policy now (pn_queue s) r)" for x
    using ready_rows_fp [OF that] s by (auto simp: held_gone_def)
  with s show "held_gone fp (with_queue (\<lambda>a. flush_channel cal policy lg now a r) s)"
    using flush_channel_outgoing [of _ cal policy lg now "pn_queue s" "pn_plan s" r]
      flush_channel_subset [of cal policy lg now "pn_queue s" "pn_plan s" r]
    unfolding held_gone_def with_queue_simps flush_channel_simps(2) by blast
qed (auto simp: held_gone_def)

section \<open>Reaching an item\<close>

text \<open>From an invariant \<open>I0\<close>, the treatment of one item establishes \<open>I1\<close>, which then stays.\<close>

lemma reach_item:
  assumes "planner_pass cal active policy groups lg now I0" and "planner_pass cal active policy groups lg now I1"
    and "I0 s" and "g \<in> set groups" and "i \<in> set (ag_items g)"
    and "\<And>s. I0 s \<Longrightarrow> I1 (plan_item cal active
      (filter (\<lambda>r. ag_channels g = [] \<or> rc_id r \<in> set (ag_channels g)) active) policy lg now g s i)"
  shows "I1 (foldl (plan_group cal active policy lg now) s groups)"
proof -
  let ?targets = "filter (\<lambda>r. ag_channels g = [] \<or> rc_id r \<in> set (ag_channels g)) active"
  let ?item = "plan_item cal active ?targets policy lg now g"
  obtain gs1 gs2 where gs: "groups = gs1 @ g # gs2" using assms(4) by (auto simp: in_set_conv_decomp)
  obtain is1 is2 where items: "ag_items g = is1 @ i # is2" using assms(5) by (auto simp: in_set_conv_decomp)
  let ?s1 = "foldl (plan_group cal active policy lg now) s gs1"
  have "I0 ?s1" using assms(1,3) gs by (intro planner_pass.I_groups [OF assms(1)]) auto
  then have "I0 (foldl ?item ?s1 is1)"
    by (rule foldl_invariant [where P = I0]) (use planner_pass.I_item [OF assms(1)] assms(4) items in auto)
  then have "I1 (?item (foldl ?item ?s1 is1) i)" by (rule assms(6))
  then have "I1 (foldl ?item (?item (foldl ?item ?s1 is1) i) is2)"
    by (rule foldl_invariant [where P = I1]) (use planner_pass.I_item [OF assms(2)] assms(4) items in auto)
  then have "I1 (plan_group cal active policy lg now ?s1 g)" by (simp add: plan_group_def items Let_def)
  then have "I1 (foldl (plan_group cal active policy lg now) (plan_group cal active policy lg now ?s1 g) gs2)"
    using gs by (intro planner_pass.I_groups [OF assms(2)]) auto
  then show ?thesis by (simp add: gs)
qed

lemma run_plan_flush:
  assumes "planner_invariant cal (filter rc_enabled recipients) policy groups lg now I"
    and "I (foldl (plan_group cal (filter rc_enabled recipients) policy lg now) (planner_start lg now) groups)"
  shows "I (run_plan cal groups recipients policy lg now)"
  using planner_invariant.I_flushes [OF assms(1,2) subset_refl]
  by (simp add: run_plan_def flush_def [abs_def] Let_def)

section \<open>The flush\<close>

text \<open>A row that must leave unless the hourly cap is reached.\<close>

definition ripe :: "calendar \<Rightarrow> global_policy \<Rightarrow> instant \<Rightarrow> recipient \<Rightarrow> queued_item \<Rightarrow> bool" where
  "ripe cal policy now r x =
     (qi_channel_id x = rc_id r \<and>
      (case qi_hold x of
         HBatch \<Rightarrow> now - qi_queued_at x \<ge> channel_window r policy
       | HQuiet \<Rightarrow> \<not> in_quiet_hours cal (rc_policy r) now))"

lemma ripe_ready: "row \<in> set q \<Longrightarrow> ripe cal policy now r (fst row) \<Longrightarrow> fst row \<in> set (ready_rows cal policy now q r)"
  unfolding ready_rows_def Let_def set_filter
  by (auto simp: ripe_def list_ex_iff split: hold.splits)

lemma flush_channel_ripe:
  assumes "\<not> capped policy lg now r" and "row \<in> set (fst (flush_channel cal policy lg now (q, p) r))"
  shows "\<not> ripe cal policy now r (fst row)"
proof
  assume ripe: "ripe cal policy now r (fst row)"
  have "row \<in> set q" using assms(2) flush_channel_subset by blast
  from ripe_ready [OF this ripe] show False
    using assms by (auto simp: flush_channel_cases row_key_row_of split: if_splits)
qed

lemma flush_subset: "set (fst (foldl (flush_channel cal policy lg now) a rs)) \<subseteq> set (fst a)"
proof (induction rs arbitrary: a)
  case (Cons r rs)
  show ?case using Cons [of "flush_channel cal policy lg now a r"]
    flush_channel_subset [of cal policy lg now "fst a" "snd a" r] by simp
qed simp

lemma flush_ripe:
  assumes "r \<in> set rs" and "\<not> capped policy lg now r"
    and "row \<in> set (fst (foldl (flush_channel cal policy lg now) a rs))"
  shows "\<not> ripe cal policy now r (fst row)"
  using assms
proof (induction rs arbitrary: a)
  case (Cons r' rs)
  show ?case
  proof (cases "r = r'")
    case True
    have "row \<in> set (fst (flush_channel cal policy lg now a r'))"
      using Cons.prems(3) subsetD [OF flush_subset, of row cal policy lg now "flush_channel cal policy lg now a r'" rs]
      by simp
    with True Cons.prems(2) show ?thesis
      using flush_channel_ripe [of policy lg now r row cal "fst a" "snd a"] by simp
  qed (use Cons in auto)
qed simp

text \<open>Messages per channel.\<close>

definition sent_on :: "int \<Rightarrow> plan \<Rightarrow> outgoing list" where
  "sent_on c p = filter (\<lambda>og. og_channel_id og = c) (pl_outgoing p)"

lemma messages_of_filter:
  "filter (\<lambda>og. og_channel_id og = c) (messages_of r ready h now) =
     (if c = rc_id r then messages_of r ready h now else [])"
  using messages_of_channel by (fastforce simp: filter_empty_conv filter_id_conv)

lemma flush_channel_sent_on:
  "\<exists>ready h. sent_on c (snd (flush_channel cal policy lg now (q, p) r)) = sent_on c p @
     (if c = rc_id r \<and> \<not> capped policy lg now r \<and> ready \<noteq> [] then messages_of r ready h now else [])"
proof (cases "ready_rows cal policy now q r = [] \<or> capped policy lg now r")
  case True
  then show ?thesis by (intro exI [of _ "[]"]) (auto simp: flush_channel_cases sent_on_def)
next
  case False
  then show ?thesis
    by (intro exI [of _ "ready_rows cal policy now q r"]) (auto simp: flush_channel_cases sent_on_def messages_of_filter)
qed

lemma flush_sent_on:
  assumes "distinct (map rc_id rs)" and "r \<in> set rs"
  shows "\<exists>ready h. sent_on (rc_id r) (snd (foldl (flush_channel cal policy lg now) a rs)) =
     sent_on (rc_id r) (snd a) @ (if \<not> capped policy lg now r \<and> ready \<noteq> [] then messages_of r ready h now else [])"
proof -
  have other: "sent_on (rc_id r) (snd (foldl (flush_channel cal policy lg now) a rs)) = sent_on (rc_id r) (snd a)"
    if "rc_id r \<notin> rc_id ` set rs" for rs a
    using that
  proof (induction rs arbitrary: a)
    case (Cons r' rs)
    then show ?case
      using flush_channel_sent_on [of "rc_id r" cal policy lg now "fst a" "snd a" r'] by auto
  qed simp
  obtain rs1 rs2 where rs: "rs = rs1 @ r # rs2" using assms(2) by (auto simp: in_set_conv_decomp)
  let ?a = "foldl (flush_channel cal policy lg now) a rs1"
  from assms(1) rs have out: "rc_id r \<notin> rc_id ` set rs1" "rc_id r \<notin> rc_id ` set rs2" by auto
  obtain ready h where "sent_on (rc_id r) (snd (flush_channel cal policy lg now (fst ?a, snd ?a) r)) =
      sent_on (rc_id r) (snd ?a) @ (if rc_id r = rc_id r \<and> \<not> capped policy lg now r \<and> ready \<noteq> []
        then messages_of r ready h now else [])"
    using flush_channel_sent_on by blast
  then show ?thesis
    using other [OF out(1), of a] other [OF out(2)] by (auto simp: rs)
qed

section \<open>Quiet hours and holds\<close>

definition quiet_kept :: "calendar \<Rightarrow> recipient \<Rightarrow> instant \<Rightarrow> planner \<Rightarrow> bool" where
  "quiet_kept cal r now s =
     (\<forall>og \<in> set (pl_outgoing (pn_plan s)). og_channel_id og = rc_id r \<longrightarrow>
        (\<forall>x \<in> set (og_retry og). qi_hold x = HBatch))"

lemma ready_rows_quiet:
  "in_quiet_hours cal (rc_policy r) now \<Longrightarrow> x \<in> set (ready_rows cal policy now q r) \<Longrightarrow> qi_hold x = HBatch"
  by (auto simp: ready_rows_def Let_def split: hold.splits)

lemma quiet_invariant:
  assumes "in_quiet_hours cal (rc_policy r) now" and "\<And>r'. r' \<in> set active \<Longrightarrow> rc_id r' = rc_id r \<Longrightarrow> r' = r"
  shows "planner_invariant cal active policy groups lg now (quiet_kept cal r now)"
proof unfold_locales
  fix s :: planner and r'
  assume s: "quiet_kept cal r now s" and r': "r' \<in> set active"
  show "quiet_kept cal r now (with_queue (\<lambda>a. flush_channel cal policy lg now a r') s)"
    unfolding quiet_kept_def with_queue_simps
  proof (intro ballI impI)
    fix og x
    assume og: "og \<in> set (pl_outgoing (snd (flush_channel cal policy lg now (pn_queue s, pn_plan s) r')))"
      and id: "og_channel_id og = rc_id r" and x: "x \<in> set (og_retry og)"
    show "qi_hold x = HBatch"
    proof (cases "og \<in> set (pl_outgoing (pn_plan s))")
      case True
      with s id x show ?thesis by (simp add: quiet_kept_def)
    next
      case False
      with flush_channel_outgoing [OF og] id have "rc_id r' = rc_id r"
        "set (og_retry og) \<subseteq> set (ready_rows cal policy now (pn_queue s) r')" by auto
      with assms(2) [OF r'] x ready_rows_quiet [OF assms(1)] show ?thesis by auto
    qed
  qed
qed (auto simp: quiet_kept_def route_plan)

text \<open>The holds of a run are those that still run and those it created.\<close>

definition holds_known :: "ledger \<Rightarrow> instant \<Rightarrow> planner \<Rightarrow> bool" where
  "holds_known lg now s =
     (\<forall>fp \<in> dom (pn_flap_holds s).
        (\<exists>until. lg_flap_holds lg fp = Some until \<and> until > now) \<or> fp \<in> fst ` set (pl_flap_holds (pn_plan s)))"

interpretation holds: planner_invariant cal active policy groups lg now "holds_known lg now"
  for cal active policy groups lg now
  by unfold_locales (auto simp: holds_known_def route_plan)

lemma plan_fields [simp]:
  "pl_outgoing (notify_plan cal groups recipients policy lg now) = pl_outgoing (pn_plan (run_plan cal groups recipients policy lg now))"
  "pl_handled (notify_plan cal groups recipients policy lg now) = pl_handled (pn_plan (run_plan cal groups recipients policy lg now))"
  "pl_flap_holds (notify_plan cal groups recipients policy lg now) = pl_flap_holds (pn_plan (run_plan cal groups recipients policy lg now))"
  "pl_enqueue (notify_plan cal groups recipients policy lg now) = map fst (filter snd (pn_queue (run_plan cal groups recipients policy lg now)))"
  by (simp_all add: notify_plan_def Let_def)

lemma run_keys: "distinct (map row_of (lg_queue lg)) \<Longrightarrow> keys_unique (run_plan cal groups recipients policy lg now)"
  by (rule keys.I_run) (auto simp: keys_unique_def planner_start_def row_key_row_of o_def)

lemma run_provenance:
  "rows_admitted cal (filter rc_enabled recipients) policy groups lg now (run_plan cal groups recipients policy lg now)"
  by (rule provenance.I_run) (auto simp: rows_admitted_def planner_start_def plan_default_def)

lemma run_kept: "rows_kept lg (run_plan cal groups recipients policy lg now)"
  by (rule kept.I_run [OF _ refl])
    (force simp: rows_kept_def planner_start_def row_key_row_of)

lemma run_holds: "holds_known lg now (run_plan cal groups recipients policy lg now)"
  by (rule holds.I_run [OF _ refl])
    (auto simp: holds_known_def planner_start_def split: option.splits if_splits)

lemma run_pass_outgoing:
  "pl_outgoing (pn_plan (foldl (plan_group cal active policy lg now) (planner_start lg now) groups)) = []"
proof -
  have "planner_pass cal active policy groups lg now (\<lambda>s. pl_outgoing (pn_plan s) = [])"
    by unfold_locales (auto simp: route_plan)
  from planner_pass.I_groups [OF this, of "planner_start lg now" groups] show ?thesis
    by (simp add: planner_start_def plan_default_def)
qed

text \<open>An admitted row satisfies the settings of its channel.\<close>

lemma admitted_settings:
  assumes "admitted cal active policy groups lg now x"
  obtains r g where "r \<in> set active" "rc_id r = qi_channel_id x" "g \<in> set groups"
    "gi_reason (qi_item x) = NrUnacked \<and> map_option snd (escalation policy) = Some (rc_id r) \<or>
     gi_reason (qi_item x) \<noteq> NrUnacked \<and> cp_min_severity (rc_policy r) \<le> gi_severity (qi_item x) \<and>
     (ag_channels g = [] \<or> rc_id r \<in> set (ag_channels g)) \<and>
     matcher_accepts (cp_matcher (rc_policy r))
       \<lparr>mc_rule_uid = gi_rule_uid (qi_item x), mc_kind = ag_target_kind g, mc_tags = ag_target_tags g\<rparr>"
    "gi_reason (qi_item x) = NrResolved \<Longrightarrow> cp_notify_resolved (rc_policy r)"
    "gi_reason (qi_item x) = NrResolved \<or> gi_reason (qi_item x) = NrUnacked \<or>
     qi_hold x = (if in_quiet_hours cal (rc_policy r) now \<and> gi_severity (qi_item x) < Critical then HQuiet else HBatch)"
proof -
  from assms obtain r g item where w: "routable active policy groups r g item" "channel_refuses r g item = None"
    "qi_channel_id x = rc_id r"
    "qi_item x = item \<or> gi_reason item = NrReminder \<and> qi_item x = item\<lparr>gi_reason := NrFiring\<rparr>"
    "gi_reason item \<noteq> NrResolved \<Longrightarrow> qi_hold x = hold_for cal r item now"
    unfolding admitted_def by blast
  show ?thesis
    by (rule that [of r g])
      (use w in \<open>auto simp: routable_def channel_refuses_def hold_for_def Let_def not_less split: if_splits\<close>)
qed

end
