(* ===== verification/Notify_Guarantees.thy ===== *)
theory Notify_Guarantees
  imports Notify_Properties
begin

text \<open>
  The guarantees of the notification policy, over whole plans: who receives what, what waits,
  what leaves, how often, and the situations in which the plan does less than its
  documentation says. The lemmas are those of \<open>Notify_Properties\<close>.
\<close>

section \<open>A small installation\<close>

definition plain_channel :: "int \<Rightarrow> string \<Rightarrow> recipient" where
  "plain_channel c kind = \<lparr>rc_id = c, rc_kind = kind, rc_enabled = True, rc_policy = channel_policy_default\<rparr>"

text \<open>A channel that is quiet every day from midnight to midnight.\<close>

definition night_channel :: "int \<Rightarrow> recipient" where
  "night_channel c =
     (plain_channel c ''email'')\<lparr>rc_policy := channel_policy_default
        \<lparr>cp_quiet_hours := Some (Weekly [0, 1, 2, 3, 4, 5, 6] 0 1440 0 None)\<rparr>\<rparr>"

definition plain_item :: "string \<Rightarrow> notify_reason \<Rightarrow> severity \<Rightarrow> group_item" where
  "plain_item fp reason sev =
     \<lparr>gi_fingerprint = fp, gi_rule_uid = ''disk_full'', gi_rule_name = ''Disk'', gi_severity = sev,
      gi_reason = reason, gi_value = None, gi_score = None, gi_unit = [], gi_operator = ''>'',
      gi_threshold = Fin 90, gi_series_key = [], gi_since = None, gi_phase = EffFiring, gi_note = None\<rparr>"

definition plain_group :: "group_item list \<Rightarrow> alert_group" where
  "plain_group items = (empty_group (Some 1) ''nas'' 0)\<lparr>ag_items := items\<rparr>"

definition plain_row :: "int \<Rightarrow> target_id \<Rightarrow> hold \<Rightarrow> group_item \<Rightarrow> queued_item" where
  "plain_row c t h item =
     \<lparr>qi_id = Some 7, qi_channel_id = c, qi_target_id = Some t, qi_target_name = ''nas'', qi_hold = h,
      qi_item = item, qi_resolved_meanwhile = False, qi_queued_at = 0\<rparr>"

definition plain_ledger :: "queued_item list \<Rightarrow> ledger" where
  "plain_ledger rows = \<lparr>lg_queue = rows, lg_log = [], lg_flap_holds = Map.empty, lg_messages = []\<rparr>"

lemmas plain_eval =
  plain_channel_def night_channel_def plain_item_def plain_group_def plain_row_def plain_ledger_def
  channel_policy_default_def channel_matcher_default_def global_policy_default_def empty_group_def

section \<open>Properties\<close>

text \<open>
  the queue keeps one row per channel and fingerprint: from a queue without duplicates, the
  rows a plan writes have no duplicates, so each write replaces at most the row of its own key.
\<close>

theorem plan_queue_keys_unique:
  assumes "distinct (map row_of (lg_queue lg))"
  shows "distinct (map row_of (pl_enqueue (notify_plan cal groups recipients policy lg now)))"
  using run_keys [OF assms, of cal groups recipients policy now]
  by (simp add: keys_unique_def row_key_row_of [abs_def] distinct_map_filter o_def)

theorem plan_queue_keys_unique_witness:
  "distinct (map row_of (pl_enqueue (notify_plan spring_calendar
     [plain_group [plain_item ''f'' NrFiring Warning]] [plain_channel 1 ''email'', plain_channel 2 ''ntfy'']
     global_policy_default (plain_ledger []) 0)))"
  by (rule plan_queue_keys_unique) (simp add: plain_ledger_def)





text \<open>
  C32: the hourly cap holds. On a channel that is not an on-call service, the messages of the plan
  together with those of the last hour never exceed the cap, if they did not before; and a channel
  of any kind that has reached its cap sends nothing.
\<close>

theorem hourly_cap_respected:
  assumes "distinct (map rc_id recipients)" and "r \<in> set recipients" and "rc_enabled r"
    and "gp_max_per_hour policy > 0"
  shows "(\<not> is_oncall r \<and> sent_last_hour lg (rc_id r) now \<le> gp_max_per_hour policy \<longrightarrow>
       sent_last_hour lg (rc_id r) now +
         length (sent_on (rc_id r) (notify_plan cal groups recipients policy lg now)) \<le> gp_max_per_hour policy) \<and>
     (gp_max_per_hour policy \<le> sent_last_hour lg (rc_id r) now \<longrightarrow>
       sent_on (rc_id r) (notify_plan cal groups recipients policy lg now) = [])"
proof -
  let ?active = "filter rc_enabled recipients"
  let ?s = "foldl (plan_group cal ?active policy lg now) (planner_start lg now) groups"
  have "distinct (map rc_id ?active)" "r \<in> set ?active" using assms by (simp_all add: distinct_map_filter)
  then obtain ready h where "sent_on (rc_id r) (snd (foldl (flush_channel cal policy lg now) (pn_queue ?s, pn_plan ?s) ?active)) =
      sent_on (rc_id r) (pn_plan ?s) @ (if \<not> capped policy lg now r \<and> ready \<noteq> [] then messages_of r ready h now else [])"
    using flush_sent_on [of ?active r cal policy lg now "(pn_queue ?s, pn_plan ?s)"] by auto
  moreover have "sent_on (rc_id r) (pn_plan ?s) = []" by (simp add: sent_on_def run_pass_outgoing)
  moreover have "sent_on (rc_id r) (notify_plan cal groups recipients policy lg now) =
      sent_on (rc_id r) (snd (foldl (flush_channel cal policy lg now) (pn_queue ?s, pn_plan ?s) ?active))"
    by (simp add: sent_on_def run_plan_def flush_def [abs_def] Let_def)
  ultimately have "sent_on (rc_id r) (notify_plan cal groups recipients policy lg now) =
      (if \<not> capped policy lg now r \<and> ready \<noteq> [] then messages_of r ready h now else [])" by simp
  with assms(4) show ?thesis by (auto simp: capped_def messages_of_def)
qed

theorem hourly_cap_respected_witness:
  "length (sent_on 1 (notify_plan spring_calendar [] [plain_channel 1 ''email''] global_policy_default
     (plain_ledger [plain_row 1 1 HBatch (plain_item ''f'' NrFiring Warning)]) (seconds 60))) \<le> 20"
  using hourly_cap_respected [of "[plain_channel 1 ''email'']" "plain_channel 1 ''email''" global_policy_default
      "plain_ledger [plain_row 1 1 HBatch (plain_item ''f'' NrFiring Warning)]" "seconds 60" spring_calendar "[]"]
  by (simp add: plain_eval is_oncall_def ONCALL_KINDS_def DEFAULT_MAX_PER_HOUR_def sent_last_hour_def)

text \<open>
  quiet hours hold. While a channel is in its quiet hours, a row that leaves on it was not held
  for them; and each such row is critical, or a hand-off, or a resolution, or was already
  waiting, unchanged, in the grouping window.
\<close>

theorem quiet_hours_hold:
  assumes "distinct (map rc_id recipients)" and "r \<in> set recipients" and "rc_enabled r"
    and "in_quiet_hours cal (rc_policy r) now"
    and "og \<in> set (pl_outgoing (notify_plan cal groups recipients policy lg now))"
    and "og_channel_id og = rc_id r" and "x \<in> set (og_retry og)" and "qi_channel_id x = rc_id r"
  shows "qi_hold x = HBatch \<and>
     (gi_severity (qi_item x) = Critical \<or> gi_reason (qi_item x) \<in> {NrUnacked, NrResolved} \<or> x \<in> set (lg_queue lg))"
proof -
  let ?active = "filter rc_enabled recipients"
  have same: "r' = r" if "r' \<in> set ?active" "rc_id r' = rc_id r" for r'
    using assms(1,2) that by (auto simp: distinct_map inj_on_def)
  have "planner_invariant cal ?active policy groups lg now (quiet_kept cal r now)"
    using quiet_invariant [OF assms(4)] same by blast
  from planner_invariant.I_run [OF this _ refl]
  have "quiet_kept cal r now (run_plan cal groups recipients policy lg now)"
    by (simp add: quiet_kept_def planner_start_def plan_default_def)
  with assms(5-7) have batch: "qi_hold x = HBatch" by (simp add: quiet_kept_def)
  have "x \<in> set (lg_queue lg) \<or> admitted cal ?active policy groups lg now x"
    using assms(5,7) run_provenance [of cal recipients policy groups lg now] by (auto simp: rows_admitted_def)
  then show ?thesis
  proof
    assume "admitted cal ?active policy groups lg now x"
    then show ?thesis
    proof (rule admitted_settings)
      fix r' g
      assume r': "r' \<in> set ?active" "rc_id r' = qi_channel_id x"
        and hold: "gi_reason (qi_item x) = NrResolved \<or> gi_reason (qi_item x) = NrUnacked \<or>
          qi_hold x = (if in_quiet_hours cal (rc_policy r') now \<and> gi_severity (qi_item x) < Critical
            then HQuiet else HBatch)"
      have "r' = r" using same r' assms(8) by simp
      with hold batch assms(4) have "gi_reason (qi_item x) \<in> {NrUnacked, NrResolved} \<or> \<not> gi_severity (qi_item x) < Critical"
        by (auto split: if_splits)
      moreover have "\<not> sev < Critical \<longleftrightarrow> sev = Critical" for sev by (cases sev) auto
      ultimately show ?thesis using batch by auto
    qed
  qed (use batch in simp)
qed

theorem quiet_hours_hold_witness:
  "\<exists>og x. og \<in> set (pl_outgoing (notify_plan spring_calendar [plain_group [plain_item ''f'' NrFiring Critical]]
        [night_channel 1] (global_policy_default\<lparr>gp_batch_window_secs := 0\<rparr>) (plain_ledger []) (days 2))) \<and>
     x \<in> set (og_retry og) \<and> qi_hold x = HBatch \<and> gi_severity (qi_item x) = Critical"
proof -
  let ?policy = "global_policy_default\<lparr>gp_batch_window_secs := 0\<rparr>"
  let ?groups = "[plain_group [plain_item ''f'' NrFiring Critical]]"
  let ?p = "notify_plan spring_calendar ?groups [night_channel 1] ?policy (plain_ledger []) (days 2)"
  have ev: "map (\<lambda>og. (og_channel_id og, map (\<lambda>x. (qi_channel_id x, gi_reason (qi_item x))) (og_retry og)))
      (pl_outgoing ?p) = [(1, [(1, NrFiring)])]" by code_simp
  have quiet: "in_quiet_hours spring_calendar (rc_policy (night_channel 1)) (days 2)" by code_simp
  from ev obtain og x where og: "pl_outgoing ?p = [og]" "og_channel_id og = 1" "og_retry og = [x]"
    "qi_channel_id x = 1" "gi_reason (qi_item x) = NrFiring" by (auto simp: map_eq_Cons_conv)
  have "qi_hold x = HBatch \<and> (gi_severity (qi_item x) = Critical \<or>
      gi_reason (qi_item x) \<in> {NrUnacked, NrResolved} \<or> x \<in> set (lg_queue (plain_ledger [])))"
    by (rule quiet_hours_hold [where recipients = "[night_channel 1]" and r = "night_channel 1" and
          cal = spring_calendar and now = "days 2" and og = og and groups = ?groups and policy = ?policy])
      (use og quiet in \<open>simp_all add: night_channel_def plain_channel_def del: plan_fields\<close>)
  with og show ?thesis by (auto simp: plain_ledger_def simp del: plan_fields)
qed

text \<open>
  a fingerprint held for flapping adds nothing: while the hold runs, no row of the fingerprint
  is created or changed. And as soon as the fingerprint occurs in the groups of a cycle, nothing of it
  leaves any more and nothing of it remains in the queue.
\<close>

theorem held_fingerprint_adds_nothing:
  assumes "lg_flap_holds lg fp = Some until" and "until > now"
  shows "(\<forall>x \<in> set (pl_enqueue (notify_plan cal groups recipients policy lg now)). gi_fingerprint (qi_item x) \<noteq> fp) \<and>
     (\<forall>og \<in> set (pl_outgoing (notify_plan cal groups recipients policy lg now)). \<forall>x \<in> set (og_retry og).
        gi_fingerprint (qi_item x) = fp \<longrightarrow>
          x \<in> set (lg_queue lg) \<and> (\<forall>g \<in> set groups. \<forall>i \<in> set (ag_items g). gi_fingerprint i \<noteq> fp))"
proof -
  let ?active = "filter rc_enabled recipients"
  let ?s = "run_plan cal groups recipients policy lg now"
  have start: "held_quiet lg fp (planner_start lg now)"
    using assms by (auto simp: held_quiet_def planner_start_def plan_default_def)
  have quiet: "held_quiet lg fp ?s" by (rule held.I_run [OF start refl])
  have gone: "held_gone fp ?s" if "g \<in> set groups" "i \<in> set (ag_items g)" "gi_fingerprint i = fp" for g i
  proof (rule run_plan_flush [OF gone.planner_invariant_axioms])
    have step: "held_gone fp (plan_item cal ?active targets policy lg now g s i)"
      if "held_quiet lg fp s \<and> pl_outgoing (pn_plan s) = []" for s targets
      using that \<open>gi_fingerprint i = fp\<close>
      by (auto simp: held_quiet_def held_gone_def plan_item_def Let_def)
    have pass: "planner_pass cal ?active policy groups lg now (\<lambda>s. held_quiet lg fp s \<and> pl_outgoing (pn_plan s) = [])"
      by (intro planner_pass.intro conjI)
        (auto intro: held.I_intake held.I_note held.I_wait held.I_flap held.I_purge held.I_route simp: route_plan)
    show "held_gone fp (foldl (plan_group cal ?active policy lg now) (planner_start lg now) groups)"
      by (rule reach_item [OF pass gone.planner_pass_axioms _ that(1,2) step])
        (use start in \<open>auto simp: planner_start_def plan_default_def\<close>)
  qed
  have "gi_fingerprint (qi_item x) \<noteq> fp" if "x \<in> set (pl_enqueue (notify_plan cal groups recipients policy lg now))" for x
    using that quiet by (auto simp: held_quiet_def row_fp_def)
  moreover have "x \<in> set (lg_queue lg) \<and> (\<forall>g \<in> set groups. \<forall>i \<in> set (ag_items g). gi_fingerprint i \<noteq> fp)"
    if "og \<in> set (pl_outgoing (pn_plan ?s))" "x \<in> set (og_retry og)" "gi_fingerprint (qi_item x) = fp" for og x
    using that quiet gone unfolding held_quiet_def held_gone_def by blast
  ultimately show ?thesis by auto
qed

theorem held_fingerprint_adds_nothing_witness:
  "list_all (\<lambda>x. gi_fingerprint (qi_item x) \<noteq> ''f'')
     (pl_enqueue (notify_plan spring_calendar [plain_group [plain_item ''f'' NrFiring Warning]]
       [plain_channel 1 ''email''] global_policy_default
       ((plain_ledger [])\<lparr>lg_flap_holds := [''f'' \<mapsto> 10]\<rparr>) 5))"
  using held_fingerprint_adds_nothing [where lg = "(plain_ledger [])\<lparr>lg_flap_holds := [''f'' \<mapsto> 10]\<rparr>" and
      fp = "''f''" and until = 10 and now = 5]
  by (simp add: list_all_iff del: plan_fields)

text \<open>
  everything the cycle said is accounted for: each line of each group is marked handled by the
  plan, so that the next cycle does not present it again, unless its hand-off must wait because
  nobody was told yet, or not for long enough.
\<close>

theorem lines_handled_or_waiting:
  assumes "g \<in> set groups" and "i \<in> set (ag_items g)"
  shows "gi_fingerprint i \<in> pl_handled (notify_plan cal groups recipients policy lg now) \<or>
     waiting policy lg now (gi_fingerprint i)"
proof -
  let ?fp = "gi_fingerprint i"
  let ?active = "filter rc_enabled recipients"
  have pass: "planner_pass cal ?active policy groups lg now (\<lambda>s. True)" by unfold_locales simp_all
  have step: "handled_or_waiting policy lg now ?fp (plan_item cal ?active
      (filter (\<lambda>r. ag_channels g = [] \<or> rc_id r \<in> set (ag_channels g)) ?active) policy lg now g s i)" for s
  proof -
    let ?s = "s\<lparr>pn_plan := (pn_plan s)\<lparr>pl_handled := insert ?fp (pl_handled (pn_plan s))\<rparr>\<rparr>"
    have same: "intake_step i now s = intake_step i now ?s" by (simp add: intake_step_def Let_def)
    have "handled_or_waiting policy lg now ?fp ?s" by (simp add: handled_or_waiting_def)
    from handled.I_item [where groups = "[g]" and cal = cal and active = ?active, OF this _ assms(2)]
    show ?thesis by (simp add: plan_item_def same [symmetric] Let_def del: filter_filter)
  qed
  have "handled_or_waiting policy lg now ?fp (run_plan cal groups recipients policy lg now)"
    by (rule run_plan_flush [OF handled.planner_invariant_axioms],
        rule reach_item [OF pass handled.planner_pass_axioms _ assms step]) simp
  then show ?thesis by (simp add: handled_or_waiting_def)
qed

theorem lines_handled_or_waiting_witness:
  "''f'' \<in> pl_handled (notify_plan spring_calendar [plain_group [plain_item ''f'' NrFiring Warning]]
     [plain_channel 1 ''email''] global_policy_default (plain_ledger []) 5)"
proof -
  let ?i = "plain_item ''f'' NrFiring Warning"
  have "\<not> waiting global_policy_default (plain_ledger []) 5 ''f''"
    by (simp add: waiting_def escalation_def global_policy_default_def)
  moreover have "gi_fingerprint ?i = ''f''" by (simp add: plain_item_def)
  ultimately show ?thesis
    using lines_handled_or_waiting [where g = "plain_group [?i]" and i = ?i and groups = "[plain_group [?i]]"
        and policy = global_policy_default and lg = "plain_ledger []" and now = 5]
    by (simp add: plain_group_def del: plan_fields)
qed

section \<open>Messages\<close>

lemma add_queued_fold:
  "foldl (\<lambda>v q. Some (add_queued now q v)) (Some g) qs =
     Some (g\<lparr>ag_severity := foldl max (ag_severity g) (map (gi_severity \<circ> qi_item) qs),
             ag_items := ag_items g @ map qi_item qs\<rparr>)"
  by (induction qs arbitrary: g) (simp_all add: add_queued_def Let_def)

lemma add_queued_None:
  "ag_target_id (add_queued now q None) = qi_target_id q" "ag_items (add_queued now q None) = [qi_item q]"
  by (simp_all add: add_queued_def empty_group_def Let_def)

lemma add_queued_target:
  assumes "foldl (\<lambda>v q. Some (add_queued now q v)) None (filter (\<lambda>q. qi_target_id q = t) qs) = Some g"
  shows "ag_target_id g = t \<and> ag_items g = map qi_item (filter (\<lambda>q. qi_target_id q = t) qs)"
proof (cases "filter (\<lambda>q. qi_target_id q = t) qs")
  case Nil
  with assms show ?thesis by simp
next
  case (Cons q rest)
  then have "qi_target_id q = t" by (auto simp: filter_eq_Cons_iff)
  with assms Cons show ?thesis by (auto simp: add_queued_fold add_queued_None)
qed

text \<open>
  a message says exactly what it was built from. The lines of its devices together with those
  resolved while waiting are the lines of its rows, each as often as it occurs; there is one
  section per device; what is recorded as sent and what is put back on failure are the same rows.
\<close>

theorem message_says_its_rows:
  "let og = outgoing_of c items h now
   in mset (concat (map ag_items (dg_groups (og_digest og)))) + mset (map snd (dg_resolved_meanwhile (og_digest og))) =
        mset (map qi_item items) \<and>
      distinct (map ag_target_id (dg_groups (og_digest og))) \<and>
      og_sent og = map (\<lambda>q. (gi_fingerprint (qi_item q), gi_reason (qi_item q))) (og_retry og) \<and>
      og_retry og = items"
proof -
  let ?shown = "filter (\<lambda>q. \<not> qi_resolved_meanwhile q) items"
  let ?m = "foldl (\<lambda>m q. bt_update (qi_target_id q) (add_queued now q) m) [] ?shown"
  let ?fin = "\<lambda>g. g\<lparr>ag_items := sort_items (ag_items g)\<rparr>"
  have fold: "bt_wf ?m"
    "map_of ?m t = foldl (\<lambda>v q. Some (add_queued now q v)) None (filter (\<lambda>q. qi_target_id q = t) ?shown)"
    "fst ` set ?m = qi_target_id ` set ?shown" for t
    using bt_fold [of "[] :: (target_id option \<times> alert_group) list" qi_target_id "add_queued now" ?shown t] by auto
  have entry: "ag_target_id g = t" "ag_items g = map qi_item (filter (\<lambda>q. qi_target_id q = t) ?shown)"
    if "(t, g) \<in> set ?m" for t g
    using bt.entries_in [OF fold(1)] that fold(2) [of t] add_queued_target [of now t ?shown g] by auto
  have "map ag_target_id (map ?fin (map snd ?m)) = map fst ?m"
    using entry(1) by auto
  then have targets: "distinct (map ag_target_id (sort_groups (map ?fin (map snd ?m))))"
    unfolding sort_groups_def distinct_map_sort_key using bt.entries_distinct [OF fold(1)] by (simp only:)
  have "mset (concat (map ag_items (sort_groups (map ?fin (map snd ?m))))) =
      mset (concat (map (\<lambda>p. sort_items (ag_items (snd p))) ?m))"
    unfolding sort_groups_def mset_concat_sort_key by (simp add: o_def)
  also have "\<dots> = mset (concat (map (\<lambda>p. map qi_item (filter (\<lambda>q. qi_target_id q = fst p) ?shown)) ?m))"
    by (rule mset_concat_cong) (auto simp: sort_items_def entry(2))
  also have "\<dots> = mset (map qi_item (concat (map (\<lambda>t. filter (\<lambda>q. qi_target_id q = t) ?shown) (map fst ?m))))"
    by (simp add: map_concat o_def)
  also have "\<dots> = mset (map qi_item ?shown)"
    unfolding mset_map by (subst mset_partition) (use fold(3) bt.entries_distinct [OF fold(1)] in auto)
  finally have lines: "mset (concat (map ag_items (sort_groups (map ?fin (map snd ?m))))) = mset (map qi_item ?shown)" .
  have "mset (map qi_item ?shown) + mset (map qi_item (filter qi_resolved_meanwhile items)) = mset (map qi_item items)"
    using multiset_partition [of "mset items" qi_resolved_meanwhile]
    by (simp add: add.commute flip: image_mset_union)
  then show ?thesis
    using lines targets by (simp add: outgoing_of_def Let_def o_def multiset.map_comp)
qed

section \<open>Where the plan does less than it says\<close>

text \<open>
  the notice that an alert is flapping can be lost. The notice waits in the grouping window like
  any row; when the alert changes again before the window is over, the hold purges it from the
  queue, and the channel is told nothing at all for the whole hold.
\<close>

theorem flapping_notice_lost:
  "let lg = (plain_ledger [plain_row 1 1 HBatch (plain_item ''f'' NrFlapping Warning)])
              \<lparr>lg_flap_holds := [''f'' \<mapsto> seconds 1800]\<rparr>;
       p = notify_plan spring_calendar [plain_group [plain_item ''f'' NrFiring Warning]]
             [plain_channel 1 ''email''] global_policy_default lg (seconds 30)
   in pl_outgoing p = [] \<and> pl_enqueue p = [] \<and> pl_dequeue p = [7] \<and> ''f'' \<in> pl_handled p"
  by code_simp

text \<open>
  an on-call channel can exceed its hourly cap: the cap is tested once per channel, and one
  message per device is then sent.
\<close>

theorem oncall_exceeds_hourly_cap:
  "let p = notify_plan spring_calendar [] [plain_channel 1 ''pagerduty'']
             (global_policy_default\<lparr>gp_max_per_hour := 1\<rparr>)
             (plain_ledger [plain_row 1 1 HBatch (plain_item ''f'' NrFiring Warning),
                            plain_row 1 2 HBatch (plain_item ''g'' NrFiring Warning)]) (seconds 60)
   in length (sent_on 1 p) = 2"
  by code_simp

text \<open>
  a row that waits in the grouping window when quiet hours begin leaves during them, although
  it is not critical.
\<close>

theorem batch_leaves_in_quiet_hours:
  "let p = notify_plan spring_calendar [] [night_channel 1] global_policy_default
             (plain_ledger [plain_row 1 1 HBatch (plain_item ''f'' NrFiring Info)]) (seconds 60)
   in in_quiet_hours spring_calendar (rc_policy (night_channel 1)) (seconds 60) \<and>
      map og_sent (pl_outgoing p) = [[(''f'', NrFiring)]]"
  by code_simp

text \<open>
  a hand-off can overtake the first announcement. The delay of the hand-off is counted from the
  oldest message of the ledger about the fingerprint, which may belong to an earlier episode: here
  that episode was announced and resolved, the announcement of the new one still waits in quiet
  hours, and the escalation channel is told at once.
\<close>

theorem handoff_overtakes_announcement:
  "let sent = \<lambda>reason t. \<lparr>le_channel_id = 1, le_fingerprint = ''f'', le_reason = reason, le_at = t\<rparr>;
       lg = (plain_ledger [plain_row 1 1 HQuiet (plain_item ''f'' NrFiring Warning)])
              \<lparr>lg_log := [sent NrFiring 0, sent NrResolved (seconds 60)]\<rparr>;
       p = notify_plan spring_calendar [plain_group [plain_item ''f'' NrUnacked Warning]]
             [night_channel 1, plain_channel 2 ''pagerduty'']
             (global_policy_default\<lparr>gp_escalate_after_secs := 900, gp_escalate_channel := Some 2\<rparr>) lg (seconds 3000)
   in map (\<lambda>og. (og_channel_id og, og_sent og)) (pl_outgoing p) = [(2, [(''f'', NrUnacked)])]"
  by code_simp

end
