(* ===== verification/Policy_Store.thy ===== *)
theory Policy_Store
  imports Notify_Guarantees
begin

text \<open>
  The tables of the notification policy (\<^verbatim>\<open>crates/server/src/notify/policy_store.rs\<close>): the queue,
  the log of what was sent, the messages of the last hour, the flap holds, and the overrides. Each
  function of the file is one operation on the record \<open>notify_db\<close>; a transaction is the composition of its
  statements. A queued line is stored as JSON: reading back what was written is the parameter \<open>js\<close>,
  \<open>None\<close> when the text cannot be read. Reasons and holds are stored as their names; the tables of the
  model hold the values themselves, which \<open>hold_roundtrip\<close> and \<open>notify_reason_roundtrip\<close> justify.
\<close>

section \<open>Tables\<close>

text \<open>
  Times are stored as RFC 3339 text with milliseconds: what is read back is the time cut to
  the millisecond, and the order of the texts is the order of these times.
\<close>

definition to_sql :: "instant \<Rightarrow> instant" where
  "to_sql t = t - t mod 1000000"

record notify_db =
  nd_queue :: "queued_item list"
  nd_next_id :: int
  nd_log :: "log_entry list"
  nd_flap :: "string \<rightharpoonup> instant"
  nd_messages :: "(int \<times> nat \<times> instant) list"

definition notify_db_empty :: notify_db where
  "notify_db_empty = \<lparr>nd_queue = [], nd_next_id = 1, nd_log = [], nd_flap = Map.empty, nd_messages = []\<rparr>"

section \<open>Overrides\<close>

type_synonym override_table = "(string \<times> target_id, rule_override) btree_map"

definition delete_override :: "override_table \<Rightarrow> string \<Rightarrow> target_id \<Rightarrow> override_table \<times> bool" where
  "delete_override tab uid target =
     (filter (\<lambda>(k, _). k \<noteq> (uid, target)) tab, list_ex (\<lambda>(k, _). k = (uid, target)) tab)"

definition upsert_override :: "override_table \<Rightarrow> rule_override \<Rightarrow> override_table" where
  "upsert_override tab over =
     (if override_is_empty over then fst (delete_override tab (ro_rule_uid over) (ro_target_id over))
      else bt_insert (ro_rule_uid over, ro_target_id over) over tab)"

definition list_overrides ::
  "override_table \<Rightarrow> string option \<Rightarrow> target_id option \<Rightarrow> rule_override list" where
  "list_overrides tab uid target =
     map snd (filter (\<lambda>(k, _). (uid = None \<or> uid = Some (fst k)) \<and> (target = None \<or> target = Some (snd k))) tab)"

section \<open>Loading\<close>

definition floor_hour :: "timedelta \<Rightarrow> timedelta" where
  "floor_hour lb = max lb (seconds LEDGER_HOUR_SECS)"

text \<open>\<^verbatim>\<open>ORDER BY queued_at, id\<close>.\<close>

definition queue_order :: "queued_item \<Rightarrow> int \<times> int" where
  "queue_order q = (qi_queued_at q, case qi_id q of None \<Rightarrow> 0 | Some i \<Rightarrow> i)"

definition load_ledger ::
  "(group_item \<Rightarrow> group_item option) \<Rightarrow> notify_db \<Rightarrow> instant \<Rightarrow> timedelta \<Rightarrow> ledger" where
  "load_ledger js db now lb =
     \<lparr>lg_queue = List.map_filter (\<lambda>q. map_option (\<lambda>item. q\<lparr>qi_item := item\<rparr>) (js (qi_item q)))
        (sort_key queue_order (nd_queue db)),
      lg_log = filter (\<lambda>e. le_at e > to_sql (now - floor_hour lb)) (nd_log db),
      lg_flap_holds = (\<lambda>fp. case nd_flap db fp of
          None \<Rightarrow> None | Some until \<Rightarrow> if until > to_sql now then Some until else None),
      lg_messages = map (\<lambda>(c, _, t). (c, t))
        (filter (\<lambda>(c, _, t). t > to_sql (now - seconds LEDGER_HOUR_SECS)) (nd_messages db))\<rparr>"

section \<open>Writing\<close>

definition delete_queued :: "int \<Rightarrow> notify_db \<Rightarrow> notify_db" where
  "delete_queued i db = db\<lparr>nd_queue := filter (\<lambda>q. qi_id q \<noteq> Some i) (nd_queue db)\<rparr>"

text \<open>\<^verbatim>\<open>INSERT .. ON CONFLICT(channel_id, fingerprint) DO UPDATE\<close>: the row keeps its id.\<close>

definition upsert_queued :: "queued_item \<Rightarrow> notify_db \<Rightarrow> notify_db" where
  "upsert_queued item db =
     (let item = item\<lparr>qi_queued_at := to_sql (qi_queued_at item)\<rparr>
      in if list_ex (\<lambda>q. row_of q = row_of item) (nd_queue db)
         then db\<lparr>nd_queue := map (\<lambda>q. if row_of q = row_of item then item\<lparr>qi_id := qi_id q\<rparr> else q) (nd_queue db)\<rparr>
         else db\<lparr>nd_queue := nd_queue db @ [item\<lparr>qi_id := Some (nd_next_id db)\<rparr>],
                 nd_next_id := nd_next_id db + 1\<rparr>)"

definition insert_log :: "log_entry \<Rightarrow> notify_db \<Rightarrow> notify_db" where
  "insert_log e db = db\<lparr>nd_log := nd_log db @ [e\<lparr>le_at := to_sql (le_at e)\<rparr>]\<rparr>"

definition set_flap_hold :: "string \<times> instant \<Rightarrow> notify_db \<Rightarrow> notify_db" where
  "set_flap_hold h db = db\<lparr>nd_flap := (nd_flap db)(fst h \<mapsto> to_sql (snd h))\<rparr>"

definition apply_plan :: "plan \<Rightarrow> notify_db \<Rightarrow> notify_db" where
  "apply_plan p db =
     fold insert_log (pl_intake p)
       (fold set_flap_hold (pl_flap_holds p)
         (fold upsert_queued (pl_enqueue p)
           (fold delete_queued (pl_dequeue p) db)))"

definition record_sent ::
  "int \<Rightarrow> int list \<Rightarrow> (string \<times> notify_reason) list \<Rightarrow> instant \<Rightarrow> notify_db \<Rightarrow> notify_db" where
  "record_sent channel queue_ids sent now db =
     (let db = fold delete_queued queue_ids db;
          db = db\<lparr>nd_messages := nd_messages db @ [(channel, length sent, to_sql now)]\<rparr>
      in fold (\<lambda>(fp, reason). insert_log
           \<lparr>le_channel_id = channel, le_fingerprint = fp, le_reason = reason, le_at = now\<rparr>) sent db)"

text \<open>Each item comes with \<^verbatim>\<open>Utc::now()\<close> as it is read for it, after the delivery has failed.\<close>

definition requeue :: "(queued_item \<times> instant) list \<Rightarrow> timedelta \<Rightarrow> notify_db \<Rightarrow> notify_db" where
  "requeue items window db =
     fold (\<lambda>(item, wall). upsert_queued (item\<lparr>qi_queued_at := min (qi_queued_at item) (wall - window)\<rparr>)) items db"

definition purge_ledger :: "instant \<Rightarrow> timedelta \<Rightarrow> notify_db \<Rightarrow> notify_db" where
  "purge_ledger now lb db =
     db\<lparr>nd_log := filter (\<lambda>e. \<not> le_at e < to_sql (now - floor_hour lb)) (nd_log db),
        nd_messages := filter (\<lambda>(_, _, t). \<not> t < to_sql (now - seconds LEDGER_HOUR_SECS)) (nd_messages db),
        nd_flap := (\<lambda>fp. case nd_flap db fp of
            None \<Rightarrow> None | Some until \<Rightarrow> if until < to_sql now then None else Some until)\<rparr>"

text \<open>The channels of the map, as the list of its policies; saturation on \<^verbatim>\<open>i64\<close> is out of reach of
  \<^verbatim>\<open>u32\<close> delays.\<close>

definition lookback :: "global_policy \<Rightarrow> channel_policy list \<Rightarrow> timedelta" where
  "lookback global channels =
     (let longest_interval = fold max (map cp_min_interval_secs channels) 0
      in seconds (fold max
           [int (gp_flap_window_secs global), int longest_interval,
            int (gp_escalate_after_secs global) + LEDGER_HOUR_SECS] LEDGER_HOUR_SECS))"

text \<open>The queue's part of \<^verbatim>\<open>set_ack\<close> and \<^verbatim>\<open>forget_target\<close> (\<^verbatim>\<open>db/alerts.rs\<close>).\<close>

definition dequeue_acked :: "string \<Rightarrow> notify_db \<Rightarrow> notify_db" where
  "dequeue_acked fp db =
     db\<lparr>nd_queue := filter (\<lambda>q. \<not> (gi_fingerprint (qi_item q) = fp \<and> \<not> qi_resolved_meanwhile q)) (nd_queue db)\<rparr>"

definition dequeue_target :: "target_id \<Rightarrow> notify_db \<Rightarrow> notify_db" where
  "dequeue_target target db = db\<lparr>nd_queue := filter (\<lambda>q. qi_target_id q \<noteq> Some target) (nd_queue db)\<rparr>"

section \<open>Invariant of the tables\<close>

definition notify_db_wf :: "notify_db \<Rightarrow> bool" where
  "notify_db_wf db =
     (distinct (map row_of (nd_queue db)) \<and> distinct (map qi_id (nd_queue db)) \<and>
      (\<forall>q \<in> set (nd_queue db). \<exists>i. qi_id q = Some i \<and> i < nd_next_id db))"

inductive notify_step :: "notify_db \<Rightarrow> notify_db \<Rightarrow> bool" where
  step_plan: "notify_step db (apply_plan p db)"
| step_sent: "notify_step db (record_sent c ids sent now db)"
| step_requeue: "notify_step db (requeue items window db)"
| step_purge: "notify_step db (purge_ledger now lb db)"
| step_acked: "notify_step db (dequeue_acked fp db)"
| step_target: "notify_step db (dequeue_target t db)"

inductive_cases notify_stepE: "notify_step db db'"

lemma hold_roundtrip [simp]: "hold_parse (hold_as_str h) = h"
  by (cases h) (simp_all add: hold_parse_def)

lemma notify_db_wf_filter: "notify_db_wf db \<Longrightarrow> notify_db_wf (db\<lparr>nd_queue := filter P (nd_queue db)\<rparr>)"
  by (auto simp: notify_db_wf_def distinct_map_filter)

lemma row_of_update [simp]:
  "row_of (q\<lparr>qi_id := i\<rparr>) = row_of q" "row_of (q\<lparr>qi_queued_at := t\<rparr>) = row_of q"
  by (simp_all add: row_of_def)

lemma notify_db_wf_upsert: "notify_db_wf db \<Longrightarrow> notify_db_wf (upsert_queued item db)"
proof -
  assume wf: "notify_db_wf db"
  let ?item = "item\<lparr>qi_queued_at := to_sql (qi_queued_at item)\<rparr>"
  let ?upd = "\<lambda>q. if row_of q = row_of ?item then ?item\<lparr>qi_id := qi_id q\<rparr> else q"
  show ?thesis
  proof (cases "list_ex (\<lambda>q. row_of q = row_of ?item) (nd_queue db)")
    case True
    have keys: "map (row_of \<circ> ?upd) (nd_queue db) = map row_of (nd_queue db)"
      "map (qi_id \<circ> ?upd) (nd_queue db) = map qi_id (nd_queue db)" by auto
    from wf have d: "distinct (map (row_of \<circ> ?upd) (nd_queue db))" "distinct (map (qi_id \<circ> ?upd) (nd_queue db))"
      unfolding keys by (simp_all add: notify_db_wf_def)
    have "upsert_queued item db = db\<lparr>nd_queue := map ?upd (nd_queue db)\<rparr>"
      using True by (simp add: upsert_queued_def)
    with d wf show ?thesis by (auto simp: notify_db_wf_def)
  next
    case False
    with wf show ?thesis
      by (fastforce simp: upsert_queued_def notify_db_wf_def Let_def list_ex_iff)
  qed
qed

lemma notify_db_wf_fold:
  "notify_db_wf db \<Longrightarrow> (\<And>x db. notify_db_wf db \<Longrightarrow> notify_db_wf (f x db)) \<Longrightarrow> notify_db_wf (fold f xs db)"
  by (induction xs arbitrary: db) simp_all

lemma notify_db_wf_other:
  "notify_db_wf db \<Longrightarrow> notify_db_wf (delete_queued i db)"
  "notify_db_wf db \<Longrightarrow> notify_db_wf (insert_log e db)"
  "notify_db_wf db \<Longrightarrow> notify_db_wf (set_flap_hold h db)"
  by (simp_all add: delete_queued_def insert_log_def set_flap_hold_def notify_db_wf_filter)
    (simp_all add: notify_db_wf_def)

lemma notify_db_wf_messages: "notify_db_wf (db\<lparr>nd_messages := m\<rparr>) = notify_db_wf db"
  by (simp add: notify_db_wf_def)

interpretation notify_machine: invariant_machine "\<lambda>db. db = notify_db_empty" notify_step notify_db_wf
proof
  fix db db'
  assume wf: "notify_db_wf db" and "notify_step db db'"
  from this(2) show "notify_db_wf db'"
    by cases
      (use wf in \<open>auto simp: apply_plan_def record_sent_def requeue_def dequeue_acked_def dequeue_target_def
          notify_db_wf_messages Let_def split: prod.splits
        intro!: notify_db_wf_fold notify_db_wf_other notify_db_wf_upsert notify_db_wf_filter\<close>,
       simp add: purge_ledger_def notify_db_wf_def)
qed (simp add: notify_db_empty_def notify_db_wf_def)

section \<open>Times\<close>

lemma to_sql_mono: "s \<le> t \<Longrightarrow> to_sql s \<le> to_sql t"
proof -
  have "to_sql t = t div 1000000 * 1000000" for t by (simp add: to_sql_def minus_mod_eq_div_mult)
  then show "s \<le> t \<Longrightarrow> to_sql s \<le> to_sql t" by (simp add: zdiv_mono1)
qed

lemma to_sql_bounds: "to_sql t \<le> t" "t < to_sql t + 1000000"
  using pos_mod_sign [of 1000000 t] pos_mod_bound [of 1000000 t] by (simp_all add: to_sql_def)

lemma to_sql_idem [simp]: "to_sql (to_sql t) = to_sql t"
  by (simp add: to_sql_def mod_diff_left_eq [symmetric])

section \<open>The queue after the writes\<close>

definition queue_row :: "notify_db \<Rightarrow> int \<times> string \<Rightarrow> queued_item option" where
  "queue_row db k = map_of (map (\<lambda>q. (row_of q, q)) (nd_queue db)) k"

lemma queue_row_Some: "notify_db_wf db \<Longrightarrow> queue_row db k = Some q \<longleftrightarrow> q \<in> set (nd_queue db) \<and> row_of q = k"
  by (auto simp: queue_row_def notify_db_wf_def map_of_eq_Some_iff o_def)

lemma upsert_queued_row:
  assumes "notify_db_wf db"
  shows "q \<in> set (nd_queue (upsert_queued item db)) \<longleftrightarrow>
    (if row_of q = row_of item
     then q = item\<lparr>qi_queued_at := to_sql (qi_queued_at item),
                   qi_id := (case queue_row db (row_of item) of None \<Rightarrow> Some (nd_next_id db) | Some q' \<Rightarrow> qi_id q')\<rparr>
     else q \<in> set (nd_queue db))"
proof (cases "queue_row db (row_of item)")
  case None
  then have "\<forall>q \<in> set (nd_queue db). row_of q \<noteq> row_of item"
    by (simp add: queue_row_def map_of_eq_None_iff image_image) (metis image_eqI)
  with None show ?thesis
    by (auto simp: upsert_queued_def list_ex_iff Let_def)
next
  case (Some old)
  with assms have old: "old \<in> set (nd_queue db)" "row_of old = row_of item" by (simp_all add: queue_row_Some)
  have only: "x = old" if "x \<in> set (nd_queue db)" "row_of x = row_of item" for x
    using Some that queue_row_Some [OF assms] by (metis option.inject)
  let ?item = "item\<lparr>qi_queued_at := to_sql (qi_queued_at item)\<rparr>"
  let ?new = "?item\<lparr>qi_id := qi_id old\<rparr>"
  have "nd_queue (upsert_queued item db) =
      map (\<lambda>x. if row_of x = row_of item then ?item\<lparr>qi_id := qi_id x\<rparr> else x) (nd_queue db)"
    using old by (auto simp: upsert_queued_def list_ex_iff Let_def)
  moreover have "(if row_of x = row_of item then ?item\<lparr>qi_id := qi_id x\<rparr> else x) =
      (if row_of x = row_of item then ?new else x)" if "x \<in> set (nd_queue db)" for x
    using only [OF that] by simp
  ultimately have "set (nd_queue (upsert_queued item db)) =
      (\<lambda>x. if row_of x = row_of item then ?new else x) ` set (nd_queue db)"
    by (simp cong: image_cong)
  moreover have "row_of ?new = row_of item" by simp
  ultimately have "q \<in> set (nd_queue (upsert_queued item db)) \<longleftrightarrow>
      (if row_of q = row_of item then q = ?new else q \<in> set (nd_queue db))"
    using old by (smt (verit) image_iff)
  with Some show ?thesis by simp
qed

lemma upsert_queued_has: "notify_db_wf db \<Longrightarrow> row_of item \<in> row_of ` set (nd_queue (upsert_queued item db))"
proof -
  let ?q = "item\<lparr>qi_queued_at := to_sql (qi_queued_at item),
    qi_id := (case queue_row db (row_of item) of None \<Rightarrow> Some (nd_next_id db) | Some q' \<Rightarrow> qi_id q')\<rparr>"
  show "notify_db_wf db \<Longrightarrow> ?thesis" by (rule image_eqI [of _ _ ?q]) (simp_all add: upsert_queued_row)
qed

lemma notify_db_wf_requeue: "notify_db_wf db \<Longrightarrow> notify_db_wf (requeue items window db)"
  unfolding requeue_def by (rule notify_db_wf_fold) (auto intro: notify_db_wf_upsert)

text \<open>After a failed delivery every row of the message waits, dated at least one window ago.\<close>

lemma requeue_rows:
  assumes "notify_db_wf db" and "q \<in> set (nd_queue (requeue items window db))"
  shows "q \<in> set (nd_queue db) \<and> row_of q \<notin> (row_of \<circ> fst) ` set items \<or>
    (\<exists>(item, wall) \<in> set items. row_of q = row_of item \<and> qi_item q = qi_item item \<and>
       qi_hold q = qi_hold item \<and> qi_queued_at q = to_sql (min (qi_queued_at item) (wall - window)))"
  using assms
proof (induction items rule: rev_induct)
  case (snoc x items)
  obtain item wall where x: "x = (item, wall)" by force
  let ?db = "requeue items window db"
  let ?item = "item\<lparr>qi_queued_at := min (qi_queued_at item) (wall - window)\<rparr>"
  have step: "requeue (items @ [(item, wall)]) window db = upsert_queued ?item ?db" by (simp add: requeue_def)
  have wf: "notify_db_wf ?db" using snoc.prems by (simp add: notify_db_wf_requeue)
  show ?case
  proof (cases "row_of q = row_of item")
    case True
    then show ?thesis using snoc.prems(2) by (simp add: step upsert_queued_row [OF wf] x)
  next
    case False
    then have "q \<in> set (nd_queue ?db)" using snoc.prems(2) by (simp add: step upsert_queued_row [OF wf] x)
    then show ?thesis using snoc.IH [OF snoc.prems(1)] False x by auto
  qed
qed (simp add: requeue_def)

lemma requeue_keeps:
  assumes "notify_db_wf db" and "k \<in> (row_of \<circ> fst) ` set items \<or> k \<in> row_of ` set (nd_queue db)"
  shows "k \<in> row_of ` set (nd_queue (requeue items window db))"
  using assms
proof (induction items rule: rev_induct)
  case (snoc x items)
  obtain item wall where x: "x = (item, wall)" by force
  let ?db = "requeue items window db"
  let ?item = "item\<lparr>qi_queued_at := min (qi_queued_at item) (wall - window)\<rparr>"
  have step: "requeue (items @ [(item, wall)]) window db = upsert_queued ?item ?db" by (simp add: requeue_def)
  have wf: "notify_db_wf ?db" using snoc.prems by (simp add: notify_db_wf_requeue)
  show ?case
  proof (cases "k = row_of item")
    case True
    then show ?thesis
      using upsert_queued_has [OF wf, of ?item] by (simp add: x step)
  next
    case False
    with snoc x have "k \<in> row_of ` set (nd_queue ?db)" by auto
    with False show ?thesis by (force simp: x step upsert_queued_row [OF wf])
  qed
qed (simp add: requeue_def)

section \<open>Reading an override\<close>

lemma filter_key:
  "bt_wf m \<Longrightarrow> map snd (filter (\<lambda>x. fst x = k) m) = (case map_of m k of None \<Rightarrow> [] | Some x \<Rightarrow> [x])"
proof (induction m)
  case (Cons p m)
  obtain k' v where p: "p = (k', v)" by force
  with Cons.prems have "k' \<notin> fst ` set m" by (auto simp: bt_wf_Cons)
  then have "filter (\<lambda>x. fst x = k') m = []" by (auto simp: filter_empty_conv)
  with Cons p show ?case by (auto simp: bt_wf_Cons)
qed simp

lemma list_overrides_key:
  "bt_wf m \<Longrightarrow> list_overrides m (Some uid) (Some t) = (case map_of m (uid, t) of None \<Rightarrow> [] | Some x \<Rightarrow> [x])"
proof -
  have "(\<lambda>(k, v). (Some uid = None \<or> Some uid = Some (fst k)) \<and> (Some t = None \<or> Some t = Some (snd k))) =
      (\<lambda>x :: (string \<times> target_id) \<times> rule_override. fst x = (uid, t))"
    by auto
  then show "bt_wf m \<Longrightarrow> ?thesis" by (simp only: list_overrides_def filter_key)
qed

section \<open>Properties\<close>

text \<open>
  the hourly maintenance of the ledger cannot be noticed. What a later cycle loads from the purged
  tables is what it would have loaded from the tables as they were.
\<close>

theorem purge_not_noticed:
  assumes "now \<le> later"
  shows "load_ledger js (purge_ledger now lb db) later lb = load_ledger js db later lb"
proof -
  have le: "to_sql (now - d) \<le> to_sql (later - d)" "to_sql now \<le> to_sql later" for d
    using assms by (auto intro: to_sql_mono)
  have "filter (\<lambda>e. le_at e > to_sql (later - d) \<and> \<not> le_at e < to_sql (now - d)) es =
      filter (\<lambda>e. le_at e > to_sql (later - d)) es" for d es
    using le(1) [of d] by (intro filter_cong) auto
  moreover have "filter (\<lambda>x. (case x of (c, n, t) \<Rightarrow> t > to_sql (later - d)) \<and> (case x of (c, n, t) \<Rightarrow> \<not> t < to_sql (now - d))) ms =
      filter (\<lambda>(c, n, t). t > to_sql (later - d)) ms" for d and ms :: "(int \<times> nat \<times> instant) list"
    using le(1) [of d] by (intro filter_cong) auto
  ultimately show ?thesis
    using le(2) by (auto simp: load_ledger_def purge_ledger_def conj_commute split: option.splits intro!: ext)
qed

text \<open>
  what is saved as an override is what is read back: after a save, reading the pair of rule and device
  gives the override, or nothing when it was empty, and every other pair reads as before.
\<close>

theorem override_saved_is_read:
  assumes "bt_wf tab"
  shows "list_overrides (upsert_override tab over) (Some uid) (Some t) =
    (if (uid, t) \<noteq> (ro_rule_uid over, ro_target_id over) then list_overrides tab (Some uid) (Some t)
     else if override_is_empty over then [] else [over])"
proof -
  have read: "list_overrides m (Some uid) (Some t) = (case map_of m (uid, t) of None \<Rightarrow> [] | Some x \<Rightarrow> [x])"
    if "bt_wf m" for m using that by (rule list_overrides_key)
  let ?k = "(ro_rule_uid over, ro_target_id over)"
  show ?thesis
  proof (cases "override_is_empty over")
    case True
    have "map_of (filter (\<lambda>(k, _). k \<noteq> ?k) tab) = (map_of tab)(?k := None)"
      by (induction tab) (auto simp: fun_eq_iff)
    with True assms bt_wf_filter [OF assms] show ?thesis
      by (auto simp: upsert_override_def delete_override_def read)
  next
    case False
    with assms show ?thesis by (auto simp: upsert_override_def read bt_wf_insert map_of_bt_insert)
  qed
qed

theorem override_saved_is_read_witness:
  "list_overrides (upsert_override [] \<lparr>ro_rule_uid = ''disk_full'', ro_target_id = 4, ro_threshold = Some (Fin 95),
       ro_clear_threshold = None, ro_enabled = None\<rparr>) (Some ''disk_full'') (Some 4) =
     [\<lparr>ro_rule_uid = ''disk_full'', ro_target_id = 4, ro_threshold = Some (Fin 95),
       ro_clear_threshold = None, ro_enabled = None\<rparr>]"
  by (subst override_saved_is_read) (simp_all add: override_is_empty_def)

theorem purge_not_noticed_witness:
  "load_ledger Some (purge_ledger 0 0 notify_db_empty) (seconds 60) 0 = load_ledger Some notify_db_empty (seconds 60) 0"
  by (rule purge_not_noticed) (simp add: seconds_def nanos_per_sec_def)

text \<open>
  the end of an alert that lasted longer than the window of the ledger is not announced. The firing was
  sent at time 0 by the only channel; the resolution comes two hours later. The ledger that the cycle loads
  reaches back one hour with the default settings, so the message of the firing is not in it, and the
  plan drops the resolution: nobody ``announced the firing''. Within the hour the same resolution is queued.
\<close>

theorem late_resolution_lost:
  "let db = record_sent 1 [] [(''f'', NrFiring)] 0 notify_db_empty;
       channels = [plain_channel 1 ''email''];
       lb = lookback global_policy_default (map rc_policy channels);
       resolve_at = \<lambda>t. notify_plan spring_calendar [plain_group [plain_item ''f'' NrResolved Warning]]
         channels global_policy_default (load_ledger Some db t lb) t
   in lb = seconds 3600 \<and>
      pl_enqueue (resolve_at (seconds 7200)) = [] \<and> pl_outgoing (resolve_at (seconds 7200)) = [] \<and>
      ''f'' \<in> pl_handled (resolve_at (seconds 7200)) \<and>
      pl_verdicts (resolve_at (seconds 7200)) ''f'' = Some ''channel 1 never announced the firing'' \<and>
      map (gi_reason \<circ> qi_item) (pl_enqueue (resolve_at (seconds 3000))) = [NrResolved]"
  by code_simp

end
