(* ===== verification/Alert_Store.thy ===== *)
theory Alert_Store
  imports Cycle_Properties Policy_Store
begin

text \<open>
  The tables of the alerting engine (\<^verbatim>\<open>crates/server/src/db/alerts.rs\<close>): rules, one row per
  fingerprint with its state, the history of transitions, silences and seasonal baselines. Each function
  of the file is one operation on the record \<open>alert_db\<close>; a transaction is the composition of its statements.
  Columns that hold names of phases, severities, kinds or operators are kept as the values themselves
  (\<open>phase_roundtrip\<close>, \<open>severity_roundtrip\<close>, \<open>rule_kind_roundtrip\<close>, \<open>operator_roundtrip\<close>), and columns that hold
  the program's own JSON as the data it was written from. Times are cut to the millisecond on the way in
  (\<open>to_sql\<close>); a float that is not a number is stored as \<^verbatim>\<open>NULL\<close>.
\<close>

section \<open>Rows with a unique key\<close>

text \<open>\<^verbatim>\<open>UPDATE .. WHERE key = k\<close> and \<^verbatim>\<open>INSERT .. ON CONFLICT(key) DO UPDATE\<close>, on rows in the order of insertion.\<close>

definition update_by :: "('r \<Rightarrow> 'k) \<Rightarrow> 'k \<Rightarrow> ('r \<Rightarrow> 'r) \<Rightarrow> 'r list \<Rightarrow> 'r list" where
  "update_by key k f rows = map (\<lambda>r. if key r = k then f r else r) rows"

definition upsert_by :: "('r \<Rightarrow> 'k) \<Rightarrow> 'k \<Rightarrow> ('r \<Rightarrow> 'r) \<Rightarrow> 'r \<Rightarrow> 'r list \<Rightarrow> 'r list" where
  "upsert_by key k f new rows = (if list_ex (\<lambda>r. key r = k) rows then update_by key k f rows else rows @ [new])"

definition row_at :: "('r \<Rightarrow> 'k) \<Rightarrow> 'r list \<Rightarrow> 'k \<Rightarrow> 'r option" where
  "row_at key rows k = find (\<lambda>r. key r = k) rows"

lemma row_at_None: "row_at key rows k = None \<longleftrightarrow> k \<notin> key ` set rows"
  by (auto simp: row_at_def find_None_iff image_iff)

lemma row_at_append:
  "row_at key (xs @ ys) k = (case row_at key xs k of None \<Rightarrow> row_at key ys k | Some r \<Rightarrow> Some r)"
  by (induction xs) (simp_all add: row_at_def)

lemma list_ex_key: "list_ex (\<lambda>r. key r = k) rows \<longleftrightarrow> k \<in> key ` set rows"
  by (induction rows) auto

locale row_update =
  fixes key :: "'r \<Rightarrow> 'k" and k :: 'k and f :: "'r \<Rightarrow> 'r"
  assumes key_f: "key r = k \<Longrightarrow> key (f r) = k"
begin

lemma update_keys: "map key (update_by key k f rows) = map key rows"
  by (induction rows) (simp_all add: update_by_def key_f)

lemma row_at_update: "row_at key (update_by key k f rows) j = (if j = k then map_option f (row_at key rows k) else row_at key rows j)"
  by (induction rows) (auto simp: update_by_def row_at_def key_f)

lemma upsert_distinct: "key new = k \<Longrightarrow> distinct (map key rows) \<Longrightarrow> distinct (map key (upsert_by key k f new rows))"
  by (auto simp: upsert_by_def update_keys list_ex_iff simp flip: map_map)

lemma upsert_keys: "key new = k \<Longrightarrow> set (map key (upsert_by key k f new rows)) = insert k (set (map key rows))"
proof -
  have "set (map key (update_by key k f rows)) = set (map key rows)" by (simp only: update_keys)
  then show "key new = k \<Longrightarrow> ?thesis" by (auto simp: upsert_by_def list_ex_key)
qed

lemma row_at_upsert:
  "key new = k \<Longrightarrow> row_at key (upsert_by key k f new rows) j =
     (if j = k then Some (case row_at key rows k of None \<Rightarrow> new | Some r \<Rightarrow> f r) else row_at key rows j)"
proof (cases "list_ex (\<lambda>r. key r = k) rows")
  case True
  then obtain r where "row_at key rows k = Some r"
    by (cases "row_at key rows k") (auto simp: row_at_def find_None_iff list_ex_iff)
  with True show ?thesis by (simp add: upsert_by_def row_at_update)
next
  case False
  then have "row_at key rows k = None" by (simp add: row_at_def find_None_iff list_ex_iff)
  with False show "key new = k \<Longrightarrow> ?thesis"
    by (auto simp: upsert_by_def row_at_append row_at_def [of _ "[_]"] split: option.splits)
qed

end

section \<open>Tables\<close>

text \<open>A row of \<^verbatim>\<open>alert_state\<close>: the stored alert and the column that \<^verbatim>\<open>load_states\<close> does not read.\<close>

record alert_row = stored_alert +
  ar_severity :: severity

record history_row =
  hr_fingerprint :: string
  hr_rule_uid :: string
  hr_target_id :: "target_id option"
  hr_from :: phase
  hr_to :: phase
  hr_severity :: severity
  hr_value :: "f64 option"
  hr_notified :: bool
  hr_reason :: string
  hr_at :: instant

record series_row =
  sr_first_seen :: instant
  sr_last_update :: instant
  sr_updates :: nat

text \<open>A row of \<^verbatim>\<open>alert_rules\<close>: the durations are whole seconds, as \<^verbatim>\<open>i64\<close>.\<close>

record rule_row =
  rr_rule :: rule
  rr_for_secs :: int
  rr_repeat_secs :: "int option"
  rr_escalate_secs :: "int option"

record alert_db =
  ad_rules :: "rule_row list"
  ad_next_rule :: int
  ad_states :: "alert_row list"
  ad_history :: "history_row list"
  ad_silences :: "silence list"
  ad_next_silence :: int
  ad_series :: "string \<rightharpoonup> series_row"
  ad_buckets :: "string \<times> nat \<rightharpoonup> bucket"

definition alert_db_empty :: alert_db where
  "alert_db_empty =
     \<lparr>ad_rules = [], ad_next_rule = 1, ad_states = [], ad_history = [], ad_silences = [],
      ad_next_silence = 1, ad_series = Map.empty, ad_buckets = Map.empty\<rparr>"

text \<open>SQLite stores a NaN as \<^verbatim>\<open>NULL\<close>.\<close>

definition real_column :: "f64 option \<Rightarrow> f64 option" where
  "real_column v = (if v = Some NaN then None else v)"

section \<open>Rules\<close>

definition as_i64 :: "nat \<Rightarrow> int" where
  "as_i64 n = (let m = n mod 2 ^ 64 in if m < 2 ^ 63 then int m else int m - 2 ^ 64)"

definition as_secs :: "duration \<Rightarrow> nat" where
  "as_secs d = d div 1000000000"

definition duration_from_secs :: "int \<Rightarrow> duration" where
  "duration_from_secs n = nat n * 1000000000"

definition rule_to_row :: "int \<Rightarrow> rule \<Rightarrow> rule_row" where
  "rule_to_row i r =
     \<lparr>rr_rule = r\<lparr>ru_id := i\<rparr>,
      rr_for_secs = as_i64 (as_secs (ru_for_duration r)),
      rr_repeat_secs = map_option (\<lambda>d. as_i64 (as_secs d)) (ru_repeat_interval r),
      rr_escalate_secs = map_option (\<lambda>d. as_i64 (as_secs d)) (ru_escalate_after r)\<rparr>"

definition positive_secs :: "int option \<Rightarrow> duration option" where
  "positive_secs v = (case v of None \<Rightarrow> None | Some n \<Rightarrow> if n > 0 then Some (duration_from_secs n) else None)"

definition rule_from_row :: "rule_row \<Rightarrow> rule" where
  "rule_from_row row =
     (rr_rule row)\<lparr>ru_for_duration := duration_from_secs (max (rr_for_secs row) 0),
        ru_repeat_interval := positive_secs (rr_repeat_secs row),
        ru_escalate_after := positive_secs (rr_escalate_secs row)\<rparr>"

definition row_uid :: "rule_row \<Rightarrow> string" where
  "row_uid row = ru_uid (rr_rule row)"

definition row_id :: "rule_row \<Rightarrow> int" where
  "row_id row = ru_id (rr_rule row)"

text \<open>\<^verbatim>\<open>INSERT OR IGNORE\<close>, then the update of what is the product's text in a built-in rule.\<close>

definition seed_rule :: "rule \<Rightarrow> alert_db \<times> nat \<Rightarrow> alert_db \<times> nat" where
  "seed_rule r acc =
     (let (db, inserted) = acc;
          known = list_ex (\<lambda>row. row_uid row = ru_uid r) (ad_rules db);
          (db, inserted) =
            (if known then (db, inserted)
             else (db\<lparr>ad_rules := ad_rules db @
                        [rule_to_row (ad_next_rule db) (r\<lparr>ru_enabled := True, ru_builtin := True\<rparr>)],
                      ad_next_rule := ad_next_rule db + 1\<rparr>, inserted + 1))
      in (db\<lparr>ad_rules := map (\<lambda>row. if row_uid row = ru_uid r \<and> ru_builtin (rr_rule row)
              then row\<lparr>rr_rule := (rr_rule row)\<lparr>ru_name := ru_name r, ru_description := ru_description r,
                                      ru_unit := ru_unit r, ru_query := ru_query r\<rparr>\<rparr>
              else row) (ad_rules db)\<rparr>, inserted))"

definition seed_builtin_rules :: "rule list \<Rightarrow> alert_db \<Rightarrow> alert_db \<times> nat" where
  "seed_builtin_rules builtin_rules db = foldl (\<lambda>acc r. seed_rule r acc) (db, 0) builtin_rules"

text \<open>\<^verbatim>\<open>ORDER BY builtin DESC, name\<close>; \<^verbatim>\<open>ORDER BY id\<close>.\<close>

definition list_rules :: "alert_db \<Rightarrow> rule list" where
  "list_rules db =
     map rule_from_row (sort_key (\<lambda>row. (\<not> ru_builtin (rr_rule row), ru_name (rr_rule row))) (ad_rules db))"

definition list_enabled_rules :: "alert_db \<Rightarrow> rule list" where
  "list_enabled_rules db =
     map rule_from_row (sort_key row_id (filter (\<lambda>row. ru_enabled (rr_rule row)) (ad_rules db)))"

text \<open>\<^verbatim>\<open>ON CONFLICT(uid) DO UPDATE\<close> keeps the id and the mark of a built-in rule.\<close>

definition upsert_rule :: "rule \<Rightarrow> alert_db \<Rightarrow> alert_db \<times> int" where
  "upsert_rule r db =
     (case find (\<lambda>row. row_uid row = ru_uid r) (ad_rules db) of
        Some old \<Rightarrow>
          (db\<lparr>ad_rules := map (\<lambda>row. if row_uid row = ru_uid r
                then rule_to_row (row_id row) (r\<lparr>ru_builtin := ru_builtin (rr_rule row)\<rparr>) else row) (ad_rules db)\<rparr>,
           row_id old)
      | None \<Rightarrow>
          (db\<lparr>ad_rules := ad_rules db @ [rule_to_row (ad_next_rule db) r], ad_next_rule := ad_next_rule db + 1\<rparr>,
           ad_next_rule db))"

definition delete_rule :: "int \<Rightarrow> alert_db \<Rightarrow> alert_db \<times> bool" where
  "delete_rule i db =
     (case find (\<lambda>row. row_id row = i) (ad_rules db) of
        None \<Rightarrow> (db, False)
      | Some row \<Rightarrow>
          (db\<lparr>ad_rules := filter (\<lambda>row. row_id row \<noteq> i) (ad_rules db),
              ad_states := filter (\<lambda>a. sa_rule_uid a \<noteq> row_uid row) (ad_states db)\<rparr>, True))"

definition set_rule_enabled :: "int \<Rightarrow> bool \<Rightarrow> alert_db \<Rightarrow> alert_db \<times> bool" where
  "set_rule_enabled i enabled db =
     (db\<lparr>ad_rules := map (\<lambda>row. if row_id row = i
            then row\<lparr>rr_rule := (rr_rule row)\<lparr>ru_enabled := enabled\<rparr>\<rparr> else row) (ad_rules db)\<rparr>,
      list_ex (\<lambda>row. row_id row = i) (ad_rules db))"

section \<open>States\<close>

definition load_states :: "alert_db \<Rightarrow> stored_alert list" where
  "load_states db = map stored_alert.truncate (ad_states db)"

text \<open>The columns written for a state.\<close>

definition state_columns :: "alert_outcome \<Rightarrow> alert_state" where
  "state_columns out =
     (let s = ao_state out
      in s\<lparr>as_condition_since := map_option to_sql (as_condition_since s),
           as_firing_since := map_option to_sql (as_firing_since s),
           as_resolved_at := map_option to_sql (as_resolved_at s),
           as_last_eval_at := map_option to_sql (as_last_eval_at s),
           as_last_notified_at := map_option to_sql (as_last_notified_at s),
           as_acked_until := map_option to_sql (as_acked_until s),
           as_value := real_column (ao_value out), as_score := real_column (ao_score out)\<rparr>)"

definition new_alert_row :: "alert_outcome \<Rightarrow> alert_row" where
  "new_alert_row out =
     \<lparr>sa_fingerprint = ao_fingerprint out, sa_rule_uid = ao_rule_uid out, sa_target_id = ao_target_id out,
      sa_series_key = ao_series_key out, sa_labels = ao_labels out, sa_state = state_columns out,
      ar_severity = ao_severity out\<rparr>"

text \<open>The \<^verbatim>\<open>CASE\<close> of the update: the acknowledgement of the table is kept while the alert is active and the
  acknowledgement runs; a comparison with \<^verbatim>\<open>NULL\<close> is not true.\<close>

definition keeps_ack :: "alert_state \<Rightarrow> alert_state \<Rightarrow> bool" where
  "keeps_ack old new =
     ((as_phase new = PhPending \<or> as_phase new = PhFiring) \<and>
      (case (as_acked_until old, as_last_eval_at new) of (Some u, Some t) \<Rightarrow> u > t | _ \<Rightarrow> False))"

definition merge_ack :: "alert_state \<Rightarrow> alert_state \<Rightarrow> alert_state" where
  "merge_ack old new =
     (if keeps_ack old new
      then new\<lparr>as_acked_until := as_acked_until old, as_acked_by := as_acked_by old, as_ack_note := as_ack_note old\<rparr>
      else new\<lparr>as_acked_until := None, as_acked_by := None, as_ack_note := None\<rparr>)"

definition upsert_state :: "alert_outcome \<Rightarrow> alert_row list \<Rightarrow> alert_row list" where
  "upsert_state out =
     upsert_by sa_fingerprint (ao_fingerprint out)
       (\<lambda>row. (new_alert_row out)\<lparr>sa_state := merge_ack (sa_state row) (state_columns out)\<rparr>) (new_alert_row out)"

definition save_states :: "alert_outcome list \<Rightarrow> alert_db \<Rightarrow> alert_db" where
  "save_states alerts db = db\<lparr>ad_states := fold upsert_state alerts (ad_states db)\<rparr>"

definition update_state :: "string \<Rightarrow> (alert_state \<Rightarrow> alert_state) \<Rightarrow> alert_row list \<Rightarrow> alert_row list" where
  "update_state fp f = update_by sa_fingerprint fp (\<lambda>row. row\<lparr>sa_state := f (sa_state row)\<rparr>)"

definition touch_states :: "string list \<Rightarrow> instant \<Rightarrow> alert_db \<Rightarrow> alert_db" where
  "touch_states fps now db =
     db\<lparr>ad_states := fold (\<lambda>fp. update_state fp (\<lambda>s. s\<lparr>as_last_eval_at := Some (to_sql now)\<rparr>)) fps (ad_states db)\<rparr>"

definition mark_notified :: "string list \<Rightarrow> instant \<Rightarrow> alert_db \<Rightarrow> alert_db" where
  "mark_notified fps now db =
     db\<lparr>ad_states := fold (\<lambda>fp. update_state fp (mark_notified_state (to_sql now))) fps (ad_states db)\<rparr>"

definition stale :: "instant \<Rightarrow> alert_state \<Rightarrow> bool" where
  "stale t s = (case as_last_eval_at s of None \<Rightarrow> False | Some e \<Rightarrow> e < t)"

definition purge_states :: "instant \<Rightarrow> alert_db \<Rightarrow> alert_db" where
  "purge_states cycle_start db =
     db\<lparr>ad_states := filter (\<lambda>row. \<not> stale (to_sql cycle_start) (sa_state row)) (ad_states db)\<rparr>"

definition is_pending_or_firing :: "alert_state \<Rightarrow> bool" where
  "is_pending_or_firing s = (as_phase s = PhPending \<or> as_phase s = PhFiring)"

text \<open>\<^verbatim>\<open>ORDER BY firing_since DESC\<close>: SQLite puts \<^verbatim>\<open>NULL\<close> last.\<close>

definition firing_order :: "alert_row \<Rightarrow> bool \<times> int" where
  "firing_order row = (case as_firing_since (sa_state row) of None \<Rightarrow> (True, 0) | Some t \<Rightarrow> (False, - t))"

definition list_active :: "alert_db \<Rightarrow> stored_alert list" where
  "list_active db =
     map stored_alert.truncate
       (sort_key firing_order (filter (\<lambda>row. is_pending_or_firing (sa_state row)) (ad_states db)))"

definition get_active :: "string \<Rightarrow> alert_db \<Rightarrow> stored_alert option" where
  "get_active fp db =
     map_option stored_alert.truncate
       (find (\<lambda>row. sa_fingerprint row = fp \<and> is_pending_or_firing (sa_state row)) (ad_states db))"

text \<open>\<^verbatim>\<open>set_ack\<close>: one transaction over the alerts and the queue of notifications.\<close>

definition ack_columns :: "ack \<Rightarrow> ack" where
  "ack_columns a = a\<lparr>ack_until := to_sql (ack_until a)\<rparr>"

definition set_ack :: "string \<Rightarrow> ack option \<Rightarrow> alert_db \<times> notify_db \<Rightarrow> (alert_db \<times> notify_db) \<times> bool" where
  "set_ack fp a dbs =
     (let (db, ndb) = dbs;
          updated = list_ex (\<lambda>row. sa_fingerprint row = fp \<and> is_pending_or_firing (sa_state row)) (ad_states db)
      in if \<not> updated then (dbs, False)
         else ((db\<lparr>ad_states := update_state fp (set_ack_state (map_option ack_columns a)) (ad_states db)\<rparr>,
                (if a = None then ndb else dequeue_acked fp ndb)), True))"

section \<open>History\<close>

definition history_row_of :: "string set \<Rightarrow> history_entry \<Rightarrow> history_row" where
  "history_row_of told e =
     \<lparr>hr_fingerprint = he_fingerprint e, hr_rule_uid = he_rule_uid e, hr_target_id = he_target_id e,
      hr_from = tr_from (he_transition e), hr_to = tr_to (he_transition e), hr_severity = he_severity e,
      hr_value = real_column (he_value e), hr_notified = (he_fingerprint e \<in> told),
      hr_reason = he_reason e, hr_at = to_sql (he_at e)\<rparr>"

definition record_history :: "history_entry list \<Rightarrow> string set \<Rightarrow> alert_db \<Rightarrow> alert_db" where
  "record_history entries told db = db\<lparr>ad_history := ad_history db @ map (history_row_of told) entries\<rparr>"

definition purge_history :: "instant \<Rightarrow> alert_db \<Rightarrow> alert_db" where
  "purge_history before db = db\<lparr>ad_history := filter (\<lambda>h. \<not> hr_at h < to_sql before) (ad_history db)\<rparr>"

definition forgotten_row :: "instant \<Rightarrow> alert_row \<Rightarrow> history_row" where
  "forgotten_row now row =
     \<lparr>hr_fingerprint = sa_fingerprint row, hr_rule_uid = sa_rule_uid row, hr_target_id = sa_target_id row,
      hr_from = as_phase (sa_state row), hr_to = PhResolved, hr_severity = ar_severity row,
      hr_value = as_value (sa_state row), hr_notified = False, hr_reason = FORGOTTEN_TARGET_REASON,
      hr_at = to_sql now\<rparr>"

definition forget_target :: "target_id \<Rightarrow> instant \<Rightarrow> alert_db \<times> notify_db \<Rightarrow> (alert_db \<times> notify_db) \<times> nat" where
  "forget_target target now dbs =
     (let (db, ndb) = dbs;
          mine = filter (\<lambda>row. sa_target_id row = Some target) (ad_states db)
      in ((db\<lparr>ad_history := ad_history db @
                map (forgotten_row now) (filter (\<lambda>row. is_pending_or_firing (sa_state row)) mine),
              ad_states := filter (\<lambda>row. sa_target_id row \<noteq> Some target) (ad_states db)\<rparr>,
           dequeue_target target ndb), length mine))"

section \<open>Silences\<close>

text \<open>\<open>readable\<close> says whether the stored schedule can be read; a silence that cannot is ignored.\<close>

definition list_silences :: "(silence \<Rightarrow> bool) \<Rightarrow> alert_db \<Rightarrow> silence list" where
  "list_silences readable db = filter readable (sort_key si_id (ad_silences db))"

definition create_silence :: "silence \<Rightarrow> alert_db \<Rightarrow> alert_db \<times> int" where
  "create_silence s db =
     (db\<lparr>ad_silences := ad_silences db @ [s\<lparr>si_id := ad_next_silence db\<rparr>], ad_next_silence := ad_next_silence db + 1\<rparr>,
      ad_next_silence db)"

definition delete_silence :: "int \<Rightarrow> alert_db \<Rightarrow> alert_db \<times> bool" where
  "delete_silence i db =
     (db\<lparr>ad_silences := filter (\<lambda>s. si_id s \<noteq> i) (ad_silences db)\<rparr>, list_ex (\<lambda>s. si_id s = i) (ad_silences db))"

definition purge_expired_silences :: "(silence \<Rightarrow> bool) \<Rightarrow> instant \<Rightarrow> alert_db \<Rightarrow> alert_db \<times> nat" where
  "purge_expired_silences readable now db =
     foldl (\<lambda>(db, removed) s. case delete_silence (si_id s) db of
                (db, gone) \<Rightarrow> (db, if gone then removed + 1 else removed))
       (db, 0) (filter (\<lambda>s. schedule_is_expired (si_schedule s) now) (list_silences readable db))"

section \<open>Baselines\<close>

definition load_baselines :: "nat \<Rightarrow> alert_db \<Rightarrow> baseline_store" where
  "load_baselines index db =
     baseline_store_new
       (\<lambda>key. map_option (\<lambda>row. \<lparr>sb_first_seen = sr_first_seen row, sb_updates = sr_updates row\<rparr>) (ad_series db key))
       (\<lambda>(key, i). if i = index then ad_buckets db (key, i) else None)"

text \<open>The dirty entries have distinct keys: their order does not matter, so the loops are pointwise updates.\<close>

definition save_series :: "baseline_store \<Rightarrow> instant \<Rightarrow> string \<Rightarrow> series_row option \<Rightarrow> series_row option" where
  "save_series store now key old =
     (if key \<in> bs_dirty_series store then
        (case bs_series store key of
           None \<Rightarrow> old
         | Some s \<Rightarrow>
             Some (case old of
                     None \<Rightarrow> \<lparr>sr_first_seen = to_sql (sb_first_seen s), sr_last_update = to_sql now, sr_updates = sb_updates s\<rparr>
                   | Some row \<Rightarrow> row\<lparr>sr_last_update := to_sql now, sr_updates := sb_updates s\<rparr>))
      else old)"

definition save_baselines :: "baseline_store \<Rightarrow> instant \<Rightarrow> alert_db \<Rightarrow> alert_db" where
  "save_baselines store now db =
     db\<lparr>ad_series := (\<lambda>key. save_series store now key (ad_series db key)),
        ad_buckets := (\<lambda>key. if key \<in> bs_dirty_buckets store \<and> bs_buckets store key \<noteq> None
                              then bs_buckets store key else ad_buckets db key)\<rparr>"

definition purge_stale_baselines :: "instant \<Rightarrow> alert_db \<Rightarrow> alert_db" where
  "purge_stale_baselines before db =
     (let series = (\<lambda>key. case ad_series db key of
            None \<Rightarrow> None | Some row \<Rightarrow> if sr_last_update row < to_sql before then None else Some row)
      in db\<lparr>ad_series := series,
            ad_buckets := (\<lambda>(key, i). if series key = None then None else ad_buckets db (key, i))\<rparr>)"

section \<open>Rows after the writes\<close>

definition state_at :: "alert_db \<Rightarrow> string \<Rightarrow> alert_row option" where
  "state_at db fp = row_at sa_fingerprint (ad_states db) fp"

interpretation saved: row_update sa_fingerprint "ao_fingerprint out"
  "\<lambda>row. (new_alert_row out)\<lparr>sa_state := merge_ack (sa_state row) (state_columns out)\<rparr>" for out
  by unfold_locales (simp add: new_alert_row_def)

interpretation touched: row_update sa_fingerprint fp
  "\<lambda>row :: alert_row. row\<lparr>sa_state := f (sa_state row)\<rparr>" for fp f
  by unfold_locales simp

lemma new_alert_row_fingerprint [simp]: "sa_fingerprint (new_alert_row out) = ao_fingerprint out"
  by (simp add: new_alert_row_def)

definition saved_row :: "alert_row option \<Rightarrow> alert_outcome \<Rightarrow> alert_row" where
  "saved_row old out =
     (case old of
        None \<Rightarrow> new_alert_row out
      | Some row \<Rightarrow> (new_alert_row out)\<lparr>sa_state := merge_ack (sa_state row) (state_columns out)\<rparr>)"

lemma row_at_upsert_state:
  "row_at sa_fingerprint (upsert_state out rows) fp =
     (if fp = ao_fingerprint out then Some (saved_row (row_at sa_fingerprint rows fp) out)
      else row_at sa_fingerprint rows fp)"
  by (simp add: upsert_state_def saved.row_at_upsert saved_row_def)

lemma state_at_save:
  "distinct (map ao_fingerprint alerts) \<Longrightarrow>
   state_at (save_states alerts db) fp =
     (case row_at ao_fingerprint alerts fp of None \<Rightarrow> state_at db fp | Some out \<Rightarrow> Some (saved_row (state_at db fp) out))"
proof -
  have "distinct (map ao_fingerprint alerts) \<Longrightarrow>
     row_at sa_fingerprint (fold upsert_state alerts rows) fp =
       (case row_at ao_fingerprint alerts fp of
          None \<Rightarrow> row_at sa_fingerprint rows fp
        | Some out \<Rightarrow> Some (saved_row (row_at sa_fingerprint rows fp) out))" for rows
  proof (induction alerts arbitrary: rows)
    case (Cons out alerts)
    have "row_at ao_fingerprint alerts (ao_fingerprint out) = None"
      using Cons.prems by (simp add: row_at_None)
    moreover have "row_at ao_fingerprint (out # alerts) fp =
        (if ao_fingerprint out = fp then Some out else row_at ao_fingerprint alerts fp)"
      by (simp add: row_at_def)
    ultimately show ?case using Cons by (auto simp: row_at_upsert_state cong: option.case_cong)
  qed (simp add: row_at_def)
  then show "distinct (map ao_fingerprint alerts) \<Longrightarrow> ?thesis"
    by (simp add: state_at_def save_states_def cong: option.case_cong)
qed

lemma row_at_update_fold:
  assumes "distinct fps"
  shows "row_at sa_fingerprint (fold (\<lambda>fp. update_state fp f) fps rows) fp =
    (if fp \<in> set fps then map_option (\<lambda>row. row\<lparr>sa_state := f (sa_state row)\<rparr>) (row_at sa_fingerprint rows fp)
     else row_at sa_fingerprint rows fp)"
  using assms by (induction fps arbitrary: rows) (auto simp: update_state_def touched.row_at_update)

lemma row_at_update_fold_idem:
  assumes "\<And>s. f (f s) = f s"
  shows "row_at sa_fingerprint (fold (\<lambda>fp. update_state fp f) fps rows) fp =
    (if fp \<in> set fps then map_option (\<lambda>row. row\<lparr>sa_state := f (sa_state row)\<rparr>) (row_at sa_fingerprint rows fp)
     else row_at sa_fingerprint rows fp)"
  by (induction fps arbitrary: rows)
    (auto simp: update_state_def touched.row_at_update option.map_comp o_def assms)

lemma state_at_touch:
  "state_at (touch_states fps now db) fp =
     (if fp \<in> set fps
      then map_option (\<lambda>row. row\<lparr>sa_state := (sa_state row)\<lparr>as_last_eval_at := Some (to_sql now)\<rparr>\<rparr>) (state_at db fp)
      else state_at db fp)"
  by (simp add: state_at_def touch_states_def row_at_update_fold_idem)

lemma state_at_mark:
  "distinct fps \<Longrightarrow> state_at (mark_notified fps now db) fp =
     (if fp \<in> set fps
      then map_option (\<lambda>row. row\<lparr>sa_state := mark_notified_state (to_sql now) (sa_state row)\<rparr>) (state_at db fp)
      else state_at db fp)"
  by (simp add: state_at_def mark_notified_def row_at_update_fold)

lemma row_at_filter:
  "distinct (map key rows) \<Longrightarrow>
   row_at key (filter P rows) k = (case row_at key rows k of None \<Rightarrow> None | Some r \<Rightarrow> if P r then Some r else None)"
proof (induction rows)
  case (Cons r rows)
  then have "key r = k \<Longrightarrow> row_at key (filter P rows) k = None" unfolding row_at_None by auto
  with Cons show ?case by (auto simp: row_at_def)
qed (simp add: row_at_def)

lemma row_at_in: "distinct (map key rows) \<Longrightarrow> row_at key rows k = Some r \<longleftrightarrow> r \<in> set rows \<and> key r = k"
  by (induction rows) (auto simp: row_at_def)

lemma row_at_set:
  assumes "distinct (map key xs)" and "distinct (map key ys)" and "set xs = set ys"
  shows "row_at key xs k = row_at key ys k"
proof (cases "row_at key ys k")
  case None
  with assms(3) have "row_at key xs k = None" by (simp add: row_at_None)
  with None show ?thesis by simp
next
  case (Some r)
  with assms have "row_at key xs k = Some r" by (simp add: row_at_in)
  with Some show ?thesis by simp
qed

section \<open>Invariant of the tables\<close>

definition state_row_wf :: "alert_row \<Rightarrow> bool" where
  "state_row_wf row =
     (state_wf (sa_state row) \<and> keyed_under (sa_rule_uid row) (sa_fingerprint row) \<and>
      as_last_eval_at (sa_state row) \<noteq> None)"

definition states_wf :: "alert_row list \<Rightarrow> bool" where
  "states_wf rows = (distinct (map sa_fingerprint rows) \<and> list_all state_row_wf rows)"

definition rules_wf :: "alert_db \<Rightarrow> bool" where
  "rules_wf db =
     (distinct (map row_uid (ad_rules db)) \<and> distinct (map row_id (ad_rules db)) \<and>
      list_all (\<lambda>row. row_id row < ad_next_rule db) (ad_rules db))"

lemma state_wf_columns: "state_wf (ao_state out) \<Longrightarrow> state_wf (state_columns out)"
  by (simp add: state_wf_def state_columns_def Let_def)

lemma state_wf_merge_ack: "state_wf new \<Longrightarrow> state_wf (merge_ack old new)"
  by (auto simp: state_wf_def merge_ack_def keeps_ack_def)

lemma merge_ack_simps [simp]:
  "as_last_eval_at (merge_ack old new) = as_last_eval_at new" "as_phase (merge_ack old new) = as_phase new"
  by (simp_all add: merge_ack_def)

definition outcome_ok :: "alert_outcome \<Rightarrow> bool" where
  "outcome_ok out =
     (state_wf (ao_state out) \<and> keyed_under (ao_rule_uid out) (ao_fingerprint out) \<and>
      as_last_eval_at (ao_state out) \<noteq> None)"

lemma state_row_wf_saved: "outcome_ok out \<Longrightarrow> state_row_wf (saved_row old out)"
  by (auto simp: outcome_ok_def state_row_wf_def saved_row_def new_alert_row_def state_wf_columns state_wf_merge_ack
      split: option.splits)
    (simp_all add: state_columns_def Let_def)

lemma states_wf_rows:
  "states_wf rows \<longleftrightarrow> distinct (map sa_fingerprint rows) \<and>
     (\<forall>fp row. row_at sa_fingerprint rows fp = Some row \<longrightarrow> state_row_wf row)"
  by (auto simp: states_wf_def list_all_iff row_at_in)

lemma states_wf_upsert: "states_wf rows \<Longrightarrow> outcome_ok out \<Longrightarrow> states_wf (upsert_state out rows)"
  unfolding states_wf_rows row_at_upsert_state
  by (auto simp: upsert_state_def saved.upsert_distinct state_row_wf_saved split: if_splits)

lemma states_wf_save: "states_wf (ad_states db) \<Longrightarrow> list_all outcome_ok alerts \<Longrightarrow> states_wf (ad_states (save_states alerts db))"
proof -
  have "states_wf rows \<Longrightarrow> list_all outcome_ok alerts \<Longrightarrow> states_wf (fold upsert_state alerts rows)" for rows
    by (induction alerts arbitrary: rows) (simp_all add: states_wf_upsert)
  then show "states_wf (ad_states db) \<Longrightarrow> list_all outcome_ok alerts \<Longrightarrow> ?thesis" by (simp add: save_states_def)
qed

lemma states_wf_update:
  assumes "\<And>s. state_wf s \<Longrightarrow> state_wf (f s)" and "\<And>s. as_last_eval_at s \<noteq> None \<Longrightarrow> as_last_eval_at (f s) \<noteq> None"
    and "states_wf rows"
  shows "states_wf (update_state fp f rows)"
  using assms unfolding states_wf_rows update_state_def touched.row_at_update touched.update_keys
  by (auto simp: state_row_wf_def split: if_splits)

lemma states_wf_updates:
  assumes "\<And>s. state_wf s \<Longrightarrow> state_wf (f s)" and "\<And>s. as_last_eval_at s \<noteq> None \<Longrightarrow> as_last_eval_at (f s) \<noteq> None"
    and "states_wf rows"
  shows "states_wf (fold (\<lambda>fp. update_state fp f) fps rows)"
  using assms(3) by (induction fps arbitrary: rows) (simp_all add: states_wf_update [OF assms(1,2)])

lemma states_wf_filter: "states_wf rows \<Longrightarrow> states_wf (filter P rows)"
  by (auto simp: states_wf_def list_all_iff distinct_map_filter)

section \<open>Seeding the rules\<close>

text \<open>What the user owns in a rule: everything but the product's texts and the query.\<close>

definition user_settings :: "rule_row \<Rightarrow> rule_row" where
  "user_settings row =
     row\<lparr>rr_rule := (rr_rule row)\<lparr>ru_name := [], ru_description := [], ru_unit := [], ru_query := []\<rparr>\<rparr>"

lemma user_settings_keys [simp]:
  "row_uid (row\<lparr>rr_rule := (rr_rule row)\<lparr>ru_name := a, ru_description := b, ru_unit := c, ru_query := d\<rparr>\<rparr>) = row_uid row"
  "row_id (row\<lparr>rr_rule := (rr_rule row)\<lparr>ru_name := a, ru_description := b, ru_unit := c, ru_query := d\<rparr>\<rparr>) = row_id row"
  "user_settings (row\<lparr>rr_rule := (rr_rule row)\<lparr>ru_name := a, ru_description := b, ru_unit := c, ru_query := d\<rparr>\<rparr>) = user_settings row"
  by (simp_all add: user_settings_def row_uid_def row_id_def)

lemma rule_to_row_keys [simp]: "row_uid (rule_to_row i r) = ru_uid r" "row_id (rule_to_row i r) = i"
  by (simp_all add: rule_to_row_def row_uid_def row_id_def)

definition new_rule_rows :: "rule \<Rightarrow> alert_db \<Rightarrow> rule_row list" where
  "new_rule_rows r db =
     (if ru_uid r \<in> row_uid ` set (ad_rules db) then []
      else [rule_to_row (ad_next_rule db) (r\<lparr>ru_enabled := True, ru_builtin := True\<rparr>)])"

lemma seed_rule_rows:
  "map row_uid (ad_rules (fst (seed_rule r acc))) = map row_uid (ad_rules (fst acc) @ new_rule_rows r (fst acc))"
  "map row_id (ad_rules (fst (seed_rule r acc))) = map row_id (ad_rules (fst acc) @ new_rule_rows r (fst acc))"
  "map user_settings (ad_rules (fst (seed_rule r acc))) =
     map user_settings (ad_rules (fst acc) @ new_rule_rows r (fst acc))"
  "ad_next_rule (fst (seed_rule r acc)) = ad_next_rule (fst acc) + int (length (new_rule_rows r (fst acc)))"
  "snd (seed_rule r acc) = snd acc + length (new_rule_rows r (fst acc))"
proof -
  let ?db = "fst acc"
  let ?rows = "ad_rules ?db @ new_rule_rows r ?db"
  let ?text = "\<lambda>row. if row_uid row = ru_uid r \<and> ru_builtin (rr_rule row)
    then row\<lparr>rr_rule := (rr_rule row)\<lparr>ru_name := ru_name r, ru_description := ru_description r,
                ru_unit := ru_unit r, ru_query := ru_query r\<rparr>\<rparr> else row"
  have known: "list_ex (\<lambda>row. row_uid row = ru_uid r) (ad_rules ?db) \<longleftrightarrow> ru_uid r \<in> row_uid ` set (ad_rules ?db)"
    by (rule list_ex_key)
  have step: "ad_rules (fst (seed_rule r acc)) = map ?text ?rows"
    "ad_next_rule (fst (seed_rule r acc)) = ad_next_rule ?db + int (length (new_rule_rows r ?db))"
    "snd (seed_rule r acc) = snd acc + length (new_rule_rows r ?db)"
    by (simp_all add: seed_rule_def new_rule_rows_def known split_def Let_def)
  show "map row_uid (ad_rules (fst (seed_rule r acc))) = map row_uid ?rows"
    "map row_id (ad_rules (fst (seed_rule r acc))) = map row_id ?rows"
    "map user_settings (ad_rules (fst (seed_rule r acc))) = map user_settings ?rows"
    unfolding step(1) map_map by (intro map_cong; simp)+
  show "ad_next_rule (fst (seed_rule r acc)) = ad_next_rule ?db + int (length (new_rule_rows r ?db))"
    "snd (seed_rule r acc) = snd acc + length (new_rule_rows r ?db)"
    by (fact step)+
qed

lemma seed_rule_wf: "rules_wf (fst acc) \<Longrightarrow> rules_wf (fst (seed_rule r acc))"
proof -
  assume wf: "rules_wf (fst acc)"
  have "list_all (\<lambda>i. i < ad_next_rule (fst (seed_rule r acc))) (map row_id (ad_rules (fst (seed_rule r acc))))"
    unfolding seed_rule_rows using wf by (auto simp: rules_wf_def list_all_iff new_rule_rows_def)
  moreover have "distinct (map row_uid (ad_rules (fst (seed_rule r acc))))" "distinct (map row_id (ad_rules (fst (seed_rule r acc))))"
    unfolding seed_rule_rows using wf by (auto simp: rules_wf_def list_all_iff new_rule_rows_def)
  ultimately show ?thesis by (simp add: rules_wf_def list_all_iff)
qed

lemma seed_fold_rows:
  "\<exists>new. map user_settings (ad_rules (fst (foldl (\<lambda>acc r. seed_rule r acc) acc rules))) =
      map user_settings (ad_rules (fst acc)) @ new \<and>
    snd (foldl (\<lambda>acc r. seed_rule r acc) acc rules) = snd acc + length new \<and>
    set (map row_uid (ad_rules (fst (foldl (\<lambda>acc r. seed_rule r acc) acc rules)))) =
      set (map row_uid (ad_rules (fst acc))) \<union> ru_uid ` set rules"
proof (induction rules arbitrary: acc)
  case (Cons r rules)
  from Cons.IH [of "seed_rule r acc"] obtain new where
    new: "map user_settings (ad_rules (fst (foldl (\<lambda>acc r. seed_rule r acc) (seed_rule r acc) rules))) =
      map user_settings (ad_rules (fst (seed_rule r acc))) @ new"
    "snd (foldl (\<lambda>acc r. seed_rule r acc) (seed_rule r acc) rules) = snd (seed_rule r acc) + length new"
    "set (map row_uid (ad_rules (fst (foldl (\<lambda>acc r. seed_rule r acc) (seed_rule r acc) rules)))) =
      set (map row_uid (ad_rules (fst (seed_rule r acc)))) \<union> ru_uid ` set rules" by blast
  have "set (map row_uid (ad_rules (fst (seed_rule r acc)))) = insert (ru_uid r) (set (map row_uid (ad_rules (fst acc))))"
    unfolding seed_rule_rows by (auto simp: new_rule_rows_def)
  then show ?case
    using new
    by (intro exI [of _ "map user_settings (new_rule_rows r (fst acc)) @ new"])
      (simp del: set_map add: seed_rule_rows)
qed simp

section \<open>Properties\<close>

text \<open>
  C33: an acknowledgement set while a cycle runs is not overwritten by it. The cycle has read the states
  before the user acknowledges the alert \<open>fp\<close> and writes its outcomes afterwards: if the alert is still
  active and the acknowledgement has not expired at the time of the cycle, the row keeps who acknowledged,
  until when and why, whatever the cycle had in memory.
\<close>

theorem ack_survives_cycle:
  assumes "state_at db fp = Some row" and "is_pending_or_firing (sa_state row)"
    and "distinct (map ao_fingerprint alerts)" and "row_at ao_fingerprint alerts fp = Some out"
    and "is_pending_or_firing (ao_state out)" and "as_last_eval_at (ao_state out) = Some now"
    and "to_sql now < to_sql (ack_until a)"
  shows "let ((db', ndb'), accepted) = set_ack fp (Some a) (db, ndb)
    in accepted \<and>
       (case state_at (save_states alerts db') fp of
          None \<Rightarrow> False
        | Some r \<Rightarrow> as_acked_until (sa_state r) = Some (to_sql (ack_until a)) \<and>
                    as_acked_by (sa_state r) = Some (ack_by a) \<and> as_ack_note (sa_state r) = ack_text a \<and>
                    as_phase (sa_state r) = as_phase (ao_state out))"
proof -
  let ?rows = "update_state fp (set_ack_state (Some (ack_columns a))) (ad_states db)"
  let ?db = "db\<lparr>ad_states := ?rows\<rparr>"
  have at_db: "state_at ?db fp = Some (row\<lparr>sa_state := set_ack_state (Some (ack_columns a)) (sa_state row)\<rparr>)"
    using assms(1) by (simp add: state_at_def update_state_def touched.row_at_update)
  have "row \<in> set (ad_states db)" "sa_fingerprint row = fp"
    using assms(1) by (auto simp: state_at_def row_at_def find_Some_iff)
  then have "list_ex (\<lambda>row. sa_fingerprint row = fp \<and> is_pending_or_firing (sa_state row)) (ad_states db)"
    using assms(2) by (auto simp: list_ex_iff)
  then have set: "set_ack fp (Some a) (db, ndb) = ((?db, dequeue_acked fp ndb), True)"
    by (simp add: set_ack_def)
  let ?old = "set_ack_state (Some (ack_columns a)) (sa_state row)"
  have "state_at (save_states alerts ?db) fp =
      Some ((new_alert_row out)\<lparr>sa_state := merge_ack ?old (state_columns out)\<rparr>)"
    using assms(3,4) by (simp add: state_at_save at_db saved_row_def)
  moreover have "as_acked_until ?old = Some (to_sql (ack_until a))" "as_acked_by ?old = Some (ack_by a)"
    "as_ack_note ?old = ack_text a"
    using assms(2) by (auto simp: set_ack_state_def ack_columns_def is_pending_or_firing_def)
  moreover have "as_phase (state_columns out) = as_phase (ao_state out)"
    "as_last_eval_at (state_columns out) = Some (to_sql now)"
    using assms(6) by (simp_all add: state_columns_def Let_def)
  ultimately show ?thesis
    using assms(5,7) by (simp add: set merge_ack_def keeps_ack_def is_pending_or_firing_def)
qed

definition evaluated_outcome :: alert_outcome where
  "evaluated_outcome = sample_outcome\<lparr>ao_state := (ao_state sample_outcome)\<lparr>as_last_eval_at := Some (seconds 60)\<rparr>\<rparr>"

theorem ack_survives_cycle_witness:
  "let ((db', ndb'), accepted) = set_ack (ao_fingerprint evaluated_outcome)
         (Some \<lparr>ack_until = seconds 3600, ack_by = ''admin'', ack_text = None\<rparr>)
         (alert_db_empty\<lparr>ad_states := [new_alert_row sample_outcome]\<rparr>, notify_db_empty)
   in accepted \<and>
      (case state_at (save_states [evaluated_outcome] db') (ao_fingerprint evaluated_outcome) of
         None \<Rightarrow> False
       | Some r \<Rightarrow> as_acked_until (sa_state r) = Some (to_sql (seconds 3600)) \<and>
                   as_acked_by (sa_state r) = Some ''admin'' \<and> as_ack_note (sa_state r) = None \<and>
                   as_phase (sa_state r) = as_phase (ao_state evaluated_outcome))"
proof -
  let ?db = "alert_db_empty\<lparr>ad_states := [new_alert_row sample_outcome]\<rparr>"
  let ?a = "\<lparr>ack_until = seconds 3600, ack_by = ''admin'', ack_text = None\<rparr>"
  have "state_at ?db (ao_fingerprint evaluated_outcome) = Some (new_alert_row sample_outcome)"
    "row_at ao_fingerprint [evaluated_outcome] (ao_fingerprint evaluated_outcome) = Some evaluated_outcome"
    by (simp_all add: state_at_def row_at_def evaluated_outcome_def)
  moreover have "is_pending_or_firing (sa_state (new_alert_row sample_outcome))"
    "is_pending_or_firing (ao_state evaluated_outcome)" "as_last_eval_at (ao_state evaluated_outcome) = Some (seconds 60)"
    by (simp_all add: evaluated_outcome_def sample_outcome_def is_pending_or_firing_def new_alert_row_def state_columns_def)
  moreover have "to_sql (seconds 60) < to_sql (ack_until ?a)" "distinct (map ao_fingerprint [evaluated_outcome])"
    by (simp_all add: to_sql_def seconds_def nanos_per_sec_def)
  ultimately show ?thesis
    using ack_survives_cycle [of ?db "ao_fingerprint evaluated_outcome" "new_alert_row sample_outcome"
        "[evaluated_outcome]" evaluated_outcome "seconds 60" ?a notify_db_empty]
    by (simp only: ack.select_convs)
qed


definition whole_millis :: "alert_state \<Rightarrow> bool" where
  "whole_millis s =
     list_all (\<lambda>t. case t of None \<Rightarrow> True | Some t \<Rightarrow> to_sql t = t)
       [as_condition_since s, as_firing_since s, as_resolved_at s, as_last_eval_at s, as_last_notified_at s,
        as_acked_until s]"

lemma state_columns_exact:
  assumes "whole_millis (ao_state out)" and "ao_value out \<noteq> Some NaN" "ao_score out \<noteq> Some NaN"
    and "as_value (ao_state out) = ao_value out" "as_score (ao_state out) = ao_score out"
  shows "state_columns out = ao_state out"
proof -
  have cut: "map_option to_sql t = t" if "case t of None \<Rightarrow> True | Some t \<Rightarrow> to_sql t = t" for t
    using that by (cases t) simp_all
  show ?thesis
    using assms(1) unfolding state_columns_def Let_def whole_millis_def
    using assms(2,3) by (simp add: cut real_column_def flip: assms(4,5))
qed

text \<open>
  what a cycle writes is what the next one reads. For an alert that has no row yet, whose times are
  whole milliseconds and whose value and score are numbers, the state read back is the state that was saved.
\<close>

theorem saved_state_is_read:
  assumes "distinct (map ao_fingerprint alerts)" and "out \<in> set alerts" and "state_at db (ao_fingerprint out) = None"
    and "whole_millis (ao_state out)" and "ao_value out \<noteq> Some NaN" and "ao_score out \<noteq> Some NaN"
    and "as_value (ao_state out) = ao_value out" and "as_score (ao_state out) = ao_score out"
  shows "find (\<lambda>a. sa_fingerprint a = ao_fingerprint out) (load_states (save_states alerts db)) =
    Some \<lparr>sa_fingerprint = ao_fingerprint out, sa_rule_uid = ao_rule_uid out, sa_target_id = ao_target_id out,
          sa_series_key = ao_series_key out, sa_labels = ao_labels out, sa_state = ao_state out\<rparr>"
proof -
  have trunc: "find (\<lambda>a. sa_fingerprint a = fp) (map stored_alert.truncate rows) =
      map_option stored_alert.truncate (row_at sa_fingerprint rows fp)" for fp and rows :: "alert_row list"
    by (induction rows) (simp_all add: row_at_def stored_alert.truncate_def)
  have "row_at ao_fingerprint alerts (ao_fingerprint out) = Some out"
    using assms(1,2) by (simp add: row_at_in)
  then have "state_at (save_states alerts db) (ao_fingerprint out) = Some (new_alert_row out)"
    using assms(1,3) by (simp add: state_at_save saved_row_def)
  then show ?thesis
    by (simp add: load_states_def trunc state_at_def new_alert_row_def stored_alert.truncate_def
        state_columns_exact [OF assms(4-8)])
qed

theorem saved_state_is_read_witness:
  "find (\<lambda>a. sa_fingerprint a = ao_fingerprint evaluated_outcome)
     (load_states (save_states [evaluated_outcome\<lparr>ao_value := None\<rparr>] alert_db_empty)) =
    Some \<lparr>sa_fingerprint = ao_fingerprint evaluated_outcome, sa_rule_uid = ao_rule_uid evaluated_outcome,
          sa_target_id = ao_target_id evaluated_outcome, sa_series_key = ao_series_key evaluated_outcome,
          sa_labels = ao_labels evaluated_outcome, sa_state = ao_state evaluated_outcome\<rparr>"
  using saved_state_is_read [of "[evaluated_outcome\<lparr>ao_value := None\<rparr>]" "evaluated_outcome\<lparr>ao_value := None\<rparr>" alert_db_empty]
  by (simp add: evaluated_outcome_def sample_outcome_def alert_state_default_def state_at_def row_at_def
      alert_db_empty_def whole_millis_def to_sql_def seconds_def nanos_per_sec_def)


text \<open>
  a series that is still measured can lose its baseline. Once a series has been seen, an evaluation does
  not move the date of its row (only its buckets are written back), so the maintenance that forgets series
  not updated for a while forgets it too, with all the buckets it has learnt, the one of this very
  evaluation included.
\<close>

theorem live_baseline_forgotten:
  assumes "ad_series db key = Some row" and "sr_updates row > 0" and "sr_last_update row < to_sql before"
  shows "let store = snd (evaluate_anomaly r key point now (load_baselines (bucket_of now) db));
             saved = save_baselines store now db; purged = purge_stale_baselines before saved
         in ad_buckets saved (key, bucket_of now) \<noteq> None \<and> ad_series saved key = Some row \<and>
            ad_series purged key = None \<and> ad_buckets purged (key, i) = None"
  using assms
  by (simp add: evaluate_anomaly_def load_baselines_def baseline_store_new_def save_baselines_def save_series_def
      purge_stale_baselines_def Let_def split: prod.splits)

theorem live_baseline_forgotten_witness:
  "let db = alert_db_empty\<lparr>ad_series := [''cpu'' \<mapsto> \<lparr>sr_first_seen = 0, sr_last_update = 0, sr_updates = 1\<rparr>]\<rparr>;
       point = \<lparr>sp_labels = [], sp_value = Fin 50, sp_ts_ms = 0\<rparr>;
       store = snd (evaluate_anomaly (sample_rule ''cpu_anomaly'') ''cpu'' point (seconds 5184000)
                 (load_baselines (bucket_of (seconds 5184000)) db));
       saved = save_baselines store (seconds 5184000) db; purged = purge_stale_baselines (seconds 60) saved
   in ad_buckets saved (''cpu'', bucket_of (seconds 5184000)) \<noteq> None \<and> ad_series purged ''cpu'' = None \<and>
      ad_buckets purged (''cpu'', bucket_of (seconds 5184000)) = None"
  using live_baseline_forgotten [of "alert_db_empty\<lparr>ad_series := [''cpu'' \<mapsto> \<lparr>sr_first_seen = 0, sr_last_update = 0, sr_updates = 1\<rparr>]\<rparr>"
      "''cpu''" "\<lparr>sr_first_seen = 0, sr_last_update = 0, sr_updates = 1\<rparr>" "seconds 60" "sample_rule ''cpu_anomaly''"
      "\<lparr>sp_labels = [], sp_value = Fin 50, sp_ts_ms = 0\<rparr>" "seconds 5184000" "bucket_of (seconds 5184000)"]
  by (simp add: Let_def to_sql_def seconds_def nanos_per_sec_def)

text \<open>
  a new version of the program never touches what the user owns in a rule. Seeding the built-in rules keeps
  every row in its place with its thresholds, durations, channels, severity and activation (only the texts
  and the query of a built-in rule follow the product), appends one row per built-in rule that was
  missing, and a second seeding inserts nothing.
\<close>

theorem seeding_keeps_settings:
  "(\<exists>new. map user_settings (ad_rules (fst (seed_builtin_rules rules db))) = map user_settings (ad_rules db) @ new \<and>
      snd (seed_builtin_rules rules db) = length new) \<and>
   snd (seed_builtin_rules rules (fst (seed_builtin_rules rules db))) = 0"
proof -
  have known: "snd (foldl (\<lambda>acc r. seed_rule r acc) (db, n) rules) = n"
    if "ru_uid ` set rules \<subseteq> set (map row_uid (ad_rules db))" for db n
    using that
  proof (induction rules arbitrary: db n)
    case (Cons r rules)
    have "set (map row_uid (ad_rules (fst (seed_rule r (db, n))))) = set (map row_uid (ad_rules db))"
      unfolding seed_rule_rows using Cons.prems by (auto simp: new_rule_rows_def)
    moreover have "snd (seed_rule r (db, n)) = n"
      using Cons.prems by (simp add: seed_rule_rows(5) new_rule_rows_def)
    ultimately show ?case
      using Cons.IH [of "fst (seed_rule r (db, n))" "snd (seed_rule r (db, n))"] Cons.prems
      by (simp del: prod.collapse) (metis prod.collapse)
  qed simp
  obtain new where new: "map user_settings (ad_rules (fst (seed_builtin_rules rules db))) =
      map user_settings (ad_rules db) @ new" "snd (seed_builtin_rules rules db) = length new"
    "set (map row_uid (ad_rules (fst (seed_builtin_rules rules db)))) =
      set (map row_uid (ad_rules db)) \<union> ru_uid ` set rules"
    using seed_fold_rows [of "(db, 0)" rules] by (auto simp: seed_builtin_rules_def)
  then have "snd (seed_builtin_rules rules (fst (seed_builtin_rules rules db))) = 0"
    by (simp add: seed_builtin_rules_def [of _ "fst _"] known)
  with new show ?thesis by blast
qed

definition whole_secs :: "duration \<Rightarrow> bool" where
  "whole_secs d = (as_secs d * 1000000000 = d \<and> as_secs d < 2 ^ 63)"

definition rule_storable :: "rule \<Rightarrow> bool" where
  "rule_storable r =
     (whole_secs (ru_for_duration r) \<and>
      list_all (\<lambda>v. case v of None \<Rightarrow> True | Some d \<Rightarrow> whole_secs d \<and> d > 0) [ru_repeat_interval r, ru_escalate_after r])"

lemma as_i64_small: "n < 2 ^ 63 \<Longrightarrow> as_i64 n = int n"
  by (simp add: as_i64_def)

lemma positive_secs_read:
  "(case v of None \<Rightarrow> True | Some d \<Rightarrow> whole_secs d \<and> d > 0) \<Longrightarrow>
   positive_secs (map_option (\<lambda>d. as_i64 (as_secs d)) v) = v"
proof (cases v)
  case (Some d)
  assume "case v of None \<Rightarrow> True | Some d \<Rightarrow> whole_secs d \<and> d > 0"
  with Some have d: "as_secs d * 1000000000 = d" "as_secs d < 2 ^ 63" "d > 0" by (simp_all add: whole_secs_def)
  then have "as_secs d > 0" by (metis gr0I mult_zero_left)
  with d Some show ?thesis by (simp add: positive_secs_def as_i64_small duration_from_secs_def)
qed (simp add: positive_secs_def)

lemma rule_row_read: "rule_storable r \<Longrightarrow> rule_from_row (rule_to_row i r) = r\<lparr>ru_id := i\<rparr>"
  by (simp add: rule_from_row_def rule_to_row_def rule_storable_def positive_secs_read whole_secs_def as_i64_small
      duration_from_secs_def)

lemma rule_from_row_uid [simp]: "ru_uid (rule_from_row row) = row_uid row"
  by (simp add: rule_from_row_def row_uid_def)

lemma row_at_rules:
  assumes "distinct (map row_uid (ad_rules db))"
  shows "row_at ru_uid (list_rules db) u = map_option rule_from_row (row_at row_uid (ad_rules db) u)"
proof -
  let ?sorted = "sort_key (\<lambda>row. (\<not> ru_builtin (rr_rule row), ru_name (rr_rule row))) (ad_rules db)"
  have "distinct (map row_uid ?sorted)" using assms by (simp add: distinct_map)
  moreover have "row_at ru_uid (map rule_from_row rows) u = map_option rule_from_row (row_at row_uid rows u)" for rows
    by (induction rows) (simp_all add: row_at_def)
  moreover have "row_at row_uid ?sorted u = row_at row_uid (ad_rules db) u"
    using assms calculation(1) by (intro row_at_set) simp_all
  ultimately show ?thesis by (simp add: list_rules_def)
qed

text \<open>
  a rule that is saved is read back as it was saved, with the identifier of its row: when its durations are
  whole seconds, reading its \<open>uid\<close> gives the rule (a rule that existed stays built in or not), and every
  other rule reads as before.
\<close>

theorem saved_rule_is_read:
  assumes "rules_wf db" and "rule_storable r"
  shows "let (db', i) = upsert_rule r db in
    row_at ru_uid (list_rules db') u =
      (if u = ru_uid r
       then Some (r\<lparr>ru_id := i, ru_builtin := (case row_at row_uid (ad_rules db) (ru_uid r) of
                     None \<Rightarrow> ru_builtin r | Some old \<Rightarrow> ru_builtin (rr_rule old))\<rparr>)
       else row_at ru_uid (list_rules db) u)"
proof -
  let ?f = "\<lambda>row. rule_to_row (row_id row) (r\<lparr>ru_builtin := ru_builtin (rr_rule row)\<rparr>)"
  let ?new = "rule_to_row (ad_next_rule db) r"
  have upd: "row_update row_uid (ru_uid r) ?f" by unfold_locales simp
  have rows: "ad_rules (fst (upsert_rule r db)) = upsert_by row_uid (ru_uid r) ?f ?new (ad_rules db)"
    "snd (upsert_rule r db) = (case row_at row_uid (ad_rules db) (ru_uid r) of None \<Rightarrow> ad_next_rule db | Some old \<Rightarrow> row_id old)"
    using row_at_None [of row_uid "ad_rules db" "ru_uid r"]
    by (auto simp: upsert_rule_def upsert_by_def update_by_def list_ex_key simp flip: row_at_def split: option.splits)
  have d: "distinct (map row_uid (ad_rules db))" using assms(1) by (simp add: rules_wf_def)
  have "distinct (map row_uid (ad_rules (fst (upsert_rule r db))))"
    unfolding rows by (rule row_update.upsert_distinct [OF upd _ d]) simp
  moreover have "rule_storable (r\<lparr>ru_builtin := b\<rparr>)" for b using assms(2) by (simp add: rule_storable_def)
  ultimately show ?thesis
    by (simp add: split_def row_at_rules d rows row_update.row_at_upsert [OF upd] rule_row_read assms(2) split: option.splits)
qed

theorem saved_rule_is_read_witness:
  "let (db', i) = upsert_rule (sample_rule ''disk_full'') alert_db_empty
   in row_at ru_uid (list_rules db') ''disk_full'' = Some ((sample_rule ''disk_full'')\<lparr>ru_id := i\<rparr>)"
  using saved_rule_is_read [of alert_db_empty "sample_rule ''disk_full''" "''disk_full''"]
  by (simp add: rules_wf_def alert_db_empty_def rule_storable_def whole_secs_def as_secs_def sample_rule_def row_at_def
      split: prod.splits)


end
