(* ===== verification/Channel_Store.thy ===== *)
theory Channel_Store
  imports Alert_Store
begin

text \<open>
  Notification channels and the cipher that protects their secrets: \<^verbatim>\<open>crates/server/src/crypto.rs\<close>, the channel
  part of \<^verbatim>\<open>db/alerts.rs\<close> and the policies of \<^verbatim>\<open>notify/policy_store.rs\<close>. AES-GCM and Argon2id come from
  other crates, JSON from \<^verbatim>\<open>serde_json\<close>: they are parameters, and what is relied on (decryption undoes
  encryption under the same nonce, reading undoes writing) is a hypothesis of the theorems that need it.
\<close>

section \<open>The cipher\<close>

type_synonym bytes = "8 word list"

definition NONCE_LEN :: nat where
  "NONCE_LEN = 12"

text \<open>The text \<^verbatim>\<open>ezymonit-canary-v1\<close>.\<close>

definition CANARY :: bytes where
  "CANARY = map (\<lambda>c. of_nat (of_char c)) ''ezymonit-canary-v1''"

record aead =
  ae_encrypt :: "bytes \<Rightarrow> bytes \<Rightarrow> bytes option"
  ae_decrypt :: "bytes \<Rightarrow> bytes \<Rightarrow> bytes option"

datatype crypto_error =
    SecretTooShort
  | SaltTooShort nat
  | KeyDerivationFailed
  | EncryptionFailed
  | Truncated nat
  | DecryptionFailed
  | SecretMismatch
  | CanaryCorrupted

text \<open>\<open>argon2\<close> derives 32 bytes, \<open>from_key\<close> builds the cipher from them.\<close>

definition cipher_derive ::
  "(bytes \<Rightarrow> bytes \<Rightarrow> bytes option) \<Rightarrow> (bytes \<Rightarrow> aead) \<Rightarrow> bytes \<Rightarrow> bytes \<Rightarrow> crypto_error + aead" where
  "cipher_derive argon2 from_key secret salt =
     (if length secret < 16 then Inl SecretTooShort
      else if length salt < 8 then Inl (SaltTooShort (length salt))
      else case argon2 secret salt of
          None \<Rightarrow> Inl KeyDerivationFailed
        | Some key_bytes \<Rightarrow> Inr (from_key key_bytes))"

text \<open>\<open>nonce\<close> is the random array of 12 bytes.\<close>

definition cipher_encrypt :: "aead \<Rightarrow> bytes \<Rightarrow> bytes \<Rightarrow> crypto_error + bytes" where
  "cipher_encrypt c nonce plaintext =
     (case ae_encrypt c nonce plaintext of
        None \<Rightarrow> Inl EncryptionFailed
      | Some ciphertext \<Rightarrow> Inr (nonce @ ciphertext))"

definition cipher_decrypt :: "aead \<Rightarrow> bytes \<Rightarrow> crypto_error + bytes" where
  "cipher_decrypt c data =
     (if length data \<le> NONCE_LEN then Inl (Truncated (length data))
      else case ae_decrypt c (take NONCE_LEN data) (drop NONCE_LEN data) of
          None \<Rightarrow> Inl DecryptionFailed
        | Some plaintext \<Rightarrow> Inr plaintext)"

definition encrypt_canary :: "aead \<Rightarrow> bytes \<Rightarrow> crypto_error + bytes" where
  "encrypt_canary c nonce = cipher_encrypt c nonce CANARY"

definition verify_canary :: "aead \<Rightarrow> bytes \<Rightarrow> crypto_error + unit" where
  "verify_canary c stored =
     (case cipher_decrypt c stored of
        Inl _ \<Rightarrow> Inl SecretMismatch
      | Inr decrypted \<Rightarrow> if decrypted \<noteq> CANARY then Inl CanaryCorrupted else Inr ())"

section \<open>Channels\<close>

record 'j json_codec =
  jc_to :: "'j \<Rightarrow> bytes"
  jc_from :: "bytes \<Rightarrow> 'j option"
  jc_null :: 'j

text \<open>A row of \<^verbatim>\<open>notification_channels\<close>; \<open>nc_policy\<close> is \<open>None\<close> when its JSON cannot be read.\<close>

record channel_row =
  nc_id :: int
  nc_name :: string
  nc_kind :: string
  nc_enabled :: bool
  nc_settings :: bytes
  nc_secret_enc :: "bytes option"
  nc_policy :: "channel_policy option"
  nc_last_error :: "string option"
  nc_last_sent_at :: "instant option"

record channel_db =
  cb_rows :: "channel_row list"
  cb_next_id :: int

record 'j channel_config =
  cc_id :: int
  cc_name :: string
  cc_kind :: string
  cc_enabled :: bool
  cc_settings :: 'j
  cc_secrets :: 'j

record 'j channel_draft =
  cd_id :: "int option"
  cd_name :: string
  cd_kind :: string
  cd_enabled :: bool
  cd_settings :: 'j
  cd_secrets :: "'j option"

definition json_or_null :: "'j json_codec \<Rightarrow> bytes \<Rightarrow> 'j" where
  "json_or_null js raw = (case jc_from js raw of None \<Rightarrow> jc_null js | Some v \<Rightarrow> v)"

definition read_secrets :: "'j json_codec \<Rightarrow> aead \<Rightarrow> bytes option \<Rightarrow> 'j" where
  "read_secrets js c enc =
     (case enc of
        None \<Rightarrow> jc_null js
      | Some raw \<Rightarrow> (case cipher_decrypt c raw of Inl _ \<Rightarrow> jc_null js | Inr plain \<Rightarrow> json_or_null js plain))"

definition channel_of_row :: "'j json_codec \<Rightarrow> aead \<Rightarrow> channel_row \<Rightarrow> 'j channel_config" where
  "channel_of_row js c row =
     \<lparr>cc_id = nc_id row, cc_name = nc_name row, cc_kind = nc_kind row, cc_enabled = nc_enabled row,
      cc_settings = json_or_null js (nc_settings row), cc_secrets = read_secrets js c (nc_secret_enc row)\<rparr>"

text \<open>\<^verbatim>\<open>ORDER BY name\<close>.\<close>

definition list_channels :: "'j json_codec \<Rightarrow> aead \<Rightarrow> channel_db \<Rightarrow> 'j channel_config list" where
  "list_channels js c db = map (channel_of_row js c) (sort_key nc_name (cb_rows db))"

definition get_channel :: "'j json_codec \<Rightarrow> aead \<Rightarrow> channel_db \<Rightarrow> int \<Rightarrow> 'j channel_config option" where
  "get_channel js c db i = find (\<lambda>channel. cc_id channel = i) (list_channels js c db)"

datatype channel_error = ChannelCrypto crypto_error | ChannelNameTaken

text \<open>\<open>name\<close> is \<^verbatim>\<open>UNIQUE\<close>: a statement that would break it fails and changes nothing.\<close>

definition name_taken :: "channel_db \<Rightarrow> int option \<Rightarrow> string \<Rightarrow> bool" where
  "name_taken db except name = list_ex (\<lambda>row. nc_name row = name \<and> Some (nc_id row) \<noteq> except) (cb_rows db)"

definition write_channel ::
  "'j json_codec \<Rightarrow> 'j channel_draft \<Rightarrow> bytes option \<Rightarrow> channel_db \<Rightarrow> channel_error + (channel_db \<times> int)" where
  "write_channel js draft encrypted db =
     (case cd_id draft of
        Some i \<Rightarrow>
          if name_taken db (Some i) (cd_name draft) \<and> list_ex (\<lambda>row. nc_id row = i) (cb_rows db)
          then Inl ChannelNameTaken
          else Inr (db\<lparr>cb_rows := update_by nc_id i (\<lambda>row. row\<lparr>nc_name := cd_name draft, nc_kind := cd_kind draft,
                  nc_enabled := cd_enabled draft, nc_settings := jc_to js (cd_settings draft),
                  nc_secret_enc := (case encrypted of None \<Rightarrow> nc_secret_enc row | Some e \<Rightarrow> Some e)\<rparr>) (cb_rows db)\<rparr>, i)
      | None \<Rightarrow>
          if name_taken db None (cd_name draft) then Inl ChannelNameTaken
          else Inr (db\<lparr>cb_rows := cb_rows db @ [\<lparr>nc_id = cb_next_id db, nc_name = cd_name draft, nc_kind = cd_kind draft,
                  nc_enabled = cd_enabled draft, nc_settings = jc_to js (cd_settings draft), nc_secret_enc = encrypted,
                  nc_policy = Some channel_policy_default, nc_last_error = None, nc_last_sent_at = None\<rparr>],
                  cb_next_id := cb_next_id db + 1\<rparr>, cb_next_id db))"

definition upsert_channel ::
  "'j json_codec \<Rightarrow> aead \<Rightarrow> bytes \<Rightarrow> 'j channel_draft \<Rightarrow> channel_db \<Rightarrow> channel_error + (channel_db \<times> int)" where
  "upsert_channel js c nonce draft db =
     (case cd_secrets draft of
        None \<Rightarrow> write_channel js draft None db
      | Some v \<Rightarrow>
          (case cipher_encrypt c nonce (jc_to js v) of
             Inl e \<Rightarrow> Inl (ChannelCrypto e)
           | Inr enc \<Rightarrow> write_channel js draft (Some enc) db))"

text \<open>The queue refers to its channel with \<^verbatim>\<open>ON DELETE CASCADE\<close>.\<close>

definition dequeue_channel :: "int \<Rightarrow> notify_db \<Rightarrow> notify_db" where
  "dequeue_channel i ndb = ndb\<lparr>nd_queue := filter (\<lambda>q. qi_channel_id q \<noteq> i) (nd_queue ndb)\<rparr>"

definition delete_channel :: "int \<Rightarrow> channel_db \<times> notify_db \<Rightarrow> (channel_db \<times> notify_db) \<times> bool" where
  "delete_channel i dbs =
     (let (db, ndb) = dbs
      in ((db\<lparr>cb_rows := filter (\<lambda>row. nc_id row \<noteq> i) (cb_rows db)\<rparr>, dequeue_channel i ndb),
          list_ex (\<lambda>row. nc_id row = i) (cb_rows db)))"

text \<open>A delivery report: the channel and the error, \<open>None\<close> on success.\<close>

definition record_delivery :: "int \<Rightarrow> string option \<Rightarrow> instant \<Rightarrow> channel_db \<Rightarrow> channel_db" where
  "record_delivery channel error now db =
     db\<lparr>cb_rows := update_by nc_id channel (\<lambda>row. case error of
            None \<Rightarrow> row\<lparr>nc_last_sent_at := Some (to_sql now), nc_last_error := None\<rparr>
          | Some e \<Rightarrow> row\<lparr>nc_last_error := Some e\<rparr>) (cb_rows db)\<rparr>"

definition load_channel_policies :: "channel_db \<Rightarrow> (int \<times> channel_policy) list" where
  "load_channel_policies db =
     map (\<lambda>row. (nc_id row, case nc_policy row of None \<Rightarrow> channel_policy_default | Some p \<Rightarrow> p)) (cb_rows db)"

definition save_channel_policy :: "int \<Rightarrow> channel_policy \<Rightarrow> channel_db \<Rightarrow> channel_db" where
  "save_channel_policy i policy db =
     db\<lparr>cb_rows := update_by nc_id i (\<lambda>row. row\<lparr>nc_policy := Some policy\<rparr>) (cb_rows db)\<rparr>"

section \<open>Invariant\<close>

definition channels_wf :: "channel_db \<Rightarrow> bool" where
  "channels_wf db =
     (distinct (map nc_id (cb_rows db)) \<and> distinct (map nc_name (cb_rows db)) \<and>
      list_all (\<lambda>i. i < cb_next_id db) (map nc_id (cb_rows db)))"

lemma channels_wf_rows:
  "channels_wf (db\<lparr>cb_rows := rows\<rparr>) \<longleftrightarrow>
     distinct (map nc_id rows) \<and> distinct (map nc_name rows) \<and> list_all (\<lambda>i. i < cb_next_id db) (map nc_id rows)"
  by (simp add: channels_wf_def)

lemma channels_wf_update:
  assumes "channels_wf db" and "\<And>row. nc_id row = i \<Longrightarrow> nc_id (f row) = i" and "\<And>row. nc_name (f row) = nc_name row"
  shows "channels_wf (db\<lparr>cb_rows := update_by nc_id i f (cb_rows db)\<rparr>)"
proof -
  have keys: "map nc_id (update_by nc_id i f (cb_rows db)) = map nc_id (cb_rows db)"
    "map nc_name (update_by nc_id i f (cb_rows db)) = map nc_name (cb_rows db)"
    using assms(2,3) by (induction "cb_rows db") (auto simp: update_by_def)
  from assms(1) show ?thesis unfolding channels_wf_rows keys unfolding channels_wf_def .
qed

lemma channels_wf_filter: "channels_wf db \<Longrightarrow> channels_wf (db\<lparr>cb_rows := filter P (cb_rows db)\<rparr>)"
  by (auto simp: channels_wf_def distinct_map_filter list_all_iff)

lemma delete_channel_notify_wf: "notify_db_wf ndb \<Longrightarrow> notify_db_wf (snd (fst (delete_channel i (db, ndb))))"
  by (simp add: delete_channel_def dequeue_channel_def notify_db_wf_filter)

lemma channels_wf_other:
  "channels_wf db \<Longrightarrow> channels_wf (record_delivery channel error now db)"
  "channels_wf db \<Longrightarrow> channels_wf (save_channel_policy i policy db)"
  "channels_wf db \<Longrightarrow> channels_wf (fst (fst (delete_channel i (db, ndb))))"
  by (auto simp: record_delivery_def save_channel_policy_def delete_channel_def channels_wf_filter
      intro!: channels_wf_update split: option.splits)

text \<open>The row a save writes, and that names stay unique.\<close>

definition updated_channel :: "'j json_codec \<Rightarrow> 'j channel_draft \<Rightarrow> bytes option \<Rightarrow> channel_row \<Rightarrow> channel_row" where
  "updated_channel js draft encrypted row =
     row\<lparr>nc_name := cd_name draft, nc_kind := cd_kind draft, nc_enabled := cd_enabled draft,
         nc_settings := jc_to js (cd_settings draft),
         nc_secret_enc := (case encrypted of None \<Rightarrow> nc_secret_enc row | Some e \<Rightarrow> Some e)\<rparr>"

interpretation renamed: row_update nc_id i "updated_channel js draft encrypted" for i js draft encrypted
  by unfold_locales (simp add: updated_channel_def)

lemma rename_distinct:
  assumes "distinct (map nc_name rows)" and "\<forall>row \<in> set rows. nc_name row = cd_name draft \<longrightarrow> nc_id row = i"
    and "distinct (map nc_id rows)"
  shows "distinct (map nc_name (update_by nc_id i (updated_channel js draft encrypted) rows))"
proof -
  let ?g = "\<lambda>row. if nc_id row = i then updated_channel js draft encrypted row else row"
  have name: "nc_name (?g row) = (if nc_id row = i then cd_name draft else nc_name row)" for row
    by (simp add: updated_channel_def)
  have "x = y" if "x \<in> set rows" "y \<in> set rows" "nc_name (?g x) = nc_name (?g y)" for x y
  proof -
    have "nc_id x = nc_id y \<or> nc_name x = nc_name y"
      using that assms(2) unfolding name by (metis (full_types))
    then show ?thesis using assms(1,3) that(1,2) by (meson distinct_map inj_onD)
  qed
  then have "inj_on (nc_name \<circ> ?g) (set rows)" by (simp add: inj_on_def)
  then show ?thesis using assms(1) by (simp add: update_by_def distinct_map)
qed

lemma write_channel_wf:
  assumes "channels_wf db" and "write_channel js draft encrypted db = Inr (db', i)"
  shows "channels_wf db'"
proof (cases "cd_id draft")
  case None
  with assms show ?thesis
    by (auto simp: write_channel_def channels_wf_def name_taken_def list_ex_iff list_all_iff image_iff split: if_splits)
      (force simp: less_le)+
next
  case (Some k)
  let ?rows = "update_by nc_id i (updated_channel js draft encrypted) (cb_rows db)"
  from Some assms(2) have db': "db' = db\<lparr>cb_rows := ?rows\<rparr>" "k = i"
    by (auto simp: write_channel_def updated_channel_def [abs_def] split: if_splits)
  have ids: "map nc_id ?rows = map nc_id (cb_rows db)" by (rule renamed.update_keys)
  have "distinct (map nc_name ?rows)"
  proof (cases "list_ex (\<lambda>row. nc_id row = i) (cb_rows db)")
    case True
    with Some assms(2) db' have "\<not> name_taken db (Some i) (cd_name draft)"
      by (auto simp: write_channel_def split: if_splits)
    then show ?thesis using assms(1)
      by (intro rename_distinct) (auto simp: name_taken_def channels_wf_def list_ex_iff)
  next
    case False
    then have "?rows = cb_rows db"
      unfolding update_by_def by (intro map_idI) (auto simp: list_ex_iff)
    with assms(1) show ?thesis by (simp add: channels_wf_def)
  qed
  with assms(1) show ?thesis unfolding db' channels_wf_rows ids unfolding channels_wf_def by blast
qed

lemma upsert_channel_wf: "channels_wf db \<Longrightarrow> upsert_channel js c nonce draft db = Inr (db', i) \<Longrightarrow> channels_wf db'"
  by (auto simp: upsert_channel_def split: option.splits sum.splits intro: write_channel_wf)

section \<open>Round trips\<close>

text \<open>What is relied on of AES-GCM and of \<^verbatim>\<open>serde_json\<close>.\<close>

definition aead_ok :: "aead \<Rightarrow> bool" where
  "aead_ok c = (\<forall>nonce p ct. ae_encrypt c nonce p = Some ct \<longrightarrow> ct \<noteq> [] \<and> ae_decrypt c nonce ct = Some p)"

definition json_ok :: "'j json_codec \<Rightarrow> bool" where
  "json_ok js = (\<forall>v. jc_from js (jc_to js v) = Some v)"

lemma cipher_roundtrip:
  assumes "aead_ok c" and "length nonce = NONCE_LEN" and "cipher_encrypt c nonce p = Inr data"
  shows "cipher_decrypt c data = Inr p"
  using assms by (auto simp: cipher_encrypt_def cipher_decrypt_def aead_ok_def split: option.splits)

lemma canary_accepted:
  "aead_ok c \<Longrightarrow> length nonce = NONCE_LEN \<Longrightarrow> encrypt_canary c nonce = Inr stored \<Longrightarrow> verify_canary c stored = Inr ()"
  by (auto simp: verify_canary_def encrypt_canary_def dest: cipher_roundtrip)

lemma get_channel_row:
  assumes "channels_wf db"
  shows "get_channel js c db i = map_option (channel_of_row js c) (row_at nc_id (cb_rows db) i)"
proof -
  have "find (\<lambda>ch. cc_id ch = i) (map (channel_of_row js c) rows) =
      map_option (channel_of_row js c) (row_at nc_id rows i)" for rows
    by (induction rows) (simp_all add: row_at_def channel_of_row_def)
  moreover have "row_at nc_id (sort_key nc_name (cb_rows db)) i = row_at nc_id (cb_rows db) i"
    using assms by (intro row_at_set) (simp_all add: channels_wf_def distinct_map)
  ultimately show ?thesis by (simp add: get_channel_def list_channels_def)
qed

lemma write_channel_row:
  assumes "channels_wf db" and "write_channel js draft encrypted db = Inr (db', i)"
    and "case cd_id draft of None \<Rightarrow> True | Some k \<Rightarrow> k \<in> nc_id ` set (cb_rows db)"
  shows "\<exists>row. row_at nc_id (cb_rows db') i = Some row \<and> nc_id row = i \<and> nc_name row = cd_name draft \<and>
    nc_kind row = cd_kind draft \<and> nc_enabled row = cd_enabled draft \<and> nc_settings row = jc_to js (cd_settings draft) \<and>
    nc_secret_enc row = (case encrypted of Some e \<Rightarrow> Some e
      | None \<Rightarrow> (case row_at nc_id (cb_rows db) i of None \<Rightarrow> None | Some old \<Rightarrow> nc_secret_enc old))"
proof (cases "cd_id draft")
  case None
  have "cb_next_id db \<notin> nc_id ` set (cb_rows db)" using assms(1) by (auto simp: channels_wf_def list_all_iff)
  then have "row_at nc_id (cb_rows db) (cb_next_id db) = None" by (simp add: row_at_None)
  then show ?thesis
    using assms(2) None
    by (auto simp: write_channel_def row_at_append row_at_def [of _ "[_]"] split: if_splits option.splits)
next
  case (Some k)
  with assms(2) have db': "db' = db\<lparr>cb_rows := update_by nc_id i (updated_channel js draft encrypted) (cb_rows db)\<rparr>" "k = i"
    by (auto simp: write_channel_def updated_channel_def [abs_def] split: if_splits)
  with Some assms(3) obtain old where "row_at nc_id (cb_rows db) i = Some old"
    by (cases "row_at nc_id (cb_rows db) i") (auto simp: row_at_None)
  moreover from this have "nc_id old = i" by (auto simp: row_at_def find_Some_iff)
  ultimately show ?thesis by (simp add: db' renamed.row_at_update updated_channel_def split: option.splits)
qed

section \<open>Property\<close>

text \<open>
  the settings and the secrets of a channel survive the disk. When a channel is saved, reading it gives
  the name, kind, activation and settings of the draft, and the secrets of the draft or, when the draft has
  none, those that were saved before: renaming a channel loses no token. Reading relies on the cipher
  decrypting what it encrypted and on JSON being read as it was written.
\<close>

theorem saved_channel_is_read:
  assumes "aead_ok c" and "json_ok js" and "channels_wf db" and "length nonce = NONCE_LEN"
    and "upsert_channel js c nonce draft db = Inr (db', i)"
    and "case cd_id draft of None \<Rightarrow> True | Some k \<Rightarrow> k \<in> nc_id ` set (cb_rows db)"
  shows "get_channel js c db' i =
    Some \<lparr>cc_id = i, cc_name = cd_name draft, cc_kind = cd_kind draft, cc_enabled = cd_enabled draft,
          cc_settings = cd_settings draft,
          cc_secrets = (case cd_secrets draft of
              Some v \<Rightarrow> v
            | None \<Rightarrow> (case get_channel js c db i of None \<Rightarrow> jc_null js | Some old \<Rightarrow> cc_secrets old))\<rparr>"
proof -
  have json: "json_or_null js (jc_to js v) = v" for v using assms(2) by (simp add: json_or_null_def json_ok_def)
  have wf': "channels_wf db'" by (rule upsert_channel_wf [OF assms(3,5)])
  obtain encrypted where enc: "write_channel js draft encrypted db = Inr (db', i)"
    "case cd_secrets draft of None \<Rightarrow> encrypted = None
       | Some v \<Rightarrow> (\<exists>e. encrypted = Some e \<and> cipher_encrypt c nonce (jc_to js v) = Inr e)"
    using assms(5) by (cases "cd_secrets draft") (auto simp: upsert_channel_def split: sum.splits)
  from write_channel_row [OF assms(3) enc(1) assms(6)] obtain row where row:
    "row_at nc_id (cb_rows db') i = Some row" "nc_id row = i" "nc_name row = cd_name draft" "nc_kind row = cd_kind draft"
    "nc_enabled row = cd_enabled draft" "nc_settings row = jc_to js (cd_settings draft)"
    "nc_secret_enc row = (case encrypted of Some e \<Rightarrow> Some e
      | None \<Rightarrow> (case row_at nc_id (cb_rows db) i of None \<Rightarrow> None | Some old \<Rightarrow> nc_secret_enc old))" by blast
  have "read_secrets js c (nc_secret_enc row) = (case cd_secrets draft of
              Some v \<Rightarrow> v
            | None \<Rightarrow> (case get_channel js c db i of None \<Rightarrow> jc_null js | Some old \<Rightarrow> cc_secrets old))"
  proof (cases "cd_secrets draft")
    case None
    with enc(2) row(7) show ?thesis
      by (auto simp: get_channel_row [OF assms(3)] channel_of_row_def read_secrets_def split: option.splits)
  next
    case (Some v)
    with enc(2) row(7) show ?thesis
      using cipher_roundtrip [OF assms(1,4)] json by (auto simp: read_secrets_def)
  qed
  then show ?thesis by (simp add: get_channel_row [OF wf'] row channel_of_row_def json)
qed

text \<open>A cipher that appends a byte, and JSON texts taken as they are.\<close>

definition plain_aead :: aead where
  "plain_aead = \<lparr>ae_encrypt = (\<lambda>nonce p. Some (p @ [0])),
                 ae_decrypt = (\<lambda>nonce ct. if ct = [] then None else Some (butlast ct))\<rparr>"

definition plain_json :: "bytes json_codec" where
  "plain_json = \<lparr>jc_to = (\<lambda>v. v), jc_from = Some, jc_null = []\<rparr>"

theorem saved_channel_is_read_witness:
  "let draft = \<lparr>cd_id = None, cd_name = ''home'', cd_kind = ''ntfy'', cd_enabled = True, cd_settings = [1], cd_secrets = Some [2, 3]\<rparr>;
       nonce = replicate 12 0
   in case upsert_channel plain_json plain_aead nonce draft \<lparr>cb_rows = [], cb_next_id = 1\<rparr> of
        Inl _ \<Rightarrow> False
      | Inr (db', i) \<Rightarrow> get_channel plain_json plain_aead db' i =
          Some \<lparr>cc_id = i, cc_name = ''home'', cc_kind = ''ntfy'', cc_enabled = True, cc_settings = [1], cc_secrets = [2, 3]\<rparr>"
proof -
  let ?draft = "\<lparr>cd_id = None, cd_name = ''home'', cd_kind = ''ntfy'', cd_enabled = True, cd_settings = [1 :: 8 word],
    cd_secrets = Some [2, 3]\<rparr>"
  let ?up = "upsert_channel plain_json plain_aead (replicate 12 0) ?draft \<lparr>cb_rows = [], cb_next_id = 1\<rparr>"
  have "\<exists>db'. ?up = Inr (db', 1)"
    by (simp add: upsert_channel_def cipher_encrypt_def plain_aead_def write_channel_def name_taken_def)
  then obtain db' where up: "?up = Inr (db', 1)" by blast
  have "aead_ok plain_aead" "json_ok plain_json" "channels_wf \<lparr>cb_rows = [], cb_next_id = 1\<rparr>"
    "length (replicate 12 (0 :: 8 word)) = NONCE_LEN"
    by (simp_all add: aead_ok_def plain_aead_def json_ok_def plain_json_def channels_wf_def NONCE_LEN_def)
  from saved_channel_is_read [OF this up] show ?thesis using up by simp
qed

end
