(* ===== verification/Alert_Engine.thy ===== *)
theory Alert_Engine
  imports Channel_Store
begin

text \<open>
  The loop of the alerting engine (\<^verbatim>\<open>crates/server/src/alerting/engine.rs\<close>): one cycle reads the tables and the
  metrics, plans, writes the states, applies the notification policy, sends, and cleans up; the loop runs a
  cycle per tick and the maintenance once per hour. The world outside is a record of parameters: which
  statements of the database fail, what the metric store answers, which deliveries succeed and what the
  clock says. A statement that fails ends the cycle with what was written so far, as \<^verbatim>\<open>?\<close> does.
\<close>

section \<open>Configuration\<close>

record alerting_config =
  cf_interval :: duration
  cf_history_retention :: duration
  cf_baseline_retention :: duration

definition alerting_config_default :: alerting_config where
  "alerting_config_default =
     \<lparr>cf_interval = from_secs 30, cf_history_retention = from_secs (90 * 24 * 3600),
      cf_baseline_retention = from_secs (60 * 24 * 3600)\<rparr>"

text \<open>\<^verbatim>\<open>u64::from_str\<close>: an optional plus sign and digits, within 64 bits.\<close>

definition parse_u64 :: "string \<Rightarrow> nat option" where
  "parse_u64 raw =
     (case parse_nat (case raw of c # cs \<Rightarrow> if c = CHR ''+'' then cs else raw | [] \<Rightarrow> []) of
        None \<Rightarrow> None
      | Some n \<Rightarrow> if n < 2 ^ 64 then Some n else None)"

text \<open>The product wraps in a release build.\<close>

definition env_days :: "string option \<Rightarrow> duration \<Rightarrow> duration" where
  "env_days var def =
     (case var of
        None \<Rightarrow> def
      | Some raw \<Rightarrow>
          (case parse_u64 raw of
             None \<Rightarrow> def
           | Some d \<Rightarrow> if d > 0 then from_secs (d * 86400 mod 2 ^ 64) else def))"

definition env_secs :: "string option \<Rightarrow> duration \<Rightarrow> duration" where
  "env_secs var def =
     (case var of
        None \<Rightarrow> def
      | Some raw \<Rightarrow> (case parse_u64 raw of None \<Rightarrow> def | Some n \<Rightarrow> if n > 0 then from_secs n else def))"

text \<open>\<open>env\<close> reads an environment variable.\<close>

definition config_from_env :: "(string \<Rightarrow> string option) \<Rightarrow> alerting_config" where
  "config_from_env env =
     \<lparr>cf_interval = max (env_secs (env ''DUMBMONIT_ALERT_INTERVAL_SECS'') (cf_interval alerting_config_default)) (from_secs 10),
      cf_history_retention =
        env_days (env ''DUMBMONIT_ALERT_HISTORY_DAYS'') (cf_history_retention alerting_config_default),
      cf_baseline_retention = cf_baseline_retention alerting_config_default\<rparr>"

section \<open>Devices\<close>

record target_row =
  tg_id :: target_id
  tg_name :: string
  tg_address :: string
  tg_kind :: string
  tg_parent_id :: "target_id option"
  tg_via_agent :: "target_id option"
  tg_tags :: labels
  tg_enabled :: bool
  tg_last_error :: "string option"

definition error_means_down :: "string \<Rightarrow> bool" where
  "error_means_down message = (starts_with message ''Timed out'' \<or> starts_with message ''Device unreachable'')"

definition target_node_of :: "target_row \<Rightarrow> target_node" where
  "target_node_of row =
     \<lparr>tn_id = tg_id row, tn_name = tg_name row, tn_address = tg_address row, tn_kind = tg_kind row,
      tn_parent_id = tg_parent_id row, tn_via_agent = tg_via_agent row, tn_tags = tg_tags row,
      tn_enabled = tg_enabled row,
      tn_unreachable = (tg_enabled row \<and> (case tg_last_error row of None \<Rightarrow> False | Some e \<Rightarrow> error_means_down e))\<rparr>"

section \<open>The server and the world\<close>

record server_db =
  sd_alerts :: alert_db
  sd_notify :: notify_db
  sd_overrides :: override_table
  sd_channels :: channel_db
  sd_targets :: "target_row list"
  sd_global :: "global_policy option"

definition list_target_nodes :: "server_db \<Rightarrow> target_node list" where
  "list_target_nodes db = map target_node_of (sd_targets db)"

definition load_global :: "server_db \<Rightarrow> global_policy" where
  "load_global db = (case sd_global db of None \<Rightarrow> global_policy_default | Some p \<Rightarrow> p)"

definition save_global :: "global_policy \<Rightarrow> server_db \<Rightarrow> server_db" where
  "save_global policy db = db\<lparr>sd_global := Some policy\<rparr>"

text \<open>The statements of a cycle and of the maintenance that can fail.\<close>

datatype stage =
    ListRules | ListTargets | LoadStates | ListSilences | ListOverrides | LoadBaselines | LoadGlobal
  | SaveStates | TouchStates | SaveBaselines | ListChannels | LoadPolicies | LoadLedger | ApplyPlan
  | RecordHistory | MarkNotified | PurgeStates
  | PurgeHistory | PurgeBaselines | PurgeSilences | MaintenanceGlobal | MaintenancePolicies | PurgeLedger

record world =
  w_calendar :: calendar
  w_fails :: "stage \<Rightarrow> bool"
  w_query :: "rule \<Rightarrow> series_point list option"
  w_deliver :: "nat \<Rightarrow> outgoing \<Rightarrow> string option"
  w_record_fails :: "nat \<Rightarrow> bool"
  w_report_fails :: "nat \<Rightarrow> bool"
  w_wall :: "nat \<Rightarrow> nat \<Rightarrow> instant"
  w_json :: "group_item \<Rightarrow> group_item option"
  w_readable :: "silence \<Rightarrow> bool"

record eval_report =
  er_rules_evaluated :: nat
  er_rules_failed :: nat
  er_alerts_tracked :: nat
  er_firing :: nat
  er_suppressed :: nat
  er_silenced :: nat
  er_learning :: nat
  er_groups :: nat
  er_notifications_sent :: nat
  er_notifications_failed :: nat

definition eval_report_default :: eval_report where
  "eval_report_default =
     \<lparr>er_rules_evaluated = 0, er_rules_failed = 0, er_alerts_tracked = 0, er_firing = 0, er_suppressed = 0,
      er_silenced = 0, er_learning = 0, er_groups = 0, er_notifications_sent = 0, er_notifications_failed = 0\<rparr>"

text \<open>One statement: nothing happens once an earlier one has failed.\<close>

definition run_stage ::
  "world \<Rightarrow> stage \<Rightarrow> (server_db \<Rightarrow> server_db) \<Rightarrow> stage option \<times> server_db \<Rightarrow> stage option \<times> server_db" where
  "run_stage w st f acc =
     (case acc of
        (Some e, db) \<Rightarrow> (Some e, db)
      | (None, db) \<Rightarrow> if w_fails w st then (Some st, db) else (None, f db))"

definition on_alerts :: "(alert_db \<Rightarrow> alert_db) \<Rightarrow> server_db \<Rightarrow> server_db" where
  "on_alerts f db = db\<lparr>sd_alerts := f (sd_alerts db)\<rparr>"

definition on_notify :: "(notify_db \<Rightarrow> notify_db) \<Rightarrow> server_db \<Rightarrow> server_db" where
  "on_notify f db = db\<lparr>sd_notify := f (sd_notify db)\<rparr>"

section \<open>One cycle\<close>

definition observe :: "world \<Rightarrow> rule list \<Rightarrow> rule_observations list" where
  "observe w rules = map (\<lambda>r. \<lparr>ob_rule = r, ob_series = w_query w r\<rparr>) rules"

definition cycle_input_of :: "world \<Rightarrow> instant \<Rightarrow> server_db \<Rightarrow> cycle_input" where
  "cycle_input_of w now db =
     \<lparr>ci_now = now, ci_observations = observe w (list_enabled_rules (sd_alerts db)),
      ci_targets = list_target_nodes db, ci_previous = load_states (sd_alerts db),
      ci_silences = list_silences (w_readable w) (sd_alerts db),
      ci_overrides = list_overrides (sd_overrides db) None None,
      ci_unacked_after = map_option (\<lambda>(after, _). nat after) (escalation (load_global db))\<rparr>"

definition cycle_of :: "world \<Rightarrow> instant \<Rightarrow> server_db \<Rightarrow> cycle_outcome \<times> baseline_store" where
  "cycle_of w now db =
     plan_cycle (w_calendar w) (cycle_input_of w now db) (load_baselines (bucket_of now) (sd_alerts db))"

text \<open>The recipients, in the order of the channels' names.\<close>

definition recipients_of :: "channel_db \<Rightarrow> recipient list" where
  "recipients_of db =
     (let policies = collect_map (load_channel_policies db)
      in map (\<lambda>row. \<lparr>rc_id = nc_id row, rc_kind = nc_kind row, rc_enabled = nc_enabled row,
                rc_policy = (case policies (nc_id row) of None \<Rightarrow> channel_policy_default | Some p \<Rightarrow> p)\<rparr>)
           (sort_key nc_name (cb_rows db)))"

definition cycle_lookback :: "server_db \<Rightarrow> timedelta" where
  "cycle_lookback db = lookback (load_global db) (map snd (load_channel_policies (sd_channels db)))"

definition plan_of :: "world \<Rightarrow> instant \<Rightarrow> alert_group list \<Rightarrow> server_db \<Rightarrow> plan" where
  "plan_of w now groups db =
     notify_plan (w_calendar w) groups (recipients_of (sd_channels db)) (load_global db)
       (load_ledger (w_json w) (sd_notify db) now (cycle_lookback db)) now"

text \<open>One message: its delivery, and what is recorded of it. A failure to record is only logged.\<close>

definition send_one ::
  "world \<Rightarrow> channel_row list \<Rightarrow> timedelta \<Rightarrow> instant \<Rightarrow> server_db \<times> nat \<times> nat \<Rightarrow> nat \<times> outgoing \<Rightarrow>
   server_db \<times> nat \<times> nat" where
  "send_one w channels window now acc msg =
     (let (db, sent, failed) = acc; (n, out) = msg
      in case find (\<lambda>row. nc_id row = og_channel_id out) channels of
           None \<Rightarrow> acc
         | Some channel \<Rightarrow>
             (let error = w_deliver w n out;
                  retry = map (\<lambda>(k, item). (item, w_wall w n k)) (enumerate 0 (og_retry out));
                  db = (if w_record_fails w n then db
                        else if error = None
                        then on_notify (record_sent (og_channel_id out) (og_queue_ids out) (og_sent out) now) db
                        else on_notify (requeue retry window) db);
                  db = (if w_report_fails w n then db
                        else db\<lparr>sd_channels := record_delivery (nc_id channel) error now (sd_channels db)\<rparr>)
              in if error = None then (db, sent + 1, failed) else (db, sent, failed + 1)))"

definition send_outgoing ::
  "world \<Rightarrow> timedelta \<Rightarrow> instant \<Rightarrow> outgoing list \<Rightarrow> server_db \<Rightarrow> server_db \<times> nat \<times> nat" where
  "send_outgoing w window now outgoing db =
     foldl (send_one w (sort_key nc_name (cb_rows (sd_channels db))) window now) (db, 0, 0) (enumerate 0 outgoing)"

text \<open>A transition that nothing of the cycle explains gets the verdict of the policy as its reason.\<close>

definition explain :: "plan \<Rightarrow> history_entry \<Rightarrow> history_entry" where
  "explain p e =
     (if he_reason e = [] \<and> he_fingerprint e \<notin> pl_announced p then
        (case pl_verdicts p (he_fingerprint e) of None \<Rightarrow> e | Some verdict \<Rightarrow> e\<lparr>he_reason := verdict\<rparr>)
      else e)"

definition report_of :: "rule_observations list \<Rightarrow> cycle_outcome \<Rightarrow> nat \<times> nat \<Rightarrow> eval_report" where
  "report_of observations outcome counts =
     (let n = (\<lambda>P. length (filter (\<lambda>out. P (ao_state out)) (co_alerts outcome)))
      in \<lparr>er_rules_evaluated = length (filter (\<lambda>obs. ob_series obs \<noteq> None) observations),
          er_rules_failed = length (filter (\<lambda>obs. ob_series obs = None) observations),
          er_alerts_tracked = length (co_alerts outcome),
          er_firing = n (\<lambda>s. phase_is_active (as_phase s)), er_suppressed = n as_suppressed,
          er_silenced = n as_silenced, er_learning = n as_learning,
          er_groups = length (co_groups outcome),
          er_notifications_sent = fst counts, er_notifications_failed = snd counts\<rparr>)"

text \<open>The writes of the cycle, the sending, the writes after it. The set of handled fingerprints is walked in
  some order; the marks do not depend on it.\<close>

definition write_cycle ::
  "world \<Rightarrow> instant \<Rightarrow> cycle_outcome \<Rightarrow> baseline_store \<Rightarrow> server_db \<Rightarrow> stage option \<times> server_db" where
  "write_cycle w now outcome baselines db =
     run_stage w LoadLedger id (run_stage w LoadPolicies id (run_stage w ListChannels id
       (run_stage w SaveBaselines (on_alerts (save_baselines baselines now))
         (run_stage w TouchStates (on_alerts (touch_states (co_carried_over outcome) now))
           (run_stage w SaveStates (on_alerts (save_states (co_alerts outcome))) (None, db))))))"

definition finish_cycle ::
  "world \<Rightarrow> instant \<Rightarrow> cycle_outcome \<Rightarrow> plan \<Rightarrow> server_db \<Rightarrow> stage option \<times> server_db" where
  "finish_cycle w now outcome p db =
     run_stage w PurgeStates (on_alerts (purge_states now))
       (run_stage w MarkNotified (on_alerts (mark_notified (sorted_list_of_set (pl_handled p)) now))
         (run_stage w RecordHistory
            (on_alerts (record_history (map (explain p) (co_history outcome)) (pl_announced p))) (None, db)))"

text \<open>The cycle once everything has been read.\<close>

definition run_cycle :: "world \<Rightarrow> instant \<Rightarrow> server_db \<Rightarrow> (stage + eval_report) \<times> server_db" where
  "run_cycle w now db =
     (let (outcome, baselines) = cycle_of w now db
      in case write_cycle w now outcome baselines db of
           (Some st, db) \<Rightarrow> (Inl st, db)
         | (None, db1) \<Rightarrow>
             (let p = plan_of w now (co_groups outcome) db1
              in if w_fails w ApplyPlan then (Inl ApplyPlan, db1)
                 else
                   (let (db2, counts) = send_outgoing w (secs (gp_batch_window_secs (load_global db)))
                          now (pl_outgoing p) (on_notify (apply_plan p) db1)
                    in case finish_cycle w now outcome p db2 of
                         (Some st, db3) \<Rightarrow> (Inl st, db3)
                       | (None, db3) \<Rightarrow>
                           (Inr (report_of (ci_observations (cycle_input_of w now db)) outcome counts), db3))))"

text \<open>The statements that only read, in their order.\<close>

definition cycle_reads :: "stage list" where
  "cycle_reads = [ListTargets, LoadStates, ListSilences, ListOverrides, LoadBaselines, LoadGlobal]"

definition evaluate_once :: "world \<Rightarrow> instant \<Rightarrow> server_db \<Rightarrow> (stage + eval_report) \<times> server_db" where
  "evaluate_once w now db =
     (if w_fails w ListRules then (Inl ListRules, db)
      else if list_enabled_rules (sd_alerts db) = [] then (Inr eval_report_default, db)
      else case find (w_fails w) cycle_reads of
          Some st \<Rightarrow> (Inl st, db)
        | None \<Rightarrow> run_cycle w now db)"

section \<open>Maintenance and loop\<close>

definition maintenance :: "world \<Rightarrow> alerting_config \<Rightarrow> instant \<Rightarrow> server_db \<Rightarrow> stage option \<times> server_db" where
  "maintenance w config now db =
     (let cutoff = (\<lambda>d. now - (case from_std d of None \<Rightarrow> 0 | Some t \<Rightarrow> t))
      in run_stage w PurgeLedger (on_notify (purge_ledger now (cycle_lookback db)))
           (run_stage w MaintenancePolicies id (run_stage w MaintenanceGlobal id
             (run_stage w PurgeSilences (on_alerts (\<lambda>a. fst (purge_expired_silences (w_readable w) now a)))
               (run_stage w PurgeBaselines (on_alerts (purge_stale_baselines (cutoff (cf_baseline_retention config))))
                 (run_stage w PurgeHistory (on_alerts (purge_history (cutoff (cf_history_retention config)))) (None, db)))))))"

text \<open>One turn of the loop: the cycle, whatever its result, then the maintenance when an hour has passed.\<close>

definition tick :: "world \<Rightarrow> alerting_config \<Rightarrow> instant \<Rightarrow> server_db \<times> instant \<Rightarrow> server_db \<times> instant" where
  "tick w config now st =
     (let (db, last_maintenance) = st; db = snd (evaluate_once w now db)
      in if now - last_maintenance \<ge> seconds 3600 then (snd (maintenance w config now db), now)
         else (db, last_maintenance))"

end
