(* ===== verification/Engine_Properties.thy ===== *)
theory Engine_Properties
  imports Alert_Engine
begin

text \<open>
  What holds of the whole server, cycle after cycle: the invariant of its tables under every operation and
  every failure of a statement, what an outage of the metric store leaves behind, which rows a cycle keeps,
  and what becomes of a message that could not be delivered.
\<close>

section \<open>The invariant\<close>

definition alerts_wf :: "alert_db \<Rightarrow> bool" where
  "alerts_wf a = (states_wf (ad_states a) \<and> rules_wf a)"

definition server_wf :: "server_db \<Rightarrow> bool" where
  "server_wf db =
     (alerts_wf (sd_alerts db) \<and> notify_db_wf (sd_notify db) \<and> bt_wf (sd_overrides db) \<and> channels_wf (sd_channels db))"

lemma alerts_wf_states:
  "alerts_wf a \<Longrightarrow> states_wf rows \<Longrightarrow> alerts_wf (a\<lparr>ad_states := rows\<rparr>)"
  by (simp add: alerts_wf_def rules_wf_def)

lemma alerts_wf_same:
  "ad_states b = ad_states a \<Longrightarrow> ad_rules b = ad_rules a \<Longrightarrow> ad_next_rule b = ad_next_rule a \<Longrightarrow> alerts_wf b = alerts_wf a"
  by (simp add: alerts_wf_def rules_wf_def)

lemma alerts_wf_save: "alerts_wf a \<Longrightarrow> list_all outcome_ok outs \<Longrightarrow> alerts_wf (save_states outs a)"
  using states_wf_save [of a outs] by (simp add: alerts_wf_def rules_wf_def save_states_def)

lemma state_wf_eval_at: "state_wf s \<Longrightarrow> state_wf (s\<lparr>as_last_eval_at := t\<rparr>)"
  by (simp add: state_wf_def)

lemma alerts_wf_cycle_writes:
  "alerts_wf a \<Longrightarrow> alerts_wf (touch_states fps now a)"
  "alerts_wf a \<Longrightarrow> alerts_wf (mark_notified fps now a)"
  "alerts_wf a \<Longrightarrow> alerts_wf (purge_states now a)"
  "alerts_wf a \<Longrightarrow> alerts_wf (save_baselines store now a)"
  "alerts_wf a \<Longrightarrow> alerts_wf (record_history entries told a)"
proof -
  have rows: "alerts_wf a \<Longrightarrow> states_wf (ad_states a)" by (simp add: alerts_wf_def)
  have "as_last_eval_at (mark_notified_state t s) = as_last_eval_at s" for t s by (simp add: mark_notified_state_def)
  then show "alerts_wf a \<Longrightarrow> alerts_wf (mark_notified fps now a)"
    unfolding mark_notified_def by (intro alerts_wf_states states_wf_updates rows state_wf_mark_notified) simp_all
  show "alerts_wf a \<Longrightarrow> alerts_wf (touch_states fps now a)"
    unfolding touch_states_def by (intro alerts_wf_states states_wf_updates rows state_wf_eval_at) simp_all
  show "alerts_wf a \<Longrightarrow> alerts_wf (purge_states now a)"
    unfolding purge_states_def by (intro alerts_wf_states states_wf_filter rows)
  show "alerts_wf a \<Longrightarrow> alerts_wf (save_baselines store now a)" "alerts_wf a \<Longrightarrow> alerts_wf (record_history entries told a)"
    by (simp_all add: alerts_wf_def rules_wf_def save_baselines_def record_history_def)
qed

lemma delete_silence_same:
  "ad_states (fst (delete_silence i a)) = ad_states a" "ad_rules (fst (delete_silence i a)) = ad_rules a"
  "ad_next_rule (fst (delete_silence i a)) = ad_next_rule a"
  by (simp_all add: delete_silence_def)

lemma alerts_wf_silences: "alerts_wf a \<Longrightarrow> alerts_wf (fst (purge_expired_silences readable now a))"
proof -
  have "alerts_wf (fst acc) \<Longrightarrow> alerts_wf (fst (foldl (\<lambda>(db, removed) s. case delete_silence (si_id s) db of
      (db, gone) \<Rightarrow> (db, if gone then removed + 1 else removed)) acc ss))" for acc :: "alert_db \<times> nat" and ss
    by (rule foldl_invariant [where P = "\<lambda>acc. alerts_wf (fst acc)"])
      (auto simp: split_def alerts_wf_same [OF delete_silence_same])
  from this [of "(a, 0)"] show "alerts_wf a \<Longrightarrow> ?thesis" unfolding purge_expired_silences_def by simp
qed

lemma alerts_wf_maintenance:
  "alerts_wf a \<Longrightarrow> alerts_wf (purge_history t a)"
  "alerts_wf a \<Longrightarrow> alerts_wf (purge_stale_baselines t a)"
  by (simp_all add: purge_history_def purge_stale_baselines_def alerts_wf_def rules_wf_def Let_def)

lemma alerts_wf_user:
  "alerts_wf a \<Longrightarrow> alerts_wf (fst (create_silence s a))"
  "alerts_wf a \<Longrightarrow> alerts_wf (fst (delete_silence i a))"
  "alerts_wf a \<Longrightarrow> alerts_wf (fst (set_rule_enabled i b a))"
  "alerts_wf a \<Longrightarrow> alerts_wf (fst (delete_rule i a))"
proof -
  show "alerts_wf a \<Longrightarrow> alerts_wf (fst (create_silence s a))" "alerts_wf a \<Longrightarrow> alerts_wf (fst (delete_silence i a))"
    by (simp_all add: create_silence_def delete_silence_def alerts_wf_def rules_wf_def)
  have "map row_uid (map g rows) = map row_uid rows" "map row_id (map g rows) = map row_id rows"
    if "g = (\<lambda>row. if row_id row = i then row\<lparr>rr_rule := (rr_rule row)\<lparr>ru_enabled := b\<rparr>\<rparr> else row)" for g rows
    using that by (auto simp: row_uid_def row_id_def)
  note keys = this [OF refl]
  show "alerts_wf a \<Longrightarrow> alerts_wf (fst (set_rule_enabled i b a))"
    using keys [of "ad_rules a"]
    by (auto simp: set_rule_enabled_def alerts_wf_def rules_wf_def list_all_iff row_id_def simp del: map_map)
  show "alerts_wf a \<Longrightarrow> alerts_wf (fst (delete_rule i a))"
    by (auto simp: delete_rule_def alerts_wf_def rules_wf_def states_wf_filter distinct_map_filter list_all_iff
        split: option.splits)
qed

lemma alerts_wf_seed: "alerts_wf a \<Longrightarrow> alerts_wf (fst (seed_builtin_rules rules a))"
proof -
  have "rules_wf (fst acc) \<Longrightarrow> rules_wf (fst (foldl (\<lambda>acc r. seed_rule r acc) acc rules))" for acc
    by (rule foldl_invariant [where P = "\<lambda>acc. rules_wf (fst acc)"]) (auto intro: seed_rule_wf)
  moreover have "ad_states (fst (foldl (\<lambda>acc r. seed_rule r acc) acc rules)) = ad_states (fst acc)" for acc
    by (rule foldl_invariant [where P = "\<lambda>b. ad_states (fst b) = ad_states (fst acc)"])
      (auto simp: seed_rule_def split_def Let_def)
  ultimately show "alerts_wf a \<Longrightarrow> ?thesis" by (simp add: alerts_wf_def seed_builtin_rules_def)
qed

lemma alerts_wf_upsert_rule: "alerts_wf a \<Longrightarrow> alerts_wf (fst (upsert_rule r a))"
proof (cases "find (\<lambda>row. row_uid row = ru_uid r) (ad_rules a)")
  case None
  assume wf: "alerts_wf a"
  from None have "ru_uid r \<notin> row_uid ` set (ad_rules a)" by (auto simp: find_None_iff)
  moreover have "ad_next_rule a \<notin> row_id ` set (ad_rules a)" using wf by (auto simp: alerts_wf_def rules_wf_def list_all_iff)
  ultimately show ?thesis using wf None
    by (auto simp: upsert_rule_def alerts_wf_def rules_wf_def list_all_iff intro: less_trans [OF _ zless_add1_eq [THEN iffD2]])
next
  case (Some old)
  assume wf: "alerts_wf a"
  let ?g = "\<lambda>row. if row_uid row = ru_uid r then rule_to_row (row_id row) (r\<lparr>ru_builtin := ru_builtin (rr_rule row)\<rparr>) else row"
  have keys: "map (row_uid \<circ> ?g) rows = map row_uid rows" "map (row_id \<circ> ?g) rows = map row_id rows" for rows by auto
  have "row_id (?g row) = row_id row" for row by simp
  then show ?thesis using wf Some
    by (auto simp: upsert_rule_def alerts_wf_def rules_wf_def keys list_all_iff)
qed

lemma alerts_wf_set_ack: "alerts_wf a \<Longrightarrow> alerts_wf (fst (fst (set_ack fp ack (a, n))))"
proof -
  have "as_last_eval_at (set_ack_state x s) = as_last_eval_at s" for x s
    by (simp add: set_ack_state_def split: option.splits)
  then show "alerts_wf a \<Longrightarrow> ?thesis"
    by (auto simp: set_ack_def alerts_wf_def [of a] intro!: alerts_wf_states states_wf_update state_wf_set_ack)
qed

lemma alerts_wf_forget: "alerts_wf a \<Longrightarrow> alerts_wf (fst (fst (forget_target t now (a, n))))"
  by (simp add: forget_target_def alerts_wf_def rules_wf_def states_wf_filter)

section \<open>The notification tables within a cycle\<close>

lemma notify_wf_steps: "notify_db_wf n \<Longrightarrow> notify_step n n' \<Longrightarrow> notify_db_wf n'"
  by (rule notify_machine.invar_step)

lemma notify_wf_user:
  "notify_db_wf n \<Longrightarrow> notify_db_wf (snd (fst (set_ack fp ack (a, n))))"
  "notify_db_wf n \<Longrightarrow> notify_db_wf (snd (fst (forget_target t now (a, n))))"
  by (auto simp: set_ack_def forget_target_def intro: notify_wf_steps notify_step.intros)

section \<open>One cycle keeps the invariant\<close>

lemma server_wf_alerts: "server_wf db \<Longrightarrow> alerts_wf (f (sd_alerts db)) \<Longrightarrow> server_wf (on_alerts f db)"
  by (simp add: server_wf_def on_alerts_def)

lemma server_wf_alertsD: "server_wf db \<Longrightarrow> alerts_wf (sd_alerts db)"
  by (simp add: server_wf_def)

lemma server_wf_notify: "server_wf db \<Longrightarrow> notify_step (sd_notify db) (f (sd_notify db)) \<Longrightarrow> server_wf (on_notify f db)"
  by (auto simp: server_wf_def on_notify_def intro: notify_wf_steps)

lemma run_stage_invariant:
  assumes "P (snd acc)" and "\<And>db. P db \<Longrightarrow> P (f db)"
  shows "P (snd (run_stage w st f acc))"
  using assms by (auto simp: run_stage_def split: prod.splits option.splits)

lemma enabled_rules_distinct:
  assumes "rules_wf a"
  shows "distinct (map ru_uid (list_enabled_rules a))"
proof -
  let ?rows = "sort_key row_id (filter (\<lambda>row. ru_enabled (rr_rule row)) (ad_rules a))"
  have "mset (map row_uid ?rows) = mset (map row_uid (filter (\<lambda>row. ru_enabled (rr_rule row)) (ad_rules a)))"
    by simp
  moreover have "distinct (map row_uid (filter (\<lambda>row. ru_enabled (rr_rule row)) (ad_rules a)))"
    using assms by (simp add: rules_wf_def distinct_map_filter)
  ultimately have "distinct (map row_uid ?rows)" using mset_eq_imp_distinct_iff by blast
  then show ?thesis by (simp add: list_enabled_rules_def o_def)
qed

lemma loaded_rows:
  assumes "states_wf (ad_states a)"
  shows "rows_wf (load_states a)" "rows_keyed (load_states a)"
  using assms
  by (auto simp: rows_wf_def rows_keyed_def states_wf_def list_all_iff state_row_wf_def load_states_def
      stored_alert.truncate_def)

lemma cycle_outcomes_ok:
  assumes "server_wf db"
  shows "distinct (map ao_fingerprint (co_alerts (fst (cycle_of w now db))))"
    "list_all outcome_ok (co_alerts (fst (cycle_of w now db)))"
proof -
  let ?input = "cycle_input_of w now db"
  have obs: "distinct (map (ru_uid \<circ> ob_rule) (ci_observations ?input))"
    using assms enabled_rules_distinct
    by (simp add: cycle_input_of_def observe_def o_def server_wf_def alerts_wf_def)
  have rows: "rows_wf (ci_previous ?input)" "rows_keyed (ci_previous ?input)"
    using assms by (simp_all add: cycle_input_of_def server_wf_def alerts_wf_def loaded_rows)
  show "distinct (map ao_fingerprint (co_alerts (fst (cycle_of w now db))))"
    using plan_cycle_fingerprints [OF obs rows(2)] by (simp add: cycle_of_def)
  show "list_all outcome_ok (co_alerts (fst (cycle_of w now db)))"
    using plan_cycle_fingerprints [OF obs rows(2)] plan_cycle_states [OF rows(1)] plan_cycle_evaluated
    by (fastforce simp: cycle_of_def outcome_ok_def list_all_iff)
qed

lemma write_cycle_wf:
  assumes "server_wf db" and "list_all outcome_ok (co_alerts outcome)"
  shows "server_wf (snd (write_cycle w now outcome baselines db))"
  unfolding write_cycle_def
  by (intro run_stage_invariant [where P = server_wf])
    (use assms in \<open>auto intro!: server_wf_alerts alerts_wf_save alerts_wf_cycle_writes dest: server_wf_alertsD\<close>)

lemma finish_cycle_wf:
  assumes "server_wf db"
  shows "server_wf (snd (finish_cycle w now outcome p db))"
  unfolding finish_cycle_def
  by (intro run_stage_invariant [where P = server_wf])
    (use assms in \<open>auto intro!: server_wf_alerts alerts_wf_cycle_writes dest: server_wf_alertsD\<close>)

lemma send_one_wf: "server_wf (fst acc) \<Longrightarrow> server_wf (fst (send_one w channels window now acc msg))"
proof -
  have "server_wf db \<Longrightarrow> server_wf (db\<lparr>sd_channels := record_delivery c error now (sd_channels db)\<rparr>)" for db c error
    by (simp add: server_wf_def channels_wf_other)
  moreover have "server_wf db \<Longrightarrow> server_wf (on_notify (record_sent c ids sent now) db)"
    "server_wf db \<Longrightarrow> server_wf (on_notify (requeue items window) db)" for db c ids sent items
    by (auto intro!: server_wf_notify notify_step.intros)
  ultimately show "server_wf (fst acc) \<Longrightarrow> ?thesis"
    by (auto simp: send_one_def split_def Let_def split: option.splits)
qed

lemma send_outgoing_wf: "server_wf db \<Longrightarrow> server_wf (fst (send_outgoing w window now outs db))"
  unfolding send_outgoing_def
  by (rule foldl_invariant [where P = "\<lambda>acc. server_wf (fst acc)"]) (simp_all add: send_one_wf)

lemma evaluate_once_wf:
  assumes "server_wf db"
  shows "server_wf (snd (evaluate_once w now db))"
proof -
  let ?c = "cycle_of w now db"
  note w = write_cycle_wf [OF assms cycle_outcomes_ok(2) [OF assms, of w now], of w now "snd ?c"]
  have sent: "server_wf (fst (send_outgoing w window now (pl_outgoing p) (on_notify (apply_plan p) db1)))"
    if "server_wf db1" for window p db1
    using that by (intro send_outgoing_wf server_wf_notify notify_step.intros)
  show ?thesis
    using assms w sent finish_cycle_wf
    by (auto simp: evaluate_once_def run_cycle_def split_def Let_def split: option.splits prod.splits)
qed

section \<open>What a successful cycle did\<close>

lemma run_stage_None:
  "run_stage w st f acc = (None, db') \<longleftrightarrow> (\<exists>db. acc = (None, db) \<and> \<not> w_fails w st \<and> db' = f db)"
  by (cases acc) (auto simp: run_stage_def split: option.splits)

lemma on_simps [simp]:
  "sd_alerts (on_alerts f db) = f (sd_alerts db)" "sd_notify (on_alerts f db) = sd_notify db"
  "sd_channels (on_alerts f db) = sd_channels db" "sd_global (on_alerts f db) = sd_global db"
  "sd_notify (on_notify g db) = g (sd_notify db)" "sd_alerts (on_notify g db) = sd_alerts db"
  "sd_channels (on_notify g db) = sd_channels db" "sd_global (on_notify g db) = sd_global db"
  by (simp_all add: on_alerts_def on_notify_def)

text \<open>The alert tables after the cycle, given what the policy handled and announced.\<close>

definition written_alerts :: "instant \<Rightarrow> cycle_outcome \<Rightarrow> baseline_store \<Rightarrow> plan \<Rightarrow> alert_db \<Rightarrow> alert_db" where
  "written_alerts now outcome baselines p a =
     purge_states now (mark_notified (sorted_list_of_set (pl_handled p)) now
       (record_history (map (explain p) (co_history outcome)) (pl_announced p)
         (save_baselines baselines now (touch_states (co_carried_over outcome) now (save_states (co_alerts outcome) a)))))"

lemma write_cycle_None:
  assumes "write_cycle w now outcome baselines db = (None, db1)"
  shows "db1 = on_alerts (\<lambda>a. save_baselines baselines now (touch_states (co_carried_over outcome) now
    (save_states (co_alerts outcome) a))) db"
  using assms by (auto simp: write_cycle_def run_stage_None on_alerts_def)

lemma plan_of_same:
  assumes "write_cycle w now outcome baselines db = (None, db1)"
  shows "plan_of w now groups db1 = plan_of w now groups db"
  unfolding write_cycle_None [OF assms]
  by (simp add: plan_of_def load_global_def cycle_lookback_def)

lemma finish_cycle_None:
  assumes "finish_cycle w now outcome p db = (None, db3)"
  shows "db3 = on_alerts (\<lambda>a. purge_states now (mark_notified (sorted_list_of_set (pl_handled p)) now
    (record_history (map (explain p) (co_history outcome)) (pl_announced p) a))) db"
  using assms by (auto simp: finish_cycle_def run_stage_None on_alerts_def)

lemma send_one_alerts: "sd_alerts (fst (send_one w channels window now acc msg)) = sd_alerts (fst acc)"
  by (auto simp: send_one_def split_def Let_def split: option.splits)

lemma send_outgoing_alerts: "sd_alerts (fst (send_outgoing w window now outs db)) = sd_alerts db"
  unfolding send_outgoing_def
  by (rule foldl_invariant [where P = "\<lambda>acc. sd_alerts (fst acc) = sd_alerts db"]) (simp_all add: send_one_alerts)

text \<open>The plan and the cycle as the tables determine them.\<close>

definition cycle_outcome_of :: "world \<Rightarrow> instant \<Rightarrow> server_db \<Rightarrow> cycle_outcome" where
  "cycle_outcome_of w now db = fst (cycle_of w now db)"

definition cycle_plan :: "world \<Rightarrow> instant \<Rightarrow> server_db \<Rightarrow> plan" where
  "cycle_plan w now db = plan_of w now (co_groups (cycle_outcome_of w now db)) db"

lemma evaluate_once_success:
  assumes "evaluate_once w now db = (Inr rep, db')" and "list_enabled_rules (sd_alerts db) \<noteq> []"
  shows "sd_alerts db' = written_alerts now (cycle_outcome_of w now db) (snd (cycle_of w now db)) (cycle_plan w now db) (sd_alerts db)"
    "sd_notify db' = sd_notify (fst (send_outgoing w (secs (gp_batch_window_secs (load_global db))) now
       (pl_outgoing (cycle_plan w now db))
       (on_notify (apply_plan (cycle_plan w now db)) (snd (write_cycle w now (cycle_outcome_of w now db) (snd (cycle_of w now db)) db)))))"
proof -
  let ?o = "cycle_outcome_of w now db"
  define b where "b = snd (cycle_of w now db)"
  let ?p = "cycle_plan w now db"
  let ?win = "secs (gp_batch_window_secs (load_global db))"
  have cyc: "cycle_of w now db = (?o, b)" by (simp add: cycle_outcome_of_def b_def)
  have run: "run_cycle w now db = (Inr rep, db')"
    using assms by (auto simp: evaluate_once_def split: if_splits option.splits)
  obtain r1 db1 where wr: "write_cycle w now ?o b db = (r1, db1)" by force
  have r1: "r1 = None"
    using run by (cases r1) (simp_all add: run_cycle_def cyc wr)
  note db1 = wr [unfolded r1]
  have p: "plan_of w now (co_groups ?o) db1 = ?p"
    using plan_of_same [OF db1] by (simp add: cycle_plan_def)
  let ?db2 = "fst (send_outgoing w ?win now (pl_outgoing ?p) (on_notify (apply_plan ?p) db1))"
  obtain r3 db3 where fin: "finish_cycle w now ?o ?p ?db2 = (r3, db3)" by force
  have "finish_cycle w now ?o ?p ?db2 = (None, db')"
    using run fin by (cases r3) (simp_all add: run_cycle_def cyc db1 p split_def Let_def split: if_splits)
  from finish_cycle_None [OF this] write_cycle_None [OF db1]
  show "sd_alerts db' = written_alerts now ?o (snd (cycle_of w now db)) ?p (sd_alerts db)"
    "sd_notify db' = sd_notify (fst (send_outgoing w ?win now (pl_outgoing ?p)
       (on_notify (apply_plan ?p) (snd (write_cycle w now ?o (snd (cycle_of w now db)) db)))))"
    unfolding b_def [symmetric] by (simp_all add: db1 send_outgoing_alerts written_alerts_def)
qed

lemma state_at_other [simp]:
  "state_at (save_baselines store now a) fp = state_at a fp"
  "state_at (record_history entries told a) fp = state_at a fp"
  by (simp_all add: state_at_def save_baselines_def record_history_def)

lemma state_at_purge:
  "distinct (map sa_fingerprint (ad_states a)) \<Longrightarrow>
   state_at (purge_states now a) fp =
     (case state_at a fp of None \<Rightarrow> None | Some r \<Rightarrow> if stale (to_sql now) (sa_state r) then None else Some r)"
  by (auto simp: state_at_def purge_states_def row_at_filter split: option.splits)

lemma finite_handled: "finite (pl_handled (plan_of w now groups db))"
proof -
  have "planner_invariant cal active policy groups lg now (\<lambda>s. finite (pl_handled (pn_plan s)))" for cal active policy lg
    by unfold_locales (auto simp: route_plan with_queue_def split_def Let_def)
  from planner_invariant.I_run [OF this _ refl] show ?thesis
    by (simp add: plan_of_def planner_start_def plan_default_def)
qed

text \<open>The row of a fingerprint after the cycle.\<close>

lemma state_at_written:
  assumes "server_wf db" and "finite (pl_handled p)"
  shows "state_at (written_alerts now (cycle_outcome_of w now db) baselines p (sd_alerts db)) fp =
    (let outcome = cycle_outcome_of w now db;
         row = (case row_at ao_fingerprint (co_alerts outcome) fp of
                  None \<Rightarrow> state_at (sd_alerts db) fp
                | Some out \<Rightarrow> Some (saved_row (state_at (sd_alerts db) fp) out));
         row = (if fp \<in> set (co_carried_over outcome)
                then map_option (\<lambda>r. r\<lparr>sa_state := (sa_state r)\<lparr>as_last_eval_at := Some (to_sql now)\<rparr>\<rparr>) row else row);
         row = (if fp \<in> pl_handled p
                then map_option (\<lambda>r. r\<lparr>sa_state := mark_notified_state (to_sql now) (sa_state r)\<rparr>) row else row)
     in case row of None \<Rightarrow> None | Some r \<Rightarrow> if stale (to_sql now) (sa_state r) then None else Some r)"
proof -
  let ?o = "cycle_outcome_of w now db"
  let ?a = "mark_notified (sorted_list_of_set (pl_handled p)) now
       (record_history (map (explain p) (co_history ?o)) (pl_announced p)
         (save_baselines baselines now (touch_states (co_carried_over ?o) now (save_states (co_alerts ?o) (sd_alerts db)))))"
  have "alerts_wf ?a"
    using cycle_outcomes_ok(2) [OF assms(1), of w now] server_wf_alertsD [OF assms(1)]
    by (simp add: alerts_wf_cycle_writes alerts_wf_save cycle_outcome_of_def)
  then have "distinct (map sa_fingerprint (ad_states ?a))" by (simp add: alerts_wf_def states_wf_def)
  then have "state_at (purge_states now ?a) fp =
      (case state_at ?a fp of None \<Rightarrow> None | Some r \<Rightarrow> if stale (to_sql now) (sa_state r) then None else Some r)"
    by (rule state_at_purge)
  moreover have "distinct (map ao_fingerprint (co_alerts ?o))"
    using cycle_outcomes_ok(1) [OF assms(1)] by (simp add: cycle_outcome_of_def)
  ultimately show ?thesis
    using assms(2) by (simp add: written_alerts_def state_at_mark state_at_touch state_at_save Let_def)
qed

lemma state_at_dom: "fp \<in> sa_fingerprint ` set (ad_states a) \<longleftrightarrow> state_at a fp \<noteq> None"
  by (simp add: state_at_def row_at_None)

lemma load_states_fp: "sa_fingerprint ` set (load_states a) = sa_fingerprint ` set (ad_states a)"
  by (force simp: load_states_def stored_alert.truncate_def)

lemma carried_known:
  "fp \<in> set (co_carried_over (cycle_outcome_of w now db)) \<Longrightarrow> state_at (sd_alerts db) fp \<noteq> None"
  unfolding cycle_outcome_of_def cycle_of_def carried_over_iff state_at_dom [symmetric] load_states_fp [symmetric]
  by (auto simp: cycle_live_def cycle_input_of_def)

lemma saved_row_eval_at:
  "as_last_eval_at (ao_state out) = Some now \<Longrightarrow> as_last_eval_at (sa_state (saved_row old out)) = Some (to_sql now)"
  by (simp add: saved_row_def new_alert_row_def state_columns_def Let_def split: option.splits)

lemma mark_notified_stale [simp]: "stale t (mark_notified_state t' s) = stale t s"
  by (simp add: stale_def mark_notified_state_def)

lemma just_evaluated_not_stale [simp]: "\<not> stale t (s\<lparr>as_last_eval_at := Some t\<rparr>)"
  by (simp add: stale_def)

lemma outcome_eval_at:
  "row_at ao_fingerprint (co_alerts (cycle_outcome_of w now db)) fp = Some out \<Longrightarrow> as_last_eval_at (ao_state out) = Some now"
proof -
  have "list_all (\<lambda>out. as_last_eval_at (ao_state out) = Some now) (co_alerts (cycle_outcome_of w now db))"
    using plan_cycle_evaluated [of "cycle_input_of w now db"]
    by (simp add: cycle_outcome_of_def cycle_of_def) (simp add: cycle_input_of_def)
  then show "row_at ao_fingerprint (co_alerts (cycle_outcome_of w now db)) fp = Some out \<Longrightarrow> ?thesis"
    by (auto simp: row_at_def find_Some_iff list_all_iff)
qed

text \<open>Without a failing statement, a cycle succeeds.\<close>

lemma evaluate_once_succeeds:
  assumes "\<And>st. \<not> w_fails w st"
  shows "\<exists>rep. fst (evaluate_once w now db) = Inr rep"
proof -
  have run: "run_stage w st f (None, db) = (None, f db)" for st f db by (simp add: run_stage_def assms)
  have reads: "find (w_fails w) xs = None" for xs using assms by (simp add: find_None_iff)
  show ?thesis
    by (simp add: evaluate_once_def run_cycle_def assms reads write_cycle_def finish_cycle_def run split_def Let_def)
qed

text \<open>With no group to announce, a plan handles nothing.\<close>

lemma no_groups_no_handled: "pl_handled (plan_of w now [] db) = {}"
proof -
  have "planner_invariant cal active policy [] lg now (\<lambda>s. pl_handled (pn_plan s) = {})" for cal active policy lg
    by unfold_locales (auto simp: route_plan with_queue_def split_def Let_def)
  from planner_invariant.I_run [OF this _ refl] show ?thesis
    by (simp add: plan_of_def planner_start_def plan_default_def)
qed

lemma unanswered_no_alerts:
  assumes "\<And>q. w_query w q = None"
  shows "co_alerts (cycle_outcome_of w now db) = []" "co_groups (cycle_outcome_of w now db) = []"
proof -
  let ?input = "cycle_input_of w now db"
  have "\<not> entry_origin ?input e" for e
    by (auto simp: entry_origin_def cycle_input_of_def observe_def assms)
  then have "ca_evaluated (evaluate_rules ?input store) = []" for store
    using evaluate_rules_origin [of ?input store] by (metis list.set_intros(1) neq_Nil_conv)
  then show alerts: "co_alerts (cycle_outcome_of w now db) = []"
    by (simp add: cycle_outcome_of_def cycle_of_def plan_cycle_parts(1) final_entries_def)
  have "group_alerts [] t = []" for t using group_alerts_set [of "[]" t] by (simp add: speaking_def reasons_def)
  with alerts show "co_groups (cycle_outcome_of w now db) = []"
    by (simp add: cycle_outcome_of_def cycle_of_def plan_cycle_parts(2))
qed

section \<open>The server as a machine\<close>

definition with_dbs :: "alert_db \<times> notify_db \<Rightarrow> server_db \<Rightarrow> server_db" where
  "with_dbs dbs db = db\<lparr>sd_alerts := fst dbs, sd_notify := snd dbs\<rparr>"

definition server_start :: server_db where
  "server_start =
     \<lparr>sd_alerts = alert_db_empty, sd_notify = notify_db_empty, sd_overrides = [],
      sd_channels = \<lparr>cb_rows = [], cb_next_id = 1\<rparr>, sd_targets = [], sd_global = None\<rparr>"

text \<open>The turns of the loop, with any failure of the world, and what the users do in between.\<close>

inductive server_step :: "server_db \<Rightarrow> server_db \<Rightarrow> bool" where
  step_tick: "server_step db (fst (tick w config now (db, last_maintenance)))"
| step_ack: "server_step db (with_dbs (fst (set_ack fp a (sd_alerts db, sd_notify db))) db)"
| step_forget: "server_step db (with_dbs (fst (forget_target t now (sd_alerts db, sd_notify db))) db)"
| step_seed: "server_step db (on_alerts (\<lambda>a. fst (seed_builtin_rules rules a)) db)"
| step_rule: "server_step db (on_alerts (\<lambda>a. fst (upsert_rule r a)) db)"
| step_rule_deleted: "server_step db (on_alerts (\<lambda>a. fst (delete_rule i a)) db)"
| step_rule_enabled: "server_step db (on_alerts (\<lambda>a. fst (set_rule_enabled i b a)) db)"
| step_silence: "server_step db (on_alerts (\<lambda>a. fst (create_silence sil a)) db)"
| step_silence_deleted: "server_step db (on_alerts (\<lambda>a. fst (delete_silence i a)) db)"
| step_override: "server_step db (db\<lparr>sd_overrides := upsert_override (sd_overrides db) over\<rparr>)"
| step_override_deleted: "server_step db (db\<lparr>sd_overrides := fst (delete_override (sd_overrides db) uid t)\<rparr>)"
| step_channel: "upsert_channel (js :: bytes json_codec) c nonce draft (sd_channels db) = Inr (cdb, i) \<Longrightarrow> server_step db (db\<lparr>sd_channels := cdb\<rparr>)"
| step_channel_deleted: "fst (delete_channel i (sd_channels db, sd_notify db)) = (cdb, ndb) \<Longrightarrow>
    server_step db (db\<lparr>sd_channels := cdb, sd_notify := ndb\<rparr>)"
| step_channel_policy: "server_step db (db\<lparr>sd_channels := save_channel_policy i pol (sd_channels db)\<rparr>)"
| step_global: "server_step db (save_global glob db)"
| step_targets: "server_step db (db\<lparr>sd_targets := rows\<rparr>)"

lemma maintenance_wf: "server_wf db \<Longrightarrow> server_wf (snd (maintenance w config now db))"
  unfolding maintenance_def Let_def
  by (intro run_stage_invariant [where P = server_wf])
    (auto intro!: server_wf_alerts server_wf_notify notify_step.intros alerts_wf_maintenance alerts_wf_silences
      dest: server_wf_alertsD)

lemma tick_wf: "server_wf db \<Longrightarrow> server_wf (fst (tick w config now (db, last_maintenance)))"
  by (simp add: tick_def Let_def evaluate_once_wf maintenance_wf)

lemma upsert_override_wf: "bt_wf tab \<Longrightarrow> bt_wf (upsert_override tab over)"
  by (simp add: upsert_override_def delete_override_def bt_wf_filter bt_wf_insert)

interpretation server_machine: invariant_machine "\<lambda>db. db = server_start" server_step server_wf
proof
  fix db db' assume wf: "server_wf db" and "server_step db db'"
  from this(2) show "server_wf db'"
  proof cases
    case (step_tick w config now last_maintenance)
    with wf show ?thesis by (simp add: tick_wf)
  next
    case (step_channel js c nonce draft cdb i)
    with wf upsert_channel_wf show ?thesis by (simp add: server_wf_def) blast
  next
    case (step_channel_deleted i cdb ndb)
    then have "cdb = fst (fst (delete_channel i (sd_channels db, sd_notify db)))"
      "ndb = snd (fst (delete_channel i (sd_channels db, sd_notify db)))" by simp_all
    with step_channel_deleted(1) wf channels_wf_other(3) delete_channel_notify_wf show ?thesis by (simp add: server_wf_def)
  qed (use wf in \<open>simp_all add: with_dbs_def alerts_wf_set_ack alerts_wf_forget notify_wf_user
        alerts_wf_seed alerts_wf_upsert_rule alerts_wf_user upsert_override_wf delete_override_def bt_wf_filter
        channels_wf_other save_global_def server_wf_def on_alerts_def\<close>)
qed (auto simp: server_start_def server_wf_def alerts_wf_def states_wf_def rules_wf_def alert_db_empty_def
    notify_db_empty_def notify_db_wf_def channels_wf_def)

section \<open>Properties\<close>

text \<open>
  C1: the tables of the server stay consistent for ever. Start from an empty installation and let the engine
  tick and the users act in any order, with any statement of any cycle failing, any query unanswered and any
  delivery refused: fingerprints, rule identifiers and channel names stay unique, every stored state is well
  formed and keyed under its rule, and the queue has one row per channel and fingerprint.
\<close>

theorem server_tables_consistent:
  assumes "server_step\<^sup>*\<^sup>* server_start db"
  shows "distinct (map sa_fingerprint (ad_states (sd_alerts db))) \<and>
    list_all (\<lambda>row. state_wf (sa_state row) \<and> keyed_under (sa_rule_uid row) (sa_fingerprint row)) (ad_states (sd_alerts db)) \<and>
    distinct (map row_uid (ad_rules (sd_alerts db))) \<and>
    distinct (map nc_name (cb_rows (sd_channels db))) \<and>
    distinct (map row_of (nd_queue (sd_notify db))) \<and> distinct (map qi_id (nd_queue (sd_notify db)))"
  using server_machine.invar_run [OF refl assms]
  by (auto simp: server_wf_def alerts_wf_def states_wf_def rules_wf_def state_row_wf_def list_all_iff channels_wf_def
      notify_db_wf_def)

text \<open>A world in which every query of \<open>''q''\<close> answers \<open>series\<close> and no delivery succeeds.\<close>

definition sample_world :: "series_point list option \<Rightarrow> world" where
  "sample_world series =
     \<lparr>w_calendar = spring_calendar, w_fails = (\<lambda>st. False), w_query = (\<lambda>q. series),
      w_deliver = (\<lambda>n out. Some ''unreachable''), w_record_fails = (\<lambda>n. False), w_report_fails = (\<lambda>n. False),
      w_wall = (\<lambda>n k. seconds 61), w_json = Some, w_readable = (\<lambda>s. True)\<rparr>"

theorem server_tables_consistent_witness:
  "let db = fst (tick (sample_world None) alerting_config_default 0
              (on_alerts (\<lambda>a. fst (upsert_rule (sample_rule ''disk_full'') a)) server_start, 0))
   in distinct (map sa_fingerprint (ad_states (sd_alerts db))) \<and> distinct (map row_uid (ad_rules (sd_alerts db)))"
proof -
  let ?db = "on_alerts (\<lambda>a. fst (upsert_rule (sample_rule ''disk_full'') a)) server_start"
  have "server_step\<^sup>*\<^sup>* server_start (fst (tick (sample_world None) alerting_config_default 0 (?db, 0)))"
    by (rule rtranclp.rtrancl_into_rtrancl [where b = ?db], rule r_into_rtranclp, rule step_rule, rule step_tick)
  from server_tables_consistent [OF this] show ?thesis by simp
qed

text \<open>
  a cycle leaves exactly the alerts it knows. After a successful cycle over rows of earlier cycles, the
  table of states has one row for each alert the cycle evaluated and one for each alert that a failed
  query froze, and no other: nothing evaluated or frozen is lost by the purge, and nothing stale survives it.
\<close>

theorem cycle_keeps_exactly:
  assumes "server_wf db" and "fst (evaluate_once w now db) = Inr rep"
    and "list_enabled_rules (sd_alerts db) \<noteq> []"
    and "list_all (\<lambda>row. stale (to_sql now) (sa_state row)) (ad_states (sd_alerts db))"
  shows "sa_fingerprint ` set (ad_states (sd_alerts (snd (evaluate_once w now db)))) =
    ao_fingerprint ` set (co_alerts (cycle_outcome_of w now db)) \<union> set (co_carried_over (cycle_outcome_of w now db))"
proof -
  let ?o = "cycle_outcome_of w now db"
  note wf = assms(1)
  have ev: "evaluate_once w now db = (Inr rep, snd (evaluate_once w now db))" using assms(2) by (metis prod.collapse)
  have stale: "stale (to_sql now) (sa_state row)" if "state_at (sd_alerts db) fp = Some row" for fp row
    using assms(4) that by (auto simp: state_at_def row_at_def find_Some_iff list_all_iff)
  have fresh: "\<not> stale (to_sql now) (sa_state (saved_row old out))"
    if "row_at ao_fingerprint (co_alerts ?o) fp = Some out" for fp old out
    using saved_row_eval_at [OF outcome_eval_at [OF that]] by (simp add: stale_def)
  have "state_at (sd_alerts (snd (evaluate_once w now db))) fp \<noteq> None \<longleftrightarrow>
      fp \<in> ao_fingerprint ` set (co_alerts ?o) \<union> set (co_carried_over ?o)" for fp
    unfolding evaluate_once_success(1) [OF ev assms(3)]
      state_at_written [OF wf finite_handled [of w now "co_groups ?o" db, folded cycle_plan_def]] Let_def
    using carried_known [of fp w now db] stale [of fp] fresh [of fp] row_at_None [of ao_fingerprint "co_alerts ?o" fp]
    by (cases "row_at ao_fingerprint (co_alerts ?o) fp"; cases "state_at (sd_alerts db) fp") auto
  then show ?thesis by (intro set_eqI) (simp only: state_at_dom)
qed

text \<open>An installation with one rule, one device and one alert that has fired.\<close>

definition sample_alert_row :: alert_row where
  "sample_alert_row =
     \<lparr>sa_fingerprint = fingerprint ''disk_full'' ''k'', sa_rule_uid = ''disk_full'', sa_target_id = Some 1,
      sa_series_key = ''k'', sa_labels = [],
      sa_state = mark_notified_state 0 (fst (advance alert_state_default True 0 0)), ar_severity = Warning\<rparr>"

definition sample_db :: server_db where
  "sample_db = server_start
     \<lparr>sd_alerts := alert_db_empty\<lparr>ad_rules := [rule_to_row 1 (sample_rule ''disk_full'')], ad_next_rule := 2,
                     ad_states := [sample_alert_row]\<rparr>,
      sd_targets := [\<lparr>tg_id = 1, tg_name = ''nas'', tg_address = ''10.0.0.2'', tg_kind = ''snmp'', tg_parent_id = None,
                      tg_via_agent = None, tg_tags = [], tg_enabled = True, tg_last_error = None\<rparr>]\<rparr>"

lemma sample_row_state:
  "state_wf (sa_state sample_alert_row)" "as_last_eval_at (sa_state sample_alert_row) = Some 0"
  by (simp_all add: sample_alert_row_def state_wf_mark_notified state_wf_advance state_wf_default advance_eval_at)
    (simp add: mark_notified_state_def advance_eval_at)

lemma sample_db_wf: "server_wf sample_db"
proof -
  have "state_row_wf sample_alert_row"
    unfolding state_row_wf_def using sample_row_state
    by (simp add: sample_alert_row_def keyed_under_fingerprint)
  then show ?thesis
    by (simp add: sample_db_def server_start_def server_wf_def alerts_wf_def states_wf_def rules_wf_def notify_db_empty_def
        notify_db_wf_def channels_wf_def alert_db_empty_def)
qed

lemma sample_db_rules: "list_enabled_rules (sd_alerts sample_db) = [rule_from_row (rule_to_row 1 (sample_rule ''disk_full''))]"
  by (simp add: sample_db_def list_enabled_rules_def rule_to_row_def sample_rule_def)

theorem cycle_keeps_exactly_witness:
  "sa_fingerprint ` set (ad_states (sd_alerts (snd (evaluate_once (sample_world (Some [])) (seconds 60) sample_db)))) =
    ao_fingerprint ` set (co_alerts (cycle_outcome_of (sample_world (Some [])) (seconds 60) sample_db)) \<union>
    set (co_carried_over (cycle_outcome_of (sample_world (Some [])) (seconds 60) sample_db))"
proof -
  obtain rep where "fst (evaluate_once (sample_world (Some [])) (seconds 60) sample_db) = Inr rep"
    using evaluate_once_succeeds [of "sample_world (Some [])"] by (auto simp: sample_world_def)
  then show ?thesis
    by (rule cycle_keeps_exactly [OF sample_db_wf])
      (simp_all add: sample_db_rules, simp add: sample_db_def stale_def sample_row_state to_sql_def seconds_def nanos_per_sec_def)
qed

text \<open>
  an outage of the metric store neither resolves nor forgets an alert. When no query is answered, a
  successful cycle leaves the row of each alert of an enabled rule and a live device as it was, except for the date
  of its evaluation.
\<close>

theorem outage_freezes_alerts:
  assumes "server_wf db" and "fst (evaluate_once w now db) = Inr rep"
    and "\<forall>q. w_query w q = None" and "row \<in> set (ad_states (sd_alerts db))"
    and "sa_rule_uid row \<in> ru_uid ` set (list_enabled_rules (sd_alerts db))"
    and "\<not> is_orphan (target_index_new (list_target_nodes db)) (stored_alert.truncate row)"
  shows "row\<lparr>sa_state := (sa_state row)\<lparr>as_last_eval_at := Some (to_sql now)\<rparr>\<rparr> \<in>
    set (ad_states (sd_alerts (snd (evaluate_once w now db))))"
proof -
  let ?o = "cycle_outcome_of w now db"
  let ?fp = "sa_fingerprint row"
  note wf = assms(1)
  have ev: "evaluate_once w now db = (Inr rep, snd (evaluate_once w now db))" using assms(2) by (metis prod.collapse)
  have rules: "list_enabled_rules (sd_alerts db) \<noteq> []" using assms(5) by auto
  have d: "distinct (map sa_fingerprint (ad_states (sd_alerts db)))" using wf by (simp add: server_wf_def alerts_wf_def states_wf_def)
  have row: "state_at (sd_alerts db) ?fp = Some row" using assms(4) d by (simp add: state_at_def row_at_in)
  have none: "co_alerts ?o = []" "pl_handled (cycle_plan w now db) = {}"
    using unanswered_no_alerts [of w now db] assms(3) no_groups_no_handled by (simp_all add: cycle_plan_def)
  obtain r where r: "r \<in> set (list_enabled_rules (sd_alerts db))" "ru_uid r = sa_rule_uid row" using assms(5) by auto
  have "?fp \<in> set (co_carried_over ?o)"
    unfolding cycle_outcome_of_def cycle_of_def carried_over_iff
  proof (intro exI conjI)
    show "stored_alert.truncate row \<in> set (cycle_live (cycle_input_of w now db))"
      using assms(4,6) by (simp add: cycle_live_def cycle_index_def cycle_input_of_def load_states_def)
    show "\<lparr>ob_rule = r, ob_series = None\<rparr> \<in> set (ci_observations (cycle_input_of w now db))"
      using r(1) assms(3) by (simp add: cycle_input_of_def observe_def)
    show "sa_rule_uid (stored_alert.truncate row) = ru_uid (ob_rule \<lparr>ob_rule = r, ob_series = None\<rparr>)"
      using r(2) by (simp add: stored_alert.truncate_def)
  qed (simp_all add: stored_alert.truncate_def)
  then have "state_at (sd_alerts (snd (evaluate_once w now db))) ?fp =
      Some (row\<lparr>sa_state := (sa_state row)\<lparr>as_last_eval_at := Some (to_sql now)\<rparr>\<rparr>)"
    unfolding evaluate_once_success(1) [OF ev rules]
    by (simp add: state_at_written [OF wf] none row stale_def row_at_def [of _ "[]"])
  then show ?thesis by (auto simp: state_at_def row_at_def find_Some_iff)
qed

theorem outage_freezes_alerts_witness:
  "sample_alert_row\<lparr>sa_state := (sa_state sample_alert_row)\<lparr>as_last_eval_at := Some (to_sql (seconds 60))\<rparr>\<rparr> \<in>
    set (ad_states (sd_alerts (snd (evaluate_once (sample_world None) (seconds 60) sample_db))))"
proof -
  obtain rep where "fst (evaluate_once (sample_world None) (seconds 60) sample_db) = Inr rep"
    using evaluate_once_succeeds [of "sample_world None"] by (auto simp: sample_world_def)
  moreover have "\<not> is_orphan (target_index_new (list_target_nodes sample_db)) (stored_alert.truncate sample_alert_row)"
    by (simp add: is_orphan_def is_live_def target_index_new_def collect_map_def list_target_nodes_def sample_db_def
        sample_alert_row_def stored_alert.truncate_def target_node_of_def)
  ultimately show ?thesis
    by (intro outage_freezes_alerts [OF sample_db_wf, where rep = rep])
      (simp_all add: sample_db_rules, simp_all add: sample_world_def sample_db_def sample_alert_row_def row_uid_def
        rule_to_row_def sample_rule_def)
qed

end
