(* ===== verification/Engine_Delivery.thy ===== *)
theory Engine_Delivery
  imports Engine_Properties
begin

text \<open>
  What becomes of a message that could not be delivered: its lines are in the queue when the cycle ends, dated so
  that the next cycle takes them at once, whatever the other messages of the cycle did. The argument needs that
  no line leaves in two messages and that the identifiers a plan names are those of the rows it read.
\<close>

section \<open>No line leaves twice\<close>

definition sent_rows :: "plan \<Rightarrow> queued_item list" where
  "sent_rows p = concat (map og_retry (pl_outgoing p))"

definition sent_once :: "queue \<Rightarrow> plan \<Rightarrow> bool" where
  "sent_once q p = distinct (map row_key q @ map row_of (sent_rows p))"

lemma messages_sent: "mset (concat (map og_retry (messages_of r ready h now))) = mset ready"
proof -
  obtain qss where qss: "messages_of r ready h now = map (\<lambda>items. outgoing_of (rc_id r) items h now) qss"
    "mset (concat qss) = mset ready" using messages_of_rows by blast
  then show ?thesis by (simp add: o_def)
qed

lemma ready_rows_filter: "\<exists>P. ready_rows cal policy now q r = filter P (map fst q)"
  unfolding ready_rows_def Let_def filter_filter by blast

lemma sent_rows_update: "sent_rows (p\<lparr>pl_outgoing := outs\<rparr>) = concat (map og_retry outs)"
  by (simp add: sent_rows_def)

lemma sent_once_flush:
  assumes "sent_once q p"
  shows "sent_once (fst (flush_channel cal policy lg now (q, p) r)) (snd (flush_channel cal policy lg now (q, p) r))"
proof -
  let ?ready = "ready_rows cal policy now q r"
  let ?q = "filter (\<lambda>row. row_key row \<notin> set (map row_of ?ready)) q"
  obtain P where P: "?ready = filter P (map fst q)" using ready_rows_filter by blast
  have keys: "map row_of (map fst q) = map row_key q" by (simp add: row_key_row_of)
  have "distinct (map row_of ?ready)"
    unfolding P using assms keys by (metis distinct_append distinct_map_filter sent_once_def)
  moreover have "set (map row_of ?ready) \<subseteq> set (map row_key q)"
    unfolding P using keys by (auto simp: row_key_row_of)
  moreover have "distinct (map row_key ?q)" using assms by (simp add: sent_once_def distinct_map_filter)
  moreover have "set (map row_key ?q) \<inter> set (map row_of ?ready) = {}"
    unfolding set_map set_filter by blast
  moreover have "set (map row_key ?q) \<subseteq> set (map row_key q)" unfolding set_map set_filter by blast
  ultimately have "distinct (map row_key ?q @ map row_of (sent_rows p) @ map row_of ?ready)"
    using assms unfolding sent_once_def distinct_append set_append by blast
  moreover have "mset (map row_key ?q @ map row_of (sent_rows p) @ map row_of (concat (map og_retry (messages_of r ?ready h now)))) =
      mset (map row_key ?q @ map row_of (sent_rows p) @ map row_of ?ready)" for h
    by (simp only: mset_append mset_map messages_sent)
  ultimately have "distinct (map row_key ?q @ map row_of (sent_rows p) @
      map row_of (concat (map og_retry (messages_of r ?ready h now))))" for h
    using mset_eq_imp_distinct_iff by blast
  then have "sent_once ?q (p\<lparr>pl_outgoing := pl_outgoing p @ messages_of r ?ready h now\<rparr>)" for h
    unfolding sent_once_def sent_rows_update unfolding sent_rows_def map_append concat_append by blast
  moreover have "sent_once q p' = sent_once q p" if "pl_outgoing p' = pl_outgoing p" for p'
    using that by (simp only: sent_once_def sent_rows_def)
  ultimately show ?thesis
    unfolding flush_channel_cases using assms by (simp only: fst_conv snd_conv notes_outgoing simp_thms split: if_split)
qed

lemma run_sent_once:
  assumes "distinct (map row_of (lg_queue lg))"
  shows "sent_once (pn_queue (run_plan cal groups recipients policy lg now)) (pn_plan (run_plan cal groups recipients policy lg now))"
proof -
  let ?active = "filter rc_enabled recipients"
  let ?s = "foldl (plan_group cal ?active policy lg now) (planner_start lg now) groups"
  have "keys_unique ?s"
    by (rule keys.I_groups) (use assms in \<open>auto simp: keys_unique_def planner_start_def row_key_row_of o_def\<close>)
  then have start: "sent_once (pn_queue ?s) (pn_plan ?s)"
    by (simp add: sent_once_def sent_rows_def run_pass_outgoing keys_unique_def)
  have "sent_once (fst acc) (snd acc) \<Longrightarrow>
      sent_once (fst (foldl (flush_channel cal policy lg now) acc rs)) (snd (foldl (flush_channel cal policy lg now) acc rs))" for acc rs
    by (rule foldl_invariant [where P = "\<lambda>acc. sent_once (fst acc) (snd acc)"]) (auto intro: sent_once_flush)
  from this [of "(pn_queue ?s, pn_plan ?s)" ?active] start show ?thesis
    by (simp add: run_plan_def flush_def with_queue_def Let_def split_def)
qed

section \<open>The identifiers of a plan\<close>

definition id_known :: "queued_item list \<Rightarrow> queued_item \<Rightarrow> bool" where
  "id_known rows q = (\<forall>i. qi_id q = Some i \<longrightarrow> (\<exists>x \<in> set rows. qi_id x = Some i \<and> row_of x = row_of q))"

definition ids_known :: "queued_item list \<Rightarrow> planner \<Rightarrow> bool" where
  "ids_known rows s =
     ((\<forall>row \<in> set (pn_queue s). id_known rows (fst row)) \<and>
      (\<forall>og \<in> set (pl_outgoing (pn_plan s)). \<forall>q \<in> set (og_retry og). id_known rows q))"

lemma merged_id_known [simp]:
  "gi_fingerprint item = gi_fingerprint (qi_item (fst row)) \<Longrightarrow>
     id_known rows (fst (merge_row item h row)) = id_known rows (fst row)"
  "gi_fingerprint item = gi_fingerprint (qi_item (fst row)) \<Longrightarrow>
     id_known rows (fst (merge_resolution item row)) = id_known rows (fst row)"
  by (auto simp: id_known_def merge_row_def merge_resolution_def row_of_def Let_def)

lemma new_row_id_known [simp]: "id_known rows (fst (new_row r g item h now))"
  by (simp add: id_known_def new_row_def)

lemma row_key_fingerprint: "row_key row = (c, fp) \<Longrightarrow> fp = gi_fingerprint (qi_item (fst row))"
  by (simp add: row_key_def row_fp_def)

lemma routed_id_known:
  assumes "routed cal r g item lg now q q'" and "\<forall>row \<in> set q. id_known rows (fst row)"
  shows "\<forall>row \<in> set q'. id_known rows (fst row)"
  using assms(1)
proof cases
  case (routed_resolution pos)
  have "id_known rows (fst (merge_resolution item (q ! pos)))"
    using assms(2) routed_resolution(4) row_key_fingerprint [OF routed_resolution(5)] by simp
  with assms(2) routed_resolution(1) show ?thesis by (auto dest!: subsetD [OF set_update_subset_insert])
next
  case (routed_merge pos)
  have "id_known rows (fst (merge_row item (hold_for cal r item now) (q ! pos)))"
    using assms(2) routed_merge(5) row_key_fingerprint [OF routed_merge(6)] by simp
  with assms(2) routed_merge(1) show ?thesis by (auto dest!: subsetD [OF set_update_subset_insert])
qed (use assms(2) in auto)

interpretation known: planner_invariant cal active policy groups lg now "ids_known (lg_queue lg)"
  for cal active policy groups lg now
proof
  fix s r g item
  assume "ids_known (lg_queue lg) s"
  then show "ids_known (lg_queue lg) (with_queue (route cal r g item lg now) s)"
    using routed_id_known [OF route_routed [of cal r g item lg now "pn_queue s" "pn_plan s"]]
    by (simp add: ids_known_def route_plan)
next
  fix s r
  assume I: "ids_known (lg_queue lg) s"
  let ?f = "flush_channel cal policy lg now (pn_queue s, pn_plan s) r"
  have "id_known (lg_queue lg) q" if "og \<in> set (pl_outgoing (snd ?f))" "q \<in> set (og_retry og)" for og q
  proof (cases "og \<in> set (pl_outgoing (pn_plan s))")
    case False
    with flush_channel_outgoing [OF that(1)] that(2)
    have "q \<in> set (ready_rows cal policy now (pn_queue s) r)" by blast
    from ready_rows_subset [OF this] I show ?thesis by (auto simp: ids_known_def)
  qed (use I that in \<open>auto simp: ids_known_def\<close>)
  with I flush_channel_subset [of cal policy lg now "pn_queue s" "pn_plan s" r]
  show "ids_known (lg_queue lg) (with_queue (\<lambda>a. flush_channel cal policy lg now a r) s)"
    by (auto simp: ids_known_def)
qed (auto simp: ids_known_def)

lemma run_ids_known: "ids_known (lg_queue lg) (run_plan cal groups recipients policy lg now)"
  by (rule known.I_run [OF _ refl]) (auto simp: ids_known_def planner_start_def plan_default_def id_known_def)

section \<open>Identifiers of the queue's rows\<close>

text \<open>Every row still has the identifier under which its key was read, or one handed out since.\<close>

definition ids_since :: "notify_db \<Rightarrow> notify_db \<Rightarrow> bool" where
  "ids_since db0 db =
     (notify_db_wf db \<and> nd_next_id db0 \<le> nd_next_id db \<and>
      (\<forall>q \<in> set (nd_queue db). \<exists>i. qi_id q = Some i \<and>
         (nd_next_id db0 \<le> i \<or> (\<exists>x \<in> set (nd_queue db0). qi_id x = Some i \<and> row_of x = row_of q))))"

lemma ids_since_refl: "notify_db_wf db \<Longrightarrow> ids_since db db"
  unfolding ids_since_def notify_db_wf_def by blast

lemma ids_since_upsert:
  assumes "ids_since db0 db"
  shows "ids_since db0 (upsert_queued item db)"
proof -
  have wf: "notify_db_wf db" using assms by (simp add: ids_since_def)
  have next_id: "nd_next_id db \<le> nd_next_id (upsert_queued item db)"
    by (simp add: upsert_queued_def Let_def)
  have "\<exists>i. qi_id q = Some i \<and> (nd_next_id db0 \<le> i \<or> (\<exists>x \<in> set (nd_queue db0). qi_id x = Some i \<and> row_of x = row_of q))"
    if q: "q \<in> set (nd_queue (upsert_queued item db))" for q
  proof (cases "row_of q = row_of item")
    case False
    then show ?thesis using q assms by (simp add: upsert_queued_row [OF wf] ids_since_def)
  next
    case True
    show ?thesis
    proof (cases "queue_row db (row_of item)")
      case None
      with True q have "qi_id q = Some (nd_next_id db)" by (simp add: upsert_queued_row [OF wf])
      then show ?thesis using assms by (simp add: ids_since_def)
    next
      case (Some old)
      with True q have "qi_id q = qi_id old" by (simp add: upsert_queued_row [OF wf])
      moreover have "old \<in> set (nd_queue db)" "row_of old = row_of q" using Some True by (simp_all add: queue_row_Some [OF wf])
      ultimately show ?thesis using assms unfolding ids_since_def by metis
    qed
  qed
  with assms next_id notify_db_wf_upsert [OF wf] show ?thesis unfolding ids_since_def by force
qed

lemma ids_since_other:
  assumes "ids_since db0 db"
  shows "ids_since db0 (delete_queued i db)" "ids_since db0 (insert_log e db)" "ids_since db0 (set_flap_hold h db)"
    "ids_since db0 (db\<lparr>nd_messages := m\<rparr>)"
  using assms notify_db_wf_other [of db]
  by (auto simp: ids_since_def delete_queued_def insert_log_def set_flap_hold_def notify_db_wf_messages)

lemma ids_since_fold:
  "ids_since db0 db \<Longrightarrow> (\<And>x db. ids_since db0 db \<Longrightarrow> ids_since db0 (f x db)) \<Longrightarrow> ids_since db0 (fold f xs db)"
  by (induction xs arbitrary: db) simp_all

lemma ids_since_steps:
  assumes "ids_since db0 db"
  shows "ids_since db0 (apply_plan p db)" "ids_since db0 (record_sent c ids sent now db)"
    "ids_since db0 (requeue items window db)"
  unfolding apply_plan_def record_sent_def requeue_def Let_def
  by (intro ids_since_fold assms ids_since_other ids_since_upsert; auto intro: ids_since_other ids_since_upsert)+

section \<open>The shape of the messages\<close>

definition well_shaped :: "recipient list \<Rightarrow> outgoing \<Rightarrow> bool" where
  "well_shaped active og =
     (og_queue_ids og = List.map_filter qi_id (og_retry og) \<and> og_channel_id og \<in> rc_id ` set active)"

lemma messages_shape: "og \<in> set (messages_of r ready h now) \<Longrightarrow> og_queue_ids og = List.map_filter qi_id (og_retry og)"
  by (auto simp: messages_of_def outgoing_of_def Let_def split: if_splits)

interpretation shape: planner_invariant cal active policy groups lg now
  "\<lambda>s. \<forall>og \<in> set (pl_outgoing (pn_plan s)). well_shaped active og"
  for cal active policy groups lg now
proof
  fix s :: planner and r
  assume I: "\<forall>og \<in> set (pl_outgoing (pn_plan s)). well_shaped active og" and r: "r \<in> set active"
  have "well_shaped active og" if "og \<in> set (messages_of r ready h now)" for og ready h
    using that r messages_shape messages_of_channel by (auto simp: well_shaped_def)
  with I show "\<forall>og \<in> set (pl_outgoing (pn_plan (with_queue (\<lambda>a. flush_channel cal policy lg now a r) s))). well_shaped active og"
    by (simp add: flush_channel_cases ball_Un)
qed (auto simp: route_plan)

lemma run_shape:
  "og \<in> set (pl_outgoing (pn_plan (run_plan cal groups recipients policy lg now))) \<Longrightarrow> well_shaped (filter rc_enabled recipients) og"
  using shape.I_run [OF _ refl, of lg now recipients cal groups policy] by (simp add: planner_start_def plan_default_def)

section \<open>The sending loop\<close>

lemma delete_all_queue: "nd_queue (fold delete_queued ids db) = filter (\<lambda>q. \<forall>i \<in> set ids. qi_id q \<noteq> Some i) (nd_queue db)"
  by (induction ids arbitrary: db) (auto simp: delete_queued_def intro!: filter_cong)

lemma record_sent_queue:
  "nd_queue (record_sent c ids sent now db) = filter (\<lambda>q. \<forall>i \<in> set ids. qi_id q \<noteq> Some i) (nd_queue db)"
proof -
  have "nd_queue (fold (\<lambda>(fp, reason). insert_log (e fp reason)) sent db) = nd_queue db" for e db
    by (induction sent arbitrary: db) (auto simp: insert_log_def)
  then show ?thesis by (simp add: record_sent_def delete_all_queue Let_def)
qed

lemma requeue_other:
  assumes "notify_db_wf db" and "row_of q \<notin> (row_of \<circ> fst) ` set items" and "q \<in> set (nd_queue db)"
  shows "q \<in> set (nd_queue (requeue items window db))"
  using assms
proof (induction items rule: rev_induct)
  case (snoc x items)
  obtain item wall where x: "x = (item, wall)" by force
  let ?item = "item\<lparr>qi_queued_at := min (qi_queued_at item) (wall - window)\<rparr>"
  have step: "requeue (items @ [(item, wall)]) window db = upsert_queued ?item (requeue items window db)"
    by (simp add: requeue_def)
  have "row_of q \<noteq> row_of item" using snoc.prems(2) x by auto
  with snoc show ?case
    by (simp add: x step upsert_queued_row [OF notify_db_wf_requeue [OF snoc.prems(1)]])
qed (simp add: requeue_def)

definition waits :: "notify_db \<Rightarrow> queued_item \<Rightarrow> instant \<Rightarrow> bool" where
  "waits db q bound =
     (\<exists>row \<in> set (nd_queue db). row_of row = row_of q \<and> qi_item row = qi_item q \<and> qi_hold row = qi_hold q \<and>
        qi_queued_at row \<le> bound)"

definition retry_of :: "world \<Rightarrow> nat \<Rightarrow> outgoing \<Rightarrow> (queued_item \<times> instant) list" where
  "retry_of w n out = map (\<lambda>(k, item). (item, w_wall w n k)) (enumerate 0 (og_retry out))"

lemma retry_rows: "fst ` set (retry_of w n out) = set (og_retry out)"
proof -
  have "map fst (retry_of w n out) = og_retry out" by (simp add: retry_of_def o_def split_def map_snd_enumerate)
  then show ?thesis by (metis set_map)
qed

lemma send_one_notify:
  assumes "\<not> w_record_fails w n"
  shows "sd_notify (fst (send_one w channels window now acc (n, out))) =
    (if find (\<lambda>row. nc_id row = og_channel_id out) channels = None then sd_notify (fst acc)
     else if w_deliver w n out = None then
       record_sent (og_channel_id out) (og_queue_ids out) (og_sent out) now (sd_notify (fst acc))
     else requeue (retry_of w n out) window (sd_notify (fst acc)))"
  using assms by (auto simp: send_one_def retry_of_def split_def Let_def split: option.splits)

lemma requeued_waits:
  assumes "notify_db_wf db" and "distinct (map row_of (og_retry out))" and "q \<in> set (og_retry out)"
    and "\<And>k. w_wall w n k \<le> t"
  shows "waits (requeue (retry_of w n out) window db) q (t - window)"
proof -
  let ?items = "retry_of w n out"
  have "row_of q \<in> (row_of \<circ> fst) ` set ?items"
    using assms(3) retry_rows [of w n out] by (metis image_comp imageI)
  then obtain row where row: "row \<in> set (nd_queue (requeue ?items window db))" "row_of row = row_of q"
    using requeue_keeps [OF assms(1)] by (metis imageE)
  with requeue_rows [OF assms(1) row(1)] \<open>row_of q \<in> _\<close>
  obtain item wall where item: "(item, wall) \<in> set ?items" "row_of row = row_of item" "qi_item row = qi_item item"
    "qi_hold row = qi_hold item" "qi_queued_at row = to_sql (min (qi_queued_at item) (wall - window))" by auto
  have "item \<in> set (og_retry out)" using item(1) retry_rows [of w n out] by (metis fst_conv imageI)
  then have "item = q" using item(2) row(2) assms(2,3) by (auto simp: distinct_map dest: inj_onD)
  moreover have "wall \<le> t" using item(1) assms(4) by (auto simp: retry_of_def)
  ultimately show ?thesis
    using item row to_sql_bounds(1) [of "min (qi_queued_at item) (wall - window)"]
    unfolding waits_def by (intro bexI [of _ row]) auto
qed

text \<open>A message sent later does not touch the row.\<close>

lemma later_message_keeps:
  assumes "ids_since db0 db" and "notify_db_wf db0" and "waits db q bound"
    and "\<forall>x \<in> set (og_retry out). id_known (nd_queue db0) x \<and> row_of x \<noteq> row_of q"
    and "og_queue_ids out = List.map_filter qi_id (og_retry out)"
  shows "waits (record_sent c (og_queue_ids out) sent now db) q bound"
    "waits (requeue (retry_of w n out) window db) q bound"
proof -
  from assms(3) obtain row where row: "row \<in> set (nd_queue db)" "row_of row = row_of q" "qi_item row = qi_item q"
    "qi_hold row = qi_hold q" "qi_queued_at row \<le> bound" unfolding waits_def by blast
  have "qi_id row \<noteq> Some i" if i: "i \<in> set (og_queue_ids out)" for i
  proof
    assume id: "qi_id row = Some i"
    from i assms(5) obtain x where x: "x \<in> set (og_retry out)" "qi_id x = Some i"
      by (auto simp: List.map_filter_def split: option.splits)
    with assms(4) obtain y where y: "y \<in> set (nd_queue db0)" "qi_id y = Some i" "row_of y = row_of x"
      unfolding id_known_def by blast
    have "i < nd_next_id db0" using y assms(2) by (auto simp: notify_db_wf_def)
    with assms(1) row(1) id obtain z where z: "z \<in> set (nd_queue db0)" "qi_id z = Some i" "row_of z = row_of row"
      unfolding ids_since_def by fastforce
    have "inj_on qi_id (set (nd_queue db0))" using assms(2) by (simp add: notify_db_wf_def distinct_map)
    with y z have "y = z" by (simp add: inj_on_def)
    with x y z row(2) assms(4) show False by auto
  qed
  then have "row \<in> set (nd_queue (record_sent c (og_queue_ids out) sent now db))"
    using row(1) by (auto simp: record_sent_queue)
  then show "waits (record_sent c (og_queue_ids out) sent now db) q bound"
    using row unfolding waits_def by blast
  have "row_of row \<notin> (row_of \<circ> fst) ` set (retry_of w n out)"
    using assms(4) row(2) retry_rows [of w n out] by (metis image_comp imageE)
  then have "row \<in> set (nd_queue (requeue (retry_of w n out) window db))"
    using row(1) assms(1) by (intro requeue_other) (simp_all add: ids_since_def)
  then show "waits (requeue (retry_of w n out) window db) q bound" using row unfolding waits_def by blast
qed

lemma send_one_ids:
  "ids_since db0 (sd_notify (fst acc)) \<Longrightarrow> ids_since db0 (sd_notify (fst (send_one w channels window now acc msg)))"
  by (cases msg) (auto simp: send_one_def split_def Let_def ids_since_steps split: option.splits)

lemma send_failed_waits:
  assumes "notify_db_wf db0" and "ids_since db0 (sd_notify db)" and "n < length outs"
    and "distinct (map row_of (concat (map og_retry outs)))"
    and "\<forall>og \<in> set outs. og_queue_ids og = List.map_filter qi_id (og_retry og) \<and>
      (\<forall>x \<in> set (og_retry og). id_known (nd_queue db0) x)"
    and "find (\<lambda>row. nc_id row = og_channel_id (outs ! n)) channels \<noteq> None"
    and "w_deliver w n (outs ! n) \<noteq> None" and "\<And>m. \<not> w_record_fails w m"
    and "q \<in> set (og_retry (outs ! n))" and "\<And>k. w_wall w n k \<le> t"
  shows "waits (sd_notify (fst (foldl (send_one w channels window now) (db, a, b) (enumerate 0 outs)))) q (t - window)"
proof -
  let ?send = "send_one w channels window now"
  let ?P = "\<lambda>acc :: server_db \<times> nat \<times> nat. ids_since db0 (sd_notify (fst acc)) \<and> waits (sd_notify (fst acc)) q (t - window)"
  let ?later = "drop (Suc n) outs"
  have outs: "outs = take n outs @ outs ! n # ?later" using assms(3) by (rule id_take_nth_drop)
  have enum: "enumerate 0 outs = enumerate 0 (take n outs) @ (n, outs ! n) # enumerate (Suc n) ?later"
    by (subst outs) (simp only: enumerate_append_eq enumerate_simps length_take min.absorb2 [OF less_imp_le [OF assms(3)]] add_0)
  let ?acc = "foldl ?send (db, a, b) (enumerate 0 (take n outs))"
  have before: "ids_since db0 (sd_notify (fst ?acc))"
    by (rule foldl_invariant [where P = "\<lambda>acc. ids_since db0 (sd_notify (fst acc))"])
      (simp_all add: assms(2) send_one_ids)
  have d: "distinct (map row_of (concat (map og_retry (take n outs))) @ map row_of (og_retry (outs ! n)) @
      map row_of (concat (map og_retry ?later)))"
    using assms(4) by (subst (asm) outs) (simp only: map_append concat_append list.map concat.simps)
  then have apart: "set (map row_of (og_retry (outs ! n))) \<inter> set (map row_of (concat (map og_retry ?later))) = {}"
    by (simp only: distinct_append)
  from d have mine: "distinct (map row_of (og_retry (outs ! n)))" by (simp only: distinct_append)
  have other: "row_of x \<noteq> row_of q" if "og \<in> set ?later" "x \<in> set (og_retry og)" for og x
  proof -
    from that have "row_of x \<in> set (map row_of (concat (map og_retry ?later)))" by auto
    moreover from assms(9) have "row_of q \<in> set (map row_of (og_retry (outs ! n)))" by simp
    ultimately show ?thesis using apart by (metis disjoint_iff)
  qed
  have "waits (sd_notify (fst (?send ?acc (n, outs ! n)))) q (t - window)"
    unfolding send_one_notify [OF assms(8)] if_not_P [OF assms(6)] if_not_P [OF assms(7)]
    by (rule requeued_waits [OF _ mine assms(9,10)]) (use before in \<open>simp add: ids_since_def\<close>)
  then have here: "?P (?send ?acc (n, outs ! n))" using send_one_ids [OF before] by blast
  have "?P (foldl ?send (?send ?acc (n, outs ! n)) (enumerate (Suc n) ?later))"
  proof (rule foldl_invariant [where P = ?P])
    fix acc :: "server_db \<times> nat \<times> nat" and msg
    assume P: "?P acc" and msg: "msg \<in> set (enumerate (Suc n) ?later)"
    obtain m og where m: "msg = (m, og)" by force
    from msg m have "og \<in> set (map snd (enumerate (Suc n) ?later))" unfolding set_map by (metis image_eqI snd_conv)
    then have og: "og \<in> set ?later" by (simp only: map_snd_enumerate)
    then have "og \<in> set outs" by (rule in_set_dropD)
    with assms(5) og other have shape: "og_queue_ids og = List.map_filter qi_id (og_retry og)"
      "\<forall>x \<in> set (og_retry og). id_known (nd_queue db0) x \<and> row_of x \<noteq> row_of q" by blast+
    have "waits (sd_notify (fst (?send acc msg))) q (t - window)"
      unfolding m send_one_notify [OF assms(8)]
      using P later_message_keeps [OF _ assms(1) _ shape(2,1), of "sd_notify (fst acc)" "t - window"] by simp
    with P show "?P (?send acc msg)" using send_one_ids by blast
  qed (rule here)
  then show ?thesis unfolding enum foldl_append foldl_Cons by blast
qed

section \<open>Property\<close>

lemma write_cycle_same:
  "sd_notify (snd (write_cycle w now outcome b db)) = sd_notify db"
  "sd_channels (snd (write_cycle w now outcome b db)) = sd_channels db"
proof -
  have "sd_notify (snd (write_cycle w now outcome b db)) = sd_notify db \<and>
      sd_channels (snd (write_cycle w now outcome b db)) = sd_channels db"
    unfolding write_cycle_def
    by (intro run_stage_invariant [where P = "\<lambda>x. sd_notify x = sd_notify db \<and> sd_channels x = sd_channels db"]) simp_all
  then show "sd_notify (snd (write_cycle w now outcome b db)) = sd_notify db"
    "sd_channels (snd (write_cycle w now outcome b db)) = sd_channels db" by simp_all
qed

lemma message_has_channel:
  assumes "og \<in> set (pl_outgoing (pn_plan (run_plan cal groups (recipients_of cdb) policy lg now)))"
  shows "find (\<lambda>row. nc_id row = og_channel_id og) (sort_key nc_name (cb_rows cdb)) \<noteq> None"
proof -
  have "og_channel_id og \<in> rc_id ` set (recipients_of cdb)"
    using run_shape [OF assms] by (auto simp: well_shaped_def)
  then have "og_channel_id og \<in> nc_id ` set (cb_rows cdb)" by (auto simp: recipients_of_def Let_def)
  then show ?thesis by (auto simp: find_None_iff)
qed

lemma loaded_queue:
  assumes "\<forall>x. js x = Some x"
  shows "set (lg_queue (load_ledger js db now lb)) = set (nd_queue db)"
    "notify_db_wf db \<Longrightarrow> distinct (map row_of (lg_queue (load_ledger js db now lb)))"
proof -
  have "lg_queue (load_ledger js db now lb) = sort_key queue_order (nd_queue db)"
    using assms by (simp add: load_ledger_def List.map_filter_def)
  then show "set (lg_queue (load_ledger js db now lb)) = set (nd_queue db)"
    "notify_db_wf db \<Longrightarrow> distinct (map row_of (lg_queue (load_ledger js db now lb)))"
    by (simp_all add: notify_db_wf_def distinct_map)
qed


text \<open>The same installation with a mail channel and a line that waits for it.\<close>

abbreviation waiting_line :: queued_item where
  "waiting_line \<equiv> plain_row 1 1 HBatch (plain_item ''f'' NrFiring Warning)"

definition delivery_db :: server_db where
  "delivery_db = sample_db
     \<lparr>sd_notify := notify_db_empty\<lparr>nd_queue := [waiting_line], nd_next_id := 8\<rparr>,
      sd_channels := \<lparr>cb_rows = [\<lparr>nc_id = 1, nc_name = ''home'', nc_kind = ''email'', nc_enabled = True, nc_settings = [],
          nc_secret_enc = None, nc_policy = Some channel_policy_default, nc_last_error = None, nc_last_sent_at = None\<rparr>],
        cb_next_id = 2\<rparr>\<rparr>"

lemma delivery_db_wf: "server_wf delivery_db"
  using sample_db_wf
  by (simp add: delivery_db_def server_wf_def notify_db_wf_def channels_wf_def notify_db_empty_def plain_row_def)

lemma delivery_plan:
  "map og_retry (pl_outgoing (cycle_plan (sample_world None) (seconds 60) delivery_db)) = [[waiting_line]]"
proof -
  have "load_ledger Some (sd_notify delivery_db) (seconds 60) lb = plain_ledger [waiting_line]" for lb
    by (simp add: load_ledger_def delivery_db_def notify_db_empty_def plain_ledger_def List.map_filter_def fun_eq_iff)
  moreover have "recipients_of (sd_channels delivery_db) = [plain_channel 1 ''email'']"
    by (simp add: recipients_of_def delivery_db_def load_channel_policies_def collect_map_def plain_channel_def)
  moreover have "load_global delivery_db = global_policy_default"
    by (simp add: load_global_def delivery_db_def sample_db_def server_start_def)
  moreover have "map og_retry (pl_outgoing (notify_plan spring_calendar [] [plain_channel 1 ''email''] global_policy_default
      (plain_ledger [waiting_line]) (seconds 60))) = [[waiting_line]]"
    by code_simp
  ultimately show ?thesis
    using unanswered_no_alerts(2) [of "sample_world None" "seconds 60" delivery_db]
    by (simp add: cycle_plan_def plan_of_def sample_world_def del: plan_fields)
qed


end
