(* ===== verification/Client_Address.thy ===== *)
theory Client_Address
  imports Rust_Text
begin

text \<open>
  The address of the client (\<^verbatim>\<open>crates/server/src/auth/client_ip.rs\<close>), with what it uses of \<^verbatim>\<open>std::net\<close>: addresses,
  their parser and their canonical form. Networks come from the crate \<^verbatim>\<open>ipnet\<close> and are a parameter. A header map is
  the list of its entries in order, the names in lower case; a value is \<^term>\<open>None\<close> where \<^verbatim>\<open>HeaderValue::to_str\<close> refuses
  its bytes.
\<close>

unbundle bit_operations_syntax

section \<open>Addresses\<close>

datatype ip_addr = V4 "32 word" | V6 "128 word"

text \<open>\<^verbatim>\<open>IpAddr::to_canonical\<close>: an IPv4 address mapped into IPv6, \<^verbatim>\<open>::ffff:a.b.c.d\<close>, becomes that IPv4 address.\<close>

fun to_canonical :: "ip_addr \<Rightarrow> ip_addr" where
  "to_canonical (V4 a) = V4 a"
| "to_canonical (V6 w) = (if drop_bit 32 w = 65535 then V4 (ucast w) else V6 w)"

text \<open>
  The parser of \<^verbatim>\<open>std::net\<close>. Each reader gives what it read and the rest of the input, or nothing and consumes nothing.
\<close>

definition hex_digit :: "char \<Rightarrow> nat option" where
  "hex_digit c =
     (let n = (of_char c :: nat)
      in if 48 \<le> n \<and> n \<le> 57 then Some (n - 48)
         else if 97 \<le> n \<and> n \<le> 102 then Some (n - 87)
         else if 65 \<le> n \<and> n \<le> 70 then Some (n - 55) else None)"

definition radix_digit :: "nat \<Rightarrow> char \<Rightarrow> nat option" where
  "radix_digit radix c = (case hex_digit c of Some d \<Rightarrow> if d < radix then Some d else None | None \<Rightarrow> None)"

fun read_digits :: "nat \<Rightarrow> string \<Rightarrow> nat list \<times> string" where
  "read_digits radix [] = ([], [])"
| "read_digits radix (c # cs) =
     (case radix_digit radix c of
        None \<Rightarrow> ([], c # cs)
      | Some d \<Rightarrow> (let (ds, rest) = read_digits radix cs in (d # ds, rest)))"

definition read_number :: "nat \<Rightarrow> nat \<Rightarrow> bool \<Rightarrow> nat \<Rightarrow> string \<Rightarrow> (nat \<times> string) option" where
  "read_number radix max_digits allow_zero_prefix bound s =
     (let (ds, rest) = read_digits radix s; v = foldl (\<lambda>acc d. acc * radix + d) 0 ds
      in if ds = [] \<or> length ds > max_digits then None
         else if \<not> allow_zero_prefix \<and> hd ds = 0 \<and> length ds > 1 then None
         else if v < bound then Some (v, rest) else None)"

definition read_char :: "char \<Rightarrow> string \<Rightarrow> string option" where
  "read_char c s = (case s of [] \<Rightarrow> None | c' # rest \<Rightarrow> if c' = c then Some rest else None)"

definition read_separator :: "char \<Rightarrow> nat \<Rightarrow> (string \<Rightarrow> ('a \<times> string) option) \<Rightarrow> string \<Rightarrow> ('a \<times> string) option" where
  "read_separator sep index inner s =
     (if index > 0 then (case read_char sep s of None \<Rightarrow> None | Some rest \<Rightarrow> inner rest) else inner s)"

fun read_octets :: "nat \<Rightarrow> nat \<Rightarrow> string \<Rightarrow> (nat list \<times> string) option" where
  "read_octets i 0 s = Some ([], s)"
| "read_octets i (Suc k) s =
     (case read_separator (CHR ''.'') i (read_number 10 3 False 256) s of
        None \<Rightarrow> None
      | Some (v, rest) \<Rightarrow> map_option (\<lambda>(vs, r). (v # vs, r)) (read_octets (Suc i) k rest))"

definition read_ipv4 :: "string \<Rightarrow> (nat list \<times> string) option" where
  "read_ipv4 s = read_octets 0 4 s"

text \<open>\<open>read_groups i k s\<close> fills \<open>k\<close> slots from index \<open>i\<close> on: the groups, whether an embedded IPv4 address ended them,
  the rest.\<close>

fun read_groups :: "nat \<Rightarrow> nat \<Rightarrow> string \<Rightarrow> nat list \<times> bool \<times> string" where
  "read_groups i 0 s = ([], False, s)"
| "read_groups i (Suc k) s =
     (case (if k > 0 then read_separator (CHR '':'') i read_ipv4 s else None) of
        Some (os, rest) \<Rightarrow> ([os ! 0 * 256 + os ! 1, os ! 2 * 256 + os ! 3], True, rest)
      | None \<Rightarrow>
          (case read_separator (CHR '':'') i (read_number 16 4 True 65536) s of
             None \<Rightarrow> ([], False, s)
           | Some (g, rest) \<Rightarrow> (let (gs, v4, r) = read_groups (Suc i) k rest in (g # gs, v4, r))))"

definition read_ipv6 :: "string \<Rightarrow> (nat list \<times> string) option" where
  "read_ipv6 s =
     (let (head, head_ipv4, rest) = read_groups 0 8 s
      in if length head = 8 then Some (head, rest)
         else if head_ipv4 then None
         else case read_char (CHR '':'') rest of
             None \<Rightarrow> None
           | Some rest \<Rightarrow>
               (case read_char (CHR '':'') rest of
                  None \<Rightarrow> None
                | Some rest \<Rightarrow>
                    (let (tail, _, r) = read_groups 0 (8 - (length head + 1)) rest
                     in Some (head @ replicate (8 - length head - length tail) 0 @ tail, r))))"

definition parse_ip :: "string \<Rightarrow> ip_addr option" where
  "parse_ip s =
     (case read_ipv4 s of
        Some (os, rest) \<Rightarrow>
          if rest = [] then Some (V4 (foldl (\<lambda>acc d. acc * 256 + of_nat d) 0 os)) else None
      | None \<Rightarrow>
          (case read_ipv6 s of
             Some (gs, rest) \<Rightarrow>
               if rest = [] then Some (V6 (foldl (\<lambda>acc d. acc * 65536 + of_nat d) 0 gs)) else None
           | None \<Rightarrow> None))"

text \<open>\<^verbatim>\<open>Display\<close> of an address: the first longest run of at least two zero groups becomes \<^verbatim>\<open>::\<close>.\<close>

fun join_with :: "string \<Rightarrow> string list \<Rightarrow> string" where
  "join_with sep [] = []"
| "join_with sep [s] = s"
| "join_with sep (s # ss) = s @ sep @ join_with sep ss"

function show_hex :: "nat \<Rightarrow> string" where
  "show_hex n = (if n < 16 then [hex_char n] else show_hex (n div 16) @ [hex_char (n mod 16)])"
  by auto

termination by (relation "measure id") auto

declare show_hex.simps [simp del]

definition v4_octets :: "32 word \<Rightarrow> nat list" where
  "v4_octets a = map (\<lambda>i. unat a div 256 ^ i mod 256) (rev [0..<4])"

definition v6_segments :: "128 word \<Rightarrow> nat list" where
  "v6_segments a = map (\<lambda>i. unat a div 65536 ^ i mod 65536) (rev [0..<8])"

definition zero_run :: "nat list \<Rightarrow> nat \<times> nat" where
  "zero_run segs =
     fst (foldl (\<lambda>((ls, ll), cs, cl) (i, seg).
       if seg = 0
       then (let cs = (if cl = 0 then i else cs); cl = cl + 1
             in (if cl > ll then (cs, cl) else (ls, ll), cs, cl))
       else ((ls, ll), 0, 0)) ((0, 0), 0, 0) (enumerate 0 segs))"

definition show_v4 :: "32 word \<Rightarrow> string" where
  "show_v4 a = join_with ''.'' (map show_nat (v4_octets a))"

fun show_ip :: "ip_addr \<Rightarrow> string" where
  "show_ip (V4 a) = show_v4 a"
| "show_ip (V6 a) =
     (if drop_bit 32 a = 65535 then ''::ffff:'' @ show_v4 (ucast a)
      else
        (let segs = v6_segments a; (start, len) = zero_run segs; part = (\<lambda>xs. join_with '':'' (map show_hex xs))
         in if len > 1 then part (take start segs) @ ''::'' @ part (drop (start + len) segs) else part segs))"

section \<open>Networks\<close>

text \<open>The operations of \<^verbatim>\<open>ipnet::IpNet\<close>: its parser, the network of one address, membership, the truncated form, the
  printed form.\<close>

record 'n net_lib =
  nl_parse :: "string \<Rightarrow> 'n option"
  nl_from :: "ip_addr \<Rightarrow> 'n"
  nl_contains :: "'n \<Rightarrow> ip_addr \<Rightarrow> bool"
  nl_trunc :: "'n \<Rightarrow> 'n"
  nl_show :: "'n \<Rightarrow> string"

definition in_nets :: "'n net_lib \<Rightarrow> 'n list \<Rightarrow> ip_addr \<Rightarrow> bool" where
  "in_nets nl nets ip = list_ex (\<lambda>net. nl_contains nl net ip) nets"

section \<open>The client\<close>

type_synonym header_map = "(string \<times> string option) list"

definition get_all :: "header_map \<Rightarrow> string \<Rightarrow> string list" where
  "get_all headers name = List.map_filter snd (filter (\<lambda>h. fst h = name) headers)"

text \<open>\<^verbatim>\<open>headers.get(name).and_then(|v| v.to_str().ok())\<close>: the first entry of that name.\<close>

definition get_str :: "header_map \<Rightarrow> string \<Rightarrow> string option" where
  "get_str headers name = (case find (\<lambda>h. fst h = name) headers of None \<Rightarrow> None | Some (_, v) \<Rightarrow> v)"

definition forwarded_for :: "'n net_lib \<Rightarrow> header_map \<Rightarrow> 'n list \<Rightarrow> ip_addr option" where
  "forwarded_for nl headers trusted =
     find (\<lambda>hop. \<not> in_nets nl trusted hop)
       (rev (List.map_filter (\<lambda>hop. parse_ip (trim hop))
         (concat (map (split_on (CHR '','')) (get_all headers ''x-forwarded-for'')))))"

definition resolve_ip :: "'n net_lib \<Rightarrow> ip_addr option \<Rightarrow> header_map \<Rightarrow> 'n list \<Rightarrow> ip_addr option" where
  "resolve_ip nl peer headers trusted =
     (case peer of
        Some peer \<Rightarrow>
          if in_nets nl trusted peer
          then (case forwarded_for nl headers trusted of Some ip \<Rightarrow> Some ip | None \<Rightarrow> Some peer)
          else Some peer
      | None \<Rightarrow> None)"

definition parse_trusted_proxies :: "'n net_lib \<Rightarrow> string \<Rightarrow> 'n list" where
  "parse_trusted_proxies nl raw =
     List.map_filter
       (\<lambda>entry. case nl_parse nl entry of
                  Some net \<Rightarrow> Some net
                | None \<Rightarrow> map_option (nl_from nl) (parse_ip entry))
       (filter (\<lambda>entry. entry \<noteq> []) (map trim (split_on (CHR '','') raw)))"

lemma resolve_untrusted:
  assumes "\<not> in_nets nl trusted peer"
  shows "resolve_ip nl (Some peer) headers trusted = Some peer"
  using assms by (simp add: resolve_ip_def)

lemma resolve_not_proxy:
  assumes "resolve_ip nl (Some peer) headers trusted = Some ip" and "ip \<noteq> peer"
  shows "in_nets nl trusted peer \<and> \<not> in_nets nl trusted ip"
  using assms
  by (auto simp: resolve_ip_def forwarded_for_def find_Some_iff split: if_splits option.splits)

end
