(* ===== verification/Rate_Limit.thy ===== *)
theory Rate_Limit
  imports Client_Address
begin

text \<open>
  Limits on attempts and calls: the buckets of failed sign-ins (\<^verbatim>\<open>crates/server/src/auth/rate_limit.rs\<close>) and the fixed
  window of each API token (\<^verbatim>\<open>TokenRateLimiter\<close> of \<^verbatim>\<open>auth/token.rs\<close>). \<^verbatim>\<open>str::to_lowercase\<close> rests on the Unicode tables
  and is the parameter \<open>lower\<close>.
\<close>

section \<open>One counter\<close>

definition FREE_ATTEMPTS :: nat where
  "FREE_ATTEMPTS = 5"

definition BASE_DELAY :: timedelta where
  "BASE_DELAY = seconds 30"

definition MAX_DELAY :: timedelta where
  "MAX_DELAY = seconds 300"

record rate_limiter =
  rl_failures :: "32 word"
  rl_blocked_until :: "instant option"

definition rate_limiter_new :: rate_limiter where
  "rate_limiter_new = \<lparr>rl_failures = 0, rl_blocked_until = None\<rparr>"

text \<open>\<^term>\<open>Inl\<close> the seconds to wait: rounded down, plus one.\<close>

definition limiter_check :: "rate_limiter \<Rightarrow> instant \<Rightarrow> nat + unit" where
  "limiter_check l now =
     (case rl_blocked_until l of
        Some until \<Rightarrow> if now < until then Inl (whole_seconds (until - now) + 1) else Inr ()
      | None \<Rightarrow> Inr ())"

definition limiter_delay :: "nat \<Rightarrow> timedelta" where
  "limiter_delay failures =
     (let steps = failures - FREE_ATTEMPTS - 1 in min (BASE_DELAY * 2 ^ min steps 16) MAX_DELAY)"

definition limiter_failure :: "rate_limiter \<Rightarrow> instant \<Rightarrow> rate_limiter" where
  "limiter_failure l now =
     (let l = l\<lparr>rl_failures := saturating_inc (rl_failures l)\<rparr>
      in if unat (rl_failures l) \<le> FREE_ATTEMPTS then l
         else l\<lparr>rl_blocked_until := Some (now + limiter_delay (unat (rl_failures l)))\<rparr>)"

definition limiter_success :: "rate_limiter \<Rightarrow> rate_limiter" where
  "limiter_success l = l\<lparr>rl_failures := 0, rl_blocked_until := None\<rparr>"

section \<open>Buckets\<close>

datatype limiter_key = KeyIp ip_addr | KeyUser string "ip_addr option"

definition key_user :: "(string \<Rightarrow> string) \<Rightarrow> string \<Rightarrow> ip_addr option \<Rightarrow> limiter_key" where
  "key_user lower username ip = KeyUser (lower (trim username)) ip"

type_synonym buckets = "(limiter_key \<times> rate_limiter \<times> instant) list"

definition IDLE :: timedelta where
  "IDLE = seconds (15 * 60)"

definition PURGE_ABOVE :: nat where
  "PURGE_ABOVE = 4096"

definition bucket_wait :: "buckets \<Rightarrow> instant \<Rightarrow> limiter_key \<Rightarrow> nat" where
  "bucket_wait b now key =
     (case map_of b key of
        None \<Rightarrow> 0
      | Some (bucket, _) \<Rightarrow> (case limiter_check bucket now of Inl secs \<Rightarrow> secs | Inr _ \<Rightarrow> 0))"

definition buckets_check :: "buckets \<Rightarrow> limiter_key list \<Rightarrow> instant \<Rightarrow> nat + unit" where
  "buckets_check b keys now =
     (let wait = foldl (\<lambda>wait key. max wait (bucket_wait b now key)) 0 keys
      in if wait > 0 then Inl wait else Inr ())"

definition bucket_fail :: "instant \<Rightarrow> buckets \<Rightarrow> limiter_key \<Rightarrow> buckets" where
  "bucket_fail now b key =
     (let (bucket, _) = (case map_of b key of Some e \<Rightarrow> e | None \<Rightarrow> (rate_limiter_new, now))
      in AList.update key (limiter_failure bucket now, now) b)"

definition buckets_purge :: "buckets \<Rightarrow> instant \<Rightarrow> buckets" where
  "buckets_purge b now =
     (if length b < PURGE_ABOVE then b
      else retain (\<lambda>(bucket, t). limiter_check bucket now \<noteq> Inr () \<or> duration_since now t < IDLE) b)"

definition buckets_failure :: "buckets \<Rightarrow> limiter_key list \<Rightarrow> instant \<Rightarrow> buckets" where
  "buckets_failure b keys now = buckets_purge (foldl (bucket_fail now) b keys) now"

definition buckets_success :: "buckets \<Rightarrow> limiter_key list \<Rightarrow> buckets" where
  "buckets_success b keys = foldl (\<lambda>b key. AList.delete key b) b keys"

section \<open>Calls of a token\<close>

definition RATE_LIMIT_PER_MINUTE :: nat where
  "RATE_LIMIT_PER_MINUTE = 120"

definition RATE_WINDOW :: timedelta where
  "RATE_WINDOW = seconds 60"

record rate_status =
  rs_limit :: nat
  rs_remaining :: nat
  rs_reset_secs :: nat

type_synonym token_windows = "(int \<times> instant \<times> nat) list"

definition token_call :: "token_windows \<Rightarrow> int \<Rightarrow> instant \<Rightarrow> (nat + rate_status) \<times> token_windows" where
  "token_call ws token_id now =
     (let (start, n) = (case map_of ws token_id of Some e \<Rightarrow> e | None \<Rightarrow> (now, 0));
          (start, n) = (if duration_since now start \<ge> RATE_WINDOW then (now, 0) else (start, n));
          reset = whole_seconds (max 0 (RATE_WINDOW - duration_since now start)) + 1
      in if n \<ge> RATE_LIMIT_PER_MINUTE then (Inl reset, AList.update token_id (start, n) ws)
         else
           (let n = n + 1; ws = AList.update token_id (start, n) ws;
                status = \<lparr>rs_limit = RATE_LIMIT_PER_MINUTE, rs_remaining = RATE_LIMIT_PER_MINUTE - n,
                          rs_reset_secs = reset\<rparr>;
                ws = (if length ws > 256 then retain (\<lambda>(start, _). duration_since now start < RATE_WINDOW) ws else ws)
            in (Inr status, ws)))"

section \<open>What the buckets hold back\<close>

text \<open>
  The requests that consult the buckets, one after the other: an attempt is checked at one instant and, when it is
  let through and turns out wrong, recorded at a later one; a right one clears its keys.
\<close>

datatype attempt = WrongAttempt "limiter_key list" instant instant | RightAttempt "limiter_key list" instant

fun attempt_keys :: "attempt \<Rightarrow> limiter_key list" where
  "attempt_keys (WrongAttempt keys _ _) = keys"
| "attempt_keys (RightAttempt keys _) = keys"

fun attempt_span :: "attempt \<Rightarrow> instant \<times> instant" where
  "attempt_span (WrongAttempt _ s t) = (s, t)"
| "attempt_span (RightAttempt _ t) = (t, t)"

definition let_through :: "buckets \<Rightarrow> attempt \<Rightarrow> bool" where
  "let_through b a = (buckets_check b (attempt_keys a) (fst (attempt_span a)) = Inr ())"

fun attempt_step :: "buckets \<Rightarrow> attempt \<Rightarrow> buckets" where
  "attempt_step b (WrongAttempt keys s t) =
     (if let_through b (WrongAttempt keys s t) then buckets_failure b keys t else b)"
| "attempt_step b (RightAttempt keys t) =
     (if let_through b (RightAttempt keys t) then buckets_success b keys else b)"

text \<open>How many wrong attempts on a key were let through.\<close>

fun wrong_admitted :: "limiter_key \<Rightarrow> buckets \<Rightarrow> attempt list \<Rightarrow> nat" where
  "wrong_admitted k b [] = 0"
| "wrong_admitted k b (a # as) =
     (case a of
        WrongAttempt keys _ _ \<Rightarrow> if k \<in> set keys \<and> let_through b a then 1 else 0
      | RightAttempt _ _ \<Rightarrow> 0) + wrong_admitted k (attempt_step b a) as"

text \<open>The attempts follow each other, from \<open>lo\<close> on and before \<open>hi\<close>.\<close>

fun in_turn :: "instant \<Rightarrow> instant \<Rightarrow> attempt list \<Rightarrow> bool" where
  "in_turn lo hi [] = True"
| "in_turn lo hi (a # as) =
     (let (s, t) = attempt_span a in lo \<le> s \<and> s \<le> t \<and> t < hi \<and> distinct (attempt_keys a) \<and> in_turn t hi as)"

fun clears :: "limiter_key \<Rightarrow> attempt \<Rightarrow> bool" where
  "clears k (WrongAttempt _ _ _) = False"
| "clears k (RightAttempt keys _) = (k \<in> set keys)"

subsection \<open>Lemmas\<close>

lemma foldl_max_zero:
  "foldl (\<lambda>wait x. max wait (f x)) (a :: nat) xs = 0 \<longleftrightarrow> a = 0 \<and> (\<forall>x \<in> set xs. f x = 0)"
  by (induction xs arbitrary: a) (auto simp: max_def)

lemma buckets_check_ok: "buckets_check b keys now = Inr () \<longleftrightarrow> (\<forall>key \<in> set keys. bucket_wait b now key = 0)"
  using foldl_max_zero [of "bucket_wait b now" 0 keys] by (auto simp: buckets_check_def Let_def)

lemma bucket_wait_0:
  "bucket_wait b now key = 0 \<longleftrightarrow>
     (case map_of b key of None \<Rightarrow> True
      | Some (l, _) \<Rightarrow> (case rl_blocked_until l of None \<Rightarrow> True | Some until \<Rightarrow> until \<le> now))"
  by (auto simp: bucket_wait_def limiter_check_def split: option.splits)

lemma table_wf_fail [simp]: "table_wf b \<Longrightarrow> table_wf (bucket_fail now b key)"
  by (simp add: bucket_fail_def split_def Let_def)

lemma table_wf_fails: "table_wf b \<Longrightarrow> table_wf (foldl (bucket_fail now) b keys)"
  by (induction keys arbitrary: b) simp_all

lemma table_wf_purge: "table_wf b \<Longrightarrow> table_wf (buckets_purge b now)"
  by (simp add: buckets_purge_def)

lemma table_wf_failure: "table_wf b \<Longrightarrow> table_wf (buckets_failure b keys now)"
  by (simp add: buckets_failure_def table_wf_purge table_wf_fails)

lemma table_wf_success: "table_wf b \<Longrightarrow> table_wf (buckets_success b keys)"
  unfolding buckets_success_def by (induction keys arbitrary: b) simp_all

lemma table_wf_attempt: "table_wf b \<Longrightarrow> table_wf (attempt_step b a)"
  by (cases a) (simp_all add: table_wf_failure table_wf_success)

definition failed_entry :: "(rate_limiter \<times> instant) option \<Rightarrow> instant \<Rightarrow> rate_limiter \<times> instant" where
  "failed_entry e now = (limiter_failure (case e of Some (l, _) \<Rightarrow> l | None \<Rightarrow> rate_limiter_new) now, now)"

lemma map_of_bucket_fail:
  "map_of (bucket_fail now b key) k = (if k = key then Some (failed_entry (map_of b key) now) else map_of b k)"
  by (auto simp: bucket_fail_def failed_entry_def Let_def split: option.splits prod.splits)

lemma map_of_bucket_fails:
  "distinct keys \<Longrightarrow>
   map_of (foldl (bucket_fail now) b keys) k =
     (if k \<in> set keys then Some (failed_entry (map_of b k) now) else map_of b k)"
  by (induction keys arbitrary: b) (auto simp: map_of_bucket_fail)

lemma map_of_success: "map_of (buckets_success b keys) k = (if k \<in> set keys then None else map_of b k)"
  unfolding buckets_success_def by (induction keys arbitrary: b) auto

lemma map_of_purge_recent:
  assumes "table_wf b" "map_of b k = Some (l, t)" "duration_since now t < IDLE"
  shows "map_of (buckets_purge b now) k = Some (l, t)"
  using assms by (simp add: buckets_purge_def map_of_retain)

lemma map_of_purge_None: "table_wf b \<Longrightarrow> map_of b k = None \<Longrightarrow> map_of (buckets_purge b now) k = None"
  by (simp add: buckets_purge_def map_of_retain)

text \<open>\<open>earliest n\<close>: how long the first \<open>n\<close> wrong attempts take at least.\<close>

fun earliest :: "nat \<Rightarrow> timedelta" where
  "earliest 0 = 0"
| "earliest (Suc n) = earliest n + (if n > FREE_ATTEMPTS then limiter_delay n else 0)"

lemma limiter_delay_nonneg: "0 \<le> limiter_delay n"
  by (simp add: limiter_delay_def Let_def BASE_DELAY_def MAX_DELAY_def time_defs)

lemma earliest_mono: "m \<le> n \<Longrightarrow> earliest m \<le> earliest n"
  by (induction n) (auto simp: le_Suc_eq intro: add_increasing2 limiter_delay_nonneg)

lemma earliest_12: "earliest 12 = seconds 1050"
  by (simp add: numeral_eq_Suc limiter_delay_def FREE_ATTEMPTS_def BASE_DELAY_def MAX_DELAY_def time_defs)

text \<open>What the bucket of a key holds after \<open>n\<close> wrong attempts since \<open>lo\<close>, the last recorded by \<open>now\<close>.\<close>

definition bucket_after :: "instant \<Rightarrow> instant \<Rightarrow> nat \<Rightarrow> (rate_limiter \<times> instant) option \<Rightarrow> bool" where
  "bucket_after lo now n e =
     (if n = 0 then e = None
      else \<exists>l t. e = Some (l, t) \<and> t \<le> now \<and> lo + earliest n \<le> t \<and> unat (rl_failures l) = n \<and>
             rl_blocked_until l = (if n \<le> FREE_ATTEMPTS then None else Some (t + limiter_delay n)))"

lemma bucket_after_later: "bucket_after lo now n e \<Longrightarrow> now \<le> now' \<Longrightarrow> bucket_after lo now' n e"
  by (auto simp: bucket_after_def split: if_splits)

lemma bucket_after_fail:
  assumes "bucket_after lo now n e" "n < 2 ^ 32 - 1" "now \<le> s" "s \<le> t" "lo \<le> now"
    and "case e of None \<Rightarrow> True | Some (l, _) \<Rightarrow> (case rl_blocked_until l of None \<Rightarrow> True | Some until \<Rightarrow> until \<le> s)"
  shows "bucket_after lo t (Suc n) (Some (failed_entry e t))"
proof (cases n)
  case 0
  then show ?thesis
    using assms by (simp add: bucket_after_def failed_entry_def limiter_failure_def rate_limiter_new_def
        unat_saturating_inc FREE_ATTEMPTS_def Let_def)
next
  case (Suc m)
  then obtain l t0 where e: "e = Some (l, t0)" "t0 \<le> now" "lo + earliest n \<le> t0" "unat (rl_failures l) = n"
      "rl_blocked_until l = (if n \<le> FREE_ATTEMPTS then None else Some (t0 + limiter_delay n))"
    using assms(1) by (auto simp: bucket_after_def)
  have count: "unat (saturating_inc (rl_failures l)) = Suc n"
    using assms(2) e(4) by (simp add: unat_saturating_inc)
  have "lo + earliest (Suc n) \<le> t"
    using assms(3,4,6) e by (auto split: if_splits)
  then show ?thesis
    using e(5) count by (auto simp: bucket_after_def failed_entry_def limiter_failure_def e(1) Let_def)
qed

lemma bucket_after_step:
  assumes wf: "table_wf b" and inv: "bucket_after lo now n (map_of b k)" "lo \<le> now"
    and a: "attempt_span a = (s, t)" "now \<le> s" "s \<le> t" "t < lo + IDLE" "distinct (attempt_keys a)" "\<not> clears k a"
    and n: "n < 2 ^ 32 - 1"
  shows "bucket_after lo t (n + (case a of WrongAttempt keys _ _ \<Rightarrow> if k \<in> set keys \<and> let_through b a then 1 else 0
                                   | RightAttempt _ _ \<Rightarrow> 0)) (map_of (attempt_step b a) k)"
proof (cases a)
  case (RightAttempt keys t')
  then show ?thesis
    using bucket_after_later [OF inv(1), of t] a by (auto simp: map_of_success)
next
  case (WrongAttempt keys s' t')
  then have w: "a = WrongAttempt keys s t" using a(1) by simp
  show ?thesis
  proof (cases "let_through b a")
    case False
    then show ?thesis
      using bucket_after_later [OF inv(1), of t] a w by simp
  next
    case True
    define b' where "b' = foldl (bucket_fail t) b keys"
    have b': "table_wf b'" "map_of b' k = (if k \<in> set keys then Some (failed_entry (map_of b k) t) else map_of b k)"
      using wf a(5) w by (simp_all add: b'_def table_wf_fails map_of_bucket_fails)
    let ?n = "n + (if k \<in> set keys then 1 else 0)"
    have "bucket_after lo t ?n (map_of b' k)"
    proof (cases "k \<in> set keys")
      case True
      have "bucket_wait b s k = 0"
        using \<open>let_through b a\<close> True w by (simp add: let_through_def buckets_check_ok)
      then show ?thesis
        using bucket_after_fail [OF inv(1) n a(2,3) inv(2)] True b'(2) by (simp add: bucket_wait_0)
    next
      case False
      then show ?thesis
        using bucket_after_later [OF inv(1), of t] a b'(2) by simp
    qed
    moreover from this have "map_of (buckets_purge b' t) k = map_of b' k"
    proof (cases "?n = 0")
      case True
      then show ?thesis
        using calculation b'(1) by (simp add: bucket_after_def map_of_purge_None)
    next
      case False
      then obtain l u where e: "map_of b' k = Some (l, u)" "lo + earliest ?n \<le> u"
        using calculation by (auto simp: bucket_after_def)
      have "lo \<le> u" using e(2) earliest_mono [of 0 ?n] by simp
      then have "duration_since t u < IDLE"
        using a(4) by (simp add: duration_since_def IDLE_def time_defs)
      then show ?thesis
        using map_of_purge_recent [OF b'(1) e(1)] e(1) by simp
    qed
    ultimately show ?thesis
      using True w by (simp add: buckets_failure_def b'_def)
  qed
qed

lemma wrong_admitted_bound:
  assumes "table_wf b" "bucket_after lo now n (map_of b k)" "lo \<le> now" "in_turn now (lo + IDLE) as"
    and "\<forall>a \<in> set as. \<not> clears k a" "n \<le> 11"
  shows "n + wrong_admitted k b as \<le> 11"
  using assms
proof (induction as arbitrary: b now n)
  case Nil
  then show ?case by simp
next
  case (Cons a as)
  obtain s t where span: "attempt_span a = (s, t)" by (cases "attempt_span a")
  define m where "m = n + (case a of WrongAttempt keys _ _ \<Rightarrow> if k \<in> set keys \<and> let_through b a then 1 else 0
                                   | RightAttempt _ _ \<Rightarrow> 0)"
  have turn: "now \<le> s" "s \<le> t" "t < lo + IDLE" "distinct (attempt_keys a)" "in_turn t (lo + IDLE) as"
    using Cons.prems(4) span by simp_all
  have after: "bucket_after lo t m (map_of (attempt_step b a) k)"
    unfolding m_def using bucket_after_step [OF Cons.prems(1-3) span turn(1-4)] Cons.prems by simp
  have "m \<le> 11"
  proof (rule ccontr)
    assume "\<not> m \<le> 11"
    then have "lo + earliest m \<le> t" "earliest 12 \<le> earliest m"
      using after by (auto simp: bucket_after_def intro: earliest_mono simp del: earliest.simps)
    then show False
      using turn(3) by (simp add: earliest_12 IDLE_def time_defs del: earliest.simps)
  qed
  then have "m + wrong_admitted k (attempt_step b a) as \<le> 11"
    using Cons.IH [OF table_wf_attempt [OF Cons.prems(1)] after _ turn(5)] Cons.prems(3,5) turn(1,2) by simp
  then show ?case by (simp add: m_def)
qed


definition sixfold :: "attempt list" where
  "sixfold = map (\<lambda>i. WrongAttempt [KeyUser ''admin'' None] (seconds i) (seconds i)) [1 .. 20]"


text \<open>
  The check and the record of an attempt take the lock separately, and the password is verified between the two.
  \<open>locked_run\<close> follows the attempts of several requests at that grain: the buckets, the requests that were let through,
  how many passwords were verified.
\<close>

datatype locked_op = Checking nat instant | Recording nat instant

fun locked_step :: "limiter_key list \<Rightarrow> buckets \<times> nat set \<times> nat \<Rightarrow> locked_op \<Rightarrow> buckets \<times> nat set \<times> nat" where
  "locked_step keys (b, through, tried) (Checking i t) =
     (b, if buckets_check b keys t = Inr () then insert i through else through, tried)"
| "locked_step keys (b, through, tried) (Recording i t) =
     (if i \<in> through then (buckets_failure b keys t, through, tried + 1) else (b, through, tried))"

definition locked_run :: "limiter_key list \<Rightarrow> locked_op list \<Rightarrow> buckets \<times> nat set \<times> nat" where
  "locked_run keys ops = foldl (locked_step keys) ([], {}, 0) ops"

lemma locked_checks:
  "foldl (locked_step keys) ([], through, tried) (map (\<lambda>i. Checking i t) xs) = ([], through \<union> set xs, tried)"
  by (induction xs arbitrary: through) (auto simp: buckets_check_ok bucket_wait_def)

lemma locked_records:
  "set xs \<subseteq> through \<Longrightarrow>
   snd (foldl (locked_step keys) (b, through, tried) (map (\<lambda>i. Recording i t) xs)) = (through, tried + length xs)"
  by (induction xs arbitrary: b tried) auto

text \<open>
  attempts made at the same time are not held back: any number of requests can pass the check before the first of
  them records its failure, and all their passwords are verified.
\<close>

theorem parallel_attempts_unlimited:
  "\<exists>ops. list_all (\<lambda>op. case op of Checking _ t \<Rightarrow> t = now | Recording _ t \<Rightarrow> t = now) ops \<and>
     snd (snd (locked_run keys ops)) = n"
proof (intro exI conjI)
  let ?ops = "map (\<lambda>i. Checking i now) [0..<n] @ map (\<lambda>i. Recording i now) [0..<n]"
  show "list_all (\<lambda>op. case op of Checking _ t \<Rightarrow> t = now | Recording _ t \<Rightarrow> t = now) ?ops"
    by (auto simp: list_all_iff)
  show "snd (snd (locked_run keys ?ops)) = n"
    by (simp add: locked_run_def locked_checks locked_records)
qed

end
