(* ===== verification/Base32.thy ===== *)
theory Base32
  imports Rust_Text
begin

text \<open>
  The base32 text of a secret (\<^verbatim>\<open>encode_base32\<close> of \<^verbatim>\<open>crates/server/src/auth/totp.rs\<close>), with the positional numerals it
  is proved against: the buffer of the code is the number whose digits are the bytes, and the symbols are its digits in
  base 32.
\<close>

unbundle bit_operations_syntax

section \<open>The encoder\<close>

definition BASE32 :: string where
  "BASE32 = ''ABCDEFGHIJKLMNOPQRSTUVWXYZ234567''"

text \<open>The inner loop: five bits leave the buffer as long as there are five.\<close>

function drain :: "32 word \<Rightarrow> nat \<Rightarrow> string \<Rightarrow> nat \<times> string" where
  "drain buffer bits out =
     (if bits \<ge> 5 then drain buffer (bits - 5) (out @ [BASE32 ! unat (drop_bit (bits - 5) buffer AND 31)])
      else (bits, out))"
  by auto

termination by (relation "measure (\<lambda>(_, bits, _). bits)") auto

declare drain.simps [simp del]

definition base32_step :: "32 word \<times> nat \<times> string \<Rightarrow> 8 word \<Rightarrow> 32 word \<times> nat \<times> string" where
  "base32_step acc byte =
     (let (buffer, bits, out) = acc;
          buffer = (push_bit 8 buffer OR ucast byte);
          (bits, out) = drain buffer (bits + 8) out
      in (buffer, bits, out))"

definition encode_base32 :: "8 word list \<Rightarrow> string" where
  "encode_base32 bs =
     (let (buffer, bits, out) = foldl base32_step (0, 0, []) bs
      in if bits > 0 then out @ [BASE32 ! unat (push_bit (5 - bits) buffer AND 31)] else out)"

section \<open>Numerals\<close>

fun digits :: "nat \<Rightarrow> nat \<Rightarrow> nat \<Rightarrow> nat list" where
  "digits base 0 n = []"
| "digits base (Suc k) n = digits base k (n div base) @ [n mod base]"

definition base_value :: "nat \<Rightarrow> nat list \<Rightarrow> nat" where
  "base_value base ds = foldl (\<lambda>acc d. acc * base + d) 0 ds"

lemma length_digits [simp]: "length (digits base k n) = k"
  by (induction k arbitrary: n) simp_all

lemma digits_less: "0 < base \<Longrightarrow> d \<in> set (digits base k n) \<Longrightarrow> d < base"
  by (induction k arbitrary: n) auto

lemma base_value_snoc [simp]: "base_value base (ds @ [d]) = base_value base ds * base + d"
  by (simp add: base_value_def)

lemma base_value_Nil [simp]: "base_value base [] = 0"
  by (simp add: base_value_def)

lemma base_value_digits: "n < base ^ k \<Longrightarrow> base_value base (digits base k n) = n"
  by (induction k arbitrary: n) (simp_all add: less_mult_imp_div_less mult.commute)

lemma base_value_less: "0 < base \<Longrightarrow> list_all (\<lambda>d. d < base) ds \<Longrightarrow> base_value base ds < base ^ length ds"
proof (induction ds rule: rev_induct)
  case (snoc d ds)
  then have "base_value base ds + 1 \<le> base ^ length ds" "d < base" by simp_all
  from this(1) have "(base_value base ds + 1) * base \<le> base ^ length ds * base"
    by (rule mult_le_mono1)
  with \<open>d < base\<close> show ?case by (simp add: algebra_simps)
qed simp

lemma digits_base_value: "list_all (\<lambda>d. d < base) ds \<Longrightarrow> digits base (length ds) (base_value base ds) = ds"
  by (induction ds rule: rev_induct) simp_all

definition byte_value :: "8 word list \<Rightarrow> nat" where
  "byte_value bs = base_value 256 (map unat bs)"

lemma unat_byte: "unat (b :: 8 word) < 256"
  using unsigned_less [of b] by simp

lemma bytes_small: "list_all (\<lambda>d. d < 256) (map unat (bs :: 8 word list))"
  by (simp add: list_all_iff unat_byte)

lemma byte_value_less: "byte_value bs < 2 ^ (8 * length bs)"
  using base_value_less [OF _ bytes_small, of bs] by (simp add: byte_value_def power_mult)

lemma append_byte: "push_bit 8 (of_nat n) OR ucast (b :: 8 word) = (of_nat (n * 256 + unat b) :: 32 word)"
proof -
  have "push_bit 8 (of_nat n :: 32 word) OR ucast b = push_bit 8 (of_nat n) + ucast b"
    by (rule disjunctive_add [symmetric]) (auto simp: bit_simps dest: bit_imp_le_length)
  then show ?thesis
    by (simp add: push_bit_eq_mult of_nat_unat mult.commute)
qed

lemma five_bits: "k \<le> 27 \<Longrightarrow> unat (drop_bit k (of_nat n :: 32 word) AND 31) = n div 2 ^ k mod 32"
proof -
  assume k: "k \<le> 27"
  have m: "(31 :: 32 word) = mask 5" by (simp add: mask_eq_exp_minus_1)
  have "unat (drop_bit k (of_nat n :: 32 word) AND 31) = take_bit 5 (drop_bit k (take_bit 32 n))"
    unfolding m take_bit_eq_mask [symmetric]
    by (simp add: unsigned_take_bit_eq unsigned_drop_bit_eq unsigned_of_nat)
  also have "\<dots> = take_bit 5 (drop_bit k n)"
    using k by (intro bit_eqI) (auto simp: bit_simps)
  finally show ?thesis by (simp add: take_bit_eq_mod drop_bit_eq_div)
qed

lemma last_bits: "unat (push_bit j (of_nat n :: 32 word) AND 31) = n * 2 ^ j mod 32"
proof -
  have m: "(31 :: 32 word) = mask 5" by (simp add: mask_eq_exp_minus_1)
  have "push_bit j (of_nat n :: 32 word) = of_nat (n * 2 ^ j)"
    by (simp add: push_bit_eq_mult)
  then show ?thesis
    using five_bits [of 0 "n * 2 ^ j"] by simp
qed

lemma drain_digits:
  assumes "bits \<le> 32" "buffer = of_nat n"
  shows "drain buffer bits (map ((!) BASE32) (digits 32 k (n div 2 ^ bits))) =
     (bits mod 5, map ((!) BASE32) (digits 32 (k + bits div 5) (n div 2 ^ (bits mod 5))))"
  using assms
proof (induction bits arbitrary: k rule: less_induct)
  case (less bits)
  show ?case
  proof (cases "bits \<ge> 5")
    case False
    then show ?thesis by (simp add: drain.simps)
  next
    case True
    then obtain b where b: "bits = b + 5" by (metis le_Suc_ex add.commute)
    have "n div 2 ^ bits = n div 2 ^ b div 32"
      by (simp add: b power_add div_mult2_eq)
    then have "map ((!) BASE32) (digits 32 k (n div 2 ^ bits)) @ [BASE32 ! unat (drop_bit b buffer AND 31)] =
        map ((!) BASE32) (digits 32 (Suc k) (n div 2 ^ b))"
      using less.prems b by (simp add: five_bits)
    then show ?thesis
      using less.IH [of b "Suc k"] less.prems b by (subst drain.simps) simp
  qed
qed

lemma base32_fold:
  "foldl base32_step (0, 0, []) bs =
     (of_nat (byte_value bs), 8 * length bs mod 5,
      map ((!) BASE32) (digits 32 (8 * length bs div 5) (byte_value bs div 2 ^ (8 * length bs mod 5))))"
proof (induction bs rule: rev_induct)
  case Nil
  then show ?case by (simp add: byte_value_def)
next
  case (snoc b bs)
  define r k n where "r = 8 * length bs mod 5" and "k = 8 * length bs div 5" and "n = byte_value bs * 256 + unat b"
  have n: "byte_value (bs @ [b]) = n" by (simp add: byte_value_def n_def)
  have "(2 :: nat) ^ (r + 8) = 256 * 2 ^ r" by (simp add: power_add)
  then have "n div 2 ^ (r + 8) = n div 256 div 2 ^ r"
    by (simp only: div_mult2_eq)
  also have "n div 256 = byte_value bs"
    using unat_byte [of b] by (simp add: n_def)
  finally have "drain (of_nat n) (r + 8) (map ((!) BASE32) (digits 32 k (byte_value bs div 2 ^ r))) =
      ((r + 8) mod 5, map ((!) BASE32) (digits 32 (k + (r + 8) div 5) (n div 2 ^ ((r + 8) mod 5))))"
    using drain_digits [of "r + 8" "of_nat n" n k] by (simp add: r_def)
  moreover have "(r + 8) mod 5 = 8 * length (bs @ [b]) mod 5" "k + (r + 8) div 5 = 8 * length (bs @ [b]) div 5"
    by (simp_all add: r_def k_def) presburger+
  moreover have "foldl base32_step (0, 0, []) (bs @ [b]) =
      (of_nat n, drain (of_nat n) (r + 8) (map ((!) BASE32) (digits 32 k (byte_value bs div 2 ^ r))))"
    by (simp add: snoc.IH base32_step_def append_byte n_def r_def k_def Let_def split_def del: of_nat_add of_nat_mult)
  ultimately show ?case by (simp only: n)
qed

lemma symbol_count:
  fixes n k :: nat
  assumes "k = (8 * n + 4) div 5"
  shows "8 * n \<le> 5 * k" "5 * k \<le> 8 * n + 4"
proof -
  have "5 * k + (8 * n + 4) mod 5 = 8 * n + 4" using assms by simp
  moreover have "(8 * n + 4) mod 5 < 5" by simp
  ultimately show "8 * n \<le> 5 * k" "5 * k \<le> 8 * n + 4" by linarith+
qed

lemma encode_base32_digits:
  assumes "k = (8 * length bs + 4) div 5"
  shows "encode_base32 bs = map ((!) BASE32) (digits 32 k (byte_value bs * 2 ^ (5 * k - 8 * length bs)))"
proof (cases "8 * length bs mod 5 = 0")
  case True
  then have "8 * length bs = 5 * (8 * length bs div 5)" by presburger
  moreover from this have k: "8 * length bs div 5 = k" using symbol_count [OF assms] by linarith
  ultimately have "5 * k - 8 * length bs = 0" by simp
  note k = k this
  show ?thesis unfolding encode_base32_def base32_fold True k by simp
next
  case False
  define r where "r = 8 * length bs mod 5"
  have r: "0 < r" "r < 5" "k = Suc (8 * length bs div 5)" "5 * k - 8 * length bs = 5 - r"
  proof -
    show "0 < r" "r < 5" using False by (simp_all add: r_def)
    moreover have "8 * length bs = 5 * (8 * length bs div 5) + r" by (simp add: r_def)
    ultimately show k: "k = Suc (8 * length bs div 5)"
      using symbol_count [OF assms] by linarith
    show "5 * k - 8 * length bs = 5 - r"
      using \<open>8 * length bs = 5 * (8 * length bs div 5) + r\<close> k by linarith
  qed
  have "byte_value bs * 2 ^ (5 - r) div 32 = byte_value bs div 2 ^ r"
  proof -
    have "(32 :: nat) = 2 ^ (5 - r) * 2 ^ r" using r by (simp add: power_add [symmetric])
    then have "byte_value bs * 2 ^ (5 - r) div 32 = byte_value bs * 2 ^ (5 - r) div 2 ^ (5 - r) div 2 ^ r"
      by (simp only: div_mult2_eq)
    then show ?thesis by simp
  qed
  then show ?thesis
    using r by (simp add: encode_base32_def base32_fold r_def [symmetric] last_bits)
qed

text \<open>What an authenticator application reads: the value of the symbols, without the bits that fill the last one.\<close>

definition base32_digit :: "char \<Rightarrow> nat option" where
  "base32_digit c = map_of (zip BASE32 [0..<32]) c"

definition decode_base32 :: "string \<Rightarrow> 8 word list option" where
  "decode_base32 s =
     (if \<exists>c \<in> set s. base32_digit c = None then None
      else
        (let n = 5 * length s div 8; v = base_value 32 (map (the \<circ> base32_digit) s)
         in Some (map of_nat (digits 256 n (v div 2 ^ (5 * length s - 8 * n))))))"

lemma base32_digit_nth: "d < 32 \<Longrightarrow> base32_digit (BASE32 ! d) = Some d"
proof -
  assume "d < 32"
  moreover have "distinct BASE32" "length BASE32 = 32" by (simp_all add: BASE32_def)
  ultimately show ?thesis
    unfolding base32_digit_def by (metis length_upt map_of_zip_nth minus_nat.diff_0 add_0 nth_upt)
qed

text \<open>
  the secret shown to the user is the secret: the base32 text of any bytes, built through a 32-bit buffer whose high
  bits fall off, reads back as those bytes.
\<close>

theorem base32_roundtrip: "decode_base32 (encode_base32 bs) = Some bs"
proof -
  define n k where "n = length bs" and "k = (8 * n + 4) div 5"
  define v where "v = byte_value bs * 2 ^ (5 * k - 8 * n)"
  have e: "encode_base32 bs = map ((!) BASE32) (digits 32 k v)"
    using encode_base32_digits [of k bs] by (simp add: k_def n_def v_def)
  have k: "8 * n \<le> 5 * k" "5 * k div 8 = n" 
    using symbol_count [OF k_def] by (simp, intro div_nat_eqI) simp_all
  have "v < 2 ^ (8 * n) * 2 ^ (5 * k - 8 * n)"
    unfolding v_def using byte_value_less [of bs] by (simp add: n_def)
  also have "\<dots> = 2 ^ (5 * k)" using k(1) by (simp add: power_add [symmetric])
  finally have "v < 32 ^ k" by (simp add: power_mult)
  then have v: "base_value 32 (digits 32 k v) = v" by (rule base_value_digits)
  have small: "\<forall>d \<in> set (digits 32 k v). base32_digit (BASE32 ! d) = Some d"
    by (auto intro!: base32_digit_nth dest: digits_less [rotated])
  then have "map (the \<circ> base32_digit) (encode_base32 bs) = digits 32 k v"
    unfolding e map_map by (intro map_idI) simp
  moreover have "\<not> (\<exists>c \<in> set (encode_base32 bs). base32_digit c = None)"
    using small by (auto simp: e)
  moreover have "length (encode_base32 bs) = k" by (simp add: e)
  moreover have "v div 2 ^ (5 * k - 8 * n) = byte_value bs" by (simp add: v_def)
  ultimately have "decode_base32 (encode_base32 bs) = Some (map of_nat (digits 256 n (byte_value bs)))"
    unfolding decode_base32_def Let_def by (simp only: if_False k v)
  moreover have "digits 256 n (byte_value bs) = map unat bs"
    using digits_base_value [OF bytes_small, of bs] by (simp add: byte_value_def n_def)
  ultimately show ?thesis by (simp add: comp_def)
qed

end
