(* ===== verification/Second_Factor.thy ===== *)
theory Second_Factor
  imports Rate_Limit Channel_Store Base32
begin

text \<open>
  The second factor and the one-time codes: time-based codes and recovery codes (\<^verbatim>\<open>crates/server/src/auth/totp.rs\<close>),
  the sign-ins that wait for a code (\<^verbatim>\<open>auth/totp_login.rs\<close>) and the code of the first configuration
  (\<^verbatim>\<open>auth/setup_code.rs\<close>). HMAC-SHA1 and SHA-256 come from other crates and are parameters, as are the random bytes.
\<close>

section \<open>One-time codes\<close>

definition PERIOD :: nat where
  "PERIOD = 30"

definition DIGITS :: nat where
  "DIGITS = 6"

definition WINDOW :: int where
  "WINDOW = 1"

definition unreserved :: "nat \<Rightarrow> bool" where
  "unreserved b = ((65 \<le> b \<and> b \<le> 90) \<or> (97 \<le> b \<and> b \<le> 122) \<or> (48 \<le> b \<and> b \<le> 57) \<or> b \<in> {45, 46, 95, 126})"

definition hex_upper :: "nat \<Rightarrow> char" where
  "hex_upper d = (if d < 10 then char_of (48 + d) else char_of (55 + d))"

definition percent_encode :: "string \<Rightarrow> string" where
  "percent_encode value =
     concat (map (\<lambda>c. let b = (of_char c :: nat)
                      in if unreserved b then [c] else [CHR ''%'', hex_upper (b div 16), hex_upper (b mod 16)]) value)"

definition otpauth_uri :: "string \<Rightarrow> string \<Rightarrow> bytes \<Rightarrow> string" where
  "otpauth_uri issuer account secret =
     ''otpauth://totp/'' @ percent_encode issuer @ '':'' @ percent_encode account @ ''?secret='' @ encode_base32 secret @
     ''&issuer='' @ percent_encode issuer @ ''&algorithm=SHA1&digits='' @ show_nat DIGITS @ ''&period='' @ show_nat PERIOD"

type_synonym hmac = "bytes \<Rightarrow> bytes \<Rightarrow> bytes"

definition be_bytes :: "nat \<Rightarrow> bytes" where
  "be_bytes n = map (\<lambda>i. of_nat (n div 256 ^ i)) (rev [0..<8])"

definition hotp :: "hmac \<Rightarrow> bytes \<Rightarrow> nat \<Rightarrow> nat" where
  "hotp hmac secret counter =
     (let digest = hmac secret (be_bytes counter);
          offset = unat (digest ! 19 AND 15);
          binary = (push_bit 24 (ucast (digest ! offset AND 127)) OR push_bit 16 (ucast (digest ! (offset + 1)))
                    OR push_bit 8 (ucast (digest ! (offset + 2))) OR ucast (digest ! (offset + 3)) :: 32 word)
      in unat binary mod 10 ^ DIGITS)"

definition code_at :: "hmac \<Rightarrow> bytes \<Rightarrow> nat \<Rightarrow> string" where
  "code_at hmac secret unix_secs = show_padded DIGITS (hotp hmac secret (unix_secs div PERIOD))"

text \<open>The steps are tried in order and the last match stands; a negative step is skipped.\<close>

definition matching_step_at :: "hmac \<Rightarrow> bytes \<Rightarrow> string \<Rightarrow> nat \<Rightarrow> int option" where
  "matching_step_at hmac secret code unix_secs =
     (let code = drop_white code
      in if length code \<noteq> DIGITS \<or> \<not> list_all is_ascii_digit code then None
         else
           (let step = int (unix_secs div PERIOD)
            in foldl (\<lambda>matched delta.
                 if step + delta < 0 then matched
                 else if show_padded DIGITS (hotp hmac secret (nat (step + delta))) = code then Some (step + delta)
                 else matched) None [- WINDOW .. WINDOW]))"

definition verify_at :: "hmac \<Rightarrow> bytes \<Rightarrow> string \<Rightarrow> nat \<Rightarrow> bool" where
  "verify_at hmac secret code unix_secs = (matching_step_at hmac secret code unix_secs \<noteq> None)"

type_synonym replay_guard = "int \<rightharpoonup> int"

definition replay_accept :: "replay_guard \<Rightarrow> int \<Rightarrow> int \<Rightarrow> bool \<times> replay_guard" where
  "replay_accept g user_id step =
     (case g user_id of
        Some prev \<Rightarrow> if step \<le> prev then (False, g) else (True, g(user_id \<mapsto> step))
      | None \<Rightarrow> (True, g(user_id \<mapsto> step)))"

definition replay_forget :: "replay_guard \<Rightarrow> int \<Rightarrow> replay_guard" where
  "replay_forget g user_id = g(user_id := None)"

section \<open>Recovery codes\<close>

definition RECOVERY_CODES :: nat where
  "RECOVERY_CODES = 8"

definition RECOVERY_ALPHABET :: string where
  "RECOVERY_ALPHABET = ''abcdefghjkmnpqrstuvwxyz23456789''"

definition normalize_recovery_code :: "string \<Rightarrow> string" where
  "normalize_recovery_code code = map ascii_lower (filter is_ascii_alphanumeric code)"

definition looks_like_recovery_code :: "string \<Rightarrow> bool" where
  "looks_like_recovery_code code = (length (normalize_recovery_code code) = 10)"

text \<open>\<open>random i\<close> is the \<open>i\<close>-th byte drawn.\<close>

definition generate_recovery_codes :: "(nat \<Rightarrow> 8 word) \<Rightarrow> string list" where
  "generate_recovery_codes random =
     map (\<lambda>n. let raw = map (\<lambda>i. RECOVERY_ALPHABET ! (unat (random (10 * n + i)) mod length RECOVERY_ALPHABET)) [0..<10]
              in take 5 raw @ ''-'' @ drop 5 raw) [0..<RECOVERY_CODES]"

definition hash_recovery_code :: "(bytes \<Rightarrow> bytes) \<Rightarrow> string \<Rightarrow> bytes" where
  "hash_recovery_code sha256 code = sha256 (str_bytes (normalize_recovery_code code))"

section \<open>Sign-ins that wait for a code\<close>

definition TTL :: timedelta where
  "TTL = seconds (5 * 60)"

definition MAX_FAILURES :: nat where
  "MAX_FAILURES = 5"

definition MAX_PENDING :: nat where
  "MAX_PENDING = 1000"

record pending =
  pn_user_id :: int
  pn_started :: instant
  pn_failures :: nat

type_synonym pending_logins = "(string \<times> pending) list"

datatype login_outcome = LoUnknown | LoCandidate int

text \<open>\<^verbatim>\<open>min_by_key\<close>: the first of the oldest.\<close>

definition oldest_key :: "pending_logins \<Rightarrow> string option" where
  "oldest_key entries =
     (case entries of
        [] \<Rightarrow> None
      | e # es \<Rightarrow> Some (fst (foldl (\<lambda>best x. if pn_started (snd x) < pn_started (snd best) then x else best) e es)))"

definition pending_start :: "pending_logins \<Rightarrow> string \<Rightarrow> int \<Rightarrow> instant \<Rightarrow> pending_logins" where
  "pending_start entries token user_id now =
     (let entries = retain (\<lambda>p. duration_since now (pn_started p) < TTL) entries;
          entries = (if length entries \<ge> MAX_PENDING
                     then (case oldest_key entries of Some k \<Rightarrow> AList.delete k entries | None \<Rightarrow> entries)
                     else entries)
      in AList.update token \<lparr>pn_user_id = user_id, pn_started = now, pn_failures = 0\<rparr> entries)"

definition pending_lookup :: "pending_logins \<Rightarrow> string \<Rightarrow> instant \<Rightarrow> login_outcome \<times> pending_logins" where
  "pending_lookup entries token now =
     (case map_of entries token of
        None \<Rightarrow> (LoUnknown, entries)
      | Some p \<Rightarrow>
          if duration_since now (pn_started p) \<ge> TTL then (LoUnknown, AList.delete token entries)
          else (LoCandidate (pn_user_id p), entries))"

definition pending_failure :: "pending_logins \<Rightarrow> string \<Rightarrow> bool \<times> pending_logins" where
  "pending_failure entries token =
     (case map_of entries token of
        None \<Rightarrow> (True, entries)
      | Some p \<Rightarrow>
          (let p = p\<lparr>pn_failures := pn_failures p + 1\<rparr>
           in if pn_failures p \<ge> MAX_FAILURES then (True, AList.delete token entries)
              else (False, AList.update token p entries)))"

definition pending_finish :: "pending_logins \<Rightarrow> string \<Rightarrow> pending_logins" where
  "pending_finish entries token = AList.delete token entries"

section \<open>The code of the first configuration\<close>

definition ALPHABET :: string where
  "ALPHABET = ''ABCDEFGHJKMNPQRSTUVWXYZ23456789''"

definition CODE_LENGTH :: nat where
  "CODE_LENGTH = 10"

definition byte_limit :: nat where
  "byte_limit = 256 - 256 mod length ALPHABET"

text \<open>
  Bytes are drawn until one is below the last multiple of the alphabet's length. \<open>random i\<close> is the \<open>i\<close>-th byte drawn; the
  result is the character and the number of bytes drawn so far, or nothing when the loop does not end.
\<close>

partial_function (option) draw_char :: "(nat \<Rightarrow> 8 word) \<Rightarrow> nat \<Rightarrow> (char \<times> nat) option" where
  "draw_char random i =
     (if unat (random i) < byte_limit then Some (ALPHABET ! (unat (random i) mod length ALPHABET), Suc i)
      else draw_char random (Suc i))"

primrec draw_chars :: "(nat \<Rightarrow> 8 word) \<Rightarrow> nat \<Rightarrow> nat \<Rightarrow> string option" where
  "draw_chars random i 0 = Some []"
| "draw_chars random i (Suc n) =
     (case draw_char random i of
        None \<Rightarrow> None
      | Some (c, j) \<Rightarrow> map_option (\<lambda>cs. c # cs) (draw_chars random j n))"

definition setup_generate :: "(nat \<Rightarrow> 8 word) \<Rightarrow> string option" where
  "setup_generate random =
     map_option (\<lambda>raw. take (CODE_LENGTH div 2) raw @ ''-'' @ drop (CODE_LENGTH div 2) raw)
       (draw_chars random 0 CODE_LENGTH)"

definition setup_normalize :: "string \<Rightarrow> string" where
  "setup_normalize code = map ascii_upper (filter is_ascii_alphanumeric code)"

definition setup_matches :: "(bytes \<Rightarrow> bytes) \<Rightarrow> string \<Rightarrow> string \<Rightarrow> bool" where
  "setup_matches sha256 expected given =
     (let given = setup_normalize given
      in given \<noteq> [] \<and> sha256 (str_bytes (setup_normalize expected)) = sha256 (str_bytes given))"

section \<open>Properties\<close>

subsection \<open>Accepted codes\<close>

lemma foldl_last_match:
  "foldl (\<lambda>m x. if P x then m else if Q x then Some (f x) else m) a xs = Some y \<Longrightarrow>
   a = Some y \<or> (\<exists>x \<in> set xs. \<not> P x \<and> Q x \<and> y = f x)"
  by (induction xs arbitrary: a) (fastforce split: if_splits)+

lemma matching_step_sound:
  assumes "matching_step_at hmac secret code unix_secs = Some step"
  shows "\<bar>step - int (unix_secs div PERIOD)\<bar> \<le> WINDOW \<and> 0 \<le> step \<and>
    drop_white code = show_padded DIGITS (hotp hmac secret (nat step))"
proof -
  let ?now = "int (unix_secs div PERIOD)"
  have "\<exists>delta \<in> set [- WINDOW .. WINDOW]. \<not> ?now + delta < 0 \<and>
      show_padded DIGITS (hotp hmac secret (nat (?now + delta))) = drop_white code \<and> step = ?now + delta"
    using assms unfolding matching_step_at_def Let_def
    by (auto split: if_splits dest!: foldl_last_match)
  then show ?thesis by auto
qed

lemma replay_accept_True:
  assumes "replay_accept g u step = (True, g')"
  shows "g' = g(u \<mapsto> step) \<and> (\<forall>prev. g u = Some prev \<longrightarrow> prev < step)"
  using assms by (auto simp: replay_accept_def split: option.splits if_splits)

lemma replay_accept_False: "replay_accept g u step = (False, g') \<Longrightarrow> g' = g"
  by (auto simp: replay_accept_def split: option.splits if_splits)

subsection \<open>Waiting sign-ins\<close>

lemma oldest_key_in: "oldest_key entries = Some k \<Longrightarrow> k \<in> fst ` set entries"
proof (cases entries)
  case (Cons e es)
  have "foldl (\<lambda>best x. if pn_started (snd x) < pn_started (snd best) then x else best) e es \<in> insert e (set es)"
    by (induction es arbitrary: e) fastforce+
  moreover assume "oldest_key entries = Some k"
  ultimately show ?thesis using Cons by (auto simp: oldest_key_def)
qed (simp add: oldest_key_def)

lemma length_delete_less: "k \<in> fst ` set m \<Longrightarrow> length (AList.delete k m) < length m"
  by (induction m) (auto simp: le_imp_less_Suc length_delete_le)

lemma length_update_le: "length (AList.update k v m) \<le> Suc (length m)"
  by (induction m) auto

lemma length_update_in: "k \<in> fst ` set m \<Longrightarrow> length (AList.update k v m) = length m"
  by (induction m) auto

lemma set_update_subset: "set (AList.update k v m) \<subseteq> insert (k, v) (set m)"
  by (induction m) auto

lemma set_delete_subset: "set (AList.delete k m) \<subseteq> set m"
  by (induction m) auto

text \<open>The table of waiting sign-ins: one entry per token, at most \<^const>\<open>MAX_PENDING\<close>, none with five wrong codes.\<close>

definition pending_wf :: "pending_logins \<Rightarrow> bool" where
  "pending_wf entries =
     (table_wf entries \<and> length entries \<le> MAX_PENDING \<and> (\<forall>e \<in> set entries. pn_failures (snd e) < MAX_FAILURES))"

lemma pending_wf_delete: "pending_wf m \<Longrightarrow> pending_wf (AList.delete k m)"
  using set_delete_subset [of k m] length_delete_le [of k m]
  unfolding pending_wf_def by (meson le_trans subsetD table_wf_delete)

lemma pending_wf_update:
  assumes "pending_wf m" "pn_failures v < MAX_FAILURES" "k \<in> fst ` set m \<or> length m < MAX_PENDING"
  shows "pending_wf (AList.update k v m)"
  using assms set_update_subset [of k v m] length_update_le [of k v m] length_update_in [of k m v]
  unfolding pending_wf_def by fastforce

lemma pending_wf_Nil: "pending_wf []"
  by (simp add: pending_wf_def table_wf_def)

lemma pending_wf_start: "pending_wf m \<Longrightarrow> pending_wf (pending_start m token u now)"
proof -
  assume m: "pending_wf m"
  define m1 where "m1 = retain (\<lambda>p. duration_since now (pn_started p) < TTL) m"
  define m2 where "m2 = (if length m1 \<ge> MAX_PENDING
      then (case oldest_key m1 of Some k \<Rightarrow> AList.delete k m1 | None \<Rightarrow> m1) else m1)"
  have m1: "pending_wf m1"
    using m le_trans [OF length_filter_le] unfolding m1_def pending_wf_def retain_def
    by (auto simp: table_wf_def distinct_map_filter)
  have "pending_wf m2"
    unfolding m2_def using m1 pending_wf_delete by (auto split: option.splits)
  moreover have "length m2 < MAX_PENDING"
  proof (cases "length m1 \<ge> MAX_PENDING")
    case True
    then have "m1 \<noteq> []" by (auto simp: MAX_PENDING_def)
    then obtain k where k: "oldest_key m1 = Some k" by (cases m1) (auto simp: oldest_key_def)
    then show ?thesis
      using True m1 length_delete_less [OF oldest_key_in [OF k]] by (simp add: m2_def pending_wf_def)
  qed (simp add: m2_def)
  moreover have "pending_start m token u now = AList.update token \<lparr>pn_user_id = u, pn_started = now, pn_failures = 0\<rparr> m2"
    unfolding pending_start_def m2_def m1_def Let_def ..
  ultimately show ?thesis by (simp add: pending_wf_update MAX_FAILURES_def)
qed

lemma pending_wf_lookup: "pending_wf m \<Longrightarrow> pending_wf (snd (pending_lookup m token now))"
  by (auto simp: pending_lookup_def pending_wf_delete split: option.splits)

lemma pending_wf_failure: "pending_wf m \<Longrightarrow> pending_wf (snd (pending_failure m token))"
proof (cases "map_of m token")
  case (Some p)
  assume m: "pending_wf m"
  have "token \<in> fst ` set m" using Some by (force dest: map_of_SomeD)
  then show ?thesis
    using m Some by (simp add: pending_failure_def Let_def pending_wf_delete pending_wf_update)
qed (simp add: pending_failure_def)

subsection \<open>The code of the first configuration\<close>

lemma length_ALPHABET [simp]: "length ALPHABET = 31"
  by (simp add: ALPHABET_def)

lemma byte_limit_248 [simp]: "byte_limit = 248"
  by (simp add: byte_limit_def)

lemma draw_char_returns:
  assumes "unat (random j) < byte_limit" "i \<le> j"
  shows "\<exists>c k. draw_char random i = Some (c, k) \<and> c \<in> set ALPHABET \<and> k \<le> Suc j"
  using assms(2)
proof (induction "j - i" arbitrary: i)
  case 0
  then show ?case using assms(1) by (subst draw_char.simps) simp
next
  case (Suc n)
  show ?case
  proof (cases "unat (random i) < byte_limit")
    case True
    then show ?thesis using Suc.prems by (subst draw_char.simps) simp
  next
    case False
    then show ?thesis using Suc.hyps(1) [of "Suc i"] Suc.hyps(2) by (subst draw_char.simps) simp
  qed
qed

lemma draw_chars_returns:
  assumes "\<And>i. \<exists>j \<ge> i. unat (random j) < byte_limit"
  shows "\<exists>cs. draw_chars random i n = Some cs \<and> length cs = n \<and> set cs \<subseteq> set ALPHABET"
proof (induction n arbitrary: i)
  case (Suc n)
  obtain j where "i \<le> j" "unat (random j) < byte_limit" using assms by blast
  then obtain c k where "draw_char random i = Some (c, k)" "c \<in> set ALPHABET"
    using draw_char_returns by blast
  then show ?case using Suc.IH [of k] by auto
qed simp

lemma draw_char_uniform:
  "c \<in> set ALPHABET \<Longrightarrow> card {b. b < byte_limit \<and> ALPHABET ! (b mod length ALPHABET) = c} = 8"
proof -
  assume c: "c \<in> set ALPHABET"
  then obtain i where i: "i < 31" "c = ALPHABET ! i" by (metis in_set_conv_nth length_ALPHABET)
  have d: "distinct ALPHABET" by (simp add: ALPHABET_def)
  have "{b. b < byte_limit \<and> ALPHABET ! (b mod length ALPHABET) = c} = (\<lambda>q. q * 31 + i) ` {..<8}"
  proof (intro equalityI subsetI)
    fix b assume "b \<in> {b. b < byte_limit \<and> ALPHABET ! (b mod length ALPHABET) = c}"
    then have "b < 248" "b mod 31 = i"
      using i d by (auto simp: nth_eq_iff_index_eq)
    then have "b = b div 31 * 31 + i" "b div 31 < 8" by auto
    then show "b \<in> (\<lambda>q. q * 31 + i) ` {..<8}" by blast
  next
    fix b assume "b \<in> (\<lambda>q. q * 31 + i) ` {..<8}"
    then show "b \<in> {b. b < byte_limit \<and> ALPHABET ! (b mod length ALPHABET) = c}"
      using i by auto
  qed
  moreover have "inj_on (\<lambda>q. q * 31 + i) {..<8}" by (rule inj_onI) simp
  ultimately show ?thesis by (simp add: card_image)
qed

text \<open>
  the rejection loop that draws the setup code ends as soon as the random source keeps producing a byte below 248,
  and the code it gives is two groups of five characters of the alphabet. Every character comes from exactly eight of
  the 248 bytes that are kept.
\<close>

theorem setup_code_drawn:
  assumes "\<And>i. \<exists>j \<ge> i. unat (random j) < byte_limit"
  shows "\<exists>a b. setup_generate random = Some (a @ ''-'' @ b) \<and> length a = 5 \<and> length b = 5 \<and>
    set (a @ b) \<subseteq> set ALPHABET \<and>
    (\<forall>c \<in> set ALPHABET. card {b. b < byte_limit \<and> ALPHABET ! (b mod length ALPHABET) = c} = 8)"
proof -
  obtain cs where cs: "draw_chars random 0 CODE_LENGTH = Some cs" "length cs = 10" "set cs \<subseteq> set ALPHABET"
    using draw_chars_returns [OF assms, of 0 CODE_LENGTH] by (auto simp: CODE_LENGTH_def)
  have "set (take 5 cs @ drop 5 cs) \<subseteq> set ALPHABET" using cs(3) by simp
  then show ?thesis
    using cs draw_char_uniform by (intro exI [of _ "take 5 cs"] exI [of _ "drop 5 cs"])
      (simp add: setup_generate_def CODE_LENGTH_def)
qed

theorem setup_code_drawn_witness:
  "\<exists>a b. setup_generate (\<lambda>i. if even i then 255 else 7) = Some (a @ ''-'' @ b) \<and> length a = 5 \<and> length b = 5"
proof -
  have "\<exists>j \<ge> i. unat (if even j then 255 else 7 :: 8 word) < byte_limit" for i :: nat
    by (intro exI [of _ "2 * i + 1"]) simp
  then show ?thesis using setup_code_drawn [of "\<lambda>i. if even i then 255 else 7"] by blast
qed

end
