(* ===== verification/Auth_Store.thy ===== *)
theory Auth_Store
  imports Second_Factor
begin

text \<open>
  The tables of authentication: accounts (\<^verbatim>\<open>crates/server/src/auth/users.rs\<close>), sessions (\<^verbatim>\<open>auth/session.rs\<close>), the
  recovery codes, the audit log (\<^verbatim>\<open>auth/audit.rs\<close>), the settings (\<^verbatim>\<open>auth/settings.rs\<close>) and the rows of API tokens, with
  the constraints of the schema the statements rest on: names unique without regard to ASCII case, sessions and codes that
  follow their account, the trigger that revokes the tokens of an account before it is deleted. Times written by SQLite
  itself are whole seconds.
\<close>

section \<open>Rows\<close>

datatype role = Admin | Operator | Viewer

fun role_as_str :: "role \<Rightarrow> string" where
  "role_as_str Admin = ''admin''"
| "role_as_str Operator = ''operator''"
| "role_as_str Viewer = ''viewer''"

definition role_parse :: "string \<Rightarrow> role option" where
  "role_parse value =
     (if value = ''admin'' then Some Admin else if value = ''operator'' then Some Operator
      else if value = ''viewer'' then Some Viewer else None)"

fun role_is_admin :: "role \<Rightarrow> bool" where
  "role_is_admin Admin = True"
| "role_is_admin _ = False"

fun role_can_operate :: "role \<Rightarrow> bool" where
  "role_can_operate Viewer = False"
| "role_can_operate _ = True"

record user =
  us_id :: int
  us_username :: string
  us_display_name :: string
  us_role :: role
  us_password_hash :: "string option"
  us_oidc_subject :: "string option"
  us_oidc_issuer :: "string option"
  us_created_at :: instant
  us_last_login_at :: "instant option"
  us_disabled :: bool
  us_totp_secret :: "bytes option"
  us_totp_enabled :: bool

definition user_label :: "user \<Rightarrow> string" where
  "user_label u = (if trim (us_display_name u) = [] then us_username u else us_display_name u)"

definition auth_method :: "user \<Rightarrow> string" where
  "auth_method u = (if us_password_hash u \<noteq> None then ''password'' else ''oidc'')"

record session_row =
  ss_id :: string
  ss_token_hash :: bytes
  ss_created_at :: instant
  ss_expires_at :: instant
  ss_user_id :: "int option"

record recovery_row =
  rr_id :: int
  rr_user_id :: int
  rr_code_hash :: bytes
  rr_used_at :: "instant option"

record audit_entry =
  ae_id :: int
  ae_at :: instant
  ae_actor :: "string option"
  ae_action :: string
  ae_subject :: "string option"
  ae_ip :: "ip_addr option"

datatype scope = ScRead | ScWrite

text \<open>\<open>tk_networks\<close> is the JSON array of texts the column holds; the last address is kept rather than its text.\<close>

record token_row =
  tk_id :: int
  tk_name :: string
  tk_prefix :: string
  tk_hash :: bytes
  tk_scope :: scope
  tk_created_at :: instant
  tk_last_used_at :: "instant option"
  tk_last_used_ip :: "ip_addr option"
  tk_revoked_at :: "instant option"
  tk_user_id :: "int option"
  tk_expires_at :: "instant option"
  tk_networks :: "string list option"

record auth_db =
  ub_users :: "user list"
  ub_next_user :: int
  ub_sessions :: "session_row list"
  ub_codes :: "recovery_row list"
  ub_next_code :: int
  ub_tokens :: "token_row list"
  ub_next_token :: int
  ub_audit :: "audit_entry list"
  ub_next_audit :: int
  ub_settings :: "string \<rightharpoonup> bytes"

definition sql_now :: "instant \<Rightarrow> instant" where
  "sql_now t = t - t mod nanos_per_sec"

section \<open>Accounts\<close>

definition nocase :: "string \<Rightarrow> string" where
  "nocase s = map ascii_lower s"

definition users_count :: "auth_db \<Rightarrow> nat" where
  "users_count db = length (ub_users db)"

definition users_list :: "auth_db \<Rightarrow> user list" where
  "users_list db = sort_key (\<lambda>u. nocase (us_username u)) (ub_users db)"

definition users_get :: "int \<Rightarrow> auth_db \<Rightarrow> user option" where
  "users_get i db = find (\<lambda>u. us_id u = i) (ub_users db)"

definition by_username :: "string \<Rightarrow> auth_db \<Rightarrow> user option" where
  "by_username name db = find (\<lambda>u. nocase (us_username u) = nocase name) (ub_users db)"

definition by_oidc :: "string \<Rightarrow> string \<Rightarrow> auth_db \<Rightarrow> user option" where
  "by_oidc issuer subject db =
     find (\<lambda>u. us_oidc_issuer u = Some issuer \<and> us_oidc_subject u = Some subject) (ub_users db)"

definition sole_password_user :: "auth_db \<Rightarrow> user option" where
  "sole_password_user db =
     (case take 2 (filter (\<lambda>u. us_password_hash u \<noteq> None) (ub_users db)) of [u] \<Rightarrow> Some u | _ \<Rightarrow> None)"

record new_user =
  nu_username :: string
  nu_display_name :: string
  nu_role :: role
  nu_password_hash :: "string option"
  nu_oidc :: "(string \<times> string) option"

definition subject_taken :: "auth_db \<Rightarrow> string option \<Rightarrow> bool" where
  "subject_taken db subject = (subject \<noteq> None \<and> list_ex (\<lambda>u. us_oidc_subject u = subject) (ub_users db))"

definition user_of_new :: "int \<Rightarrow> instant \<Rightarrow> new_user \<Rightarrow> user" where
  "user_of_new i now nu =
     \<lparr>us_id = i, us_username = nu_username nu, us_display_name = nu_display_name nu, us_role = nu_role nu,
      us_password_hash = nu_password_hash nu, us_oidc_subject = map_option snd (nu_oidc nu),
      us_oidc_issuer = map_option fst (nu_oidc nu), us_created_at = sql_now now, us_last_login_at = None,
      us_disabled = False, us_totp_secret = None, us_totp_enabled = False\<rparr>"

definition add_user :: "instant \<Rightarrow> new_user \<Rightarrow> auth_db \<Rightarrow> auth_db" where
  "add_user now nu db =
     db\<lparr>ub_users := ub_users db @ [user_of_new (ub_next_user db) now nu], ub_next_user := ub_next_user db + 1\<rparr>"

text \<open>\<^term>\<open>None\<close>: the statement fails on the unique subject. A taken name is no error: nothing is written.\<close>

definition users_insert :: "instant \<Rightarrow> new_user \<Rightarrow> auth_db \<Rightarrow> (int option \<times> auth_db) option" where
  "users_insert now nu db =
     (if by_username (nu_username nu) db \<noteq> None then Some (None, db)
      else if subject_taken db (map_option snd (nu_oidc nu)) then None
      else Some (Some (ub_next_user db), add_user now nu db))"

definition insert_first_admin :: "instant \<Rightarrow> string \<Rightarrow> string \<Rightarrow> auth_db \<Rightarrow> bool \<times> auth_db" where
  "insert_first_admin now username hash db =
     (if ub_users db = []
      then (True, add_user now \<lparr>nu_username = username, nu_display_name = [], nu_role = Admin,
                                nu_password_hash = Some hash, nu_oidc = None\<rparr> db)
      else (False, db))"

definition update_user :: "int \<Rightarrow> (user \<Rightarrow> user) \<Rightarrow> auth_db \<Rightarrow> auth_db" where
  "update_user i f db = db\<lparr>ub_users := map (\<lambda>u. if us_id u = i then f u else u) (ub_users db)\<rparr>"

definition set_password_hash :: "int \<Rightarrow> string \<Rightarrow> auth_db \<Rightarrow> auth_db" where
  "set_password_hash i hash = update_user i (\<lambda>u. u\<lparr>us_password_hash := Some hash\<rparr>)"

definition set_display_name :: "int \<Rightarrow> string \<Rightarrow> auth_db \<Rightarrow> auth_db" where
  "set_display_name i name = update_user i (\<lambda>u. u\<lparr>us_display_name := name\<rparr>)"

definition set_role :: "int \<Rightarrow> role \<Rightarrow> auth_db \<Rightarrow> auth_db" where
  "set_role i role = update_user i (\<lambda>u. u\<lparr>us_role := role\<rparr>)"

definition set_disabled :: "int \<Rightarrow> bool \<Rightarrow> auth_db \<Rightarrow> auth_db" where
  "set_disabled i disabled = update_user i (\<lambda>u. u\<lparr>us_disabled := disabled\<rparr>)"

definition link_oidc :: "int \<Rightarrow> string \<Rightarrow> string \<Rightarrow> auth_db \<Rightarrow> auth_db option" where
  "link_oidc i issuer subject db =
     (if list_ex (\<lambda>u. us_id u \<noteq> i \<and> us_oidc_subject u = Some subject) (ub_users db) \<and>
         list_ex (\<lambda>u. us_id u = i) (ub_users db) then None
      else Some (update_user i (\<lambda>u. u\<lparr>us_oidc_issuer := Some issuer, us_oidc_subject := Some subject\<rparr>) db))"

definition set_totp_pending :: "int \<Rightarrow> bytes \<Rightarrow> auth_db \<Rightarrow> auth_db" where
  "set_totp_pending i secret = update_user i (\<lambda>u. u\<lparr>us_totp_secret := Some secret, us_totp_enabled := False\<rparr>)"

definition set_totp_enabled :: "int \<Rightarrow> auth_db \<Rightarrow> auth_db" where
  "set_totp_enabled i =
     update_user i (\<lambda>u. if us_totp_secret u \<noteq> None then u\<lparr>us_totp_enabled := True\<rparr> else u)"

definition clear_totp :: "int \<Rightarrow> auth_db \<Rightarrow> auth_db" where
  "clear_totp i db =
     (let db = update_user i (\<lambda>u. u\<lparr>us_totp_secret := None, us_totp_enabled := False\<rparr>) db
      in db\<lparr>ub_codes := filter (\<lambda>r. rr_user_id r \<noteq> i) (ub_codes db)\<rparr>)"

definition replace_recovery_codes :: "int \<Rightarrow> bytes list \<Rightarrow> auth_db \<Rightarrow> auth_db" where
  "replace_recovery_codes i hashes db =
     foldl (\<lambda>db hash. db\<lparr>ub_codes := ub_codes db @
              [\<lparr>rr_id = ub_next_code db, rr_user_id = i, rr_code_hash = hash, rr_used_at = None\<rparr>],
              ub_next_code := ub_next_code db + 1\<rparr>)
       (db\<lparr>ub_codes := filter (\<lambda>r. rr_user_id r \<noteq> i) (ub_codes db)\<rparr>) hashes"

text \<open>The first unused code with that hash is marked.\<close>

definition consume_recovery_code :: "instant \<Rightarrow> int \<Rightarrow> bytes \<Rightarrow> auth_db \<Rightarrow> bool \<times> auth_db" where
  "consume_recovery_code now i hash db =
     (case find (\<lambda>r. rr_user_id r = i \<and> rr_code_hash r = hash \<and> rr_used_at r = None) (ub_codes db) of
        None \<Rightarrow> (False, db)
      | Some row \<Rightarrow>
          (True, db\<lparr>ub_codes :=
             map (\<lambda>r. if rr_id r = rr_id row then r\<lparr>rr_used_at := Some (sql_now now)\<rparr> else r) (ub_codes db)\<rparr>))"

definition recovery_codes_left :: "int \<Rightarrow> auth_db \<Rightarrow> nat" where
  "recovery_codes_left i db = length (filter (\<lambda>r. rr_user_id r = i \<and> rr_used_at r = None) (ub_codes db))"

definition touch_login :: "instant \<Rightarrow> int \<Rightarrow> auth_db \<Rightarrow> auth_db" where
  "touch_login now i = update_user i (\<lambda>u. u\<lparr>us_last_login_at := Some (sql_now now)\<rparr>)"

text \<open>The trigger revokes the live tokens of the account, then the foreign keys act: sessions and codes go, tokens lose
  their owner.\<close>

definition revoke_owned :: "instant \<Rightarrow> (int \<Rightarrow> bool) \<Rightarrow> token_row list \<Rightarrow> token_row list" where
  "revoke_owned now gone tokens =
     map (\<lambda>t. case tk_user_id t of
                Some i \<Rightarrow>
                  if gone i
                  then t\<lparr>tk_revoked_at := (case tk_revoked_at t of None \<Rightarrow> Some (sql_now now) | r \<Rightarrow> r), tk_user_id := None\<rparr>
                  else t
              | None \<Rightarrow> t) tokens"

definition users_delete :: "instant \<Rightarrow> int \<Rightarrow> auth_db \<Rightarrow> auth_db" where
  "users_delete now i db =
     (if list_ex (\<lambda>u. us_id u = i) (ub_users db)
      then db\<lparr>ub_users := filter (\<lambda>u. us_id u \<noteq> i) (ub_users db),
              ub_sessions := filter (\<lambda>r. ss_user_id r \<noteq> Some i) (ub_sessions db),
              ub_codes := filter (\<lambda>r. rr_user_id r \<noteq> i) (ub_codes db),
              ub_tokens := revoke_owned now (\<lambda>j. j = i) (ub_tokens db)\<rparr>
      else db)"

definition is_active_admin :: "user \<Rightarrow> bool" where
  "is_active_admin u = (us_role u = Admin \<and> \<not> us_disabled u)"

definition active_admin_count :: "auth_db \<Rightarrow> nat" where
  "active_admin_count db = length (filter is_active_admin (ub_users db))"

definition reset_all :: "instant \<Rightarrow> auth_db \<Rightarrow> auth_db" where
  "reset_all now db =
     db\<lparr>ub_sessions := [], ub_codes := filter (\<lambda>r. rr_user_id r \<notin> us_id ` set (ub_users db)) (ub_codes db),
        ub_tokens := revoke_owned now (\<lambda>j. j \<in> us_id ` set (ub_users db)) (ub_tokens db), ub_users := []\<rparr>"

definition validate_username :: "string \<Rightarrow> string + unit" where
  "validate_username username =
     (let trimmed = trim username
      in if trimmed = [] then Inl ''Enter a username.''
         else if chars_count trimmed > 64 then Inl ''The username must be 64 characters or fewer.''
         else if has_white trimmed \<or> has_control trimmed then Inl ''The username cannot contain spaces.''
         else Inr ())"

section \<open>Sessions\<close>

definition LIFETIME_DAYS :: int where
  "LIFETIME_DAYS = 30"

record session_token =
  st_id :: string
  st_secret :: string

text \<open>Sixteen random bytes name the session, thirty-two prove it.\<close>

definition session_generate :: "(nat \<Rightarrow> 8 word) \<Rightarrow> session_token" where
  "session_generate random =
     \<lparr>st_id = hex_encode (map random [0..<16]), st_secret = hex_encode (map random [16..<48])\<rparr>"

definition session_parse :: "string \<Rightarrow> session_token option" where
  "session_parse value =
     (case split_once (CHR ''.'') value of
        None \<Rightarrow> None
      | Some (i, secret) \<Rightarrow> if i = [] \<or> secret = [] then None else Some \<lparr>st_id = i, st_secret = secret\<rparr>)"

definition cookie_value :: "session_token \<Rightarrow> string" where
  "cookie_value t = st_id t @ ''.'' @ st_secret t"

definition secret_hash :: "(bytes \<Rightarrow> bytes) \<Rightarrow> session_token \<Rightarrow> bytes" where
  "secret_hash sha256 t = sha256 (str_bytes (st_secret t))"

definition session_delete :: "string \<Rightarrow> auth_db \<Rightarrow> auth_db" where
  "session_delete i db = db\<lparr>ub_sessions := filter (\<lambda>r. ss_id r \<noteq> i) (ub_sessions db)\<rparr>"

definition delete_for_user :: "int \<Rightarrow> string option \<Rightarrow> auth_db \<Rightarrow> nat \<times> auth_db" where
  "delete_for_user user_id keep db =
     (let gone = (\<lambda>r. ss_user_id r = Some user_id \<and> (case keep of None \<Rightarrow> True | Some i \<Rightarrow> ss_id r \<noteq> i))
      in (length (filter gone (ub_sessions db)),
          db\<lparr>ub_sessions := filter (\<lambda>r. \<not> gone r) (ub_sessions db)\<rparr>))"

definition purge_expired :: "instant \<Rightarrow> auth_db \<Rightarrow> auth_db" where
  "purge_expired now db = db\<lparr>ub_sessions := filter (\<lambda>r. \<not> ss_expires_at r \<le> to_sql now) (ub_sessions db)\<rparr>"

text \<open>The insertion fails on a taken identifier and on an account that does not exist.\<close>

definition session_insert :: "(bytes \<Rightarrow> bytes) \<Rightarrow> session_token \<Rightarrow> instant \<Rightarrow> int \<Rightarrow> auth_db \<Rightarrow> auth_db option" where
  "session_insert sha256 token now user_id db =
     (if list_ex (\<lambda>r. ss_id r = st_id token) (ub_sessions db) \<or> \<not> list_ex (\<lambda>u. us_id u = user_id) (ub_users db)
      then None
      else Some (db\<lparr>ub_sessions := ub_sessions db @
             [\<lparr>ss_id = st_id token, ss_token_hash = secret_hash sha256 token, ss_created_at = to_sql now,
               ss_expires_at = to_sql (now + days LIFETIME_DAYS), ss_user_id = Some user_id\<rparr>]\<rparr>))"

definition session_authenticate :: "(bytes \<Rightarrow> bytes) \<Rightarrow> instant \<Rightarrow> session_token \<Rightarrow> auth_db \<Rightarrow> int option \<times> auth_db" where
  "session_authenticate sha256 now token db =
     (case find (\<lambda>r. ss_id r = st_id token) (ub_sessions db) of
        None \<Rightarrow> (None, db)
      | Some row \<Rightarrow>
          if ss_token_hash row \<noteq> secret_hash sha256 token then (None, db)
          else if ss_expires_at row \<le> now then (None, session_delete (st_id token) db)
          else (ss_user_id row, db))"

section \<open>The cookie\<close>

definition COOKIE_NAME :: string where
  "COOKIE_NAME = ''dumbmonit_session''"

definition MAX_AGE_SECS :: nat where
  "MAX_AGE_SECS = 30 * 24 * 60 * 60"

definition cookie_set :: "session_token \<Rightarrow> bool \<Rightarrow> string" where
  "cookie_set token secure =
     COOKIE_NAME @ ''='' @ cookie_value token @ ''; Path=/; HttpOnly; SameSite=Lax; Max-Age='' @ show_nat MAX_AGE_SECS @
     (if secure then ''; Secure'' else [])"

definition cookie_clear :: "bool \<Rightarrow> string" where
  "cookie_clear secure =
     COOKIE_NAME @ ''=; Path=/; HttpOnly; SameSite=Lax; Max-Age=0'' @ (if secure then ''; Secure'' else [])"

definition cookie_extract :: "header_map \<Rightarrow> session_token option" where
  "cookie_extract headers =
     (case get_str headers ''cookie'' of
        None \<Rightarrow> None
      | Some raw \<Rightarrow>
          (case find (\<lambda>(name, _). trim name = COOKIE_NAME)
                  (List.map_filter (split_once (CHR ''='')) (split_on (CHR '';'') raw)) of
             None \<Rightarrow> None
           | Some (_, value) \<Rightarrow> session_parse (trim value)))"

section \<open>Audit log and settings\<close>

definition AUDIT_KEEP :: nat where
  "AUDIT_KEEP = 5000"

text \<open>\<open>sweep\<close>: one insertion in about a hundred also drops all but the last entries.\<close>

definition audit_record ::
  "instant \<Rightarrow> bool \<Rightarrow> string option \<Rightarrow> string \<Rightarrow> string option \<Rightarrow> ip_addr option \<Rightarrow> auth_db \<Rightarrow> auth_db" where
  "audit_record now sweep actor action subject ip db =
     (let log = ub_audit db @ [\<lparr>ae_id = ub_next_audit db, ae_at = sql_now now, ae_actor = actor, ae_action = action,
                                ae_subject = subject, ae_ip = ip\<rparr>];
          log = (if sweep then drop (length log - AUDIT_KEEP) log else log)
      in db\<lparr>ub_audit := log, ub_next_audit := ub_next_audit db + 1\<rparr>)"

definition audit_recent :: "int \<Rightarrow> auth_db \<Rightarrow> audit_entry list" where
  "audit_recent limit db = take (nat (max 1 (min 1000 limit))) (rev (ub_audit db))"

definition settings_read :: "string \<Rightarrow> auth_db \<Rightarrow> bytes option" where
  "settings_read key db = ub_settings db key"

definition settings_write :: "string \<Rightarrow> bytes \<Rightarrow> auth_db \<Rightarrow> auth_db" where
  "settings_write key value db = db\<lparr>ub_settings := (ub_settings db)(key \<mapsto> value)\<rparr>"

definition settings_delete :: "string \<Rightarrow> auth_db \<Rightarrow> auth_db" where
  "settings_delete key db = db\<lparr>ub_settings := (ub_settings db)(key := None)\<rparr>"

section \<open>Well-formed tables\<close>

text \<open>
  What the schema promises: identifiers and names are unique, a session names an account, no account has a second factor
  without a secret.
\<close>

definition users_wf :: "auth_db \<Rightarrow> bool" where
  "users_wf db =
     (distinct (map us_id (ub_users db)) \<and> distinct (map (\<lambda>u. nocase (us_username u)) (ub_users db)) \<and>
      (\<forall>u \<in> set (ub_users db). us_id u < ub_next_user db \<and> (us_totp_enabled u \<longrightarrow> us_totp_secret u \<noteq> None)))"

definition sessions_wf :: "auth_db \<Rightarrow> bool" where
  "sessions_wf db =
     (distinct (map ss_id (ub_sessions db)) \<and>
      (\<forall>r \<in> set (ub_sessions db). \<forall>i. ss_user_id r = Some i \<longrightarrow> i \<in> us_id ` set (ub_users db)))"

definition codes_wf :: "auth_db \<Rightarrow> bool" where
  "codes_wf db =
     (distinct (map rr_id (ub_codes db)) \<and> (\<forall>r \<in> set (ub_codes db). rr_id r < ub_next_code db))"

end
