(* ===== verification/Oidc_Config.thy ===== *)
theory Oidc_Config
  imports Auth_Store
begin

text \<open>
  Single sign-on with OpenID Connect, its data: the settings and where they come from
  (\<^verbatim>\<open>crates/server/src/auth/oidc/mod.rs\<close>), the role a group gives (\<^verbatim>\<open>roles.rs\<close>), the random values of an attempt (\<^verbatim>\<open>pkce.rs\<close>),
  the provider's document and keys with their cache (\<^verbatim>\<open>discovery.rs\<close>), the attempts that wait for the return of the
  browser (\<^verbatim>\<open>flow.rs\<close>). What the provider answers, the JSON forms and the libraries of JWT, base64 and URLs are the
  functions of \<open>oidc_lib\<close>.
\<close>

section \<open>Settings\<close>

definition SETTINGS_KEY :: string where
  "SETTINGS_KEY = ''oidc''"

definition SECRET_KEY :: string where
  "SECRET_KEY = ''oidc.client_secret''"

definition DEFAULT_PROVIDER_NAME :: string where
  "DEFAULT_PROVIDER_NAME = ''SSO''"

definition DEFAULT_SCOPES :: string where
  "DEFAULT_SCOPES = ''openid profile email''"

definition DEFAULT_GROUPS_CLAIM :: string where
  "DEFAULT_GROUPS_CLAIM = ''groups''"

definition CALLBACK_PATH :: string where
  "CALLBACK_PATH = ''/api/auth/oidc/callback''"

record oidc_config =
  oc_issuer :: string
  oc_client_id :: string
  oc_client_secret :: string
  oc_provider_name :: string
  oc_scopes :: string
  oc_auto_create :: bool
  oc_admin_groups :: "string list"
  oc_operator_groups :: "string list"
  oc_groups_claim :: string
  oc_public_url :: string

definition oidc_config_default :: oidc_config where
  "oidc_config_default =
     \<lparr>oc_issuer = [], oc_client_id = [], oc_client_secret = [], oc_provider_name = [], oc_scopes = [],
      oc_auto_create = False, oc_admin_groups = [], oc_operator_groups = [], oc_groups_claim = [], oc_public_url = []\<rparr>"

definition oidc_enabled :: "oidc_config \<Rightarrow> bool" where
  "oidc_enabled c = (trim (oc_issuer c) \<noteq> [] \<and> trim (oc_client_id c) \<noteq> [] \<and> oc_client_secret c \<noteq> [])"

definition split_groups :: "string list \<Rightarrow> string list" where
  "split_groups groups = filter (\<lambda>g. g \<noteq> []) (map trim (concat (map (split_on (CHR '','')) groups)))"

definition or_default :: "string \<Rightarrow> string \<Rightarrow> string" where
  "or_default d s = trim (if trim s = [] then d else s)"

definition oidc_normalized :: "oidc_config \<Rightarrow> oidc_config" where
  "oidc_normalized c =
     c\<lparr>oc_issuer := trim_end_char (CHR ''/'') (trim (oc_issuer c)),
       oc_client_id := trim (oc_client_id c),
       oc_public_url := trim_end_char (CHR ''/'') (trim (oc_public_url c)),
       oc_provider_name := or_default DEFAULT_PROVIDER_NAME (oc_provider_name c),
       oc_scopes := join_with '' '' (split_whitespace
         (if split_whitespace (oc_scopes c) = [] then DEFAULT_SCOPES else oc_scopes c)),
       oc_groups_claim := or_default DEFAULT_GROUPS_CLAIM (oc_groups_claim c),
       oc_admin_groups := split_groups (oc_admin_groups c),
       oc_operator_groups := split_groups (oc_operator_groups c)\<rparr>"

definition redirect_uri :: "oidc_config \<Rightarrow> string \<Rightarrow> string" where
  "redirect_uri c request_origin =
     trim_end_char (CHR ''/'') (if oc_public_url c = [] then request_origin else oc_public_url c) @ CALLBACK_PATH"

text \<open>The environment: \<open>env key\<close> is the variable, or nothing. \<^verbatim>\<open>flag\<close> is what counts as yes.\<close>

record oidc_env =
  oe_config :: oidc_config
  oe_auto_create_unset :: bool

definition flag :: "string \<Rightarrow> bool" where
  "flag value = (map ascii_lower (trim value) \<in> {''1'', ''true'', ''yes'', ''on''})"

definition oidc_from_env :: "(string \<Rightarrow> string option) \<Rightarrow> oidc_env" where
  "oidc_from_env env =
     (let var = (\<lambda>key. case env key of None \<Rightarrow> [] | Some v \<Rightarrow> v);
          auto_create = var ''DUMBMONIT_OIDC_AUTO_CREATE''
      in \<lparr>oe_config = oidc_normalized
            \<lparr>oc_issuer = var ''DUMBMONIT_OIDC_ISSUER'', oc_client_id = var ''DUMBMONIT_OIDC_CLIENT_ID'',
             oc_client_secret = var ''DUMBMONIT_OIDC_CLIENT_SECRET'', oc_provider_name = var ''DUMBMONIT_OIDC_PROVIDER_NAME'',
             oc_scopes = var ''DUMBMONIT_OIDC_SCOPES'', oc_auto_create = flag auto_create,
             oc_admin_groups = [var ''DUMBMONIT_OIDC_ADMIN_GROUPS''],
             oc_operator_groups = [var ''DUMBMONIT_OIDC_OPERATOR_GROUPS''],
             oc_groups_claim = var ''DUMBMONIT_OIDC_GROUPS_CLAIM'', oc_public_url = var ''DUMBMONIT_PUBLIC_URL''\<rparr>,
          oe_auto_create_unset = (trim auto_create = [])\<rparr>)"

definition env_is_set :: "oidc_env \<Rightarrow> bool" where
  "env_is_set e = (oc_issuer (oe_config e) \<noteq> [] \<or> oc_client_id (oe_config e) \<noteq> [])"

datatype config_source = CsSettings | CsEnv | CsNone

record resolved_config =
  rc_config :: oidc_config
  rc_source :: config_source
  rc_auto_create_defaulted :: bool

section \<open>Roles\<close>

datatype claim_value = CvArray "string option list" | CvString string | CvOther

definition role_for_groups :: "string list \<Rightarrow> string list \<Rightarrow> string list \<Rightarrow> role option \<Rightarrow> role option" where
  "role_for_groups groups admin_groups operator_groups current =
     (let is_member = (\<lambda>listed. list_ex (\<lambda>g. g \<in> set listed) groups)
      in if admin_groups = [] \<and> operator_groups = [] then None
         else if is_member admin_groups then Some Admin
         else if admin_groups = [] \<and> current = Some Admin then None
         else Some (if is_member operator_groups then Operator else Viewer))"

definition groups_from_claim :: "claim_value option \<Rightarrow> string list" where
  "groups_from_claim value =
     (case value of
        Some (CvArray items) \<Rightarrow> List.map_filter (\<lambda>x. x) items
      | Some (CvString text) \<Rightarrow>
          filter (\<lambda>g. g \<noteq> []) (map trim (split_any (\<lambda>c. c = CHR '','' \<or> c = CHR '' '') text))
      | _ \<Rightarrow> [])"

record id_claims =
  cl_sub :: string
  cl_preferred_username :: "string option"
  cl_email :: "string option"
  cl_email_verified :: "bool option"
  cl_name :: "string option"
  cl_nonce :: "string option"
  cl_extra :: "string \<rightharpoonup> claim_value"

section \<open>The provider\<close>

definition DOCUMENT_TTL :: timedelta where
  "DOCUMENT_TTL = seconds 3600"

definition JWKS_REFRESH_MIN_INTERVAL :: timedelta where
  "JWKS_REFRESH_MIN_INTERVAL = seconds 60"

record discovery =
  di_issuer :: string
  di_authorization_endpoint :: string
  di_token_endpoint :: string
  di_jwks_uri :: string
  di_userinfo_endpoint :: "string option"
  di_end_session_endpoint :: "string option"
  di_scopes_supported :: "string list option"
  di_id_token_signing_algs :: "string list option"
  di_code_challenge_methods :: "string list option"

text \<open>A key of the provider: its identifier, and the rest as the library reads it.\<close>

record jwk =
  jk_id :: "string option"
  jk_body :: string

record cached_document =
  cd_issuer :: string
  cd_document :: discovery
  cd_fetched_at :: instant
  cd_jwks :: "jwk list option"
  cd_jwks_fetched_at :: "instant option"

definition find_key :: "jwk list \<Rightarrow> string \<Rightarrow> jwk option" where
  "find_key keys kid = find (\<lambda>k. jk_id k = Some kid) keys"

definition well_known_url :: "string \<Rightarrow> string" where
  "well_known_url issuer = trim_end_char (CHR ''/'') issuer @ ''/.well-known/openid-configuration''"

datatype signing_algorithm = AlgRS256 | AlgES256 | AlgOther string

text \<open>
  The libraries and the network. A document, a key set or a token response is what a request made at a tick brought back,
  if anything; \<open>ol_decode\<close> is the JWT library's verification of signature, issuer, audience and dates for one key.
\<close>

record oidc_lib =
  ol_read_config :: "8 word list \<Rightarrow> oidc_config option"
  ol_write_config :: "oidc_config \<Rightarrow> 8 word list"
  ol_read_probe :: "8 word list \<Rightarrow> bool option option"
  ol_utf8 :: "8 word list \<Rightarrow> string option"
  ol_base64url :: "8 word list \<Rightarrow> string"
  ol_document :: "nat \<Rightarrow> string \<Rightarrow> discovery option"
  ol_keys :: "nat \<Rightarrow> string \<Rightarrow> jwk list option"
  ol_exchange :: "nat \<Rightarrow> string \<Rightarrow> string \<times> string \<Rightarrow> (string \<times> string) list \<Rightarrow> string option"
  ol_header :: "string \<Rightarrow> (signing_algorithm \<times> string option) option"
  ol_decode :: "string \<Rightarrow> jwk \<Rightarrow> signing_algorithm \<Rightarrow> string list \<Rightarrow> string \<Rightarrow> id_claims option"
  ol_authorize_url :: "string \<Rightarrow> (string \<times> string) list \<Rightarrow> string option"
  ol_joined_host :: "string \<Rightarrow> string option"

section \<open>Attempts in progress\<close>

definition PENDING_TTL :: timedelta where
  "PENDING_TTL = seconds (10 * 60)"

definition PENDING_MAX :: nat where
  "PENDING_MAX = 1000"

record sso_pending =
  sp_nonce :: string
  sp_verifier :: string
  sp_redirect_uri :: string
  sp_redirect :: "string option"
  sp_started_at :: instant

type_synonym sso_attempts = "(string \<times> sso_pending) list"

definition sso_purge :: "sso_attempts \<Rightarrow> instant \<Rightarrow> sso_attempts" where
  "sso_purge m now = retain (\<lambda>p. duration_since now (sp_started_at p) < PENDING_TTL) m"

definition oldest_attempt :: "sso_attempts \<Rightarrow> string option" where
  "oldest_attempt m =
     (case m of
        [] \<Rightarrow> None
      | e # es \<Rightarrow> Some (fst (foldl (\<lambda>best x. if sp_started_at (snd x) < sp_started_at (snd best) then x else best) e es)))"

definition sso_insert :: "sso_attempts \<Rightarrow> string \<Rightarrow> sso_pending \<Rightarrow> instant \<Rightarrow> sso_attempts" where
  "sso_insert m state p now =
     (let m = sso_purge m now;
          m = (if length m \<ge> PENDING_MAX
               then (case oldest_attempt m of Some k \<Rightarrow> AList.delete k m | None \<Rightarrow> m) else m)
      in AList.update state p m)"

definition sso_take :: "sso_attempts \<Rightarrow> string \<Rightarrow> instant \<Rightarrow> sso_pending option \<times> sso_attempts" where
  "sso_take m state now =
     (case map_of m state of
        None \<Rightarrow> (None, m)
      | Some p \<Rightarrow> (if duration_since now (sp_started_at p) < PENDING_TTL then Some p else None, AList.delete state m))"

section \<open>Random values\<close>

definition VERIFIER_BYTES :: nat where
  "VERIFIER_BYTES = 32"

definition challenge_for :: "oidc_lib \<Rightarrow> (8 word list \<Rightarrow> 8 word list) \<Rightarrow> string \<Rightarrow> string" where
  "challenge_for ol sha256 verifier = ol_base64url ol (sha256 (str_bytes verifier))"

definition random_token :: "oidc_lib \<Rightarrow> (nat \<Rightarrow> 8 word) \<Rightarrow> string" where
  "random_token ol random = ol_base64url ol (map random [0..<24])"

definition pkce_generate :: "oidc_lib \<Rightarrow> (8 word list \<Rightarrow> 8 word list) \<Rightarrow> (nat \<Rightarrow> 8 word) \<Rightarrow> string \<times> string" where
  "pkce_generate ol sha256 random =
     (let verifier = ol_base64url ol (map random [0..<VERIFIER_BYTES]) in (verifier, challenge_for ol sha256 verifier))"

section \<open>Properties\<close>

text \<open>An attempt that is taken is fresh, and can be taken only once.\<close>

lemma sso_take_Some:
  "sso_take m state now = (Some p, m') \<Longrightarrow>
     map_of m state = Some p \<and> duration_since now (sp_started_at p) < PENDING_TTL \<and> m' = AList.delete state m"
  by (auto simp: sso_take_def split: option.splits if_splits)

lemma sso_take_once: "sso_take m state now = (r, m') \<Longrightarrow> fst (sso_take m' state later) = None"
  by (auto simp: sso_take_def split: option.splits if_splits)

end
