(* ===== verification/Auth_Monad.thy ===== *)
theory Auth_Monad
  imports Oidc_Config
begin

text \<open>
  The state the authentication code runs in (\<^verbatim>\<open>AuthState\<close> of \<^verbatim>\<open>crates/server/src/auth/mod.rs\<close>, the database, the static
  limiter of tokens), its errors, and the sequencing of a request handler: statements in order, stopped by the first
  error, what was written before it kept. Every statement that looks outside (a clock, a random source, the database)
  consumes one tick, and the world says what it finds there: the model does not assume that two readings of a clock
  agree or that the database answers.
\<close>

section \<open>Errors\<close>

datatype auth_error =
    AeUnauthorized string
  | AeForbidden string
  | AeNotFound string
  | AeInvalid string
  | AeConflict string
  | AeTooManyAttempts string nat
  | AeInternal

fun auth_error_status :: "auth_error \<Rightarrow> nat" where
  "auth_error_status (AeUnauthorized _) = 401"
| "auth_error_status (AeForbidden _) = 403"
| "auth_error_status (AeNotFound _) = 404"
| "auth_error_status (AeInvalid _) = 400"
| "auth_error_status (AeConflict _) = 409"
| "auth_error_status (AeTooManyAttempts _ _) = 429"
| "auth_error_status AeInternal = 500"

definition admin_required :: auth_error where
  "admin_required = AeForbidden ''Admin role required.''"

definition operator_required :: auth_error where
  "operator_required = AeForbidden ''Operator or admin role required.''"

section \<open>State and world\<close>

record auth_sys =
  sy_db :: auth_db
  sy_limiter :: buckets
  sy_pending :: pending_logins
  sy_replay :: replay_guard
  sy_configured :: "bool option"
  sy_purged :: bool
  sy_windows :: token_windows
  sy_sso :: sso_attempts
  sy_discovery :: "cached_document option"
  sy_tick :: nat

text \<open>
  What the code finds outside: the two clocks, random bytes and whether a statement of the database fails, at each tick;
  the functions of other crates; the configuration. \<open>aw_argon_verify\<close> is \<^term>\<open>None\<close> on an unreadable hash.
\<close>

record 'n auth_world =
  aw_instant :: "nat \<Rightarrow> instant"
  aw_utc :: "nat \<Rightarrow> instant"
  aw_random :: "nat \<Rightarrow> nat \<Rightarrow> 8 word"
  aw_sql_fails :: "nat \<Rightarrow> bool"
  aw_sha256 :: "bytes \<Rightarrow> bytes"
  aw_hmac :: hmac
  aw_argon_hash :: "string \<Rightarrow> (nat \<Rightarrow> 8 word) \<Rightarrow> string option"
  aw_argon_verify :: "string \<Rightarrow> string \<Rightarrow> bool option"
  aw_lower :: "string \<Rightarrow> string"
  aw_cipher :: aead
  aw_net :: "'n net_lib"
  aw_setup_code :: string
  aw_cookie_secure :: bool
  aw_trusted :: "'n list"
  aw_demo :: bool
  aw_oidc :: oidc_lib
  aw_oidc_env :: oidc_env
  aw_oidc_allow_http :: bool

section \<open>Sequencing\<close>

type_synonym 'a handler = "auth_sys \<Rightarrow> (auth_error + 'a) \<times> auth_sys"

definition return_h :: "'a \<Rightarrow> 'a handler" where
  "return_h x s = (Inr x, s)"

definition fail_h :: "auth_error \<Rightarrow> 'a handler" where
  "fail_h e s = (Inl e, s)"

definition bind_h :: "'a handler \<Rightarrow> ('a \<Rightarrow> 'b handler) \<Rightarrow> 'b handler" where
  "bind_h m f s = (case m s of (Inl e, s') \<Rightarrow> (Inl e, s') | (Inr x, s') \<Rightarrow> f x s')"

definition seq_h :: "'a handler \<Rightarrow> 'b handler \<Rightarrow> 'b handler" where
  "seq_h m n = bind_h m (\<lambda>_. n)"

definition when_h :: "bool \<Rightarrow> unit handler \<Rightarrow> unit handler" where
  "when_h c m = (if c then m else return_h ())"

definition lift_h :: "auth_error + 'a \<Rightarrow> 'a handler" where
  "lift_h r = (case r of Inl e \<Rightarrow> fail_h e | Inr x \<Rightarrow> return_h x)"

text \<open>\<open>attempt_h m\<close> hands the error of \<open>m\<close> to the caller as a value.\<close>

definition attempt_h :: "'a handler \<Rightarrow> (auth_error + 'a) handler" where
  "attempt_h m s = (case m s of (r, s') \<Rightarrow> (Inr r, s'))"

definition tick_h :: "(nat \<Rightarrow> 'a) \<Rightarrow> 'a handler" where
  "tick_h f s = (Inr (f (sy_tick s)), s\<lparr>sy_tick := sy_tick s + 1\<rparr>)"

definition instant_h :: "'n auth_world \<Rightarrow> instant handler" where
  "instant_h w = tick_h (aw_instant w)"

definition utc_h :: "'n auth_world \<Rightarrow> instant handler" where
  "utc_h w = tick_h (aw_utc w)"

definition random_h :: "'n auth_world \<Rightarrow> (nat \<Rightarrow> 8 word) handler" where
  "random_h w = tick_h (aw_random w)"

text \<open>A statement of the database, its time that of SQLite; \<open>f\<close> gives nothing when a constraint refuses it.\<close>

definition sql_h :: "'n auth_world \<Rightarrow> (instant \<Rightarrow> auth_db \<Rightarrow> ('a \<times> auth_db) option) \<Rightarrow> 'a handler" where
  "sql_h w f s =
     (let t = sy_tick s; s = s\<lparr>sy_tick := t + 1\<rparr>
      in if aw_sql_fails w t then (Inl AeInternal, s)
         else case f (aw_utc w t) (sy_db s) of
             None \<Rightarrow> (Inl AeInternal, s)
           | Some (x, db) \<Rightarrow> (Inr x, s\<lparr>sy_db := db\<rparr>))"

definition query_h :: "'n auth_world \<Rightarrow> (auth_db \<Rightarrow> 'a) \<Rightarrow> 'a handler" where
  "query_h w f = sql_h w (\<lambda>_ db. Some (f db, db))"

definition exec_h :: "'n auth_world \<Rightarrow> (instant \<Rightarrow> auth_db \<Rightarrow> auth_db) \<Rightarrow> unit handler" where
  "exec_h w f = sql_h w (\<lambda>t db. Some ((), f t db))"

text \<open>What is kept in memory, behind its lock.\<close>

definition limiter_h :: "(buckets \<Rightarrow> 'a \<times> buckets) \<Rightarrow> 'a handler" where
  "limiter_h f s = (case f (sy_limiter s) of (x, b) \<Rightarrow> (Inr x, s\<lparr>sy_limiter := b\<rparr>))"

definition pending_h :: "(pending_logins \<Rightarrow> 'a \<times> pending_logins) \<Rightarrow> 'a handler" where
  "pending_h f s = (case f (sy_pending s) of (x, p) \<Rightarrow> (Inr x, s\<lparr>sy_pending := p\<rparr>))"

definition replay_h :: "(replay_guard \<Rightarrow> 'a \<times> replay_guard) \<Rightarrow> 'a handler" where
  "replay_h f s = (case f (sy_replay s) of (x, g) \<Rightarrow> (Inr x, s\<lparr>sy_replay := g\<rparr>))"

definition windows_h :: "(token_windows \<Rightarrow> 'a \<times> token_windows) \<Rightarrow> 'a handler" where
  "windows_h f s = (case f (sy_windows s) of (x, ws) \<Rightarrow> (Inr x, s\<lparr>sy_windows := ws\<rparr>))"

definition sso_h :: "(sso_attempts \<Rightarrow> 'a \<times> sso_attempts) \<Rightarrow> 'a handler" where
  "sso_h f s = (case f (sy_sso s) of (x, m) \<Rightarrow> (Inr x, s\<lparr>sy_sso := m\<rparr>))"

definition discovery_h :: "(cached_document option \<Rightarrow> 'a \<times> cached_document option) \<Rightarrow> 'a handler" where
  "discovery_h f s = (case f (sy_discovery s) of (x, c) \<Rightarrow> (Inr x, s\<lparr>sy_discovery := c\<rparr>))"

definition remember_configured :: "bool \<Rightarrow> unit handler" where
  "remember_configured present s = (Inr (), s\<lparr>sy_configured := Some present\<rparr>)"

definition is_configured :: "'n auth_world \<Rightarrow> bool handler" where
  "is_configured w s =
     (case sy_configured s of
        Some present \<Rightarrow> (Inr present, s)
      | None \<Rightarrow>
          bind_h (query_h w users_count) (\<lambda>n.
          seq_h (remember_configured (n > 0))
            (return_h (n > 0))) s)"

text \<open>An error of the purge is only logged.\<close>

definition purge_once :: "'n auth_world \<Rightarrow> unit handler" where
  "purge_once w s =
     (if sy_purged s then (Inr (), s)
      else (Inr (), snd (exec_h w purge_expired (s\<lparr>sy_purged := True\<rparr>))))"

text \<open>An error of the audit log is only logged; the sweep that sometimes follows may fail without a word.\<close>

definition audit_h ::
  "'n auth_world \<Rightarrow> string option \<Rightarrow> string \<Rightarrow> string option \<Rightarrow> ip_addr option \<Rightarrow> unit handler" where
  "audit_h w actor action subject ip s =
     (let t = sy_tick s; s = s\<lparr>sy_tick := t + 2\<rparr>
      in if aw_sql_fails w t then (Inr (), s)
         else (Inr (), s\<lparr>sy_db := audit_record (aw_utc w t) (unat (aw_random w t 0) < 3 \<and> \<not> aw_sql_fails w (t + 1))
                          actor action subject ip (sy_db s)\<rparr>))"

section \<open>Reasoning about handlers\<close>

text \<open>
  \<open>keeps I m\<close>: whatever the outcome of \<open>m\<close>, it leaves a state with the invariant \<open>I\<close> if it found one.
\<close>

definition keeps :: "(auth_sys \<Rightarrow> bool) \<Rightarrow> 'a handler \<Rightarrow> bool" where
  "keeps I m = (\<forall>s. I s \<longrightarrow> I (snd (m s)))"

named_theorems keeps_rules \<open>an invariant passes through a statement\<close>

lemma keepsD: "keeps I m \<Longrightarrow> I s \<Longrightarrow> I (snd (m s))"
  by (simp add: keeps_def)

lemma keeps_return [keeps_rules]: "keeps I (return_h x)"
  by (simp add: keeps_def return_h_def)

lemma keeps_fail [keeps_rules]: "keeps I (fail_h e)"
  by (simp add: keeps_def fail_h_def)

lemma keeps_bind [keeps_rules]: "keeps I m \<Longrightarrow> (\<And>x. keeps I (f x)) \<Longrightarrow> keeps I (bind_h m f)"
  by (fastforce simp: keeps_def bind_h_def split: prod.splits sum.splits)

lemma keeps_seq [keeps_rules]: "keeps I m \<Longrightarrow> keeps I n \<Longrightarrow> keeps I (seq_h m n)"
  by (simp add: seq_h_def keeps_bind)

lemma keeps_when [keeps_rules]: "keeps I m \<Longrightarrow> keeps I (when_h c m)"
  by (simp add: when_h_def keeps_return)

lemma keeps_lift [keeps_rules]: "keeps I (lift_h r)"
  by (simp add: lift_h_def keeps_return keeps_fail split: sum.splits)

lemma keeps_if [keeps_rules]: "keeps I m \<Longrightarrow> keeps I n \<Longrightarrow> keeps I (if c then m else n)"
  by simp

lemma keeps_option [keeps_rules]:
  "keeps I m \<Longrightarrow> (\<And>x. keeps I (f x)) \<Longrightarrow> keeps I (case v of None \<Rightarrow> m | Some x \<Rightarrow> f x)"
  by (simp split: option.splits)

lemma keeps_sum [keeps_rules]:
  "(\<And>x. keeps I (f x)) \<Longrightarrow> (\<And>y. keeps I (g y)) \<Longrightarrow> keeps I (case v of Inl x \<Rightarrow> f x | Inr y \<Rightarrow> g y)"
  by (simp split: sum.splits)

lemma keeps_let [keeps_rules]: "(\<And>x. keeps I (f x)) \<Longrightarrow> keeps I (let x = v in f x)"
  by simp

lemma bind_h_Inr:
  "bind_h m f s = (Inr y, s') \<longleftrightarrow> (\<exists>x t. m s = (Inr x, t) \<and> f x t = (Inr y, s'))"
  by (auto simp: bind_h_def split: prod.splits sum.splits)

lemma seq_h_Inr: "seq_h m n s = (Inr y, s') \<longleftrightarrow> (\<exists>x t. m s = (Inr x, t) \<and> n t = (Inr y, s'))"
  by (simp add: seq_h_def bind_h_Inr)

text \<open>An invariant of the database alone, kept by a change of the database.\<close>

definition db_inv :: "(auth_db \<Rightarrow> bool) \<Rightarrow> auth_sys \<Rightarrow> bool" where
  "db_inv J s = J (sy_db s)"

lemma db_inv_simps [simp]:
  "db_inv J (s\<lparr>sy_tick := t\<rparr>) = db_inv J s"
  "db_inv J (s\<lparr>sy_limiter := b\<rparr>) = db_inv J s"
  "db_inv J (s\<lparr>sy_pending := p\<rparr>) = db_inv J s"
  "db_inv J (s\<lparr>sy_replay := g\<rparr>) = db_inv J s"
  "db_inv J (s\<lparr>sy_configured := c\<rparr>) = db_inv J s"
  "db_inv J (s\<lparr>sy_purged := q\<rparr>) = db_inv J s"
  "db_inv J (s\<lparr>sy_windows := ws\<rparr>) = db_inv J s"
  "db_inv J (s\<lparr>sy_sso := m\<rparr>) = db_inv J s"
  "db_inv J (s\<lparr>sy_discovery := d\<rparr>) = db_inv J s"
  "db_inv J (s\<lparr>sy_db := db\<rparr>) = J db"
  by (simp_all add: db_inv_def)

lemma keeps_tick [keeps_rules]: "keeps (db_inv J) (tick_h f)"
  by (simp add: keeps_def tick_h_def)

lemma keeps_clock [keeps_rules]:
  "keeps (db_inv J) (instant_h w)" "keeps (db_inv J) (utc_h w)" "keeps (db_inv J) (random_h w)"
  by (simp_all add: instant_h_def utc_h_def random_h_def keeps_tick)

lemma keeps_memory [keeps_rules]:
  "keeps (db_inv J) (limiter_h fl)" "keeps (db_inv J) (pending_h fp)" "keeps (db_inv J) (replay_h fr)"
  "keeps (db_inv J) (windows_h fw)" "keeps (db_inv J) (remember_configured c)" "keeps (db_inv J) (sso_h fs)"
  "keeps (db_inv J) (discovery_h fd)"
  by (simp_all add: keeps_def limiter_h_def pending_h_def replay_h_def windows_h_def remember_configured_def sso_h_def
      discovery_h_def
      split: prod.splits)

lemma keeps_sql:
  assumes "\<And>t db x db'. J db \<Longrightarrow> f t db = Some (x, db') \<Longrightarrow> J db'"
  shows "keeps (db_inv J) (sql_h w f)"
  using assms by (auto simp: keeps_def sql_h_def db_inv_def Let_def split: option.splits)

lemma keeps_query [keeps_rules]: "keeps (db_inv J) (query_h w f)"
  unfolding query_h_def by (rule keeps_sql) simp

lemma keeps_exec: "(\<And>t db. J db \<Longrightarrow> J (f t db)) \<Longrightarrow> keeps (db_inv J) (exec_h w f)"
  unfolding exec_h_def by (rule keeps_sql) auto

lemma keeps_configured [keeps_rules]: "keeps (db_inv J) (is_configured w)"
proof -
  have "keeps (db_inv J) (bind_h (query_h w users_count) (\<lambda>n. seq_h (remember_configured (n > 0)) (return_h (n > 0))))"
    by (intro keeps_rules)
  then show ?thesis by (simp add: keeps_def is_configured_def split: option.splits)
qed

lemma keeps_audit:
  "(\<And>db log n. J db \<Longrightarrow> J (db\<lparr>ub_audit := log, ub_next_audit := n\<rparr>)) \<Longrightarrow> keeps (db_inv J) (audit_h w actor action subject ip)"
  by (auto simp: keeps_def audit_h_def audit_record_def Let_def db_inv_def)

lemma keeps_purge_once:
  assumes "\<And>t db. J db \<Longrightarrow> J (purge_expired t db)"
  shows "keeps (db_inv J) (purge_once w)"
  using keepsD [OF keeps_exec [of J purge_expired w]] assms by (auto simp: keeps_def purge_once_def)

section \<open>Successful runs\<close>

text \<open>What a statement that succeeded has done, for reasoning forward from the outcome of a request.\<close>

lemma sql_h_Inr:
  "sql_h w f s = (Inr x, s') \<longleftrightarrow>
     \<not> aw_sql_fails w (sy_tick s) \<and>
     (\<exists>db. f (aw_utc w (sy_tick s)) (sy_db s) = Some (x, db) \<and> s' = s\<lparr>sy_tick := sy_tick s + 1, sy_db := db\<rparr>)"
  by (auto simp: sql_h_def Let_def split: option.splits)

lemma query_h_Inr:
  "query_h w f s = (Inr x, s') \<longleftrightarrow>
     \<not> aw_sql_fails w (sy_tick s) \<and> x = f (sy_db s) \<and> s' = s\<lparr>sy_tick := sy_tick s + 1\<rparr>"
  by (auto simp: query_h_def sql_h_Inr)

lemma tick_h_Inr: "tick_h f s = (Inr x, s') \<longleftrightarrow> x = f (sy_tick s) \<and> s' = s\<lparr>sy_tick := sy_tick s + 1\<rparr>"
  by (auto simp: tick_h_def)

lemma return_h_Inr: "return_h y s = (Inr x, s') \<longleftrightarrow> x = y \<and> s' = s"
  by (auto simp: return_h_def)

lemma fail_h_Inr: "\<not> fail_h e s = (Inr x, s')"
  by (simp add: fail_h_def)

lemma attempt_h_Inr: "attempt_h m s = (Inr r, s') \<longleftrightarrow> m s = (r, s')"
  by (auto simp: attempt_h_def split: prod.splits)

lemma sum_h_Inr:
  "(case r of Inl e \<Rightarrow> return_h (Inl (g e)) | Inr x \<Rightarrow> f x) s = (Inr (Inr y), s') \<longleftrightarrow>
     (\<exists>x. r = Inr x \<and> f x s = (Inr (Inr y), s'))"
  by (auto simp: return_h_def split: sum.splits)

lemma sum_value_Inr:
  "(case r of Inl e \<Rightarrow> Inl (g e) | Inr x \<Rightarrow> h x) = Inr y \<longleftrightarrow> (\<exists>x. r = Inr x \<and> h x = Inr y)"
  "Inr y = (case r of Inl e \<Rightarrow> Inl (g e) | Inr x \<Rightarrow> h x) \<longleftrightarrow> (\<exists>x. r = Inr x \<and> h x = Inr y)"
  by (auto split: sum.splits)

lemmas handler_Inr = sum_value_Inr sum_h_Inr bind_h_Inr seq_h_Inr sql_h_Inr query_h_Inr tick_h_Inr return_h_Inr fail_h_Inr attempt_h_Inr

lemmas handler_defs = bind_h_def seq_h_def return_h_def fail_h_def attempt_h_def tick_h_def sql_h_def query_h_def exec_h_def
  instant_h_def utc_h_def random_h_def limiter_h_def pending_h_def replay_h_def windows_h_def sso_h_def discovery_h_def


end
