(* ===== verification/Api_Token.thy ===== *)
theory Api_Token
  imports Auth_Monad
begin

text \<open>
  API tokens (\<^verbatim>\<open>crates/server/src/auth/token.rs\<close>): how a token is made, stored, presented and checked, and what it
  allows. A token is worth what its owner is worth: a disabled owner makes it useless, an owner who is no longer an
  administrator limits it to reading, a deleted owner revokes it.
\<close>

section \<open>Scopes\<close>

fun scope_as_str :: "scope \<Rightarrow> string" where
  "scope_as_str ScRead = ''read''"
| "scope_as_str ScWrite = ''write''"

definition scope_parse :: "string \<Rightarrow> scope option" where
  "scope_parse raw =
     (if trim raw = ''read'' then Some ScRead else if trim raw = ''write'' then Some ScWrite else None)"

text \<open>\<^verbatim>\<open>self >= wanted\<close>, in the order of the variants.\<close>

fun scope_allows :: "scope \<Rightarrow> scope \<Rightarrow> bool" where
  "scope_allows ScWrite _ = True"
| "scope_allows ScRead ScRead = True"
| "scope_allows ScRead ScWrite = False"

fun scope_min :: "scope \<Rightarrow> scope \<Rightarrow> scope" where
  "scope_min ScWrite s = s"
| "scope_min ScRead _ = ScRead"

record api_token =
  at_id :: int
  at_name :: string
  at_scope :: scope
  at_owner :: "string option"
  at_limited_by_owner :: bool

definition arrow :: string where
  "arrow = map char_of [226, 134, 146 :: nat]"

definition quoted :: "string \<Rightarrow> string" where
  "quoted s = [CHR 0x22] @ s @ [CHR 0x22]"

definition token_require :: "api_token \<Rightarrow> scope \<Rightarrow> string + unit" where
  "token_require t wanted =
     (if scope_allows (at_scope t) wanted then Inr ()
      else if at_limited_by_owner t
      then Inl (''The token '' @ quoted (at_name t) @ '' was created by '' @
             (case at_owner t of None \<Rightarrow> ''an account'' | Some o' \<Rightarrow> o') @
             '', who is no longer an administrator: it can only read now. Create a new write token from an administrator account.'')
      else Inl (''This action needs a token with the '' @ quoted (scope_as_str wanted) @ '' scope; the token '' @
             quoted (at_name t) @ '' is '' @ quoted (scope_as_str (at_scope t)) @
             '' only. Create a write token in Settings '' @ arrow @ '' API & assistants.''))"

section \<open>Making and presenting a token\<close>

definition TOKEN_PREFIX :: string where
  "TOKEN_PREFIX = ''dmt_''"

definition TOKEN_BYTES :: nat where
  "TOKEN_BYTES = 16"

definition DISPLAY_LEN :: nat where
  "DISPLAY_LEN = length TOKEN_PREFIX + 8"

definition TOUCH_INTERVAL :: int where
  "TOUCH_INTERVAL = 60"

definition MAX_NETWORKS :: nat where
  "MAX_NETWORKS = 32"

definition MAX_EXPIRY_DAYS :: int where
  "MAX_EXPIRY_DAYS = 3650"

definition token_generate :: "(nat \<Rightarrow> 8 word) \<Rightarrow> string" where
  "token_generate random = TOKEN_PREFIX @ hex_encode (map random [0..<TOKEN_BYTES])"

definition token_fingerprint :: "(bytes \<Rightarrow> bytes) \<Rightarrow> string \<Rightarrow> bytes" where
  "token_fingerprint sha256 token = sha256 (str_bytes token)"

text \<open>Tokens are ASCII: the first characters are the first bytes.\<close>

definition display_prefix :: "string \<Rightarrow> string" where
  "display_prefix token = take DISPLAY_LEN token"

definition extract_bearer :: "header_map \<Rightarrow> string option" where
  "extract_bearer headers =
     (case get_str headers ''authorization'' of
        None \<Rightarrow> None
      | Some header \<Rightarrow>
          (case split_once (CHR '' '') (trim header) of
             None \<Rightarrow> None
           | Some (scheme, value) \<Rightarrow>
               if \<not> eq_ignore_ascii_case scheme ''bearer'' then None
               else (let token = trim value in if starts_with token TOKEN_PREFIX then Some token else None)))"

definition parse_network :: "'n net_lib \<Rightarrow> string \<Rightarrow> 'n option" where
  "parse_network nl entry =
     map_option (nl_trunc nl)
       (case nl_parse nl entry of
          Some net \<Rightarrow> Some net
        | None \<Rightarrow> map_option (\<lambda>ip. nl_from nl (to_canonical ip)) (parse_ip entry))"

fun parse_entries :: "'n net_lib \<Rightarrow> 'n list \<Rightarrow> string list \<Rightarrow> string + 'n list" where
  "parse_entries nl out [] = Inr out"
| "parse_entries nl out (entry # entries) =
     (case parse_network nl entry of
        None \<Rightarrow> Inl (''Invalid network '' @ quoted entry @
                  '': use CIDR notation (192.168.1.0/24) or a single address (10.0.0.5).'')
      | Some net \<Rightarrow> parse_entries nl (if net \<in> set out then out else out @ [net]) entries)"

definition parse_networks :: "'n net_lib \<Rightarrow> string list \<Rightarrow> string + 'n list" where
  "parse_networks nl raw =
     (case parse_entries nl [] (filter (\<lambda>e. e \<noteq> []) (map trim raw)) of
        Inl e \<Rightarrow> Inl e
      | Inr out \<Rightarrow>
          if length out > MAX_NETWORKS then Inl (''A token accepts at most '' @ show_nat MAX_NETWORKS @ '' networks.'')
          else Inr out)"

definition network_allows :: "'n net_lib \<Rightarrow> 'n list \<Rightarrow> ip_addr option \<Rightarrow> bool" where
  "network_allows nl networks ip =
     (if networks = [] then True
      else case map_option to_canonical ip of None \<Rightarrow> False | Some ip \<Rightarrow> in_nets nl networks ip)"

definition decode_networks :: "'n net_lib \<Rightarrow> string list option \<Rightarrow> 'n list" where
  "decode_networks nl raw = List.map_filter (nl_parse nl) (case raw of None \<Rightarrow> [] | Some texts \<Rightarrow> texts)"

section \<open>The table\<close>

record 'n new_token =
  nt_name :: string
  nt_scope :: scope
  nt_user_id :: "int option"
  nt_expires_at :: "instant option"
  nt_networks :: "'n list"

text \<open>A token as it may be shown, never the secret.\<close>

record token_record =
  tr_id :: int
  tr_name :: string
  tr_prefix :: string
  tr_scope :: scope
  tr_created_at :: instant
  tr_created_by :: "string option"
  tr_expires_at :: "instant option"
  tr_expired :: bool
  tr_networks :: "string list"
  tr_last_used_at :: "instant option"
  tr_last_used_ip :: "ip_addr option"
  tr_revoked_at :: "instant option"

definition owner_of :: "auth_db \<Rightarrow> token_row \<Rightarrow> user option" where
  "owner_of db t = (case tk_user_id t of None \<Rightarrow> None | Some i \<Rightarrow> users_get i db)"

definition token_expired :: "instant \<Rightarrow> token_row \<Rightarrow> bool" where
  "token_expired now t = (case tk_expires_at t of None \<Rightarrow> False | Some at' \<Rightarrow> at' \<le> now)"

definition row_to_record :: "'n auth_world \<Rightarrow> instant \<Rightarrow> token_row \<times> user option \<Rightarrow> token_record" where
  "row_to_record w now row =
     (let (t, owner) = row
      in \<lparr>tr_id = tk_id t, tr_name = tk_name t, tr_prefix = tk_prefix t, tr_scope = tk_scope t,
          tr_created_at = tk_created_at t, tr_created_by = map_option us_username owner,
          tr_expires_at = tk_expires_at t, tr_expired = token_expired now t,
          tr_networks = map (nl_show (aw_net w)) (decode_networks (aw_net w) (tk_networks t)),
          tr_last_used_at = tk_last_used_at t, tr_last_used_ip = tk_last_used_ip t, tr_revoked_at = tk_revoked_at t\<rparr>)"

text \<open>The insertion fails on a hash that is already there and on an owner that does not exist.\<close>

definition token_insert :: "'n auth_world \<Rightarrow> string \<Rightarrow> 'n new_token \<Rightarrow> instant \<Rightarrow> auth_db \<Rightarrow> (int \<times> auth_db) option" where
  "token_insert w clear new now db =
     (let hash = token_fingerprint (aw_sha256 w) clear;
          row = \<lparr>tk_id = ub_next_token db, tk_name = nt_name new, tk_prefix = display_prefix clear, tk_hash = hash,
                 tk_scope = nt_scope new, tk_created_at = sql_now now, tk_last_used_at = None, tk_last_used_ip = None,
                 tk_revoked_at = None, tk_user_id = nt_user_id new,
                 tk_expires_at = map_option sql_now (nt_expires_at new),
                 tk_networks = (if nt_networks new = [] then None else Some (map (nl_show (aw_net w)) (nt_networks new)))\<rparr>
      in if list_ex (\<lambda>t. tk_hash t = hash) (ub_tokens db) then None
         else if nt_user_id new \<noteq> None \<and> owner_of db row = None then None
         else Some (ub_next_token db, db\<lparr>ub_tokens := ub_tokens db @ [row], ub_next_token := ub_next_token db + 1\<rparr>))"

definition token_get :: "'n auth_world \<Rightarrow> int \<Rightarrow> token_record option handler" where
  "token_get w i =
     bind_h (query_h w (\<lambda>db. map_option (\<lambda>t. (t, owner_of db t)) (find (\<lambda>t. tk_id t = i) (ub_tokens db)))) (\<lambda>row.
     bind_h (utc_h w) (\<lambda>now.
       return_h (map_option (row_to_record w now) row)))"

definition token_create :: "'n auth_world \<Rightarrow> 'n new_token \<Rightarrow> (token_record \<times> string) handler" where
  "token_create w new =
     bind_h (random_h w) (\<lambda>random.
     let clear = token_generate random in
     bind_h (sql_h w (token_insert w clear new)) (\<lambda>i.
     bind_h (token_get w i) (\<lambda>found.
       case found of None \<Rightarrow> fail_h AeInternal | Some record \<Rightarrow> return_h (record, clear))))"

definition token_list :: "'n auth_world \<Rightarrow> token_record list handler" where
  "token_list w =
     bind_h (query_h w (\<lambda>db. map (\<lambda>t. (t, owner_of db t)) (rev (sort_key tk_id (ub_tokens db))))) (\<lambda>rows.
     bind_h (utc_h w) (\<lambda>now.
       return_h (map (row_to_record w now) rows)))"

definition token_revoke :: "'n auth_world \<Rightarrow> int \<Rightarrow> bool handler" where
  "token_revoke w i =
     sql_h w (\<lambda>now db.
       Some (list_ex (\<lambda>t. tk_id t = i \<and> tk_revoked_at t = None) (ub_tokens db),
             db\<lparr>ub_tokens := map (\<lambda>t. if tk_id t = i \<and> tk_revoked_at t = None
                                     then t\<lparr>tk_revoked_at := Some (sql_now now)\<rparr> else t) (ub_tokens db)\<rparr>))"

section \<open>Checking a token\<close>

datatype token_outcome =
    ToValid api_token
  | ToUnknown
  | ToExpired string instant
  | ToOwnerDisabled string
  | ToNetworkDenied string "ip_addr option"

definition live_rows :: "string \<Rightarrow> auth_db \<Rightarrow> (token_row \<times> user option) list" where
  "live_rows prefix db =
     map (\<lambda>t. (t, owner_of db t)) (filter (\<lambda>t. tk_prefix t = prefix \<and> tk_revoked_at t = None) (ub_tokens db))"

definition touch_token :: "int \<Rightarrow> ip_addr option \<Rightarrow> instant \<Rightarrow> auth_db \<Rightarrow> auth_db" where
  "touch_token i ip now db =
     db\<lparr>ub_tokens := map (\<lambda>t. if tk_id t = i
          then t\<lparr>tk_last_used_at := Some (sql_now now),
                 tk_last_used_ip := (case ip of None \<Rightarrow> tk_last_used_ip t | Some _ \<Rightarrow> ip)\<rparr>
          else t) (ub_tokens db)\<rparr>"

text \<open>The clock is read only when there is a last use; an error of the update is only logged.\<close>

definition touch_if_stale :: "'n auth_world \<Rightarrow> token_row \<Rightarrow> ip_addr option \<Rightarrow> unit handler" where
  "touch_if_stale w row ip =
     (let ip = map_option to_canonical ip in
      bind_h (case tk_last_used_at row of
                None \<Rightarrow> return_h False
              | Some at' \<Rightarrow> bind_h (utc_h w) (\<lambda>now. return_h (num_seconds (now - at') < TOUCH_INTERVAL))) (\<lambda>fresh.
      if fresh \<and> (ip = None \<or> ip = tk_last_used_ip row) then return_h ()
      else (\<lambda>s. (Inr (), snd (exec_h w (touch_token (tk_id row) ip) s)))))"

definition effective_scope :: "token_row \<Rightarrow> user option \<Rightarrow> scope" where
  "effective_scope row owner =
     (let owner_is_admin = (case owner of None \<Rightarrow> True | Some u \<Rightarrow> us_role u = Admin)
      in if owner_is_admin then tk_scope row else scope_min (tk_scope row) ScRead)"

definition token_authenticate :: "'n auth_world \<Rightarrow> string \<Rightarrow> ip_addr option \<Rightarrow> token_outcome handler" where
  "token_authenticate w clear ip =
     bind_h (query_h w (live_rows (display_prefix clear))) (\<lambda>rows.
     case find (\<lambda>(row, _). tk_hash row = token_fingerprint (aw_sha256 w) clear) rows of
       None \<Rightarrow> return_h ToUnknown
     | Some (row, owner) \<Rightarrow>
         if tk_user_id row \<noteq> None \<and> owner = None then return_h ToUnknown
         else if (case owner of None \<Rightarrow> False | Some u \<Rightarrow> us_disabled u) then return_h (ToOwnerDisabled (tk_name row))
         else
           bind_h (case tk_expires_at row of
                     None \<Rightarrow> return_h None
                   | Some at' \<Rightarrow> bind_h (utc_h w) (\<lambda>now. return_h (if at' \<le> now then Some at' else None))) (\<lambda>expired.
           case expired of
             Some at' \<Rightarrow> return_h (ToExpired (tk_name row) at')
           | None \<Rightarrow>
               if \<not> network_allows (aw_net w) (decode_networks (aw_net w) (tk_networks row)) ip
               then return_h (ToNetworkDenied (tk_name row) ip)
               else
                 seq_h (touch_if_stale w row ip)
                   (return_h (ToValid
                     \<lparr>at_id = tk_id row, at_name = tk_name row, at_scope = effective_scope row owner,
                      at_owner = map_option us_username owner,
                      at_limited_by_owner = (effective_scope row owner \<noteq> tk_scope row)\<rparr>))))"

datatype token_error =
    TeUnauthorized
  | TeExpired string
  | TeOwnerDisabled string
  | TeForbidden string
  | TeTooManyRequests nat
  | TeInternal

fun token_error_status :: "token_error \<Rightarrow> nat" where
  "token_error_status TeUnauthorized = 401"
| "token_error_status (TeExpired _) = 401"
| "token_error_status (TeOwnerDisabled _) = 401"
| "token_error_status (TeForbidden _) = 403"
| "token_error_status (TeTooManyRequests _) = 429"
| "token_error_status TeInternal = 500"

record checked =
  ck_token :: api_token
  ck_rate :: rate_status

text \<open>The verdict of \<^verbatim>\<open>authenticate\<close> as the error it becomes; \<open>show_time\<close> prints a stored time.\<close>

definition outcome_error :: "(instant \<Rightarrow> string) \<Rightarrow> token_outcome \<Rightarrow> token_error + api_token" where
  "outcome_error show_time outcome =
     (case outcome of
        ToValid token \<Rightarrow> Inr token
      | ToUnknown \<Rightarrow> Inl TeUnauthorized
      | ToExpired name at' \<Rightarrow>
          Inl (TeExpired (''The API token '' @ quoted name @ '' expired on '' @ show_time at' @
            ''. Create a new one in Settings '' @ arrow @ '' API & assistants.''))
      | ToOwnerDisabled name \<Rightarrow> Inl (TeOwnerDisabled (''The API token '' @ quoted name @ '' belongs to a disabled account.''))
      | ToNetworkDenied name ip \<Rightarrow>
          Inl (TeForbidden (''The API token '' @ quoted name @ '' cannot be used from '' @
            (case ip of None \<Rightarrow> ''an unknown address'' | Some ip \<Rightarrow> show_ip ip) @ ''.'')))"

definition token_check ::
  "'n auth_world \<Rightarrow> (instant \<Rightarrow> string) \<Rightarrow> header_map \<Rightarrow> ip_addr option \<Rightarrow> scope \<Rightarrow> (token_error + checked) handler" where
  "token_check w show_time headers ip scope =
     (case extract_bearer headers of
        None \<Rightarrow> return_h (Inl TeUnauthorized)
      | Some clear \<Rightarrow>
          bind_h (attempt_h (token_authenticate w clear ip)) (\<lambda>result.
          case result of
            Inl _ \<Rightarrow> return_h (Inl TeInternal)
          | Inr outcome \<Rightarrow>
              (case outcome_error show_time outcome of
                 Inl e \<Rightarrow> return_h (Inl e)
               | Inr token \<Rightarrow>
                   (case token_require token scope of
                      Inl message \<Rightarrow> return_h (Inl (TeForbidden message))
                    | Inr _ \<Rightarrow>
                        bind_h (instant_h w) (\<lambda>now.
                        bind_h (windows_h (\<lambda>ws. token_call ws (at_id token) now)) (\<lambda>verdict.
                        case verdict of
                          Inl retry_after \<Rightarrow> return_h (Inl (TeTooManyRequests retry_after))
                        | Inr rate \<Rightarrow> return_h (Inr \<lparr>ck_token = token, ck_rate = rate\<rparr>)))))))"

end
