(* ===== verification/Auth_Guard.thy ===== *)
theory Auth_Guard
  imports Api_Token
begin

text \<open>
  The guard of the API (\<^verbatim>\<open>crates/server/src/auth/middleware.rs\<close>): who a request comes from, and what that identity may
  do on this method and path; and the cross-origin policy in front of it (\<^verbatim>\<open>auth/cors.rs\<close>). The handler behind the guard
  is not run here: the guard gives the identity it lets through, or the error it answers with.
\<close>

section \<open>Requests and identities\<close>

record request =
  rq_method :: string
  rq_path :: string
  rq_headers :: header_map
  rq_peer :: "ip_addr option"

datatype principal = PrUser user | PrToken api_token

fun principal_label :: "principal \<Rightarrow> string" where
  "principal_label (PrUser u) = us_username u"
| "principal_label (PrToken t) = ''token:'' @ at_name t"

fun principal_is_admin :: "principal \<Rightarrow> bool" where
  "principal_is_admin (PrUser u) = role_is_admin (us_role u)"
| "principal_is_admin (PrToken t) = scope_allows (at_scope t) ScWrite"

fun principal_can_operate :: "principal \<Rightarrow> bool" where
  "principal_can_operate (PrUser u) = role_can_operate (us_role u)"
| "principal_can_operate (PrToken t) = scope_allows (at_scope t) ScWrite"

definition SELF_SERVICE :: "string list" where
  "SELF_SERVICE =
     [''/auth/logout'', ''/auth/password'', ''/auth/totp'', ''/auth/totp/enroll'', ''/auth/totp/verify'',
      ''/music/speaker/report'', ''/music/speaker/play'']"

definition OPERATOR_ROUTES :: "(string \<times> string) list" where
  "OPERATOR_ROUTES =
     [(''POST'', ''/alerts/*/ack''), (''DELETE'', ''/alerts/*/ack''), (''POST'', ''/alerts/silences''),
      (''DELETE'', ''/alerts/silences/*''), (''POST'', ''/alerts/history/dismiss-resolved''),
      (''POST'', ''/alerts/history/*/dismiss''), (''PUT'', ''/alerts/rules/*/overrides/*''),
      (''DELETE'', ''/alerts/rules/*/overrides/*'')]"

definition TOKEN_DENIED :: "string list" where
  "TOKEN_DENIED = [''/auth'', ''/users'', ''/tokens'', ''/agent/tokens'']"

definition TOKEN_DENIED_MESSAGE :: string where
  "TOKEN_DENIED_MESSAGE = ''API tokens cannot manage accounts, sessions, two-factor authentication, SSO or other tokens: sign in to the web interface for that.''"

definition CSRF_HEADER :: string where
  "CSRF_HEADER = ''x-requested-with''"

definition CSRF_VALUE :: string where
  "CSRF_VALUE = ''DumbMonit''"

definition CROSS_SITE :: string where
  "CROSS_SITE = ''Cross-site request refused.''"

definition NO_PROOF :: string where
  "NO_PROOF = ''State-changing requests must carry the header `X-Requested-With: DumbMonit` (browsers add it automatically through the web interface).''"

section \<open>Routes\<close>

definition without_api :: "string \<Rightarrow> string" where
  "without_api path = (case strip_prefix ''/api'' path of Some rest \<Rightarrow> rest | None \<Rightarrow> path)"

definition is_mutation :: "string \<Rightarrow> bool" where
  "is_mutation method = (method \<in> {''POST'', ''PUT'', ''DELETE'', ''PATCH''})"

definition is_token_denied :: "string \<Rightarrow> bool" where
  "is_token_denied path =
     (let path = without_api path
      in list_ex (\<lambda>prefix. path = prefix \<or>
           (case strip_prefix prefix path of None \<Rightarrow> False | Some rest \<Rightarrow> starts_with rest ''/'')) TOKEN_DENIED)"

definition is_own_push_device :: "string \<Rightarrow> bool" where
  "is_own_push_device path =
     (path = ''/webpush/test'' \<or> path = ''/webpush/subscriptions'' \<or>
      (case strip_prefix ''/webpush/subscriptions/'' path of
         None \<Rightarrow> False
       | Some i \<Rightarrow> i \<noteq> [] \<and> list_all is_ascii_digit i))"

definition is_self_service :: "string \<Rightarrow> bool" where
  "is_self_service path =
     (let path = without_api path in path \<in> set SELF_SERVICE \<or> is_own_push_device path)"

text \<open>The loop over the segments of the template and of the path.\<close>

fun match_segments :: "string list \<Rightarrow> string list \<Rightarrow> bool" where
  "match_segments [] [] = True"
| "match_segments (w # ws) (a # as) = (((w = ''*'' \<and> a \<noteq> []) \<or> w = a) \<and> match_segments ws as)"
| "match_segments _ _ = False"

definition is_operator_route :: "string \<Rightarrow> string \<Rightarrow> bool" where
  "is_operator_route method path =
     (let path = without_api path;
          path = (case strip_suffix ''/'' path of Some rest \<Rightarrow> rest | None \<Rightarrow> path)
      in list_ex (\<lambda>(allowed, pattern). allowed = method \<and>
           match_segments (split_on (CHR ''/'') pattern) (split_on (CHR ''/'') path)) OPERATOR_ROUTES)"

section \<open>Proof of origin\<close>

text \<open>\<^verbatim>\<open>str::split_once\<close> with a pattern of several bytes.\<close>

fun split_once_str :: "string \<Rightarrow> string \<Rightarrow> (string \<times> string) option" where
  "split_once_str p [] = (if p = [] then Some ([], []) else None)"
| "split_once_str p (c # cs) =
     (if starts_with (c # cs) p then Some ([], drop (length p) (c # cs))
      else map_option (\<lambda>(l, r). (c # l, r)) (split_once_str p cs))"

definition host_of :: "string \<Rightarrow> string" where
  "host_of origin =
     hd (split_on (CHR ''/'') (case split_once_str ''://'' origin of None \<Rightarrow> origin | Some (_, rest) \<Rightarrow> rest))"

definition same_origin :: "header_map \<Rightarrow> string + unit" where
  "same_origin headers =
     (let value = (\<lambda>name. map_option trim (get_str headers name))
      in if (case value CSRF_HEADER of None \<Rightarrow> False | Some v \<Rightarrow> eq_ignore_ascii_case v CSRF_VALUE) then Inr ()
         else case value ''sec-fetch-site'' of
             Some site \<Rightarrow> if site = ''same-origin'' \<or> site = ''none'' then Inr () else Inl CROSS_SITE
           | None \<Rightarrow>
               (case value ''origin'' of
                  Some origin \<Rightarrow>
                    (case value ''host'' of
                       Some host \<Rightarrow> if eq_ignore_ascii_case host (host_of origin) then Inr () else Inl CROSS_SITE
                     | None \<Rightarrow> Inl CROSS_SITE)
                | None \<Rightarrow> Inl NO_PROOF))"

section \<open>The guard\<close>

datatype guard_error = GeAuth auth_error | GeToken token_error

fun guard_status :: "guard_error \<Rightarrow> nat" where
  "guard_status (GeAuth e) = auth_error_status e"
| "guard_status (GeToken e) = token_error_status e"

record admission =
  ad_principal :: principal
  ad_session :: "session_token option"
  ad_rate :: "rate_status option"

definition current_session :: "'n auth_world \<Rightarrow> header_map \<Rightarrow> (session_token \<times> user) option handler" where
  "current_session w headers =
     (case cookie_extract headers of
        None \<Rightarrow> return_h None
      | Some token \<Rightarrow>
          bind_h (sql_h w (\<lambda>now db. Some (session_authenticate (aw_sha256 w) now token db))) (\<lambda>found.
          case found of
            None \<Rightarrow> return_h None
          | Some user_id \<Rightarrow>
              bind_h (query_h w (users_get user_id)) (\<lambda>user.
              case user of
                Some u \<Rightarrow>
                  if \<not> us_disabled u then return_h (Some (token, u))
                  else seq_h (exec_h w (\<lambda>_. session_delete (st_id token))) (return_h None)
              | None \<Rightarrow> seq_h (exec_h w (\<lambda>_. session_delete (st_id token))) (return_h None))))"

definition request_ip :: "'n auth_world \<Rightarrow> request \<Rightarrow> ip_addr option" where
  "request_ip w rq = resolve_ip (aw_net w) (rq_peer rq) (rq_headers rq) (aw_trusted w)"

definition bearer_identity :: "'n auth_world \<Rightarrow> (instant \<Rightarrow> string) \<Rightarrow> request \<Rightarrow> (guard_error + checked) handler" where
  "bearer_identity w show_time rq =
     bind_h (token_check w show_time (rq_headers rq) (request_ip w rq) ScRead) (\<lambda>result.
     return_h (case result of
       Inl e \<Rightarrow> Inl (GeToken e)
     | Inr c \<Rightarrow>
         if is_token_denied (rq_path rq) then Inl (GeAuth (AeForbidden TOKEN_DENIED_MESSAGE))
         else if is_mutation (rq_method rq)
         then (case token_require (ck_token c) ScWrite of
                 Inl reason \<Rightarrow> Inl (GeAuth (AeForbidden reason))
               | Inr _ \<Rightarrow> Inr c)
         else Inr c))"

definition session_may :: "user \<Rightarrow> request \<Rightarrow> guard_error + unit" where
  "session_may user rq =
     (if is_mutation (rq_method rq)
      then (case same_origin (rq_headers rq) of
              Inl reason \<Rightarrow> Inl (GeAuth (AeForbidden reason))
            | Inr _ \<Rightarrow>
                if role_is_admin (us_role user) \<or> is_self_service (rq_path rq) \<or>
                   (role_can_operate (us_role user) \<and> is_operator_route (rq_method rq) (rq_path rq))
                then Inr () else Inl (GeAuth admin_required))
      else Inr ())"

definition require_session :: "'n auth_world \<Rightarrow> (instant \<Rightarrow> string) \<Rightarrow> request \<Rightarrow> (guard_error + admission) handler" where
  "require_session w show_time rq =
     seq_h (purge_once w)
     (bind_h (attempt_h (is_configured w)) (\<lambda>configured.
      case configured of
        Inl e \<Rightarrow> return_h (Inl (GeAuth e))
      | Inr False \<Rightarrow>
          return_h (Inl (GeAuth (AeUnauthorized
            ''No account exists yet: create the first admin account, then sign in.'')))
      | Inr True \<Rightarrow>
          if extract_bearer (rq_headers rq) \<noteq> None
          then
            bind_h (bearer_identity w show_time rq) (\<lambda>result.
            return_h (case result of
              Inl e \<Rightarrow> Inl e
            | Inr c \<Rightarrow> Inr \<lparr>ad_principal = PrToken (ck_token c), ad_session = None, ad_rate = Some (ck_rate c)\<rparr>))
          else
            bind_h (attempt_h (current_session w (rq_headers rq))) (\<lambda>current.
            return_h (case current of
              Inl e \<Rightarrow> Inl (GeAuth e)
            | Inr None \<Rightarrow> Inl (GeAuth (AeUnauthorized ''Authentication required.''))
            | Inr (Some (token, user)) \<Rightarrow>
                (case session_may user rq of
                   Inl e \<Rightarrow> Inl e
                 | Inr _ \<Rightarrow> Inr \<lparr>ad_principal = PrUser user, ad_session = Some token, ad_rate = None\<rparr>)))))"

text \<open>The extractors of the handlers.\<close>

definition authenticated :: "admission \<Rightarrow> auth_error + user" where
  "authenticated a =
     (case ad_principal a of PrUser u \<Rightarrow> Inr u | PrToken _ \<Rightarrow> Inl (AeUnauthorized ''Authentication required.''))"

definition admin_user :: "admission \<Rightarrow> auth_error + user" where
  "admin_user a =
     (case authenticated a of
        Inl e \<Rightarrow> Inl e
      | Inr u \<Rightarrow> if role_is_admin (us_role u) then Inr u else Inl admin_required)"

definition admin_identity :: "admission \<Rightarrow> auth_error + principal" where
  "admin_identity a = (if principal_is_admin (ad_principal a) then Inr (ad_principal a) else Inl admin_required)"

definition operator_identity :: "admission \<Rightarrow> auth_error + principal" where
  "operator_identity a = (if principal_can_operate (ad_principal a) then Inr (ad_principal a) else Inl operator_required)"

section \<open>Other origins\<close>

datatype cors_policy = CpAny | CpOff | CpList "string list"

definition PUBLIC_SPEC :: string where
  "PUBLIC_SPEC = ''/api/openapi.json''"

definition ALLOWED_HEADERS :: string where
  "ALLOWED_HEADERS = ''authorization, content-type, accept, mcp-protocol-version, mcp-method, mcp-name, mcp-session-id''"

definition EXPOSED_HEADERS :: string where
  "EXPOSED_HEADERS = ''retry-after, www-authenticate, ratelimit-limit, ratelimit-remaining, ratelimit-reset, x-dumbmonit-api-version''"

definition ALLOWED_METHODS :: string where
  "ALLOWED_METHODS = ''GET, POST, PUT, DELETE''"

definition normalise_origin :: "string \<Rightarrow> string" where
  "normalise_origin raw = map ascii_lower (rev (dropWhile (\<lambda>c. c = CHR ''/'') (rev (trim raw))))"

definition cors_parse :: "string option \<Rightarrow> cors_policy" where
  "cors_parse raw =
     (case map_option trim raw of
        None \<Rightarrow> CpAny
      | Some raw \<Rightarrow>
          (let low = map ascii_lower raw
           in if raw = [] \<or> low = ''*'' \<or> low = ''any'' then CpAny
              else if low = ''off'' \<or> low = ''none'' \<or> low = ''false'' \<or> low = ''0'' then CpOff
              else (let origins = filter (\<lambda>o'. o' \<noteq> []) (map normalise_origin (split_on (CHR '','') raw))
                    in if origins = [] then CpOff else CpList origins)))"

fun allow_origin :: "cors_policy \<Rightarrow> string \<Rightarrow> string option" where
  "allow_origin CpAny origin = Some ''*''"
| "allow_origin CpOff origin = None"
| "allow_origin (CpList origins) origin = (if normalise_origin origin \<in> set origins then Some origin else None)"

definition same_host :: "string \<Rightarrow> header_map \<Rightarrow> bool" where
  "same_host origin headers =
     (case map_option trim (get_str headers ''host'') of
        None \<Rightarrow> False
      | Some host \<Rightarrow> eq_ignore_ascii_case host (host_of origin))"

definition cors_accepts :: "cors_policy \<Rightarrow> string \<Rightarrow> header_map \<Rightarrow> bool" where
  "cors_accepts policy origin headers = (same_host origin headers \<or> allow_origin policy origin \<noteq> None)"

definition is_api :: "string \<Rightarrow> bool" where
  "is_api path = (path = ''/api'' \<or> starts_with path ''/api/'')"

definition requests_header :: "header_map \<Rightarrow> string \<Rightarrow> bool" where
  "requests_header headers name =
     list_ex (\<lambda>h. eq_ignore_ascii_case (trim h) name)
       (concat (map (split_on (CHR '','')) (get_all headers ''access-control-request-headers'')))"

text \<open>
  What the layer does with a request: answer it itself with a status and headers, or pass it on and add these headers to
  the response of the handler.
\<close>

datatype cors_result = CrAnswer nat "(string \<times> string) list" | CrPass "(string \<times> string) list"

definition cors_vary :: "cors_policy \<Rightarrow> (string \<times> string) list" where
  "cors_vary policy = (case policy of CpList _ \<Rightarrow> [(''vary'', ''origin'')] | _ \<Rightarrow> [])"

definition preflight :: "cors_policy \<Rightarrow> string \<Rightarrow> header_map \<Rightarrow> string \<Rightarrow> cors_result" where
  "preflight policy origin headers path =
     (case allow_origin policy origin of
        None \<Rightarrow> CrAnswer 403 []
      | Some allowed \<Rightarrow>
          if \<not> requests_header headers ''authorization'' \<and> path \<noteq> PUBLIC_SPEC then CrAnswer 403 []
          else CrAnswer 204 ([(''access-control-allow-origin'', allowed), (''access-control-allow-methods'', ALLOWED_METHODS),
                  (''access-control-allow-headers'', ALLOWED_HEADERS), (''access-control-max-age'', ''600'')] @
                  cors_vary policy))"

definition cors_layer :: "cors_policy \<Rightarrow> request \<Rightarrow> cors_result" where
  "cors_layer policy rq =
     (if \<not> is_api (rq_path rq) then CrPass []
      else
        (let origin = get_str (rq_headers rq) ''origin'';
             is_preflight = (rq_method rq = ''OPTIONS'' \<and> origin \<noteq> None \<and>
               list_ex (\<lambda>h. fst h = ''access-control-request-method'') (rq_headers rq));
             bearer = (extract_bearer (rq_headers rq) \<noteq> None)
         in if is_preflight then preflight policy (the origin) (rq_headers rq) (rq_path rq)
            else case origin of
                None \<Rightarrow> CrPass []
              | Some origin \<Rightarrow>
                  if bearer \<or> rq_path rq = PUBLIC_SPEC
                  then (case allow_origin policy origin of
                          None \<Rightarrow> CrPass []
                        | Some allowed \<Rightarrow>
                            CrPass ([(''access-control-allow-origin'', allowed),
                                     (''access-control-expose-headers'', EXPOSED_HEADERS)] @ cors_vary policy))
                  else CrPass []))"

end
