(* ===== verification/Guard_Properties.thy ===== *)
theory Guard_Properties
  imports Auth_Guard
begin

text \<open>
  What the guard of the API lets through (\<^verbatim>\<open>crates/server/src/auth/middleware.rs\<close>, \<^verbatim>\<open>auth/token.rs\<close>, \<^verbatim>\<open>auth/cors.rs\<close>): the rights behind every
  admitted request are traced back to a row of the database as it was before the request.
\<close>

section \<open>Statements that leave accounts and tokens alone\<close>

lemma purge_once_Inr:
  "purge_once w s = (Inr x, s') \<Longrightarrow>
     ub_users (sy_db s') = ub_users (sy_db s) \<and> ub_tokens (sy_db s') = ub_tokens (sy_db s) \<and>
     set (ub_sessions (sy_db s')) \<subseteq> set (ub_sessions (sy_db s)) \<and> sy_tick s \<le> sy_tick s'"
  by (auto simp: purge_once_def exec_h_def sql_h_def purge_expired_def Let_def split: if_splits)

lemma is_configured_same:
  "is_configured w s = (r, s') \<Longrightarrow> sy_db s' = sy_db s \<and> sy_tick s \<le> sy_tick s'"
  by (auto simp: is_configured_def bind_h_def seq_h_def query_h_def sql_h_def remember_configured_def return_h_def Let_def
      split: option.splits if_splits)

section \<open>Tokens\<close>

text \<open>A live row that a presented token stands for, with what its owner and its limits make of it.\<close>

definition token_grants ::
  "'n auth_world \<Rightarrow> nat \<Rightarrow> auth_db \<Rightarrow> string \<Rightarrow> ip_addr option \<Rightarrow> scope \<Rightarrow> token_row \<Rightarrow> bool" where
  "token_grants w t0 db clear ip wanted row =
     (row \<in> set (ub_tokens db) \<and> tk_hash row = token_fingerprint (aw_sha256 w) clear \<and>
      tk_prefix row = display_prefix clear \<and> tk_revoked_at row = None \<and>
      (tk_user_id row \<noteq> None \<longrightarrow> (\<exists>u. owner_of db row = Some u \<and> \<not> us_disabled u)) \<and>
      (\<forall>at'. tk_expires_at row = Some at' \<longrightarrow> (\<exists>t \<ge> t0. aw_utc w t < at')) \<and>
      network_allows (aw_net w) (decode_networks (aw_net w) (tk_networks row)) ip \<and>
      (wanted = ScWrite \<longrightarrow> tk_scope row = ScWrite \<and> (\<forall>u. owner_of db row = Some u \<longrightarrow> us_role u = Admin)))"

lemma effective_allows_write:
  "scope_allows (effective_scope row owner) ScWrite \<Longrightarrow>
     tk_scope row = ScWrite \<and> (\<forall>u. owner = Some u \<longrightarrow> us_role u = Admin)"
  by (cases "tk_scope row") (auto simp: effective_scope_def Let_def split: option.splits if_splits)

lemma token_authenticate_valid:
  assumes "token_authenticate w clear ip s = (Inr (ToValid token), s')"
  shows "\<exists>row. (row, owner_of (sy_db s) row) \<in> set (live_rows (display_prefix clear) (sy_db s)) \<and>
     tk_hash row = token_fingerprint (aw_sha256 w) clear \<and>
     (tk_user_id row \<noteq> None \<longrightarrow> owner_of (sy_db s) row \<noteq> None) \<and>
     (\<forall>u. owner_of (sy_db s) row = Some u \<longrightarrow> \<not> us_disabled u) \<and>
     (\<forall>at'. tk_expires_at row = Some at' \<longrightarrow> (\<exists>t \<ge> sy_tick s. aw_utc w t < at')) \<and>
     network_allows (aw_net w) (decode_networks (aw_net w) (tk_networks row)) ip \<and>
     at_scope token = effective_scope row (owner_of (sy_db s) row)"
proof -
  let ?rows = "live_rows (display_prefix clear) (sy_db s)"
  let ?hit = "\<lambda>(row, _ :: user option). tk_hash row = token_fingerprint (aw_sha256 w) clear"
  obtain row owner where found: "find ?hit ?rows = Some (row, owner)"
    using assms by (auto simp: token_authenticate_def handler_Inr split: option.splits)
  have row: "(row, owner) \<in> set ?rows" "tk_hash row = token_fingerprint (aw_sha256 w) clear"
    using find_SomeD [OF found] by auto
  then have owner: "owner = owner_of (sy_db s) row" by (auto simp: live_rows_def)
  have rest: "(tk_user_id row \<noteq> None \<longrightarrow> owner \<noteq> None) \<and> (\<forall>u. owner = Some u \<longrightarrow> \<not> us_disabled u) \<and>
     (\<forall>at'. tk_expires_at row = Some at' \<longrightarrow> (\<exists>t \<ge> sy_tick s. aw_utc w t < at')) \<and>
     network_allows (aw_net w) (decode_networks (aw_net w) (tk_networks row)) ip \<and>
     at_scope token = effective_scope row owner"
    using assms found
    by (auto simp: token_authenticate_def handler_Inr utc_h_def split: option.splits if_splits
        intro!: exI [of _ "Suc (sy_tick s)"])
  then show ?thesis using row unfolding owner by blast
qed

lemma outcome_error_Inr: "outcome_error st out = Inr token \<longleftrightarrow> out = ToValid token"
  by (auto simp: outcome_error_def split: token_outcome.splits)

lemma token_require_Inr: "token_require token wanted = Inr u \<longleftrightarrow> scope_allows (at_scope token) wanted"
  by (auto simp: token_require_def)

lemma token_check_valid:
  assumes "token_check w st headers ip wanted s = (Inr (Inr c), s')"
  shows "\<exists>clear row. extract_bearer headers = Some clear \<and>
     token_grants w (sy_tick s) (sy_db s) clear ip (if scope_allows (at_scope (ck_token c)) ScWrite then ScWrite else ScRead) row \<and>
     scope_allows (at_scope (ck_token c)) wanted"
proof -
  obtain clear token s1 where t: "extract_bearer headers = Some clear"
      "token_authenticate w clear ip s = (Inr (ToValid token), s1)" "ck_token c = token"
      "scope_allows (at_scope token) wanted"
    using assms
    by (auto simp: token_check_def handler_Inr outcome_error_Inr token_require_Inr split: option.splits)
  obtain row where row: "(row, owner_of (sy_db s) row) \<in> set (live_rows (display_prefix clear) (sy_db s))"
     "tk_hash row = token_fingerprint (aw_sha256 w) clear"
     "tk_user_id row \<noteq> None \<longrightarrow> owner_of (sy_db s) row \<noteq> None"
     "\<forall>u. owner_of (sy_db s) row = Some u \<longrightarrow> \<not> us_disabled u"
     "\<forall>at'. tk_expires_at row = Some at' \<longrightarrow> (\<exists>t \<ge> sy_tick s. aw_utc w t < at')"
     "network_allows (aw_net w) (decode_networks (aw_net w) (tk_networks row)) ip"
     "at_scope token = effective_scope row (owner_of (sy_db s) row)"
    using token_authenticate_valid [OF t(2)] by blast
  have "token_grants w (sy_tick s) (sy_db s) clear ip (if scope_allows (at_scope token) ScWrite then ScWrite else ScRead) row"
    using row effective_allows_write [of row "owner_of (sy_db s) row"]
    by (auto simp: token_grants_def live_rows_def)
  then show ?thesis using t by blast
qed

lemma token_grants_same:
  "ub_tokens db = ub_tokens db' \<Longrightarrow> ub_users db = ub_users db' \<Longrightarrow>
   token_grants w t db clear ip sc row = token_grants w t db' clear ip sc row"
  by (simp add: token_grants_def owner_of_def users_get_def cong: option.case_cong)

lemma token_grants_later: "token_grants w t db clear ip sc row \<Longrightarrow> t0 \<le> t \<Longrightarrow> token_grants w t0 db clear ip sc row"
  unfolding token_grants_def by (meson le_trans)

lemma require_session_cases:
  assumes "require_session w st rq s = (Inr (Inr a), s')"
  shows "\<exists>s1 s2. purge_once w s = (Inr (), s1) \<and> is_configured w s1 = (Inr True, s2) \<and>
    (if extract_bearer (rq_headers rq) \<noteq> None
     then \<exists>c. bearer_identity w st rq s2 = (Inr (Inr c), s') \<and> ad_principal a = PrToken (ck_token c)
     else \<exists>token user. current_session w (rq_headers rq) s2 = (Inr (Some (token, user)), s') \<and>
            session_may user rq = Inr () \<and> ad_principal a = PrUser user)"
proof -
  obtain s1 where s1: "purge_once w s = (Inr (), s1)"
    using prod.exhaust by (force simp: purge_once_def)
  obtain r s2 where s2: "is_configured w s1 = (r, s2)" by (cases "is_configured w s1")
  have r: "r = Inr True"
    using assms s1 s2 by (auto simp: require_session_def handler_Inr split: sum.splits bool.splits)
  show ?thesis
  proof (cases "extract_bearer (rq_headers rq) = None")
    case True
    then obtain current s3 where c: "current_session w (rq_headers rq) s2 = (current, s3)"
      and "s' = s3" "(case current of
              Inl e \<Rightarrow> Inl (GeAuth e)
            | Inr None \<Rightarrow> Inl (GeAuth (AeUnauthorized ''Authentication required.''))
            | Inr (Some (token, user)) \<Rightarrow>
                (case session_may user rq of
                   Inl e \<Rightarrow> Inl e
                 | Inr _ \<Rightarrow> Inr \<lparr>ad_principal = PrUser user, ad_session = Some token, ad_rate = None\<rparr>)) = Inr a"
      using assms s1 s2 r by (auto simp: require_session_def handler_Inr)
    then show ?thesis
      using True s1 s2 r by (auto split: sum.splits option.splits)
  next
    case False
    then show ?thesis
      using assms s1 s2 r by (auto simp: require_session_def handler_Inr)
  qed
qed


section \<open>Sessions\<close>

lemma session_authenticate_Some:
  assumes "session_authenticate sha now token db = (Some i, db')"
  shows "db' = db \<and> (\<exists>row \<in> set (ub_sessions db). ss_id row = st_id token \<and>
     ss_token_hash row = secret_hash sha token \<and> ss_user_id row = Some i \<and> now < ss_expires_at row)"
  using assms by (auto simp: session_authenticate_def split: option.splits if_splits dest!: find_SomeD)

lemma users_get_Some: "users_get i db = Some u \<Longrightarrow> u \<in> set (ub_users db) \<and> us_id u = i"
  by (auto simp: users_get_def dest: find_SomeD)

text \<open>A session of the database that a cookie stands for, of an account that is not disabled.\<close>

definition session_grants :: "'n auth_world \<Rightarrow> nat \<Rightarrow> auth_db \<Rightarrow> session_token \<Rightarrow> user \<Rightarrow> bool" where
  "session_grants w t0 db token u =
     (u \<in> set (ub_users db) \<and> \<not> us_disabled u \<and>
      (\<exists>row \<in> set (ub_sessions db). ss_id row = st_id token \<and> ss_token_hash row = secret_hash (aw_sha256 w) token \<and>
         ss_user_id row = Some (us_id u) \<and> (\<exists>t \<ge> t0. aw_utc w t < ss_expires_at row)))"

lemma current_session_Some:
  assumes "current_session w headers s = (Inr (Some (token, u)), s')"
  shows "cookie_extract headers = Some token \<and> session_grants w (sy_tick s) (sy_db s) token u"
proof -
  obtain i where i: "cookie_extract headers = Some token"
      "session_authenticate (aw_sha256 w) (aw_utc w (sy_tick s)) token (sy_db s) = (Some i, sy_db s)"
      "users_get i (sy_db s) = Some u" "\<not> us_disabled u"
    using assms session_authenticate_Some
    by (fastforce simp: current_session_def handler_Inr split: option.splits if_splits)
  then show ?thesis
    using session_authenticate_Some [OF i(2)] users_get_Some [OF i(3)]
    by (auto simp: session_grants_def)
qed

lemma session_request:
  assumes "require_session w st rq s = (Inr (Inr a), s')" "ad_principal a = PrUser u"
  shows "\<exists>token. cookie_extract (rq_headers rq) = Some token \<and> session_grants w (sy_tick s) (sy_db s) token u \<and>
     extract_bearer (rq_headers rq) = None \<and> session_may u rq = Inr ()"
proof -
  obtain s1 s2 token where s: "purge_once w s = (Inr (), s1)" "is_configured w s1 = (Inr True, s2)"
      and c: "current_session w (rq_headers rq) s2 = (Inr (Some (token, u)), s')" "session_may u rq = Inr ()"
      "extract_bearer (rq_headers rq) = None"
    using require_session_cases [OF assms(1)] assms(2) by (auto split: if_splits)
  have g: "cookie_extract (rq_headers rq) = Some token" "session_grants w (sy_tick s2) (sy_db s2) token u"
    using current_session_Some [OF c(1)] by auto
  have same: "ub_users (sy_db s2) = ub_users (sy_db s)" "set (ub_sessions (sy_db s2)) \<subseteq> set (ub_sessions (sy_db s))"
      "sy_tick s \<le> sy_tick s2"
    using purge_once_Inr [OF s(1)] is_configured_same [OF s(2)] by auto
  have "session_grants w (sy_tick s) (sy_db s) token u"
    using g(2) same unfolding session_grants_def by (metis subsetD le_trans)
  then show ?thesis using g(1) c by blast
qed

text \<open>
  C4: a request the guard admits on a cookie stands on a session of the database whose secret it proves, that is not
  expired, of an account that is not disabled; and a request that changes something carries the proof that it comes from
  the interface itself.
\<close>

theorem session_request_sound:
  assumes "require_session w st rq s = (Inr (Inr a), s')" "ad_principal a = PrUser u"
  shows "\<exists>token. cookie_extract (rq_headers rq) = Some token \<and> session_grants w (sy_tick s) (sy_db s) token u \<and>
     extract_bearer (rq_headers rq) = None \<and> (is_mutation (rq_method rq) \<longrightarrow> same_origin (rq_headers rq) = Inr ())"
  using session_request [OF assms] by (auto simp: session_may_def split: sum.splits)

section \<open>What operators and viewers may change\<close>

lemma join_split: "join_with [d] (split_on d s) = s"
proof (induction s)
  case (Cons c s)
  obtain p ps where "split_on d s = p # ps" by (cases "split_on d s") auto
  then show ?case using Cons by (cases ps) auto
qed simp

lemma match_segments_Cons:
  "match_segments (w # ws) as \<longleftrightarrow>
     (\<exists>a as'. as = a # as' \<and> ((w = ''*'' \<and> a \<noteq> []) \<or> w = a) \<and> match_segments ws as')"
  by (cases as) auto

lemma match_segments_Nil: "match_segments [] as \<longleftrightarrow> as = []"
  by (cases as) auto

lemma operator_route_alerts:
  assumes "is_operator_route method path"
  shows "\<exists>rest. without_api path = ''/alerts/'' @ rest"
proof -
  define p where "p = (case strip_suffix ''/'' (without_api path) of Some rest \<Rightarrow> rest | None \<Rightarrow> without_api path)"
  obtain pattern where m: "pattern \<in> snd ` set OPERATOR_ROUTES"
      "match_segments (split_on (CHR ''/'') pattern) (split_on (CHR ''/'') p)"
    using assms by (force simp: is_operator_route_def p_def Let_def list_ex_iff)
  have "\<exists>a as. split_on (CHR ''/'') p = [] # ''alerts'' # a # as"
    using m by (auto simp: OPERATOR_ROUTES_def match_segments_Cons)
  then obtain a as where "p = join_with ''/'' ([] # ''alerts'' # a # as)"
    using join_split by metis
  then have "\<exists>rest. p = ''/alerts/'' @ rest" by simp
  moreover have "\<exists>tail. without_api path = p @ tail"
    unfolding p_def by (auto simp: strip_suffix_Some split: option.splits)
  ultimately show ?thesis by auto
qed

text \<open>
  who is not an administrator changes nothing but its own account, except an operator, who also reaches routes under
  \<^verbatim>\<open>/alerts/\<close>: no template of the list lets a path of the configuration through.
\<close>

theorem lesser_roles_confined:
  assumes "require_session w st rq s = (Inr (Inr a), s')" "ad_principal a = PrUser u"
    and "us_role u \<noteq> Admin" "is_mutation (rq_method rq)"
  shows "is_self_service (rq_path rq) \<or>
    (us_role u = Operator \<and> (\<exists>rest. without_api (rq_path rq) = ''/alerts/'' @ rest))"
proof -
  have "session_may u rq = Inr ()" using session_request [OF assms(1,2)] by blast
  then show ?thesis
    using assms(3,4) operator_route_alerts [of "rq_method rq" "rq_path rq"]
    by (cases "us_role u") (auto simp: session_may_def split: sum.splits if_splits)
qed

section \<open>Other origins\<close>

fun contains_str :: "string \<Rightarrow> string \<Rightarrow> bool" where
  "contains_str [] p = (p = [])"
| "contains_str (c # cs) p = (starts_with (c # cs) p \<or> contains_str cs p)"

definition cors_safe :: "header_map \<Rightarrow> string \<Rightarrow> cors_result \<Rightarrow> bool" where
  "cors_safe headers path answer =
     (case answer of
        CrPass added \<Rightarrow>
          ''access-control-allow-credentials'' \<notin> fst ` set added \<and>
          (''access-control-allow-origin'' \<in> fst ` set added \<longrightarrow> extract_bearer headers \<noteq> None \<or> path = PUBLIC_SPEC)
      | CrAnswer status added \<Rightarrow>
          ''access-control-allow-credentials'' \<notin> fst ` set added \<and>
          (status = 204 \<longrightarrow> requests_header headers ''authorization'' \<or> path = PUBLIC_SPEC) \<and>
          (\<forall>names. (''access-control-allow-headers'', names) \<in> set added \<longrightarrow> \<not> contains_str names CSRF_HEADER))"

lemma cors_vary_keys: "(k, v) \<in> set (cors_vary policy) \<Longrightarrow> k = ''vary''"
  by (cases policy) (auto simp: cors_vary_def)

lemma preflight_safe: "cors_safe headers path (preflight policy origin headers path)"
proof -
  have names: "\<not> contains_str ALLOWED_HEADERS CSRF_HEADER"
    by (simp add: ALLOWED_HEADERS_def CSRF_HEADER_def)
  show ?thesis
  proof (cases "allow_origin policy origin")
    case None
    then show ?thesis by (simp add: preflight_def cors_safe_def)
  next
    case (Some allowed)
    have "\<forall>k v. (k, v) \<in> set (cors_vary policy) \<longrightarrow> k = ''vary''" using cors_vary_keys by blast
    then show ?thesis
      using Some names by (auto simp: preflight_def cors_safe_def)
  qed
qed

text \<open>
  a response can be read by a page of another origin only if the request carried an API token, or asked for the public
  description of the API; a preflight succeeds only if it announces the token; and no answer ever allows the session
  cookie or the header that proves the origin of a write.
\<close>

theorem session_unreadable_elsewhere:
  "cors_safe (rq_headers rq) (rq_path rq) (cors_layer policy rq)"
proof -
  have vary: "\<forall>k v. (k, v) \<in> set (cors_vary policy) \<longrightarrow> k = ''vary''" using cors_vary_keys by blast
  have pass: "cors_safe (rq_headers rq) (rq_path rq) (CrPass [])" by (simp add: cors_safe_def)
  show ?thesis
  proof (cases "extract_bearer (rq_headers rq) \<noteq> None \<or> rq_path rq = PUBLIC_SPEC")
    case True
    then have "cors_safe (rq_headers rq) (rq_path rq) (CrPass
        ([(''access-control-allow-origin'', allowed), (''access-control-expose-headers'', EXPOSED_HEADERS)] @
         cors_vary policy))" for allowed
      using vary by (auto simp: cors_safe_def)
    then show ?thesis
      using pass preflight_safe [of "rq_headers rq" "rq_path rq" policy]
      by (auto simp: cors_layer_def Let_def split: option.splits)
  next
    case False
    then show ?thesis
      using pass preflight_safe [of "rq_headers rq" "rq_path rq" policy]
      by (simp add: cors_layer_def Let_def split: option.splits)
  qed
qed

section \<open>Examples\<close>

text \<open>A provider with one key, whose tokens are plain texts: the nonce, and the subject after a slash.\<close>

definition sample_document :: discovery where
  "sample_document =
     \<lparr>di_issuer = ''https://id'', di_authorization_endpoint = ''https://id/auth'', di_token_endpoint = ''https://id/token'',
      di_jwks_uri = ''https://id/keys'', di_userinfo_endpoint = None, di_end_session_endpoint = None,
      di_scopes_supported = None, di_id_token_signing_algs = None, di_code_challenge_methods = None\<rparr>"

definition sample_oidc :: oidc_lib where
  "sample_oidc =
     \<lparr>ol_read_config = (\<lambda>_. None), ol_write_config = (\<lambda>_. []), ol_read_probe = (\<lambda>_. None),
      ol_utf8 = (\<lambda>bs. Some (map (\<lambda>b. char_of (unat b)) bs)), ol_base64url = (\<lambda>bs. hex_encode bs),
      ol_document = (\<lambda>_ _. Some sample_document), ol_keys = (\<lambda>_ _. Some [\<lparr>jk_id = Some ''k'', jk_body = []\<rparr>]),
      ol_exchange = (\<lambda>_ _ _ form. map_of form ''code''), ol_header = (\<lambda>_. Some (AlgRS256, Some ''k'')),
      ol_decode = (\<lambda>token _ _ _ _. map_option (\<lambda>(nonce, sub). \<lparr>cl_sub = sub, cl_preferred_username = Some sub, cl_email = None,
        cl_email_verified = None, cl_name = None, cl_nonce = Some nonce, cl_extra = Map.empty\<rparr>) (split_once (CHR ''/'') token)),
      ol_authorize_url = (\<lambda>u _. Some u), ol_joined_host = (\<lambda>_. Some ''internal.invalid'')\<rparr>"

definition sample_world :: "unit auth_world" where
  "sample_world =
     \<lparr>aw_instant = (\<lambda>t. seconds (int t)), aw_utc = (\<lambda>t. seconds (int t)), aw_random = (\<lambda>_ _. 7), aw_sql_fails = (\<lambda>_. False),
      aw_sha256 = (\<lambda>bs. bs), aw_hmac = (\<lambda>_ c. replicate 20 (last c)), aw_argon_hash = (\<lambda>p _. Some p),
      aw_argon_verify = (\<lambda>p h. Some (p = h)), aw_lower = map ascii_lower,
      aw_cipher = \<lparr>ae_encrypt = (\<lambda>_ p. Some p), ae_decrypt = (\<lambda>_ c. Some c)\<rparr>,
      aw_net = \<lparr>nl_parse = (\<lambda>_. None), nl_from = (\<lambda>_. ()), nl_contains = (\<lambda>_ _. False), nl_trunc = id, nl_show = (\<lambda>_. [])\<rparr>,
      aw_setup_code = ''ABCDE-FGHJK'', aw_cookie_secure = False, aw_trusted = [], aw_demo = False,
      aw_oidc = sample_oidc, aw_oidc_env = oidc_from_env (\<lambda>_. None), aw_oidc_allow_http = False\<rparr>"

definition sample_user :: "int \<Rightarrow> string \<Rightarrow> role \<Rightarrow> user" where
  "sample_user i name role =
     \<lparr>us_id = i, us_username = name, us_display_name = [], us_role = role, us_password_hash = Some ''correct horse battery'',
      us_oidc_subject = None, us_oidc_issuer = None, us_created_at = 0, us_last_login_at = None, us_disabled = False,
      us_totp_secret = None, us_totp_enabled = False\<rparr>"

definition sample_auth_db :: auth_db where
  "sample_auth_db =
     \<lparr>ub_users = [sample_user 1 ''admin'' Admin, sample_user 2 ''jane'' Operator], ub_next_user = 3,
      ub_sessions = [\<lparr>ss_id = ''s'', ss_token_hash = str_bytes ''x'', ss_created_at = 0, ss_expires_at = days 30,
                      ss_user_id = Some 2\<rparr>],
      ub_codes = [], ub_next_code = 1,
      ub_tokens = [\<lparr>tk_id = 1, tk_name = ''ci'', tk_prefix = ''dmt_01234567'', tk_hash = str_bytes ''dmt_0123456789'',
                    tk_scope = ScWrite, tk_created_at = 0, tk_last_used_at = None, tk_last_used_ip = None,
                    tk_revoked_at = None, tk_user_id = Some 1, tk_expires_at = Some (days 1), tk_networks = None\<rparr>],
      ub_next_token = 2, ub_audit = [], ub_next_audit = 1, ub_settings = Map.empty\<rparr>"

definition sample_sys :: auth_sys where
  "sample_sys =
     \<lparr>sy_db = sample_auth_db, sy_limiter = [], sy_pending = [], sy_replay = Map.empty, sy_configured = None,
      sy_purged = False, sy_windows = [], sy_sso = [], sy_discovery = None, sy_tick = 0\<rparr>"

definition token_request :: request where
  "token_request =
     \<lparr>rq_method = ''POST'', rq_path = ''/targets'', rq_headers = [(''authorization'', Some ''Bearer dmt_0123456789'')],
      rq_peer = None\<rparr>"

definition session_post :: request where
  "session_post =
     \<lparr>rq_method = ''POST'', rq_path = ''/alerts/7/ack'',
      rq_headers = [(''cookie'', Some ''dumbmonit_session=s.x''), (CSRF_HEADER, Some CSRF_VALUE)], rq_peer = None\<rparr>"

lemmas sample_defs = sample_world_def sample_user_def sample_auth_db_def sample_sys_def
lemma trim_examples:
  "trim ''dumbmonit_session'' = ''dumbmonit_session''" "trim ''s.x'' = ''s.x''" "trim ''DumbMonit'' = ''DumbMonit''"
  "trim ''Bearer dmt_0123456789'' = ''Bearer dmt_0123456789''" "trim ''dmt_0123456789'' = ''dmt_0123456789''"
  by (rule trim_plain, simp add: plain_char_def)+

lemma sample_purge: "purge_once sample_world sample_sys = (Inr (), sample_sys\<lparr>sy_purged := True, sy_tick := 1\<rparr>)"
  by (simp add: purge_once_def handler_defs purge_expired_def sample_defs to_sql_def time_defs Let_def)

lemma token_admitted:
  "\<exists>a s'. require_session sample_world (\<lambda>_. []) token_request sample_sys = (Inr (Inr a), s') \<and>
     (\<exists>t. ad_principal a = PrToken t)"
proof -
  have bearer: "eq_ignore_ascii_case ''Bearer'' ''bearer''" by code_simp
  have b: "extract_bearer [(''authorization'', Some ''Bearer dmt_0123456789'')] = Some ''dmt_0123456789''"
    by (simp add: extract_bearer_def get_str_def trim_examples bearer TOKEN_PREFIX_def)
  show ?thesis
    by (simp add: require_session_def token_request_def b seq_h_def bind_h_def sample_purge)
      (simp add: handler_defs is_configured_def sample_defs users_count_def remember_configured_def
        bearer_identity_def token_check_def b token_authenticate_def live_rows_def owner_of_def users_get_def
        token_fingerprint_def display_prefix_def DISPLAY_LEN_def TOKEN_PREFIX_def time_defs network_allows_def decode_networks_def
        touch_if_stale_def outcome_error_def token_require_def effective_scope_def token_call_def Let_def duration_since_def
        RATE_WINDOW_def RATE_LIMIT_PER_MINUTE_def is_token_denied_def without_api_def strip_prefix_def token_request_def
        is_mutation_def TOKEN_DENIED_def List.map_filter_simps touch_token_def)
qed

lemma session_admitted:
  "\<exists>a s'. require_session sample_world (\<lambda>_. []) session_post sample_sys = (Inr (Inr a), s') \<and>
     ad_principal a = PrUser (sample_user 2 ''jane'' Operator)"
proof -
  let ?h = "[(''cookie'', Some ''dumbmonit_session=s.x''), (CSRF_HEADER, Some CSRF_VALUE)]"
  have b: "extract_bearer ?h = None"
    by (simp add: extract_bearer_def get_str_def CSRF_HEADER_def)
  have c: "cookie_extract ?h = Some \<lparr>st_id = ''s'', st_secret = ''x''\<rparr>"
    by (simp add: cookie_extract_def get_str_def List.map_filter_simps trim_examples COOKIE_NAME_def session_parse_def)
  have orig: "same_origin ?h = Inr ()"
    by (simp add: same_origin_def get_str_def CSRF_HEADER_def CSRF_VALUE_def trim_examples eq_ignore_ascii_case_def Let_def)
  have r: "is_operator_route ''POST'' ''/alerts/7/ack''"
    by (simp add: is_operator_route_def without_api_def strip_prefix_def strip_suffix_def OPERATOR_ROUTES_def Let_def)
  show ?thesis
    by (simp add: require_session_def session_post_def b seq_h_def bind_h_def sample_purge)
      (simp add: handler_defs is_configured_def sample_defs users_count_def remember_configured_def current_session_def c
        session_authenticate_def secret_hash_def str_bytes_def users_get_def time_defs session_may_def orig r Let_def
        is_mutation_def)
qed


theorem session_request_sound_witness:
  "\<exists>token. cookie_extract (rq_headers session_post) = Some token \<and>
     session_grants sample_world (sy_tick sample_sys) (sy_db sample_sys) token (sample_user 2 ''jane'' Operator) \<and>
     same_origin (rq_headers session_post) = Inr ()"
proof -
  obtain a s' where "require_session sample_world (\<lambda>_. []) session_post sample_sys = (Inr (Inr a), s')"
      "ad_principal a = PrUser (sample_user 2 ''jane'' Operator)"
    using session_admitted by blast
  from session_request_sound [OF this] show ?thesis by (auto simp: session_post_def is_mutation_def)
qed

theorem lesser_roles_confined_witness:
  "is_self_service (rq_path session_post) \<or> (\<exists>rest. without_api (rq_path session_post) = ''/alerts/'' @ rest)"
proof -
  obtain a s' where a: "require_session sample_world (\<lambda>_. []) session_post sample_sys = (Inr (Inr a), s')"
      "ad_principal a = PrUser (sample_user 2 ''jane'' Operator)"
    using session_admitted by blast
  have "us_role (sample_user 2 ''jane'' Operator) \<noteq> Admin" "is_mutation (rq_method session_post)"
    by (simp_all add: sample_user_def session_post_def is_mutation_def)
  from lesser_roles_confined [OF a this] show ?thesis by blast
qed

end
