(* ===== verification/Oidc_Flow.thy ===== *)
theory Oidc_Flow
  imports Guard_Properties
begin

text \<open>
  A sign-in through the provider (\<^verbatim>\<open>crates/server/src/auth/oidc/\<close>): the effective settings, the cached document and keys,
  the validation of the identity token, and the account an identity stands for. Errors carry no detail here but the text
  the code gives to the screen; a detail that only goes to the log is left out.
\<close>

section \<open>Settings that are stored\<close>

text \<open>\<^verbatim>\<open>settings::get\<close>, \<^verbatim>\<open>get_secret\<close> and \<^verbatim>\<open>set_secret\<close>: a value that does not read is an error.\<close>

definition settings_get :: "'n auth_world \<Rightarrow> (bytes \<Rightarrow> 'a option) \<Rightarrow> string \<Rightarrow> 'a option handler" where
  "settings_get w read key =
     bind_h (query_h w (settings_read key)) (\<lambda>raw.
     case raw of
       None \<Rightarrow> return_h None
     | Some bytes \<Rightarrow> (case read bytes of None \<Rightarrow> fail_h AeInternal | Some x \<Rightarrow> return_h (Some x)))"

definition settings_get_secret :: "'n auth_world \<Rightarrow> string \<Rightarrow> string option handler" where
  "settings_get_secret w key =
     bind_h (query_h w (settings_read key)) (\<lambda>raw.
     case raw of
       None \<Rightarrow> return_h None
     | Some bytes \<Rightarrow>
         (case cipher_decrypt (aw_cipher w) bytes of
            Inl _ \<Rightarrow> fail_h AeInternal
          | Inr plain \<Rightarrow>
              (case ol_utf8 (aw_oidc w) plain of None \<Rightarrow> fail_h AeInternal | Some s \<Rightarrow> return_h (Some s))))"

definition settings_set_secret :: "'n auth_world \<Rightarrow> string \<Rightarrow> string \<Rightarrow> unit handler" where
  "settings_set_secret w key value =
     bind_h (random_h w) (\<lambda>nonce.
     case cipher_encrypt (aw_cipher w) (map nonce [0..<NONCE_LEN]) (str_bytes value) of
       Inl _ \<Rightarrow> fail_h AeInternal
     | Inr bytes \<Rightarrow> exec_h w (\<lambda>_. settings_write key bytes))"

definition oidc_resolve :: "'n auth_world \<Rightarrow> resolved_config handler" where
  "oidc_resolve w =
     bind_h (settings_get w (ol_read_config (aw_oidc w)) SETTINGS_KEY) (\<lambda>saved.
     case saved of
       Some c \<Rightarrow>
         bind_h (settings_get_secret w SECRET_KEY) (\<lambda>secret.
         bind_h (settings_get w (ol_read_probe (aw_oidc w)) SETTINGS_KEY) (\<lambda>probe.
           return_h \<lparr>rc_config = oidc_normalized (c\<lparr>oc_client_secret := (case secret of None \<Rightarrow> [] | Some s \<Rightarrow> s)\<rparr>),
                     rc_source = CsSettings,
                     rc_auto_create_defaulted = (case probe of None \<Rightarrow> True | Some chosen \<Rightarrow> chosen = None)\<rparr>))
     | None \<Rightarrow>
         return_h
           (if env_is_set (aw_oidc_env w)
            then \<lparr>rc_config = oe_config (aw_oidc_env w), rc_source = CsEnv,
                  rc_auto_create_defaulted = oe_auto_create_unset (aw_oidc_env w)\<rparr>
            else \<lparr>rc_config = oidc_normalized oidc_config_default, rc_source = CsNone, rc_auto_create_defaulted = True\<rparr>))"

definition oidc_save :: "'n auth_world \<Rightarrow> oidc_config \<Rightarrow> unit handler" where
  "oidc_save w config =
     (let c = oidc_normalized config
      in seq_h (when_h (oc_client_secret c \<noteq> []) (settings_set_secret w SECRET_KEY (oc_client_secret c)))
         (exec_h w (\<lambda>_. settings_write SETTINGS_KEY (ol_write_config (aw_oidc w) c))))"

definition oidc_clear :: "'n auth_world \<Rightarrow> unit handler" where
  "oidc_clear w =
     seq_h (exec_h w (\<lambda>_. settings_delete SETTINGS_KEY)) (exec_h w (\<lambda>_. settings_delete SECRET_KEY))"

section \<open>Errors of a sign-in\<close>

datatype flow_error =
    FeNotConfigured
  | FeProviderUnreachable
  | FeDenied string
  | FeState
  | FeExchange
  | FeInvalidToken
  | FeNoAccount
  | FeDisabled
  | FeInternal

fun flow_reason :: "flow_error \<Rightarrow> string" where
  "flow_reason FeNotConfigured = ''not_configured''"
| "flow_reason FeProviderUnreachable = ''provider_unreachable''"
| "flow_reason (FeDenied _) = ''denied''"
| "flow_reason FeState = ''state''"
| "flow_reason FeExchange = ''exchange''"
| "flow_reason FeInvalidToken = ''invalid_token''"
| "flow_reason FeNoAccount = ''no_account''"
| "flow_reason FeDisabled = ''disabled''"
| "flow_reason FeInternal = ''internal''"

text \<open>Statements of a flow: its errors are values, an error of the database is \<^const>\<open>FeInternal\<close>.\<close>

definition bind_f :: "(flow_error + 'a) handler \<Rightarrow> ('a \<Rightarrow> (flow_error + 'b) handler) \<Rightarrow> (flow_error + 'b) handler" where
  "bind_f m f = bind_h m (\<lambda>r. case r of Inl e \<Rightarrow> return_h (Inl e) | Inr x \<Rightarrow> f x)"

definition fail_f :: "flow_error \<Rightarrow> (flow_error + 'a) handler" where
  "fail_f e = return_h (Inl e)"

definition return_f :: "'a \<Rightarrow> (flow_error + 'a) handler" where
  "return_f x = return_h (Inr x)"

definition lift_f :: "'a handler \<Rightarrow> (flow_error + 'a) handler" where
  "lift_f m = bind_h (attempt_h m) (\<lambda>r. return_h (case r of Inl _ \<Rightarrow> Inl FeInternal | Inr x \<Rightarrow> Inr x))"

section \<open>The provider's document and keys\<close>

text \<open>A tick gives each request its answer.\<close>

definition ask_h :: "(nat \<Rightarrow> 'a) \<Rightarrow> 'a handler" where
  "ask_h f = tick_h f"

definition discovery_fetch :: "'n auth_world \<Rightarrow> string \<Rightarrow> (flow_error + discovery) handler" where
  "discovery_fetch w issuer =
     (let issuer = trim_end_char (CHR ''/'') (trim issuer) in
      if \<not> (starts_with issuer ''https://'' \<or> starts_with issuer ''http://'') then fail_f FeProviderUnreachable
      else
        bind_h (ask_h (\<lambda>t. ol_document (aw_oidc w) t (well_known_url issuer))) (\<lambda>answer.
        case answer of
          None \<Rightarrow> fail_f FeProviderUnreachable
        | Some document \<Rightarrow>
            if trim_end_char (CHR ''/'') (di_issuer document) \<noteq> issuer then fail_f FeProviderUnreachable
            else return_f document))"

definition discovery_get :: "'n auth_world \<Rightarrow> string \<Rightarrow> (flow_error + discovery) handler" where
  "discovery_get w issuer =
     (let issuer = trim_end_char (CHR ''/'') issuer in
      bind_h (instant_h w) (\<lambda>now.
      bind_h (discovery_h (\<lambda>c. (c, c))) (\<lambda>cached.
      case (case cached of
              Some c \<Rightarrow> if cd_issuer c = issuer \<and> duration_since now (cd_fetched_at c) < DOCUMENT_TTL then Some c else None
            | None \<Rightarrow> None) of
        Some c \<Rightarrow> return_f (cd_document c)
      | None \<Rightarrow>
          bind_f (discovery_fetch w issuer) (\<lambda>document.
          bind_h (instant_h w) (\<lambda>fetched.
          seq_h (discovery_h (\<lambda>c. ((),
            (let keep = (case c of Some k \<Rightarrow> if cd_issuer k = issuer then Some k else None | None \<Rightarrow> None)
             in Some \<lparr>cd_issuer = issuer, cd_document = document, cd_fetched_at = fetched,
                      cd_jwks = (case keep of None \<Rightarrow> None | Some k \<Rightarrow> cd_jwks k),
                      cd_jwks_fetched_at = (case keep of None \<Rightarrow> None | Some k \<Rightarrow> cd_jwks_fetched_at k)\<rparr>))))
          (return_f document))))))"

definition provider_keys :: "'n auth_world \<Rightarrow> discovery \<Rightarrow> string option \<Rightarrow> (flow_error + jwk list) handler" where
  "provider_keys w document kid =
     (let issuer = trim_end_char (CHR ''/'') (di_issuer document) in
      bind_h (instant_h w) (\<lambda>now.
      bind_h (discovery_h (\<lambda>c. (c, c))) (\<lambda>c.
      let cached = (case c of Some k \<Rightarrow> if cd_issuer k = issuer then Some k else None | None \<Rightarrow> None);
          usable = (case cached of
                      None \<Rightarrow> None
                    | Some k \<Rightarrow>
                        (case cd_jwks k of
                           None \<Rightarrow> None
                         | Some keys \<Rightarrow>
                             if (case kid of Some i \<Rightarrow> find_key keys i \<noteq> None | None \<Rightarrow> True) \<or>
                                (case cd_jwks_fetched_at k of
                                   None \<Rightarrow> False | Some t \<Rightarrow> duration_since now t < JWKS_REFRESH_MIN_INTERVAL)
                             then Some keys else None))
      in case usable of
           Some keys \<Rightarrow> return_f keys
         | None \<Rightarrow>
             bind_h (ask_h (\<lambda>t. ol_keys (aw_oidc w) t (di_jwks_uri document))) (\<lambda>answer.
             case answer of
               None \<Rightarrow> fail_f FeProviderUnreachable
             | Some keys \<Rightarrow>
                 bind_h (instant_h w) (\<lambda>fetched.
                 seq_h (when_h (cached \<noteq> None) (discovery_h (\<lambda>c. ((),
                   map_option (\<lambda>k. k\<lparr>cd_jwks := Some keys, cd_jwks_fetched_at := Some fetched\<rparr>) c))))
                 (return_f keys))))))"

section \<open>The identity token\<close>

datatype id_token_error = ItUnknownKey "string option" | ItInvalid

definition token_validate ::
  "oidc_lib \<Rightarrow> string \<Rightarrow> jwk list \<Rightarrow> string \<Rightarrow> string \<Rightarrow> string \<Rightarrow> id_token_error + id_claims" where
  "token_validate ol token keys issuer client_id expected_nonce =
     (case ol_header ol token of
        None \<Rightarrow> Inl ItInvalid
      | Some (alg, kid) \<Rightarrow>
          if alg \<noteq> AlgRS256 \<and> alg \<noteq> AlgES256 then Inl ItInvalid
          else
            (case (case kid of
                     Some i \<Rightarrow> find_key keys i
                   | None \<Rightarrow> if length keys = 1 then Some (hd keys) else None) of
               None \<Rightarrow> Inl (ItUnknownKey kid)
             | Some key \<Rightarrow>
                 (let base = trim_end_char (CHR ''/'') issuer in
                  case ol_decode ol token key alg [base, base @ ''/''] client_id of
                    None \<Rightarrow> Inl ItInvalid
                  | Some claims \<Rightarrow>
                      if cl_nonce claims \<noteq> Some expected_nonce then Inl ItInvalid else Inr claims)))"

definition validate_with_jwks ::
  "'n auth_world \<Rightarrow> oidc_config \<Rightarrow> discovery \<Rightarrow> string \<Rightarrow> string \<Rightarrow> (flow_error + id_claims) handler" where
  "validate_with_jwks w config document id_token nonce =
     (case ol_header (aw_oidc w) id_token of
        None \<Rightarrow> fail_f FeInvalidToken
      | Some (_, kid) \<Rightarrow>
          bind_f (provider_keys w document kid) (\<lambda>keys.
          case token_validate (aw_oidc w) id_token keys (oc_issuer config) (oc_client_id config) nonce of
            Inl _ \<Rightarrow> fail_f FeInvalidToken
          | Inr claims \<Rightarrow> return_f claims))"

definition exchange_code ::
  "'n auth_world \<Rightarrow> oidc_config \<Rightarrow> discovery \<Rightarrow> string \<Rightarrow> sso_pending \<Rightarrow> (flow_error + string) handler" where
  "exchange_code w config document code p =
     bind_h (ask_h (\<lambda>t. ol_exchange (aw_oidc w) t (di_token_endpoint document) (oc_client_id config, oc_client_secret config)
       [(''grant_type'', ''authorization_code''), (''code'', code), (''redirect_uri'', sp_redirect_uri p),
        (''code_verifier'', sp_verifier p), (''client_id'', oc_client_id config)])) (\<lambda>answer.
     case answer of None \<Rightarrow> fail_f FeExchange | Some id_token \<Rightarrow> return_f id_token)"

section \<open>The account of an identity\<close>

definition verified_email :: "id_claims \<Rightarrow> string option" where
  "verified_email claims =
     (if cl_email_verified claims \<noteq> Some True then None
      else case cl_email claims of
          None \<Rightarrow> None
        | Some email \<Rightarrow> if trim email = [] then None else Some (trim email))"

definition find_linkable :: "'n auth_world \<Rightarrow> id_claims \<Rightarrow> (flow_error + user option) handler" where
  "find_linkable w claims =
     (case verified_email claims of
        None \<Rightarrow> return_f None
      | Some email \<Rightarrow>
          bind_f (lift_f (query_h w (by_username email))) (\<lambda>found.
          return_f (case found of
              None \<Rightarrow> None
            | Some u \<Rightarrow>
                if us_oidc_subject u \<noteq> None then None
                else if role_is_admin (us_role u) \<and> us_password_hash u \<noteq> None then None
                else Some u)))"

text \<open>The loop of five attempts at a free name.\<close>

fun try_names ::
  "'n auth_world \<Rightarrow> string \<Rightarrow> id_claims \<Rightarrow> role \<Rightarrow> string \<Rightarrow> nat list \<Rightarrow> (flow_error + user) handler" where
  "try_names w issuer claims role base [] = fail_f FeInternal"
| "try_names w issuer claims role base (n # ns) =
     (let username = (if n = 0 then base else base @ ''-'' @ show_nat n) in
      bind_f (lift_f (sql_h w (\<lambda>now. users_insert now
        \<lparr>nu_username = username, nu_display_name = (case cl_name claims of None \<Rightarrow> [] | Some s \<Rightarrow> s), nu_role = role,
         nu_password_hash = None, nu_oidc = Some (issuer, cl_sub claims)\<rparr>))) (\<lambda>created.
      case created of
        Some i \<Rightarrow>
          bind_f (lift_f (query_h w (users_get i))) (\<lambda>found.
          case found of None \<Rightarrow> fail_f FeInternal | Some u \<Rightarrow> return_f u)
      | None \<Rightarrow> try_names w issuer claims role base ns))"

definition base_name :: "id_claims \<Rightarrow> string" where
  "base_name claims =
     (case (case cl_preferred_username claims of Some n \<Rightarrow> Some n | None \<Rightarrow> cl_email claims) of
        None \<Rightarrow> cl_sub claims
      | Some name \<Rightarrow> if validate_username (trim name) = Inr () then trim name else cl_sub claims)"

definition create_account :: "'n auth_world \<Rightarrow> string \<Rightarrow> id_claims \<Rightarrow> role \<Rightarrow> (flow_error + user) handler" where
  "create_account w issuer claims role = try_names w issuer claims role (base_name claims) [0..<5]"

definition claimed_role :: "oidc_config \<Rightarrow> id_claims \<Rightarrow> role option \<Rightarrow> role option" where
  "claimed_role config claims current =
     role_for_groups (groups_from_claim (cl_extra claims (oc_groups_claim config))) (oc_admin_groups config)
       (oc_operator_groups config) current"

definition link_h :: "'n auth_world \<Rightarrow> int \<Rightarrow> string \<Rightarrow> string \<Rightarrow> unit handler" where
  "link_h w i issuer sub = sql_h w (\<lambda>_ db. map_option (\<lambda>db'. ((), db')) (link_oidc i issuer sub db))"

text \<open>The account: the one of this identity, the one its verified address names, or a new one.\<close>

definition identity_account :: "'n auth_world \<Rightarrow> oidc_config \<Rightarrow> id_claims \<Rightarrow> (flow_error + user) handler" where
  "identity_account w config claims =
     bind_f (lift_f (query_h w (by_oidc (oc_issuer config) (cl_sub claims)))) (\<lambda>known.
     case known of
       Some u \<Rightarrow> return_f u
     | None \<Rightarrow>
         bind_f (find_linkable w claims) (\<lambda>linkable.
         case linkable of
           Some u \<Rightarrow>
             bind_f (lift_f (link_h w (us_id u) (oc_issuer config) (cl_sub claims))) (\<lambda>_. return_f u)
         | None \<Rightarrow>
             if \<not> oc_auto_create config then fail_f FeNoAccount
             else create_account w (oc_issuer config) claims
                    (case claimed_role config claims None of None \<Rightarrow> Viewer | Some r \<Rightarrow> r)))"

text \<open>The role follows the groups, except for the last administrator.\<close>

definition follow_groups :: "'n auth_world \<Rightarrow> oidc_config \<Rightarrow> id_claims \<Rightarrow> user \<Rightarrow> (flow_error + user) handler" where
  "follow_groups w config claims u =
     (case claimed_role config claims (Some (us_role u)) of
        None \<Rightarrow> return_f u
      | Some role \<Rightarrow>
          if role = us_role u then return_f u
          else
            bind_f (if role_is_admin (us_role u)
                    then bind_f (lift_f (query_h w active_admin_count)) (\<lambda>n. return_f (n \<le> 1)) else return_f False) (\<lambda>last_admin.
            if last_admin then return_f u
            else bind_f (lift_f (exec_h w (\<lambda>_. set_role (us_id u) role))) (\<lambda>_. return_f (u\<lparr>us_role := role\<rparr>))))"

definition map_identity :: "'n auth_world \<Rightarrow> oidc_config \<Rightarrow> id_claims \<Rightarrow> (flow_error + user) handler" where
  "map_identity w config claims = bind_f (identity_account w config claims) (follow_groups w config claims)"

section \<open>Departure and return\<close>

definition flow_start ::
  "'n auth_world \<Rightarrow> oidc_config \<Rightarrow> string \<Rightarrow> string option \<Rightarrow> (flow_error + (string \<times> string)) handler" where
  "flow_start w config request_origin redirect =
     (if \<not> oidc_enabled config then fail_f FeNotConfigured
      else
        bind_f (discovery_get w (oc_issuer config)) (\<lambda>document.
        bind_h (random_h w) (\<lambda>r1. bind_h (random_h w) (\<lambda>r2. bind_h (random_h w) (\<lambda>r3.
        let state = random_token (aw_oidc w) r1; nonce = random_token (aw_oidc w) r2;
            (verifier, challenge) = pkce_generate (aw_oidc w) (aw_sha256 w) r3;
            uri = redirect_uri config request_origin
        in case ol_authorize_url (aw_oidc w) (di_authorization_endpoint document)
                  [(''response_type'', ''code''), (''client_id'', oc_client_id config), (''redirect_uri'', uri),
                   (''scope'', oc_scopes config), (''state'', state), (''nonce'', nonce),
                   (''code_challenge'', challenge), (''code_challenge_method'', ''S256'')] of
             None \<Rightarrow> fail_f FeProviderUnreachable
           | Some url \<Rightarrow>
               bind_h (instant_h w) (\<lambda>now.
               seq_h (sso_h (\<lambda>m. ((), sso_insert m state
                 \<lparr>sp_nonce = nonce, sp_verifier = verifier, sp_redirect_uri = uri, sp_redirect = redirect, sp_started_at = now\<rparr> now)))
               (return_f (url, state))))))))"

record callback_params =
  cp_code :: "string option"
  cp_state :: "string option"
  cp_error :: "string option"
  cp_error_description :: "string option"

definition flow_finish ::
  "'n auth_world \<Rightarrow> oidc_config \<Rightarrow> callback_params \<Rightarrow> (flow_error + (user \<times> string option)) handler" where
  "flow_finish w config params =
     bind_h (case cp_state params of
               None \<Rightarrow> return_h None
             | Some state \<Rightarrow> bind_h (instant_h w) (\<lambda>now. sso_h (\<lambda>m. sso_take m state now))) (\<lambda>taken.
     case taken of
       None \<Rightarrow> fail_f FeState
     | Some p \<Rightarrow>
         (case cp_error params of
            Some error \<Rightarrow>
              fail_f (FeDenied (trim (error @ '' '' @ (case cp_error_description params of None \<Rightarrow> [] | Some d \<Rightarrow> d))))
          | None \<Rightarrow>
              (case (case cp_code params of Some c \<Rightarrow> if c = [] then None else Some c | None \<Rightarrow> None) of
                 None \<Rightarrow> fail_f FeState
               | Some code \<Rightarrow>
                   if \<not> oidc_enabled config then fail_f FeNotConfigured
                   else
                     bind_f (discovery_get w (oc_issuer config)) (\<lambda>document.
                     bind_f (exchange_code w config document code p) (\<lambda>id_token.
                     bind_f (validate_with_jwks w config document id_token (sp_nonce p)) (\<lambda>claims.
                     bind_f (map_identity w config claims) (\<lambda>u.
                     seq_h (remember_configured True)
                     (if us_disabled u then fail_f FeDisabled
                      else bind_f (lift_f (exec_h w (\<lambda>now. touch_login now (us_id u)))) (\<lambda>_.
                             return_f (u, sp_redirect p))))))))))"

end
