(* ===== verification/Auth_Handlers.thy ===== *)
theory Auth_Handlers
  imports Oidc_Flow
begin

text \<open>
  The routes of authentication: first configuration, sign-in, sign-out and change of password
  (\<^verbatim>\<open>crates/server/src/api/auth.rs\<close>), the second factor (\<^verbatim>\<open>api/totp.rs\<close>), the accounts (\<^verbatim>\<open>api/users.rs\<close>) and the API
  tokens (\<^verbatim>\<open>api/tokens.rs\<close>). A handler receives what the extractors established: the address of the client, the account
  of the session, its token. Errors of the token routes are those of \<^verbatim>\<open>ApiError\<close>; they have the statuses of the
  constructors used for them here. Log lines are left out.
\<close>

section \<open>Passwords and attempts\<close>

definition MIN_LENGTH :: nat where
  "MIN_LENGTH = 12"

definition password_validate :: "string \<Rightarrow> auth_error + unit" where
  "password_validate password =
     (if chars_count password < MIN_LENGTH
      then Inl (AeInvalid (''The password must be at least '' @ show_nat MIN_LENGTH @ '' characters long.''))
      else Inr ())"

definition password_hash_h :: "'n auth_world \<Rightarrow> string \<Rightarrow> string handler" where
  "password_hash_h w password =
     bind_h (random_h w) (\<lambda>salt.
       case aw_argon_hash w password salt of None \<Rightarrow> fail_h AeInternal | Some hash \<Rightarrow> return_h hash)"

definition password_verify_h :: "'n auth_world \<Rightarrow> string \<Rightarrow> string \<Rightarrow> bool handler" where
  "password_verify_h w password stored =
     (case aw_argon_verify w password stored of None \<Rightarrow> fail_h AeInternal | Some ok \<Rightarrow> return_h ok)"

text \<open>A zero byte followed by \<^verbatim>\<open>setup\<close>.\<close>

definition SETUP_BUCKET :: string where
  "SETUP_BUCKET = char_of (0 :: nat) # ''setup''"

definition limiter_keys :: "'n auth_world \<Rightarrow> ip_addr option \<Rightarrow> string option \<Rightarrow> limiter_key list" where
  "limiter_keys w ip username =
     (case ip of None \<Rightarrow> [] | Some a \<Rightarrow> [KeyIp a]) @
     [key_user (aw_lower w) (case username of None \<Rightarrow> [] | Some name \<Rightarrow> name) ip]"

definition guard_attempt :: "'n auth_world \<Rightarrow> limiter_key list \<Rightarrow> unit handler" where
  "guard_attempt w keys =
     bind_h (instant_h w) (\<lambda>now.
     bind_h (limiter_h (\<lambda>b. (buckets_check b keys now, b))) (\<lambda>verdict.
       case verdict of
         Inr _ \<Rightarrow> return_h ()
       | Inl retry_after \<Rightarrow>
           fail_h (AeTooManyAttempts
             (''Too many failed attempts. Try again in '' @ show_nat retry_after @ '' seconds.'') retry_after)))"

definition attempt_failed :: "'n auth_world \<Rightarrow> limiter_key list \<Rightarrow> unit handler" where
  "attempt_failed w keys =
     bind_h (instant_h w) (\<lambda>now. limiter_h (\<lambda>b. ((), buckets_failure b keys now)))"

definition attempt_succeeded :: "limiter_key list \<Rightarrow> unit handler" where
  "attempt_succeeded keys = limiter_h (\<lambda>b. ((), buckets_success b keys))"

section \<open>First configuration and sign-in\<close>

definition already_configured :: auth_error where
  "already_configured = AeConflict ''This instance already has an admin account. Sign in, then manage users from the settings.''"

text \<open>\<^verbatim>\<open>username.as_deref().map(str::trim).filter(|name| !name.is_empty())\<close>.\<close>

definition given_name :: "string option \<Rightarrow> string option" where
  "given_name username =
     (case username of None \<Rightarrow> None | Some name \<Rightarrow> if trim name = [] then None else Some (trim name))"

definition invalid_h :: "string + unit \<Rightarrow> unit handler" where
  "invalid_h r = (case r of Inl message \<Rightarrow> fail_h (AeInvalid message) | Inr _ \<Rightarrow> return_h ())"

definition setup_h :: "'n auth_world \<Rightarrow> ip_addr option \<Rightarrow> string \<Rightarrow> string option \<Rightarrow> string \<Rightarrow> unit handler" where
  "setup_h w ip setup_code username password =
     bind_h (is_configured w) (\<lambda>configured.
     if configured then fail_h already_configured
     else
       let keys = KeyUser SETUP_BUCKET None # (case ip of None \<Rightarrow> [] | Some a \<Rightarrow> [KeyIp a]) in
       seq_h (guard_attempt w keys)
       (if \<not> setup_matches (aw_sha256 w) (aw_setup_code w) setup_code
        then
          seq_h (attempt_failed w keys)
          (seq_h (audit_h w None ''setup.failed'' None ip)
          (fail_h (AeUnauthorized ''Wrong setup code. It is printed in the server logs at startup (docker compose logs dumbmonit) and changes at every restart.'')))
        else
          seq_h (attempt_succeeded keys)
          (let username = (case given_name username of None \<Rightarrow> ''admin'' | Some name \<Rightarrow> name) in
          seq_h (invalid_h (validate_username username))
          (seq_h (lift_h (password_validate password))
          (bind_h (password_hash_h w password) (\<lambda>hash.
          bind_h (sql_h w (\<lambda>now db. Some (insert_first_admin now username hash db))) (\<lambda>created.
          if \<not> created then seq_h (remember_configured True) (fail_h already_configured)
          else remember_configured True)))))))"

definition session_create :: "'n auth_world \<Rightarrow> int \<Rightarrow> session_token handler" where
  "session_create w user_id =
     bind_h (random_h w) (\<lambda>random.
     let token = session_generate random in
     bind_h (utc_h w) (\<lambda>now.
     seq_h (sql_h w (\<lambda>_ db. map_option (\<lambda>db'. ((), db')) (session_insert (aw_sha256 w) token now user_id db)))
     (bind_h (utc_h w) (\<lambda>now'.
     seq_h (exec_h w (\<lambda>_. purge_expired now'))
     (return_h token)))))"

definition open_session :: "'n auth_world \<Rightarrow> user \<Rightarrow> ip_addr option \<Rightarrow> string handler" where
  "open_session w user ip =
     bind_h (session_create w (us_id user)) (\<lambda>token.
     seq_h (exec_h w (\<lambda>now. touch_login now (us_id user)))
     (seq_h (audit_h w (Some (us_username user)) ''login'' None ip)
     (return_h (cookie_set token (aw_cookie_secure w)))))"

text \<open>A sign-in ends with a cookie, or half-way with the token that waits for a code.\<close>

datatype login_response = LrSession string | LrTotpRequired string

definition DUMMY_HASH :: string where
  "DUMMY_HASH = ''$argon2id$v=19$m=19456,t=2,p=1$c2VsLWRlLXJlbXBsaXNzYWdl$Yl2wR9v5N4FSGz8m2q4y3Hc1yq0x0eE6Xk1wJ9Q7Kf0''"

fun is_ip_key :: "limiter_key \<Rightarrow> bool" where
  "is_ip_key (KeyIp _) = True"
| "is_ip_key (KeyUser _ _) = False"

definition login_keys :: "'n auth_world \<Rightarrow> ip_addr option \<Rightarrow> string option \<Rightarrow> limiter_key list" where
  "login_keys w ip username =
     (let keys = limiter_keys w ip username in if aw_demo w then filter is_ip_key keys else keys)"

definition login :: "'n auth_world \<Rightarrow> ip_addr option \<Rightarrow> string option \<Rightarrow> string \<Rightarrow> login_response handler" where
  "login w ip username password =
     bind_h (is_configured w) (\<lambda>configured.
     if \<not> configured then fail_h (AeConflict ''No account has been created on this instance yet.'')
     else
       let username = given_name username; keys = login_keys w ip username in
       seq_h (guard_attempt w keys)
       (bind_h (query_h w (case username of Some name \<Rightarrow> by_username name | None \<Rightarrow> sole_password_user)) (\<lambda>user.
       let stored = (case user of
                       Some u \<Rightarrow> if us_disabled u then DUMMY_HASH
                                 else (case us_password_hash u of Some h \<Rightarrow> h | None \<Rightarrow> DUMMY_HASH)
                     | None \<Rightarrow> DUMMY_HASH) in
       bind_h (password_verify_h w password stored) (\<lambda>verified.
       case (case user of
               Some u \<Rightarrow> if \<not> us_disabled u \<and> us_password_hash u \<noteq> None \<and> verified then Some u else None
             | None \<Rightarrow> None) of
         None \<Rightarrow>
           seq_h (attempt_failed w keys)
           (seq_h (audit_h w username ''login.failed'' None ip)
           (fail_h (AeUnauthorized (if username \<noteq> None then ''Wrong username or password.'' else ''Wrong password.''))))
       | Some u \<Rightarrow>
           if us_totp_enabled u \<and> us_totp_secret u \<noteq> None
           then
             bind_h (instant_h w) (\<lambda>now.
             bind_h (random_h w) (\<lambda>random.
             let token = hex_encode (map random [0..<32]) in
             pending_h (\<lambda>p. (LrTotpRequired token, pending_start p token (us_id u) now))))
           else
             seq_h (attempt_succeeded keys)
             (bind_h (open_session w u ip) (\<lambda>cookie. return_h (LrSession cookie)))))))"

definition logout :: "'n auth_world \<Rightarrow> session_token option \<Rightarrow> string handler" where
  "logout w current =
     seq_h (case current of None \<Rightarrow> return_h () | Some token \<Rightarrow> exec_h w (\<lambda>_. session_delete (st_id token)))
       (return_h (cookie_clear (aw_cookie_secure w)))"

definition change_password ::
  "'n auth_world \<Rightarrow> user \<Rightarrow> session_token option \<Rightarrow> ip_addr option \<Rightarrow> string \<Rightarrow> string \<Rightarrow> unit handler" where
  "change_password w user current ip current_password new_password =
     (case us_password_hash user of
        None \<Rightarrow> fail_h (AeConflict ''This account signs in through the identity provider: there is no password to change.'')
      | Some stored \<Rightarrow>
          let keys = limiter_keys w ip (Some (us_username user)) in
          seq_h (guard_attempt w keys)
          (bind_h (password_verify_h w current_password stored) (\<lambda>verified.
          if \<not> verified
          then seq_h (attempt_failed w keys) (fail_h (AeUnauthorized ''Current password is wrong.''))
          else
            seq_h (attempt_succeeded keys)
            (seq_h (lift_h (password_validate new_password))
            (bind_h (password_hash_h w new_password) (\<lambda>hash.
            seq_h (exec_h w (\<lambda>_. set_password_hash (us_id user) hash))
            (seq_h (sql_h w (\<lambda>_ db. Some (delete_for_user (us_id user) (map_option st_id current) db)))
            (audit_h w (Some (us_username user)) ''password.changed'' None ip))))))))"

section \<open>The second factor\<close>

definition check_password :: "'n auth_world \<Rightarrow> user \<Rightarrow> ip_addr option \<Rightarrow> string \<Rightarrow> unit handler" where
  "check_password w user ip given =
     (case us_password_hash user of
        None \<Rightarrow> fail_h (AeConflict ''Two-factor authentication applies to password sign-in; this account signs in through the identity provider.'')
      | Some stored \<Rightarrow>
          let keys = limiter_keys w ip (Some (us_username user)) in
          seq_h (guard_attempt w keys)
          (bind_h (password_verify_h w given stored) (\<lambda>verified.
          if \<not> verified then seq_h (attempt_failed w keys) (fail_h (AeUnauthorized ''Wrong password.''))
          else attempt_succeeded keys)))"

record enrolment =
  en_secret :: string
  en_otpauth_uri :: string
  en_issuer :: string
  en_account :: string

definition ISSUER :: string where
  "ISSUER = ''DumbMonit''"

definition totp_enroll :: "'n auth_world \<Rightarrow> user \<Rightarrow> ip_addr option \<Rightarrow> string \<Rightarrow> enrolment handler" where
  "totp_enroll w user ip password =
     (if us_totp_enabled user
      then fail_h (AeConflict ''Two-factor authentication is already enabled: disable it first to enrol a new device.'')
      else
        seq_h (check_password w user ip password)
        (bind_h (random_h w) (\<lambda>random.
        let secret = map random [0..<20] in
        bind_h (random_h w) (\<lambda>nonce.
        case cipher_encrypt (aw_cipher w) (map nonce [0..<NONCE_LEN]) secret of
          Inl _ \<Rightarrow> fail_h AeInternal
        | Inr encrypted \<Rightarrow>
            seq_h (exec_h w (\<lambda>_. set_totp_pending (us_id user) encrypted))
            (return_h \<lparr>en_secret = encode_base32 secret, en_otpauth_uri = otpauth_uri ISSUER (us_username user) secret,
                       en_issuer = ISSUER, en_account = us_username user\<rparr>)))))"

text \<open>\<^verbatim>\<open>totp::matching_step\<close>: the wall clock in whole seconds, zero before the epoch.\<close>

definition matching_step_h :: "'n auth_world \<Rightarrow> bytes \<Rightarrow> string \<Rightarrow> int option handler" where
  "matching_step_h w secret code =
     bind_h (utc_h w) (\<lambda>now. return_h (matching_step_at (aw_hmac w) secret code (whole_seconds (max 0 now))))"

definition decrypt_h :: "'n auth_world \<Rightarrow> bytes \<Rightarrow> bytes handler" where
  "decrypt_h w data = (case cipher_decrypt (aw_cipher w) data of Inl _ \<Rightarrow> fail_h AeInternal | Inr plain \<Rightarrow> return_h plain)"

definition totp_verify :: "'n auth_world \<Rightarrow> user \<Rightarrow> ip_addr option \<Rightarrow> string \<Rightarrow> string list handler" where
  "totp_verify w user ip code =
     (if us_totp_enabled user then fail_h (AeConflict ''Two-factor authentication is already enabled.'')
      else case us_totp_secret user of
          None \<Rightarrow> fail_h (AeConflict ''Start the enrolment first.'')
        | Some encrypted \<Rightarrow>
            let keys = limiter_keys w ip (Some (us_username user)) in
            seq_h (guard_attempt w keys)
            (bind_h (decrypt_h w encrypted) (\<lambda>secret.
            bind_h (matching_step_h w secret code) (\<lambda>matched.
            case matched of
              None \<Rightarrow>
                seq_h (attempt_failed w keys)
                (fail_h (AeUnauthorized ''That code is not valid. Check the clock of your device and try the next code.''))
            | Some step \<Rightarrow>
                seq_h (attempt_succeeded keys)
                (seq_h (replay_h (\<lambda>g. replay_accept (replay_forget g (us_id user)) (us_id user) step))
                (bind_h (random_h w) (\<lambda>random.
                let codes = generate_recovery_codes random in
                seq_h (exec_h w (\<lambda>_. replace_recovery_codes (us_id user) (map (hash_recovery_code (aw_sha256 w)) codes)))
                (seq_h (exec_h w (\<lambda>_. set_totp_enabled (us_id user)))
                (seq_h (audit_h w (Some (us_username user)) ''totp.enabled'' None ip)
                (return_h codes))))))))))"

definition totp_disable :: "'n auth_world \<Rightarrow> user \<Rightarrow> ip_addr option \<Rightarrow> string \<Rightarrow> unit handler" where
  "totp_disable w user ip password =
     seq_h (check_password w user ip password)
     (seq_h (exec_h w (\<lambda>_. clear_totp (us_id user)))
     (seq_h (replay_h (\<lambda>g. ((), replay_forget g (us_id user))))
     (audit_h w (Some (us_username user)) ''totp.disabled'' None ip)))"

definition totp_admin_reset :: "'n auth_world \<Rightarrow> user \<Rightarrow> ip_addr option \<Rightarrow> int \<Rightarrow> unit handler" where
  "totp_admin_reset w me ip i =
     bind_h (query_h w (users_get i)) (\<lambda>found.
     case found of
       None \<Rightarrow> fail_h (AeNotFound ''No such user.'')
     | Some user \<Rightarrow>
         seq_h (exec_h w (\<lambda>_. clear_totp i))
         (seq_h (replay_h (\<lambda>g. ((), replay_forget g i)))
         (seq_h (sql_h w (\<lambda>_ db. Some (delete_for_user i None db)))
         (audit_h w (Some (us_username me)) ''totp.reset'' (Some (us_username user)) ip))))"

definition login_expired :: auth_error where
  "login_expired = AeUnauthorized ''This sign-in attempt has expired: enter your password again.''"

text \<open>Whether the code presented is good: a recovery code is consumed, a time-based one is remembered.\<close>

definition second_factor :: "'n auth_world \<Rightarrow> user \<Rightarrow> ip_addr option \<Rightarrow> string \<Rightarrow> bool handler" where
  "second_factor w user ip code =
     (if looks_like_recovery_code code
      then
        bind_h (sql_h w (\<lambda>now db. Some (consume_recovery_code now (us_id user) (hash_recovery_code (aw_sha256 w) code) db))) (\<lambda>used.
        seq_h (when_h used (audit_h w (Some (us_username user)) ''totp.recovery_used'' None ip))
        (return_h used))
      else case us_totp_secret user of
          None \<Rightarrow> fail_h login_expired
        | Some encrypted \<Rightarrow>
            bind_h (decrypt_h w encrypted) (\<lambda>secret.
            bind_h (matching_step_h w secret code) (\<lambda>matched.
            case matched of
              Some step \<Rightarrow> replay_h (\<lambda>g. replay_accept g (us_id user) step)
            | None \<Rightarrow> return_h False)))"

definition login_step :: "'n auth_world \<Rightarrow> ip_addr option \<Rightarrow> string \<Rightarrow> string \<Rightarrow> string handler" where
  "login_step w ip pending code =
     bind_h (instant_h w) (\<lambda>now.
     bind_h (pending_h (\<lambda>p. pending_lookup p pending now)) (\<lambda>outcome.
     case outcome of
       LoUnknown \<Rightarrow> fail_h login_expired
     | LoCandidate user_id \<Rightarrow>
         bind_h (query_h w (users_get user_id)) (\<lambda>found.
         case (case found of Some u \<Rightarrow> if \<not> us_disabled u \<and> us_totp_enabled u then Some u else None | None \<Rightarrow> None) of
           None \<Rightarrow> fail_h login_expired
         | Some user \<Rightarrow>
             let keys = limiter_keys w ip (Some (us_username user)) in
             seq_h (guard_attempt w keys)
             (bind_h (second_factor w user ip code) (\<lambda>accepted.
             if \<not> accepted
             then
               seq_h (attempt_failed w keys)
               (bind_h (pending_h (\<lambda>p. pending_failure p pending)) (\<lambda>worn_out.
               seq_h (audit_h w (Some (us_username user)) ''totp.failed'' None ip)
               (fail_h (AeUnauthorized
                 (if worn_out then ''Too many wrong codes: enter your password again to start over.''
                  else ''Wrong code.'')))))
             else
               seq_h (attempt_succeeded keys)
               (seq_h (pending_h (\<lambda>p. ((), pending_finish p pending)))
               (open_session w user ip)))))))"

section \<open>Accounts\<close>

definition load_user :: "'n auth_world \<Rightarrow> int \<Rightarrow> user handler" where
  "load_user w i =
     bind_h (query_h w (users_get i)) (\<lambda>found.
     case found of None \<Rightarrow> fail_h (AeNotFound ''No such user.'') | Some u \<Rightarrow> return_h u)"

definition last_admin_error :: auth_error where
  "last_admin_error = AeConflict ''This is the last admin: promote another user first.''"

definition user_create ::
  "'n auth_world \<Rightarrow> user \<Rightarrow> ip_addr option \<Rightarrow> string \<Rightarrow> string option \<Rightarrow> role \<Rightarrow> string option \<Rightarrow> user handler" where
  "user_create w me ip username display_name role password =
     (let username = trim username in
      seq_h (invalid_h (validate_username username))
      (bind_h
        (case (case password of Some p \<Rightarrow> if p = [] then None else Some p | None \<Rightarrow> None) of
           Some password \<Rightarrow>
             seq_h (lift_h (password_validate password))
             (bind_h (password_hash_h w password) (\<lambda>hash. return_h (Some hash)))
         | None \<Rightarrow>
             bind_h (oidc_resolve w) (\<lambda>resolved.
             if \<not> oidc_enabled (rc_config resolved)
             then fail_h (AeInvalid ''Set a password: single sign-on is not enabled, so this user could not sign in otherwise.'')
             else return_h None)) (\<lambda>hash.
      bind_h (sql_h w (\<lambda>now. users_insert now
         \<lparr>nu_username = username, nu_display_name = trim (case display_name of None \<Rightarrow> [] | Some d \<Rightarrow> d), nu_role = role,
          nu_password_hash = hash, nu_oidc = None\<rparr>)) (\<lambda>created.
      case created of
        None \<Rightarrow> fail_h (AeConflict (''A user named '' @ quoted username @ '' already exists.''))
      | Some i \<Rightarrow>
          bind_h (load_user w i) (\<lambda>user.
          seq_h (audit_h w (Some (us_username me)) ''user.created'' (Some (us_username user)) ip)
          (return_h user))))))"

record update_payload =
  up_display_name :: "string option"
  up_role :: "role option"
  up_disabled :: "bool option"
  up_password :: "string option"

text \<open>\<^verbatim>\<open>update\<close> is its checks, then its writes.\<close>

definition loses_admin :: "user \<Rightarrow> update_payload \<Rightarrow> bool" where
  "loses_admin user payload =
     (role_is_admin (us_role user) \<and> \<not> us_disabled user \<and>
      ((case up_role payload of None \<Rightarrow> False | Some role \<Rightarrow> \<not> role_is_admin role) \<or> up_disabled payload = Some True))"

definition update_checks :: "'n auth_world \<Rightarrow> user \<Rightarrow> int \<Rightarrow> update_payload \<Rightarrow> user handler" where
  "update_checks w me i payload =
     bind_h (load_user w i) (\<lambda>user.
     bind_h (if loses_admin user payload
             then bind_h (query_h w active_admin_count) (\<lambda>n. return_h (n \<le> 1)) else return_h False) (\<lambda>refused.
     if refused then fail_h last_admin_error
     else if up_disabled payload = Some True \<and> us_id user = us_id me
     then fail_h (AeConflict ''You cannot disable your own account.'')
     else return_h user))"

definition update_writes :: "'n auth_world \<Rightarrow> user \<Rightarrow> ip_addr option \<Rightarrow> int \<Rightarrow> update_payload \<Rightarrow> user \<Rightarrow> user handler" where
  "update_writes w me ip i payload user =
     seq_h (case up_display_name payload of
              None \<Rightarrow> return_h () | Some name \<Rightarrow> exec_h w (\<lambda>_. set_display_name i (trim name)))
     (seq_h (case up_role payload of
               None \<Rightarrow> return_h ()
             | Some role \<Rightarrow> when_h (role \<noteq> us_role user) (exec_h w (\<lambda>_. set_role i role)))
     (seq_h (case (case up_password payload of Some p \<Rightarrow> if p = [] then None else Some p | None \<Rightarrow> None) of
               None \<Rightarrow> return_h ()
             | Some password \<Rightarrow>
                 seq_h (lift_h (password_validate password))
                 (bind_h (password_hash_h w password) (\<lambda>hash.
                 seq_h (exec_h w (\<lambda>_. set_password_hash i hash))
                 (seq_h (sql_h w (\<lambda>_ db. Some (delete_for_user i None db)))
                 (return_h ())))))
     (seq_h (case up_disabled payload of
               None \<Rightarrow> return_h ()
             | Some disabled \<Rightarrow>
                 when_h (disabled \<noteq> us_disabled user)
                   (seq_h (exec_h w (\<lambda>_. set_disabled i disabled))
                   (when_h disabled (seq_h (sql_h w (\<lambda>_ db. Some (delete_for_user i None db))) (return_h ())))))
     (bind_h (load_user w i) (\<lambda>user.
     seq_h (audit_h w (Some (us_username me)) ''user.updated'' (Some (us_username user)) ip)
     (return_h user))))))"

definition user_update :: "'n auth_world \<Rightarrow> user \<Rightarrow> ip_addr option \<Rightarrow> int \<Rightarrow> update_payload \<Rightarrow> user handler" where
  "user_update w me ip i payload = bind_h (update_checks w me i payload) (update_writes w me ip i payload)"

definition user_delete :: "'n auth_world \<Rightarrow> user \<Rightarrow> ip_addr option \<Rightarrow> int \<Rightarrow> unit handler" where
  "user_delete w me ip i =
     bind_h (load_user w i) (\<lambda>user.
     if us_id user = us_id me
     then fail_h (AeConflict ''You cannot delete your own account. Ask another admin to do it.'')
     else
       bind_h (if role_is_admin (us_role user) \<and> \<not> us_disabled user
               then bind_h (query_h w active_admin_count) (\<lambda>n. return_h (n \<le> 1)) else return_h False) (\<lambda>refused.
       if refused then fail_h last_admin_error
       else
         seq_h (exec_h w (\<lambda>now. users_delete now i))
         (audit_h w (Some (us_username me)) ''user.deleted'' (Some (us_username user)) ip)))"

section \<open>API tokens\<close>

definition MAX_NAME_LEN :: nat where
  "MAX_NAME_LEN = 80"

record token_payload =
  tp_name :: string
  tp_scope :: "string option"
  tp_expires_in_days :: "int option"
  tp_allowed_networks :: "string list"

definition requested_scope :: "string option \<Rightarrow> auth_error + scope" where
  "requested_scope raw =
     (case given_name raw of
        None \<Rightarrow> Inr ScRead
      | Some raw \<Rightarrow>
          (case scope_parse raw of
             Some scope \<Rightarrow> Inr scope
           | None \<Rightarrow> Inl (AeInvalid (''Unknown scope '' @ quoted raw @ '' (expected: read, write).''))))"

definition tokens_create :: "'n auth_world \<Rightarrow> user \<Rightarrow> ip_addr option \<Rightarrow> token_payload \<Rightarrow> (token_record \<times> string) handler" where
  "tokens_create w me ip payload =
     (let name = trim (tp_name payload) in
      if name = [] then fail_h (AeInvalid ''Token name is required.'')
      else if chars_count name > MAX_NAME_LEN
      then fail_h (AeInvalid (''Token name is limited to '' @ show_nat MAX_NAME_LEN @ '' characters.''))
      else
        bind_h (lift_h (requested_scope (tp_scope payload))) (\<lambda>scope.
        bind_h (case tp_expires_in_days payload of
                  None \<Rightarrow> return_h None
                | Some n \<Rightarrow>
                    if 1 \<le> n \<and> n \<le> MAX_EXPIRY_DAYS
                    then bind_h (utc_h w) (\<lambda>now. return_h (Some (now + days n)))
                    else fail_h (AeInvalid (quoted ''expires_in_days'' @ '' must be between 1 and '' @ show_int MAX_EXPIRY_DAYS @
                      '', or null for a token that never expires.''))) (\<lambda>expires_at.
        bind_h (case parse_networks (aw_net w) (tp_allowed_networks payload) of
                  Inl message \<Rightarrow> fail_h (AeInvalid message) | Inr nets \<Rightarrow> return_h nets) (\<lambda>nets.
        bind_h (token_create w \<lparr>nt_name = name, nt_scope = scope, nt_user_id = Some (us_id me),
                                nt_expires_at = expires_at, nt_networks = nets\<rparr>) (\<lambda>(record, secret).
        seq_h (audit_h w (Some (us_username me)) ''token.created'' (Some (tr_name record)) ip)
        (return_h (record, secret)))))))"

definition tokens_revoke :: "'n auth_world \<Rightarrow> user \<Rightarrow> ip_addr option \<Rightarrow> int \<Rightarrow> unit handler" where
  "tokens_revoke w me ip i =
     bind_h (token_revoke w i) (\<lambda>revoked.
     if revoked then audit_h w (Some (us_username me)) ''token.revoked'' (Some (show_int i)) ip
     else fail_h (AeNotFound (''Token '' @ show_int i @ '' not found or already revoked.'')))"

end
