(* ===== verification/Oidc_Routes.thy ===== *)
theory Oidc_Routes
  imports Auth_Handlers
begin

text \<open>
  The routes of single sign-on (\<^verbatim>\<open>crates/server/src/api/oidc.rs\<close>): the two navigations, with the cookie that binds an attempt
  to its browser, and the settings. An answer to a navigation is where it leads and the cookies it sets.
\<close>

section \<open>The browser of an attempt\<close>

definition BINDING_COOKIE :: string where
  "BINDING_COOKIE = ''dumbmonit_oidc''"

definition BINDING_MAX_AGE_SECS :: nat where
  "BINDING_MAX_AGE_SECS = 600"

definition state_fingerprint :: "(bytes \<Rightarrow> bytes) \<Rightarrow> string \<Rightarrow> string" where
  "state_fingerprint sha256 state = hex_encode (sha256 (str_bytes state))"

definition binding_cookie :: "(bytes \<Rightarrow> bytes) \<Rightarrow> string \<Rightarrow> bool \<Rightarrow> string" where
  "binding_cookie sha256 state secure =
     BINDING_COOKIE @ ''='' @ state_fingerprint sha256 state @
     ''; Path=/api/auth/oidc; HttpOnly; SameSite=Lax; Max-Age='' @ show_nat BINDING_MAX_AGE_SECS @
     (if secure then ''; Secure'' else [])"

definition clear_binding_cookie :: "bool \<Rightarrow> string" where
  "clear_binding_cookie secure =
     BINDING_COOKIE @ ''=; Path=/api/auth/oidc; HttpOnly; SameSite=Lax; Max-Age=0'' @ (if secure then ''; Secure'' else [])"

definition binding_matches :: "(bytes \<Rightarrow> bytes) \<Rightarrow> header_map \<Rightarrow> string option \<Rightarrow> bool" where
  "binding_matches sha256 headers state =
     (case state of
        None \<Rightarrow> False
      | Some state \<Rightarrow>
          list_ex (\<lambda>(name, value). name = BINDING_COOKIE \<and> value = state_fingerprint sha256 state)
            (List.map_filter (\<lambda>pair. split_once (CHR ''='') (trim pair))
              (concat (map (split_on (CHR '';'')) (get_all headers ''cookie'')))))"

section \<open>Where a navigation may lead\<close>

definition is_internal_path :: "oidc_lib \<Rightarrow> string \<Rightarrow> bool" where
  "is_internal_path ol path =
     (case path of
        [] \<Rightarrow> False
      | c # rest \<Rightarrow>
          c = CHR ''/'' \<and> (case rest of [] \<Rightarrow> True | d # _ \<Rightarrow> d \<noteq> CHR ''/'' \<and> d \<noteq> CHR 0x5C) \<and>
          \<not> has_control path \<and> CHR 0x5C \<notin> set path \<and> ol_joined_host ol path = Some ''internal.invalid'')"

definition request_origin :: "header_map \<Rightarrow> bool \<Rightarrow> string" where
  "request_origin headers behind_trusted_proxy =
     (let text = (\<lambda>name. map_option trim (get_str headers name));
          forwarded = (\<lambda>name. if behind_trusted_proxy
             then map_option (\<lambda>v. trim (hd (split_on (CHR '','') v))) (text name) else None);
          scheme = (case forwarded ''x-forwarded-proto'' of
             Some s \<Rightarrow> if s = ''https'' \<or> s = ''http'' then s else ''http'' | None \<Rightarrow> ''http'');
          host = (case (case forwarded ''x-forwarded-host'' of Some h \<Rightarrow> if h = [] then None else Some h | None \<Rightarrow> None) of
             Some h \<Rightarrow> h
           | None \<Rightarrow> (case text ''host'' of Some h \<Rightarrow> h | None \<Rightarrow> ''localhost:8080''))
      in scheme @ ''://'' @ host)"

definition origin_of :: "'n auth_world \<Rightarrow> request \<Rightarrow> string" where
  "origin_of w rq =
     request_origin (rq_headers rq)
       (case rq_peer rq of None \<Rightarrow> False | Some peer \<Rightarrow> in_nets (aw_net w) (aw_trusted w) peer)"

section \<open>Navigations\<close>

datatype navigation = NvRedirect string "string list" | NvFailure string

definition nav_failure :: "flow_error \<Rightarrow> navigation" where
  "nav_failure e = NvFailure (''/login?error=oidc&reason='' @ flow_reason e)"

definition sso_start :: "'n auth_world \<Rightarrow> request \<Rightarrow> string option \<Rightarrow> navigation handler" where
  "sso_start w rq redirect =
     bind_h (attempt_h (oidc_resolve w)) (\<lambda>resolved.
     case resolved of
       Inl _ \<Rightarrow> return_h (nav_failure FeInternal)
     | Inr r \<Rightarrow>
         bind_h (flow_start w (rc_config r) (origin_of w rq)
           (case redirect of Some p \<Rightarrow> if is_internal_path (aw_oidc w) p then Some p else None | None \<Rightarrow> None)) (\<lambda>started.
         return_h (case started of
           Inl e \<Rightarrow> nav_failure e
         | Inr (url, state) \<Rightarrow> NvRedirect url [binding_cookie (aw_sha256 w) state (aw_cookie_secure w)])))"

definition sso_callback :: "'n auth_world \<Rightarrow> request \<Rightarrow> callback_params \<Rightarrow> navigation handler" where
  "sso_callback w rq params =
     (if \<not> binding_matches (aw_sha256 w) (rq_headers rq) (cp_state params) then return_h (nav_failure FeState)
      else
        bind_h (attempt_h (oidc_resolve w)) (\<lambda>resolved.
        case resolved of
          Inl _ \<Rightarrow> return_h (nav_failure FeInternal)
        | Inr r \<Rightarrow>
            bind_h (flow_finish w (rc_config r) params) (\<lambda>finished.
            case finished of
              Inl e \<Rightarrow> return_h (nav_failure e)
            | Inr (u, redirect) \<Rightarrow>
                bind_h (attempt_h (session_create w (us_id u))) (\<lambda>created.
                return_h (case created of
                  Inl _ \<Rightarrow> nav_failure FeInternal
                | Inr token \<Rightarrow>
                    NvRedirect (case redirect of None \<Rightarrow> ''/'' | Some path \<Rightarrow> path)
                      [cookie_set token (aw_cookie_secure w), clear_binding_cookie (aw_cookie_secure w)])))))"

section \<open>Settings\<close>

record config_payload =
  pl_issuer :: string
  pl_client_id :: string
  pl_client_secret :: "string option"
  pl_provider_name :: string
  pl_scopes :: string
  pl_auto_create :: bool
  pl_admin_groups :: "string list"
  pl_operator_groups :: "string list"
  pl_groups_claim :: string
  pl_public_url :: string

definition payload_config :: "config_payload \<Rightarrow> oidc_config" where
  "payload_config p = oidc_normalized
     \<lparr>oc_issuer = pl_issuer p, oc_client_id = pl_client_id p,
      oc_client_secret = (case pl_client_secret p of None \<Rightarrow> [] | Some s \<Rightarrow> s), oc_provider_name = pl_provider_name p,
      oc_scopes = pl_scopes p, oc_auto_create = pl_auto_create p, oc_admin_groups = pl_admin_groups p,
      oc_operator_groups = pl_operator_groups p, oc_groups_claim = pl_groups_claim p, oc_public_url = pl_public_url p\<rparr>"

definition sso_put_config :: "'n auth_world \<Rightarrow> config_payload \<Rightarrow> resolved_config handler" where
  "sso_put_config w payload =
     (let config = payload_config payload in
      if oc_issuer config \<noteq> [] \<and> \<not> starts_with (oc_issuer config) ''https://'' \<and>
         \<not> (aw_oidc_allow_http w \<and> starts_with (oc_issuer config) ''http://'')
      then fail_h (AeInvalid ''The issuer must be a URL starting with https:// (set DUMBMONIT_OIDC_ALLOW_HTTP=1 to allow a plain-HTTP provider for testing).'')
      else if oc_public_url config \<noteq> [] \<and>
         \<not> (starts_with (oc_public_url config) ''https://'' \<or> starts_with (oc_public_url config) ''http://'')
      then fail_h (AeInvalid ''The public URL must start with http:// or https://.'')
      else
        seq_h (oidc_save w config)
        (seq_h (discovery_h (\<lambda>_. ((), None)))
        (oidc_resolve w)))"

definition sso_delete_config :: "'n auth_world \<Rightarrow> resolved_config handler" where
  "sso_delete_config w = seq_h (oidc_clear w) (seq_h (discovery_h (\<lambda>_. ((), None))) (oidc_resolve w))"

end
