(* ===== verification/Auth_Routes.thy ===== *)
theory Auth_Routes
  imports Oidc_Routes
begin

text \<open>
  The authentication routes as the router mounts them (\<^verbatim>\<open>crates/server/src/api/mod.rs\<close>): the demonstration mode in front
  of everything (\<^verbatim>\<open>demo/mod.rs\<close>), the open routes, and the protected ones behind the guard and their extractor; and what
  a sequence of requests, one after the other, makes of the state.
\<close>

section \<open>The demonstration mode\<close>

definition ALLOWED_WRITES :: "string list" where
  "ALLOWED_WRITES = [''/api/auth/login'', ''/api/auth/logout'']"

definition DENIED_READS :: "string list" where
  "DENIED_READS =
     [''/api/auth/audit'', ''/api/auth/oidc'', ''/api/push'', ''/api/agent/commands'', ''/api/agent/relay'',
      ''/api/ingest'', ''/api/mcp'']"

definition demo_refused :: "string \<Rightarrow> string \<Rightarrow> bool" where
  "demo_refused method path =
     (list_ex (\<lambda>prefix. path = prefix \<or>
        (case strip_prefix prefix path of None \<Rightarrow> False | Some rest \<Rightarrow> starts_with rest ''/'')) DENIED_READS \<or>
      (method \<notin> {''GET'', ''HEAD'', ''OPTIONS''} \<and> path \<notin> set ALLOWED_WRITES))"

definition READ_ONLY_MESSAGE :: string where
  "READ_ONLY_MESSAGE = ''This is a read-only demo: changes are disabled. Install DumbMonit to try it on your own devices.''"

section \<open>The routes\<close>

datatype auth_call =
    AcSetup string "string option" string
  | AcLogin "string option" string
  | AcLoginTotp string string
  | AcLogout
  | AcPassword string string
  | AcTotpEnroll string
  | AcTotpVerify string
  | AcTotpDisable string
  | AcTotpReset int
  | AcUserCreate string "string option" role "string option"
  | AcUserUpdate int update_payload
  | AcUserDelete int
  | AcTokenCreate token_payload
  | AcTokenRevoke int
  | AcSsoStart "string option"
  | AcSsoCallback callback_params
  | AcSsoPut config_payload
  | AcSsoDelete
  | AcRead

text \<open>What the router matched: the method and the path of each route. \<^const>\<open>AcRead\<close> is any other protected route, of which
  only the guard is run here.\<close>

fun call_route :: "auth_call \<Rightarrow> (string \<times> string) option" where
  "call_route (AcSetup _ _ _) = Some (''POST'', ''/api/auth/setup'')"
| "call_route (AcLogin _ _) = Some (''POST'', ''/api/auth/login'')"
| "call_route (AcLoginTotp _ _) = Some (''POST'', ''/api/auth/login/totp'')"
| "call_route AcLogout = Some (''POST'', ''/api/auth/logout'')"
| "call_route (AcPassword _ _) = Some (''POST'', ''/api/auth/password'')"
| "call_route (AcTotpEnroll _) = Some (''POST'', ''/api/auth/totp/enroll'')"
| "call_route (AcTotpVerify _) = Some (''POST'', ''/api/auth/totp/verify'')"
| "call_route (AcTotpDisable _) = Some (''DELETE'', ''/api/auth/totp'')"
| "call_route (AcTotpReset i) = Some (''DELETE'', ''/api/users/'' @ show_int i @ ''/totp'')"
| "call_route (AcUserCreate _ _ _ _) = Some (''POST'', ''/api/users'')"
| "call_route (AcUserUpdate i _) = Some (''PUT'', ''/api/users/'' @ show_int i)"
| "call_route (AcUserDelete i) = Some (''DELETE'', ''/api/users/'' @ show_int i)"
| "call_route (AcTokenCreate _) = Some (''POST'', ''/api/tokens'')"
| "call_route (AcTokenRevoke i) = Some (''DELETE'', ''/api/tokens/'' @ show_int i)"
| "call_route (AcSsoStart _) = Some (''GET'', ''/api/auth/oidc/start'')"
| "call_route (AcSsoCallback _) = Some (''GET'', ''/api/auth/oidc/callback'')"
| "call_route (AcSsoPut _) = Some (''PUT'', ''/api/auth/oidc/config'')"
| "call_route AcSsoDelete = Some (''DELETE'', ''/api/auth/oidc/config'')"
| "call_route AcRead = None"

datatype reply =
    RpDone
  | RpLogin login_response
  | RpCookie string
  | RpEnrolment enrolment
  | RpCodes "string list"
  | RpUser user
  | RpToken token_record string
  | RpNavigation navigation
  | RpConfig resolved_config

text \<open>\<^verbatim>\<open>?\<close> in front of a handler: its answer, or its error as the answer.\<close>

definition open_route :: "'a handler \<Rightarrow> ('a \<Rightarrow> reply) \<Rightarrow> (guard_error + reply) handler" where
  "open_route m f =
     bind_h (attempt_h m) (\<lambda>r. return_h (case r of Inl e \<Rightarrow> Inl (GeAuth e) | Inr x \<Rightarrow> Inr (f x)))"

definition guarded ::
  "'n auth_world \<Rightarrow> (instant \<Rightarrow> string) \<Rightarrow> request \<Rightarrow> (admission \<Rightarrow> auth_error + 'e) \<Rightarrow>
     (admission \<Rightarrow> 'e \<Rightarrow> 'a handler) \<Rightarrow> ('a \<Rightarrow> reply) \<Rightarrow> (guard_error + reply) handler" where
  "guarded w show_time rq extract h f =
     bind_h (require_session w show_time rq) (\<lambda>admission.
     case admission of
       Inl e \<Rightarrow> return_h (Inl e)
     | Inr a \<Rightarrow>
         (case extract a of
            Inl e \<Rightarrow> return_h (Inl (GeAuth e))
          | Inr me \<Rightarrow> open_route (h a me) f))"

definition route :: "'n auth_world \<Rightarrow> (instant \<Rightarrow> string) \<Rightarrow> request \<Rightarrow> auth_call \<Rightarrow> (guard_error + reply) handler" where
  "route w show_time rq call =
     (let ip = request_ip w rq; finished = (\<lambda>_ :: unit. RpDone)
      in case call of
        AcSetup code username password \<Rightarrow> open_route (setup_h w ip code username password) finished
      | AcLogin username password \<Rightarrow> open_route (login w ip username password) RpLogin
      | AcLoginTotp pending code \<Rightarrow> open_route (login_step w ip pending code) RpCookie
      | AcLogout \<Rightarrow> guarded w show_time rq (\<lambda>a. Inr ()) (\<lambda>a _. logout w (ad_session a)) RpCookie
      | AcPassword old new \<Rightarrow>
          guarded w show_time rq authenticated (\<lambda>a me. change_password w me (ad_session a) ip old new) finished
      | AcTotpEnroll password \<Rightarrow> guarded w show_time rq authenticated (\<lambda>_ me. totp_enroll w me ip password) RpEnrolment
      | AcTotpVerify code \<Rightarrow> guarded w show_time rq authenticated (\<lambda>_ me. totp_verify w me ip code) RpCodes
      | AcTotpDisable password \<Rightarrow> guarded w show_time rq authenticated (\<lambda>_ me. totp_disable w me ip password) finished
      | AcTotpReset i \<Rightarrow> guarded w show_time rq admin_user (\<lambda>_ me. totp_admin_reset w me ip i) finished
      | AcUserCreate username display_name role password \<Rightarrow>
          guarded w show_time rq admin_user (\<lambda>_ me. user_create w me ip username display_name role password) RpUser
      | AcUserUpdate i payload \<Rightarrow> guarded w show_time rq admin_user (\<lambda>_ me. user_update w me ip i payload) RpUser
      | AcUserDelete i \<Rightarrow> guarded w show_time rq admin_user (\<lambda>_ me. user_delete w me ip i) finished
      | AcTokenCreate payload \<Rightarrow>
          guarded w show_time rq authenticated (\<lambda>_ me. tokens_create w me ip payload) (\<lambda>(record, secret). RpToken record secret)
      | AcTokenRevoke i \<Rightarrow> guarded w show_time rq authenticated (\<lambda>_ me. tokens_revoke w me ip i) finished
      | AcSsoStart redirect \<Rightarrow> open_route (sso_start w rq redirect) RpNavigation
      | AcSsoCallback params \<Rightarrow> open_route (sso_callback w rq params) RpNavigation
      | AcSsoPut payload \<Rightarrow> guarded w show_time rq admin_user (\<lambda>_ _. sso_put_config w payload) RpConfig
      | AcSsoDelete \<Rightarrow> guarded w show_time rq admin_user (\<lambda>_ _. sso_delete_config w) RpConfig
      | AcRead \<Rightarrow> guarded w show_time rq (\<lambda>a. Inr ()) (\<lambda>_ _. return_h ()) finished)"

text \<open>The demonstration mode answers before anything else is looked at. The guard sees the path without \<^verbatim>\<open>/api\<close> or with it.\<close>

definition serve :: "'n auth_world \<Rightarrow> (instant \<Rightarrow> string) \<Rightarrow> request \<Rightarrow> auth_call \<Rightarrow> (guard_error + reply) handler" where
  "serve w show_time rq call =
     (if aw_demo w \<and> demo_refused (rq_method rq) (rq_path rq)
      then return_h (Inl (GeAuth (AeForbidden READ_ONLY_MESSAGE)))
      else route w show_time rq call)"

text \<open>Sequences of requests, each one finished before the next starts. A request carries what the router matched.\<close>

definition matches_route :: "request \<Rightarrow> auth_call \<Rightarrow> bool" where
  "matches_route rq call = (case call_route call of None \<Rightarrow> True | Some r \<Rightarrow> (rq_method rq, rq_path rq) = r)"

inductive served :: "'n auth_world \<Rightarrow> (instant \<Rightarrow> string) \<Rightarrow> auth_sys \<Rightarrow> auth_sys \<Rightarrow> bool" for w show_time where
  served_none: "served w show_time s s"
| served_next: "served w show_time s t \<Longrightarrow> matches_route rq call \<Longrightarrow> served w show_time s (snd (serve w show_time rq call t))"

end
