(* ===== verification/Account_Invariants.thy ===== *)
theory Account_Invariants
  imports Auth_Routes
begin

text \<open>
  What every authentication route keeps of the accounts: unique identifiers and names, sessions of existing accounts,
  and an administrator who can sign in. The routes that only touch one account without its rights keep any predicate of
  the accounts that such a change keeps: the locale states that contract once, and the administrator that must remain is
  an interpretation of it.
\<close>

section \<open>Changes of one account\<close>

definition neutral :: "(user \<Rightarrow> user) \<Rightarrow> bool" where
  "neutral f = (\<forall>u. us_id (f u) = us_id u \<and> us_username (f u) = us_username u \<and> us_role (f u) = us_role u \<and>
     us_disabled (f u) = us_disabled u)"

text \<open>An account that keeps its identifier, its name and a secret behind its second factor.\<close>

definition sound_change :: "(user \<Rightarrow> user) \<Rightarrow> bool" where
  "sound_change f = (\<forall>u. us_id (f u) = us_id u \<and> us_username (f u) = us_username u \<and>
     ((us_totp_enabled u \<longrightarrow> us_totp_secret u \<noteq> None) \<longrightarrow> (us_totp_enabled (f u) \<longrightarrow> us_totp_secret (f u) \<noteq> None)))"

definition change_one :: "int \<Rightarrow> (user \<Rightarrow> user) \<Rightarrow> user list \<Rightarrow> user list" where
  "change_one i f = map (\<lambda>u. if us_id u = i then f u else u)"

lemma update_user_users: "update_user i f db = db\<lparr>ub_users := change_one i f (ub_users db)\<rparr>"
  by (simp add: update_user_def change_one_def)

lemma change_one_ids: "sound_change f \<Longrightarrow> map us_id (change_one i f us) = map us_id us"
  by (simp add: change_one_def sound_change_def)

lemma change_one_names:
  "sound_change f \<Longrightarrow> map (\<lambda>u. nocase (us_username u)) (change_one i f us) = map (\<lambda>u. nocase (us_username u)) us"
  by (simp add: change_one_def sound_change_def)

lemma us_id_change: "sound_change f \<Longrightarrow> us_id ` set (change_one i f us) = us_id ` set us"
  by (metis change_one_ids list.set_map)

definition tables_ok :: "auth_db \<Rightarrow> bool" where
  "tables_ok db = (users_wf db \<and> sessions_wf db)"

lemma tables_ok_change: "sound_change f \<Longrightarrow> tables_ok db \<Longrightarrow> tables_ok (update_user i f db)"
  unfolding tables_ok_def users_wf_def sessions_wf_def update_user_users
  by (auto simp: change_one_ids change_one_names us_id_change) (auto simp: change_one_def sound_change_def)

lemma tables_ok_other:
  "tables_ok (db\<lparr>ub_codes := c\<rparr>) = tables_ok db" "tables_ok (db\<lparr>ub_next_code := n\<rparr>) = tables_ok db"
  "tables_ok (db\<lparr>ub_tokens := t\<rparr>) = tables_ok db" "tables_ok (db\<lparr>ub_next_token := n\<rparr>) = tables_ok db"
  "tables_ok (db\<lparr>ub_audit := a\<rparr>) = tables_ok db" "tables_ok (db\<lparr>ub_next_audit := n\<rparr>) = tables_ok db"
  by (simp_all add: tables_ok_def users_wf_def sessions_wf_def)

lemma tables_ok_sessions: "tables_ok db \<Longrightarrow> tables_ok (db\<lparr>ub_sessions := filter P (ub_sessions db)\<rparr>)"
  by (auto simp: tables_ok_def users_wf_def sessions_wf_def distinct_map_filter)

section \<open>Statements\<close>

lemma keeps_prod: "(\<And>x y. keeps I (f x y)) \<Longrightarrow> keeps I (case v of (x, y) \<Rightarrow> f x y)"
  by (simp split: prod.splits)

lemma keeps_outcome:
  "keeps I m \<Longrightarrow> (\<And>i. keeps I (f i)) \<Longrightarrow> keeps I (case v of LoUnknown \<Rightarrow> m | LoCandidate i \<Rightarrow> f i)"
  by (simp split: login_outcome.splits)

lemma keeps_bool: "keeps I m \<Longrightarrow> keeps I n \<Longrightarrow> keeps I (case b of True \<Rightarrow> m | False \<Rightarrow> n)"
  by (simp split: bool.splits)

lemma keeps_attempt: "keeps I m \<Longrightarrow> keeps I (attempt_h m)"
  by (simp add: keeps_def attempt_h_def split: prod.splits) (metis snd_conv)

lemma keeps_flow:
  "keeps I m \<Longrightarrow> (\<And>x. keeps I (f x)) \<Longrightarrow> keeps I (bind_f m f)" "keeps I (fail_f e)" "keeps I (return_f x)"
  "keeps I n \<Longrightarrow> keeps I (lift_f n)"
  unfolding bind_f_def fail_f_def return_f_def lift_f_def
  by (intro keeps_bind keeps_sum keeps_return keeps_attempt; assumption)+

section \<open>Routes that keep a predicate of the accounts\<close>

locale account_predicate =
  fixes A :: "user list \<Rightarrow> bool"
  assumes A_neutral: "neutral f \<Longrightarrow> A us \<Longrightarrow> A (change_one i f us)"
begin

definition ok :: "auth_db \<Rightarrow> bool" where
  "ok db = (tables_ok db \<and> A (ub_users db))"

lemma ok_other [simp]:
  "ok (db\<lparr>ub_codes := c\<rparr>) = ok db" "ok (db\<lparr>ub_next_code := n\<rparr>) = ok db"
  "ok (db\<lparr>ub_tokens := t\<rparr>) = ok db" "ok (db\<lparr>ub_next_token := n\<rparr>) = ok db"
  "ok (db\<lparr>ub_audit := a\<rparr>) = ok db" "ok (db\<lparr>ub_next_audit := n\<rparr>) = ok db"
  by (simp_all add: ok_def tables_ok_other)

lemma ok_sessions: "ok db \<Longrightarrow> ok (db\<lparr>ub_sessions := filter P (ub_sessions db)\<rparr>)"
  by (simp add: ok_def tables_ok_sessions)

lemma ok_change: "neutral f \<Longrightarrow> sound_change f \<Longrightarrow> ok db \<Longrightarrow> ok (update_user i f db)"
  by (simp add: ok_def tables_ok_change) (simp add: update_user_users A_neutral)

lemma ok_set_password: "ok db \<Longrightarrow> ok (set_password_hash i h db)"
  unfolding set_password_hash_def by (rule ok_change) (simp_all add: neutral_def sound_change_def)

lemma ok_set_display_name: "ok db \<Longrightarrow> ok (set_display_name i n db)"
  unfolding set_display_name_def by (rule ok_change) (simp_all add: neutral_def sound_change_def)

lemma ok_touch_login: "ok db \<Longrightarrow> ok (touch_login t i db)"
  unfolding touch_login_def by (rule ok_change) (simp_all add: neutral_def sound_change_def)

lemma ok_totp_pending: "ok db \<Longrightarrow> ok (set_totp_pending i s db)"
  unfolding set_totp_pending_def by (rule ok_change) (simp_all add: neutral_def sound_change_def)

lemma ok_totp_enabled: "ok db \<Longrightarrow> ok (set_totp_enabled i db)"
  unfolding set_totp_enabled_def by (rule ok_change) (simp_all add: neutral_def sound_change_def)

lemma ok_clear_totp: "ok db \<Longrightarrow> ok (clear_totp i db)"
  unfolding clear_totp_def Let_def
  by (simp, rule ok_change) (simp_all add: neutral_def sound_change_def)

lemma ok_codes: "ok db \<Longrightarrow> ok (replace_recovery_codes i hs db)"
proof -
  have "ok db \<Longrightarrow> ok (foldl (\<lambda>db hash. db\<lparr>ub_codes := ub_codes db @
              [\<lparr>rr_id = ub_next_code db, rr_user_id = i, rr_code_hash = hash, rr_used_at = None\<rparr>],
              ub_next_code := ub_next_code db + 1\<rparr>) db hs)" for db
    by (induction hs arbitrary: db) simp_all
  then show "ok db \<Longrightarrow> ok (replace_recovery_codes i hs db)" by (simp add: replace_recovery_codes_def)
qed

lemma ok_consume: "ok db \<Longrightarrow> consume_recovery_code t i h db = (x, db') \<Longrightarrow> ok db'"
  by (auto simp: consume_recovery_code_def split: option.splits)

lemma ok_session_delete: "ok db \<Longrightarrow> ok (session_delete k db)"
  by (simp add: session_delete_def ok_sessions)

lemma ok_purge: "ok db \<Longrightarrow> ok (purge_expired t db)"
  by (simp add: purge_expired_def ok_sessions)

lemma ok_delete_for_user: "ok db \<Longrightarrow> Some (delete_for_user i k db) = Some (n, db') \<Longrightarrow> ok db'"
  by (auto simp: delete_for_user_def Let_def intro: ok_sessions)

lemma ok_session_insert: "ok db \<Longrightarrow> session_insert h token t i db = Some db' \<Longrightarrow> ok db'"
  by (auto simp: session_insert_def ok_def tables_ok_def users_wf_def sessions_wf_def list_ex_iff split: if_splits) blast

lemma ok_session_authenticate: "ok db \<Longrightarrow> session_authenticate h t token db = (x, db') \<Longrightarrow> ok db'"
  by (auto simp: session_authenticate_def ok_session_delete split: option.splits if_splits)

lemma ok_token_insert: "ok db \<Longrightarrow> token_insert w clear new t db = Some (i, db') \<Longrightarrow> ok db'"
  by (auto simp: token_insert_def Let_def split: if_splits)

lemma keeps_ok_audit: "keeps (db_inv ok) (audit_h w actor action subject ip)"
  by (rule keeps_audit) simp

lemma keeps_ok_purge_once: "keeps (db_inv ok) (purge_once w)"
  by (rule keeps_purge_once) (rule ok_purge)

lemma ok_settings [simp]: "ok (settings_write k v db) = ok db" "ok (settings_delete k db) = ok db"
  by (simp_all add: settings_write_def settings_delete_def ok_def tables_ok_def users_wf_def sessions_wf_def)

lemma keeps_ok_exec:
  "keeps (db_inv ok) (exec_h w (\<lambda>_. settings_write k v))"
  "keeps (db_inv ok) (exec_h w (\<lambda>_. settings_delete k))"
  "keeps (db_inv ok) (exec_h w (\<lambda>_. session_delete k))"
  "keeps (db_inv ok) (exec_h w (\<lambda>_. purge_expired t))"
  "keeps (db_inv ok) (exec_h w (\<lambda>now. touch_login now i))"
  "keeps (db_inv ok) (exec_h w (\<lambda>_. set_password_hash i h))"
  "keeps (db_inv ok) (exec_h w (\<lambda>_. set_display_name i n))"
  "keeps (db_inv ok) (exec_h w (\<lambda>_. set_totp_pending i s))"
  "keeps (db_inv ok) (exec_h w (\<lambda>_. set_totp_enabled i))"
  "keeps (db_inv ok) (exec_h w (\<lambda>_. clear_totp i))"
  "keeps (db_inv ok) (exec_h w (\<lambda>_. replace_recovery_codes i hs))"
  by (rule keeps_exec; simp add: ok_session_delete ok_purge ok_touch_login ok_set_password ok_set_display_name
      ok_totp_pending ok_totp_enabled ok_clear_totp ok_codes)+

lemma keeps_ok_sql:
  "keeps (db_inv ok) (sql_h w (\<lambda>_ db. Some (delete_for_user i k db)))"
  "keeps (db_inv ok) (sql_h w (\<lambda>now db. Some (consume_recovery_code now i h db)))"
  "keeps (db_inv ok) (sql_h w (\<lambda>_ db. map_option (\<lambda>db'. ((), db')) (session_insert sha token t i db)))"
  "keeps (db_inv ok) (sql_h w (\<lambda>now db. Some (session_authenticate sha now token db)))"
  "keeps (db_inv ok) (sql_h w (token_insert w clear new))"
  by (rule keeps_sql; auto dest: ok_delete_for_user ok_consume ok_session_insert ok_session_authenticate ok_token_insert)+

lemmas ok_rules = keeps_rules keeps_prod keeps_outcome keeps_ok_audit keeps_ok_purge_once keeps_ok_exec keeps_ok_sql

lemma keeps_ok_passwords:
  "keeps (db_inv ok) (password_hash_h w p)" "keeps (db_inv ok) (password_verify_h w p s)"
  "keeps (db_inv ok) (guard_attempt w keys)" "keeps (db_inv ok) (attempt_failed w keys)"
  "keeps (db_inv ok) (attempt_succeeded keys)" "keeps (db_inv ok) (decrypt_h w bs)"
  "keeps (db_inv ok) (matching_step_h w bs p)" "keeps (db_inv ok) (invalid_h r)" "keeps (db_inv ok) (load_user w i)"
  unfolding password_hash_h_def password_verify_h_def guard_attempt_def attempt_failed_def attempt_succeeded_def
    decrypt_h_def matching_step_h_def invalid_h_def load_user_def
  by (intro ok_rules)+

lemmas ok_steps = ok_rules keeps_ok_passwords

lemma keeps_session_create: "keeps (db_inv ok) (session_create w i)"
  unfolding session_create_def Let_def by (intro ok_steps)

lemma keeps_open_session: "keeps (db_inv ok) (open_session w u ip)"
  unfolding open_session_def by (intro ok_steps keeps_session_create)

lemma keeps_resolve: "keeps (db_inv ok) (oidc_resolve w)"
  unfolding oidc_resolve_def settings_get_def settings_get_secret_def by (intro ok_steps)

lemma keeps_sso_settings: "keeps (db_inv ok) (sso_put_config w payload)" "keeps (db_inv ok) (sso_delete_config w)"
  unfolding sso_put_config_def sso_delete_config_def oidc_save_def oidc_clear_def settings_set_secret_def Let_def
  by (intro ok_steps keeps_resolve)+

lemma keeps_ask: "keeps (db_inv ok) (ask_h f)"
  unfolding ask_h_def by (rule keeps_tick)

lemmas flow_steps = ok_steps keeps_flow keeps_attempt keeps_ask

lemma keeps_discovery_get: "keeps (db_inv ok) (discovery_get w issuer)"
  unfolding discovery_get_def discovery_fetch_def Let_def by (intro flow_steps)

lemma keeps_provider: "keeps (db_inv ok) (exchange_code w config document code p)"
    "keeps (db_inv ok) (validate_with_jwks w config document id_token nonce)"
  unfolding exchange_code_def validate_with_jwks_def provider_keys_def Let_def by (intro flow_steps)+

lemma keeps_sso_start: "keeps (db_inv ok) (sso_start w rq redirect)"
  unfolding sso_start_def flow_start_def Let_def by (intro flow_steps keeps_resolve keeps_discovery_get)

lemma keeps_login: "keeps (db_inv ok) (login w ip name p)"
  unfolding login_def Let_def by (intro ok_steps keeps_open_session)

lemma keeps_logout: "keeps (db_inv ok) (logout w current)"
  unfolding logout_def by (intro ok_steps)

lemma keeps_change_password: "keeps (db_inv ok) (change_password w u current ip old new)"
  unfolding change_password_def Let_def by (intro ok_steps)

lemma keeps_check_password: "keeps (db_inv ok) (check_password w u ip p)"
  unfolding check_password_def Let_def by (intro ok_steps)

lemma keeps_totp_enroll: "keeps (db_inv ok) (totp_enroll w u ip p)"
  unfolding totp_enroll_def Let_def by (intro ok_steps keeps_check_password)

lemma keeps_totp_verify: "keeps (db_inv ok) (totp_verify w u ip code)"
  unfolding totp_verify_def Let_def by (intro ok_steps)

lemma keeps_totp_disable: "keeps (db_inv ok) (totp_disable w u ip p)"
  unfolding totp_disable_def by (intro ok_steps keeps_check_password)

lemma keeps_totp_admin_reset: "keeps (db_inv ok) (totp_admin_reset w me ip i)"
  unfolding totp_admin_reset_def by (intro ok_steps)

lemma keeps_second_factor: "keeps (db_inv ok) (second_factor w u ip code)"
  unfolding second_factor_def by (intro ok_steps)

lemma keeps_login_step: "keeps (db_inv ok) (login_step w ip pend code)"
  unfolding login_step_def Let_def by (intro ok_steps keeps_second_factor keeps_open_session)

lemma keeps_token_get: "keeps (db_inv ok) (token_get w i)"
  unfolding token_get_def by (intro ok_steps)

lemma keeps_tokens_create: "keeps (db_inv ok) (tokens_create w me ip payload)"
  unfolding tokens_create_def token_create_def Let_def by (intro ok_steps keeps_token_get)

lemma keeps_token_revoke: "keeps (db_inv ok) (token_revoke w i)"
  unfolding token_revoke_def by (rule keeps_sql) auto

lemma keeps_tokens_revoke: "keeps (db_inv ok) (tokens_revoke w me ip i)"
  unfolding tokens_revoke_def by (intro ok_steps keeps_token_revoke)

lemma keeps_current_session: "keeps (db_inv ok) (current_session w headers)"
  unfolding current_session_def by (intro ok_steps)

lemma keeps_touch: "keeps (db_inv ok) (touch_if_stale w row ip)"
proof -
  have "keeps (db_inv ok) (\<lambda>s. (Inr (), snd (exec_h w (touch_token (tk_id row) ip) s)))" for ip
    using keeps_exec [of ok "touch_token (tk_id row) ip" w] by (simp add: keeps_def touch_token_def)
  then show ?thesis unfolding touch_if_stale_def Let_def by (intro ok_steps) assumption
qed

lemma keeps_token_authenticate: "keeps (db_inv ok) (token_authenticate w clear ip)"
  unfolding token_authenticate_def by (intro ok_steps keeps_touch)

lemma keeps_token_check: "keeps (db_inv ok) (token_check w st headers ip wanted)"
  unfolding token_check_def Let_def by (intro ok_steps keeps_attempt keeps_token_authenticate)

lemma keeps_bearer: "keeps (db_inv ok) (bearer_identity w st rq)"
  unfolding bearer_identity_def by (intro ok_steps keeps_token_check)

lemma keeps_require_session: "keeps (db_inv ok) (require_session w st rq)"
  unfolding require_session_def
  by (intro ok_steps keeps_bool keeps_bearer keeps_current_session keeps_attempt)

end

section \<open>The administrator that remains\<close>

text \<open>An active administrator whose identifier is not \<open>gone\<close>.\<close>

definition admin_left :: "int option \<Rightarrow> user list \<Rightarrow> bool" where
  "admin_left gone us = (\<exists>u \<in> set us. is_active_admin u \<and> Some (us_id u) \<noteq> gone)"

lemma admin_left_change:
  assumes "\<And>u. us_id (f u) = us_id u" "\<And>u. is_active_admin u \<Longrightarrow> gone = Some i \<or> is_active_admin (f u)" "admin_left gone us"
  shows "admin_left gone (change_one i f us)"
proof -
  obtain u where u: "u \<in> set us" "is_active_admin u" "Some (us_id u) \<noteq> gone"
    using assms(3) by (auto simp: admin_left_def)
  let ?u = "if us_id u = i then f u else u"
  have "?u \<in> set (change_one i f us)" "is_active_admin ?u" "Some (us_id ?u) \<noteq> gone"
    using u assms(1,2) by (auto simp: change_one_def)
  then show ?thesis unfolding admin_left_def by blast
qed

interpretation some_admin: account_predicate "admin_left gone"
  by unfold_locales (auto intro!: admin_left_change simp: neutral_def is_active_admin_def)

lemma user_of_id: "users_wf db \<Longrightarrow> u \<in> set (ub_users db) \<Longrightarrow> v \<in> set (ub_users db) \<Longrightarrow> us_id u = us_id v \<Longrightarrow> u = v"
  using inj_onD [of us_id "set (ub_users db)" u v] by (simp add: users_wf_def distinct_map)

lemma other_admin_counted:
  assumes "users_wf db" "1 < active_admin_count db"
  shows "admin_left (Some i) (ub_users db)"
proof (rule ccontr)
  assume none: "\<not> ?thesis"
  let ?as = "filter is_active_admin (ub_users db)"
  have "us_id ` set ?as \<subseteq> {i}" using none by (auto simp: admin_left_def)
  moreover have "distinct (map us_id ?as)"
    using assms(1) by (simp add: users_wf_def distinct_map_filter)
  ultimately have "length ?as \<le> 1"
    using card_mono [of "{i}" "us_id ` set ?as"] distinct_card [of "map us_id ?as"] by simp
  then show False using assms(2) by (simp add: active_admin_count_def)
qed

text \<open>An instance in order: sound tables and an administrator who can sign in.\<close>

definition administered :: "auth_db \<Rightarrow> bool" where
  "administered db = (tables_ok db \<and> admin_left None (ub_users db))"

lemma administered_ok: "some_admin.ok None = administered"
  by (rule ext) (simp add: administered_def some_admin.ok_def)

section \<open>Routes that change rights\<close>

lemma users_get_in: "users_get i db = Some u \<Longrightarrow> u \<in> set (ub_users db) \<and> us_id u = i"
  by (auto simp: users_get_def dest: find_SomeD)

text \<open>Whatever is done to account \<open>i\<close>, an administrator with another identifier remains.\<close>

lemma admin_update:
  assumes "sound_change f" "\<And>u. is_active_admin u \<Longrightarrow> gone = Some i \<or> is_active_admin (f u)" "some_admin.ok gone db"
  shows "some_admin.ok gone (update_user i f db)"
  using assms(3) tables_ok_change [OF assms(1)] admin_left_change [of f gone i] assms(1,2)
  by (simp add: some_admin.ok_def sound_change_def) (simp add: update_user_users)

lemma other_set_role: "some_admin.ok (Some i) db \<Longrightarrow> some_admin.ok (Some i) (set_role i r db)"
  unfolding set_role_def by (rule admin_update) (simp_all add: sound_change_def)

lemma other_set_disabled: "some_admin.ok (Some i) db \<Longrightarrow> some_admin.ok (Some i) (set_disabled i d db)"
  unfolding set_disabled_def by (rule admin_update) (simp_all add: sound_change_def)

lemma promoted_set_role: "some_admin.ok None db \<Longrightarrow> some_admin.ok None (set_role i Admin db)"
  unfolding set_role_def by (rule admin_update) (simp_all add: sound_change_def is_active_admin_def)

lemma tables_ok_delete: "tables_ok db \<Longrightarrow> tables_ok (users_delete now i db)"
  unfolding tables_ok_def users_wf_def sessions_wf_def users_delete_def
  by (simp add: distinct_map_filter) blast

lemma other_delete: "some_admin.ok (Some i) db \<Longrightarrow> some_admin.ok (Some i) (users_delete now i db)"
  by (auto simp: some_admin.ok_def tables_ok_delete) (auto simp: users_delete_def admin_left_def)

lemma tables_ok_add: "tables_ok db \<Longrightarrow> by_username (nu_username nu) db = None \<Longrightarrow> tables_ok (add_user now nu db)"
  by (auto simp: tables_ok_def users_wf_def sessions_wf_def add_user_def user_of_new_def by_username_def find_None_iff)

lemma admin_left_add: "admin_left gone (ub_users db) \<Longrightarrow> admin_left gone (ub_users (add_user now nu db))"
  by (auto simp: admin_left_def add_user_def)

lemma keeps_user_create: "keeps (db_inv (some_admin.ok gone)) (user_create w me ip name display role p)"
proof -
  have "keeps (db_inv (some_admin.ok gone)) (sql_h w (\<lambda>now. users_insert now nu))" for nu
    by (rule keeps_sql)
      (auto simp: users_insert_def some_admin.ok_def tables_ok_add admin_left_add split: if_splits)
  then show ?thesis unfolding user_create_def Let_def by (intro some_admin.ok_steps some_admin.keeps_resolve) assumption
qed


lemma keeps_update_other: "keeps (db_inv (some_admin.ok (Some i))) (update_writes w me ip i payload u)"
proof -
  have "keeps (db_inv (some_admin.ok (Some i))) (exec_h w (\<lambda>_. set_role i r))" for r
    by (rule keeps_exec) (rule other_set_role)
  moreover have "keeps (db_inv (some_admin.ok (Some i))) (exec_h w (\<lambda>_. set_disabled i d))" for d
    by (rule keeps_exec) (rule other_set_disabled)
  ultimately show ?thesis unfolding update_writes_def by (intro some_admin.ok_steps) assumption+
qed

lemma keeps_update_same:
  assumes "us_role u = Admin" "\<not> us_disabled u" "\<not> loses_admin u payload"
  shows "keeps (db_inv (some_admin.ok None)) (update_writes w me ip i payload u)"
proof -
  let ?K = "\<lambda>m :: unit handler. keeps (db_inv (some_admin.ok None)) m"
  have promote: "?K (exec_h w (\<lambda>_. set_role i Admin))"
    by (rule keeps_exec) (rule promoted_set_role)
  have same: "up_role payload = Some r \<Longrightarrow> r = Admin" "up_disabled payload = Some d \<Longrightarrow> \<not> d" for r d
    using assms by (auto simp: loses_admin_def elim: role_is_admin.elims)
  have "?K (case up_role payload of None \<Rightarrow> return_h ()
      | Some role \<Rightarrow> when_h (role \<noteq> us_role u) (exec_h w (\<lambda>_. set_role i role)))"
    using same(1) promote by (auto simp: keeps_when keeps_return split: option.splits)
  moreover have "?K (case up_disabled payload of None \<Rightarrow> return_h () | Some disabled \<Rightarrow> when_h (disabled \<noteq> us_disabled u)
      (seq_h (exec_h w (\<lambda>_. set_disabled i disabled))
      (when_h disabled (seq_h (sql_h w (\<lambda>_ db. Some (delete_for_user i None db))) (return_h ())))))"
    using same(2) assms(2) by (auto simp: when_h_def keeps_return split: option.splits)
  moreover have "?K (case up_display_name payload of
      None \<Rightarrow> return_h () | Some name \<Rightarrow> exec_h w (\<lambda>_. set_display_name i (trim name)))"
    by (intro some_admin.ok_steps)
  moreover have "?K (case (case up_password payload of Some p \<Rightarrow> if p = [] then None else Some p | None \<Rightarrow> None) of
               None \<Rightarrow> return_h ()
             | Some password \<Rightarrow>
                 seq_h (lift_h (password_validate password))
                 (bind_h (password_hash_h w password) (\<lambda>hash.
                 seq_h (exec_h w (\<lambda>_. set_password_hash i hash))
                 (seq_h (sql_h w (\<lambda>_ db. Some (delete_for_user i None db)))
                 (return_h ())))))"
    by (intro some_admin.ok_steps)
  moreover have "keeps (db_inv (some_admin.ok None)) (bind_h (load_user w i) (\<lambda>user.
      seq_h (audit_h w (Some (us_username me)) ''user.updated'' (Some (us_username user)) ip) (return_h user)))"
    by (intro some_admin.ok_steps)
  ultimately show ?thesis unfolding update_writes_def by (simp add: keeps_seq)
qed

text \<open>An account that is not an active administrator, or not the only one, leaves an administrator elsewhere.\<close>

lemma admin_elsewhere:
  assumes "some_admin.ok None db" "u \<in> set (ub_users db)" "us_id u = i" "is_active_admin u \<Longrightarrow> 1 < active_admin_count db"
  shows "some_admin.ok (Some i) db"
proof (cases "is_active_admin u")
  case True
  then show ?thesis
    using assms(1,4) other_admin_counted by (auto simp: some_admin.ok_def tables_ok_def)
next
  case False
  obtain v where v: "v \<in> set (ub_users db)" "is_active_admin v"
    using assms(1) by (auto simp: some_admin.ok_def admin_left_def)
  moreover have "us_id v \<noteq> i"
    using user_of_id [of db v u] assms(1-3) False v by (auto simp: some_admin.ok_def tables_ok_def)
  ultimately show ?thesis
    using assms(1) by (auto simp: some_admin.ok_def admin_left_def)
qed

text \<open>The checks of an update let it through only if another administrator is left or the account keeps its rights.\<close>

lemma update_checks_pass:
  assumes "update_checks w me i payload s = (Inr u, s')" "some_admin.ok None (sy_db s)"
  shows "sy_db s' = sy_db s \<and>
    (some_admin.ok (Some i) (sy_db s) \<or> us_role u = Admin \<and> \<not> us_disabled u \<and> \<not> loses_admin u payload)"
proof -
  have u: "u \<in> set (ub_users (sy_db s))" "us_id u = i" "sy_db s' = sy_db s"
      "loses_admin u payload \<longrightarrow> 1 < active_admin_count (sy_db s)"
    using assms(1)
    by (auto simp: update_checks_def load_user_def handler_Inr dest!: users_get_in split: option.splits if_splits)
  then show ?thesis
    using admin_elsewhere [OF assms(2) u(1,2)] by (auto simp: is_active_admin_def)
qed

lemma elsewhere_somewhere: "some_admin.ok (Some i) db \<Longrightarrow> some_admin.ok None db"
  by (auto simp: some_admin.ok_def admin_left_def)

lemma keeps_bind_after:
  assumes "keeps I m" "\<And>s x s'. I s \<Longrightarrow> m s = (Inr x, s') \<Longrightarrow> I (snd (f x s'))"
  shows "keeps I (bind_h m f)"
  unfolding keeps_def
proof (intro allI impI)
  fix s assume s: "I s"
  obtain r s' where m: "m s = (r, s')" by (cases "m s")
  show "I (snd (bind_h m f s))"
    using keepsD [OF assms(1) s] assms(2) [OF s, of _ s'] m by (cases r) (simp_all add: bind_h_def)
qed

lemma keeps_user_update: "keeps (db_inv (some_admin.ok None)) (user_update w me ip i payload)"
  unfolding user_update_def
proof (rule keeps_bind_after)
  show "keeps (db_inv (some_admin.ok None)) (update_checks w me i payload)"
    unfolding update_checks_def by (intro some_admin.ok_steps)
next
  fix s u s' assume s: "db_inv (some_admin.ok None) s" and u: "update_checks w me i payload s = (Inr u, s')"
  have pass: "sy_db s' = sy_db s" and cases: "some_admin.ok (Some i) (sy_db s') \<or>
      us_role u = Admin \<and> \<not> us_disabled u \<and> \<not> loses_admin u payload"
    using update_checks_pass [OF u] s by (auto simp: db_inv_def)
  show "db_inv (some_admin.ok None) (snd (update_writes w me ip i payload u s'))"
  proof (cases "some_admin.ok (Some i) (sy_db s')")
    case True
    then have "db_inv (some_admin.ok (Some i)) (snd (update_writes w me ip i payload u s'))"
      by (intro keepsD [OF keeps_update_other]) (simp add: db_inv_def)
    then show ?thesis by (auto simp: db_inv_def intro: elsewhere_somewhere)
  next
    case False
    then show ?thesis
      using keepsD [OF keeps_update_same, of u payload s'] cases s pass by (simp add: db_inv_def)
  qed
qed

lemma keeps_user_delete: "keeps (db_inv (some_admin.ok None)) (user_delete w me ip i)"
  unfolding user_delete_def
proof (rule keeps_bind_after [OF some_admin.keeps_ok_passwords(9)])
  fix s u s' assume s: "db_inv (some_admin.ok None) s" and u: "load_user w i s = (Inr u, s')"
  have in_db: "u \<in> set (ub_users (sy_db s'))" "us_id u = i" "some_admin.ok None (sy_db s')"
    using u s by (auto simp: load_user_def handler_Inr db_inv_def dest!: users_get_in split: option.splits)
  let ?remove = "seq_h (exec_h w (\<lambda>now. users_delete now i))
         (audit_h w (Some (us_username me)) ''user.deleted'' (Some (us_username u)) ip)"
  have "keeps (db_inv (some_admin.ok (Some i))) (exec_h w (\<lambda>now. users_delete now i))"
    by (rule keeps_exec) (rule other_delete)
  then have "keeps (db_inv (some_admin.ok (Some i))) ?remove"
    by (intro keeps_seq some_admin.keeps_ok_audit)
  then have remove: "db_inv (some_admin.ok None) (snd (?remove t))" if "some_admin.ok (Some i) (sy_db t)" for t
    using keepsD [of "db_inv (some_admin.ok (Some i))" ?remove t] that by (auto simp: db_inv_def intro: elsewhere_somewhere)
  have "us_role u = Admin \<longleftrightarrow> role_is_admin (us_role u)" by (cases "us_role u") auto
  then show "db_inv (some_admin.ok None) (snd ((if us_id u = us_id me
        then fail_h (AeConflict ''You cannot delete your own account. Ask another admin to do it.'')
        else bind_h (if role_is_admin (us_role u) \<and> \<not> us_disabled u
               then bind_h (query_h w active_admin_count) (\<lambda>n. return_h (n \<le> 1)) else return_h False) (\<lambda>refused.
             if refused then fail_h last_admin_error else ?remove)) s'))"
    using admin_elsewhere [OF in_db(3,1,2)] in_db(3) remove
    by (auto simp: fail_h_def bind_h_def return_h_def query_h_def sql_h_def Let_def db_inv_def is_active_admin_def)
qed

lemma keeps_setup: "keeps (db_inv (some_admin.ok None)) (setup_h w ip code name p)"
proof -
  have "keeps (db_inv (some_admin.ok None)) (sql_h w (\<lambda>now db. Some (insert_first_admin now u h db)))" for u h
    by (rule keeps_sql) (auto simp: insert_first_admin_def some_admin.ok_def admin_left_def split: if_splits)
  then show ?thesis
    unfolding setup_h_def Let_def by (intro some_admin.ok_steps) assumption
qed

section \<open>Sign-ins through a provider\<close>

lemma bind_f_Inr: "bind_f m f s = (Inr (Inr y), s') \<longleftrightarrow> (\<exists>x t. m s = (Inr (Inr x), t) \<and> f x t = (Inr (Inr y), s'))"
  by (auto simp: bind_f_def bind_h_Inr return_h_def split: sum.splits) (metis sum.exhaust)

lemma return_f_Inr: "return_f x s = (Inr (Inr y), s') \<longleftrightarrow> y = x \<and> s' = s"
  by (auto simp: return_f_def return_h_def)

lemma fail_f_Inr: "\<not> fail_f e s = (Inr (Inr y), s')"
  by (simp add: fail_f_def return_h_def)

lemma lift_f_Inr: "lift_f m s = (Inr (Inr x), s') \<longleftrightarrow> m s = (Inr x, s')"
  by (auto simp: lift_f_def bind_h_def attempt_h_def return_h_def split: prod.splits sum.splits)

lemma option_f_Inr:
  "(case v of None \<Rightarrow> fail_f e | Some x \<Rightarrow> g x) s = (Inr (Inr y), s') \<longleftrightarrow> (\<exists>x. v = Some x \<and> g x s = (Inr (Inr y), s'))"
  by (auto simp: fail_f_Inr split: option.splits)

lemmas flow_Inr = bind_f_Inr return_f_Inr fail_f_Inr lift_f_Inr option_f_Inr

text \<open>A row with the rights of the account that was found or made.\<close>

definition stands_for :: "user \<Rightarrow> auth_db \<Rightarrow> bool" where
  "stands_for u db = (\<exists>v \<in> set (ub_users db). us_id v = us_id u \<and> us_role v = us_role u \<and> us_disabled v = us_disabled u)"

lemma try_names_new:
  "try_names w issuer claims role base ns s = (Inr (Inr u), s') \<Longrightarrow> u \<in> set (ub_users (sy_db s'))"
proof (induction ns arbitrary: s)
  case (Cons n ns)
  then show ?case
    by (auto simp: Let_def flow_Inr sql_h_Inr query_h_Inr dest!: users_get_in split: option.splits)
qed (simp add: fail_f_Inr)

lemma find_linkable_in:
  "find_linkable w claims s = (Inr (Inr (Some u)), s') \<Longrightarrow>
     u \<in> set (ub_users (sy_db s)) \<and> sy_db s' = sy_db s \<and> \<not> (role_is_admin (us_role u) \<and> us_password_hash u \<noteq> None)"
  by (auto simp: find_linkable_def flow_Inr query_h_Inr by_username_def dest!: find_SomeD split: option.splits if_splits)

lemma link_in:
  "link_oidc i issuer sub db = Some db' \<Longrightarrow> u \<in> set (ub_users db) \<Longrightarrow> stands_for u db'"
  unfolding stands_for_def link_oidc_def update_user_def
  by (intro bexI [of _ "if us_id u = i then u\<lparr>us_oidc_issuer := Some issuer, us_oidc_subject := Some sub\<rparr> else u"])
    (auto split: if_splits)

lemma identity_account_stands:
  assumes "identity_account w config claims s = (Inr (Inr u), s')"
  shows "stands_for u (sy_db s')"
  using assms try_names_new
  by (fastforce simp: identity_account_def flow_Inr query_h_Inr link_h_def sql_h_Inr create_account_def by_oidc_def stands_for_def
      dest!: find_SomeD find_linkable_in link_in split: option.splits if_splits)

lemma keeps_identity_account: "keeps (db_inv (some_admin.ok gone)) (identity_account w config claims)"
proof -
  have link: "keeps (db_inv (some_admin.ok gone)) (link_h w i issuer sub)" for i issuer sub
    unfolding link_h_def
    by (rule keeps_sql) (auto simp: link_oidc_def neutral_def sound_change_def intro!: some_admin.ok_change split: if_splits)
  have ins: "keeps (db_inv (some_admin.ok gone)) (sql_h w (\<lambda>now. users_insert now nu))" for nu
    by (rule keeps_sql)
      (auto simp: users_insert_def some_admin.ok_def tables_ok_add admin_left_add split: if_splits)
  have names: "keeps (db_inv (some_admin.ok gone)) (try_names w issuer claims role base ns)" for issuer role base ns
    by (induction ns) (simp_all only: try_names.simps Let_def, (intro some_admin.flow_steps ins | assumption)+)
  show ?thesis
    unfolding identity_account_def find_linkable_def create_account_def by (intro some_admin.flow_steps link names)
qed

lemma keeps_map_identity: "keeps (db_inv (some_admin.ok None)) (map_identity w config claims)"
  unfolding map_identity_def bind_f_def
proof (rule keeps_bind_after [OF keeps_identity_account])
  fix s r s' assume s: "db_inv (some_admin.ok None) s" and acc: "identity_account w config claims s = (Inr r, s')"
  have ok: "some_admin.ok None (sy_db s')"
    using keepsD [OF keeps_identity_account [of None w config claims] s] acc by (simp add: db_inv_def)
  show "db_inv (some_admin.ok None) (snd ((case r of Inl e \<Rightarrow> return_h (Inl e) | Inr u \<Rightarrow> follow_groups w config claims u) s'))"
  proof (cases r)
    case (Inr u)
    then obtain v where v: "v \<in> set (ub_users (sy_db s'))" "us_id v = us_id u" "us_role v = us_role u"
      using identity_account_stands [of w config claims s u s'] acc by (auto simp: stands_for_def)
    have role: "is_active_admin v \<Longrightarrow> role_is_admin (us_role u)" using v(3) by (auto simp: is_active_admin_def)
    have set: "db_inv (some_admin.ok None) (t\<lparr>sy_db := set_role (us_id u) r' (sy_db t)\<rparr>)"
      if "sy_db t = sy_db s'" "role_is_admin (us_role u) \<Longrightarrow> 1 < active_admin_count (sy_db s')" for t r'
      using admin_elsewhere [OF ok v(1,2)] role that
      by (auto simp: db_inv_def intro!: elsewhere_somewhere [OF other_set_role])
    show ?thesis
      using ok Inr set
      by (auto simp: follow_groups_def bind_f_def lift_f_def handler_defs return_f_def Let_def db_inv_def
          split: option.splits)
  qed (use ok in \<open>simp add: return_h_def db_inv_def\<close>)
qed

lemma keeps_flow_finish: "keeps (db_inv (some_admin.ok None)) (flow_finish w config params)"
  unfolding flow_finish_def
  by (intro some_admin.flow_steps some_admin.keeps_discovery_get some_admin.keeps_provider keeps_map_identity)

lemma keeps_sso_callback: "keeps (db_inv (some_admin.ok None)) (sso_callback w rq params)"
  unfolding sso_callback_def
  by (intro some_admin.flow_steps keeps_prod some_admin.keeps_resolve keeps_flow_finish some_admin.keeps_session_create)

section \<open>Every request\<close>

lemma keeps_open_route: "keeps I m \<Longrightarrow> keeps I (open_route m f)"
  unfolding open_route_def by (intro keeps_bind keeps_attempt keeps_return)

lemma keeps_guarded:
  "(\<And>a me. keeps (db_inv (some_admin.ok None)) (h a me)) \<Longrightarrow> keeps (db_inv (some_admin.ok None)) (guarded w st rq extract h f)"
  unfolding guarded_def
  by (intro keeps_bind keeps_sum keeps_return keeps_open_route some_admin.keeps_require_session)

lemmas route_rules = keeps_if keeps_open_route keeps_guarded keeps_setup keeps_return
  some_admin.keeps_login some_admin.keeps_login_step some_admin.keeps_logout
  some_admin.keeps_change_password some_admin.keeps_totp_enroll some_admin.keeps_totp_verify some_admin.keeps_totp_disable
  some_admin.keeps_totp_admin_reset keeps_user_create keeps_user_update keeps_user_delete some_admin.keeps_tokens_create
  some_admin.keeps_tokens_revoke some_admin.keeps_sso_start keeps_sso_callback some_admin.keeps_sso_settings

lemma keeps_serve: "keeps (db_inv (some_admin.ok None)) (serve w st rq call)"
  unfolding serve_def route_def Let_def
  by (cases call) (simp_all only: auth_call.case, (intro route_rules)+)

lemma served_keeps: "served w st s t \<Longrightarrow> administered (sy_db s) \<Longrightarrow> administered (sy_db t)"
  unfolding administered_ok [symmetric]
  by (induction rule: served.induct) (use keepsD [OF keeps_serve] in \<open>auto simp: db_inv_def\<close>)

end
