(* ===== verification/Auth_Properties.thy ===== *)
theory Auth_Properties
  imports Account_Invariants
begin

text \<open>
  What the authentication routes guarantee: an administrator remains whatever is asked, a session opens only behind the
  right password and, where there is one, behind a second factor that is then spent; and what they do not guarantee when
  two requests overlap or when one fails half-way.
\<close>

section \<open>Outcomes of the statements\<close>

lemma audit_h_Inr:
  "audit_h w actor action subject ip s = (r, s') \<Longrightarrow>
     r = Inr () \<and> sy_pending s' = sy_pending s \<and> sy_replay s' = sy_replay s \<and> sy_limiter s' = sy_limiter s \<and>
     sy_tick s' = sy_tick s + 2 \<and>
     ub_users (sy_db s') = ub_users (sy_db s) \<and> ub_sessions (sy_db s') = ub_sessions (sy_db s) \<and>
     ub_codes (sy_db s') = ub_codes (sy_db s)"
  by (auto simp: audit_h_def audit_record_def Let_def split: if_splits)

lemma exec_h_Inr:
  "exec_h w f s = (Inr x, s') \<longleftrightarrow> \<not> aw_sql_fails w (sy_tick s) \<and>
     s' = s\<lparr>sy_tick := sy_tick s + 1, sy_db := f (aw_utc w (sy_tick s)) (sy_db s)\<rparr>"
  by (auto simp: exec_h_def sql_h_Inr)

lemma is_configured_Inr:
  "is_configured w s = (r, s') \<Longrightarrow>
     sy_db s' = sy_db s \<and> sy_pending s' = sy_pending s \<and> sy_replay s' = sy_replay s \<and> sy_limiter s' = sy_limiter s"
  by (auto simp: is_configured_def bind_h_def seq_h_def query_h_def sql_h_def remember_configured_def return_h_def Let_def
      split: option.splits if_splits)

lemma guard_attempt_Inr:
  "guard_attempt w keys s = (Inr x, s') \<Longrightarrow>
     sy_db s' = sy_db s \<and> sy_pending s' = sy_pending s \<and> sy_replay s' = sy_replay s \<and> sy_limiter s' = sy_limiter s \<and>
     buckets_check (sy_limiter s) keys (aw_instant w (sy_tick s)) = Inr ()"
  by (auto simp: guard_attempt_def instant_h_def limiter_h_def handler_Inr split: sum.splits prod.splits)

lemma attempt_succeeded_Inr:
  "attempt_succeeded keys s = (Inr x, s') \<longleftrightarrow> s' = s\<lparr>sy_limiter := buckets_success (sy_limiter s) keys\<rparr>"
  by (auto simp: attempt_succeeded_def limiter_h_def)

lemma password_verify_Inr:
  "password_verify_h w p stored s = (Inr ok, s') \<longleftrightarrow> aw_argon_verify w p stored = Some ok \<and> s' = s"
  by (auto simp: password_verify_h_def return_h_def fail_h_def split: option.splits)

lemma replay_h_Inr: "replay_h f s = (Inr x, s') \<longleftrightarrow> (\<exists>g. f (sy_replay s) = (x, g) \<and> s' = s\<lparr>sy_replay := g\<rparr>)"
  by (auto simp: replay_h_def split: prod.splits)

lemma pending_h_Inr: "pending_h f s = (Inr x, s') \<longleftrightarrow> (\<exists>p. f (sy_pending s) = (x, p) \<and> s' = s\<lparr>sy_pending := p\<rparr>)"
  by (auto simp: pending_h_def split: prod.splits)

lemma decrypt_h_Inr: "decrypt_h w data s = (Inr x, s') \<longleftrightarrow> cipher_decrypt (aw_cipher w) data = Inr x \<and> s' = s"
  by (auto simp: decrypt_h_def return_h_def fail_h_def split: sum.splits)

lemma matching_step_h_Inr:
  "matching_step_h w secret code s = (Inr m, s') \<longleftrightarrow>
     m = matching_step_at (aw_hmac w) secret code (whole_seconds (max 0 (aw_utc w (sy_tick s)))) \<and>
     s' = s\<lparr>sy_tick := sy_tick s + 1\<rparr>"
  by (auto simp: matching_step_h_def utc_h_def handler_Inr)

section \<open>Sessions that open\<close>

text \<open>
  The session of a new token: sixteen bytes of the random source name it, it is stored by the hash of its secret, for
  thirty days; the response carries it in a cookie.
\<close>

definition new_session :: "'n auth_world \<Rightarrow> session_token \<Rightarrow> instant \<Rightarrow> int \<Rightarrow> session_row" where
  "new_session w token now i =
     \<lparr>ss_id = st_id token, ss_token_hash = secret_hash (aw_sha256 w) token, ss_created_at = to_sql now,
      ss_expires_at = to_sql (now + days LIFETIME_DAYS), ss_user_id = Some i\<rparr>"

definition opened :: "'n auth_world \<Rightarrow> auth_db \<Rightarrow> user \<Rightarrow> string \<Rightarrow> auth_db \<Rightarrow> bool" where
  "opened w db u cookie db' =
     (\<exists>t. let token = session_generate (aw_random w t); row = new_session w token (aw_utc w (t + 1)) (us_id u)
          in cookie = cookie_set token (aw_cookie_secure w) \<and> list_all (\<lambda>r. ss_id r \<noteq> st_id token) (ub_sessions db) \<and>
             set (ub_sessions db') \<subseteq> insert row (set (ub_sessions db)) \<and>
             (to_sql (aw_utc w (t + 3)) < ss_expires_at row \<longrightarrow> row \<in> set (ub_sessions db')))"

lemma open_session_Inr:
  assumes "open_session w u ip s = (Inr cookie, s')"
  shows "opened w (sy_db s) u cookie (sy_db s') \<and> sy_pending s' = sy_pending s \<and> sy_replay s' = sy_replay s \<and>
    sy_limiter s' = sy_limiter s \<and> ub_codes (sy_db s') = ub_codes (sy_db s)"
proof -
  let ?token = "session_generate (aw_random w (sy_tick s))"
  obtain db where ins: "session_insert (aw_sha256 w) ?token (aw_utc w (sy_tick s + 1)) (us_id u) (sy_db s) = Some db"
    and cookie: "cookie = cookie_set ?token (aw_cookie_secure w)"
    and audit: "audit_h w (Some (us_username u)) ''login'' None ip (s\<lparr>sy_tick := sy_tick s + 6,
      sy_db := touch_login (aw_utc w (sy_tick s + 5)) (us_id u) (purge_expired (aw_utc w (sy_tick s + 3)) db)\<rparr>) = (Inr (), s')"
    using assms
    by (auto simp: open_session_def session_create_def Let_def handler_Inr random_h_def utc_h_def exec_h_Inr numeral_eq_Suc)
  show ?thesis
    using ins audit_h_Inr [OF audit] cookie
    by (auto simp: opened_def Let_def new_session_def session_insert_def touch_login_def update_user_def purge_expired_def
        list_ex_iff list_all_iff split: if_splits intro!: exI [of _ "sy_tick s"])
qed


lemma by_username_Some: "by_username name db = Some u \<Longrightarrow> u \<in> set (ub_users db) \<and> nocase (us_username u) = nocase name"
  by (auto simp: by_username_def dest: find_SomeD)

lemma sole_password_user_Some:
  assumes "sole_password_user db = Some u"
  shows "filter (\<lambda>u. us_password_hash u \<noteq> None) (ub_users db) = [u]"
proof -
  obtain us where us: "us = filter (\<lambda>u. us_password_hash u \<noteq> None) (ub_users db)" by blast
  then have "take 2 us = [u]" using assms by (auto simp: sole_password_user_def split: list.splits)
  then have "length us = 1" by (metis One_nat_def length_Cons length_take list.size(3) min_def numeral_eq_one_iff
        numeral_One semiring_norm(85))
  then show ?thesis using \<open>take 2 us = [u]\<close> us by (metis One_nat_def take_all lessI less_2_cases_iff less_imp_le_nat one_le_numeral)
qed

lemma map_of_pending_start: "map_of (pending_start p token i now) token = Some \<lparr>pn_user_id = i, pn_started = now, pn_failures = 0\<rparr>"
  by (simp add: pending_start_def Let_def update_conv)

text \<open>The account a sign-in is for: the one named, or the only one with a password.\<close>

definition signs_in_as :: "auth_db \<Rightarrow> string option \<Rightarrow> user \<Rightarrow> bool" where
  "signs_in_as db name u =
     (u \<in> set (ub_users db) \<and>
      (case name of Some n \<Rightarrow> nocase (us_username u) = nocase n
       | None \<Rightarrow> filter (\<lambda>u. us_password_hash u \<noteq> None) (ub_users db) = [u]))"

lemma signs_in_asI:
  "(case name of Some n \<Rightarrow> by_username n db | None \<Rightarrow> sole_password_user db) = Some u \<Longrightarrow> signs_in_as db name u"
  using sole_password_user_Some [of db u]
  by (auto simp: signs_in_as_def dest!: by_username_Some split: option.splits)
    (metis filter_is_subset list.set_intros(1) subset_code(1))

text \<open>
  C9: a sign-in that is accepted is for an account that is not disabled and whose stored hash the password matches. If the
  account has a second factor no session is opened: the answer is a token that waits for a code, with no wrong code yet;
  otherwise the session opened is that account's, and the cookie carries its secret.
\<close>

theorem sign_in_sound:
  assumes "login w ip username password s = (Inr r, s')"
  shows "\<exists>u h. signs_in_as (sy_db s) (given_name username) u \<and> \<not> us_disabled u \<and>
    us_password_hash u = Some h \<and> aw_argon_verify w password h = Some True \<and>
    (case r of
       LrSession cookie \<Rightarrow>
         \<not> (us_totp_enabled u \<and> us_totp_secret u \<noteq> None) \<and> opened w (sy_db s) u cookie (sy_db s')
     | LrTotpRequired token \<Rightarrow>
         us_totp_enabled u \<and> us_totp_secret u \<noteq> None \<and> sy_db s' = sy_db s \<and>
         (\<exists>t. map_of (sy_pending s') token = Some \<lparr>pn_user_id = us_id u, pn_started = t, pn_failures = 0\<rparr>))"
proof -
  let ?keys = "login_keys w ip (given_name username)"
  define fin where "fin u = (if us_totp_enabled u \<and> us_totp_secret u \<noteq> None
       then bind_h (instant_h w) (\<lambda>now. bind_h (random_h w) (\<lambda>random.
             let token = hex_encode (map random [0..<32]) in
             pending_h (\<lambda>p. (LrTotpRequired token, pending_start p token (us_id u) now))))
       else seq_h (attempt_succeeded ?keys) (bind_h (open_session w u ip) (\<lambda>cookie. return_h (LrSession cookie))))" for u
  note login = assms [unfolded login_def Let_def, folded fin_def [unfolded Let_def]]
  obtain s1 where s1: "is_configured w s = (Inr True, s1)"
    using login by (auto simp: handler_Inr split: if_splits)
  obtain s2 where s2: "guard_attempt w ?keys s1 = (Inr (), s2)"
    using login s1 by (auto simp: handler_Inr)
  have db: "sy_db s2 = sy_db s"
    using is_configured_Inr [OF s1] guard_attempt_Inr [OF s2] by simp
  let ?found = "case given_name username of Some name \<Rightarrow> by_username name (sy_db s) | None \<Rightarrow> sole_password_user (sy_db s)"
  let ?s3 = "s2\<lparr>sy_tick := sy_tick s2 + 1\<rparr>"
  obtain u where u: "?found = Some u" "\<not> us_disabled u" and h: "us_password_hash u \<noteq> None"
    and v: "aw_argon_verify w password (the (us_password_hash u)) = Some True" and rest: "fin u ?s3 = (Inr r, s')"
    using login s1 s2
    by (auto simp: db handler_Inr password_verify_Inr split: option.splits if_splits)
  show ?thesis
  proof (cases "us_totp_enabled u \<and> us_totp_secret u \<noteq> None")
    case True
    then show ?thesis
      using rest u h v db signs_in_asI [OF u(1)]
      by (auto simp: fin_def handler_Inr instant_h_def random_h_def pending_h_def Let_def map_of_pending_start
          intro!: exI [of _ u])
  next
    case False
    then obtain cookie where "r = LrSession cookie"
      and o: "open_session w u ip (?s3\<lparr>sy_limiter := buckets_success (sy_limiter s2) ?keys\<rparr>) = (Inr cookie, s')"
      using rest by (auto simp: fin_def handler_Inr attempt_succeeded_Inr)
    then show ?thesis
      using False u h v db signs_in_asI [OF u(1)] open_session_Inr [OF o] by (auto intro!: exI [of _ u])
  qed
qed


section \<open>The second factor is spent\<close>

text \<open>
  A recovery code of the account that was unused and is used now, or the code of a time step close to the clock, later
  than every step this account has used.
\<close>

definition factor_spent :: "'n auth_world \<Rightarrow> user \<Rightarrow> string \<Rightarrow> auth_sys \<Rightarrow> auth_sys \<Rightarrow> bool" where
  "factor_spent w u code s s' =
     (if looks_like_recovery_code code
      then Suc (recovery_codes_left (us_id u) (sy_db s')) = recovery_codes_left (us_id u) (sy_db s) \<and>
           sy_replay s' = sy_replay s
      else \<exists>encrypted secret step t. us_totp_secret u = Some encrypted \<and> cipher_decrypt (aw_cipher w) encrypted = Inr secret \<and>
             drop_white code = show_padded DIGITS (hotp (aw_hmac w) secret (nat step)) \<and>
             \<bar>step - int (whole_seconds (max 0 (aw_utc w t)) div PERIOD)\<bar> \<le> WINDOW \<and>
             sy_replay s' = (sy_replay s)(us_id u \<mapsto> step) \<and>
             (\<forall>prev. sy_replay s (us_id u) = Some prev \<longrightarrow> prev < step))"

lemma consume_counts:
  assumes "consume_recovery_code now i hash db = (True, db')" "codes_wf db"
  shows "Suc (recovery_codes_left i db') = recovery_codes_left i db"
proof -
  let ?P = "\<lambda>r. rr_user_id r = i \<and> rr_used_at r = None"
  obtain row where row: "row \<in> set (ub_codes db)" "?P row"
    and db': "ub_codes db' = map (\<lambda>r. if rr_id r = rr_id row then r\<lparr>rr_used_at := Some (sql_now now)\<rparr> else r) (ub_codes db)"
    using assms(1) by (auto simp: consume_recovery_code_def dest!: find_SomeD split: option.splits)
  have "Suc (length (filter ?P (map (\<lambda>r. if rr_id r = rr_id row then r\<lparr>rr_used_at := Some (sql_now now)\<rparr> else r) rows))) =
      length (filter ?P rows)" if "row \<in> set rows" "distinct (map rr_id rows)" for rows
    using that
  proof (induction rows)
    case (Cons r rows)
    show ?case
    proof (cases "r = row")
      case True
      then have "rr_id row \<notin> rr_id ` set rows" using Cons.prems(2) by auto
      then have "map (\<lambda>r. if rr_id r = rr_id row then r\<lparr>rr_used_at := Some (sql_now now)\<rparr> else r) rows = rows"
        by (intro map_idI) (metis imageI)
      then show ?thesis using True row(2) by simp
    next
      case False
      then have "row \<in> set rows" using Cons.prems by simp
      moreover from this have "rr_id r \<noteq> rr_id row" using Cons.prems by (auto simp: image_iff)
      ultimately show ?thesis using Cons.IH Cons.prems(2) by simp
    qed
  qed simp
  then show ?thesis
    using row(1) db' assms(2) by (simp add: recovery_codes_left_def codes_wf_def)
qed

lemma second_factor_spent:
  assumes "second_factor w u ip code s = (Inr True, s')" "codes_wf (sy_db s)"
  shows "factor_spent w u code s s' \<and> sy_pending s' = sy_pending s \<and> sy_limiter s' = sy_limiter s \<and>
    ub_users (sy_db s') = ub_users (sy_db s) \<and> ub_sessions (sy_db s') = ub_sessions (sy_db s)"
proof (cases "looks_like_recovery_code code")
  case True
  obtain db where db: "consume_recovery_code (aw_utc w (sy_tick s)) (us_id u) (hash_recovery_code (aw_sha256 w) code) (sy_db s) =
      (True, db)"
    and a: "audit_h w (Some (us_username u)) ''totp.recovery_used'' None ip (s\<lparr>sy_tick := sy_tick s + 1, sy_db := db\<rparr>) =
      (Inr (), s')"
    using assms(1) True by (auto simp: second_factor_def handler_Inr when_h_def)
  have same: "ub_users db = ub_users (sy_db s) \<and> ub_sessions db = ub_sessions (sy_db s)"
    using db by (auto simp: consume_recovery_code_def split: option.splits)
  show ?thesis
    using consume_counts [OF db assms(2)] audit_h_Inr [OF a] True same
    by (simp add: factor_spent_def recovery_codes_left_def)
next
  case False
  obtain encrypted secret step t where s: "us_totp_secret u = Some encrypted" "cipher_decrypt (aw_cipher w) encrypted = Inr secret"
      "matching_step_at (aw_hmac w) secret code (whole_seconds (max 0 (aw_utc w t))) = Some step"
    and g: "replay_accept (sy_replay s) (us_id u) step = (True, sy_replay s')" "sy_db s' = sy_db s"
      "sy_pending s' = sy_pending s" "sy_limiter s' = sy_limiter s"
    using assms(1) False
    by (auto simp: second_factor_def handler_Inr decrypt_h_Inr matching_step_h_Inr login_expired_def replay_h_Inr
        split: option.splits)
  show ?thesis
    using s g replay_accept_True [OF g(1)] matching_step_sound [OF s(3)] False by (auto simp: factor_spent_def)
qed




section \<open>A change of password\<close>

lemma change_password_outcome:
  assumes "change_password w u current ip old new s = (Inr r, s')"
  shows "\<exists>stored hash t. us_password_hash u = Some stored \<and> aw_argon_verify w old stored = Some True \<and>
    MIN_LENGTH \<le> chars_count new \<and> aw_argon_hash w new (aw_random w t) = Some hash \<and>
    ub_users (sy_db s') = change_one (us_id u) (\<lambda>v. v\<lparr>us_password_hash := Some hash\<rparr>) (ub_users (sy_db s)) \<and>
    ub_sessions (sy_db s') =
      filter (\<lambda>x. ss_user_id x = Some (us_id u) \<longrightarrow> current \<noteq> None \<and> ss_id x = st_id (the current)) (ub_sessions (sy_db s)) \<and>
    sy_pending s' = sy_pending s"
proof -
  let ?keys = "limiter_keys w ip (Some (us_username u))"
  obtain stored where stored: "us_password_hash u = Some stored"
    using assms by (auto simp: change_password_def fail_h_def split: option.splits)
  obtain s1 where s1: "guard_attempt w ?keys s = (Inr (), s1)"
    using assms stored by (auto simp: change_password_def Let_def handler_Inr)
  let ?s2 = "s1\<lparr>sy_limiter := buckets_success (sy_limiter s1) ?keys\<rparr>"
  obtain hash where v: "aw_argon_verify w old stored = Some True" and len: "MIN_LENGTH \<le> chars_count new"
    and hash: "aw_argon_hash w new (aw_random w (sy_tick s1)) = Some hash"
    and audit: "audit_h w (Some (us_username u)) ''password.changed'' None ip (?s2\<lparr>sy_tick := Suc (Suc (Suc (sy_tick s1))),
      sy_db := snd (delete_for_user (us_id u) (map_option st_id current) (set_password_hash (us_id u) hash (sy_db s1)))\<rparr>) = (Inr (), s')"
    using assms stored s1
    by (auto simp: change_password_def Let_def handler_Inr password_verify_Inr attempt_succeeded_Inr password_validate_def
        lift_h_def password_hash_h_def random_h_def exec_h_Inr split: if_splits option.splits)
  show ?thesis
    using stored v len hash audit_h_Inr [OF audit] guard_attempt_Inr [OF s1]
    by (auto simp: delete_for_user_def set_password_hash_def update_user_users Let_def intro!: filter_cong split: option.splits)
qed

text \<open>
  C11: a change of password that succeeds was made with the current password; the new one is long enough and replaces it;
  of the sessions of the account only the one that asked remains, those of the others are untouched. The sign-ins that
  wait for a code are left as they are.
\<close>

theorem password_change_closes:
  assumes "change_password w u current ip old new s = (Inr r, s')"
  shows "\<exists>stored hash t. us_password_hash u = Some stored \<and> aw_argon_verify w old stored = Some True \<and>
    MIN_LENGTH \<le> chars_count new \<and> aw_argon_hash w new (aw_random w t) = Some hash \<and>
    ub_users (sy_db s') = change_one (us_id u) (\<lambda>v. v\<lparr>us_password_hash := Some hash\<rparr>) (ub_users (sy_db s)) \<and>
    ub_sessions (sy_db s') =
      filter (\<lambda>x. ss_user_id x = Some (us_id u) \<longrightarrow> current \<noteq> None \<and> ss_id x = st_id (the current)) (ub_sessions (sy_db s)) \<and>
    sy_pending s' = sy_pending s"
  by (rule change_password_outcome [OF assms])

text \<open>
  a sign-in that waits for its code when the password is changed can still be finished: for five minutes its token
  designates the account, although the password it was given for is no longer the one of the account.
\<close>

theorem waiting_sign_in_survives:
  assumes "map_of (sy_pending s) token = Some p" "duration_since now (pn_started p) < TTL"
    "change_password w u current ip old new s = (Inr r, s')"
  shows "pending_lookup (sy_pending s') token now = (LoCandidate (pn_user_id p), sy_pending s')"
  using change_password_outcome [OF assms(3)] assms(1,2) by (auto simp: pending_lookup_def)


section \<open>The administrators\<close>

text \<open>
  C2: whatever sequence of requests is served, sign-ins through the provider included, whoever sends them and whichever
  statements of the database fail, an instance that has an administrator who is not disabled keeps one; account names stay
  unique without regard to case and every session names an existing account.
\<close>

theorem administrator_remains:
  assumes "served w st s t" "administered (sy_db s)"
  shows "administered (sy_db t)"
  using assms by (rule served_keeps)

definition demote :: update_payload where
  "demote = \<lparr>up_display_name = None, up_role = Some Viewer, up_disabled = None, up_password = None\<rparr>"

lemma users_get_wf: "users_wf db \<Longrightarrow> u \<in> set (ub_users db) \<Longrightarrow> users_get (us_id u) db = Some u"
proof -
  assume wf: "users_wf db" and u: "u \<in> set (ub_users db)"
  then obtain v where v: "users_get (us_id u) db = Some v"
    by (cases "users_get (us_id u) db") (auto simp: users_get_def find_None_iff)
  then show ?thesis using users_get_in [OF v] user_of_id [OF wf _ u] by auto
qed

lemma demote_check:
  assumes "\<And>t. \<not> aw_sql_fails w t" "users_wf (sy_db s)" "u \<in> set (ub_users (sy_db s))" "1 < active_admin_count (sy_db s)"
  shows "\<exists>s'. update_checks w me (us_id u) demote s = (Inr u, s') \<and> sy_db s' = sy_db s"
  using assms users_get_wf [OF assms(2,3)]
  by (simp add: update_checks_def load_user_def handler_defs demote_def)

lemma audit_users: "ub_users (sy_db (snd (audit_h w a b c ip s))) = ub_users (sy_db s)"
  by (simp add: audit_h_def audit_record_def Let_def)

lemma demote_writes:
  assumes "\<And>t. \<not> aw_sql_fails w t" "us_role u = Admin" "v \<in> set (ub_users (sy_db s))"
  shows "ub_users (sy_db (snd (update_writes w me ip (us_id v) demote u s))) =
    change_one (us_id v) (\<lambda>u. u\<lparr>us_role := Viewer\<rparr>) (ub_users (sy_db s))"
proof -
  have "\<exists>x. users_get (us_id v) (set_role (us_id v) Viewer db) = Some x" if "ub_users db = ub_users (sy_db s)" for db
    using assms(3) that by (cases "users_get (us_id v) (set_role (us_id v) Viewer db)")
      (auto simp: users_get_def find_None_iff set_role_def update_user_def)
  from this [OF refl] show ?thesis
    using assms(1,2)
    by (auto simp: update_writes_def demote_def load_user_def handler_defs when_h_def set_role_def update_user_users
        audit_users split: prod.splits sum.splits dest!: arg_cong [where f = snd])
qed

text \<open>
  C39: two administrators who demote each other at the same time leave none: when both requests have made their checks before
  either writes, both are let through, and no active administrator remains. The count and the change are not one statement.
\<close>

theorem crossed_demotions_leave_no_admin:
  assumes "\<And>t. \<not> aw_sql_fails w t" "users_wf (sy_db s)" "active_admin_count (sy_db s) = 2"
    "u \<in> set (ub_users (sy_db s))" "is_active_admin u" "v \<in> set (ub_users (sy_db s))" "is_active_admin v" "us_id u \<noteq> us_id v"
  shows "\<exists>s1 s2. update_checks w v (us_id u) demote s = (Inr u, s1) \<and> update_checks w u (us_id v) demote s1 = (Inr v, s2) \<and>
    active_admin_count (sy_db (snd (update_writes w u ip (us_id v) demote v
      (snd (update_writes w v ip (us_id u) demote u s2))))) = 0"
proof -
  let ?f = "\<lambda>u. u\<lparr>us_role := Viewer\<rparr>" and ?us = "ub_users (sy_db s)"
  obtain s1 where s1: "update_checks w v (us_id u) demote s = (Inr u, s1)" "sy_db s1 = sy_db s"
    using demote_check [OF assms(1,2,4)] assms(3) by fastforce
  obtain s2 where s2: "update_checks w u (us_id v) demote s1 = (Inr v, s2)" "sy_db s2 = sy_db s"
    using demote_check [OF assms(1), of s1 v] assms(2,3,6) s1(2) by fastforce
  let ?s3 = "snd (update_writes w v ip (us_id u) demote u s2)"
  have s3: "ub_users (sy_db ?s3) = change_one (us_id u) ?f ?us"
    using demote_writes [of w u u s2] assms(1,4,5) s2(2) by (simp add: is_active_admin_def)
  have v: "v \<in> set (ub_users (sy_db ?s3))"
    using assms(6,8) unfolding s3 change_one_def by (auto intro!: image_eqI [of _ _ v])
  have s4: "ub_users (sy_db (snd (update_writes w u ip (us_id v) demote v ?s3))) =
      change_one (us_id v) ?f (change_one (us_id u) ?f ?us)"
    using demote_writes [of w v v ?s3] assms(1,7) v s3 by (simp add: is_active_admin_def)
  have two: "set (filter is_active_admin ?us) = {u, v}"
  proof (rule sym, rule card_seteq)
    show "{u, v} \<subseteq> set (filter is_active_admin ?us)" using assms(4-7) by simp
    have "u \<noteq> v" using assms(8) by blast
    then have "card {u, v} = 2" by simp
    then show "card (set (filter is_active_admin ?us)) \<le> card {u, v}"
      using card_length [of "filter is_active_admin ?us"] assms(3) by (simp add: active_admin_count_def)
  qed simp
  have "\<not> is_active_admin x" if "x \<in> set (change_one (us_id v) ?f (change_one (us_id u) ?f ?us))" for x
    using that two by (auto simp: change_one_def is_active_admin_def set_eq_iff split: if_splits)
  then show ?thesis
    using s1(1) s2(1) s4 by (simp add: active_admin_count_def filter_empty_conv)
qed

text \<open>
  an update of an account with a new password that is too short answers 400, but the display name and the role it
  asked for are already changed.
\<close>

theorem refused_update_half_applied:
  assumes "\<And>t. \<not> aw_sql_fails w t" "users_get i (sy_db s) = Some u"
    "up_password payload = Some p" "p \<noteq> []" "chars_count p < MIN_LENGTH"
    "up_display_name payload = Some name" "up_role payload = Some r" "r \<noteq> us_role u" "up_disabled payload = None"
    "\<not> is_active_admin u \<or> 1 < active_admin_count (sy_db s)"
  shows "\<exists>e s'. user_update w me ip i payload s = (Inl e, s') \<and> auth_error_status e = 400 \<and>
    ub_users (sy_db s') =
      change_one i (\<lambda>v. v\<lparr>us_role := r\<rparr>) (change_one i (\<lambda>v. v\<lparr>us_display_name := trim name\<rparr>) (ub_users (sy_db s)))"
proof -
  have "role_is_admin (us_role u) \<longleftrightarrow> us_role u = Admin" by (cases "us_role u") auto
  then show ?thesis
    using assms
    by (auto simp: user_update_def update_checks_def update_writes_def load_user_def loses_admin_def handler_defs when_h_def
        set_role_def set_display_name_def update_user_users password_validate_def lift_h_def is_active_admin_def Let_def
        split: role.splits)
qed


section \<open>Examples\<close>

definition demotion_request :: request where
  "demotion_request = \<lparr>rq_method = ''PUT'', rq_path = ''/api/users/1'', rq_headers = [], rq_peer = None\<rparr>"

lemma sample_administered: "administered (sy_db sample_sys)"
  by (simp add: administered_def tables_ok_def users_wf_def sessions_wf_def sample_defs admin_left_def is_active_admin_def
      nocase_def ascii_lower_def)

theorem administrator_remains_witness:
  "administered (sy_db (snd (serve sample_world (\<lambda>_. []) demotion_request (AcUserUpdate 1 demote) sample_sys)))"
proof -
  have "show_int 1 = ''1''" by code_simp
  then have "matches_route demotion_request (AcUserUpdate 1 demote)"
    by (simp add: matches_route_def demotion_request_def)
  then show ?thesis
    by (rule administrator_remains [OF served_next [OF served_none] sample_administered])
qed

lemma sample_argon [simp]:
  "aw_argon_verify sample_world p h = Some (p = h)" "aw_sql_fails sample_world t = False" "aw_demo sample_world = False"
  by (simp_all add: sample_world_def)

lemma no_wait: "buckets_check [] keys now = Inr ()"
proof -
  have "bucket_wait [] now key = 0" for key by (simp add: bucket_wait_def)
  then have "foldl (\<lambda>wait key. max wait (bucket_wait [] now key)) 0 keys = 0" by (induction keys) simp_all
  then show ?thesis by (simp add: buckets_check_def)
qed

lemma sample_open_session:
  assumes "ub_users (sy_db s) = ub_users sample_auth_db" "ub_sessions (sy_db s) = ub_sessions sample_auth_db"
    "us_id u = 2"
  shows "\<exists>cookie s'. open_session sample_world u None s = (Inr cookie, s')"
proof -
  have "hex_encode (map (\<lambda>_. 7) [0..<16]) \<noteq> ''s''" by code_simp
  then show ?thesis
    using assms by (simp add: open_session_def session_create_def handler_defs session_insert_def session_generate_def audit_h_def Let_def)
      (simp add: sample_defs)
qed

lemma sample_login: "\<exists>r s'. login sample_world None (Some ''jane'') ''correct horse battery'' sample_sys = (Inr r, s')"
proof -
  have t: "given_name (Some ''jane'') = Some ''jane''"
    using trim_plain [of "''jane''"] by (simp add: given_name_def plain_char_def)
  let ?keys = "login_keys sample_world None (Some ''jane'')"
  have c: "is_configured sample_world sample_sys = (Inr True, sample_sys\<lparr>sy_tick := 1, sy_configured := Some True\<rparr>)"
    by (simp add: is_configured_def handler_defs remember_configured_def sample_defs users_count_def Let_def)
  obtain s1 where g: "guard_attempt sample_world ?keys (sample_sys\<lparr>sy_tick := 1, sy_configured := Some True\<rparr>) = (Inr (), s1)"
      and s1: "sy_db s1 = sample_auth_db"
    by (simp add: guard_attempt_def handler_defs no_wait sample_sys_def)
  have u: "by_username ''jane'' sample_auth_db = Some (sample_user 2 ''jane'' Operator)"
    by (simp add: by_username_def nocase_def ascii_lower_def sample_auth_db_def sample_user_def)
  let ?s2 = "s1\<lparr>sy_tick := sy_tick s1 + 1, sy_limiter := buckets_success (sy_limiter s1) ?keys\<rparr>"
  obtain cookie s' where o: "open_session sample_world (sample_user 2 ''jane'' Operator) None ?s2 = (Inr cookie, s')"
    using sample_open_session [of ?s2 "sample_user 2 ''jane'' Operator"] s1 by (auto simp: sample_user_def)
  have "login sample_world None (Some ''jane'') ''correct horse battery'' sample_sys = (Inr (LrSession cookie), s')"
    using c g s1 u o
    by (simp add: login_def t seq_h_def bind_h_def query_h_def sql_h_def password_verify_h_def attempt_succeeded_def
        limiter_h_def return_h_def Let_def) (simp add: sample_user_def)
  then show ?thesis by blast
qed


theorem sign_in_sound_witness:
  "\<exists>u h. signs_in_as sample_auth_db (given_name (Some ''jane'')) u \<and> \<not> us_disabled u \<and> us_password_hash u = Some h \<and>
     aw_argon_verify sample_world ''correct horse battery'' h = Some True"
proof -
  obtain r s' where "login sample_world None (Some ''jane'') ''correct horse battery'' sample_sys = (Inr r, s')"
    using sample_login by blast
  from sign_in_sound [OF this] show ?thesis by (auto simp: sample_sys_def)
qed

text \<open>The same instance, the second account with a second factor, one recovery code and a sign-in that waits.\<close>

definition kim :: user where
  "kim = (sample_user 2 ''kim'' Admin)\<lparr>us_totp_secret := Some [], us_totp_enabled := True\<rparr>"

definition factor_db :: auth_db where
  "factor_db = sample_auth_db\<lparr>ub_users := [sample_user 1 ''admin'' Admin, kim],
     ub_codes := [\<lparr>rr_id = 1, rr_user_id = 2, rr_code_hash = str_bytes ''abcdeabcde'', rr_used_at = None\<rparr>], ub_next_code := 2\<rparr>"

definition factor_sys :: auth_sys where
  "factor_sys = sample_sys\<lparr>sy_db := factor_db,
     sy_pending := [(''tok'', \<lparr>pn_user_id = 2, pn_started = 0, pn_failures = 4\<rparr>)]\<rparr>"

lemmas factor_defs = factor_sys_def factor_db_def kim_def

lemma factor_step: "\<exists>cookie s'. login_step sample_world None ''tok'' ''ABCDE-abcde'' factor_sys = (Inr cookie, s')"
proof -
  have code: "looks_like_recovery_code ''ABCDE-abcde''" "normalize_recovery_code ''ABCDE-abcde'' = ''abcdeabcde''"
    by code_simp+
  let ?keys = "limiter_keys sample_world None (Some (us_username kim))"
  have look: "pending_lookup (sy_pending factor_sys) ''tok'' (aw_instant sample_world 0) = (LoCandidate 2, sy_pending factor_sys)"
    by (simp add: pending_lookup_def factor_defs sample_defs duration_since_def TTL_def time_defs)
  have start: "sy_tick factor_sys = 0" "sy_limiter factor_sys = []" "sy_db factor_sys = factor_db"
    by (simp_all add: factor_defs sample_sys_def)
  have u: "users_get 2 factor_db = Some kim" "\<not> us_disabled kim" "us_totp_enabled kim" "us_id kim = 2"
    by (simp_all add: users_get_def factor_db_def kim_def sample_user_def)
  have sha: "aw_sha256 sample_world = (\<lambda>bs. bs)" by (simp add: sample_world_def)
  obtain db where used: "consume_recovery_code t 2 (hash_recovery_code (\<lambda>bs. bs) ''ABCDE-abcde'') factor_db = (True, db t) \<and>
      ub_users (db t) = ub_users factor_db \<and> ub_sessions (db t) = ub_sessions sample_auth_db" for t
  proof -
    have "\<exists>db. consume_recovery_code t 2 (hash_recovery_code (\<lambda>bs. bs) ''ABCDE-abcde'') factor_db = (True, db) \<and>
      ub_users db = ub_users factor_db \<and> ub_sessions db = ub_sessions sample_auth_db" for t
      by (simp add: consume_recovery_code_def hash_recovery_code_def code factor_db_def)
    then show ?thesis using that by metis
  qed
  have open_it: "\<exists>cookie s'. open_session sample_world kim None s = (Inr cookie, s')"
    if "ub_users (sy_db s) = ub_users factor_db" "ub_sessions (sy_db s) = ub_sessions sample_auth_db" for s
  proof -
    have "hex_encode (map (\<lambda>_. 7) [0..<16]) \<noteq> ''s''" by code_simp
    then show ?thesis
      using that u(4) by (simp add: open_session_def session_create_def handler_defs session_insert_def session_generate_def audit_h_def Let_def)
        (simp add: sample_defs factor_db_def u(4))
  qed
  let ?fin = "\<lambda>s. seq_h (attempt_succeeded ?keys) (seq_h (pending_h (\<lambda>p. ((), pending_finish p ''tok''))) (open_session sample_world kim None)) s"
  have fin: "\<exists>cookie s'. ?fin s = (Inr cookie, s')"
    if "ub_users (sy_db s) = ub_users factor_db" "ub_sessions (sy_db s) = ub_sessions sample_auth_db" for s
    using that open_it by (simp add: seq_h_def bind_h_def attempt_succeeded_def limiter_h_def pending_h_def)
  have second: "\<exists>s'. second_factor sample_world kim None ''ABCDE-abcde'' s = (Inr True, s') \<and>
      ub_users (sy_db s') = ub_users factor_db \<and> ub_sessions (sy_db s') = ub_sessions sample_auth_db"
    if "sy_db s = factor_db" for s
    using that used by (simp add: second_factor_def code handler_defs u(4) sha when_h_def audit_h_def audit_record_def Let_def)
  obtain s2 where g: "guard_attempt sample_world ?keys (factor_sys\<lparr>sy_tick := 2\<rparr>) = (Inr (), s2)" "sy_db s2 = factor_db"
    by (simp add: guard_attempt_def handler_defs no_wait start)
  obtain s3 where s3: "second_factor sample_world kim None ''ABCDE-abcde'' s2 = (Inr True, s3)"
      "ub_users (sy_db s3) = ub_users factor_db" "ub_sessions (sy_db s3) = ub_sessions sample_auth_db"
    using second [OF g(2)] by blast
  have "login_step sample_world None ''tok'' ''ABCDE-abcde'' factor_sys = ?fin s3"
    using look start u g(1) s3(1)
    by (simp add: login_step_def Let_def seq_h_def bind_h_def instant_h_def tick_h_def pending_h_def query_h_def sql_h_def
        numeral_2_eq_2)
  then show ?thesis using fin [OF s3(2,3)] by simp
qed



definition new_password :: string where
  "new_password = ''another long password''"

lemma kim_changes:
  "\<exists>s'. change_password sample_world kim None None ''correct horse battery'' new_password factor_sys = (Inr (), s')"
proof -
  have len: "\<not> chars_count new_password < MIN_LENGTH"
    by code_simp
  have h: "us_password_hash kim = Some ''correct horse battery''" by (simp add: kim_def sample_user_def)
  obtain s1 where "guard_attempt sample_world (limiter_keys sample_world None (Some (us_username kim))) factor_sys = (Inr (), s1)"
    by (simp add: guard_attempt_def handler_defs no_wait factor_sys_def sample_sys_def)
  moreover have "aw_argon_hash sample_world p salt = Some p" for p salt by (simp add: sample_world_def)
  ultimately show ?thesis
    using len by (simp add: change_password_def h seq_h_def bind_h_def password_verify_h_def attempt_succeeded_def limiter_h_def
      lift_h_def password_validate_def password_hash_h_def random_h_def tick_h_def return_h_def exec_h_def sql_h_def
      audit_h_def delete_for_user_def Let_def)
qed

theorem password_change_closes_witness:
  "\<exists>hash s'. change_password sample_world kim None None ''correct horse battery'' new_password factor_sys = (Inr (), s') \<and>
     ub_users (sy_db s') = change_one 2 (\<lambda>v. v\<lparr>us_password_hash := Some hash\<rparr>) (ub_users factor_db) \<and> ub_sessions (sy_db s') = []"
proof -
  obtain s' where s': "change_password sample_world kim None None ''correct horse battery'' new_password factor_sys = (Inr (), s')"
    using kim_changes by blast
  have "us_id kim = 2" "ub_sessions (sy_db factor_sys) = [\<lparr>ss_id = ''s'', ss_token_hash = str_bytes ''x'', ss_created_at = 0,
      ss_expires_at = days 30, ss_user_id = Some 2\<rparr>]"
    by (simp_all add: factor_defs sample_defs)
  then show ?thesis
    using password_change_closes [OF s'] s' by (auto simp: factor_sys_def)
qed

theorem waiting_sign_in_survives_witness:
  "\<exists>s'. change_password sample_world kim None None ''correct horse battery'' new_password factor_sys = (Inr (), s') \<and>
     fst (pending_lookup (sy_pending s') ''tok'' (seconds 60)) = LoCandidate 2"
proof -
  obtain s' where s': "change_password sample_world kim None None ''correct horse battery'' new_password factor_sys = (Inr (), s')"
    using kim_changes by blast
  have p: "map_of (sy_pending factor_sys) ''tok'' = Some \<lparr>pn_user_id = 2, pn_started = 0, pn_failures = 4\<rparr>"
    by (simp add: factor_sys_def)
  have "duration_since (seconds 60) (pn_started \<lparr>pn_user_id = 2, pn_started = 0, pn_failures = 4\<rparr>) < TTL"
    by (simp add: duration_since_def TTL_def time_defs)
  from waiting_sign_in_survives [OF p this s'] show ?thesis using s' by simp
qed

lemma factor_admins:
  "users_wf factor_db" "active_admin_count factor_db = 2" "sample_user 1 ''admin'' Admin \<in> set (ub_users factor_db)"
  "kim \<in> set (ub_users factor_db)" "is_active_admin (sample_user 1 ''admin'' Admin)" "is_active_admin kim"
  "us_id (sample_user 1 ''admin'' Admin) = 1" "us_id kim = 2"
  by (simp_all add: users_wf_def active_admin_count_def is_active_admin_def factor_db_def kim_def sample_user_def sample_auth_db_def
      nocase_def ascii_lower_def)

theorem crossed_demotions_leave_no_admin_witness:
  "\<exists>s2. active_admin_count (sy_db factor_sys) = 2 \<and>
     active_admin_count (sy_db (snd (update_writes sample_world (sample_user 1 ''admin'' Admin) None 2 demote kim
       (snd (update_writes sample_world kim None 1 demote (sample_user 1 ''admin'' Admin) s2))))) = 0"
proof -
  have db: "sy_db factor_sys = factor_db" by (simp add: factor_sys_def)
  have "us_id (sample_user 1 ''admin'' Admin) \<noteq> us_id kim" by (simp add: factor_admins)
  from crossed_demotions_leave_no_admin [of sample_world factor_sys, unfolded db, OF _ factor_admins(1-3,5,4,6) this]
  show ?thesis using db factor_admins by auto
qed

definition half_payload :: update_payload where
  "half_payload = \<lparr>up_display_name = Some ''Kim'', up_role = Some Viewer, up_disabled = None, up_password = Some ''short''\<rparr>"

theorem refused_update_half_applied_witness:
  "\<exists>e s'. user_update sample_world (sample_user 1 ''admin'' Admin) None 2 half_payload factor_sys = (Inl e, s') \<and>
     auth_error_status e = 400 \<and> ub_users (sy_db s') \<noteq> ub_users (sy_db factor_sys)"
proof -
  have db: "sy_db factor_sys = factor_db" by (simp add: factor_sys_def)
  have u: "users_get 2 (sy_db factor_sys) = Some kim"
    by (simp add: users_get_def factor_defs sample_user_def)
  have short: "chars_count ''short'' < MIN_LENGTH" by code_simp
  have half: "up_password half_payload = Some ''short''" "''short'' \<noteq> []" "chars_count ''short'' < MIN_LENGTH"
      "up_display_name half_payload = Some ''Kim''" "up_role half_payload = Some Viewer" "Viewer \<noteq> us_role kim"
      "up_disabled half_payload = None" "\<not> is_active_admin kim \<or> 1 < active_admin_count (sy_db factor_sys)"
    by (simp_all add: half_payload_def short kim_def sample_user_def db factor_admins)
  have "change_one 2 (\<lambda>v. v\<lparr>us_role := Viewer\<rparr>) (change_one 2 (\<lambda>v. v\<lparr>us_display_name := n\<rparr>) (ub_users factor_db)) \<noteq>
      ub_users factor_db" for n
    by (simp add: change_one_def factor_db_def kim_def sample_user_def)
  moreover have "\<not> aw_sql_fails sample_world t" for t by simp
  ultimately show ?thesis
    using refused_update_half_applied [OF _ u half, of sample_world "sample_user 1 ''admin'' Admin" None] db by fastforce
qed

end
