(* ===== verification/Oidc_Properties.thy ===== *)
theory Oidc_Properties
  imports Auth_Properties
begin

text \<open>
  What a sign-in through the provider guarantees (\<^verbatim>\<open>crates/server/src/auth/oidc/flow.rs\<close>): the attempt was started here and is
  used once, the token was checked, and a local administrator with a password is never taken over; what a virgin instance
  loses when the first account comes from the provider; and how the first administrator is made.
\<close>

section \<open>Identities\<close>

lemma by_oidc_Some: "by_oidc issuer sub db = Some u \<Longrightarrow> u \<in> set (ub_users db)"
  by (auto simp: by_oidc_def dest: find_SomeD)

lemma users_insert_id:
  "users_insert now nu db = Some (Some i, db') \<Longrightarrow> i = ub_next_user db \<and> ub_users db' = ub_users db @ [user_of_new i now nu] \<and>
     ub_next_user db' = ub_next_user db + 1"
  by (auto simp: users_insert_def add_user_def split: if_splits)

lemma find_last: "\<forall>x \<in> set xs. \<not> P x \<Longrightarrow> P y \<Longrightarrow> find P (xs @ [y]) = Some y"
  by (induction xs) auto

text \<open>The statements of \<^const>\<open>try_names\<close> before the one that succeeds change nothing.\<close>

lemma try_names_account:
  "try_names w issuer claims role base ns s = (Inr (Inr u), s') \<Longrightarrow> users_wf (sy_db s) \<Longrightarrow>
     us_id u = ub_next_user (sy_db s) \<and> us_role u = role \<and> \<not> us_disabled u \<and> us_password_hash u = None \<and>
     ub_users (sy_db s') = ub_users (sy_db s) @ [u]"
proof (induction ns arbitrary: s)
  case (Cons n ns)
  let ?nu = "\<lparr>nu_username = if n = 0 then base else base @ ''-'' @ show_nat n,
      nu_display_name = (case cl_name claims of None \<Rightarrow> [] | Some x \<Rightarrow> x), nu_role = role,
      nu_password_hash = None, nu_oidc = Some (issuer, cl_sub claims)\<rparr>"
  let ?now = "aw_utc w (sy_tick s)"
  obtain created db where ins: "users_insert ?now ?nu (sy_db s) = Some (created, db)"
    and rest: "(case created of
        Some i \<Rightarrow> bind_f (lift_f (query_h w (users_get i)))
          (\<lambda>found. case found of None \<Rightarrow> fail_f FeInternal | Some u \<Rightarrow> return_f u)
      | None \<Rightarrow> try_names w issuer claims role base ns) (s\<lparr>sy_tick := Suc (sy_tick s), sy_db := db\<rparr>) = (Inr (Inr u), s')"
    using Cons.prems(1) by (auto simp: Let_def bind_f_Inr lift_f_Inr sql_h_Inr)
  show ?case
  proof (cases created)
    case None
    then have "db = sy_db s" using ins by (auto simp: users_insert_def split: if_splits)
    then show ?thesis using Cons.IH rest None Cons.prems(2) by fastforce
  next
    case (Some i)
    have new: "i = ub_next_user (sy_db s)" "ub_users db = ub_users (sy_db s) @ [user_of_new i ?now ?nu]"
      using users_insert_id ins Some by auto
    have "\<forall>v \<in> set (ub_users (sy_db s)). us_id v \<noteq> i"
      using Cons.prems(2) new(1) by (auto simp: users_wf_def)
    then have "users_get i db = Some (user_of_new i ?now ?nu)"
      unfolding users_get_def new(2) by (intro find_last) (simp_all add: user_of_new_def)
    then show ?thesis
      using rest Some new by (auto simp: flow_Inr query_h_Inr user_of_new_def)
  qed
qed (simp add: fail_f_Inr)

text \<open>
  The account an identity stands for: already linked to it; or named by its verified address, without another identity and
  not an administrator with a password; or new, when new accounts are allowed.
\<close>

definition found_for :: "oidc_config \<Rightarrow> id_claims \<Rightarrow> auth_db \<Rightarrow> user \<Rightarrow> bool" where
  "found_for config claims db u =
     (by_oidc (oc_issuer config) (cl_sub claims) db = Some u \<or>
      (\<exists>email. verified_email claims = Some email \<and> by_username email db = Some u \<and> us_oidc_subject u = None \<and>
         (us_role u \<noteq> Admin \<or> us_password_hash u = None)) \<or>
      (oc_auto_create config \<and> (\<forall>v \<in> set (ub_users db). us_id v \<noteq> us_id u)))"

lemma find_linkable_Some:
  assumes "find_linkable w claims s = (Inr (Inr (Some u)), s')"
  shows "\<exists>email. verified_email claims = Some email \<and> by_username email (sy_db s) = Some u \<and> us_oidc_subject u = None \<and>
    (us_role u \<noteq> Admin \<or> us_password_hash u = None)"
proof -
  obtain email where e: "verified_email claims = Some email"
    using assms by (auto simp: find_linkable_def return_f_Inr split: option.splits)
  then show ?thesis
    using assms by (auto simp: find_linkable_def flow_Inr query_h_Inr split: option.splits if_splits)
qed

lemma identity_account_found:
  assumes "identity_account w config claims s = (Inr (Inr u), s')" "users_wf (sy_db s)"
  shows "found_for config claims (sy_db s) u"
proof -
  have new: "\<forall>v \<in> set (ub_users (sy_db s)). us_id v \<noteq> us_id u"
    if "try_names w issuer claims role base ns t = (Inr (Inr u), t')" "sy_db t = sy_db s" for issuer role base ns t t'
    using try_names_account [OF that(1)] that(2) assms(2) by (auto simp: users_wf_def)
  let ?t = "s\<lparr>sy_tick := Suc (sy_tick s)\<rparr>"
  show ?thesis
  proof (cases "by_oidc (oc_issuer config) (cl_sub claims) (sy_db s)")
    case (Some v)
    then show ?thesis
      using assms(1) by (auto simp: identity_account_def flow_Inr query_h_Inr found_for_def)
  next
    case None
    then obtain linkable t2 where link: "find_linkable w claims ?t = (Inr (Inr linkable), t2)"
      and rest: "(case linkable of
           Some u \<Rightarrow> bind_f (lift_f (link_h w (us_id u) (oc_issuer config) (cl_sub claims))) (\<lambda>_. return_f u)
         | None \<Rightarrow> if \<not> oc_auto_create config then fail_f FeNoAccount
             else create_account w (oc_issuer config) claims
                    (case claimed_role config claims None of None \<Rightarrow> Viewer | Some r \<Rightarrow> r)) t2 = (Inr (Inr u), s')"
      using assms(1) by (auto simp: identity_account_def bind_f_Inr lift_f_Inr query_h_Inr)
    have t2: "sy_db t2 = sy_db s"
      using link by (auto simp: find_linkable_def flow_Inr query_h_Inr split: option.splits)
    show ?thesis
    proof (cases linkable)
      case (Some v)
      then have "u = v" using rest by (auto simp: bind_f_Inr return_f_Inr)
      then show ?thesis
        using find_linkable_Some [of w claims ?t v t2] link Some by (simp add: found_for_def)
    next
      case None
      then show ?thesis
        using rest new [OF _ t2] by (auto simp: create_account_def found_for_def fail_f_Inr split: if_splits)
    qed
  qed
qed

lemma follow_groups_same:
  "follow_groups w config claims u s = (Inr (Inr v), s') \<Longrightarrow>
     us_id v = us_id u \<and> us_disabled v = us_disabled u \<and> us_password_hash v = us_password_hash u"
  by (auto simp: follow_groups_def flow_Inr split: option.splits if_splits)

lemma discovery_same:
  "discovery_get w issuer s = (Inr (Inr d), s') \<Longrightarrow> sy_db s' = sy_db s \<and> sy_sso s' = sy_sso s"
  by (auto simp: discovery_get_def discovery_fetch_def Let_def flow_Inr handler_Inr instant_h_def discovery_h_def ask_h_def
      split: option.splits if_splits)

lemma sum_f_Inr:
  "(case r of Inl e \<Rightarrow> fail_f (g e) | Inr x \<Rightarrow> h x) s = (Inr (Inr y), s') \<longleftrightarrow> (\<exists>x. r = Inr x \<and> h x s = (Inr (Inr y), s'))"
  by (auto simp: fail_f_Inr split: sum.splits)

text \<open>The statements of \<^const>\<open>map_identity\<close> only touch the database.\<close>

lemma attempts_sql: "keeps (\<lambda>s. sy_sso s = m) (sql_h w f)"
  by (auto simp: keeps_def sql_h_def Let_def split: option.splits)

lemma attempts_statements:
  "keeps (\<lambda>s. sy_sso s = m) (query_h w q)" "keeps (\<lambda>s. sy_sso s = m) (exec_h w e)" "keeps (\<lambda>s. sy_sso s = m) (link_h w i a b)"
  by (simp_all add: query_h_def exec_h_def link_h_def attempts_sql)

lemmas attempts_rules = keeps_return keeps_if keeps_option keeps_flow attempts_sql attempts_statements

lemma attempts_names: "keeps (\<lambda>s. sy_sso s = m) (try_names w issuer claims role base ns)"
  by (induction ns) (simp_all only: try_names.simps Let_def, (intro attempts_rules | assumption)+)

lemma attempts_map_identity: "keeps (\<lambda>s. sy_sso s = m) (map_identity w config claims)"
  unfolding map_identity_def identity_account_def find_linkable_def create_account_def follow_groups_def
  by (intro attempts_rules attempts_names)

lemma provider_keys_same:
  "provider_keys w document kid s = (Inr (Inr keys), s') \<Longrightarrow> sy_db s' = sy_db s \<and> sy_sso s' = sy_sso s"
  by (auto simp: provider_keys_def Let_def flow_Inr handler_Inr instant_h_def discovery_h_def ask_h_def when_h_def
      split: option.splits if_splits)

text \<open>A token that was checked: an allowed algorithm, a key of the provider, its issuer and client, the nonce of the attempt.\<close>

definition token_checked :: "'n auth_world \<Rightarrow> oidc_config \<Rightarrow> sso_pending \<Rightarrow> id_claims \<Rightarrow> bool" where
  "token_checked w config p claims =
     (\<exists>id_token key alg. ol_decode (aw_oidc w) id_token key alg
          [trim_end_char (CHR ''/'') (oc_issuer config), trim_end_char (CHR ''/'') (oc_issuer config) @ ''/''] (oc_client_id config) =
        Some claims \<and> (alg = AlgRS256 \<or> alg = AlgES256) \<and> cl_nonce claims = Some (sp_nonce p))"

lemma validate_checked:
  assumes "validate_with_jwks w config document id_token (sp_nonce p) s = (Inr (Inr claims), s')"
  shows "token_checked w config p claims \<and> sy_db s' = sy_db s \<and> sy_sso s' = sy_sso s"
proof -
  obtain kid alg keys t where h: "ol_header (aw_oidc w) id_token = Some (alg, kid)"
    and k: "provider_keys w document kid s = (Inr (Inr keys), t)"
    and v: "token_validate (aw_oidc w) id_token keys (oc_issuer config) (oc_client_id config) (sp_nonce p) = Inr claims" "s' = t"
    using assms by (auto simp: validate_with_jwks_def flow_Inr sum_f_Inr)
  show ?thesis
    using v h provider_keys_same [OF k]
    by (auto simp: token_validate_def token_checked_def Let_def split: option.splits if_splits)
qed

lemma exchange_same:
  "exchange_code w config document code p s = (Inr (Inr token), s') \<Longrightarrow> sy_db s' = sy_db s \<and> sy_sso s' = sy_sso s"
  by (auto simp: exchange_code_def flow_Inr handler_Inr ask_h_def)

text \<open>What a sign-in that succeeds went through.\<close>

lemma flow_finish_steps:
  assumes "flow_finish w config params s = (Inr (Inr (u, redirect)), s')"
  shows "\<exists>state p claims t2 t3. cp_state params = Some state \<and>
    map_of (sy_sso s) state = Some p \<and> duration_since (aw_instant w (sy_tick s)) (sp_started_at p) < PENDING_TTL \<and>
    sy_sso s' = AList.delete state (sy_sso s) \<and> token_checked w config p claims \<and>
    sy_db t2 = sy_db s \<and> map_identity w config claims t2 = (Inr (Inr u), t3) \<and> \<not> us_disabled u \<and> redirect = sp_redirect p \<and>
    ub_users (sy_db s') = ub_users (touch_login (aw_utc w (sy_tick t3)) (us_id u) (sy_db t3)) \<and> sy_configured s' = Some True"
proof -
  obtain state p m code where take: "cp_state params = Some state"
      "sso_take (sy_sso s) state (aw_instant w (sy_tick s)) = (Some p, m)"
    and ok: "cp_error params = None" "cp_code params = Some code" "oidc_enabled config"
    and rest: "bind_f (discovery_get w (oc_issuer config)) (\<lambda>document.
                     bind_f (exchange_code w config document code p) (\<lambda>id_token.
                     bind_f (validate_with_jwks w config document id_token (sp_nonce p)) (\<lambda>claims.
                     bind_f (map_identity w config claims) (\<lambda>u.
                     seq_h (remember_configured True)
                     (if us_disabled u then fail_f FeDisabled
                      else bind_f (lift_f (exec_h w (\<lambda>now. touch_login now (us_id u)))) (\<lambda>_.
                             return_f (u, sp_redirect p)))))))
        (s\<lparr>sy_tick := Suc (sy_tick s), sy_sso := m\<rparr>) = (Inr (Inr (u, redirect)), s')"
    using assms
    by (auto simp: flow_finish_def handler_Inr instant_h_def sso_h_def fail_f_Inr split: option.splits if_splits prod.splits)
  obtain document t0 id_token t1 claims t2 t3 where d: "discovery_get w (oc_issuer config) (s\<lparr>sy_tick := Suc (sy_tick s), sy_sso := m\<rparr>) = (Inr (Inr document), t0)"
    and e: "exchange_code w config document code p t0 = (Inr (Inr id_token), t1)"
    and v: "validate_with_jwks w config document id_token (sp_nonce p) t1 = (Inr (Inr claims), t2)"
    and mi: "map_identity w config claims t2 = (Inr (Inr u), t3)" "\<not> us_disabled u" "redirect = sp_redirect p"
    and s': "s' = t3\<lparr>sy_configured := Some True, sy_tick := Suc (sy_tick t3),
        sy_db := touch_login (aw_utc w (sy_tick t3)) (us_id u) (sy_db t3)\<rparr>"
    using rest by (auto simp: flow_Inr handler_Inr exec_h_Inr remember_configured_def split: if_splits)
  have same: "sy_db t2 = sy_db s" "sy_sso t2 = m" "token_checked w config p claims"
    using discovery_same [OF d] exchange_same [OF e] validate_checked [OF v] by auto
  have "sy_sso t3 = m"
    using keepsD [OF attempts_map_identity [of m w config claims] same(2)] mi(1) by simp
  then show ?thesis
    using take sso_take_Some [OF take(2)] same mi s' by fastforce
qed


section \<open>The first account\<close>


lemma invalid_h_Inr: "invalid_h r s = (Inr x, s') \<longleftrightarrow> r = Inr () \<and> s' = s"
  by (auto simp: invalid_h_def fail_h_def return_h_def split: sum.splits)

lemma lift_h_Inr: "lift_h r s = (Inr x, s') \<longleftrightarrow> r = Inr x \<and> s' = s"
  by (auto simp: lift_h_def fail_h_def return_h_def split: sum.splits)

lemma password_hash_Inr:
  "password_hash_h w p s = (Inr h, s') \<longleftrightarrow>
     aw_argon_hash w p (aw_random w (sy_tick s)) = Some h \<and> s' = s\<lparr>sy_tick := Suc (sy_tick s)\<rparr>"
  by (auto simp: password_hash_h_def random_h_def handler_Inr split: option.splits)

text \<open>
  the first configuration succeeds only on an instance without any account, with the code printed by the server and a
  password of twelve characters; it makes exactly one account, an administrator who can sign in with that password.
\<close>

theorem first_admin_needs_code:
  assumes "setup_h w ip code name password s = (Inr x, s')"
  shows "setup_matches (aw_sha256 w) (aw_setup_code w) code \<and> ub_users (sy_db s) = [] \<and> MIN_LENGTH \<le> chars_count password \<and>
    (\<exists>u t h. ub_users (sy_db s') = [u] \<and> us_role u = Admin \<and> \<not> us_disabled u \<and>
       aw_argon_hash w password (aw_random w t) = Some h \<and> us_password_hash u = Some h \<and> sy_configured s' = Some True)"
proof -
  let ?keys = "KeyUser SETUP_BUCKET None # (case ip of None \<Rightarrow> [] | Some a \<Rightarrow> [KeyIp a])"
  let ?name = "case given_name name of None \<Rightarrow> ''admin'' | Some name \<Rightarrow> name"
  define fin where "fin hash = bind_h (sql_h w (\<lambda>now db. Some (insert_first_admin now ?name hash db))) (\<lambda>created.
          if \<not> created then seq_h (remember_configured True) (fail_h already_configured)
          else remember_configured True)" for hash
  note step = assms [unfolded setup_h_def Let_def, folded fin_def]
  obtain s1 s2 where s1: "is_configured w s = (Inr False, s1)" and s2: "guard_attempt w ?keys s1 = (Inr (), s2)"
    using step by (auto simp: handler_Inr split: if_splits)
  obtain h where m: "setup_matches (aw_sha256 w) (aw_setup_code w) code" "MIN_LENGTH \<le> chars_count password"
      "aw_argon_hash w password (aw_random w (sy_tick s2)) = Some h"
    and rest: "fin h (s2\<lparr>sy_limiter := buckets_success (sy_limiter s2) ?keys, sy_tick := Suc (sy_tick s2)\<rparr>) = (Inr x, s')"
    using step s1 s2
    by (auto simp: handler_Inr attempt_succeeded_Inr invalid_h_Inr lift_h_Inr password_hash_Inr password_validate_def
        split: if_splits)
  have db: "sy_db s2 = sy_db s"
    using is_configured_Inr [OF s1] guard_attempt_Inr [OF s2] by simp
  show ?thesis
    using rest m db
    by (auto simp: fin_def handler_Inr insert_first_admin_def add_user_def user_of_new_def remember_configured_def
        split: if_splits)
qed

section \<open>Examples\<close>

text \<open>A virgin instance, with one attempt in progress.\<close>

definition virgin_sys :: auth_sys where
  "virgin_sys = sample_sys\<lparr>sy_db := sample_auth_db\<lparr>ub_users := [], ub_sessions := [], ub_tokens := []\<rparr>,
     sy_sso := [(''st'', \<lparr>sp_nonce = ''n'', sp_verifier = ''v'', sp_redirect_uri = [], sp_redirect = None, sp_started_at = 0\<rparr>)]\<rparr>"

definition sample_provider :: oidc_config where
  "sample_provider = oidc_config_default\<lparr>oc_issuer := ''https://id'', oc_client_id := ''c'', oc_client_secret := ''x'',
     oc_auto_create := True\<rparr>"

definition sample_return :: callback_params where
  "sample_return = \<lparr>cp_code = Some ''n/bob'', cp_state = Some ''st'', cp_error = None, cp_error_description = None\<rparr>"

lemma bob_is_a_name: "validate_username ''bob'' = Inr ()"
proof -
  have "trim ''bob'' = ''bob''" by (rule trim_plain) (simp add: plain_char_def)
  moreover have "\<not> has_white ''bob''" by (rule has_white_plain) (simp add: plain_char_def)
  moreover have "\<not> has_control ''bob''" "\<not> chars_count ''bob'' > 64" by code_simp+
  ultimately show ?thesis by (simp only: validate_username_def Let_def if_False if_True) simp
qed

lemma sample_trims:
  "trim ''https://id'' = ''https://id''" "trim ''c'' = ''c''" "trim ''bob'' = ''bob''"
  "trim_end_char (CHR ''/'') ''https://id'' = ''https://id''"
  by (simp_all add: trim_plain plain_char_def trim_end_char_def)

text \<open>No key is cached.\<close>

definition no_keys :: "auth_sys \<Rightarrow> bool" where
  "no_keys s = (\<forall>c. sy_discovery s = Some c \<longrightarrow> cd_jwks c = None)"

lemma sample_provider_keys:
  assumes "no_keys s"
  shows "\<exists>t. provider_keys sample_world sample_document (Some ''k'') s = (Inr (Inr [\<lparr>jk_id = Some ''k'', jk_body = []\<rparr>]), t) \<and>
    sy_db t = sy_db s"
proof (cases "sy_discovery s")
  case None
  then show ?thesis
    by (simp add: provider_keys_def Let_def handler_defs when_h_def ask_h_def return_f_def)
      (simp add: sample_world_def sample_oidc_def handler_defs)
next
  case (Some c)
  then have "cd_jwks c = None" using assms by (simp add: no_keys_def)
  then show ?thesis
    using Some by (simp add: provider_keys_def Let_def handler_defs when_h_def ask_h_def return_f_def)
      (simp add: sample_world_def sample_oidc_def handler_defs)
qed

lemma sample_validates:
  assumes "no_keys s"
  shows "\<exists>claims t. validate_with_jwks sample_world sample_provider sample_document ''n/bob'' ''n'' s = (Inr (Inr claims), t) \<and>
    sy_db t = sy_db s \<and> cl_sub claims = ''bob'' \<and> cl_preferred_username claims = Some ''bob'' \<and> cl_email_verified claims = None \<and>
    cl_extra claims = Map.empty \<and> cl_name claims = None"
proof -
  obtain t where "provider_keys sample_world sample_document (Some ''k'') s = (Inr (Inr [\<lparr>jk_id = Some ''k'', jk_body = []\<rparr>]), t)"
      "sy_db t = sy_db s"
    using sample_provider_keys [OF assms] by blast
  then show ?thesis
    by (simp add: validate_with_jwks_def bind_f_def bind_h_def return_f_def return_h_def sample_world_def sample_oidc_def
        token_validate_def find_key_def)
qed

lemma sample_discovery:
  assumes "sy_discovery s = None"
  shows "\<exists>t. discovery_get sample_world ''https://id'' s = (Inr (Inr sample_document), t) \<and> sy_db t = sy_db s \<and> no_keys t"
  using assms
  by (simp add: discovery_get_def discovery_fetch_def Let_def sample_trims well_known_url_def ask_h_def handler_defs
      bind_f_def return_f_def no_keys_def) (simp add: sample_world_def sample_oidc_def sample_document_def sample_trims handler_defs bind_f_def return_f_def)

lemma sample_exchange:
  "\<exists>t. exchange_code sample_world sample_provider sample_document ''n/bob'' p s = (Inr (Inr ''n/bob''), t) \<and>
    sy_db t = sy_db s \<and> sy_discovery t = sy_discovery s"
  by (simp add: exchange_code_def ask_h_def handler_defs return_f_def sample_world_def sample_oidc_def)

lemma sample_identity:
  assumes "ub_users (sy_db s) = []" "cl_sub claims = ''bob''" "cl_preferred_username claims = Some ''bob''"
    "cl_email_verified claims = None" "cl_extra claims = Map.empty" "cl_name claims = None"
  shows "\<exists>u t. map_identity sample_world sample_provider claims s = (Inr (Inr u), t) \<and> \<not> us_disabled u"
proof -
  have "[0..<5] = 0 # [1..<5::nat]" by (simp add: upt_rec)
  then show ?thesis
    using assms
    by (simp add: map_identity_def identity_account_def bind_f_def lift_f_def handler_defs return_f_def by_oidc_def find_linkable_def
        verified_email_def create_account_def base_name_def sample_trims bob_is_a_name claimed_role_def role_for_groups_def
        sample_provider_def oidc_config_default_def users_insert_def by_username_def subject_taken_def add_user_def
        users_get_def user_of_new_def follow_groups_def Let_def)
qed

lemma sample_finish: "\<exists>u s'. flow_finish sample_world sample_provider sample_return virgin_sys = (Inr (Inr (u, None)), s')"
proof -
  let ?w = sample_world
  let ?p = "\<lparr>sp_nonce = ''n'', sp_verifier = ''v'', sp_redirect_uri = [], sp_redirect = None, sp_started_at = 0\<rparr>"
  have en: "oidc_enabled sample_provider"
    by (simp add: oidc_enabled_def sample_provider_def sample_trims)
  have issuer: "oc_issuer sample_provider = ''https://id''" by (simp add: sample_provider_def)
  have take: "sso_take (sy_sso virgin_sys) ''st'' (aw_instant ?w 0) = (Some ?p, [])"
    by (simp add: sso_take_def virgin_sys_def sample_defs duration_since_def PENDING_TTL_def time_defs)
  let ?s1 = "virgin_sys\<lparr>sy_tick := 1, sy_sso := []\<rparr>"
  obtain s2 where s2: "discovery_get ?w ''https://id'' ?s1 = (Inr (Inr sample_document), s2)" "sy_db s2 = sy_db virgin_sys" "no_keys s2"
    using sample_discovery [of ?s1] by (auto simp: virgin_sys_def sample_sys_def)
  obtain s3 where s3: "exchange_code ?w sample_provider sample_document ''n/bob'' ?p s2 = (Inr (Inr ''n/bob''), s3)"
      "sy_db s3 = sy_db s2" "no_keys s3"
    using sample_exchange [of ?p s2] s2(3) unfolding no_keys_def by metis
  obtain claims s4 where s4: "validate_with_jwks ?w sample_provider sample_document ''n/bob'' ''n'' s3 = (Inr (Inr claims), s4)"
      "sy_db s4 = sy_db s3" "cl_sub claims = ''bob''" "cl_preferred_username claims = Some ''bob''"
      "cl_email_verified claims = None" "cl_extra claims = Map.empty" "cl_name claims = None"
    using sample_validates [OF s3(3)] by blast
  have "ub_users (sy_db s4) = []" using s4(2) s3(2) s2(2) by (simp add: virgin_sys_def)
  then obtain u s5 where s5: "map_identity ?w sample_provider claims s4 = (Inr (Inr u), s5)" "\<not> us_disabled u"
    using sample_identity s4(3-7) by blast
  let ?s1' = "virgin_sys\<lparr>sy_tick := Suc (sy_tick virgin_sys), sy_sso := []\<rparr>"
  have "?s1' = ?s1" by (simp add: virgin_sys_def sample_sys_def)
  then have d: "discovery_get ?w (oc_issuer sample_provider) ?s1' = (Inr (Inr sample_document), s2)"
    using s2(1) issuer by simp
  have t: "sy_tick virgin_sys = 0" by (simp add: virgin_sys_def sample_sys_def)
  show ?thesis
    by (simp add: flow_finish_def sample_return_def instant_h_def tick_h_def bind_h_def sso_h_def bind_f_def seq_h_def
        remember_configured_def lift_f_def attempt_h_def exec_h_def sql_h_def return_h_def return_f_def Let_def
        take en d [unfolded t] s3(1) s4(1) s5 t)
qed



lemma admin_is_a_name: "validate_username ''admin'' = Inr ()"
proof -
  have "trim ''admin'' = ''admin''" by (rule trim_plain) (simp add: plain_char_def)
  moreover have "\<not> has_white ''admin''" by (rule has_white_plain) (simp add: plain_char_def)
  moreover have "\<not> has_control ''admin''" "\<not> chars_count ''admin'' > 64" by code_simp+
  ultimately show ?thesis by (simp only: validate_username_def Let_def if_False if_True) simp
qed

lemma virgin_configures:
  "\<exists>s'. setup_h sample_world None ''abcde fghjk'' None new_password virgin_sys = (Inr (), s')"
proof -
  let ?w = sample_world
  have m: "setup_matches (aw_sha256 ?w) (aw_setup_code ?w) ''abcde fghjk''"
    by (simp add: sample_world_def setup_matches_def) code_simp
  have v: "password_validate new_password = Inr ()" by code_simp
  obtain s1 where s1: "is_configured ?w virgin_sys = (Inr False, s1)" "ub_users (sy_db s1) = []" "sy_limiter s1 = []"
    by (simp add: is_configured_def remember_configured_def handler_defs users_count_def virgin_sys_def sample_sys_def sample_world_def)
  obtain s2 where s2: "guard_attempt ?w [KeyUser SETUP_BUCKET None] s1 = (Inr (), s2)" "ub_users (sy_db s2) = []"
    using s1(2,3) by (simp add: guard_attempt_def handler_defs no_wait)
  have h: "aw_argon_hash ?w p salt = Some p" "aw_sql_fails ?w t = False" for p salt t by (simp_all add: sample_world_def)
  show ?thesis
    by (simp add: setup_h_def Let_def s1(1) s2 m v h given_name_def admin_is_a_name seq_h_def bind_h_def attempt_succeeded_def
        limiter_h_def invalid_h_def lift_h_def password_hash_h_def random_h_def tick_h_def return_h_def sql_h_def
        insert_first_admin_def remember_configured_def)
qed

theorem first_admin_needs_code_witness:
  "\<exists>s' u. setup_h sample_world None ''abcde fghjk'' None new_password virgin_sys = (Inr (), s') \<and>
    ub_users (sy_db s') = [u] \<and> us_role u = Admin"
proof -
  obtain s' where "setup_h sample_world None ''abcde fghjk'' None new_password virgin_sys = (Inr (), s')"
    using virgin_configures by blast
  with first_admin_needs_code [OF this] show ?thesis by blast
qed

end
