(* ===== verification/Pending_Invariant.thy ===== *)
theory Pending_Invariant
  imports Account_Invariants
begin

text \<open>
  The table of the sign-ins that wait for a code (\<^verbatim>\<open>crates/server/src/auth/totp_login.rs\<close>) over all requests: it stays
  bounded, with one entry per token and none that has used up its wrong codes. Only the two steps of a sign-in touch it.
\<close>

definition waiting_ok :: "auth_sys \<Rightarrow> bool" where
  "waiting_ok s = pending_wf (sy_pending s)"

lemma waiting_ok_simps [simp]:
  "waiting_ok (s\<lparr>sy_tick := t\<rparr>) = waiting_ok s" "waiting_ok (s\<lparr>sy_limiter := b\<rparr>) = waiting_ok s"
  "waiting_ok (s\<lparr>sy_db := db\<rparr>) = waiting_ok s" "waiting_ok (s\<lparr>sy_replay := g\<rparr>) = waiting_ok s"
  "waiting_ok (s\<lparr>sy_configured := c\<rparr>) = waiting_ok s" "waiting_ok (s\<lparr>sy_purged := q\<rparr>) = waiting_ok s"
  "waiting_ok (s\<lparr>sy_sso := m\<rparr>) = waiting_ok s" "waiting_ok (s\<lparr>sy_discovery := d\<rparr>) = waiting_ok s"
  "waiting_ok (s\<lparr>sy_windows := ws\<rparr>) = waiting_ok s" "waiting_ok (s\<lparr>sy_pending := p\<rparr>) = pending_wf p"
  by (simp_all add: waiting_ok_def)

named_theorems waiting_rules \<open>a statement that leaves the waiting sign-ins in order\<close>

lemma waiting_sql [waiting_rules]: "keeps waiting_ok (sql_h w f)"
  by (auto simp: keeps_def sql_h_def Let_def split: option.splits)

lemma waiting_statements [waiting_rules]:
  "keeps waiting_ok (query_h w q)" "keeps waiting_ok (exec_h w e)" "keeps waiting_ok (instant_h w)"
  "keeps waiting_ok (utc_h w)" "keeps waiting_ok (random_h w)" "keeps waiting_ok (limiter_h fl)"
  "keeps waiting_ok (replay_h fr)" "keeps waiting_ok (windows_h fw)" "keeps waiting_ok (remember_configured c)"
  "keeps waiting_ok (audit_h w actor action subject ip)" "keeps waiting_ok (sso_h fs)" "keeps waiting_ok (discovery_h fd)"
  "keeps waiting_ok (ask_h fa)"
  by (simp_all add: waiting_sql query_h_def exec_h_def)
    (auto simp: keeps_def instant_h_def utc_h_def random_h_def tick_h_def limiter_h_def replay_h_def windows_h_def
      remember_configured_def sso_h_def discovery_h_def ask_h_def audit_h_def Let_def split: prod.splits)

lemma waiting_pending: "(\<And>p. pending_wf p \<Longrightarrow> pending_wf (snd (f p))) \<Longrightarrow> keeps waiting_ok (pending_h f)"
  by (force simp: keeps_def pending_h_def waiting_ok_def split: prod.splits)

lemma waiting_configured [waiting_rules]: "keeps waiting_ok (is_configured w)"
proof -
  have "keeps waiting_ok (bind_h (query_h w users_count) (\<lambda>n. seq_h (remember_configured (n > 0)) (return_h (n > 0))))"
    by (intro keeps_bind keeps_seq keeps_return waiting_rules)
  then show ?thesis by (simp add: keeps_def is_configured_def split: option.splits)
qed

lemma waiting_purge_once [waiting_rules]: "keeps waiting_ok (purge_once w)"
  using keepsD [OF waiting_statements(2) [of w purge_expired]] by (auto simp: keeps_def purge_once_def)

lemmas waiting_steps = keeps_return keeps_fail keeps_bind keeps_seq keeps_when keeps_lift keeps_if keeps_option keeps_sum keeps_let
  keeps_prod keeps_bool keeps_outcome keeps_attempt

lemma waiting_helpers [waiting_rules]:
  "keeps waiting_ok (password_hash_h w p)" "keeps waiting_ok (password_verify_h w p h)"
  "keeps waiting_ok (guard_attempt w keys)" "keeps waiting_ok (attempt_failed w keys)"
  "keeps waiting_ok (attempt_succeeded keys)" "keeps waiting_ok (decrypt_h w bs)"
  "keeps waiting_ok (matching_step_h w bs p)" "keeps waiting_ok (invalid_h r)" "keeps waiting_ok (load_user w i)"
  "keeps waiting_ok (open_session w u ip)" "keeps waiting_ok (second_factor w u ip code)"
  unfolding password_hash_h_def password_verify_h_def guard_attempt_def attempt_failed_def attempt_succeeded_def
    decrypt_h_def matching_step_h_def invalid_h_def load_user_def open_session_def session_create_def second_factor_def Let_def
  by (intro waiting_steps waiting_rules)+

lemma waiting_check_password [waiting_rules]: "keeps waiting_ok (check_password w u ip p)"
  unfolding check_password_def Let_def by (intro waiting_steps waiting_rules)

lemma waiting_login: "keeps waiting_ok (login w ip name p)"
  unfolding login_def Let_def by (intro waiting_steps waiting_rules waiting_pending) (simp add: pending_wf_start)

lemma waiting_login_step: "keeps waiting_ok (login_step w ip token code)"
  unfolding login_step_def Let_def
  by (intro waiting_steps waiting_rules waiting_pending)
    (simp_all add: pending_wf_lookup pending_wf_failure pending_finish_def pending_wf_delete)

lemma waiting_touch: "keeps waiting_ok (touch_if_stale w row ip)"
proof -
  have "keeps waiting_ok (\<lambda>s. (Inr (), snd (exec_h w (touch_token (tk_id row) ip) s)))" for ip
    using waiting_statements(2) [of w "touch_token (tk_id row) ip"] by (simp add: keeps_def)
  then show ?thesis unfolding touch_if_stale_def Let_def by (intro waiting_steps waiting_rules) assumption
qed

lemma waiting_guard [waiting_rules]: "keeps waiting_ok (require_session w st rq)"
  unfolding require_session_def bearer_identity_def token_check_def token_authenticate_def current_session_def
  by (intro waiting_steps waiting_rules waiting_touch)

lemma waiting_open_route: "keeps waiting_ok m \<Longrightarrow> keeps waiting_ok (open_route m f)"
  unfolding open_route_def by (intro waiting_steps waiting_rules)

lemma waiting_guarded: "(\<And>a me. keeps waiting_ok (h a me)) \<Longrightarrow> keeps waiting_ok (guarded w st rq extract h f)"
  unfolding guarded_def by (intro waiting_steps waiting_rules waiting_open_route)

lemma waiting_sso [waiting_rules]:
  "keeps waiting_ok (oidc_resolve w)" "keeps waiting_ok (session_create w i)"
  "keeps waiting_ok (discovery_get w issuer)" "keeps waiting_ok (exchange_code w config document code p)"
  "keeps waiting_ok (validate_with_jwks w config document id_token nonce)" "keeps waiting_ok (oidc_save w config)"
  "keeps waiting_ok (oidc_clear w)"
  unfolding oidc_resolve_def settings_get_def settings_get_secret_def session_create_def discovery_get_def discovery_fetch_def
    exchange_code_def validate_with_jwks_def provider_keys_def oidc_save_def oidc_clear_def settings_set_secret_def Let_def
  by (intro waiting_steps keeps_flow waiting_rules)+

lemma waiting_names: "keeps waiting_ok (try_names w issuer claims role base ns)"
  by (induction ns) (simp_all only: try_names.simps Let_def, (intro waiting_steps keeps_flow waiting_rules | assumption)+)

lemma waiting_map_identity: "keeps waiting_ok (map_identity w config claims)"
  unfolding map_identity_def identity_account_def follow_groups_def find_linkable_def create_account_def link_h_def
  by (intro waiting_steps keeps_flow waiting_rules waiting_names)

lemma waiting_sso_routes:
  "keeps waiting_ok (sso_start w rq redirect)" "keeps waiting_ok (sso_callback w rq params)"
  "keeps waiting_ok (sso_put_config w payload)" "keeps waiting_ok (sso_delete_config w)"
  unfolding sso_start_def flow_start_def sso_callback_def flow_finish_def sso_put_config_def sso_delete_config_def Let_def
  by (intro waiting_steps keeps_flow waiting_rules waiting_map_identity)+

lemma waiting_own_routes:
  "keeps waiting_ok (setup_h w ip code name p)" "keeps waiting_ok (logout w current)"
  "keeps waiting_ok (change_password w u current ip old new)" "keeps waiting_ok (totp_enroll w u ip p)"
  "keeps waiting_ok (totp_verify w u ip code)" "keeps waiting_ok (totp_disable w u ip p)"
  "keeps waiting_ok (totp_admin_reset w u ip i)"
  unfolding setup_h_def logout_def change_password_def totp_enroll_def totp_verify_def totp_disable_def
    totp_admin_reset_def Let_def
  by (intro waiting_steps waiting_rules)+

lemma waiting_admin_routes:
  "keeps waiting_ok (user_create w u ip name display role password)" "keeps waiting_ok (user_update w u ip i payload)"
  "keeps waiting_ok (user_delete w u ip i)" "keeps waiting_ok (tokens_create w u ip tp)" "keeps waiting_ok (tokens_revoke w u ip i)"
  unfolding user_create_def user_update_def update_checks_def update_writes_def user_delete_def tokens_create_def
    token_create_def token_get_def tokens_revoke_def token_revoke_def Let_def
  by (intro waiting_steps waiting_rules)+

lemma waiting_route: "keeps waiting_ok (route w st rq call)"
  unfolding route_def Let_def
  by (cases call) (simp_all only: auth_call.case,
    (intro keeps_return waiting_open_route waiting_guarded waiting_own_routes waiting_admin_routes waiting_sso_routes waiting_login waiting_login_step)+)

lemma waiting_served: "served w st s t \<Longrightarrow> waiting_ok s \<Longrightarrow> waiting_ok t"
proof (induction rule: served.induct)
  case (served_next s t rq call)
  have "keeps waiting_ok (serve w st rq call)"
    unfolding serve_def by (intro keeps_if keeps_return waiting_route)
  then show ?case using keepsD served_next by blast
qed

text \<open>
  C25: in every sequence of requests served from an empty table, the sign-ins that wait for a code stay at most a thousand,
  one per token, and each of them has met fewer than five wrong codes.
\<close>

theorem waiting_sign_ins_bounded:
  assumes "served w st s t" "sy_pending s = []"
  shows "distinct (map fst (sy_pending t)) \<and> length (sy_pending t) \<le> MAX_PENDING \<and>
    (\<forall>(token, p) \<in> set (sy_pending t). pn_failures p < MAX_FAILURES)"
  using waiting_served [OF assms(1)] assms(2) pending_wf_Nil
  by (auto simp: waiting_ok_def pending_wf_def table_wf_def)

theorem waiting_sign_ins_bounded_witness:
  "length (sy_pending (snd (serve sample_world (\<lambda>_. []) session_post AcRead sample_sys))) \<le> MAX_PENDING"
proof -
  have "matches_route session_post AcRead" by (simp add: matches_route_def)
  then have "served sample_world (\<lambda>_. []) sample_sys (snd (serve sample_world (\<lambda>_. []) session_post AcRead sample_sys))"
    by (rule served_next [OF served_none])
  from waiting_sign_ins_bounded [OF this] show ?thesis by (simp add: sample_sys_def)
qed

end
