(* ===== verification/State_Error.thy ===== *)
theory State_Error
  imports Prelude
begin

text \<open>
  Sequencing of fallible code over a state, whatever the state and the error are: statements in order, stopped by the
  first error, what was done before it kept. The agent, the routes of the agents and the container actions are
  written over it. \<open>keeps_a\<close> says that a piece of code keeps a predicate of the state, whether it fails or not.
\<close>

type_synonym ('s, 'e, 'a) action = "'s \<Rightarrow> ('e + 'a) \<times> 's"

definition return_a :: "'a \<Rightarrow> ('s, 'e, 'a) action" where
  "return_a x s = (Inr x, s)"

definition fail_a :: "'e \<Rightarrow> ('s, 'e, 'a) action" where
  "fail_a e s = (Inl e, s)"

definition bind_a :: "('s, 'e, 'a) action \<Rightarrow> ('a \<Rightarrow> ('s, 'e, 'b) action) \<Rightarrow> ('s, 'e, 'b) action" where
  "bind_a m f s = (case m s of (Inl e, s') \<Rightarrow> (Inl e, s') | (Inr x, s') \<Rightarrow> f x s')"

definition then_a :: "('s, 'e, 'a) action \<Rightarrow> ('s, 'e, 'b) action \<Rightarrow> ('s, 'e, 'b) action" where
  "then_a m n = bind_a m (\<lambda>_. n)"

definition when_a :: "bool \<Rightarrow> ('s, 'e, unit) action \<Rightarrow> ('s, 'e, unit) action" where
  "when_a c m = (if c then m else return_a ())"

definition lift_a :: "'e + 'a \<Rightarrow> ('s, 'e, 'a) action" where
  "lift_a r s = (r, s)"

definition read_a :: "('s \<Rightarrow> 'a) \<Rightarrow> ('s, 'e, 'a) action" where
  "read_a f s = (Inr (f s), s)"

definition write_a :: "('s \<Rightarrow> 's) \<Rightarrow> ('s, 'e, unit) action" where
  "write_a f s = (Inr (), f s)"

text \<open>\<open>attempt_a m\<close> hands the error of \<open>m\<close> to the caller as a value.\<close>

definition attempt_a :: "('s, 'e, 'a) action \<Rightarrow> ('s, 'e, 'e + 'a) action" where
  "attempt_a m s = (case m s of (r, s') \<Rightarrow> (Inr r, s'))"

fun each_a :: "('x \<Rightarrow> ('s, 'e, unit) action) \<Rightarrow> 'x list \<Rightarrow> ('s, 'e, unit) action" where
  "each_a f [] = return_a ()"
| "each_a f (x # xs) = then_a (f x) (each_a f xs)"

lemmas action_defs = return_a_def fail_a_def bind_a_def then_a_def when_a_def lift_a_def read_a_def write_a_def attempt_a_def

section \<open>Success\<close>

lemma bind_a_Inr: "bind_a m f s = (Inr y, t) \<longleftrightarrow> (\<exists>x s'. m s = (Inr x, s') \<and> f x s' = (Inr y, t))"
  by (auto simp: bind_a_def split: prod.splits sum.splits)

lemma then_a_Inr: "then_a m n s = (Inr y, t) \<longleftrightarrow> (\<exists>x s'. m s = (Inr x, s') \<and> n s' = (Inr y, t))"
  by (simp add: then_a_def bind_a_Inr)

lemma return_a_Inr: "return_a x s = (Inr y, t) \<longleftrightarrow> y = x \<and> t = s"
  by (auto simp: return_a_def)

lemma fail_a_Inr: "fail_a e s = (Inr y, t) \<longleftrightarrow> False"
  by (simp add: fail_a_def)

lemma lift_a_Inr: "lift_a r s = (Inr y, t) \<longleftrightarrow> r = Inr y \<and> t = s"
  by (auto simp: lift_a_def)

lemma read_a_Inr: "read_a f s = (Inr y, t) \<longleftrightarrow> y = f s \<and> t = s"
  by (auto simp: read_a_def)

lemma write_a_Inr: "write_a f s = (Inr y, t) \<longleftrightarrow> t = f s"
  by (auto simp: write_a_def)

lemma when_a_Inr: "when_a c m s = (Inr y, t) \<longleftrightarrow> (if c then m s = (Inr y, t) else t = s)"
  by (auto simp: when_a_def return_a_def)

lemma attempt_a_Inr: "attempt_a m s = (Inr r, t) \<longleftrightarrow> m s = (r, t)"
  by (auto simp: attempt_a_def split: prod.splits)

lemmas action_Inr = bind_a_Inr then_a_Inr return_a_Inr fail_a_Inr lift_a_Inr read_a_Inr write_a_Inr when_a_Inr attempt_a_Inr

section \<open>Invariants\<close>

definition keeps_a :: "('s \<Rightarrow> bool) \<Rightarrow> ('s, 'e, 'a) action \<Rightarrow> bool" where
  "keeps_a P m = (\<forall>s. P s \<longrightarrow> P (snd (m s)))"

named_theorems keeps_intros

lemma keepsD_a: "keeps_a P m \<Longrightarrow> P s \<Longrightarrow> P (snd (m s))"
  by (simp add: keeps_a_def)

lemma keepsD_a': "keeps_a P m \<Longrightarrow> m s = (r, t) \<Longrightarrow> P s \<Longrightarrow> P t"
  by (metis keepsD_a snd_conv)

lemma keeps_return_a [keeps_intros]: "keeps_a P (return_a x)"
  by (simp add: keeps_a_def return_a_def)

lemma keeps_fail_a [keeps_intros]: "keeps_a P (fail_a e)"
  by (simp add: keeps_a_def fail_a_def)

lemma keeps_lift_a [keeps_intros]: "keeps_a P (lift_a r)"
  by (simp add: keeps_a_def lift_a_def)

lemma keeps_read_a [keeps_intros]: "keeps_a P (read_a f)"
  by (simp add: keeps_a_def read_a_def)

lemma keeps_bind_a [keeps_intros]: "keeps_a P m \<Longrightarrow> (\<And>x. keeps_a P (f x)) \<Longrightarrow> keeps_a P (bind_a m f)"
  unfolding keeps_a_def bind_a_def
  by (metis (mono_tags, lifting) case_prod_beta' prod.collapse snd_conv sum.case_eq_if)

lemma keeps_then_a [keeps_intros]: "keeps_a P m \<Longrightarrow> keeps_a P n \<Longrightarrow> keeps_a P (then_a m n)"
  by (simp add: then_a_def keeps_bind_a)

lemma keeps_when_a [keeps_intros]: "(c \<Longrightarrow> keeps_a P m) \<Longrightarrow> keeps_a P (when_a c m)"
  by (simp add: when_a_def keeps_return_a)

lemma keeps_write_a [keeps_intros]: "(\<And>s. P s \<Longrightarrow> P (f s)) \<Longrightarrow> keeps_a P (write_a f)"
  by (simp add: keeps_a_def write_a_def)

lemma keeps_attempt_a [keeps_intros]: "keeps_a P m \<Longrightarrow> keeps_a P (attempt_a m)"
  unfolding keeps_a_def attempt_a_def by (metis case_prod_beta' snd_conv)

lemma keeps_each_a [keeps_intros]: "(\<And>x. keeps_a P (f x)) \<Longrightarrow> keeps_a P (each_a f xs)"
  by (induction xs) (auto intro: keeps_intros)

lemma keeps_if_a [keeps_intros]: "(c \<Longrightarrow> keeps_a P m) \<Longrightarrow> (\<not> c \<Longrightarrow> keeps_a P n) \<Longrightarrow> keeps_a P (if c then m else n)"
  by simp

lemma keeps_case_option_a [keeps_intros]:
  "(x = None \<Longrightarrow> keeps_a P m) \<Longrightarrow> (\<And>y. x = Some y \<Longrightarrow> keeps_a P (f y)) \<Longrightarrow>
   keeps_a P (case x of None \<Rightarrow> m | Some y \<Rightarrow> f y)"
  by (cases x) simp_all

lemma keeps_case_sum_a [keeps_intros]:
  "(\<And>y. x = Inl y \<Longrightarrow> keeps_a P (f y)) \<Longrightarrow> (\<And>y. x = Inr y \<Longrightarrow> keeps_a P (g y)) \<Longrightarrow>
   keeps_a P (case x of Inl y \<Rightarrow> f y | Inr y \<Rightarrow> g y)"
  by (cases x) simp_all

lemma keeps_case_prod_a [keeps_intros]:
  "(\<And>y z. x = (y, z) \<Longrightarrow> keeps_a P (f y z)) \<Longrightarrow> keeps_a P (case x of (y, z) \<Rightarrow> f y z)"
  by (cases x) simp

section \<open>Before and after\<close>

text \<open>
  From a state of \<open>P\<close>, a success leads to a result and a state of \<open>Q\<close>, an error to a state of \<open>E\<close>. An invariant is the
  case where the three are the same.
\<close>

definition triple_a :: "('s \<Rightarrow> bool) \<Rightarrow> ('s, 'e, 'a) action \<Rightarrow> ('a \<Rightarrow> 's \<Rightarrow> bool) \<Rightarrow> ('s \<Rightarrow> bool) \<Rightarrow> bool" where
  "triple_a P m Q E = (\<forall>s. P s \<longrightarrow> (case m s of (Inl _, t) \<Rightarrow> E t | (Inr x, t) \<Rightarrow> Q x t))"

lemma tripleD_a: "triple_a P m Q E \<Longrightarrow> P s \<Longrightarrow> m s = (Inr x, t) \<Longrightarrow> Q x t"
  by (fastforce simp: triple_a_def)

lemma keeps_triple: "keeps_a P m \<longleftrightarrow> triple_a P m (\<lambda>_. P) P"
proof -
  have "(case m s of (Inl _, t) \<Rightarrow> P t | (Inr _, t) \<Rightarrow> P t) = P (snd (m s))" for s
    by (auto split: prod.split sum.split)
  then show ?thesis by (simp add: keeps_a_def triple_a_def)
qed

lemma triple_bind: "triple_a P m R E \<Longrightarrow> (\<And>x. triple_a (R x) (f x) Q E) \<Longrightarrow> triple_a P (bind_a m f) Q E"
  by (fastforce simp: triple_a_def bind_a_def split: prod.splits sum.splits)

lemma triple_then: "triple_a P m (\<lambda>_. R) E \<Longrightarrow> triple_a R n Q E \<Longrightarrow> triple_a P (then_a m n) Q E"
  unfolding then_a_def by (rule triple_bind)

lemma triple_return: "triple_a (Q x) (return_a x) Q E"
  by (simp add: triple_a_def return_a_def)

lemma triple_fail: "triple_a E (fail_a e) Q E"
  by (simp add: triple_a_def fail_a_def)

lemma triple_weaken:
  "triple_a P m Q E \<Longrightarrow> (\<And>s. P' s \<Longrightarrow> P s) \<Longrightarrow> (\<And>x s. Q x s \<Longrightarrow> Q' x s) \<Longrightarrow> (\<And>s. E s \<Longrightarrow> E' s) \<Longrightarrow> triple_a P' m Q' E'"
  by (fastforce simp: triple_a_def split: prod.splits sum.splits)

end
