(* ===== verification/Wire_Protocol.thy ===== *)
theory Wire_Protocol
  imports Rust_Text State_Error
begin

text \<open>
  What the agent and the server say to each other (\<^verbatim>\<open>crates/proto/src\<close>): samples, the identity of a machine, a
  batch and its acknowledgement, commands and their reports. JSON is \<^verbatim>\<open>serde_json\<close>'s value, read as the code reads
  it; the Unicode lower case of \<^verbatim>\<open>str::to_lowercase\<close> is the parameter \<open>lower\<close>.
\<close>

section \<open>JSON values\<close>

datatype json =
    JNull
  | JBool bool
  | JNumber f64
  | JString string
  | JArray "json list"
  | JObject "(string \<times> json) list"

fun json_get :: "json \<Rightarrow> string \<Rightarrow> json option" where
  "json_get (JObject m) k = map_of m k"
| "json_get _ _ = None"

text \<open>\<^verbatim>\<open>value["key"]\<close> is null where there is nothing.\<close>

definition json_at :: "json \<Rightarrow> string \<Rightarrow> json" where
  "json_at j k = (case json_get j k of None \<Rightarrow> JNull | Some v \<Rightarrow> v)"

fun json_str :: "json \<Rightarrow> string option" where
  "json_str (JString s) = Some s"
| "json_str _ = None"

fun json_bool :: "json \<Rightarrow> bool option" where
  "json_bool (JBool b) = Some b"
| "json_bool _ = None"

section \<open>Samples and targets\<close>

datatype metric_kind = Gauge | Counter

text \<open>The labels of a sample are a \<^verbatim>\<open>BTreeMap\<close>, read by key.\<close>

record sample =
  sm_metric :: string
  sm_labels :: "string \<rightharpoonup> string"
  sm_value :: f64
  sm_kind :: metric_kind
  sm_ts_ms :: int

definition sample_new :: "string \<Rightarrow> f64 \<Rightarrow> metric_kind \<Rightarrow> int \<Rightarrow> sample" where
  "sample_new metric value kind ts_ms =
     \<lparr>sm_metric = metric, sm_labels = Map.empty, sm_value = value, sm_kind = kind, sm_ts_ms = ts_ms\<rparr>"

text \<open>A target, without its credentials; its tags are listed by key.\<close>

record target =
  tg_id :: int
  tg_name :: string
  tg_address :: string
  tg_kind :: string
  tg_interval :: duration
  tg_enabled :: bool
  tg_tags :: "(string \<times> string) list"

definition label_char :: "char \<Rightarrow> char" where
  "label_char c = (if is_ascii_alphanumeric c \<or> c = CHR ''_'' then c else CHR ''_'')"

text \<open>
  A character of several bytes becomes one underscore: only its first byte is kept.
\<close>

definition label_name :: "string \<Rightarrow> string" where
  "label_name key = map label_char (filter (\<lambda>c. \<not> continues_char c) key)"

definition base_labels :: "target \<Rightarrow> (string \<rightharpoonup> string)" where
  "base_labels t =
     foldl (\<lambda>labels (key, value). labels(''tag_'' @ label_name key \<mapsto> value))
       [''target'' \<mapsto> show_int (tg_id t), ''host'' \<mapsto> tg_name t] (tg_tags t)"

section \<open>The push\<close>

definition PUSH_PROTOCOL_VERSION :: nat where
  "PUSH_PROTOCOL_VERSION = 1"

definition INGEST_PATH :: string where
  "INGEST_PATH = ''/api/ingest''"

definition MAX_BATCH_SAMPLES :: nat where
  "MAX_BATCH_SAMPLES = 10000"

definition ENROLMENT_PREFIX :: string where
  "ENROLMENT_PREFIX = ''dmon_''"

definition AGENT_SECRET_PREFIX :: string where
  "AGENT_SECRET_PREFIX = ''dmab_''"

definition AGENT_SECRET_HEADER :: string where
  "AGENT_SECRET_HEADER = ''x-dumbmonit-agent-secret''"

record agent_identity =
  ai_hostname :: string
  ai_os :: string
  ai_os_version :: "string option"
  ai_kernel_version :: "string option"
  ai_arch :: "string option"
  ai_agent_version :: string
  ai_commands_enabled :: "bool option"
  ai_relay :: bool
  ai_site :: "string option"
  ai_machine_id :: "string option"
  ai_tags :: "(string \<times> string) list"
  ai_binding_supported :: bool

definition agent_key :: "(string \<Rightarrow> string) \<Rightarrow> agent_identity \<Rightarrow> string" where
  "agent_key lower i =
     (case (case ai_machine_id i of Some m \<Rightarrow> if trim m = [] then None else Some (trim m) | None \<Rightarrow> None) of
        Some m \<Rightarrow> m
      | None \<Rightarrow> lower (trim (ai_hostname i)))"

record push_batch =
  pb_protocol :: nat
  pb_identity :: agent_identity
  pb_sent_at_ms :: int
  pb_samples :: "sample list"

definition push_batch_new :: "agent_identity \<Rightarrow> sample list \<Rightarrow> int \<Rightarrow> push_batch" where
  "push_batch_new identity samples sent_at_ms =
     \<lparr>pb_protocol = PUSH_PROTOCOL_VERSION, pb_identity = identity, pb_sent_at_ms = sent_at_ms, pb_samples = samples\<rparr>"

record push_ack =
  pa_target_id :: int
  pa_accepted :: nat
  pa_interval_secs :: nat
  pa_registered :: bool
  pa_agent_secret :: "string option"
  pa_bound :: bool

section \<open>Commands\<close>

definition COMMANDS_PATH :: string where
  "COMMANDS_PATH = ''/api/agent/commands''"

definition COMMAND_MAX_AGE_SECS :: int where
  "COMMAND_MAX_AGE_SECS = 600"

definition CMD_CONTAINER_RESTART :: string where
  "CMD_CONTAINER_RESTART = ''container.restart''"

definition CMD_CONTAINER_UPDATE :: string where
  "CMD_CONTAINER_UPDATE = ''container.update''"

record agent_command =
  ac_id :: int
  ac_kind :: string
  ac_args :: json
  ac_created_at_ms :: int

definition i64_saturating :: "int \<Rightarrow> int" where
  "i64_saturating n = max (- (2 ^ 63)) (min (2 ^ 63 - 1) n)"

definition is_expired :: "agent_command \<Rightarrow> int \<Rightarrow> bool" where
  "is_expired c now_ms = (i64_saturating (now_ms - ac_created_at_ms c) > COMMAND_MAX_AGE_SECS * 1000)"

definition arg_str :: "agent_command \<Rightarrow> string \<Rightarrow> string option" where
  "arg_str c key =
     (case json_get (ac_args c) key of
        None \<Rightarrow> None
      | Some value \<Rightarrow>
          (case json_str value of
             None \<Rightarrow> None
           | Some s \<Rightarrow> if trim s = [] then None else Some (trim s)))"

definition arg_bool :: "agent_command \<Rightarrow> string \<Rightarrow> bool option" where
  "arg_bool c key = (case json_get (ac_args c) key of None \<Rightarrow> None | Some value \<Rightarrow> json_bool value)"

datatype command_status = Queued | Running | Done | Failed | Cancelled | Expired

fun status_as_str :: "command_status \<Rightarrow> string" where
  "status_as_str Queued = ''queued''"
| "status_as_str Running = ''running''"
| "status_as_str Done = ''done''"
| "status_as_str Failed = ''failed''"
| "status_as_str Cancelled = ''cancelled''"
| "status_as_str Expired = ''expired''"

definition status_parse :: "string \<Rightarrow> command_status option" where
  "status_parse text =
     (if text = ''queued'' then Some Queued
      else if text = ''running'' then Some Running
      else if text = ''done'' then Some Done
      else if text = ''failed'' then Some Failed
      else if text = ''cancelled'' then Some Cancelled
      else if text = ''expired'' then Some Expired
      else None)"

fun is_final :: "command_status \<Rightarrow> bool" where
  "is_final Done = True"
| "is_final Failed = True"
| "is_final Cancelled = True"
| "is_final Expired = True"
| "is_final _ = False"

definition COMMAND_RESULT_MAX_BYTES :: nat where
  "COMMAND_RESULT_MAX_BYTES = 4096"

definition COMMAND_RESULT_TRUNCATED :: string where
  "COMMAND_RESULT_TRUNCATED = ''[truncated by the server, beginning dropped]'' @ [CHR 0x0A]"

record command_report =
  cr_status :: command_status
  cr_result :: string

text \<open>
  \<open>drop_to_boundary start text\<close> is \<^verbatim>\<open>&text[start..]\<close> once \<open>start\<close> has been advanced to the beginning of a
  character: the loop stops at the end of the text at the latest.
\<close>

definition drop_to_boundary :: "nat \<Rightarrow> string \<Rightarrow> string" where
  "drop_to_boundary start text = dropWhile continues_char (drop start text)"

definition truncate_result :: "string \<Rightarrow> string" where
  "truncate_result text =
     (if length text \<le> COMMAND_RESULT_MAX_BYTES then text
      else COMMAND_RESULT_TRUNCATED @ drop_to_boundary (length text - COMMAND_RESULT_MAX_BYTES) text)"

section \<open>Properties\<close>

lemma status_roundtrip: "status_parse (status_as_str c) = Some c"
  by (cases c) (simp_all add: status_parse_def)

lemma status_parse_as_str: "status_parse text = Some c \<Longrightarrow> status_as_str c = text"
  by (auto simp: status_parse_def split: if_splits)

lemma drop_to_boundary_suffix: "\<exists>front. text = front @ drop_to_boundary start text"
  unfolding drop_to_boundary_def
  by (metis append.assoc append_take_drop_id takeWhile_dropWhile_id)

lemma drop_to_boundary_length: "length (drop_to_boundary start text) \<le> length text - start"
  unfolding drop_to_boundary_def by (metis length_dropWhile_le length_drop)

text \<open>
  A report kept by the server is at most the bound and the notice long, ends as the text does and never begins inside
  a character.
\<close>

lemma truncate_result_bounded:
  "length (truncate_result text) \<le> COMMAND_RESULT_MAX_BYTES + length COMMAND_RESULT_TRUNCATED"
proof (cases "length text \<le> COMMAND_RESULT_MAX_BYTES")
  case False
  then have "length (drop_to_boundary (length text - COMMAND_RESULT_MAX_BYTES) text) \<le> COMMAND_RESULT_MAX_BYTES"
    using drop_to_boundary_length [of "length text - COMMAND_RESULT_MAX_BYTES" "text"] by linarith
  then show ?thesis using False by (simp add: truncate_result_def)
qed (simp add: truncate_result_def)

lemma truncate_result_whole_chars:
  "length text > COMMAND_RESULT_MAX_BYTES \<Longrightarrow> truncate_result text = COMMAND_RESULT_TRUNCATED @ rest \<Longrightarrow>
   rest = [] \<or> \<not> continues_char (hd rest)"
  by (auto simp: truncate_result_def drop_to_boundary_def dropWhile_eq_Nil_conv dest: hd_dropWhile)

text \<open>The labels of the target are those of the server: no tag can take the place of its identifier or of its name.\<close>

lemma base_labels_fold:
  assumes "take 4 k \<noteq> ''tag_''"
  shows "foldl (\<lambda>labels (key, value). labels(''tag_'' @ label_name key \<mapsto> value)) m tags k = m k"
proof (induction tags arbitrary: m)
  case (Cons e tags)
  obtain key v where "e = (key, v)" by (cases e)
  moreover have "k \<noteq> ''tag_'' @ label_name key" using assms by auto
  ultimately show ?case using Cons [of "m(''tag_'' @ label_name key \<mapsto> v)"] by simp
qed simp

lemma base_labels_identity:
  "base_labels t ''target'' = Some (show_int (tg_id t))" "base_labels t ''host'' = Some (tg_name t)"
  unfolding base_labels_def by (subst base_labels_fold; simp)+

end
