(* ===== verification/Agent_Registry.thy ===== *)
theory Agent_Registry
  imports Wire_Protocol
begin

text \<open>
  The machines that report to the server and the tokens that let them in
  (\<^verbatim>\<open>crates/server/src/collectors/agent/store.rs\<close> and \<^verbatim>\<open>token.rs\<close>, the agent part of
  \<^verbatim>\<open>db/targets.rs\<close>). A row of a table is a record, a statement a function of the tables and of the clock of
  SQLite; the times it writes are whole seconds, and the order of their texts is that of the times. A statement may
  fail at any tick. SHA-256, the random source and the Unicode lower case are parameters.
\<close>

section \<open>Tables\<close>

definition to_whole_second :: "instant \<Rightarrow> instant" where
  "to_whole_second t = t - t mod nanos_per_sec"

type_synonym octets = "8 word list"

record target_row =
  tr_id :: int
  tr_name :: string
  tr_address :: string
  tr_kind :: string
  tr_interval_secs :: int
  tr_enabled :: bool
  tr_tags :: "(string \<times> string) list"
  tr_credential_enc :: "octets option"
  tr_via_agent :: "int option"
  tr_group_name :: string
  tr_position :: int
  tr_last_probe_at :: "instant option"
  tr_last_error :: "string option"

record enrolment_row =
  en_id :: int
  en_name :: string
  en_hash :: string
  en_prefix :: string
  en_created_at :: instant
  en_last_used_at :: "instant option"
  en_revoked_at :: "instant option"
  en_max_uses :: "int option"
  en_uses :: int
  en_expires_at :: "instant option"

record host_row =
  ho_target_id :: int
  ho_key :: string
  ho_hostname :: string
  ho_os :: string
  ho_os_version :: "string option"
  ho_kernel_version :: "string option"
  ho_arch :: "string option"
  ho_agent_version :: string
  ho_commands_enabled :: "bool option"
  ho_relay :: bool
  ho_site :: "string option"
  ho_token_id :: "int option"
  ho_secret_hash :: "string option"
  ho_binding_supported :: bool
  ho_bound_at :: "instant option"
  ho_rebind_until :: "instant option"
  ho_last_seen_ms :: "int option"
  ho_last_seen_at :: "instant option"
  ho_last_samples :: int

record command_row =
  cm_id :: int
  cm_target_id :: int
  cm_kind :: string
  cm_args :: json
  cm_status :: command_status
  cm_requested_by :: "string option"
  cm_created_at :: instant
  cm_started_at :: "instant option"
  cm_finished_at :: "instant option"
  cm_result :: "string option"

record container_policy =
  cp_auto_restart :: bool
  cp_auto_update :: bool
  cp_prune_old_image :: bool
  cp_only_in_maintenance :: bool

record agent_db =
  gb_targets :: "target_row list"
  gb_next_target :: int
  gb_tokens :: "enrolment_row list"
  gb_next_token :: int
  gb_hosts :: "host_row list"
  gb_commands :: "command_row list"
  gb_next_command :: int
  gb_policies :: "((int \<times> string) \<times> container_policy) list"

text \<open>
  \<open>gs_sink\<close> is what was handed to the writer of the time series store, in order, and \<open>gs_dropped\<close> how many samples its
  full queue refused.
\<close>

record agent_sys =
  gs_db :: agent_db
  gs_tick :: nat
  gs_sink :: "sample list"
  gs_dropped :: nat

record agent_world =
  gw_utc :: "nat \<Rightarrow> instant"
  gw_random :: "nat \<Rightarrow> nat \<Rightarrow> 8 word"
  gw_sql_fails :: "nat \<Rightarrow> bool"
  gw_sink_full :: "nat \<Rightarrow> bool"
  gw_sha256 :: "octets \<Rightarrow> octets"
  gw_lower :: "string \<Rightarrow> string"
  gw_credential_readable :: "octets \<Rightarrow> bool"

section \<open>Statements\<close>

text \<open>\<open>err\<close> is what the code makes of a statement that fails, or that a constraint refuses.\<close>

definition statement ::
  "agent_world \<Rightarrow> 'e \<Rightarrow> (instant \<Rightarrow> agent_db \<Rightarrow> ('a \<times> agent_db) option) \<Rightarrow> (agent_sys, 'e, 'a) action" where
  "statement w err f s =
     (let t = gs_tick s; s = s\<lparr>gs_tick := t + 1\<rparr>
      in if gw_sql_fails w t then (Inl err, s)
         else case f (gw_utc w t) (gs_db s) of
             None \<Rightarrow> (Inl err, s)
           | Some (x, db) \<Rightarrow> (Inr x, s\<lparr>gs_db := db\<rparr>))"

definition select_a :: "agent_world \<Rightarrow> 'e \<Rightarrow> (instant \<Rightarrow> agent_db \<Rightarrow> 'a) \<Rightarrow> (agent_sys, 'e, 'a) action" where
  "select_a w err f = statement w err (\<lambda>now db. Some (f now db, db))"

definition execute_a :: "agent_world \<Rightarrow> 'e \<Rightarrow> (instant \<Rightarrow> agent_db \<Rightarrow> agent_db) \<Rightarrow> (agent_sys, 'e, unit) action" where
  "execute_a w err f = statement w err (\<lambda>now db. Some ((), f now db))"

definition clock_a :: "agent_world \<Rightarrow> (agent_sys, 'e, instant) action" where
  "clock_a w s = (Inr (gw_utc w (gs_tick s)), s\<lparr>gs_tick := gs_tick s + 1\<rparr>)"

definition random_a :: "agent_world \<Rightarrow> (agent_sys, 'e, nat \<Rightarrow> 8 word) action" where
  "random_a w s = (Inr (gw_random w (gs_tick s)), s\<lparr>gs_tick := gs_tick s + 1\<rparr>)"

lemma statement_Inr:
  "statement w err f s = (Inr x, t) \<longleftrightarrow>
     \<not> gw_sql_fails w (gs_tick s) \<and>
     (\<exists>db. f (gw_utc w (gs_tick s)) (gs_db s) = Some (x, db) \<and> t = s\<lparr>gs_tick := Suc (gs_tick s), gs_db := db\<rparr>)"
  by (auto simp: statement_def Let_def split: option.splits prod.splits if_splits)

lemma select_a_Inr:
  "select_a w err f s = (Inr x, t) \<longleftrightarrow>
     \<not> gw_sql_fails w (gs_tick s) \<and> x = f (gw_utc w (gs_tick s)) (gs_db s) \<and> t = s\<lparr>gs_tick := Suc (gs_tick s)\<rparr>"
  by (auto simp: select_a_def statement_Inr)

lemma execute_a_Inr:
  "execute_a w err f s = (Inr x, t) \<longleftrightarrow>
     \<not> gw_sql_fails w (gs_tick s) \<and>
     t = s\<lparr>gs_tick := Suc (gs_tick s), gs_db := f (gw_utc w (gs_tick s)) (gs_db s)\<rparr>"
  by (auto simp: execute_a_def statement_Inr)

lemma clock_a_Inr: "clock_a w s = (Inr x, t) \<longleftrightarrow> x = gw_utc w (gs_tick s) \<and> t = s\<lparr>gs_tick := Suc (gs_tick s)\<rparr>"
  by (auto simp: clock_a_def)

lemma random_a_Inr: "random_a w s = (Inr x, t) \<longleftrightarrow> x = gw_random w (gs_tick s) \<and> t = s\<lparr>gs_tick := Suc (gs_tick s)\<rparr>"
  by (auto simp: random_a_def)

lemmas registry_Inr = statement_Inr select_a_Inr execute_a_Inr clock_a_Inr random_a_Inr

text \<open>A predicate of the tables is kept by the clock and the random source, and by a statement that keeps it.\<close>

lemma keeps_statement:
  assumes "\<And>now db x db'. P db \<Longrightarrow> f now db = Some (x, db') \<Longrightarrow> P db'"
  shows "keeps_a (\<lambda>s. P (gs_db s)) (statement w err f)"
  using assms by (auto simp: keeps_a_def statement_def Let_def split: option.splits prod.splits)

lemma keeps_select [keeps_intros]: "keeps_a (\<lambda>s. P (gs_db s)) (select_a w err f)"
  unfolding select_a_def by (rule keeps_statement) auto

lemma keeps_execute:
  "(\<And>now db. P db \<Longrightarrow> P (f now db)) \<Longrightarrow> keeps_a (\<lambda>s. P (gs_db s)) (execute_a w err f)"
  unfolding execute_a_def by (rule keeps_statement) auto

lemma keeps_clock_a [keeps_intros]: "keeps_a (\<lambda>s. P (gs_db s)) (clock_a w)"
  by (simp add: keeps_a_def clock_a_def)

lemma keeps_random [keeps_intros]: "keeps_a (\<lambda>s. P (gs_db s)) (random_a w)"
  by (simp add: keeps_a_def random_a_def)

lemma triple_statement:
  assumes "\<And>now db x db'. P db \<Longrightarrow> f now db = Some (x, db') \<Longrightarrow> Q x db'" "\<And>db. P db \<Longrightarrow> E db"
  shows "triple_a (\<lambda>s. P (gs_db s)) (statement w err f) (\<lambda>x s. Q x (gs_db s)) (\<lambda>s. E (gs_db s))"
  using assms by (auto simp: triple_a_def statement_def Let_def split: option.splits prod.splits)

lemma triple_select:
  assumes "\<And>now db. P db \<Longrightarrow> Q (f now db) db" "\<And>db. P db \<Longrightarrow> E db"
  shows "triple_a (\<lambda>s. P (gs_db s)) (select_a w err f) (\<lambda>x s. Q x (gs_db s)) (\<lambda>s. E (gs_db s))"
  unfolding select_a_def using assms by (intro triple_statement) auto

lemma triple_execute:
  assumes "\<And>now db. P db \<Longrightarrow> Q (f now db)" "\<And>db. P db \<Longrightarrow> E db"
  shows "triple_a (\<lambda>s. P (gs_db s)) (execute_a w err f) (\<lambda>_ s. Q (gs_db s)) (\<lambda>s. E (gs_db s))"
  unfolding execute_a_def using assms by (intro triple_statement) auto

lemma triple_random: "triple_a (\<lambda>s. P (gs_db s)) (random_a w) (\<lambda>_ s. P (gs_db s)) E"
  by (simp add: triple_a_def random_a_def)

section \<open>Secrets\<close>

definition ENROLMENT_BYTES :: nat where
  "ENROLMENT_BYTES = 24"

definition ENROLMENT_DISPLAY_LEN :: nat where
  "ENROLMENT_DISPLAY_LEN = length ENROLMENT_PREFIX + 8"

definition enrolment_generate :: "(nat \<Rightarrow> 8 word) \<Rightarrow> string" where
  "enrolment_generate random = ENROLMENT_PREFIX @ hex_encode (map random [0..<ENROLMENT_BYTES])"

definition generate_secret :: "(nat \<Rightarrow> 8 word) \<Rightarrow> string" where
  "generate_secret random = AGENT_SECRET_PREFIX @ hex_encode (map random [0..<ENROLMENT_BYTES])"

definition extract_secret :: "string option \<Rightarrow> string option" where
  "extract_secret header =
     (case header of None \<Rightarrow> None | Some h \<Rightarrow> if trim h = [] then None else Some (trim h))"

definition agent_fingerprint :: "agent_world \<Rightarrow> string \<Rightarrow> string" where
  "agent_fingerprint w token = hex_encode (gw_sha256 w (str_bytes token))"

text \<open>Tokens are ASCII: the first characters are the first bytes.\<close>

definition enrolment_display_prefix :: "string \<Rightarrow> string" where
  "enrolment_display_prefix token = take ENROLMENT_DISPLAY_LEN token"

definition agent_bearer :: "string option \<Rightarrow> string option" where
  "agent_bearer header =
     (case header of
        None \<Rightarrow> None
      | Some header \<Rightarrow>
          (case split_once (CHR '' '') (trim header) of
             None \<Rightarrow> None
           | Some (scheme, value) \<Rightarrow>
               if \<not> eq_ignore_ascii_case scheme ''bearer'' then None
               else (let token = trim value in if token = [] then None else Some token)))"

section \<open>Targets\<close>

record target_input =
  ti_name :: string
  ti_address :: string
  ti_kind :: string
  ti_interval_secs :: int
  ti_enabled :: bool
  ti_tags :: "(string \<times> string) list"
  ti_group_name :: string

text \<open>
  The creation of a target without parent, profile, relay or credentials, which is what an enrolment asks for. The
  pair of kind and address is unique, the period at least ten seconds.
\<close>

definition target_insert :: "target_input \<Rightarrow> agent_db \<Rightarrow> (int \<times> agent_db) option" where
  "target_insert input db =
     (if ti_interval_secs input < 10 \<or>
         list_ex (\<lambda>r. tr_kind r = ti_kind input \<and> tr_address r = ti_address input) (gb_targets db)
      then None
      else
        let i = gb_next_target db;
            row = \<lparr>tr_id = i, tr_name = ti_name input, tr_address = ti_address input, tr_kind = ti_kind input,
                   tr_interval_secs = ti_interval_secs input, tr_enabled = ti_enabled input, tr_tags = ti_tags input,
                   tr_credential_enc = None, tr_via_agent = None, tr_group_name = ti_group_name input,
                   tr_position = foldl max 0 (map tr_position (gb_targets db)) + 1,
                   tr_last_probe_at = None, tr_last_error = None\<rparr>
        in Some (i, db\<lparr>gb_targets := gb_targets db @ [row], gb_next_target := i + 1\<rparr>))"

definition target_of_row :: "target_row \<Rightarrow> target" where
  "target_of_row r =
     \<lparr>tg_id = tr_id r, tg_name = tr_name r, tg_address = tr_address r, tg_kind = tr_kind r,
      tg_interval = nat (max (tr_interval_secs r) 1) * 1000000000, tg_enabled = tr_enabled r, tg_tags = tr_tags r\<rparr>"

text \<open>A target whose stored credentials cannot be read is an error.\<close>

definition target_get :: "agent_world \<Rightarrow> 'e \<Rightarrow> int \<Rightarrow> (agent_sys, 'e, target option) action" where
  "target_get w err i =
     bind_a (select_a w err (\<lambda>_ db. find (\<lambda>r. tr_id r = i) (gb_targets db))) (\<lambda>row.
       case row of
         None \<Rightarrow> return_a None
       | Some r \<Rightarrow>
           (case tr_credential_enc r of
              Some data \<Rightarrow> if gw_credential_readable w data then return_a (Some (target_of_row r)) else fail_a err
            | None \<Rightarrow> return_a (Some (target_of_row r))))"

definition update_target :: "int \<Rightarrow> (target_row \<Rightarrow> target_row) \<Rightarrow> agent_db \<Rightarrow> agent_db" where
  "update_target i f db = db\<lparr>gb_targets := map (\<lambda>r. if tr_id r = i then f r else r) (gb_targets db)\<rparr>"

definition record_probe :: "instant \<Rightarrow> int \<Rightarrow> string option \<Rightarrow> agent_db \<Rightarrow> agent_db" where
  "record_probe now i error =
     update_target i (\<lambda>r. r\<lparr>tr_last_probe_at := Some (to_whole_second now), tr_last_error := error\<rparr>)"

text \<open>What refers to a target goes with it; a device it relayed is polled directly again.\<close>

definition target_delete :: "int \<Rightarrow> agent_db \<Rightarrow> agent_db" where
  "target_delete i db =
     db\<lparr>gb_targets := map (\<lambda>r. if tr_via_agent r = Some i then r\<lparr>tr_via_agent := None\<rparr> else r)
                       (filter (\<lambda>r. tr_id r \<noteq> i) (gb_targets db)),
        gb_hosts := filter (\<lambda>h. ho_target_id h \<noteq> i) (gb_hosts db),
        gb_commands := filter (\<lambda>c. cm_target_id c \<noteq> i) (gb_commands db),
        gb_policies := filter (\<lambda>((t, _), _). t \<noteq> i) (gb_policies db)\<rparr>"

section \<open>Enrolment tokens\<close>

record token_policy =
  tp_max_uses :: "int option"
  tp_expires_in_days :: "int option"

definition token_policy_default :: token_policy where
  "token_policy_default = \<lparr>tp_max_uses = Some 1, tp_expires_in_days = None\<rparr>"

datatype enrolment_denied = Exhausted | DeadlinePassed

fun denied_message :: "enrolment_denied \<Rightarrow> string" where
  "denied_message Exhausted = ''This enrollment token has already enrolled all the machines it was allowed to. Create a new token, or a reusable one for a fleet.''"
| "denied_message DeadlinePassed = ''This enrollment token has passed its enrollment deadline. Create a new one; machines already enrolled keep reporting.''"

text \<open>The fingerprint of a token is unique in the table.\<close>

definition enrolment_insert ::
  "string \<Rightarrow> string \<Rightarrow> string \<Rightarrow> int option \<Rightarrow> instant option \<Rightarrow> instant \<Rightarrow> agent_db \<Rightarrow> (enrolment_row \<times> agent_db) option" where
  "enrolment_insert name hash prefix max_uses expires_at now db =
     (if list_ex (\<lambda>r. en_hash r = hash) (gb_tokens db) then None
      else
        let i = gb_next_token db;
            row = \<lparr>en_id = i, en_name = name, en_hash = hash, en_prefix = prefix, en_created_at = to_whole_second now,
                   en_last_used_at = None, en_revoked_at = None, en_max_uses = max_uses, en_uses = 0,
                   en_expires_at = expires_at\<rparr>
        in Some (row, db\<lparr>gb_tokens := gb_tokens db @ [row], gb_next_token := i + 1\<rparr>))"

definition enrolment_create ::
  "agent_world \<Rightarrow> 'e \<Rightarrow> string \<Rightarrow> token_policy \<Rightarrow> (agent_sys, 'e, enrolment_row \<times> string) action" where
  "enrolment_create w err name policy =
     bind_a (random_a w) (\<lambda>random.
     let clear = enrolment_generate random in
     bind_a (case tp_expires_in_days policy of
               None \<Rightarrow> return_a None
             | Some d \<Rightarrow> bind_a (clock_a w) (\<lambda>now. return_a (Some (to_whole_second (now + days d))))) (\<lambda>expires_at.
     bind_a (statement w err (enrolment_insert name (agent_fingerprint w clear) (enrolment_display_prefix clear)
               (tp_max_uses policy) expires_at)) (\<lambda>row.
     return_a (row, clear))))"

definition update_enrolment :: "int \<Rightarrow> (enrolment_row \<Rightarrow> enrolment_row) \<Rightarrow> agent_db \<Rightarrow> agent_db" where
  "update_enrolment i f db = db\<lparr>gb_tokens := map (\<lambda>r. if en_id r = i then f r else r) (gb_tokens db)\<rparr>"

definition enrolment_list :: "agent_db \<Rightarrow> enrolment_row list" where
  "enrolment_list db = rev (sort_key en_id (gb_tokens db))"

definition enrolment_revoke :: "instant \<Rightarrow> int \<Rightarrow> agent_db \<Rightarrow> bool \<times> agent_db" where
  "enrolment_revoke now i db =
     (list_ex (\<lambda>r. en_id r = i \<and> en_revoked_at r = None) (gb_tokens db),
      update_enrolment i (\<lambda>r. if en_revoked_at r = None then r\<lparr>en_revoked_at := Some (to_whole_second now)\<rparr> else r) db)"

definition find_active_token :: "string \<Rightarrow> agent_db \<Rightarrow> int option" where
  "find_active_token hash db =
     map_option en_id (find (\<lambda>r. en_hash r = hash \<and> en_revoked_at r = None) (gb_tokens db))"

definition enrolment_verdict :: "instant \<Rightarrow> int \<Rightarrow> agent_db \<Rightarrow> enrolment_denied + unit" where
  "enrolment_verdict now i db =
     (case find (\<lambda>r. en_id r = i) (gb_tokens db) of
        None \<Rightarrow> Inl DeadlinePassed
      | Some row \<Rightarrow>
          if (case en_expires_at row of None \<Rightarrow> False | Some e \<Rightarrow> e \<le> to_whole_second now) then Inl DeadlinePassed
          else (case en_max_uses row of
                  Some limit \<Rightarrow> if en_uses row \<ge> limit then Inl Exhausted else Inr ()
                | None \<Rightarrow> Inr ()))"

definition consume_enrolment :: "int \<Rightarrow> agent_db \<Rightarrow> agent_db" where
  "consume_enrolment i = update_enrolment i (\<lambda>r. r\<lparr>en_uses := en_uses r + 1\<rparr>)"

definition touch_enrolment :: "instant \<Rightarrow> int \<Rightarrow> agent_db \<Rightarrow> agent_db" where
  "touch_enrolment now i = update_enrolment i (\<lambda>r. r\<lparr>en_last_used_at := Some (to_whole_second now)\<rparr>)"

end
