(* ===== verification/Agent_Binding.thy ===== *)
theory Agent_Binding
  imports Agent_Registry
begin

text \<open>
  The binding of a machine to its agent (\<^verbatim>\<open>crates/server/src/collectors/agent/store.rs\<close>): registration of an
  unknown machine, claim of a known one, the window opened by an administrator, the authorisation of a key.
\<close>

section \<open>The rows of the machines\<close>

definition site_of :: "agent_identity \<Rightarrow> string option" where
  "site_of i = (case ai_site i of None \<Rightarrow> None | Some site \<Rightarrow> if trim site = [] then None else Some (trim site))"

text \<open>
  The key of a machine is unique, and there is one machine per target, which must exist; a token that is referred to
  must exist too.
\<close>

definition insert_host ::
  "agent_world \<Rightarrow> int \<Rightarrow> string \<Rightarrow> agent_identity \<Rightarrow> int \<Rightarrow> string option \<Rightarrow> instant \<Rightarrow> agent_db \<Rightarrow> (unit \<times> agent_db) option" where
  "insert_host w target_id key identity token_id secret now db =
     (if list_ex (\<lambda>h. ho_target_id h = target_id \<or> ho_key h = key) (gb_hosts db) \<or>
         \<not> list_ex (\<lambda>r. tr_id r = target_id) (gb_targets db) \<or> \<not> list_ex (\<lambda>r. en_id r = token_id) (gb_tokens db)
      then None
      else Some ((), db\<lparr>gb_hosts := gb_hosts db @
             [\<lparr>ho_target_id = target_id, ho_key = key, ho_hostname = ai_hostname identity, ho_os = ai_os identity,
               ho_os_version = ai_os_version identity, ho_kernel_version = ai_kernel_version identity,
               ho_arch = ai_arch identity, ho_agent_version = ai_agent_version identity,
               ho_commands_enabled = ai_commands_enabled identity, ho_relay = ai_relay identity,
               ho_site = site_of identity, ho_token_id = Some token_id,
               ho_secret_hash = map_option (agent_fingerprint w) secret,
               ho_binding_supported = ai_binding_supported identity,
               ho_bound_at = (if secret = None then None else Some (to_whole_second now)), ho_rebind_until = None,
               ho_last_seen_ms = None, ho_last_seen_at = None, ho_last_samples = 0\<rparr>]\<rparr>))"

definition modify_host :: "int \<Rightarrow> (host_row \<Rightarrow> host_row) \<Rightarrow> agent_db \<Rightarrow> agent_db" where
  "modify_host target_id f db = db\<lparr>gb_hosts := map (\<lambda>h. if ho_target_id h = target_id then f h else h) (gb_hosts db)\<rparr>"

definition update_host :: "int \<Rightarrow> agent_identity \<Rightarrow> agent_db \<Rightarrow> agent_db" where
  "update_host target_id identity =
     modify_host target_id (\<lambda>h. h\<lparr>ho_hostname := ai_hostname identity, ho_os := ai_os identity,
       ho_os_version := ai_os_version identity, ho_kernel_version := ai_kernel_version identity,
       ho_arch := ai_arch identity, ho_agent_version := ai_agent_version identity,
       ho_commands_enabled := ai_commands_enabled identity, ho_relay := ai_relay identity,
       ho_site := site_of identity, ho_binding_supported := ai_binding_supported identity\<rparr>)"

definition bind_host :: "agent_world \<Rightarrow> int \<Rightarrow> string \<Rightarrow> int \<Rightarrow> instant \<Rightarrow> agent_db \<Rightarrow> agent_db" where
  "bind_host w target_id secret token_id now =
     modify_host target_id (\<lambda>h. h\<lparr>ho_secret_hash := Some (agent_fingerprint w secret), ho_binding_supported := True,
       ho_rebind_until := None, ho_token_id := Some token_id, ho_bound_at := Some (to_whole_second now)\<rparr>)"

definition record_batch :: "instant \<Rightarrow> int \<Rightarrow> int \<Rightarrow> nat \<Rightarrow> agent_db \<Rightarrow> agent_db" where
  "record_batch now target_id received_at_ms samples =
     modify_host target_id (\<lambda>h. h\<lparr>ho_last_seen_ms := Some received_at_ms, ho_last_seen_at := Some (to_whole_second now),
       ho_last_samples := int samples\<rparr>)"

definition REBIND_WINDOW_MINUTES :: int where
  "REBIND_WINDOW_MINUTES = 60"

definition allow_rebind :: "agent_world \<Rightarrow> 'e \<Rightarrow> int \<Rightarrow> (agent_sys, 'e, instant option) action" where
  "allow_rebind w err target_id =
     bind_a (clock_a w) (\<lambda>now.
     let until = to_whole_second (now + minutes REBIND_WINDOW_MINUTES) in
     bind_a (statement w err (\<lambda>_ db. Some (list_ex (\<lambda>h. ho_target_id h = target_id) (gb_hosts db),
               modify_host target_id (\<lambda>h. h\<lparr>ho_rebind_until := Some until\<rparr>) db))) (\<lambda>found.
     return_a (if found then Some until else None)))"

text \<open>The machine of a key, as the binding sees it.\<close>

record bound_host =
  bh_target_id :: int
  bh_secret_hash :: "string option"
  bh_token_id :: "int option"
  bh_rebind_open :: bool

definition find_host :: "string \<Rightarrow> instant \<Rightarrow> agent_db \<Rightarrow> bound_host option" where
  "find_host key now db =
     map_option (\<lambda>h. \<lparr>bh_target_id = ho_target_id h, bh_secret_hash = ho_secret_hash h, bh_token_id = ho_token_id h,
         bh_rebind_open = (case ho_rebind_until h of None \<Rightarrow> False | Some until \<Rightarrow> until > to_whole_second now)\<rparr>)
       (find (\<lambda>h. ho_key h = key) (gb_hosts db))"

definition commands_supported :: "host_row \<Rightarrow> bool" where
  "commands_supported h = (ho_commands_enabled h = Some True)"

definition binding_state :: "host_row \<Rightarrow> string" where
  "binding_state h = (if ho_secret_hash h \<noteq> None then ''bound'' else ''unbound'')"

definition host_of :: "int \<Rightarrow> agent_db \<Rightarrow> host_row option" where
  "host_of target_id db = find (\<lambda>h. ho_target_id h = target_id) (gb_hosts db)"

definition last_seen_ms :: "int \<Rightarrow> agent_db \<Rightarrow> int option" where
  "last_seen_ms target_id db = (case host_of target_id db of None \<Rightarrow> None | Some h \<Rightarrow> ho_last_seen_ms h)"

section \<open>Registration\<close>

record registration =
  rg_target_id :: int
  rg_created :: bool
  rg_issued_secret :: "string option"
  rg_bound :: bool

datatype register_error = BindingMismatch | EnrolmentDenied enrolment_denied | NotBound | AgentTooOld | RegisterInternal

definition DEFAULT_INTERVAL_SECS :: int where
  "DEFAULT_INTERVAL_SECS = 30"

definition enrolment_allowed :: "agent_world \<Rightarrow> int \<Rightarrow> (agent_sys, register_error, enrolment_denied + unit) action" where
  "enrolment_allowed w token_id = select_a w RegisterInternal (\<lambda>now. enrolment_verdict now token_id)"

definition require_enrolment :: "agent_world \<Rightarrow> int \<Rightarrow> (agent_sys, register_error, unit) action" where
  "require_enrolment w token_id =
     bind_a (enrolment_allowed w token_id) (\<lambda>verdict.
       case verdict of Inl denied \<Rightarrow> fail_a (EnrolmentDenied denied) | Inr _ \<Rightarrow> return_a ())"

definition secret_matches :: "agent_world \<Rightarrow> string \<Rightarrow> string option \<Rightarrow> bool" where
  "secret_matches w stored presented =
     (case presented of None \<Rightarrow> False | Some secret \<Rightarrow> agent_fingerprint w secret = stored)"

text \<open>The machine is bound again: a new secret, and its description.\<close>

definition rebind :: "agent_world \<Rightarrow> int \<Rightarrow> int \<Rightarrow> agent_identity \<Rightarrow> (agent_sys, register_error, registration) action" where
  "rebind w target_id token_id identity =
     bind_a (random_a w) (\<lambda>random.
     let secret = generate_secret random in
     then_a (execute_a w RegisterInternal (bind_host w target_id secret token_id))
     (then_a (execute_a w RegisterInternal (\<lambda>_. update_host target_id identity))
     (return_a \<lparr>rg_target_id = target_id, rg_created = False, rg_issued_secret = Some secret, rg_bound = True\<rparr>)))"

definition claim ::
  "agent_world \<Rightarrow> bound_host \<Rightarrow> agent_identity \<Rightarrow> int \<Rightarrow> string option \<Rightarrow> (agent_sys, register_error, registration) action" where
  "claim w host identity token_id presented =
     (case bh_secret_hash host of
        Some stored \<Rightarrow>
          if secret_matches w stored presented
          then then_a (execute_a w RegisterInternal (\<lambda>_. update_host (bh_target_id host) identity))
                 (return_a \<lparr>rg_target_id = bh_target_id host, rg_created = False, rg_issued_secret = None, rg_bound = True\<rparr>)
          else if bh_rebind_open host \<and> ai_binding_supported identity
          then then_a (require_enrolment w token_id) (rebind w (bh_target_id host) token_id identity)
          else fail_a BindingMismatch
      | None \<Rightarrow>
          if \<not> bh_rebind_open host then fail_a NotBound
          else if \<not> ai_binding_supported identity then fail_a AgentTooOld
          else then_a (when_a (bh_token_id host \<noteq> Some token_id) (require_enrolment w token_id))
                 (rebind w (bh_target_id host) token_id identity))"

text \<open>
  The entry of an unknown machine, in two parts: the verdict on the token is read in one statement and the machine is
  written in others, so that another request can come between.
\<close>

definition may_enrol :: "agent_world \<Rightarrow> agent_identity \<Rightarrow> int \<Rightarrow> (agent_sys, register_error, unit) action" where
  "may_enrol w identity token_id =
     (if \<not> ai_binding_supported identity then fail_a AgentTooOld else require_enrolment w token_id)"

definition enrolled_target :: "agent_identity \<Rightarrow> string \<Rightarrow> target_input" where
  "enrolled_target identity key =
     \<lparr>ti_name = ai_hostname identity, ti_address = key, ti_kind = ''agent'', ti_interval_secs = DEFAULT_INTERVAL_SECS,
      ti_enabled = True, ti_tags = ai_tags identity, ti_group_name = []\<rparr>"

definition enrol :: "agent_world \<Rightarrow> string \<Rightarrow> agent_identity \<Rightarrow> int \<Rightarrow> (agent_sys, register_error, registration) action" where
  "enrol w key identity token_id =
     bind_a (select_a w RegisterInternal
               (\<lambda>_ db. map_option tr_id (find (\<lambda>r. tr_kind r = ''agent'' \<and> tr_address r = key) (gb_targets db)))) (\<lambda>existing.
     bind_a (case existing of
               Some i \<Rightarrow> return_a (i, False)
             | None \<Rightarrow>
                 bind_a (statement w RegisterInternal (\<lambda>_. target_insert (enrolled_target identity key))) (\<lambda>i.
                 return_a (i, True))) (\<lambda>(target_id, created).
     bind_a (random_a w) (\<lambda>random.
     let secret = generate_secret random in
     then_a (statement w RegisterInternal (insert_host w target_id key identity token_id (Some secret)))
     (then_a (execute_a w RegisterInternal (\<lambda>_. consume_enrolment token_id))
     (return_a \<lparr>rg_target_id = target_id, rg_created = created, rg_issued_secret = Some secret, rg_bound = True\<rparr>)))))"

definition register ::
  "agent_world \<Rightarrow> agent_identity \<Rightarrow> int \<Rightarrow> string option \<Rightarrow> (agent_sys, register_error, registration) action" where
  "register w identity token_id presented =
     (let key = agent_key (gw_lower w) identity
      in bind_a (select_a w RegisterInternal (find_host key)) (\<lambda>found.
         case found of
           Some host \<Rightarrow> claim w host identity token_id presented
         | None \<Rightarrow> then_a (may_enrol w identity token_id) (enrol w key identity token_id)))"

datatype key_auth = KaUnknown | KaDenied | KaNotBound | KaAllowed int

definition authorise_key :: "agent_world \<Rightarrow> 'e \<Rightarrow> string \<Rightarrow> string option \<Rightarrow> (agent_sys, 'e, key_auth) action" where
  "authorise_key w err key presented =
     bind_a (select_a w err (find_host key)) (\<lambda>found.
     return_a (case found of
         None \<Rightarrow> KaUnknown
       | Some host \<Rightarrow>
           (case bh_secret_hash host of
              Some stored \<Rightarrow> if secret_matches w stored presented then KaAllowed (bh_target_id host) else KaDenied
            | None \<Rightarrow> KaNotBound)))"

section \<open>Well-formed tables\<close>

text \<open>
  Identifiers, keys and fingerprints are unique, and what was drawn so far is below the next identifier.
\<close>

definition registry_wf :: "agent_db \<Rightarrow> bool" where
  "registry_wf db \<longleftrightarrow>
     distinct (map tr_id (gb_targets db)) \<and> list_all (\<lambda>i. i < gb_next_target db) (map tr_id (gb_targets db)) \<and>
     distinct (map en_id (gb_tokens db)) \<and> list_all (\<lambda>i. i < gb_next_token db) (map en_id (gb_tokens db)) \<and>
     distinct (map en_hash (gb_tokens db)) \<and>
     distinct (map ho_key (gb_hosts db)) \<and> distinct (map ho_target_id (gb_hosts db)) \<and>
     set (map ho_target_id (gb_hosts db)) \<subseteq> set (map tr_id (gb_targets db))"

lemma modify_host_fields:
  "gb_targets (modify_host i f db) = gb_targets db" "gb_next_target (modify_host i f db) = gb_next_target db"
  "gb_tokens (modify_host i f db) = gb_tokens db" "gb_next_token (modify_host i f db) = gb_next_token db"
  "gb_commands (modify_host i f db) = gb_commands db"
  by (simp_all add: modify_host_def)

lemma modify_host_keys:
  assumes "\<And>h. ho_key (f h) = ho_key h \<and> ho_target_id (f h) = ho_target_id h"
  shows "map ho_key (gb_hosts (modify_host i f db)) = map ho_key (gb_hosts db)"
    "map ho_target_id (gb_hosts (modify_host i f db)) = map ho_target_id (gb_hosts db)"
  using assms by (simp_all add: modify_host_def)

lemma modify_host_wf:
  assumes "\<And>h. ho_key (f h) = ho_key h \<and> ho_target_id (f h) = ho_target_id h" "registry_wf db"
  shows "registry_wf (modify_host i f db)"
  using assms(2) unfolding registry_wf_def modify_host_keys [OF assms(1)] modify_host_fields .

lemma update_host_wf: "registry_wf db \<Longrightarrow> registry_wf (update_host i identity db)"
  unfolding update_host_def by (rule modify_host_wf) simp_all

lemma bind_host_wf: "registry_wf db \<Longrightarrow> registry_wf (bind_host w i secret token now db)"
  unfolding bind_host_def by (rule modify_host_wf) simp_all

lemma record_batch_wf: "registry_wf db \<Longrightarrow> registry_wf (record_batch now i ms n db)"
  unfolding record_batch_def by (rule modify_host_wf) simp_all

lemma update_enrolment_wf:
  assumes "\<And>r. en_id (f r) = en_id r \<and> en_hash (f r) = en_hash r" "registry_wf db"
  shows "registry_wf (update_enrolment i f db)"
proof -
  have "map en_id (gb_tokens (update_enrolment i f db)) = map en_id (gb_tokens db)"
    "map en_hash (gb_tokens (update_enrolment i f db)) = map en_hash (gb_tokens db)"
    using assms(1) by (simp_all add: update_enrolment_def)
  then show ?thesis
    using assms(2) unfolding registry_wf_def by (simp only:) (simp add: update_enrolment_def)
qed

lemma consume_enrolment_wf: "registry_wf db \<Longrightarrow> registry_wf (consume_enrolment i db)"
  unfolding consume_enrolment_def by (rule update_enrolment_wf) simp_all

lemma touch_enrolment_wf: "registry_wf db \<Longrightarrow> registry_wf (touch_enrolment now i db)"
  unfolding touch_enrolment_def by (rule update_enrolment_wf) simp_all

lemma enrolment_revoke_wf: "registry_wf db \<Longrightarrow> enrolment_revoke now i db = (found, db') \<Longrightarrow> registry_wf db'"
  unfolding enrolment_revoke_def by (auto intro: update_enrolment_wf)

lemma update_target_wf:
  assumes "\<And>r. tr_id (f r) = tr_id r" "registry_wf db"
  shows "registry_wf (update_target i f db)"
proof -
  have "map tr_id (gb_targets (update_target i f db)) = map tr_id (gb_targets db)"
    using assms(1) by (simp add: update_target_def)
  then show ?thesis
    using assms(2) unfolding registry_wf_def by (simp only:) (simp add: update_target_def)
qed

lemma record_probe_wf: "registry_wf db \<Longrightarrow> registry_wf (record_probe now i e db)"
  unfolding record_probe_def by (rule update_target_wf) simp_all

lemma list_all_below: "list_all (\<lambda>x. g x < n) rows \<Longrightarrow> list_all (\<lambda>x. g x \<le> n) rows" for n :: int
  by (auto simp: list_all_iff intro: less_imp_le)

lemma fresh_identifier: "list_all (\<lambda>x. g x < n) rows \<Longrightarrow> n \<notin> g ` set rows" for n :: int
  by (auto simp: list_all_iff)

lemma target_insert_wf:
  assumes "registry_wf db" "target_insert input db = Some (i, db')"
  shows "registry_wf db'"
proof -
  obtain row where "db' = db\<lparr>gb_targets := gb_targets db @ [row], gb_next_target := gb_next_target db + 1\<rparr>"
      "tr_id row = gb_next_target db"
    using assms(2) by (auto simp: target_insert_def Let_def split: if_splits)
  then show ?thesis
    using assms(1) by (auto simp: registry_wf_def list.pred_map comp_def list_all_below dest: fresh_identifier)
qed

lemma insert_host_wf:
  assumes "registry_wf db" "insert_host w i key identity token secret now db = Some (x, db')"
  shows "registry_wf db'"
proof -
  obtain h where "db' = db\<lparr>gb_hosts := gb_hosts db @ [h]\<rparr>" "ho_target_id h = i" "ho_key h = key"
      "\<not> list_ex (\<lambda>h. ho_target_id h = i \<or> ho_key h = key) (gb_hosts db)" "list_ex (\<lambda>r. tr_id r = i) (gb_targets db)"
    using assms(2) by (auto simp: insert_host_def split: if_splits)
  then show ?thesis
    using assms(1) by (force simp: registry_wf_def list_ex_iff)
qed

lemma enrolment_insert_wf:
  assumes "registry_wf db" "enrolment_insert name hash prefix limit expires now db = Some (row, db')"
  shows "registry_wf db'"
proof -
  have "db' = db\<lparr>gb_tokens := gb_tokens db @ [row], gb_next_token := gb_next_token db + 1\<rparr>"
      "en_id row = gb_next_token db" "en_hash row = hash" "\<not> list_ex (\<lambda>r. en_hash r = hash) (gb_tokens db)"
    using assms(2) by (auto simp: enrolment_insert_def Let_def split: if_splits)
  then show ?thesis
    using assms(1) by (auto simp: registry_wf_def list_ex_iff list.pred_map comp_def list_all_below dest: fresh_identifier)
qed

lemma target_delete_wf: "registry_wf db \<Longrightarrow> registry_wf (target_delete i db)"
proof -
  let ?f = "\<lambda>r. if tr_via_agent r = Some i then r\<lparr>tr_via_agent := None\<rparr> else r"
  have m: "map tr_id (map ?f rs) = map tr_id rs" for rs by simp
  show "registry_wf db \<Longrightarrow> ?thesis"
    unfolding registry_wf_def target_delete_def
    by (auto simp: m list_all_iff distinct_map_filter simp del: map_map)
qed

end
