(* ===== verification/Float_Bounds.thy ===== *)
theory Float_Bounds
  imports Prelude
begin

text \<open>
  Bounds on the rounding of \<^verbatim>\<open>f64\<close>: a value that lies below (above) a multiple of a power of two fine enough for its
  magnitude is rounded below (above) it, and a whole number of at most 53 bits is not rounded at all.
\<close>

lemma pow2_nat: "0 \<le> e \<Longrightarrow> pow2 e = 2 ^ nat e"
  by (simp add: pow2_def)

lemma pow2_neg: "pow2 (- int k) = 1 / 2 ^ k"
  by (cases "k = 0") (simp_all add: pow2_def)

lemma bin_exp_less:
  assumes "0 < a" "a < pow2 n"
  shows "bin_exp a < n"
proof (cases "1 \<le> a")
  case True
  have "0 < n"
  proof (rule ccontr)
    assume "\<not> 0 < n"
    then have "pow2 n \<le> 1"
      by (cases "n = 0") (auto simp: pow2_def divide_le_eq)
    then show False using assms(2) True by simp
  qed
  then have "a < 2 ^ nat n" using assms(2) by (simp add: pow2_nat)
  then have "of_int \<lfloor>a\<rfloor> < (2 ^ nat n :: rat)" by (meson le_less_trans of_int_floor_le)
  then have "\<lfloor>a\<rfloor> < 2 ^ nat n" by (metis of_int_less_iff of_int_numeral of_int_power)
  then have "nat \<lfloor>a\<rfloor> < 2 ^ nat n" using True by (simp add: nat_less_iff)
  then have "floorlog 2 (nat \<lfloor>a\<rfloor>) \<le> nat n" by (intro floorlog_leI) auto
  then show ?thesis using True \<open>0 < n\<close> by (simp add: bin_exp_def)
next
  case False
  define c where "c = nat (\<lceil>1 / a\<rceil> - 1)"
  have "1 < 1 / a" using assms(1) False by simp
  then have "1 < \<lceil>1 / a\<rceil>" by linarith
  then have pos: "0 < c" by (simp add: c_def)
  have e: "bin_exp a = - int (floorlog 2 c)" using False by (simp add: bin_exp_def c_def)
  show ?thesis
  proof (cases "0 < n")
    case True
    then show ?thesis by (simp add: e)
  next
    case False
    define j where "j = nat (- n)"
    then have j: "n = - int j" using False by simp
    then have "a < 1 / 2 ^ j" using assms(2) by (simp add: pow2_neg)
    then have "2 ^ j < 1 / a" using assms(1) by (simp add: field_simps)
    then have "of_int (2 ^ j) < 1 / a" by simp
    then have "2 ^ j < \<lceil>1 / a\<rceil>" by (simp add: less_ceiling_iff)
    then have "2 ^ j \<le> c" unfolding c_def by (simp add: le_nat_iff)
    then have "Suc j \<le> floorlog 2 c" by (intro floorlog_ge_SucI) auto
    then show ?thesis by (simp add: e j)
  qed
qed

lemma round_half_even_le:
  assumes "q \<le> of_int m"
  shows "round_half_even q \<le> m"
proof (cases "\<lfloor>q\<rfloor> = m")
  case True
  then have "q = of_int m" using assms of_int_floor_le [of q] by simp
  then show ?thesis by (simp add: round_half_even_def)
next
  case False
  moreover have "\<lfloor>q\<rfloor> \<le> m" using assms by (simp add: floor_le_iff)
  ultimately show ?thesis by (simp add: round_half_even_def Let_def)
qed

lemma round_half_even_ge: "of_int m \<le> q \<Longrightarrow> m \<le> round_half_even q"
proof -
  assume "of_int m \<le> q"
  then have "m \<le> \<lfloor>q\<rfloor>" by (simp add: le_floor_iff)
  then show ?thesis by (auto simp: round_half_even_def Let_def)
qed

lemma round_half_even_of_int [simp]: "round_half_even (of_int m) = m"
  by (simp add: round_half_even_def)

lemma round64_grid:
  assumes "\<bar>r\<bar> < pow2 (53 - int k)" "k \<le> 1074"
  obtains v j where "round64 r = Fin v" "v = of_int (round_half_even (r * 2 ^ j)) / 2 ^ j" "k \<le> j"
proof (cases "r = 0")
  case True
  then show ?thesis using that [of 0 k] by (simp add: round_half_even_def)
next
  case False
  define e where "e = max (- 1074) (bin_exp \<bar>r\<bar> - 52)"
  have "bin_exp \<bar>r\<bar> < 53 - int k" using False assms(1) by (intro bin_exp_less) auto
  then have e: "e \<le> - int k" using assms(2) by (simp add: e_def)
  define j where "j = nat (- e)"
  then have j: "e = - int j" "k \<le> j" using e by simp_all
  define v :: rat where "v = of_int (round_half_even (r * 2 ^ j)) / 2 ^ j"
  have u: "pow2 e = 1 / 2 ^ j" by (simp add: j pow2_neg)
  have big: "\<bar>r\<bar> < 2 ^ 53"
  proof -
    have "pow2 (53 - int k) \<le> 2 ^ 53"
    proof (cases "k \<le> 53")
      case True
      then have "pow2 (53 - int k) = 2 ^ (53 - k)" by (simp add: pow2_def nat_diff_distrib')
      also have "\<dots> \<le> 2 ^ 53" by (intro power_increasing) auto
      finally show ?thesis .
    next
      case False
      then have "pow2 (53 - int k) \<le> 1" by (simp add: pow2_def divide_le_eq)
      then show ?thesis by (simp add: order.trans [OF _ one_le_power])
    qed
    then show ?thesis using assms(1) by simp
  qed
  have "r * 2 ^ j \<le> 2 ^ 53 * 2 ^ j" "- (2 ^ 53) * 2 ^ j \<le> r * 2 ^ j"
    using big by (intro mult_right_mono; simp add: abs_less_iff)+
  then have "r * 2 ^ j \<le> of_int (2 ^ 53 * 2 ^ j)" "of_int (- (2 ^ 53 * 2 ^ j)) \<le> r * 2 ^ j"
    by simp_all
  then have "round_half_even (r * 2 ^ j) \<le> 2 ^ 53 * 2 ^ j" "- (2 ^ 53 * 2 ^ j) \<le> round_half_even (r * 2 ^ j)"
    using round_half_even_le round_half_even_ge by blast+
  then have "of_int (round_half_even (r * 2 ^ j)) \<le> (of_int (2 ^ 53 * 2 ^ j) :: rat)"
      "of_int (- (2 ^ 53 * 2 ^ j)) \<le> (of_int (round_half_even (r * 2 ^ j)) :: rat)"
    by (simp_all only: of_int_le_iff)
  then have "v \<le> 2 ^ 53" "- (2 ^ 53) \<le> v"
    by (simp_all add: v_def divide_le_eq le_divide_eq)
  then have "v < f64_limit" "- f64_limit < v"
    by (simp_all add: f64_limit_def)
  moreover have "round64 r = overflow_f64 v"
    using False by (simp add: round64_def e_def [symmetric] u v_def)
  ultimately have "round64 r = Fin v" by (simp add: overflow_f64_def)
  then show ?thesis using that v_def j(2) by blast
qed

lemma round64_le:
  assumes "r \<le> of_int m / 2 ^ k" "\<bar>r\<bar> < pow2 (53 - int k)" "k \<le> 1074" "round64 r = Fin v"
  shows "v \<le> of_int m / 2 ^ k"
proof -
  obtain j where v: "v = of_int (round_half_even (r * 2 ^ j)) / 2 ^ j" "k \<le> j"
    using round64_grid [OF assms(2,3)] assms(4) by (metis f64.inject)
  then obtain i where i: "j = k + i" using le_Suc_ex by blast
  have "r * 2 ^ j \<le> of_int (m * 2 ^ i)"
    using mult_right_mono [OF assms(1), of "2 ^ j"] by (simp add: i power_add)
  then have "round_half_even (r * 2 ^ j) \<le> m * 2 ^ i" by (rule round_half_even_le)
  then have "of_int (round_half_even (r * 2 ^ j)) \<le> (of_int (m * 2 ^ i) :: rat)" by (simp only: of_int_le_iff)
  then show ?thesis by (simp add: v(1) i divide_le_eq power_add)
qed

lemma round64_ge:
  assumes "of_int m / 2 ^ k \<le> r" "\<bar>r\<bar> < pow2 (53 - int k)" "k \<le> 1074" "round64 r = Fin v"
  shows "of_int m / 2 ^ k \<le> v"
proof -
  obtain j where v: "v = of_int (round_half_even (r * 2 ^ j)) / 2 ^ j" "k \<le> j"
    using round64_grid [OF assms(2,3)] assms(4) by (metis f64.inject)
  then obtain i where i: "j = k + i" using le_Suc_ex by blast
  have "of_int (m * 2 ^ i) \<le> r * 2 ^ j"
    using mult_right_mono [OF assms(1), of "2 ^ j"] by (simp add: i power_add)
  then have "m * 2 ^ i \<le> round_half_even (r * 2 ^ j)" by (rule round_half_even_ge)
  then have "(of_int (m * 2 ^ i) :: rat) \<le> of_int (round_half_even (r * 2 ^ j))" by (simp only: of_int_le_iff)
  then show ?thesis by (simp add: v(1) i le_divide_eq power_add)
qed

lemma round64_finite: "\<bar>r\<bar> < 2 ^ 53 \<Longrightarrow> \<exists>v. round64 r = Fin v"
  using round64_grid [of r 0] by (auto simp: pow2_def)

lemma round64_of_nat:
  assumes "n < 2 ^ 53"
  shows "round64 (of_nat n) = Fin (of_nat n)"
proof -
  have small: "\<bar>of_nat n :: rat\<bar> < pow2 (53 - int 0)"
    using assms by (simp add: pow2_def)
  obtain j where "round64 (of_nat n) = Fin (of_int (round_half_even (of_nat n * 2 ^ j)) / 2 ^ j)"
    using round64_grid [OF small] by auto
  moreover have "round_half_even (of_nat n * 2 ^ j) = int n * 2 ^ j"
    using round_half_even_of_int [of "int n * 2 ^ j"] by (simp del: round_half_even_of_int)
  ultimately show ?thesis by simp
qed

end
