(* ===== verification/Agent_Buffer.thy ===== *)
theory Agent_Buffer
  imports Float_Bounds Wire_Protocol
begin

text \<open>
  What the agent keeps while the server does not answer: the bounded buffer of samples
  (\<^verbatim>\<open>crates/agent/src/buffer.rs\<close>) and the growing delay between two attempts (\<^verbatim>\<open>crates/agent/src/backoff.rs\<close>).
  The client of the buffer is the loop of the agent; what it relies on is the locale \<open>bounded_buffer\<close>.
\<close>

section \<open>The buffer\<close>

definition u64_limit :: nat where
  "u64_limit = 2 ^ 64 - 1"

record 'a pending_buffer =
  bf_samples :: "'a list"
  bf_capacity :: nat
  bf_dropped :: nat

definition buffer_new :: "nat \<Rightarrow> 'a pending_buffer" where
  "buffer_new capacity = \<lparr>bf_samples = [], bf_capacity = max capacity 1, bf_dropped = 0\<rparr>"

definition buffer_len :: "'a pending_buffer \<Rightarrow> nat" where
  "buffer_len b = length (bf_samples b)"

definition buffer_is_empty :: "'a pending_buffer \<Rightarrow> bool" where
  "buffer_is_empty b = (bf_samples b = [])"

definition enforce_capacity :: "'a pending_buffer \<Rightarrow> 'a pending_buffer" where
  "enforce_capacity b =
     (if buffer_len b \<le> bf_capacity b then b
      else
        let excess = buffer_len b - bf_capacity b
        in b\<lparr>bf_samples := drop excess (bf_samples b), bf_dropped := min u64_limit (bf_dropped b + excess)\<rparr>)"

definition buffer_push :: "'a pending_buffer \<Rightarrow> 'a list \<Rightarrow> 'a pending_buffer" where
  "buffer_push b samples = enforce_capacity (b\<lparr>bf_samples := bf_samples b @ samples\<rparr>)"

definition buffer_take :: "'a pending_buffer \<Rightarrow> nat \<Rightarrow> 'a list \<times> 'a pending_buffer" where
  "buffer_take b limit =
     (let count = min limit (buffer_len b)
      in (take count (bf_samples b), b\<lparr>bf_samples := drop count (bf_samples b)\<rparr>))"

text \<open>The samples are put back one by one at the front, the last one first.\<close>

definition buffer_restore :: "'a pending_buffer \<Rightarrow> 'a list \<Rightarrow> 'a pending_buffer" where
  "buffer_restore b samples =
     enforce_capacity (foldl (\<lambda>b sample. b\<lparr>bf_samples := sample # bf_samples b\<rparr>) b (rev samples))"

definition buffer_wf :: "'a pending_buffer \<Rightarrow> bool" where
  "buffer_wf b \<longleftrightarrow> 1 \<le> bf_capacity b \<and> buffer_len b \<le> bf_capacity b \<and> bf_dropped b \<le> u64_limit"

lemma restore_samples:
  "foldl (\<lambda>b sample. b\<lparr>bf_samples := sample # bf_samples b\<rparr>) b (rev samples) = b\<lparr>bf_samples := samples @ bf_samples b\<rparr>"
  by (induction samples arbitrary: b) simp_all

lemma enforce_capacity_samples:
  "bf_samples (enforce_capacity b) = drop (buffer_len b - bf_capacity b) (bf_samples b)"
  "bf_capacity (enforce_capacity b) = bf_capacity b"
  "bf_dropped b \<le> u64_limit \<Longrightarrow>
   bf_dropped (enforce_capacity b) = min u64_limit (bf_dropped b + (buffer_len b - bf_capacity b))"
  by (simp_all add: enforce_capacity_def Let_def)

lemma enforce_capacity_wf: "1 \<le> bf_capacity b \<Longrightarrow> bf_dropped b \<le> u64_limit \<Longrightarrow> buffer_wf (enforce_capacity b)"
  by (auto simp: buffer_wf_def enforce_capacity_samples buffer_len_def)

section \<open>What the agent relies on\<close>

text \<open>
  A buffer of bounded room: what is pushed is appended, the oldest entries make room and are counted, what is taken comes
  from the front, and what is put back goes there again.
\<close>

locale bounded_buffer =
  fixes wf :: "'b \<Rightarrow> bool" and content :: "'b \<Rightarrow> 'a list" and room :: "'b \<Rightarrow> nat" and lost :: "'b \<Rightarrow> nat"
    and push :: "'b \<Rightarrow> 'a list \<Rightarrow> 'b" and take_from :: "'b \<Rightarrow> nat \<Rightarrow> 'a list \<times> 'b" and put_back :: "'b \<Rightarrow> 'a list \<Rightarrow> 'b"
  assumes fits: "wf b \<Longrightarrow> length (content b) \<le> room b"
    and push_wf: "wf b \<Longrightarrow> wf (push b xs)"
    and push_content: "wf b \<Longrightarrow> content (push b xs) = drop (length (content b) + length xs - room b) (content b @ xs)"
    and push_room: "wf b \<Longrightarrow> room (push b xs) = room b"
    and push_lost: "wf b \<Longrightarrow> lost (push b xs) = min u64_limit (lost b + (length (content b) + length xs - room b))"
    and take_wf: "wf b \<Longrightarrow> wf (snd (take_from b n))"
    and take_content: "wf b \<Longrightarrow> fst (take_from b n) = take n (content b) \<and> content (snd (take_from b n)) = drop n (content b)"
    and take_frame: "wf b \<Longrightarrow> room (snd (take_from b n)) = room b \<and> lost (snd (take_from b n)) = lost b"
    and back_wf: "wf b \<Longrightarrow> wf (put_back b xs)"
    and back_content: "wf b \<Longrightarrow> content (put_back b xs) = drop (length xs + length (content b) - room b) (xs @ content b)"
    and back_frame: "wf b \<Longrightarrow> room (put_back b xs) = room b \<and>
      lost (put_back b xs) = min u64_limit (lost b + (length xs + length (content b) - room b))"
    and lost_limit: "wf b \<Longrightarrow> lost b \<le> u64_limit"
begin

text \<open>A failed sending leaves the buffer as it was: nothing was pushed between the two.\<close>

lemma take_put_back:
  assumes "wf b" "take_from b n = (xs, b')"
  shows "wf (put_back b' xs)" "content (put_back b' xs) = content b" "room (put_back b' xs) = room b"
    "lost (put_back b' xs) = lost b"
proof -
  have wf: "wf b'" and xs: "xs = take n (content b)" and b': "content b' = drop n (content b)"
    and frame: "room b' = room b" "lost b' = lost b"
    using take_wf [OF assms(1), of n] take_content [OF assms(1), of n] take_frame [OF assms(1), of n] assms(2) by simp_all
  have "length xs + length (content b') = length (content b)" by (simp add: xs b')
  then have none: "length xs + length (content b') - room b' = 0"
    using fits [OF assms(1)] by (simp add: frame)
  show "wf (put_back b' xs)" by (rule back_wf [OF wf])
  show "content (put_back b' xs) = content b" unfolding back_content [OF wf] none by (simp add: xs b')
  show "room (put_back b' xs) = room b" "lost (put_back b' xs) = lost b"
    using back_frame [OF wf, of xs] lost_limit [OF assms(1)] unfolding none by (simp_all add: frame)
qed

text \<open>The buffer always holds the end of what was pushed into it.\<close>

definition holds_after :: "nat \<Rightarrow> 'a list \<Rightarrow> 'b \<Rightarrow> bool" where
  "holds_after n history b \<longleftrightarrow> wf b \<and> n \<le> length history \<and> content b = drop n history"

lemma push_holds:
  assumes "holds_after n history b"
  shows "holds_after (n + (length (content b) + length xs - room b)) (history @ xs) (push b xs)"
proof -
  have b: "wf b" "n \<le> length history" "content b = drop n history" using assms by (simp_all add: holds_after_def)
  then have e: "content b @ xs = drop n (history @ xs)" and l: "length (content b) = length history - n" by simp_all
  define excess where "excess = length (content b) + length xs - room b"
  have "drop excess (content b @ xs) = drop (n + excess) (history @ xs)" by (simp only: e drop_drop add.commute)
  moreover have "n + excess \<le> length (history @ xs)" using b(2) l by (simp add: excess_def)
  ultimately show ?thesis
    using push_wf [OF b(1), of xs] push_content [OF b(1), of xs] by (simp add: holds_after_def excess_def)
qed

lemma take_holds:
  assumes "holds_after n history b" "take_from b m = (xs, b')"
  shows "holds_after (n + length xs) history b'" "take (n + length xs) history = take n history @ xs"
proof -
  have b: "wf b" "n \<le> length history" "content b = drop n history" using assms(1) by (simp_all add: holds_after_def)
  have t: "xs = take m (drop n history)" "content b' = drop m (drop n history)" "wf b'"
    using take_wf [OF b(1), of m] take_content [OF b(1), of m] assms(2) b(3) by simp_all
  then have "drop m (drop n history) = drop (n + length xs) history"
    by (cases "m \<le> length history - n") (auto simp: add.commute)
  then show "holds_after (n + length xs) history b'"
    using t b(2) by (auto simp: holds_after_def)
  show "take (n + length xs) history = take n history @ xs"
    using t(1) b(2) by (simp add: take_add min_def)
qed

end

interpretation pb: bounded_buffer buffer_wf bf_samples bf_capacity bf_dropped buffer_push buffer_take buffer_restore
proof unfold_locales
  fix b :: "'a pending_buffer" and xs :: "'a list" and n :: nat
  assume wf: "buffer_wf b"
  show "length (bf_samples b) \<le> bf_capacity b" "bf_dropped b \<le> u64_limit"
    using wf by (simp_all add: buffer_wf_def buffer_len_def)
  show "buffer_wf (buffer_push b xs)" "buffer_wf (buffer_restore b xs)"
    using wf unfolding buffer_push_def buffer_restore_def restore_samples
    by (auto simp: buffer_wf_def [of b] intro!: enforce_capacity_wf)
  show "bf_samples (buffer_push b xs) = drop (length (bf_samples b) + length xs - bf_capacity b) (bf_samples b @ xs)"
    "bf_capacity (buffer_push b xs) = bf_capacity b"
    "bf_dropped (buffer_push b xs) = min u64_limit (bf_dropped b + (length (bf_samples b) + length xs - bf_capacity b))"
    using wf by (simp_all add: buffer_push_def enforce_capacity_samples buffer_wf_def buffer_len_def)
  show "bf_samples (buffer_restore b xs) = drop (length xs + length (bf_samples b) - bf_capacity b) (xs @ bf_samples b)"
    "bf_capacity (buffer_restore b xs) = bf_capacity b \<and>
     bf_dropped (buffer_restore b xs) = min u64_limit (bf_dropped b + (length xs + length (bf_samples b) - bf_capacity b))"
    using wf by (simp_all add: buffer_restore_def restore_samples enforce_capacity_samples buffer_wf_def buffer_len_def)
  show "buffer_wf (snd (buffer_take b n))"
    "fst (buffer_take b n) = take n (bf_samples b) \<and> bf_samples (snd (buffer_take b n)) = drop n (bf_samples b)"
    "bf_capacity (snd (buffer_take b n)) = bf_capacity b \<and> bf_dropped (snd (buffer_take b n)) = bf_dropped b"
    using wf by (auto simp: buffer_take_def buffer_wf_def buffer_len_def min_def Let_def)
qed

lemma buffer_new_wf: "buffer_wf (buffer_new capacity)"
  by (simp add: buffer_wf_def buffer_new_def buffer_len_def)

section \<open>The backoff\<close>

text \<open>\<^verbatim>\<open>Duration::MAX\<close> is \<^verbatim>\<open>u64::MAX\<close> seconds and 999,999,999 nanoseconds.\<close>

definition duration_max :: duration where
  "duration_max = 2 ^ 64 * 1000000000 - 1"

text \<open>\<^verbatim>\<open>as_secs_f64\<close>, and \<^verbatim>\<open>from_secs_f64\<close> with its rounding to the nearest nanosecond; \<^term>\<open>None\<close> is its panic.\<close>

definition as_secs_f64 :: "duration \<Rightarrow> f64" where
  "as_secs_f64 d =
     f64_add (round64 (of_nat (d div 1000000000))) (f64_div (round64 (of_nat (d mod 1000000000))) (Fin 1000000000))"

fun from_secs_f64 :: "f64 \<Rightarrow> duration option" where
  "from_secs_f64 (Fin r) =
     (let n = round_half_even (r * 1000000000)
      in if r < 0 \<or> int duration_max < n then None else Some (nat n))"
| "from_secs_f64 _ = None"

definition mul_f64 :: "duration \<Rightarrow> f64 \<Rightarrow> duration option" where
  "mul_f64 d factor = from_secs_f64 (f64_mul factor (as_secs_f64 d))"

definition JITTER_RATIO :: f64 where
  "JITTER_RATIO = round64 (2 / 10)"

definition MAX_DOUBLINGS :: nat where
  "MAX_DOUBLINGS = 20"

record backoff =
  bo_base :: duration
  bo_max :: duration
  bo_attempt :: "32 word"
  bo_rng :: "64 word"

definition backoff_with_seed :: "duration \<Rightarrow> duration \<Rightarrow> 64 word \<Rightarrow> backoff" where
  "backoff_with_seed base limit seed = \<lparr>bo_base = base, bo_max = limit, bo_attempt = 0, bo_rng = or seed 1\<rparr>"

definition backoff_reset :: "backoff \<Rightarrow> backoff" where
  "backoff_reset b = b\<lparr>bo_attempt := 0\<rparr>"

definition next_rng :: "64 word \<Rightarrow> 64 word" where
  "next_rng r = r * 6364136223846793005 + 1442695040888963407"

definition next_unit :: "backoff \<Rightarrow> f64 \<times> backoff" where
  "next_unit b =
     (let r = next_rng (bo_rng b)
      in (f64_div (round64 (of_nat (unat (drop_bit 11 r)))) (round64 (2 ^ 53)), b\<lparr>bo_rng := r\<rparr>))"

definition apply_jitter :: "backoff \<Rightarrow> duration \<Rightarrow> duration option \<times> backoff" where
  "apply_jitter b delay =
     (let (unit, b) = next_unit b; factor = f64_sub (Fin 1) (f64_mul JITTER_RATIO unit)
      in (mul_f64 delay factor, b))"

text \<open>The delay before the jitter: it doubles with each failure, up to the ceiling.\<close>

definition raw_delay :: "backoff \<Rightarrow> duration" where
  "raw_delay b =
     (let doublings = min (unat (bo_attempt b)) MAX_DOUBLINGS
      in min (min duration_max (bo_base b * 2 ^ doublings)) (bo_max b))"

definition next_delay :: "backoff \<Rightarrow> duration option \<times> backoff" where
  "next_delay b = apply_jitter (b\<lparr>bo_attempt := saturating_inc (bo_attempt b)\<rparr>) (raw_delay b)"

section \<open>Bounds of the delay\<close>

lemma floorlog_one: "floorlog 2 (Suc 0) = 1"
  by (simp add: floorlog_def)

lemma jitter_ratio: "JITTER_RATIO = Fin (3602879701896397 / 2 ^ 54)"
proof -
  have "floorlog 2 (4 :: nat) = 3" using floorlog_power [of 1 2 2] by (simp add: floorlog_one)
  then have "bin_exp (1 / 5) = - 3" by (simp add: bin_exp_def)
  moreover have "\<lfloor>36028797018963968 / 5 :: rat\<rfloor> = 7205759403792793" by (rule floor_unique) simp_all
  ultimately show ?thesis
    by (simp add: JITTER_RATIO_def round64_def Let_def pow2_def round_half_even_def overflow_f64_def f64_limit_def)
qed

lemma f64_2_53: "round64 (2 ^ 53) = Fin (2 ^ 53)"
proof -
  have "floorlog 2 (9007199254740992 :: nat) = 54" using floorlog_power [of 1 2 53] by (simp add: floorlog_one)
  then have "bin_exp 9007199254740992 = 53" by (simp add: bin_exp_def)
  then show ?thesis
    by (simp add: round64_def Let_def pow2_def round_half_even_def overflow_f64_def f64_limit_def)
qed

lemma round64_unit:
  assumes "0 \<le> r" "r \<le> 1"
  obtains v where "round64 r = Fin v" "0 \<le> v" "v \<le> 1"
proof -
  have small: "\<bar>r\<bar> < pow2 (53 - int 0)" using assms by (simp add: pow2_def)
  obtain v where "round64 r = Fin v" using round64_finite [of r] assms by force
  then show ?thesis
    using that round64_le [of r 1 0 v] round64_ge [of 0 0 r v] assms small by simp
qed

lemma next_unit_unit: "\<exists>v r. next_unit b = (Fin v, b\<lparr>bo_rng := r\<rparr>) \<and> 0 \<le> v \<and> v \<le> 1"
proof -
  let ?r = "next_rng (bo_rng b)"
  have "unat (drop_bit 11 ?r) = unat ?r div 2 ^ 11" by (subst unat_drop_bit_eq) (simp add: drop_bit_eq_div)
  moreover have "unat ?r < 2 ^ 64" using unsigned_less [of ?r] by simp
  ultimately have m: "unat (drop_bit 11 ?r) < 2 ^ 53"
    using less_mult_imp_div_less [of "unat ?r" "2 ^ 53" "2 ^ 11"] by simp
  define k where "k = unat (drop_bit 11 ?r)"
  have k: "k < 2 ^ 53" using m by (simp add: k_def)
  then have "0 \<le> (of_nat k :: rat) / 2 ^ 53" "(of_nat k :: rat) / 2 ^ 53 \<le> 1" by (simp_all add: divide_le_eq)
  then obtain v where "round64 (of_nat k / 2 ^ 53) = Fin v" "0 \<le> v" "v \<le> 1"
    using round64_unit by blast
  then show ?thesis
    using round64_of_nat [OF k] by (simp only: next_unit_def Let_def f64_2_53 k_def [symmetric] f64_div.simps) auto
qed

text \<open>The factor of the jitter is at most 1, and at least 8/10 but for the last bit.\<close>

lemma jitter_factor:
  assumes "0 \<le> v" "v \<le> 1"
  obtains f where "f64_sub (Fin 1) (f64_mul JITTER_RATIO (Fin v)) = Fin f" "f \<le> 1" "3602879701896396 / 2 ^ 52 \<le> f"
proof -
  let ?j = "3602879701896397 / 2 ^ 54 :: rat"
  have p: "0 \<le> ?j * v" "?j * v \<le> ?j" using assms by (simp_all add: mult_left_le)
  have "?j < 1 / 2" by simp
  then have small: "\<bar>?j * v\<bar> < pow2 (53 - int 54)" using p by (simp add: pow2_def)
  obtain q where q: "round64 (?j * v) = Fin q" using round64_grid [OF small] by force
  have "0 \<le> q" "q \<le> ?j"
    using round64_ge [of 0 54 "?j * v" q] round64_le [of "?j * v" 3602879701896397 54 q] small q p by simp_all
  then have r: "1 - q \<le> 1" "1 - ?j \<le> 1 - q" "0 \<le> 1 - q" by simp_all
  have small': "\<bar>1 - q\<bar> < pow2 (53 - int 52)" "\<bar>1 - q\<bar> < pow2 (53 - int 0)" using r by (simp_all add: pow2_def)
  obtain f where f: "round64 (1 - q) = Fin f" using round64_grid [OF small'(1)] by force
  have "f \<le> 1" using round64_le [of "1 - q" 1 0 f] r small' f by simp
  moreover have "3602879701896396 / 2 ^ 52 \<le> f"
    using round64_ge [of 3602879701896396 52 "1 - q" f] r small' f by simp
  ultimately show ?thesis using that f q by (simp add: jitter_ratio f64_sub_def)
qed

lemma as_secs_whole:
  assumes "n < 512"
  shows "as_secs_f64 (n * 1000000000) = Fin (of_nat n)"
  using assms by (simp add: as_secs_f64_def round64_of_nat)

lemma mul_f64_whole:
  assumes "n < 512" "f \<le> 1" "3602879701896396 / 2 ^ 52 \<le> f"
  shows "\<exists>d. mul_f64 (n * 1000000000) (Fin f) = Some d \<and> d \<le> n * 1000000000 \<and> 800000000 * n \<le> d + 1"
proof -
  let ?n = "of_nat n :: rat" and ?m = "3602879701896396 * int n div 2 ^ 8"
  have n: "?n < 512" using assms(1) by simp
  have up: "f * ?n \<le> ?n" using assms(2) mult_right_mono [of f 1 ?n] by simp
  have low: "3602879701896396 / 2 ^ 52 * ?n \<le> f * ?n" using assms(3) by (intro mult_right_mono) auto
  then have nonneg: "0 \<le> f * ?n" by (smt (verit) divide_nonneg_nonneg mult_nonneg_nonneg of_nat_0_le_iff order.trans zero_le_numeral zero_le_power)
  have small: "\<bar>f * ?n\<bar> < pow2 (53 - int 44)" "\<bar>f * ?n\<bar> < pow2 (53 - int 0)" using nonneg up n by (simp_all add: pow2_def)
  obtain v where v: "round64 (f * ?n) = Fin v" using round64_grid [OF small(1)] by force
  have "v \<le> ?n" using round64_le [of "f * ?n" "int n" 0 v] up small v by simp
  have "of_int ?m \<le> (of_int (3602879701896396 * int n) :: rat) / of_int (2 ^ 8)"
    by (metis floor_divide_of_int_eq of_int_floor_le)
  then have "of_int ?m / 2 ^ 44 \<le> f * ?n" using low by (simp add: field_simps)
  then have vm: "of_int ?m / 2 ^ 44 \<le> v" using round64_ge [of ?m 44 "f * ?n" v] small v by simp
  have "3602879701896396 * int n < 256 * ?m + 256" by simp
  then have "of_int (3602879701896396 * int n) < (of_int (256 * ?m + 256) :: rat)" by (simp only: of_int_less_iff)
  then have "3602879701896396 * ?n < 256 * of_int ?m + 256" by simp
  moreover have "of_int ?m \<le> v * 17592186044416" using vm by (simp add: divide_le_eq)
  ultimately have "800000000 * ?n - 1 \<le> v * 1000000000" using n by linarith
  then have "800000000 * int n - 1 \<le> round_half_even (v * 1000000000)"
    by (intro round_half_even_ge) simp
  moreover have "round_half_even (v * 1000000000) \<le> int n * 1000000000"
    using \<open>v \<le> ?n\<close> by (intro round_half_even_le) simp
  moreover have "0 \<le> v" using round64_ge [of 0 0 "f * ?n" v] nonneg small v by simp
  moreover have "0 \<le> round_half_even (v * 1000000000)" using \<open>0 \<le> v\<close> by (intro round_half_even_nonneg) simp
  ultimately show ?thesis
    using assms(1) v as_secs_whole [OF assms(1)]
    by (simp add: mul_f64_def duration_max_def Let_def nat_le_iff)
qed

text \<open>
  with a first delay and a ceiling in whole seconds, the ceiling below 512 seconds, the delay before the next attempt
  never panics, never exceeds the doubled delay nor the ceiling, and is at least 8/10 of it but for a nanosecond.
\<close>

theorem retry_delay_bounded:
  assumes "bo_base b = from_secs start" "bo_max b = from_secs cap" "cap < 512"
  shows "\<exists>d b'. next_delay b = (Some d, b') \<and>
    d \<le> min (from_secs (start * 2 ^ min (unat (bo_attempt b)) MAX_DOUBLINGS)) (from_secs cap) \<and>
    4 * min (from_secs (start * 2 ^ min (unat (bo_attempt b)) MAX_DOUBLINGS)) (from_secs cap) \<le> 5 * d + 5"
proof -
  define n where "n = min (start * 2 ^ min (unat (bo_attempt b)) MAX_DOUBLINGS) cap"
  have n: "n < 512" using assms(3) by (simp add: n_def)
  have whole: "from_secs n = min (from_secs (start * 2 ^ min (unat (bo_attempt b)) MAX_DOUBLINGS)) (from_secs cap)"
    by (simp add: n_def from_secs_def min_def)
  have "from_secs cap \<le> duration_max" using assms(3) by (simp add: from_secs_def duration_max_def)
  then have "min (min duration_max x) (from_secs cap) = min x (from_secs cap)" for x by (simp add: min_def)
  moreover have "from_secs start * 2 ^ k = from_secs (start * 2 ^ k)" for k by (simp add: from_secs_def)
  ultimately have "raw_delay b = from_secs n" using assms(1,2) whole by (simp add: raw_delay_def Let_def)
  then have raw: "raw_delay b = n * 1000000000" by (simp add: from_secs_def)
  let ?b = "b\<lparr>bo_attempt := saturating_inc (bo_attempt b)\<rparr>"
  obtain v r where u: "next_unit ?b = (Fin v, ?b\<lparr>bo_rng := r\<rparr>)" "0 \<le> v" "v \<le> 1"
    using next_unit_unit [of ?b] by blast
  obtain f where f: "f64_sub (Fin 1) (f64_mul JITTER_RATIO (Fin v)) = Fin f" "f \<le> 1" "3602879701896396 / 2 ^ 52 \<le> f"
    using jitter_factor [OF u(2,3)] by blast
  obtain d where "mul_f64 (n * 1000000000) (Fin f) = Some d" "d \<le> n * 1000000000" "800000000 * n \<le> d + 1"
    using mul_f64_whole [OF n f(2,3)] by blast
  then show ?thesis
    unfolding whole [symmetric] using raw u(1) f(1) by (simp add: next_delay_def apply_jitter_def Let_def from_secs_def)
qed

theorem retry_delay_bounded_witness:
  "\<exists>d b'. next_delay (backoff_with_seed (from_secs 5) (from_secs 300) 42) = (Some d, b') \<and>
    d \<le> from_secs 5 \<and> 4 * from_secs 5 \<le> 5 * d + 5"
  using retry_delay_bounded [of "backoff_with_seed (from_secs 5) (from_secs 300) 42" 5 300]
  by (simp add: backoff_with_seed_def from_secs_def)

end
