(* ===== verification/Agent_Ingest.thy ===== *)
theory Agent_Ingest
  imports Agent_Binding Agent_Buffer
begin

text \<open>
  The reception of the batches (\<^verbatim>\<open>crates/server/src/collectors/agent/receive.rs\<close>, \<^verbatim>\<open>mod.rs\<close>), its routes and those
  of the enrolment tokens (\<^verbatim>\<open>api/ingest.rs\<close>), and the entry of the writer of samples (\<^verbatim>\<open>tsdb/writer.rs\<close>).
\<close>

section \<open>The writer\<close>

text \<open>The queue of the writer refuses a batch when it is full or closed; the caller is not told.\<close>

definition sink_send :: "agent_world \<Rightarrow> sample list \<Rightarrow> (agent_sys, 'e, unit) action" where
  "sink_send w samples s =
     (if samples = [] then (Inr (), s)
      else
        let t = gs_tick s; s = s\<lparr>gs_tick := t + 1\<rparr>
        in if gw_sink_full w t then (Inr (), s\<lparr>gs_dropped := gs_dropped s + length samples\<rparr>)
           else (Inr (), s\<lparr>gs_sink := gs_sink s @ samples\<rparr>))"

section \<open>A batch\<close>

definition MAX_BACKFILL_MS :: int where
  "MAX_BACKFILL_MS = 30 * 24 * 3600 * 1000"

definition MAX_SKEW_AHEAD_MS :: int where
  "MAX_SKEW_AHEAD_MS = 3600 * 1000"

datatype ingest_error = IeUnauthorized | IeForbidden string | IeBadRequest string | IeInternal

fun ingest_status :: "ingest_error \<Rightarrow> nat" where
  "ingest_status IeUnauthorized = 401"
| "ingest_status (IeForbidden _) = 403"
| "ingest_status (IeBadRequest _) = 400"
| "ingest_status IeInternal = 500"

fun ingest_message :: "ingest_error \<Rightarrow> string" where
  "ingest_message IeUnauthorized = ''Enrollment token missing, unknown or revoked.''"
| "ingest_message (IeForbidden why) = why"
| "ingest_message (IeBadRequest why) = why"
| "ingest_message IeInternal = ''Internal server error.''"

definition BINDING_MISMATCH :: string where
  "BINDING_MISMATCH = ''This machine is already enrolled and bound to another agent installation. If you reinstalled it, open its device page in DumbMonit and click '' @ [CHR 0x27] @ ''Allow re-enrolment'' @ [CHR 0x27] @ '', then restart the agent.''"

definition NOT_BOUND :: string where
  "NOT_BOUND = ''This machine was enrolled before agent binding and was never bound to its agent installation, so the server no longer accepts it. Re-enrol this host: open its device page in DumbMonit, click '' @ [CHR 0x27] @ ''Allow re-enrolment'' @ [CHR 0x27] @ '', then restart the agent (re-run the install command first if the agent is older than binding).''"

definition AGENT_TOO_OLD :: string where
  "AGENT_TOO_OLD = ''This agent is too old to be bound to its machine, and the server no longer accepts unbound agents. Re-run the install command from DumbMonit to update it; for a machine already listed, click '' @ [CHR 0x27] @ ''Allow re-enrolment'' @ [CHR 0x27] @ '' on its device page first.''"

fun ingest_of_register :: "register_error \<Rightarrow> ingest_error" where
  "ingest_of_register BindingMismatch = IeForbidden BINDING_MISMATCH"
| "ingest_of_register NotBound = IeForbidden NOT_BOUND"
| "ingest_of_register AgentTooOld = IeForbidden AGENT_TOO_OLD"
| "ingest_of_register (EnrolmentDenied denied) = IeForbidden (denied_message denied)"
| "ingest_of_register RegisterInternal = IeInternal"

definition validate_batch :: "push_batch \<Rightarrow> string + unit" where
  "validate_batch batch =
     (if pb_protocol batch > PUSH_PROTOCOL_VERSION
      then Inl (''protocol '' @ show_nat (pb_protocol batch) @ '' is not supported by this server (maximum version '' @
                show_nat PUSH_PROTOCOL_VERSION @ ''), update the server'')
      else if trim (ai_hostname (pb_identity batch)) = [] then Inl ''hostname is required''
      else if length (pb_samples batch) > MAX_BATCH_SAMPLES
      then Inl (''batch too large: '' @ show_nat (length (pb_samples batch)) @ '' samples, maximum is '' @
                show_nat MAX_BATCH_SAMPLES)
      else Inr ())"

definition acceptable :: "int \<Rightarrow> sample \<Rightarrow> bool" where
  "acceptable received_at_ms sm \<longleftrightarrow>
     is_finite (sm_value sm) \<and> sm_ts_ms sm \<ge> received_at_ms - MAX_BACKFILL_MS \<and>
     sm_ts_ms sm \<le> received_at_ms + MAX_SKEW_AHEAD_MS"

definition stamped :: "target \<Rightarrow> sample \<Rightarrow> sample" where
  "stamped t sm = sm\<lparr>sm_labels := sm_labels sm ++ base_labels t\<rparr>"

definition prepare :: "target \<Rightarrow> sample list \<Rightarrow> int \<Rightarrow> sample list \<times> nat" where
  "prepare t samples received_at_ms =
     (let prepared = map (stamped t) (filter (acceptable received_at_ms) samples)
      in (prepared @ [(sample_new ''up'' (Fin 1) Gauge received_at_ms)\<lparr>sm_labels := base_labels t\<rparr>], length prepared))"

definition millis :: "instant \<Rightarrow> int" where
  "millis now = now div 1000000"

definition register_a ::
  "agent_world \<Rightarrow> agent_identity \<Rightarrow> int \<Rightarrow> string option \<Rightarrow> (agent_sys, ingest_error, registration) action" where
  "register_a w identity token_id secret s =
     (case register w identity token_id secret s of
        (Inl e, s') \<Rightarrow> (Inl (ingest_of_register e), s')
      | (Inr r, s') \<Rightarrow> (Inr r, s'))"

definition active_token :: "agent_world \<Rightarrow> string option \<Rightarrow> (agent_sys, ingest_error, int) action" where
  "active_token w bearer =
     (case agent_bearer bearer of
        None \<Rightarrow> fail_a IeUnauthorized
      | Some presented \<Rightarrow>
          bind_a (select_a w IeInternal (\<lambda>_. find_active_token (agent_fingerprint w presented))) (\<lambda>found.
            case found of None \<Rightarrow> fail_a IeUnauthorized | Some i \<Rightarrow> return_a i))"

text \<open>What follows the registration: the target is read again, the samples leave for the writer, three rows are touched.\<close>

definition store_batch ::
  "agent_world \<Rightarrow> int \<Rightarrow> registration \<Rightarrow> sample list \<Rightarrow> (agent_sys, ingest_error, push_ack) action" where
  "store_batch w token_id reg samples =
     bind_a (target_get w IeInternal (rg_target_id reg)) (\<lambda>found.
     case found of
       None \<Rightarrow> fail_a IeInternal
     | Some t \<Rightarrow>
         bind_a (clock_a w) (\<lambda>now.
         let received_at_ms = millis now; (prepared, accepted) = prepare t samples received_at_ms in
         then_a (sink_send w prepared)
         (then_a (execute_a w IeInternal (\<lambda>now. record_batch now (tg_id t) received_at_ms accepted))
         (then_a (execute_a w IeInternal (\<lambda>now. touch_enrolment now token_id))
         (then_a (execute_a w IeInternal (\<lambda>now. record_probe now (tg_id t) None))
         (return_a
           \<lparr>pa_target_id = tg_id t, pa_accepted = accepted, pa_interval_secs = tg_interval t div 1000000000,
            pa_registered = rg_created reg, pa_agent_secret = rg_issued_secret reg, pa_bound = rg_bound reg\<rparr>))))))"

definition ingest ::
  "agent_world \<Rightarrow> string option \<Rightarrow> string option \<Rightarrow> push_batch \<Rightarrow> (agent_sys, ingest_error, push_ack) action" where
  "ingest w bearer agent_secret batch =
     then_a (lift_a (case validate_batch batch of Inl why \<Rightarrow> Inl (IeBadRequest why) | Inr _ \<Rightarrow> Inr ()))
     (bind_a (active_token w bearer) (\<lambda>token_id.
     bind_a (register_a w (pb_identity batch) token_id (extract_secret agent_secret)) (\<lambda>reg.
     store_batch w token_id reg (pb_samples batch))))"

text \<open>The route: the token is looked at before the body is read, and again by the handler.\<close>

definition ingest_route ::
  "agent_world \<Rightarrow> string option \<Rightarrow> string option \<Rightarrow> push_batch \<Rightarrow> (agent_sys, ingest_error, push_ack) action" where
  "ingest_route w bearer agent_secret batch =
     bind_a (active_token w bearer) (\<lambda>_. ingest w bearer agent_secret batch)"

section \<open>The routes of the tokens\<close>

record token_payload =
  tl_name :: string
  tl_reusable :: bool
  tl_max_uses :: "int option"
  tl_expires_in_days :: "int option"

definition payload_policy :: "token_payload \<Rightarrow> string + token_policy" where
  "payload_policy p =
     (let max_uses =
            (if \<not> tl_reusable p then Inr (Some 1)
             else case tl_max_uses p of
                 None \<Rightarrow> Inr None
               | Some n \<Rightarrow>
                   if n \<ge> 1 then Inr (Some n) else Inl ''A reusable token must allow at least one enrolment.'')
      in case max_uses of
           Inl why \<Rightarrow> Inl why
         | Inr limit \<Rightarrow>
             (case tl_expires_in_days p of
                Some d \<Rightarrow>
                  if d < 1 then Inl ''The enrolment deadline must be at least one day away.''
                  else Inr \<lparr>tp_max_uses = limit, tp_expires_in_days = Some d\<rparr>
              | None \<Rightarrow> Inr \<lparr>tp_max_uses = limit, tp_expires_in_days = None\<rparr>))"

datatype api_failure = AfBadRequest string | AfNotFound string | AfConflict string | AfInternal

fun api_status :: "api_failure \<Rightarrow> nat" where
  "api_status (AfBadRequest _) = 400"
| "api_status (AfNotFound _) = 404"
| "api_status (AfConflict _) = 409"
| "api_status AfInternal = 500"

text \<open>The answer carries the token in clear, once; the install commands around it are not modelled.\<close>

definition create_token_route :: "agent_world \<Rightarrow> token_payload \<Rightarrow> (agent_sys, api_failure, enrolment_row \<times> string) action" where
  "create_token_route w p =
     (let name = trim (tl_name p)
      in if name = [] then fail_a (AfBadRequest ''Token name is required.'')
         else case payload_policy p of
             Inl why \<Rightarrow> fail_a (AfBadRequest why)
           | Inr policy \<Rightarrow> enrolment_create w AfInternal name policy)"

definition revoke_token_route :: "agent_world \<Rightarrow> int \<Rightarrow> (agent_sys, api_failure, unit) action" where
  "revoke_token_route w i =
     bind_a (statement w AfInternal (\<lambda>now db. Some (enrolment_revoke now i db))) (\<lambda>revoked.
     if revoked then return_a ()
     else fail_a (AfNotFound (''Token '' @ show_int i @ '' not found or already revoked.'')))"

section \<open>Freshness\<close>

datatype probe_error =
    PeTimeout duration
  | PeUnreachable string
  | PeAuth string
  | PeProtocol string
  | PeConfig string
  | PeOther

fun means_down :: "probe_error \<Rightarrow> bool" where
  "means_down (PeTimeout _) = True"
| "means_down (PeUnreachable _) = True"
| "means_down _ = False"

definition MIN_GRACE :: duration where
  "MIN_GRACE = 90 * 1000000000"

definition MISSED_INTERVALS :: nat where
  "MISSED_INTERVALS = 3"

text \<open>The product stays far below \<^verbatim>\<open>Duration::MAX\<close> for a stored period.\<close>

definition staleness_deadline :: "duration \<Rightarrow> duration" where
  "staleness_deadline interval = max (interval * MISSED_INTERVALS) MIN_GRACE"

definition batch_age :: "int \<Rightarrow> int \<Rightarrow> duration" where
  "batch_age now_ms last_seen = nat (max 0 (i64_saturating (now_ms - last_seen))) * 1000000"

definition agent_probe :: "agent_world \<Rightarrow> target \<Rightarrow> (agent_sys, probe_error, sample list) action" where
  "agent_probe w t =
     bind_a (select_a w PeOther (\<lambda>_. last_seen_ms (tg_id t))) (\<lambda>seen.
     case seen of
       None \<Rightarrow> fail_a (PeUnreachable ''no measurement received from this agent: check that it is running and that the server URL it uses is reachable'')
     | Some last_seen \<Rightarrow>
         bind_a (clock_a w) (\<lambda>now.
         let age = batch_age (millis now) last_seen; deadline = staleness_deadline (tg_interval t) in
         if age > deadline
         then fail_a (PeUnreachable (''no measurement for '' @ show_nat (age div 1000000000) @ '' s (limit '' @
                show_nat (deadline div 1000000000) @ '' s)''))
         else return_a [sample_new ''agent_last_batch_age_seconds'' (as_secs_f64 age) Gauge (millis now)]))"

section \<open>Properties of a batch\<close>

text \<open>
  What is written for a batch bears the labels of the registered target, whatever labels the agent sent, and is
  finite and of a plausible time.
\<close>

lemma stamped_labels: "base_labels t k = Some v \<Longrightarrow> sm_labels (stamped t sm) k = Some v"
  by (simp add: stamped_def map_add_def)

lemma prepare_labels:
  "sm \<in> set (fst (prepare t samples ms)) \<Longrightarrow>
     sm_labels sm ''target'' = Some (show_int (tg_id t)) \<and> sm_labels sm ''host'' = Some (tg_name t)"
  using base_labels_identity [of t] by (auto simp: prepare_def Let_def intro: stamped_labels)

lemma prepare_acceptable: "sm \<in> set (fst (prepare t samples ms)) \<Longrightarrow> acceptable ms sm"
  by (auto simp: prepare_def Let_def stamped_def acceptable_def sample_new_def MAX_BACKFILL_MS_def MAX_SKEW_AHEAD_MS_def)

lemma prepare_count: "length (fst (prepare t samples ms)) = snd (prepare t samples ms) + 1"
  by (simp add: prepare_def Let_def)

lemma sink_send_Inr:
  "sink_send w samples s = (Inr x, t) \<Longrightarrow>
     gs_db t = gs_db s \<and>
     (gs_sink t = gs_sink s @ samples \<and> gs_dropped t = gs_dropped s \<or>
      gs_sink t = gs_sink s \<and> gs_dropped t = gs_dropped s + length samples)"
  by (auto simp: sink_send_def Let_def split: if_splits)

end
