(* ===== verification/Command_Queue.thy ===== *)
theory Command_Queue
  imports Agent_Ingest Maintenance_Silence
begin

text \<open>
  The queue of commands to the agents, the policies per container and the automaton that applies them
  (\<^verbatim>\<open>crates/server/src/collectors/agent/commands.rs\<close>, \<^verbatim>\<open>policy.rs\<close>), and their routes
  (\<^verbatim>\<open>api/agent_commands.rs\<close>). The metrics and the maintenance windows the automaton reads are parameters.
\<close>

section \<open>The queue\<close>

definition container_policy_default :: container_policy where
  "container_policy_default =
     \<lparr>cp_auto_restart = False, cp_auto_update = False, cp_prune_old_image = True, cp_only_in_maintenance = True\<rparr>"

datatype command_error = CeConflict string | CeNotFound | CeInternal

definition container_name :: "json \<Rightarrow> string option" where
  "container_name args =
     (case json_get args ''name'' of
        None \<Rightarrow> None
      | Some value \<Rightarrow>
          (case json_str value of None \<Rightarrow> None | Some name \<Rightarrow> if name = [] then None else Some name))"

text \<open>\<^verbatim>\<open>json_extract(args, '$.name') = ?\<close>: a text equals no number and nothing equals a missing value.\<close>

definition names_container :: "json \<Rightarrow> string \<Rightarrow> bool" where
  "names_container args name = (json_get args ''name'' = Some (JString name))"

definition is_open :: "command_status \<Rightarrow> bool" where
  "is_open st = (st = Queued \<or> st = Running)"

definition has_pending :: "int \<Rightarrow> string \<Rightarrow> string \<Rightarrow> agent_db \<Rightarrow> bool" where
  "has_pending target_id kind name db =
     list_ex (\<lambda>c. cm_target_id c = target_id \<and> cm_kind c = kind \<and> is_open (cm_status c) \<and> names_container (cm_args c) name)
       (gb_commands db)"

text \<open>A command of a target that does not exist is refused by its foreign key.\<close>

definition command_insert :: "int \<Rightarrow> string \<Rightarrow> json \<Rightarrow> string \<Rightarrow> instant \<Rightarrow> agent_db \<Rightarrow> (command_row \<times> agent_db) option" where
  "command_insert target_id kind args requested_by now db =
     (if \<not> list_ex (\<lambda>r. tr_id r = target_id) (gb_targets db) then None
      else
        let i = gb_next_command db;
            row = \<lparr>cm_id = i, cm_target_id = target_id, cm_kind = kind, cm_args = args, cm_status = Queued,
                   cm_requested_by = Some requested_by, cm_created_at = to_whole_second now, cm_started_at = None,
                   cm_finished_at = None, cm_result = None\<rparr>
        in Some (row, db\<lparr>gb_commands := gb_commands db @ [row], gb_next_command := i + 1\<rparr>))"

definition command_enqueue ::
  "agent_world \<Rightarrow> int \<Rightarrow> string \<Rightarrow> json \<Rightarrow> string \<Rightarrow> (agent_sys, command_error, command_row) action" where
  "command_enqueue w target_id kind args requested_by =
     (let name = (case container_name args of None \<Rightarrow> [] | Some n \<Rightarrow> n)
      in bind_a (select_a w CeInternal (\<lambda>_. has_pending target_id kind name)) (\<lambda>pending.
         if pending
         then fail_a (CeConflict (''A '' @ [CHR 0x27] @ kind @ [CHR 0x27] @ '' command for '' @ [CHR 0x27] @ name @
                [CHR 0x27] @ '' is already queued or running.''))
         else statement w CeInternal (command_insert target_id kind args requested_by)))"

definition commands_of :: "int \<Rightarrow> agent_db \<Rightarrow> command_row list" where
  "commands_of target_id db = filter (\<lambda>c. cm_target_id c = target_id) (sort_key cm_id (gb_commands db))"

definition list_for_target :: "int \<Rightarrow> nat \<Rightarrow> agent_db \<Rightarrow> command_row list" where
  "list_for_target target_id limit db = take limit (rev (commands_of target_id db))"

text \<open>The last command of each container, by name.\<close>

definition last_command_per_container :: "int \<Rightarrow> agent_db \<Rightarrow> (string \<rightharpoonup> command_row)" where
  "last_command_per_container target_id db =
     foldl (\<lambda>m c. case container_name (cm_args c) of
                    None \<Rightarrow> m
                  | Some name \<Rightarrow> (if m name = None then m(name \<mapsto> c) else m))
       Map.empty (list_for_target target_id 100 db)"

definition last_command_at :: "int \<Rightarrow> string \<Rightarrow> string \<Rightarrow> agent_db \<Rightarrow> instant option" where
  "last_command_at target_id kind name db =
     map_option cm_created_at
       (find (\<lambda>c. cm_kind c = kind \<and> names_container (cm_args c) name) (rev (commands_of target_id db)))"

definition EXPIRED_RESULT :: string where
  "EXPIRED_RESULT = ''Expired: the agent did not pick it up within 10 minutes.''"

definition is_stale :: "instant \<Rightarrow> int option \<Rightarrow> command_row \<Rightarrow> bool" where
  "is_stale now target_id c \<longleftrightarrow>
     cm_status c = Queued \<and> (case target_id of None \<Rightarrow> True | Some t \<Rightarrow> cm_target_id c = t) \<and>
     cm_created_at c < to_whole_second (now - seconds COMMAND_MAX_AGE_SECS)"

definition update_commands :: "(command_row \<Rightarrow> bool) \<Rightarrow> (command_row \<Rightarrow> command_row) \<Rightarrow> agent_db \<Rightarrow> nat \<times> agent_db" where
  "update_commands P f db =
     (length (filter P (gb_commands db)), db\<lparr>gb_commands := map (\<lambda>c. if P c then f c else c) (gb_commands db)\<rparr>)"

definition expire_stale :: "int option \<Rightarrow> instant \<Rightarrow> agent_db \<Rightarrow> nat \<times> agent_db" where
  "expire_stale target_id now =
     update_commands (is_stale now target_id)
       (\<lambda>c. c\<lparr>cm_status := Expired, cm_finished_at := Some (to_whole_second now), cm_result := Some EXPIRED_RESULT\<rparr>)"

text \<open>The cancellation reads the status, then writes on the condition that it has not changed.\<close>

definition cancel_result :: "string \<Rightarrow> string" where
  "cancel_result by_whom = ''Cancelled by '' @ by_whom @ '' before the agent picked it up.''"

definition command_cancel :: "agent_world \<Rightarrow> int \<Rightarrow> int \<Rightarrow> string \<Rightarrow> (agent_sys, command_error, unit) action" where
  "command_cancel w target_id i by_whom =
     bind_a (select_a w CeInternal (\<lambda>_ db. find (\<lambda>c. cm_id c = i \<and> cm_target_id c = target_id) (gb_commands db))) (\<lambda>row.
     case row of
       None \<Rightarrow> fail_a CeNotFound
     | Some c \<Rightarrow>
         if cm_status c \<noteq> Queued
         then fail_a (CeConflict (''Command '' @ show_int i @ '' is '' @ status_as_str (cm_status c) @
                '': only a queued command can be cancelled.''))
         else
           bind_a (statement w CeInternal (\<lambda>now db.
             Some (update_commands (\<lambda>c. cm_id c = i \<and> cm_status c = Queued)
               (\<lambda>c. c\<lparr>cm_status := Cancelled, cm_finished_at := Some (to_whole_second now),
                      cm_result := Some (cancel_result by_whom)\<rparr>) db))) (\<lambda>affected.
           if affected = 0
           then fail_a (CeConflict (''Command '' @ show_int i @ '' was just picked up by the agent.''))
           else return_a ()))"

definition command_of_row :: "command_row \<Rightarrow> agent_command" where
  "command_of_row c =
     \<lparr>ac_id = cm_id c, ac_kind = cm_kind c, ac_args = cm_args c, ac_created_at_ms = millis (cm_created_at c)\<rparr>"

definition queued_for :: "int \<Rightarrow> agent_db \<Rightarrow> agent_command list" where
  "queued_for target_id db = map command_of_row (filter (\<lambda>c. cm_status c = Queued) (commands_of target_id db))"

definition pending_for_target :: "agent_world \<Rightarrow> 'e \<Rightarrow> int \<Rightarrow> (agent_sys, 'e, agent_command list) action" where
  "pending_for_target w err target_id =
     bind_a (statement w err (\<lambda>now db. Some (expire_stale (Some target_id) now db))) (\<lambda>_.
     select_a w err (\<lambda>_. queued_for target_id))"

text \<open>A report closes the command or marks its progress; a command already closed is left as it is.\<close>

definition started :: "instant \<Rightarrow> command_row \<Rightarrow> instant option" where
  "started now c = (case cm_started_at c of None \<Rightarrow> Some (to_whole_second now) | Some t \<Rightarrow> Some t)"

definition apply_report :: "instant \<Rightarrow> command_report \<Rightarrow> command_row \<Rightarrow> command_row" where
  "apply_report now rep c =
     (let result = truncate_result (cr_result rep)
      in if is_final (cr_status rep)
         then c\<lparr>cm_status := cr_status rep, cm_finished_at := Some (to_whole_second now), cm_result := Some result,
                cm_started_at := started now c\<rparr>
         else c\<lparr>cm_status := cr_status rep, cm_started_at := started now c,
                cm_result := (if result = [] then cm_result c else Some result)\<rparr>)"

definition command_report_a ::
  "agent_world \<Rightarrow> 'e \<Rightarrow> int \<Rightarrow> int \<Rightarrow> command_report \<Rightarrow> (agent_sys, 'e, bool) action" where
  "command_report_a w err target_id i rep =
     bind_a (select_a w err (\<lambda>_ db. find (\<lambda>c. cm_id c = i \<and> cm_target_id c = target_id) (gb_commands db))) (\<lambda>row.
     case row of
       None \<Rightarrow> return_a False
     | Some c \<Rightarrow>
         if is_final (cm_status c) then return_a True
         else
           then_a (execute_a w err (\<lambda>now db. snd (update_commands (\<lambda>c. cm_id c = i) (apply_report now rep) db)))
             (return_a True))"

section \<open>Policies\<close>

definition get_policy :: "int \<Rightarrow> string \<Rightarrow> agent_db \<Rightarrow> container_policy" where
  "get_policy target_id container db =
     (case map_of (gb_policies db) (target_id, container) of None \<Rightarrow> container_policy_default | Some p \<Rightarrow> p)"

definition set_policy ::
  "int \<Rightarrow> string \<Rightarrow> container_policy \<Rightarrow> agent_db \<Rightarrow> (unit \<times> agent_db) option" where
  "set_policy target_id container policy db =
     (if \<not> list_ex (\<lambda>r. tr_id r = target_id) (gb_targets db) then None
      else Some ((), db\<lparr>gb_policies := AList.update (target_id, container) policy (gb_policies db)\<rparr>))"

definition list_active_policies :: "agent_db \<Rightarrow> ((int \<times> string) \<times> container_policy) list" where
  "list_active_policies db = filter (\<lambda>(_, p). cp_auto_restart p \<or> cp_auto_update p) (gb_policies db)"

record policy_patch =
  pp_auto_restart :: "bool option"
  pp_auto_update :: "bool option"
  pp_prune_old_image :: "bool option"
  pp_only_in_maintenance :: "bool option"

definition unwrap_or :: "'a option \<Rightarrow> 'a \<Rightarrow> 'a" where
  "unwrap_or x d = (case x of None \<Rightarrow> d | Some y \<Rightarrow> y)"

definition patch_apply :: "policy_patch \<Rightarrow> container_policy \<Rightarrow> container_policy" where
  "patch_apply patch current =
     \<lparr>cp_auto_restart = unwrap_or (pp_auto_restart patch) (cp_auto_restart current),
      cp_auto_update = unwrap_or (pp_auto_update patch) (cp_auto_update current),
      cp_prune_old_image = unwrap_or (pp_prune_old_image patch) (cp_prune_old_image current),
      cp_only_in_maintenance = unwrap_or (pp_only_in_maintenance patch) (cp_only_in_maintenance current)\<rparr>"

section \<open>The automaton\<close>

definition RESTART_COOLDOWN :: timedelta where
  "RESTART_COOLDOWN = minutes 10"

definition UPDATE_COOLDOWN :: timedelta where
  "UPDATE_COOLDOWN = seconds (6 * 3600)"

record container_observation =
  co_name :: string
  co_up :: bool
  co_update_available :: bool

record decision =
  dc_kind :: string
  dc_args :: json

definition cooled :: "instant \<Rightarrow> instant option \<Rightarrow> timedelta \<Rightarrow> bool" where
  "cooled now last_time cooldown = (case last_time of None \<Rightarrow> True | Some t \<Rightarrow> now - t \<ge> cooldown)"

definition decide_container ::
  "container_policy \<Rightarrow> container_observation \<Rightarrow> instant \<Rightarrow> instant option \<Rightarrow> instant option \<Rightarrow> bool \<Rightarrow> bool \<Rightarrow> decision list" where
  "decide_container policy obs now last_restart last_update pending in_maintenance =
     (if pending then []
      else
        (if cp_auto_restart policy \<and> \<not> co_up obs \<and> cooled now last_restart RESTART_COOLDOWN
         then [\<lparr>dc_kind = CMD_CONTAINER_RESTART, dc_args = JObject [(''name'', JString (co_name obs))]\<rparr>] else []) @
        (if cp_auto_update policy \<and> co_update_available obs \<and> (\<not> cp_only_in_maintenance policy \<or> in_maintenance) \<and>
            cooled now last_update UPDATE_COOLDOWN
         then [\<lparr>dc_kind = CMD_CONTAINER_UPDATE,
                dc_args = JObject [(''name'', JString (co_name obs)), (''prune'', JBool (cp_prune_old_image policy))]\<rparr>]
         else []))"

text \<open>
  One series of the metric store: target, container, name and value of the metric. A later series of the same name
  replaces the reading.
\<close>

type_synonym reading = "int \<times> string \<times> string \<times> f64"

definition observe_step ::
  "((int \<times> string) \<rightharpoonup> container_observation) \<Rightarrow> reading \<Rightarrow> ((int \<times> string) \<rightharpoonup> container_observation)" where
  "observe_step m r =
     (case r of (target, container, name, value) \<Rightarrow>
        let entry = (case m (target, container) of
                       Some o' \<Rightarrow> o'
                     | None \<Rightarrow> \<lparr>co_name = container, co_up = True, co_update_available = False\<rparr>)
        in m((target, container) \<mapsto>
             (if name = ''dumbmonit_container_up'' then entry\<lparr>co_up := \<not> f64_eq value (Fin 0)\<rparr>
              else if name = ''dumbmonit_container_update_available''
              then entry\<lparr>co_update_available := f64_eq value (Fin 1)\<rparr> else entry)))"

definition observe_containers :: "reading list \<Rightarrow> ((int \<times> string) \<rightharpoonup> container_observation)" where
  "observe_containers = foldl observe_step Map.empty"

definition enqueue_decision ::
  "agent_world \<Rightarrow> int \<Rightarrow> decision \<Rightarrow> nat \<Rightarrow> (agent_sys, 'e, nat) action" where
  "enqueue_decision w target_id d queued s =
     (case command_enqueue w target_id (dc_kind d) (dc_args d) ''policy'' s of
        (Inr _, s') \<Rightarrow> (Inr (Suc queued), s')
      | (Inl _, s') \<Rightarrow> (Inr queued, s'))"

fun enqueue_decisions ::
  "agent_world \<Rightarrow> int \<Rightarrow> decision list \<Rightarrow> nat \<Rightarrow> (agent_sys, 'e, nat) action" where
  "enqueue_decisions w target_id [] queued = return_a queued"
| "enqueue_decisions w target_id (d # ds) queued =
     bind_a (enqueue_decision w target_id d queued) (\<lambda>queued. enqueue_decisions w target_id ds queued)"

text \<open>The reads of one container, and what is queued for it.\<close>

definition policy_step ::
  "calendar \<Rightarrow> agent_world \<Rightarrow> ((int \<times> string) \<rightharpoonup> container_observation) \<Rightarrow> silence list \<Rightarrow> instant \<Rightarrow>
   (int \<times> string) \<times> container_policy \<Rightarrow> nat \<Rightarrow> (agent_sys, unit, nat) action" where
  "policy_step cal w observations silences now entry queued =
     (case entry of ((target_id, container), policy) \<Rightarrow>
        case observations (target_id, container) of
          None \<Rightarrow> return_a queued
        | Some obs \<Rightarrow>
            bind_a (select_a w () (\<lambda>_. host_of target_id)) (\<lambda>host.
            if \<not> (case host of None \<Rightarrow> False | Some h \<Rightarrow> commands_supported h) then return_a queued
            else
              let in_maintenance = (first_match cal silences now (Some target_id) [(''container'', container)] \<noteq> None) in
              bind_a (select_a w () (\<lambda>_. has_pending target_id CMD_CONTAINER_RESTART container)) (\<lambda>pending_restart.
              bind_a (select_a w () (\<lambda>_. has_pending target_id CMD_CONTAINER_UPDATE container)) (\<lambda>pending_update.
              bind_a (select_a w () (\<lambda>_. last_command_at target_id CMD_CONTAINER_RESTART container)) (\<lambda>last_restart.
              bind_a (select_a w () (\<lambda>_. last_command_at target_id CMD_CONTAINER_UPDATE container)) (\<lambda>last_update.
              enqueue_decisions w target_id
                (decide_container policy obs now last_restart last_update (pending_restart \<or> pending_update) in_maintenance)
                queued))))))"

fun policy_steps ::
  "calendar \<Rightarrow> agent_world \<Rightarrow> ((int \<times> string) \<rightharpoonup> container_observation) \<Rightarrow> silence list \<Rightarrow> instant \<Rightarrow>
   ((int \<times> string) \<times> container_policy) list \<Rightarrow> nat \<Rightarrow> (agent_sys, unit, nat) action" where
  "policy_steps cal w observations silences now [] queued = return_a queued"
| "policy_steps cal w observations silences now (e # es) queued =
     bind_a (policy_step cal w observations silences now e queued) (\<lambda>queued.
     policy_steps cal w observations silences now es queued)"

text \<open>\<open>readings\<close> and \<open>silences\<close> are nothing when the store or the database does not answer.\<close>

definition policy_run_once ::
  "calendar \<Rightarrow> agent_world \<Rightarrow> reading list option \<Rightarrow> silence list option \<Rightarrow> (agent_sys, unit, nat) action" where
  "policy_run_once cal w readings silences =
     bind_a (select_a w () (\<lambda>_. list_active_policies)) (\<lambda>policies.
     if policies = [] then return_a 0
     else
       case readings of
         None \<Rightarrow> fail_a ()
       | Some readings \<Rightarrow>
           (case silences of
              None \<Rightarrow> fail_a ()
            | Some silences \<Rightarrow>
                bind_a (clock_a w) (\<lambda>now. policy_steps cal w (observe_containers readings) silences now policies 0)))"

text \<open>One minute of the automaton: it expires what nobody fetched, then decides; errors are only logged.\<close>

definition policy_tick ::
  "calendar \<Rightarrow> agent_world \<Rightarrow> reading list option \<Rightarrow> silence list option \<Rightarrow> agent_sys \<Rightarrow> agent_sys" where
  "policy_tick cal w readings silences s =
     (let (_, s) = statement w () (\<lambda>now db. Some (expire_stale None now db)) s
      in snd (policy_run_once cal w readings silences s))"

section \<open>The routes of the agents\<close>

text \<open>\<open>key\<close> is the query parameter, empty when it is missing.\<close>

datatype agent_rejection = ArIngest ingest_error | ArNotFound string

fun rejection_status :: "agent_rejection \<Rightarrow> nat" where
  "rejection_status (ArIngest e) = ingest_status e"
| "rejection_status (ArNotFound _) = 404"

definition authenticate_agent ::
  "agent_world \<Rightarrow> string option \<Rightarrow> string option \<Rightarrow> string \<Rightarrow> (agent_sys, agent_rejection, int \<times> int) action" where
  "authenticate_agent w bearer secret key =
     bind_a (case agent_bearer bearer of
               None \<Rightarrow> return_a None
             | Some presented \<Rightarrow>
                 select_a w (ArIngest IeInternal) (\<lambda>_. find_active_token (agent_fingerprint w presented))) (\<lambda>token.
     case token of
       None \<Rightarrow> fail_a (ArIngest IeUnauthorized)
     | Some token_id \<Rightarrow>
         let key = trim key in
         if key = [] then fail_a (ArIngest (IeBadRequest (''the '' @ [CHR 0x27] @ ''key'' @ [CHR 0x27] @ '' query parameter is required'')))
         else
           bind_a (authorise_key w (ArIngest IeInternal) key (extract_secret secret)) (\<lambda>verdict.
           case verdict of
             KaAllowed target_id \<Rightarrow> return_a (token_id, target_id)
           | KaDenied \<Rightarrow> fail_a (ArIngest (IeForbidden BINDING_MISMATCH))
           | KaNotBound \<Rightarrow> fail_a (ArIngest (IeForbidden NOT_BOUND))
           | KaUnknown \<Rightarrow> fail_a (ArNotFound ''Unknown machine: push a batch first.'')))"

definition pending_route ::
  "agent_world \<Rightarrow> string option \<Rightarrow> string option \<Rightarrow> string \<Rightarrow> (agent_sys, agent_rejection, agent_command list) action" where
  "pending_route w bearer secret key =
     bind_a (authenticate_agent w bearer secret key) (\<lambda>(token_id, target_id).
     bind_a (pending_for_target w (ArIngest IeInternal) target_id) (\<lambda>commands.
     then_a (execute_a w (ArIngest IeInternal) (\<lambda>now. touch_enrolment now token_id))
     (return_a commands)))"

definition report_route ::
  "agent_world \<Rightarrow> string option \<Rightarrow> string option \<Rightarrow> string \<Rightarrow> int \<Rightarrow> command_report \<Rightarrow> (agent_sys, agent_rejection, unit) action" where
  "report_route w bearer secret key i rep =
     bind_a (authenticate_agent w bearer secret key) (\<lambda>(_, target_id).
     bind_a (command_report_a w (ArIngest IeInternal) target_id i rep) (\<lambda>accepted.
     if accepted then return_a () else fail_a (ArNotFound ''Command not found for this machine.'')))"

section \<open>The routes of the interface\<close>

definition RESERVED_PREFIXES :: "string list" where
  "RESERVED_PREFIXES = [''dumbmonit'', ''ezymonit'']"

definition name_char :: "char \<Rightarrow> bool" where
  "name_char c = (is_ascii_alphanumeric c \<or> c = CHR ''_'' \<or> c = CHR ''.'' \<or> c = CHR ''-'')"

definition validate_container :: "string \<Rightarrow> string + unit" where
  "validate_container name =
     (if name = [] \<or> length name > 128 \<or> \<not> is_ascii_alphanumeric (hd name) \<or> \<not> list_all name_char (tl name)
      then Inl ''Invalid container name.''
      else if list_ex (starts_with (map ascii_lower name)) RESERVED_PREFIXES
      then Inl ''The monitor never acts on its own containers.''
      else Inr ())"

definition agent_target :: "agent_world \<Rightarrow> int \<Rightarrow> (agent_sys, api_failure, target) action" where
  "agent_target w i =
     bind_a (target_get w AfInternal i) (\<lambda>found.
     case found of
       None \<Rightarrow> fail_a (AfNotFound (''Device '' @ show_int i @ '' not found.''))
     | Some t \<Rightarrow>
         if tg_kind t \<noteq> ''agent'' then fail_a (AfNotFound (''Device '' @ show_int i @ '' has no agent.''))
         else return_a t)"

text \<open>\<open>known\<close> lists the containers of the device that the metric store knows, nothing when it does not answer.\<close>

definition checked_known_name :: "int \<Rightarrow> string list option \<Rightarrow> string \<Rightarrow> (agent_sys, api_failure, string) action" where
  "checked_known_name i known name =
     (case validate_container name of
        Inl why \<Rightarrow> fail_a (AfBadRequest why)
      | Inr _ \<Rightarrow>
          (case known of
             None \<Rightarrow> fail_a AfInternal
           | Some names \<Rightarrow>
               if name \<in> set names then return_a name
               else fail_a (AfNotFound (''No container named '' @ [CHR 0x27] @ name @ [CHR 0x27] @ '' on device '' @ show_int i @
                      '': it is not in the agent'' @ [CHR 0x27] @ ''s inventory.''))))"

definition ensure_commands_supported :: "agent_world \<Rightarrow> int \<Rightarrow> (agent_sys, api_failure, unit) action" where
  "ensure_commands_supported w i =
     bind_a (select_a w AfInternal (\<lambda>_. host_of i)) (\<lambda>host.
     if (case host of None \<Rightarrow> False | Some h \<Rightarrow> commands_supported h) then return_a ()
     else fail_a (AfConflict ''This agent cannot run commands: it is too old or has actions disabled. Reinstall it with the current installer.''))"

fun failure_of_command :: "string \<Rightarrow> command_error \<Rightarrow> api_failure" where
  "failure_of_command missing (CeConflict why) = AfConflict why"
| "failure_of_command missing CeNotFound = AfNotFound missing"
| "failure_of_command missing CeInternal = AfInternal"

definition enqueue_a ::
  "agent_world \<Rightarrow> int \<Rightarrow> string \<Rightarrow> json \<Rightarrow> string \<Rightarrow> (agent_sys, api_failure, command_row) action" where
  "enqueue_a w i kind args requested_by s =
     (case command_enqueue w i kind args requested_by s of
        (Inl e, s') \<Rightarrow> (Inl (failure_of_command ''Command not found.'' e), s')
      | (Inr row, s') \<Rightarrow> (Inr row, s'))"

definition restart_route ::
  "agent_world \<Rightarrow> string list option \<Rightarrow> string \<Rightarrow> int \<Rightarrow> string \<Rightarrow> (agent_sys, api_failure, command_row) action" where
  "restart_route w known requester i name =
     bind_a (agent_target w i) (\<lambda>_.
     then_a (ensure_commands_supported w i)
     (bind_a (checked_known_name i known name) (\<lambda>name.
     enqueue_a w i CMD_CONTAINER_RESTART (JObject [(''name'', JString name)]) requester)))"

definition update_route ::
  "agent_world \<Rightarrow> string list option \<Rightarrow> string \<Rightarrow> int \<Rightarrow> string \<Rightarrow> bool option \<Rightarrow> (agent_sys, api_failure, command_row) action" where
  "update_route w known requester i name prune =
     bind_a (agent_target w i) (\<lambda>_.
     then_a (ensure_commands_supported w i)
     (bind_a (checked_known_name i known name) (\<lambda>name.
     bind_a (select_a w AfInternal (\<lambda>_. get_policy i name)) (\<lambda>policy.
     enqueue_a w i CMD_CONTAINER_UPDATE
       (JObject [(''name'', JString name), (''prune'', JBool (unwrap_or prune (cp_prune_old_image policy)))]) requester))))"

definition cancel_route :: "agent_world \<Rightarrow> string \<Rightarrow> int \<Rightarrow> int \<Rightarrow> (agent_sys, api_failure, unit) action" where
  "cancel_route w requester i command_id =
     bind_a (agent_target w i) (\<lambda>_ s.
       case command_cancel w i command_id requester s of
         (Inl e, s') \<Rightarrow>
           (Inl (failure_of_command (''Command '' @ show_int command_id @ '' not found on device '' @ show_int i @ ''.'') e), s')
       | (Inr _, s') \<Rightarrow> (Inr (), s'))"

definition policy_route ::
  "agent_world \<Rightarrow> int \<Rightarrow> string \<Rightarrow> policy_patch \<Rightarrow> (agent_sys, api_failure, container_policy) action" where
  "policy_route w i name patch =
     bind_a (agent_target w i) (\<lambda>_.
     then_a (lift_a (case validate_container name of Inl why \<Rightarrow> Inl (AfBadRequest why) | Inr _ \<Rightarrow> Inr ()))
     (bind_a (select_a w AfInternal (\<lambda>_. get_policy i name)) (\<lambda>current.
     let policy = patch_apply patch current in
     then_a (statement w AfInternal (\<lambda>_. set_policy i name policy))
     (return_a policy))))"

definition rebind_route :: "agent_world \<Rightarrow> int \<Rightarrow> (agent_sys, api_failure, instant) action" where
  "rebind_route w i =
     bind_a (agent_target w i) (\<lambda>_.
     bind_a (allow_rebind w AfInternal i) (\<lambda>until.
     case until of
       None \<Rightarrow> fail_a (AfNotFound (''No agent has reported for device '' @ show_int i @ '' yet.''))
     | Some t \<Rightarrow> return_a t))"

end
