(* ===== verification/Agent_Service.thy ===== *)
theory Agent_Service
  imports Command_Queue
begin

text \<open>
  The server as the agents and the administrators see it: one transition per request, in any order, whatever the
  statements do. The invariants of its tables, what a binding guarantees over any history, how many machines a token
  lets in, what becomes of the commands.
\<close>

section \<open>Requests\<close>

datatype agent_call =
    CallIngest "string option" "string option" push_batch
  | CallPending "string option" "string option" string
  | CallReport "string option" "string option" string int command_report
  | CallCreateToken token_payload
  | CallRevokeToken int
  | CallRestart "string list option" string int string
  | CallUpdate "string list option" string int string "bool option"
  | CallCancel string int int
  | CallPolicy int string policy_patch
  | CallRebind int
  | CallDeleteTarget int
  | CallAutomaton "reading list option" "silence list option"

text \<open>What the deletion of a device does to the alerts, the captures and the series is not part of these tables.\<close>

definition delete_route :: "agent_world \<Rightarrow> int \<Rightarrow> (agent_sys, api_failure, unit) action" where
  "delete_route w i =
     bind_a (statement w AfInternal (\<lambda>_ db. Some (list_ex (\<lambda>r. tr_id r = i) (gb_targets db), target_delete i db))) (\<lambda>deleted.
     if deleted then return_a () else fail_a (AfNotFound (''Device '' @ show_int i @ '' not found.'')))"

fun agent_serve :: "calendar \<Rightarrow> agent_world \<Rightarrow> agent_call \<Rightarrow> agent_sys \<Rightarrow> agent_sys" where
  "agent_serve cal w (CallIngest bearer secret batch) s = snd (ingest_route w bearer secret batch s)"
| "agent_serve cal w (CallPending bearer secret key) s = snd (pending_route w bearer secret key s)"
| "agent_serve cal w (CallReport bearer secret key i rep) s = snd (report_route w bearer secret key i rep s)"
| "agent_serve cal w (CallCreateToken p) s = snd (create_token_route w p s)"
| "agent_serve cal w (CallRevokeToken i) s = snd (revoke_token_route w i s)"
| "agent_serve cal w (CallRestart known who i name) s = snd (restart_route w known who i name s)"
| "agent_serve cal w (CallUpdate known who i name prune) s = snd (update_route w known who i name prune s)"
| "agent_serve cal w (CallCancel who i c) s = snd (cancel_route w who i c s)"
| "agent_serve cal w (CallPolicy i name patch) s = snd (policy_route w i name patch s)"
| "agent_serve cal w (CallRebind i) s = snd (rebind_route w i s)"
| "agent_serve cal w (CallDeleteTarget i) s = snd (delete_route w i s)"
| "agent_serve cal w (CallAutomaton readings silences) s = policy_tick cal w readings silences s"

text \<open>\<open>agent_served cal w allowed s t\<close>: some requests, all of them allowed, lead from \<open>s\<close> to \<open>t\<close>.\<close>

inductive agent_served :: "calendar \<Rightarrow> agent_world \<Rightarrow> (agent_call \<Rightarrow> bool) \<Rightarrow> agent_sys \<Rightarrow> agent_sys \<Rightarrow> bool"
  for cal w allowed where
  served_none: "agent_served cal w allowed s s"
| served_call: "agent_served cal w allowed s t \<Longrightarrow> allowed c \<Longrightarrow> agent_served cal w allowed s (agent_serve cal w c t)"

lemma served_invariant:
  assumes "agent_served cal w allowed s t" "P s" "\<And>c u. allowed c \<Longrightarrow> P u \<Longrightarrow> P (agent_serve cal w c u)"
  shows "P t"
  using assms(1,2) by (induction rule: agent_served.induct) (auto intro: assms(3))

section \<open>What a predicate of the tables must survive\<close>

text \<open>The token has not let in all the machines it may.\<close>

definition token_has_room :: "int \<Rightarrow> agent_db \<Rightarrow> bool" where
  "token_has_room i db =
     list_all (\<lambda>r. en_id r = i \<longrightarrow> (case en_max_uses r of None \<Rightarrow> True | Some limit \<Rightarrow> en_uses r < limit)) (gb_tokens db)"

lemma enrolment_verdict_room:
  assumes "registry_wf db" "enrolment_verdict now i db = Inr ()"
  shows "token_has_room i db"
proof -
  obtain row where row: "find (\<lambda>r. en_id r = i) (gb_tokens db) = Some row"
      "case en_max_uses row of None \<Rightarrow> True | Some limit \<Rightarrow> en_uses row < limit"
    using assms(2) by (auto simp: enrolment_verdict_def split: option.splits if_splits)
  then have "r = row" if "r \<in> set (gb_tokens db)" "en_id r = i" for r
    using that assms(1) by (auto simp: registry_wf_def distinct_map dest!: find_SomeD dest: inj_onD)
  then show ?thesis using row(2) by (auto simp: token_has_room_def list_all_iff)
qed

lemma token_has_room_same: "gb_tokens db' = gb_tokens db \<Longrightarrow> token_has_room i db' = token_has_room i db"
  by (simp add: token_has_room_def)

lemma target_insert_tokens: "target_insert input db = Some (i, db') \<Longrightarrow> gb_tokens db' = gb_tokens db"
  by (auto simp: target_insert_def Let_def split: if_splits)

lemma insert_host_tokens: "insert_host w i key identity token issued now db = Some (x, db') \<Longrightarrow> gb_tokens db' = gb_tokens db"
  by (auto simp: insert_host_def split: if_splits)

lemma triple_snd: "triple_a P m (\<lambda>_. Q) Q \<Longrightarrow> P s \<Longrightarrow> Q (snd (m s))"
  unfolding triple_a_def by (cases "m s"; cases "fst (m s)") auto

lemma triple_prefix:
  "keeps_a I m \<Longrightarrow> (\<And>s. I s \<Longrightarrow> E s) \<Longrightarrow> (\<And>x. triple_a I (f x) Q E) \<Longrightarrow> triple_a I (bind_a m f) Q E"
  unfolding keeps_triple by (rule triple_bind [where R = "\<lambda>_. I"]) (auto elim: triple_weaken)

text \<open>
  The writes of a registration. A machine is bound again only while its window is open, and a use of a token is counted
  only while it has room: what a predicate has to survive is no more than that.
\<close>

locale kept_by_enrolment =
  fixes P :: "agent_db \<Rightarrow> bool" and w :: agent_world
  assumes well_formed: "P db \<Longrightarrow> registry_wf db"
    and kept_describe: "P db \<Longrightarrow> P (update_host i identity db)"
    and kept_bind: "P db \<Longrightarrow> find_host key now db = Some host \<Longrightarrow> bh_rebind_open host \<Longrightarrow>
      P (bind_host w (bh_target_id host) secret token now' db)"
    and kept_target: "P db \<Longrightarrow> target_insert input db = Some (i, db') \<Longrightarrow> P db'"
    and kept_host: "P db \<Longrightarrow> insert_host w i key identity token issued now db = Some (x, db') \<Longrightarrow> P db'"
    and kept_consume: "P db \<Longrightarrow> token_has_room i db \<Longrightarrow> P (consume_enrolment i db)"
begin

lemma kept_require: "keeps_a (\<lambda>s. A (gs_db s)) (require_enrolment w token)"
  unfolding require_enrolment_def enrolment_allowed_def by (intro keeps_intros)

lemma require_same: "require_enrolment w token s = (r, s') \<Longrightarrow> gs_db s' = gs_db s"
  using kept_require [of "\<lambda>db. db = gs_db s" token] by (auto dest: keepsD_a')

lemma kept_rebind_a:
  assumes "P (gs_db s)" "find_host key now (gs_db s) = Some host" "bh_rebind_open host"
  shows "P (gs_db (snd (rebind w (bh_target_id host) token identity s)))"
  using assms by (auto simp: rebind_def action_defs random_a_def execute_a_def statement_def Let_def
      intro!: kept_describe kept_bind)

lemma kept_claim:
  assumes "P (gs_db s)" "find_host key now (gs_db s) = Some host"
  shows "P (gs_db (snd (claim w host identity token presented s)))"
proof -
  have described: "P (gs_db (snd (then_a (execute_a w RegisterInternal (\<lambda>_. update_host i identity)) (return_a x) s)))" for i x
    using assms(1) by (auto simp: action_defs execute_a_def statement_def Let_def intro: kept_describe)
  have again: "P (gs_db (snd (then_a (when_a c (require_enrolment w token)) (rebind w (bh_target_id host) token identity) s)))"
    if "bh_rebind_open host" for c
  proof -
    obtain r s' where m: "when_a c (require_enrolment w token) s = (r, s')" by fastforce
    then have "gs_db s' = gs_db s" by (auto simp: when_a_def return_a_def dest: require_same split: if_splits)
    then have s': "P (gs_db s')" "find_host key now (gs_db s') = Some host" using assms by simp_all
    show ?thesis
      using s'(1) kept_rebind_a [OF s' that, of token identity]
      by (cases r) (simp_all add: then_a_def bind_a_def m)
  qed
  show ?thesis
    using described assms(1) again again [of True]
    by (auto simp: claim_def fail_a_def when_a_def split: option.split)
qed

lemma kept_enrol:
  assumes "P (gs_db s)" "token_has_room token (gs_db s)"
  shows "P (gs_db (snd (enrol w key identity token s)))"
proof -
  let ?I = "\<lambda>db. P db \<and> token_has_room token db"
  have steps: "?I db \<Longrightarrow> target_insert input db = Some (i, db') \<Longrightarrow> ?I db'"
    "?I db \<Longrightarrow> insert_host w i key identity t issued now db = Some (x, db') \<Longrightarrow> ?I db'"
    for db input i db' key identity t issued now x
    by (auto dest: kept_target kept_host simp: token_has_room_same [OF target_insert_tokens] token_has_room_same [OF insert_host_tokens])
  have last_step: "triple_a (\<lambda>s. ?I (gs_db s)) (execute_a w RegisterInternal (\<lambda>_. consume_enrolment token))
      (\<lambda>_ s. P (gs_db s)) (\<lambda>s. P (gs_db s))"
    by (rule triple_execute) (auto intro: kept_consume)
  have entry: "triple_a (\<lambda>s. ?I (gs_db s))
      (then_a (statement w RegisterInternal (insert_host w i key identity token issued))
        (then_a (execute_a w RegisterInternal (\<lambda>_. consume_enrolment token)) (return_a x)))
      (\<lambda>_ s. P (gs_db s)) (\<lambda>s. P (gs_db s))" for i issued x
    unfolding then_a_def
  proof (rule triple_prefix)
    show "keeps_a (\<lambda>s. ?I (gs_db s)) (statement w RegisterInternal (insert_host w i key identity token issued))"
      by (rule keeps_statement) (use steps(2) in blast)
    show "triple_a (\<lambda>s. ?I (gs_db s))
        (bind_a (execute_a w RegisterInternal (\<lambda>_. consume_enrolment token)) (\<lambda>_. return_a x))
        (\<lambda>_ s. P (gs_db s)) (\<lambda>s. P (gs_db s))"
      by (rule triple_bind [OF last_step]) (rule triple_return)
  qed simp
  have created: "keeps_a (\<lambda>s. ?I (gs_db s))
      (case existing of Some i \<Rightarrow> return_a (i, False)
       | None \<Rightarrow> bind_a (statement w RegisterInternal (\<lambda>_. target_insert (enrolled_target identity key))) (\<lambda>i. return_a (i, True)))"
    for existing
    by (intro keeps_intros keeps_statement) (use steps(1) in blast)
  have "triple_a (\<lambda>s. ?I (gs_db s)) (enrol w key identity token) (\<lambda>_ s. P (gs_db s)) (\<lambda>s. P (gs_db s))"
    unfolding enrol_def Let_def
    by (intro triple_prefix keeps_select created keeps_random) (auto intro!: triple_prefix keeps_random entry split: prod.split)
  from triple_snd [OF this, of s] show ?thesis using assms by simp
qed

lemma kept_register: "keeps_a (\<lambda>s. P (gs_db s)) (register w identity token secret)"
proof (unfold keeps_a_def, intro allI impI)
  fix s :: agent_sys
  assume s: "P (gs_db s)"
  let ?key = "agent_key (gw_lower w) identity"
  obtain found s' where m: "select_a w RegisterInternal (find_host ?key) s = (found, s')" by fastforce
  then have s': "gs_db s' = gs_db s" and found: "found = Inr x \<Longrightarrow> \<exists>now. find_host ?key now (gs_db s) = x" for x
    by (auto simp: select_a_def statement_def Let_def split: if_splits)
  have known: "P (gs_db (snd (claim w host identity token secret s')))" if "found = Inr (Some host)" for host
    using found [OF that] s s' by (auto intro: kept_claim)
  have unknown: "P (gs_db (snd (then_a (may_enrol w identity token) (enrol w ?key identity token) s')))"
  proof -
    obtain r u where v: "may_enrol w identity token s' = (r, u)" by fastforce
    then have u: "gs_db u = gs_db s'" by (auto simp: may_enrol_def fail_a_def dest: require_same split: if_splits)
    have "token_has_room token (gs_db u)" if "r = Inr x" for x
      using v that well_formed [OF s] s' u
      by (auto simp: may_enrol_def require_enrolment_def enrolment_allowed_def action_Inr registry_Inr
          split: if_splits sum.splits intro: enrolment_verdict_room)
    then show ?thesis
      using kept_enrol [of u token ?key identity] s s' u by (cases r) (simp_all add: then_a_def bind_a_def v)
  qed
  show "P (gs_db (snd (register w identity token secret s)))"
    using s s' known unknown by (cases found) (auto simp: register_def Let_def bind_a_def m split: option.split)
qed

end

section \<open>What a request may write\<close>

text \<open>
  The writes of the other routes. A predicate that each of them keeps is kept by every request; the locale proves it
  once, and each invariant below is an instance. \<open>report_ok\<close>, \<open>rebind_ok\<close> and \<open>delete_ok\<close> say which commands may be
  reported on, which machines may be opened to a new binding, which may be removed.
\<close>

locale kept_by_routes = kept_by_enrolment P w for P :: "agent_db \<Rightarrow> bool" and w :: agent_world +
  fixes report_ok :: "int \<Rightarrow> bool" and rebind_ok :: "int \<Rightarrow> bool" and delete_ok :: "int \<Rightarrow> bool"
  assumes kept_record_batch: "P db \<Longrightarrow> P (record_batch now i ms n db)"
    and kept_record_probe: "P db \<Longrightarrow> P (record_probe now i e db)"
    and kept_touch: "P db \<Longrightarrow> P (touch_enrolment now i db)"
    and kept_token: "P db \<Longrightarrow> (\<And>m. limit = Some m \<Longrightarrow> m \<ge> 1) \<Longrightarrow>
      enrolment_insert name hash prefix limit expires now db = Some (row, db') \<Longrightarrow> P db'"
    and kept_revoke: "P db \<Longrightarrow> P (snd (enrolment_revoke now i db))"
    and kept_enqueue: "P db \<Longrightarrow> \<not> has_pending i kind (case container_name args of None \<Rightarrow> [] | Some n \<Rightarrow> n) db \<Longrightarrow>
      command_insert i kind args who now db = Some (c, db') \<Longrightarrow> P db'"
    and kept_expire: "P db \<Longrightarrow> P (snd (expire_stale target_id now db))"
    and kept_cancel: "P db \<Longrightarrow> P (snd (update_commands (\<lambda>c. cm_id c = i \<and> cm_status c = Queued)
      (\<lambda>c. c\<lparr>cm_status := Cancelled, cm_finished_at := f, cm_result := r\<rparr>) db))"
    and kept_apply: "report_ok i \<Longrightarrow> P db \<Longrightarrow> find (\<lambda>c. cm_id c = i \<and> cm_target_id c = t) (gb_commands db) = Some c \<Longrightarrow>
      \<not> is_final (cm_status c) \<Longrightarrow> P (snd (update_commands (\<lambda>c. cm_id c = i) (apply_report now rep) db))"
    and kept_policy: "P db \<Longrightarrow> set_policy i name policy db = Some (x, db') \<Longrightarrow> P db'"
    and kept_rebind: "rebind_ok i \<Longrightarrow> P db \<Longrightarrow> P (modify_host i (\<lambda>h. h\<lparr>ho_rebind_until := Some until\<rparr>) db)"
    and kept_delete: "delete_ok i \<Longrightarrow> P db \<Longrightarrow> P (target_delete i db)"
begin

abbreviation kept :: "(agent_sys, 'e, 'a) action \<Rightarrow> bool" where
  "kept m \<equiv> keeps_a (\<lambda>s. P (gs_db s)) m"

lemma kept_statement: "(\<And>now db x db'. P db \<Longrightarrow> f now db = Some (x, db') \<Longrightarrow> P db') \<Longrightarrow> kept (statement w err f)"
  by (rule keeps_statement)

lemma kept_sink [keeps_intros]: "kept (sink_send w samples)"
  by (auto simp: keeps_a_def sink_send_def Let_def)

lemma kept_target_get: "kept (target_get w err i)"
  unfolding target_get_def by (auto intro!: keeps_intros)

lemma kept_store: "kept (store_batch w token_id reg samples)"
  unfolding store_batch_def Let_def
  by (auto intro!: keeps_intros keeps_execute kept_target_get kept_record_batch kept_record_probe kept_touch)

lemma kept_active: "kept (active_token w bearer)"
  unfolding active_token_def by (auto intro!: keeps_intros)

lemma kept_register_a: "kept (register_a w identity token_id secret)"
  using kept_register [of identity token_id secret]
  by (auto simp: keeps_a_def register_a_def split: prod.splits sum.splits)

lemma kept_ingest: "kept (ingest_route w bearer secret batch)"
  unfolding ingest_route_def ingest_def
  by (intro keeps_intros kept_active kept_register_a kept_store)

lemma kept_authenticate: "kept (authenticate_agent w bearer secret key)"
  unfolding authenticate_agent_def Let_def authorise_key_def
  by (intro keeps_intros) (auto intro!: keeps_intros split: key_auth.split)

lemma kept_expiry: "kept (statement w err (\<lambda>now db. Some (expire_stale target_id now db)))"
  by (rule kept_statement) (metis kept_expire option.inject snd_conv)

lemma kept_pending: "kept (pending_route w bearer secret key)"
  unfolding pending_route_def pending_for_target_def
  by (intro keeps_intros kept_authenticate kept_expiry keeps_execute kept_touch)

lemma kept_command_report:
  assumes "report_ok i"
  shows "kept (command_report_a w err t i rep)"
proof (unfold keeps_a_def, intro allI impI)
  fix s :: agent_sys
  assume "P (gs_db s)"
  then show "P (gs_db (snd (command_report_a w err t i rep s)))"
    using kept_apply [OF assms, where t = t]
    by (auto simp: command_report_a_def Let_def action_defs select_a_def execute_a_def statement_def split: option.splits prod.splits)
qed

lemma kept_report: "report_ok i \<Longrightarrow> kept (report_route w bearer secret key i rep)"
  unfolding report_route_def by (intro keeps_intros kept_authenticate kept_command_report)

lemma kept_create: "kept (create_token_route w p)"
proof -
  have inserted: "kept (statement w (AfInternal :: api_failure) (enrolment_insert name hash prefix limit expires))"
    if "\<And>m. limit = Some m \<Longrightarrow> m \<ge> 1" for name hash prefix limit expires
    by (rule kept_statement) (rule kept_token [OF _ that])
  have positive: "m \<ge> 1" if "payload_policy p = Inr policy" "tp_max_uses policy = Some m" for policy m
    using that by (auto simp: payload_policy_def Let_def split: if_splits option.splits)
  show ?thesis
    unfolding create_token_route_def enrolment_create_def Let_def
    by (intro keeps_intros inserted) (rule positive)
qed

lemma kept_revoked: "kept (revoke_token_route w i)"
  unfolding revoke_token_route_def
  by (intro keeps_intros kept_statement) (metis kept_revoke option.inject snd_conv)

lemma kept_command_enqueue: "kept (command_enqueue w i kind args who)"
proof (unfold keeps_a_def, intro allI impI)
  fix s :: agent_sys
  assume P: "P (gs_db s)"
  obtain name where name: "(case container_name args of None \<Rightarrow> [] | Some n \<Rightarrow> n) = name" by simp
  have "P db'" if "\<not> has_pending i kind name (gs_db s)" "command_insert i kind args who now (gs_db s) = Some (c, db')" for now c db'
    using kept_enqueue [OF P _ that(2)] that(1) by (auto simp: name)
  then show "P (gs_db (snd (command_enqueue w i kind args who s)))"
    using P unfolding command_enqueue_def name Let_def
    by (auto simp: bind_a_def select_a_def statement_def fail_a_def Let_def split: option.split)
qed

lemma kept_enqueue_a: "kept (enqueue_a w i kind args who)"
  using kept_command_enqueue [of i kind args who]
  by (auto simp: keeps_a_def enqueue_a_def split: prod.splits sum.splits)

lemma kept_agent_target: "kept (agent_target w i)"
  unfolding agent_target_def by (intro keeps_intros kept_target_get)

lemma kept_ensure: "kept (ensure_commands_supported w i)"
  unfolding ensure_commands_supported_def by (intro keeps_intros)

lemma kept_checked: "kept (checked_known_name i known name)"
  unfolding checked_known_name_def by (intro keeps_intros)

lemma kept_restart: "kept (restart_route w known who i name)"
  unfolding restart_route_def by (intro keeps_intros kept_agent_target kept_ensure kept_checked kept_enqueue_a)

lemma kept_update: "kept (update_route w known who i name prune)"
  unfolding update_route_def by (intro keeps_intros kept_agent_target kept_ensure kept_checked kept_enqueue_a)

lemma kept_cancelled:
  "update_commands (\<lambda>c. cm_id c = i \<and> cm_status c = Queued)
      (\<lambda>c. c\<lparr>cm_status := Cancelled, cm_finished_at := f, cm_result := r\<rparr>) db = (n, db') \<Longrightarrow> P db \<Longrightarrow> P db'"
  by (metis kept_cancel snd_conv)

lemma kept_command_cancel: "kept (command_cancel w i c who)"
  unfolding command_cancel_def
  by (intro keeps_intros kept_statement) (auto dest: kept_cancelled)

lemma kept_cancel_route: "kept (cancel_route w who i c)"
proof -
  have "kept (\<lambda>s. case command_cancel w i c who s of (Inl e, s') \<Rightarrow> (Inl (f e), s') | (Inr x, s') \<Rightarrow> (Inr (), s'))" for f
    using kept_command_cancel [of i c who] by (auto simp: keeps_a_def split: prod.splits sum.splits)
  then show ?thesis unfolding cancel_route_def by (intro keeps_intros kept_agent_target)
qed

lemma kept_policy_route: "kept (policy_route w i name patch)"
  unfolding policy_route_def Let_def
  by (intro keeps_intros kept_agent_target kept_statement) (use kept_policy in blast)

lemma kept_rebind_route: "rebind_ok i \<Longrightarrow> kept (rebind_route w i)"
  unfolding rebind_route_def allow_rebind_def Let_def
  by (intro keeps_intros kept_agent_target kept_statement) (use kept_rebind in auto)

lemma kept_delete_route: "delete_ok i \<Longrightarrow> kept (delete_route w i)"
  unfolding delete_route_def by (intro keeps_intros kept_statement) (use kept_delete in auto)

lemma kept_enqueue_decisions: "kept (enqueue_decisions w i ds queued)"
proof (induction ds arbitrary: queued)
  case (Cons d ds)
  have "kept (enqueue_decision w i d queued)"
    using kept_command_enqueue [of i "dc_kind d" "dc_args d" "''policy''"]
    by (auto simp: keeps_a_def enqueue_decision_def split: prod.splits sum.splits)
  then show ?case using Cons by (auto intro!: keeps_intros)
qed (auto intro!: keeps_intros)

lemma kept_policy_step: "kept (policy_step cal w observations silences now entry queued)"
  unfolding policy_step_def Let_def by (intro keeps_intros kept_enqueue_decisions)

lemma kept_policy_steps: "kept (policy_steps cal w observations silences now entries queued)"
  by (induction entries arbitrary: queued) (auto intro!: keeps_intros kept_policy_step)

lemma kept_automaton: "P (gs_db s) \<Longrightarrow> P (gs_db (policy_tick cal w readings silences s))"
proof -
  have "kept (policy_run_once cal w readings silences)"
    unfolding policy_run_once_def by (intro keeps_intros kept_policy_steps)
  then show "P (gs_db s) \<Longrightarrow> P (gs_db (policy_tick cal w readings silences s))"
    using kept_expiry [where err = "()"]
    by (auto simp: policy_tick_def dest: keepsD_a keepsD_a' [where P = "\<lambda>s. P (gs_db s)"] split: prod.splits)
qed

definition permitted :: "agent_call \<Rightarrow> bool" where
  "permitted c = (case c of CallReport _ _ _ i _ \<Rightarrow> report_ok i | CallRebind i \<Rightarrow> rebind_ok i | CallDeleteTarget i \<Rightarrow> delete_ok i | _ \<Rightarrow> True)"

lemma kept_serve:
  assumes "permitted c" "P (gs_db s)"
  shows "P (gs_db (agent_serve cal w c s))"
  using assms
    keepsD_a [OF kept_ingest] keepsD_a [OF kept_pending] keepsD_a [OF kept_report] keepsD_a [OF kept_create]
    keepsD_a [OF kept_revoked] keepsD_a [OF kept_restart] keepsD_a [OF kept_update] keepsD_a [OF kept_cancel_route]
    keepsD_a [OF kept_policy_route] keepsD_a [OF kept_rebind_route] keepsD_a [OF kept_delete_route] kept_automaton
  by (cases c) (simp_all add: permitted_def)

lemma kept_served:
  assumes "agent_served cal w allowed s t" "P (gs_db s)" "\<And>c. allowed c \<Longrightarrow> permitted c"
  shows "P (gs_db t)"
  using assms(1,2) by (rule served_invariant) (use assms(3) kept_serve in blast)

end

end
