(* ===== verification/Agent_Tables.thy ===== *)
theory Agent_Tables
  imports Agent_Service
begin

text \<open>
  The invariants of the tables of the agents over any history of requests, as instances of \<open>kept_by_routes\<close>: the tables
  stay well formed and no token lets in more machines than it may; a bound machine stays bound to the same secret;
  commands have one life, and at most one of a kind is open per container.
\<close>

section \<open>Tables and tokens\<close>

definition within_limit :: "enrolment_row \<Rightarrow> bool" where
  "within_limit r = (case en_max_uses r of None \<Rightarrow> True | Some limit \<Rightarrow> en_uses r \<le> limit)"

definition registry_ok :: "agent_db \<Rightarrow> bool" where
  "registry_ok db \<longleftrightarrow> registry_wf db \<and> list_all within_limit (gb_tokens db)"

lemma registry_ok_same: "registry_ok db \<Longrightarrow> registry_wf db' \<Longrightarrow> gb_tokens db' = gb_tokens db \<Longrightarrow> registry_ok db'"
  by (simp add: registry_ok_def)

lemma registry_ok_enrolment:
  assumes "\<And>r. en_id (f r) = en_id r \<and> en_hash (f r) = en_hash r"
    and "\<And>r. r \<in> set (gb_tokens db) \<Longrightarrow> en_id r = i \<Longrightarrow> within_limit r \<Longrightarrow> within_limit (f r)" "registry_ok db"
  shows "registry_ok (update_enrolment i f db)"
  using update_enrolment_wf [OF assms(1), of db i] assms(2,3)
  by (auto simp: registry_ok_def update_enrolment_def list_all_iff)

lemma registry_ok_insert:
  assumes "registry_ok db" "\<And>m. limit = Some m \<Longrightarrow> m \<ge> 1"
    "enrolment_insert name hash prefix limit expires now db = Some (row, db')"
  shows "registry_ok db'"
proof -
  have "gb_tokens db' = gb_tokens db @ [row]" "en_max_uses row = limit" "en_uses row = 0"
    using assms(3) by (auto simp: enrolment_insert_def Let_def split: if_splits)
  then show ?thesis
    using assms(1,2) enrolment_insert_wf [OF _ assms(3)]
    by (force simp: registry_ok_def within_limit_def split: option.split)
qed

lemma registry_wf_same:
  "registry_wf db \<Longrightarrow> gb_targets db' = gb_targets db \<Longrightarrow> gb_next_target db' = gb_next_target db \<Longrightarrow>
   gb_tokens db' = gb_tokens db \<Longrightarrow> gb_next_token db' = gb_next_token db \<Longrightarrow> gb_hosts db' = gb_hosts db \<Longrightarrow> registry_wf db'"
  by (simp add: registry_wf_def)

lemma update_commands_tables:
  "gb_targets (snd (update_commands Q f db)) = gb_targets db" "gb_next_target (snd (update_commands Q f db)) = gb_next_target db"
  "gb_tokens (snd (update_commands Q f db)) = gb_tokens db" "gb_next_token (snd (update_commands Q f db)) = gb_next_token db"
  "gb_hosts (snd (update_commands Q f db)) = gb_hosts db" "gb_next_command (snd (update_commands Q f db)) = gb_next_command db"
  by (simp_all add: update_commands_def)

lemma command_insert_tables:
  assumes "command_insert i kind args who now db = Some (c, db')"
  shows "gb_targets db' = gb_targets db" "gb_next_target db' = gb_next_target db" "gb_tokens db' = gb_tokens db"
    "gb_next_token db' = gb_next_token db" "gb_hosts db' = gb_hosts db" "gb_commands db' = gb_commands db @ [c]"
    "gb_next_command db' = gb_next_command db + 1" "cm_id c = gb_next_command db"
    "cm_target_id c = i \<and> cm_kind c = kind \<and> cm_args c = args \<and> cm_status c = Queued \<and> cm_requested_by c = Some who"
  using assms by (auto simp: command_insert_def Let_def split: if_splits)

lemma set_policy_tables:
  assumes "set_policy i name policy db = Some (x, db')"
  shows "gb_targets db' = gb_targets db" "gb_next_target db' = gb_next_target db" "gb_tokens db' = gb_tokens db"
    "gb_next_token db' = gb_next_token db" "gb_hosts db' = gb_hosts db" "gb_commands db' = gb_commands db"
    "gb_next_command db' = gb_next_command db"
  using assms by (auto simp: set_policy_def split: if_splits)

text \<open>The writes that touch neither the tokens, nor the machines, nor the commands; and those that touch one of them.\<close>

lemma registration_tables:
  "target_insert input db = Some (i, db') \<Longrightarrow> gb_hosts db' = gb_hosts db \<and> gb_commands db' = gb_commands db \<and> gb_next_command db' = gb_next_command db"
  "insert_host w i key identity token issued now db = Some (x, db') \<Longrightarrow> gb_commands db' = gb_commands db \<and> gb_next_command db' = gb_next_command db"
  "enrolment_insert name hash prefix limit expires now db = Some (row, db') \<Longrightarrow>
     gb_hosts db' = gb_hosts db \<and> gb_commands db' = gb_commands db \<and> gb_next_command db' = gb_next_command db"
  by (auto simp: target_insert_def insert_host_def enrolment_insert_def Let_def split: if_splits)

lemma update_tables:
  "gb_hosts (update_enrolment i f db) = gb_hosts db" "gb_commands (update_enrolment i f db) = gb_commands db"
  "gb_next_command (update_enrolment i f db) = gb_next_command db"
  "gb_hosts (update_target i g db) = gb_hosts db" "gb_commands (update_target i g db) = gb_commands db"
  "gb_tokens (update_target i g db) = gb_tokens db" "gb_next_command (update_target i g db) = gb_next_command db"
  "gb_commands (modify_host i k db) = gb_commands db" "gb_next_command (modify_host i k db) = gb_next_command db"
  "gb_tokens (modify_host i k db) = gb_tokens db"
  by (simp_all add: update_enrolment_def update_target_def modify_host_def)

lemmas host_writes = update_host_def bind_host_def record_batch_def
lemmas token_writes = consume_enrolment_def touch_enrolment_def enrolment_revoke_def
lemmas command_writes = expire_stale_def

interpretation ok: kept_by_enrolment registry_ok w for w
proof unfold_locales
  fix db db' :: agent_db and i token :: int and identity key host secret issued now now' input x
  assume P: "registry_ok db"
  then show wf: "registry_wf db" by (simp add: registry_ok_def)
  show "registry_ok (update_host i identity db)"
    by (rule registry_ok_same [OF P update_host_wf [OF wf]]) (simp add: host_writes update_tables)
  show "registry_ok (bind_host w (bh_target_id host) secret token now' db)"
    by (rule registry_ok_same [OF P bind_host_wf [OF wf]]) (simp add: host_writes update_tables)
  show "registry_ok db'" if "target_insert input db = Some (i, db')"
    using registry_ok_same [OF P target_insert_wf [OF wf that] target_insert_tokens [OF that]] .
  show "registry_ok db'" if "insert_host w i key identity token issued now db = Some (x, db')"
    using registry_ok_same [OF P insert_host_wf [OF wf that] insert_host_tokens [OF that]] .
  show "registry_ok (consume_enrolment i db)" if "token_has_room i db"
    unfolding consume_enrolment_def using that P
    by (intro registry_ok_enrolment) (auto simp: token_has_room_def list_all_iff within_limit_def split: option.splits)
qed

interpretation ok_served: kept_by_routes registry_ok w "\<lambda>_. True" "\<lambda>_. True" "\<lambda>_. True" for w
proof unfold_locales
  fix db db' :: agent_db and now ms i n e limit name hash prefix expires row x kind args who c target_id f r t rep policy until
  assume P: "registry_ok db"
  then have wf: "registry_wf db" by (simp add: registry_ok_def)
  note same = registry_ok_same [OF P]
  show "registry_ok (record_batch now i ms n db)"
    by (rule same [OF record_batch_wf [OF wf]]) (simp add: host_writes update_tables)
  show "registry_ok (record_probe now i e db)"
    by (rule same [OF record_probe_wf [OF wf]]) (simp add: record_probe_def update_tables)
  show "registry_ok (touch_enrolment now i db)" "registry_ok (snd (enrolment_revoke now i db))"
    unfolding token_writes snd_conv
    by (rule registry_ok_enrolment [OF _ _ P]; simp add: within_limit_def split: option.splits)+
  show "registry_ok db'" if "\<And>m. limit = Some m \<Longrightarrow> m \<ge> 1"
      "enrolment_insert name hash prefix limit expires now db = Some (row, db')"
    using registry_ok_insert [OF P that] .
  show "registry_ok db'" if "command_insert i kind args who now db = Some (c, db')"
    by (rule same) (use registry_wf_same [OF wf] in \<open>simp_all add: command_insert_tables [OF that]\<close>)
  show "registry_ok db'" if "set_policy i name policy db = Some (x, db')"
    by (rule same) (use registry_wf_same [OF wf] in \<open>simp_all add: set_policy_tables [OF that]\<close>)
  have commands: "registry_ok (snd (update_commands Q g db))" for Q g
    by (rule same) (use registry_wf_same [OF wf] in \<open>simp_all add: update_commands_tables\<close>)
  show "registry_ok (snd (expire_stale target_id now db))" unfolding command_writes by (rule commands)
  show "registry_ok (snd (update_commands (\<lambda>c. cm_id c = i \<and> cm_status c = Queued)
      (\<lambda>c. c\<lparr>cm_status := Cancelled, cm_finished_at := f, cm_result := r\<rparr>) db))" by (rule commands)
  show "registry_ok (snd (update_commands (\<lambda>c. cm_id c = i) (apply_report now rep) db))" by (rule commands)
  show "registry_ok (modify_host i (\<lambda>h. h\<lparr>ho_rebind_until := Some until\<rparr>) db)"
    by (rule same [OF modify_host_wf [OF _ wf]]) (simp_all add: update_tables)
  show "registry_ok (target_delete i db)"
    by (rule same [OF target_delete_wf [OF wf]]) (simp add: target_delete_def)
qed

definition agent_db_empty :: agent_db where
  "agent_db_empty =
     \<lparr>gb_targets = [], gb_next_target = 1, gb_tokens = [], gb_next_token = 1, gb_hosts = [], gb_commands = [],
      gb_next_command = 1, gb_policies = []\<rparr>"

definition agent_sys_empty :: agent_sys where
  "agent_sys_empty = \<lparr>gs_db = agent_db_empty, gs_tick = 0, gs_sink = [], gs_dropped = 0\<rparr>"

lemma empty_ok: "registry_ok (gs_db agent_sys_empty)"
  by (simp add: registry_ok_def registry_wf_def agent_sys_empty_def agent_db_empty_def)


section \<open>A bound machine\<close>

text \<open>Machine \<open>i\<close>, of that key, is bound to the secret of fingerprint \<open>h\<close>, and nobody opened it to another one.\<close>

definition bound_to :: "int \<Rightarrow> string \<Rightarrow> string \<Rightarrow> agent_db \<Rightarrow> bool" where
  "bound_to i key h db \<longleftrightarrow>
     registry_wf db \<and>
     (\<exists>row \<in> set (gb_hosts db). ho_target_id row = i \<and> ho_key row = key \<and> ho_secret_hash row = Some h \<and> ho_rebind_until row = None)"

lemma bound_to_same: "bound_to i key h db \<Longrightarrow> registry_wf db' \<Longrightarrow> set (gb_hosts db) \<subseteq> set (gb_hosts db') \<Longrightarrow> bound_to i key h db'"
  by (auto simp: bound_to_def)

lemma bound_to_modify:
  assumes "bound_to i key h db"
    and "\<And>r. ho_key (f r) = ho_key r \<and> ho_target_id (f r) = ho_target_id r"
    and "\<And>r. j = i \<Longrightarrow> ho_secret_hash (f r) = ho_secret_hash r \<and> ho_rebind_until (f r) = ho_rebind_until r"
  shows "bound_to i key h (modify_host j f db)"
proof -
  obtain row where row: "row \<in> set (gb_hosts db)" "ho_target_id row = i" "ho_key row = key" "ho_secret_hash row = Some h"
      "ho_rebind_until row = None"
    using assms(1) by (auto simp: bound_to_def)
  let ?row = "if ho_target_id row = j then f row else row"
  have "?row \<in> set (gb_hosts (modify_host j f db))" using row(1) by (auto simp: modify_host_def)
  moreover have "ho_target_id ?row = i" "ho_key ?row = key" "ho_secret_hash ?row = Some h" "ho_rebind_until ?row = None"
    using row assms(2) assms(3) [of row] by auto
  moreover have "registry_wf (modify_host j f db)"
    using assms(1) by (intro modify_host_wf [OF assms(2)]) (simp add: bound_to_def)
  ultimately show ?thesis unfolding bound_to_def by blast
qed

lemma insert_host_row:
  "insert_host w i key identity token issued now db = Some (x, db') \<Longrightarrow>
     (\<exists>row. gb_hosts db' = gb_hosts db @ [row] \<and> ho_target_id row = i \<and> ho_key row = key \<and>
        ho_secret_hash row = map_option (agent_fingerprint w) issued \<and> ho_rebind_until row = None) \<and>
     i \<notin> ho_target_id ` set (gb_hosts db)"
  by (auto simp: insert_host_def list_ex_iff split: if_splits)

lemma find_host_row:
  "find_host key now db = Some host \<Longrightarrow> \<exists>row \<in> set (gb_hosts db). ho_key row = key \<and> bh_target_id host = ho_target_id row \<and>
     bh_secret_hash host = ho_secret_hash row \<and> (bh_rebind_open host \<longrightarrow> ho_rebind_until row \<noteq> None)"
  by (auto simp: find_host_def split: option.splits intro!: bexI dest!: find_SomeD)

lemma bound_row_unique:
  assumes "bound_to i key h db" "row \<in> set (gb_hosts db)" "ho_target_id row = i \<or> ho_key row = key"
  shows "ho_target_id row = i" "ho_key row = key" "ho_secret_hash row = Some h" "ho_rebind_until row = None"
proof -
  obtain r where r: "r \<in> set (gb_hosts db)" "ho_target_id r = i" "ho_key r = key" "ho_secret_hash r = Some h"
      "ho_rebind_until r = None" and wf: "registry_wf db"
    using assms(1) by (auto simp: bound_to_def)
  then have "row = r"
    using assms(2,3) by (auto simp: registry_wf_def distinct_map dest: inj_onD)
  then show "ho_target_id row = i" "ho_key row = key" "ho_secret_hash row = Some h" "ho_rebind_until row = None"
    using r by simp_all
qed

lemma bound_find_host:
  assumes "bound_to i key h db"
  shows "\<exists>host. find_host key now db = Some host \<and> bh_target_id host = i \<and> bh_secret_hash host = Some h \<and> \<not> bh_rebind_open host"
proof -
  obtain r where "r \<in> set (gb_hosts db)" "ho_key r = key" using assms by (auto simp: bound_to_def)
  then obtain row where f: "find (\<lambda>h. ho_key h = key) (gb_hosts db) = Some row"
    by (cases "find (\<lambda>h. ho_key h = key) (gb_hosts db)") (auto simp: find_None_iff)
  then have "row \<in> set (gb_hosts db)" "ho_key row = key" by (auto dest: find_SomeD)
  from bound_row_unique [OF assms this(1)] this f show ?thesis by (simp add: find_host_def)
qed

interpretation bound: kept_by_enrolment "bound_to i key h" w for i key h w
proof unfold_locales
  fix db db' :: agent_db and j token :: int and identity key' host secret issued now now' input x
  assume P: "bound_to i key h db"
  then show wf: "registry_wf db" by (simp add: bound_to_def)
  show "bound_to i key h (update_host j identity db)"
    unfolding host_writes by (rule bound_to_modify [OF P]) simp_all
  show "bound_to i key h (bind_host w (bh_target_id host) secret token now' db)"
    if f: "find_host key' now db = Some host" and o: "bh_rebind_open host"
  proof -
    obtain row where "row \<in> set (gb_hosts db)" "bh_target_id host = ho_target_id row" "ho_rebind_until row \<noteq> None"
      using find_host_row [OF f] o by blast
    then have "bh_target_id host \<noteq> i" using bound_row_unique(4) [OF P] by metis
    then show ?thesis unfolding host_writes by (intro bound_to_modify [OF P]) simp_all
  qed
  show "bound_to i key h db'" if "target_insert input db = Some (j, db')"
    using bound_to_same [OF P target_insert_wf [OF wf that]] registration_tables(1) [OF that] by simp
  show "bound_to i key h db'" if "insert_host w j key' identity token issued now db = Some (x, db')"
    by (rule bound_to_same [OF P insert_host_wf [OF wf that]]) (use insert_host_row [OF that] in auto)
  show "bound_to i key h (consume_enrolment j db)" if "token_has_room j db"
    using bound_to_same [OF P consume_enrolment_wf [OF wf]] by (simp add: token_writes update_tables)
qed

interpretation bound_served: kept_by_routes "bound_to i key h" w "\<lambda>_. True" "\<lambda>j. j \<noteq> i" "\<lambda>j. j \<noteq> i" for i key h w
proof unfold_locales
  fix db db' :: agent_db and now ms j n e limit name hash prefix expires row x kind args who c target_id f r t rep policy until
  assume P: "bound_to i key h db"
  then have wf: "registry_wf db" by (simp add: bound_to_def)
  note same = bound_to_same [OF P]
  show "bound_to i key h (record_batch now j ms n db)"
    unfolding host_writes by (rule bound_to_modify [OF P]) simp_all
  show "bound_to i key h (record_probe now j e db)"
    by (rule same [OF record_probe_wf [OF wf]]) (simp add: record_probe_def update_tables)
  show "bound_to i key h (touch_enrolment now j db)"
    by (rule same [OF touch_enrolment_wf [OF wf]]) (simp add: token_writes update_tables)
  show "bound_to i key h (snd (enrolment_revoke now j db))"
    by (rule same [OF enrolment_revoke_wf [OF wf prod.collapse [symmetric]]]) (simp add: token_writes update_tables)
  show "bound_to i key h db'" if "enrolment_insert name hash prefix limit expires now db = Some (row, db')"
    by (rule same [OF enrolment_insert_wf [OF wf that]]) (simp add: registration_tables(3) [OF that])
  show "bound_to i key h db'" if "command_insert j kind args who now db = Some (c, db')"
    by (rule same) (use registry_wf_same [OF wf] in \<open>simp_all add: command_insert_tables [OF that]\<close>)
  show "bound_to i key h db'" if "set_policy j name policy db = Some (x, db')"
    by (rule same) (use registry_wf_same [OF wf] in \<open>simp_all add: set_policy_tables [OF that]\<close>)
  have commands: "bound_to i key h (snd (update_commands Q g db))" for Q g
    by (rule same) (use registry_wf_same [OF wf] in \<open>simp_all add: update_commands_tables\<close>)
  show "bound_to i key h (snd (expire_stale target_id now db))" unfolding command_writes by (rule commands)
  show "bound_to i key h (snd (update_commands (\<lambda>c. cm_id c = j \<and> cm_status c = Queued)
      (\<lambda>c. c\<lparr>cm_status := Cancelled, cm_finished_at := f, cm_result := r\<rparr>) db))" by (rule commands)
  show "bound_to i key h (snd (update_commands (\<lambda>c. cm_id c = j) (apply_report now rep) db))" by (rule commands)
  show "bound_to i key h (modify_host j (\<lambda>h. h\<lparr>ho_rebind_until := Some until\<rparr>) db)" if "j \<noteq> i"
    by (rule bound_to_modify [OF P]) (use that in simp_all)
  show "bound_to i key h (target_delete j db)" if "j \<noteq> i"
  proof -
    have "registry_wf (target_delete j db)" by (rule target_delete_wf [OF wf])
    then show ?thesis using P that by (auto simp: bound_to_def target_delete_def)
  qed
qed

section \<open>Commands\<close>

definition commands_wf :: "agent_db \<Rightarrow> bool" where
  "commands_wf db \<longleftrightarrow>
     registry_wf db \<and> distinct (map cm_id (gb_commands db)) \<and> list_all (\<lambda>j. j < gb_next_command db) (map cm_id (gb_commands db))"

lemma commands_wf_same:
  "commands_wf db \<Longrightarrow> registry_wf db' \<Longrightarrow> gb_commands db' = gb_commands db \<Longrightarrow> gb_next_command db' = gb_next_command db \<Longrightarrow> commands_wf db'"
  by (simp add: commands_wf_def)

lemma commands_wf_update:
  assumes "commands_wf db" "\<And>c. cm_id (f c) = cm_id c"
  shows "commands_wf (snd (update_commands Q f db))"
proof -
  have "map cm_id (gb_commands (snd (update_commands Q f db))) = map cm_id (gb_commands db)"
    using assms(2) by (simp add: update_commands_def)
  moreover have "registry_wf (snd (update_commands Q f db))"
    by (rule registry_wf_same [of db]) (use assms(1) in \<open>simp_all add: commands_wf_def update_commands_tables\<close>)
  ultimately show ?thesis
    using assms(1) unfolding commands_wf_def by (simp only: update_commands_tables simp_thms)
qed

lemma commands_wf_insert:
  assumes "commands_wf db" "command_insert i kind args who now db = Some (c, db')"
  shows "commands_wf db'"
proof -
  have "registry_wf db'"
    by (rule registry_wf_same [of db]) (use assms(1) in \<open>simp_all add: commands_wf_def command_insert_tables [OF assms(2)]\<close>)
  then show ?thesis
    using assms(1) by (auto simp: commands_wf_def command_insert_tables [OF assms(2)] list_all_iff intro: less_imp_le)
qed

lemma commands_wf_delete: "commands_wf db \<Longrightarrow> commands_wf (target_delete i db)"
proof -
  assume "commands_wf db"
  moreover from this have "registry_wf (target_delete i db)" by (simp add: commands_wf_def target_delete_wf)
  moreover have "gb_commands (target_delete i db) = filter (\<lambda>c. cm_target_id c \<noteq> i) (gb_commands db)"
    "gb_next_command (target_delete i db) = gb_next_command db" by (simp_all add: target_delete_def)
  ultimately show ?thesis
    by (simp add: commands_wf_def distinct_map_filter list_all_iff)
qed

lemma apply_report_keeps:
  "cm_id (apply_report now rep c) = cm_id c" "cm_target_id (apply_report now rep c) = cm_target_id c"
  "cm_kind (apply_report now rep c) = cm_kind c" "cm_args (apply_report now rep c) = cm_args c"
  by (simp_all add: apply_report_def Let_def)

text \<open>
  What a predicate of the commands has to survive, when it says nothing of the machines and of the tokens: new
  commands, changes of those that are still open, and the removal of a machine.
\<close>

locale kept_commands =
  fixes C :: "agent_db \<Rightarrow> bool" and report_ok :: "int \<Rightarrow> bool" and delete_ok :: "int \<Rightarrow> bool"
  assumes commands_well_formed: "C db \<Longrightarrow> commands_wf db"
    and commands_same: "C db \<Longrightarrow> commands_wf db' \<Longrightarrow> gb_commands db' = gb_commands db \<Longrightarrow> C db'"
    and commands_new: "C db \<Longrightarrow> commands_wf db' \<Longrightarrow> gb_commands db' = gb_commands db @ [c] \<Longrightarrow> cm_status c = Queued \<Longrightarrow>
      \<not> has_pending (cm_target_id c) (cm_kind c) (case container_name (cm_args c) of None \<Rightarrow> [] | Some n \<Rightarrow> n) db \<Longrightarrow> C db'"
    and commands_closed: "C db \<Longrightarrow> (\<And>c. Q c \<Longrightarrow> cm_status c = Queued) \<Longrightarrow> is_final st \<Longrightarrow>
      C (snd (update_commands Q (\<lambda>c. c\<lparr>cm_status := st, cm_finished_at := f, cm_result := r\<rparr>) db))"
    and commands_reported: "C db \<Longrightarrow> report_ok i \<Longrightarrow>
      (\<And>c. c \<in> set (gb_commands db) \<Longrightarrow> cm_id c = i \<Longrightarrow> \<not> is_final (cm_status c)) \<Longrightarrow>
      C (snd (update_commands (\<lambda>c. cm_id c = i) (apply_report now rep) db))"
    and commands_deleted: "C db \<Longrightarrow> delete_ok i \<Longrightarrow> C (target_delete i db)"
begin

lemma commands_untouched:
  "C db \<Longrightarrow> registry_wf db' \<Longrightarrow> gb_commands db' = gb_commands db \<Longrightarrow> gb_next_command db' = gb_next_command db \<Longrightarrow> C db'"
  using commands_same commands_wf_same commands_well_formed by blast

end

sublocale kept_commands \<subseteq> kept_by_enrolment C w for w
proof unfold_locales
  fix db db' :: agent_db and j token :: int and identity key' host secret issued now now' input x
  assume P: "C db"
  then show wf: "registry_wf db" using commands_well_formed by (simp add: commands_wf_def)
  note same = commands_untouched [OF P]
  show "C (update_host j identity db)"
    by (rule same [OF update_host_wf [OF wf]]) (simp_all add: host_writes update_tables)
  show "C (bind_host w (bh_target_id host) secret token now' db)"
    by (rule same [OF bind_host_wf [OF wf]]) (simp_all add: host_writes update_tables)
  show "C db'" if "target_insert input db = Some (j, db')"
    by (rule same [OF target_insert_wf [OF wf that]]) (use registration_tables(1) [OF that] in simp_all)
  show "C db'" if "insert_host w j key' identity token issued now db = Some (x, db')"
    by (rule same [OF insert_host_wf [OF wf that]]) (use registration_tables(2) [OF that] in simp_all)
  show "C (consume_enrolment j db)"
    by (rule same [OF consume_enrolment_wf [OF wf]]) (simp_all add: token_writes update_tables)
qed

sublocale kept_commands \<subseteq> served: kept_by_routes C w report_ok "\<lambda>_. True" delete_ok for w
proof unfold_locales
  fix db db' :: agent_db and now ms j n e limit name hash prefix expires row x kind args who c target_id f r t rep policy until
  assume P: "C db"
  then have cw: "commands_wf db" and wf: "registry_wf db"
    using commands_well_formed by (simp_all add: commands_wf_def)
  note same = commands_untouched [OF P]
  show "C (record_batch now j ms n db)"
    by (rule same [OF record_batch_wf [OF wf]]) (simp_all add: host_writes update_tables)
  show "C (record_probe now j e db)"
    by (rule same [OF record_probe_wf [OF wf]]) (simp_all add: record_probe_def update_tables)
  show "C (touch_enrolment now j db)"
    by (rule same [OF touch_enrolment_wf [OF wf]]) (simp_all add: token_writes update_tables)
  show "C (snd (enrolment_revoke now j db))"
    by (rule same [OF enrolment_revoke_wf [OF wf prod.collapse [symmetric]]]) (simp_all add: token_writes update_tables)
  show "C db'" if "enrolment_insert name hash prefix limit expires now db = Some (row, db')"
    by (rule same [OF enrolment_insert_wf [OF wf that]]) (simp_all add: registration_tables(3) [OF that])
  show "C db'" if "\<not> has_pending j kind (case container_name args of None \<Rightarrow> [] | Some n \<Rightarrow> n) db"
      "command_insert j kind args who now db = Some (c, db')"
  proof -
    have "\<not> has_pending (cm_target_id c) (cm_kind c) (case container_name (cm_args c) of None \<Rightarrow> [] | Some n \<Rightarrow> n) db"
      using that(1) command_insert_tables(9) [OF that(2)] by simp
    then show ?thesis
      using commands_new [OF P commands_wf_insert [OF cw that(2)] command_insert_tables(6) [OF that(2)]]
        command_insert_tables(9) [OF that(2)] by simp
  qed
  show "C db'" if "set_policy j name policy db = Some (x, db')"
    by (rule same) (use registry_wf_same [OF wf] in \<open>simp_all add: set_policy_tables [OF that]\<close>)
  show "C (snd (expire_stale target_id now db))"
    unfolding command_writes by (rule commands_closed [OF P]) (simp_all add: is_stale_def)
  show "C (snd (update_commands (\<lambda>c. cm_id c = j \<and> cm_status c = Queued)
      (\<lambda>c. c\<lparr>cm_status := Cancelled, cm_finished_at := f, cm_result := r\<rparr>) db))"
    by (rule commands_closed [OF P]) simp_all
  show "C (snd (update_commands (\<lambda>c. cm_id c = j) (apply_report now rep) db))"
    if "report_ok j" "find (\<lambda>c. cm_id c = j \<and> cm_target_id c = t) (gb_commands db) = Some c" "\<not> is_final (cm_status c)"
  proof (rule commands_reported [OF P that(1)])
    fix d assume "d \<in> set (gb_commands db)" "cm_id d = j"
    then have "d = c"
      using find_SomeD [OF that(2)] cw by (auto simp: commands_wf_def distinct_map dest: inj_onD)
    then show "\<not> is_final (cm_status d)" using that(3) by simp
  qed
  show "C (modify_host j (\<lambda>h. h\<lparr>ho_rebind_until := Some until\<rparr>) db)"
    by (rule same [OF modify_host_wf [OF _ wf]]) (simp_all add: update_tables)
  show "C (target_delete j db)" if "delete_ok j" by (rule commands_deleted [OF P that])
qed

text \<open>Two commands ask for the same work: the same kind, of the same container of the same machine.\<close>

definition same_work :: "command_row \<Rightarrow> command_row \<Rightarrow> bool" where
  "same_work c d \<longleftrightarrow>
     cm_target_id c = cm_target_id d \<and> cm_kind c = cm_kind d \<and> container_name (cm_args c) \<noteq> None \<and>
     container_name (cm_args c) = container_name (cm_args d)"

definition one_open :: "agent_db \<Rightarrow> bool" where
  "one_open db \<longleftrightarrow>
     commands_wf db \<and>
     (\<forall>c \<in> set (gb_commands db). \<forall>d \<in> set (gb_commands db).
        is_open (cm_status c) \<longrightarrow> is_open (cm_status d) \<longrightarrow> same_work c d \<longrightarrow> cm_id c = cm_id d)"

lemma json_str_Some: "json_str j = Some s \<longleftrightarrow> j = JString s"
  by (cases j) auto

lemma container_name_Some: "container_name args = Some n \<Longrightarrow> names_container args n"
  by (auto simp: container_name_def names_container_def json_str_Some split: option.splits if_splits)

lemma same_work_pending:
  assumes "d \<in> set (gb_commands db)" "is_open (cm_status d)" "same_work c d \<or> same_work d c"
  shows "has_pending (cm_target_id c) (cm_kind c) (case container_name (cm_args c) of None \<Rightarrow> [] | Some n \<Rightarrow> n) db"
proof -
  obtain n where "container_name (cm_args c) = Some n" "container_name (cm_args d) = Some n" "cm_target_id d = cm_target_id c"
      "cm_kind d = cm_kind c"
    using assms(3) unfolding same_work_def by (metis option.exhaust)
  then show ?thesis
    using assms(1,2) container_name_Some [of "cm_args d" n] by (auto simp: has_pending_def list_ex_iff)
qed

lemma is_open_iff: "is_open st \<longleftrightarrow> \<not> is_final st"
  by (cases st) (simp_all add: is_open_def)

lemma one_open_update:
  assumes "one_open db" "\<And>c. cm_id (f c) = cm_id c \<and> cm_target_id (f c) = cm_target_id c \<and> cm_kind (f c) = cm_kind c \<and> cm_args (f c) = cm_args c"
    and "\<And>c. c \<in> set (gb_commands db) \<Longrightarrow> Q c \<Longrightarrow> is_open (cm_status (f c)) \<Longrightarrow> is_open (cm_status c)"
  shows "one_open (snd (update_commands Q f db))"
proof -
  let ?f = "\<lambda>c. if Q c then f c else c"
  have cmds: "gb_commands (snd (update_commands Q f db)) = map ?f (gb_commands db)" by (simp add: update_commands_def)
  have wf: "commands_wf (snd (update_commands Q f db))"
    using assms(1,2) by (intro commands_wf_update) (simp_all add: one_open_def)
  have same: "cm_id (?f c) = cm_id c" "same_work (?f c) (?f d) = same_work c d" for c d
    using assms(2) by (simp_all add: same_work_def)
  have opened: "is_open (cm_status c)" if "c \<in> set (gb_commands db)" "is_open (cm_status (?f c))" for c
    using that assms(3) by (cases "Q c") simp_all
  have "cm_id (?f c) = cm_id (?f d)"
    if "c \<in> set (gb_commands db)" "d \<in> set (gb_commands db)" "is_open (cm_status (?f c))" "is_open (cm_status (?f d))"
      "same_work (?f c) (?f d)" for c d
    using that opened assms(1) unfolding one_open_def same by blast
  then show ?thesis using wf unfolding one_open_def cmds set_map by blast
qed

interpretation one: kept_commands one_open "\<lambda>_. True" "\<lambda>_. True"
proof unfold_locales
  fix db db' :: agent_db and c :: command_row and Q st f r i now rep
  assume P: "one_open db"
  then show "commands_wf db" by (simp add: one_open_def)
  show "one_open db'" if "commands_wf db'" "gb_commands db' = gb_commands db"
    using P that by (simp add: one_open_def)
  show "one_open db'" if wf: "commands_wf db'" and new: "gb_commands db' = gb_commands db @ [c]"
    and free: "\<not> has_pending (cm_target_id c) (cm_kind c) (case container_name (cm_args c) of None \<Rightarrow> [] | Some n \<Rightarrow> n) db"
  proof -
    have "\<not> (is_open (cm_status d) \<and> (same_work c d \<or> same_work d c))" if "d \<in> set (gb_commands db)" for d
      using free that same_work_pending by blast
    then show ?thesis using P wf by (auto simp: one_open_def new)
  qed
  show "one_open (snd (update_commands Q (\<lambda>c. c\<lparr>cm_status := st, cm_finished_at := f, cm_result := r\<rparr>) db))"
    if "is_final st"
    using that by (intro one_open_update [OF P]) (simp_all add: is_open_iff)
  show "one_open (snd (update_commands (\<lambda>c. cm_id c = i) (apply_report now rep) db))"
    if "\<And>c. c \<in> set (gb_commands db) \<Longrightarrow> cm_id c = i \<Longrightarrow> \<not> is_final (cm_status c)"
    using that by (intro one_open_update [OF P]) (simp_all add: apply_report_keeps is_open_iff)
  show "one_open (target_delete i db)"
    using P commands_wf_delete [of db i] by (auto simp: one_open_def target_delete_def)
qed

text \<open>A closed command, and one that an agent has taken and not reported on since.\<close>

definition has_closed :: "command_row \<Rightarrow> agent_db \<Rightarrow> bool" where
  "has_closed c db \<longleftrightarrow> commands_wf db \<and> c \<in> set (gb_commands db) \<and> is_final (cm_status c)"

definition has_running :: "command_row \<Rightarrow> agent_db \<Rightarrow> bool" where
  "has_running c db \<longleftrightarrow> commands_wf db \<and> c \<in> set (gb_commands db) \<and> cm_status c = Running"

lemma update_commands_other:
  "c \<in> set (gb_commands db) \<Longrightarrow> \<not> Q c \<Longrightarrow> c \<in> set (gb_commands (snd (update_commands Q f db)))"
  by (force simp: update_commands_def)

lemma update_commands_wf:
  "commands_wf db \<Longrightarrow> commands_wf (snd (update_commands Q (\<lambda>c. c\<lparr>cm_status := st, cm_finished_at := f, cm_result := r\<rparr>) db))"
  "commands_wf db \<Longrightarrow> commands_wf (snd (update_commands (\<lambda>c. cm_id c = i) (apply_report now rep) db))"
  by (rule commands_wf_update; simp add: apply_report_keeps)+

interpretation closed: kept_commands "has_closed c" "\<lambda>_. True" "\<lambda>j. j \<noteq> cm_target_id c" for c
proof unfold_locales
  fix db db' :: agent_db and d :: command_row and Q st f r i now rep
  assume P: "has_closed c db"
  then show wf: "commands_wf db" by (simp add: has_closed_def)
  show "has_closed c db'" if "commands_wf db'" "gb_commands db' = gb_commands db"
    using P that by (simp add: has_closed_def)
  show "has_closed c db'" if "commands_wf db'" "gb_commands db' = gb_commands db @ [d]"
    using P that by (simp add: has_closed_def)
  show "has_closed c (snd (update_commands Q (\<lambda>c. c\<lparr>cm_status := st, cm_finished_at := f, cm_result := r\<rparr>) db))"
    if queued: "\<And>c. Q c \<Longrightarrow> cm_status c = Queued"
    using P update_commands_wf(1) [OF wf] queued [of c] by (auto simp: has_closed_def intro!: update_commands_other)
  show "has_closed c (snd (update_commands (\<lambda>c. cm_id c = i) (apply_report now rep) db))"
    if "\<And>c. c \<in> set (gb_commands db) \<Longrightarrow> cm_id c = i \<Longrightarrow> \<not> is_final (cm_status c)"
    using P update_commands_wf(2) [OF wf] that [of c] by (auto simp: has_closed_def intro!: update_commands_other)
  show "has_closed c (target_delete i db)" if "i \<noteq> cm_target_id c"
    using P that commands_wf_delete [OF wf, of i] by (auto simp: has_closed_def target_delete_def)
qed

interpretation running: kept_commands "has_running c" "\<lambda>j. j \<noteq> cm_id c" "\<lambda>j. j \<noteq> cm_target_id c" for c
proof unfold_locales
  fix db db' :: agent_db and d :: command_row and Q st f r i now rep
  assume P: "has_running c db"
  then show wf: "commands_wf db" by (simp add: has_running_def)
  show "has_running c db'" if "commands_wf db'" "gb_commands db' = gb_commands db"
    using P that by (simp add: has_running_def)
  show "has_running c db'" if "commands_wf db'" "gb_commands db' = gb_commands db @ [d]"
    using P that by (simp add: has_running_def)
  show "has_running c (snd (update_commands Q (\<lambda>c. c\<lparr>cm_status := st, cm_finished_at := f, cm_result := r\<rparr>) db))"
    if queued: "\<And>c. Q c \<Longrightarrow> cm_status c = Queued"
    using P update_commands_wf(1) [OF wf] queued [of c] by (auto simp: has_running_def intro!: update_commands_other)
  show "has_running c (snd (update_commands (\<lambda>c. cm_id c = i) (apply_report now rep) db))" if "i \<noteq> cm_id c"
    using P update_commands_wf(2) [OF wf] that by (auto simp: has_running_def intro!: update_commands_other)
  show "has_running c (target_delete i db)" if "i \<noteq> cm_target_id c"
    using P that commands_wf_delete [OF wf, of i] by (auto simp: has_running_def target_delete_def)
qed

end
