(* ===== verification/Agent_Client.thy ===== *)
theory Agent_Client
  imports Agent_Buffer "HOL-Library.Sublist"
begin

text \<open>
  The agent (\<^verbatim>\<open>crates/agent/src/client.rs\<close>, \<^verbatim>\<open>binding.rs\<close>, \<^verbatim>\<open>run.rs\<close>): what it makes of an answer of the server, where
  it keeps its secret, and its loop, which collects, sends and waits. The probes of the machine, HTTP and the JSON of
  a body are parameters; the network is a function of whatever stands on the other side, so that the server can be put
  there.
\<close>

section \<open>Answers\<close>

datatype push_error =
    PshTransport string
  | PshUnauthorized
  | PshForbidden string
  | PshRejected nat string

fun is_retryable :: "push_error \<Rightarrow> bool" where
  "is_retryable (PshRejected _ _) = False"
| "is_retryable _ = True"

text \<open>
  What comes back from a request: nothing, with the message of the failure, or a status, the body read as the expected
  type if it can be, and the message of an error body.
\<close>

datatype 'a reply = NoReply string | Reply nat "'a option" string

text \<open>\<^verbatim>\<open>str::replace\<close> for a pattern that is not empty; as many steps as there are characters are enough.\<close>

fun replace_steps :: "nat \<Rightarrow> string \<Rightarrow> string \<Rightarrow> string \<Rightarrow> string" where
  "replace_steps _ pattern repl [] = []"
| "replace_steps 0 pattern repl (c # cs) = c # cs"
| "replace_steps (Suc n) pattern repl (c # cs) =
     (if take (length pattern) (c # cs) = pattern
      then repl @ replace_steps n pattern repl (drop (length pattern) (c # cs))
      else c # replace_steps n pattern repl cs)"

definition replace_all :: "string \<Rightarrow> string \<Rightarrow> string \<Rightarrow> string" where
  "replace_all pattern repl s = replace_steps (length s) pattern repl s"

definition sanitise :: "string \<Rightarrow> string \<Rightarrow> string" where
  "sanitise message token = (if token = [] then message else replace_all token ''<redacted>'' message)"

definition rejection :: "nat \<Rightarrow> string \<Rightarrow> push_error" where
  "rejection status message =
     (if status = 401 then PshUnauthorized
      else if status = 403 then PshForbidden message
      else if status = 408 \<or> status = 429 \<or> (500 \<le> status \<and> status \<le> 599)
      then PshTransport (''HTTP '' @ show_nat status @ '': '' @ message)
      else PshRejected status message)"

fun outcome_of :: "string \<Rightarrow> 'a reply \<Rightarrow> push_error + 'a" where
  "outcome_of token (NoReply detail) = Inl (PshTransport (sanitise detail token))"
| "outcome_of token (Reply status body message) =
     (if 200 \<le> status \<and> status < 300
      then (case body of Some x \<Rightarrow> Inr x | None \<Rightarrow> Inl (PshTransport (''unreadable response: '' @ message)))
      else Inl (rejection status message))"

section \<open>The secret of the machine\<close>

datatype secret_file = FileMissing | FileUnreadable | FileText string

record binding =
  bd_file :: secret_file
  bd_secret :: "string option"

definition binding_load :: "secret_file \<Rightarrow> binding" where
  "binding_load f =
     \<lparr>bd_file = f,
      bd_secret = (case f of FileText contents \<Rightarrow> if trim contents = [] then None else Some (trim contents) | _ \<Rightarrow> None)\<rparr>"

text \<open>\<open>written\<close> says whether the file could be written; the secret is kept in memory in any case.\<close>

definition binding_save :: "bool \<Rightarrow> string \<Rightarrow> binding \<Rightarrow> binding" where
  "binding_save written secret b =
     (let b = b\<lparr>bd_secret := Some secret\<rparr>
      in if written then b\<lparr>bd_file := FileText (secret @ [CHR 0x0A])\<rparr> else b)"

definition binding_forget :: "bool \<Rightarrow> binding \<Rightarrow> binding" where
  "binding_forget removed b =
     (if bd_secret b = None then b
      else let b = b\<lparr>bd_secret := None\<rparr> in if removed then b\<lparr>bd_file := FileMissing\<rparr> else b)"

section \<open>State\<close>

definition MIN_INTERVAL_SECS :: nat where
  "MIN_INTERVAL_SECS = 5"

definition BACKOFF_BASE :: duration where
  "BACKOFF_BASE = from_secs 5"

definition BACKOFF_MAX :: duration where
  "BACKOFF_MAX = from_secs 300"

record agent =
  ag_identity :: agent_identity
  ag_token :: string
  ag_buffer :: "sample pending_buffer"
  ag_backoff :: backoff
  ag_interval :: duration
  ag_binding :: binding
  ag_client_secret :: "string option"
  ag_refused :: bool

text \<open>What the agent finds outside: whether its secret file can be written or removed, and the seed of its backoff.\<close>

record agent_host =
  ah_can_write :: bool
  ah_can_remove :: bool

definition agent_new :: "agent_identity \<Rightarrow> string \<Rightarrow> nat \<Rightarrow> duration \<Rightarrow> secret_file \<Rightarrow> 64 word \<Rightarrow> agent" where
  "agent_new identity token max_buffered interval file seed =
     (let b = binding_load file
      in \<lparr>ag_identity = identity, ag_token = token, ag_buffer = buffer_new max_buffered,
          ag_backoff = backoff_with_seed BACKOFF_BASE BACKOFF_MAX seed, ag_interval = interval, ag_binding = b,
          ag_client_secret = bd_secret b, ag_refused = False\<rparr>)"

section \<open>Sending\<close>

datatype flush_outcome = FlIdle | FlSent nat | FlFailed push_error

definition adopt_binding :: "agent_host \<Rightarrow> string option \<Rightarrow> agent \<Rightarrow> agent" where
  "adopt_binding h issued a =
     (case issued of
        None \<Rightarrow> a
      | Some secret \<Rightarrow>
          a\<lparr>ag_binding := binding_save (ah_can_write h) secret (ag_binding a), ag_client_secret := Some secret\<rparr>)"

definition on_binding_refused :: "agent_host \<Rightarrow> agent \<Rightarrow> agent" where
  "on_binding_refused h a =
     a\<lparr>ag_binding := binding_forget (ah_can_remove h) (ag_binding a), ag_client_secret := None, ag_refused := True\<rparr>"

definition adopt_interval :: "nat \<Rightarrow> agent \<Rightarrow> agent" where
  "adopt_interval wanted_secs a = a\<lparr>ag_interval := from_secs (max wanted_secs MIN_INTERVAL_SECS)\<rparr>"

text \<open>
  \<open>net\<close> carries a batch and the secret in its header to the other side and brings back a reply; \<open>now_ms\<close> is the clock
  of the agent.
\<close>

type_synonym 'n network = "push_batch \<Rightarrow> string option \<Rightarrow> 'n \<Rightarrow> push_ack reply \<times> 'n"

definition agent_flush ::
  "agent_host \<Rightarrow> 'n network \<Rightarrow> int \<Rightarrow> agent \<Rightarrow> 'n \<Rightarrow> flush_outcome \<times> agent \<times> 'n" where
  "agent_flush h net now_ms a n =
     (let (samples, buffer) = buffer_take (ag_buffer a) MAX_BATCH_SAMPLES; a = a\<lparr>ag_buffer := buffer\<rparr>
      in if samples = [] then (FlIdle, a, n)
         else
           let (reply, n) = net (push_batch_new (ag_identity a) samples now_ms) (ag_client_secret a) n
           in case outcome_of (ag_token a) reply of
                Inr ack \<Rightarrow>
                  (FlSent (length samples),
                   adopt_interval (pa_interval_secs ack)
                     (adopt_binding h (pa_agent_secret ack)
                       (a\<lparr>ag_backoff := backoff_reset (ag_backoff a), ag_refused := False\<rparr>)), n)
              | Inl (PshForbidden message) \<Rightarrow>
                  (FlFailed (PshForbidden message),
                   on_binding_refused h (a\<lparr>ag_buffer := buffer_restore (ag_buffer a) samples\<rparr>), n)
              | Inl e \<Rightarrow>
                  if is_retryable e
                  then (FlFailed e, a\<lparr>ag_buffer := buffer_restore (ag_buffer a) samples\<rparr>, n)
                  else (FlSent (length samples), a, n))"

section \<open>The loop\<close>

text \<open>\<open>measured\<close> is what the probes of the machine give; the agent adds how it fares itself.\<close>

definition agent_samples :: "duration \<Rightarrow> nat \<Rightarrow> nat \<Rightarrow> int \<Rightarrow> sample list" where
  "agent_samples collect_duration buffered dropped now_ms =
     [sample_new ''agent_collect_seconds'' (as_secs_f64 collect_duration) Gauge now_ms,
      sample_new ''agent_buffered_samples'' (round64 (of_nat buffered)) Gauge now_ms,
      sample_new ''agent_dropped_samples'' (round64 (of_nat dropped)) Counter now_ms]"

definition agent_collect :: "sample list \<Rightarrow> duration \<Rightarrow> int \<Rightarrow> agent \<Rightarrow> sample list" where
  "agent_collect measured took now_ms a =
     measured @ agent_samples took (buffer_len (ag_buffer a)) (bf_dropped (ag_buffer a)) now_ms"

record run_state =
  rs_agent :: agent
  rs_next_collect :: instant
  rs_next_send :: instant

text \<open>
  One turn of the \<^verbatim>\<open>select!\<close>, biased: the shutdown first, then the collection if its time has come, then the sending if
  its time has come and something waits. \<open>now\<close> is the instant of the turn and \<open>later\<close> the one read once the work is
  done.
\<close>

datatype turn = TurnStop | TurnCollect "sample list" duration int instant | TurnSend int instant

definition collect_turn :: "sample list \<Rightarrow> duration \<Rightarrow> int \<Rightarrow> instant \<Rightarrow> run_state \<Rightarrow> run_state" where
  "collect_turn measured took now_ms later r =
     (let a = rs_agent r; samples = agent_collect measured took now_ms a
      in r\<lparr>rs_agent := a\<lparr>ag_buffer := buffer_push (ag_buffer a) samples\<rparr>,
           rs_next_collect := later + int (ag_interval a)\<rparr>)"

definition send_turn ::
  "agent_host \<Rightarrow> 'n network \<Rightarrow> int \<Rightarrow> instant \<Rightarrow> run_state \<Rightarrow> 'n \<Rightarrow> (flush_outcome \<times> run_state \<times> 'n) option" where
  "send_turn h net now_ms later r n =
     (let (outcome, a, n) = agent_flush h net now_ms (rs_agent r) n
      in case outcome of
           FlFailed e \<Rightarrow>
             (case next_delay (ag_backoff a) of
                (None, _) \<Rightarrow> None
              | (Some delay, b) \<Rightarrow>
                  Some (outcome, r\<lparr>rs_agent := a\<lparr>ag_backoff := b\<rparr>, rs_next_send := later + int delay\<rparr>, n))
         | _ \<Rightarrow> Some (outcome, r\<lparr>rs_agent := a, rs_next_send := later\<rparr>, n))"

definition ready :: "instant \<Rightarrow> run_state \<Rightarrow> turn \<Rightarrow> bool" where
  "ready now r t =
     (case t of
        TurnStop \<Rightarrow> True
      | TurnCollect _ _ _ _ \<Rightarrow> rs_next_collect r \<le> now
      | TurnSend _ _ \<Rightarrow> \<not> rs_next_collect r \<le> now \<and> rs_next_send r \<le> now \<and> \<not> buffer_is_empty (ag_buffer (rs_agent r)))"

text \<open>
  The turns of a run with their effect, and what it did: what was collected, what the server accepted or refused (and
  the agent let go), in order.
\<close>

record run_log =
  rl_collected :: "sample list"
  rl_departed :: "sample list"

definition departed :: "run_state \<Rightarrow> flush_outcome \<Rightarrow> sample list" where
  "departed r outcome = (case outcome of FlSent n \<Rightarrow> take n (bf_samples (ag_buffer (rs_agent r))) | _ \<Rightarrow> [])"

inductive agent_runs :: "agent_host \<Rightarrow> 'n network \<Rightarrow> run_state \<times> 'n \<Rightarrow> run_log \<Rightarrow> run_state \<times> 'n \<Rightarrow> bool"
  for h net r0 where
  runs_start: "agent_runs h net r0 \<lparr>rl_collected = [], rl_departed = []\<rparr> r0"
| runs_collect:
    "agent_runs h net r0 l (r, n) \<Longrightarrow> ready now r (TurnCollect measured took now_ms later) \<Longrightarrow>
     agent_runs h net r0 (l\<lparr>rl_collected := rl_collected l @ agent_collect measured took now_ms (rs_agent r)\<rparr>)
       (collect_turn measured took now_ms later r, n)"
| runs_send:
    "agent_runs h net r0 l (r, n) \<Longrightarrow> ready now r (TurnSend now_ms later) \<Longrightarrow>
     send_turn h net now_ms later r n = Some (outcome, r', n') \<Longrightarrow>
     agent_runs h net r0 (l\<lparr>rl_departed := rl_departed l @ departed r outcome\<rparr>) (r', n')"
| runs_elsewhere:
    "agent_runs h net r0 l (r, n) \<Longrightarrow> agent_runs h net r0 l (r, n')"

end
