(* ===== verification/Agent_Properties.thy ===== *)
theory Agent_Properties
  imports Agent_Tables Agent_Client
begin

text \<open>
  What the server guarantees to a machine it knows, over any history of requests: its samples and its commands are its
  own, and what happens to it when an answer gets lost; what becomes of the commands; how the automaton restrains itself.
\<close>

section \<open>An accepted batch\<close>

text \<open>Nothing but the reception of a batch writes samples.\<close>

lemma sink_statement: "keeps_a (\<lambda>s. gs_sink s = x) (statement w err f)"
  by (auto simp: keeps_a_def statement_def Let_def split: option.split)

lemma sink_steps:
  "keeps_a (\<lambda>s. gs_sink s = x) (select_a w err g)" "keeps_a (\<lambda>s. gs_sink s = x) (execute_a w err h)"
  "keeps_a (\<lambda>s. gs_sink s = x) (random_a w)" "keeps_a (\<lambda>s. gs_sink s = x) (clock_a w)"
  unfolding select_a_def execute_a_def by (rule sink_statement, rule sink_statement) (simp_all add: keeps_a_def random_a_def clock_a_def)

lemmas sink_intros = keeps_intros sink_statement sink_steps

lemma sink_register: "keeps_a (\<lambda>s. gs_sink s = x) (register w identity token secret)"
  unfolding register_def Let_def claim_def may_enrol_def require_enrolment_def enrolment_allowed_def enrol_def rebind_def
  by (intro sink_intros)

lemma sink_register_a: "keeps_a (\<lambda>s. gs_sink s = x) (register_a w identity token secret)"
  using sink_register [of x w identity token secret]
  by (auto simp: keeps_a_def register_a_def split: prod.splits sum.splits)

lemma register_a_Inr: "register_a w identity token secret s = (Inr reg, t) \<longleftrightarrow> register w identity token secret s = (Inr reg, t)"
  by (auto simp: register_a_def split: prod.splits sum.splits)

lemma active_token_Inr:
  "active_token w bearer s = (Inr i, t) \<Longrightarrow> gs_db t = gs_db s \<and> gs_sink t = gs_sink s"
  by (auto simp: active_token_def action_Inr registry_Inr split: option.splits)

text \<open>The steps of an accepted batch.\<close>

lemma target_get_Inr:
  "target_get w err i s = (Inr (Some t), u) \<Longrightarrow> tg_id t = i \<and> gs_db u = gs_db s \<and> gs_sink u = gs_sink s \<and> gs_dropped u = gs_dropped s"
  by (auto simp: target_get_def action_Inr registry_Inr target_of_row_def dest!: find_SomeD split: option.splits if_splits)

lemma store_batch_Inr:
  assumes "store_batch w token reg samples s = (Inr ack, u)"
  shows "\<exists>t ms. tg_id t = rg_target_id reg \<and> pa_target_id ack = rg_target_id reg \<and> pa_agent_secret ack = rg_issued_secret reg \<and>
    pa_accepted ack = snd (prepare t samples ms) \<and>
    (gs_sink u = gs_sink s @ fst (prepare t samples ms) \<and> gs_dropped u = gs_dropped s \<or>
     gs_sink u = gs_sink s \<and> gs_dropped u = gs_dropped s + length (fst (prepare t samples ms)))"
proof -
  obtain found s1 where found: "target_get w IeInternal (rg_target_id reg) s = (Inr found, s1)"
      "(case found of
         None \<Rightarrow> fail_a IeInternal
       | Some t \<Rightarrow>
           bind_a (clock_a w) (\<lambda>now.
           let received_at_ms = millis now; (prepared, accepted) = prepare t samples received_at_ms in
           then_a (sink_send w prepared)
           (then_a (execute_a w IeInternal (\<lambda>now. record_batch now (tg_id t) received_at_ms accepted))
           (then_a (execute_a w IeInternal (\<lambda>now. touch_enrolment now token))
           (then_a (execute_a w IeInternal (\<lambda>now. record_probe now (tg_id t) None))
           (return_a
             \<lparr>pa_target_id = tg_id t, pa_accepted = accepted, pa_interval_secs = tg_interval t div 1000000000,
              pa_registered = rg_created reg, pa_agent_secret = rg_issued_secret reg, pa_bound = rg_bound reg\<rparr>)))))) s1 =
       (Inr ack, u)"
    using assms by (auto simp: store_batch_def bind_a_Inr)
  then obtain t where t: "found = Some t" by (cases found) (auto simp: fail_a_def)
  note steps = found(1) [unfolded t]
  obtain now s2 s3 where now: "clock_a w s1 = ((Inr now :: ingest_error + instant), s2)"
      and sent: "sink_send w (fst (prepare t samples (millis now))) s2 = ((Inr () :: ingest_error + unit), s3)"
      and u: "gs_sink u = gs_sink s3 \<and> gs_dropped u = gs_dropped s3"
      and ack: "pa_target_id ack = tg_id t \<and> pa_agent_secret ack = rg_issued_secret reg \<and>
        pa_accepted ack = snd (prepare t samples (millis now))"
    using found(2) unfolding t option.case Let_def case_prod_beta bind_a_Inr then_a_Inr
    by (elim exE conjE) (auto simp: execute_a_Inr return_a_Inr intro: that)
  have "gs_sink s2 = gs_sink s" "gs_dropped s2 = gs_dropped s"
    using target_get_Inr [OF steps] now by (auto simp: clock_a_Inr)
  then show ?thesis
    using target_get_Inr [OF steps] sink_send_Inr [OF sent] u ack
    by (intro exI [of _ t] exI [of _ "millis now"]) auto
qed

lemma ingest_route_Inr:
  assumes "ingest_route w bearer secret batch s = (Inr ack, u)"
  shows "\<exists>token s1 reg s2. gs_db s1 = gs_db s \<and> gs_sink s2 = gs_sink s \<and>
    register w (pb_identity batch) token (extract_secret secret) s1 = (Inr reg, s2) \<and>
    store_batch w token reg (pb_samples batch) s2 = (Inr ack, u)"
proof -
  obtain a s1 token s2 reg s3 where a: "active_token w bearer s = (Inr a, s1)" "active_token w bearer s1 = (Inr token, s2)"
      "register w (pb_identity batch) token (extract_secret secret) s2 = (Inr reg, s3)"
      "store_batch w token reg (pb_samples batch) s3 = (Inr ack, u)"
    using assms by (auto simp: ingest_route_def ingest_def action_Inr register_a_Inr)
  moreover have "gs_sink s3 = gs_sink s2" using keepsD_a' [OF sink_register a(3)] by simp
  ultimately show ?thesis
    using active_token_Inr [OF a(1)] active_token_Inr [OF a(2)] by (intro exI [of _ token] exI [of _ s2] exI [of _ reg] exI [of _ s3]) simp
qed

section \<open>A bound machine\<close>

lemma require_enrolment_Inr: "require_enrolment w token s = (Inr x, t) \<Longrightarrow> gs_db t = gs_db s"
  by (auto simp: require_enrolment_def enrolment_allowed_def action_Inr registry_Inr split: sum.splits)

lemma rebind_Inr: "rebind w i token identity s = (Inr reg, t) \<Longrightarrow> rg_target_id reg = i \<and> rg_issued_secret reg \<noteq> None"
  by (auto simp: rebind_def Let_def action_Inr)

lemma claim_Inr:
  "claim w host identity token presented s = (Inr reg, t) \<Longrightarrow>
     rg_target_id reg = bh_target_id host \<and>
     (\<not> bh_rebind_open host \<longrightarrow> rg_issued_secret reg = None \<and>
        (\<exists>stored. bh_secret_hash host = Some stored \<and> secret_matches w stored presented))"
  by (auto simp: claim_def action_Inr fail_a_def dest!: rebind_Inr split: option.splits if_splits)

lemma enrol_steps:
  assumes "enrol w key identity token s = (Inr reg, t)"
  obtains i p s2 s3 where "gb_hosts (gs_db s2) = gb_hosts (gs_db s)" "gb_tokens (gs_db s2) = gb_tokens (gs_db s)"
    "statement w RegisterInternal (insert_host w i key identity token (Some p)) s2 = (Inr (), s3)"
    "execute_a w RegisterInternal (\<lambda>_. consume_enrolment token) s3 = (Inr (), t)"
    "rg_target_id reg = i" "rg_issued_secret reg = Some p"
proof -
  let ?pick = "\<lambda>existing. case existing of Some i \<Rightarrow> return_a (i, False)
       | None \<Rightarrow> bind_a (statement w RegisterInternal (\<lambda>_. target_insert (enrolled_target identity key))) (\<lambda>i. return_a (i, True))"
  obtain existing s1 i created s2 p s3 s4 where steps:
      "select_a w RegisterInternal (\<lambda>_ db. map_option tr_id (find (\<lambda>r. tr_kind r = ''agent'' \<and> tr_address r = key) (gb_targets db))) s = (Inr existing, s1)"
      "?pick existing s1 = (Inr (i, created), s2)"
      "statement w RegisterInternal (insert_host w i key identity token (Some p)) s3 = (Inr (), s4)" "gs_db s3 = gs_db s2"
      "execute_a w RegisterInternal (\<lambda>_. consume_enrolment token) s4 = (Inr (), t)"
      "rg_target_id reg = i" "rg_issued_secret reg = Some p"
    using assms by (auto simp: enrol_def Let_def action_Inr random_a_Inr split: prod.splits)
  have "gb_hosts (gs_db s2) = gb_hosts (gs_db s1) \<and> gb_tokens (gs_db s2) = gb_tokens (gs_db s1)"
    using steps(2) by (cases existing) (auto simp: action_Inr registry_Inr registration_tables(1) target_insert_tokens)
  moreover have "gs_db s1 = gs_db s" using steps(1) by (auto simp: registry_Inr)
  ultimately show ?thesis using steps(4) by (intro that [OF _ _ steps(3,5,6,7)]) simp_all
qed

lemma enrol_Inr:
  assumes "enrol w key identity token s = (Inr reg, t)"
  shows "\<exists>p row. rg_issued_secret reg = Some p \<and> rg_target_id reg \<notin> ho_target_id ` set (gb_hosts (gs_db s)) \<and>
    gb_hosts (gs_db t) = gb_hosts (gs_db s) @ [row] \<and> ho_target_id row = rg_target_id reg \<and> ho_key row = key \<and>
    ho_secret_hash row = Some (agent_fingerprint w p) \<and> ho_rebind_until row = None"
proof -
  obtain i p s2 s3 where steps: "gb_hosts (gs_db s2) = gb_hosts (gs_db s)" "gb_tokens (gs_db s2) = gb_tokens (gs_db s)"
      "statement w RegisterInternal (insert_host w i key identity token (Some p)) s2 = (Inr (), s3)"
      "execute_a w RegisterInternal (\<lambda>_. consume_enrolment token) s3 = (Inr (), t)"
      "rg_target_id reg = i" "rg_issued_secret reg = Some p"
    by (rule enrol_steps [OF assms])
  have "gb_hosts (gs_db t) = gb_hosts (gs_db s3)" using steps(4) by (auto simp: registry_Inr token_writes update_tables)
  then show ?thesis
    using steps(1,3,5,6) by (auto simp: statement_Inr dest!: insert_host_row)
qed

lemma register_bound:
  assumes "bound_to i key h (gs_db s)" "register w identity token presented s = (Inr reg, t)"
    and "agent_key (gw_lower w) identity = key \<or> rg_target_id reg = i"
  shows "rg_target_id reg = i \<and> rg_issued_secret reg = None \<and> secret_matches w h presented"
proof -
  let ?key = "agent_key (gw_lower w) identity"
  obtain found s1 where f: "select_a w RegisterInternal (find_host ?key) s = (Inr found, s1)"
      and r: "(case found of Some host \<Rightarrow> claim w host identity token presented
         | None \<Rightarrow> then_a (may_enrol w identity token) (enrol w ?key identity token)) s1 = (Inr reg, t)"
    using assms(2) by (auto simp: register_def Let_def bind_a_Inr)
  then obtain now where s1: "gs_db s1 = gs_db s" and found: "find_host ?key now (gs_db s) = found"
    by (auto simp: registry_Inr)
  show ?thesis
  proof (cases found)
    case None
    then obtain s2 where "may_enrol w identity token s1 = (Inr (), s2)" and e: "enrol w ?key identity token s2 = (Inr reg, t)"
      using r by (auto simp: then_a_Inr)
    then have "gs_db s2 = gs_db s"
      using s1 by (auto simp: may_enrol_def fail_a_def dest!: require_enrolment_Inr split: if_splits)
    moreover have "i \<in> ho_target_id ` set (gb_hosts (gs_db s))" using assms(1) by (auto simp: bound_to_def)
    ultimately have "rg_target_id reg \<noteq> i" using enrol_Inr [OF e] by auto
    moreover have "?key \<noteq> key" using bound_find_host [OF assms(1), of now] found None by auto
    ultimately show ?thesis using assms(3) by simp
  next
    case (Some host)
    then have c: "claim w host identity token presented s1 = (Inr reg, t)" using r by simp
    obtain row where row: "row \<in> set (gb_hosts (gs_db s))" "ho_key row = ?key" "bh_target_id host = ho_target_id row"
      using find_host_row found Some by blast
    have "ho_target_id row = i \<or> ho_key row = key" using claim_Inr [OF c] row assms(3) by auto
    then have "?key = key" using bound_row_unique(2) [OF assms(1) row(1)] row(2) by auto
    then have "bh_target_id host = i" "bh_secret_hash host = Some h" "\<not> bh_rebind_open host"
      using bound_find_host [OF assms(1), of now] found Some by auto
    then show ?thesis using claim_Inr [OF c] by auto
  qed
qed

text \<open>
  C5: once a machine is bound, whatever happens afterwards short of an administrator reopening its binding or removing it, a
  batch is accepted in its name only with the secret of its binding, and what it writes bears the label of the machine.
\<close>

theorem bound_machine_safe:
  assumes "agent_served cal w (\<lambda>c. c \<noteq> CallRebind i \<and> c \<noteq> CallDeleteTarget i) s t" "bound_to i key h (gs_db s)"
    and "ingest_route w bearer secret batch t = (Inr ack, u)"
    and "agent_key (gw_lower w) (pb_identity batch) = key \<or> pa_target_id ack = i"
  shows "pa_target_id ack = i \<and> (\<exists>p. extract_secret secret = Some p \<and> agent_fingerprint w p = h) \<and>
    (\<exists>written. gs_sink u = gs_sink t @ written \<and> (\<forall>sm \<in> set written. sm_labels sm ''target'' = Some (show_int i)))"
proof -
  have bound: "bound_to i key h (gs_db t)"
    by (rule bound_served.kept_served [OF assms(1,2)]) (auto simp: bound_served.permitted_def split: agent_call.split)
  obtain token s1 reg s2 where r: "gs_db s1 = gs_db t" "gs_sink s2 = gs_sink t"
      "register w (pb_identity batch) token (extract_secret secret) s1 = (Inr reg, s2)"
      and stored: "store_batch w token reg (pb_samples batch) s2 = (Inr ack, u)"
    using ingest_route_Inr [OF assms(3)] by blast
  obtain tg ms where st: "tg_id tg = rg_target_id reg" "pa_target_id ack = rg_target_id reg"
      "gs_sink u = gs_sink s2 @ fst (prepare tg (pb_samples batch) ms) \<or> gs_sink u = gs_sink s2"
    using store_batch_Inr [OF stored] by blast
  have reg: "rg_target_id reg = i" "secret_matches w h (extract_secret secret)"
    using register_bound [OF bound [folded r(1)] r(3)] assms(4) st(2) by auto
  have "\<forall>sm \<in> set (fst (prepare tg (pb_samples batch) ms)). sm_labels sm ''target'' = Some (show_int i)"
    using prepare_labels st(1) reg(1) by metis
  moreover have "\<exists>p. extract_secret secret = Some p \<and> agent_fingerprint w p = h"
    using reg(2) by (auto simp: secret_matches_def split: option.splits)
  ultimately show ?thesis
    using st reg(1) r(2) by (auto intro: exI [of _ "[]"])
qed

section \<open>A secret that got lost\<close>

lemma rebind_writes:
  assumes "rebind w i token identity s = (Inr reg, t)"
  shows "\<exists>p now. rg_issued_secret reg = Some p \<and> gs_db t = update_host i identity (bind_host w i p token now (gs_db s))"
  using assms by (auto simp: rebind_def Let_def action_Inr registry_Inr)

lemma modify_host_row: "row \<in> set (gb_hosts db) \<Longrightarrow> ho_target_id row = j \<Longrightarrow> f row \<in> set (gb_hosts (modify_host j f db))"
  by (auto simp: modify_host_def)

text \<open>Whatever gave a secret out, the machine is bound to it.\<close>

lemma issued_is_bound:
  assumes "registry_ok (gs_db s)" "register w identity token presented s = (Inr reg, t)" "rg_issued_secret reg = Some p"
  shows "bound_to (rg_target_id reg) (agent_key (gw_lower w) identity) (agent_fingerprint w p) (gs_db t)"
proof -
  let ?key = "agent_key (gw_lower w) identity"
  have wf: "registry_wf (gs_db t)"
    using keepsD_a' [OF ok.kept_register assms(2,1)] by (simp add: registry_ok_def)
  obtain found s1 where f: "select_a w RegisterInternal (find_host ?key) s = (Inr found, s1)"
      and r: "(case found of Some host \<Rightarrow> claim w host identity token presented
         | None \<Rightarrow> then_a (may_enrol w identity token) (enrol w ?key identity token)) s1 = (Inr reg, t)"
    using assms(2) by (auto simp: register_def Let_def bind_a_Inr)
  then obtain now where s1: "gs_db s1 = gs_db s" and found: "find_host ?key now (gs_db s) = found"
    by (auto simp: registry_Inr)
  show ?thesis
  proof (cases found)
    case None
    then obtain s2 where "enrol w ?key identity token s2 = (Inr reg, t)" using r by (auto simp: then_a_Inr)
    from enrol_Inr [OF this] show ?thesis using wf assms(3) by (auto simp: bound_to_def)
  next
    case (Some host)
    then have c: "claim w host identity token presented s1 = (Inr reg, t)" using r by simp
    obtain s2 where "gs_db s2 = gs_db s1" "rebind w (bh_target_id host) token identity s2 = (Inr reg, t)"
      using c assms(3)
      by (auto simp: claim_def action_Inr fail_a_def dest: require_enrolment_Inr split: option.splits if_splits)
    from this(1) rebind_writes [OF this(2)] obtain at' where
        db: "gs_db t = update_host (bh_target_id host) identity (bind_host w (bh_target_id host) p token at' (gs_db s))"
      using assms(3) s1 by auto
    obtain row where row: "row \<in> set (gb_hosts (gs_db s))" "ho_key row = ?key" "bh_target_id host = ho_target_id row"
      using find_host_row found Some by blast
    have "rg_target_id reg = bh_target_id host" using claim_Inr [OF c] by simp
    moreover have "\<exists>r \<in> set (gb_hosts (gs_db t)). ho_target_id r = bh_target_id host \<and> ho_key r = ?key \<and>
        ho_secret_hash r = Some (agent_fingerprint w p) \<and> ho_rebind_until r = None"
    proof -
      obtain bound where bound: "bound \<in> set (gb_hosts (bind_host w (bh_target_id host) p token at' (gs_db s)))"
          "ho_target_id bound = bh_target_id host" "ho_key bound = ?key" "ho_secret_hash bound = Some (agent_fingerprint w p)"
          "ho_rebind_until bound = None"
        using modify_host_row [OF row(1) row(3) [symmetric]] row(2,3) unfolding bind_host_def by fastforce
      show ?thesis
        unfolding db update_host_def by (rule bexI [OF _ modify_host_row [OF bound(1,2)]]) (simp add: bound)
    qed
    ultimately show ?thesis using wf by (simp add: bound_to_def)
  qed
qed

lemma ingest_route_Inl:
  assumes "ingest_route w bearer secret batch s = (Inl e, u)"
    and "\<And>token v reg v'. gs_db v = gs_db s \<Longrightarrow>
      register w (pb_identity batch) token (extract_secret secret) v \<noteq> (Inr reg, v')"
  shows "gs_sink u = gs_sink s \<and> (validate_batch batch = Inr () \<longrightarrow> (\<forall>why. e \<noteq> IeBadRequest why))"
proof -
  have sink: "keeps_a (\<lambda>u. gs_sink u = gs_sink s) (active_token w bearer)"
    unfolding active_token_def by (intro sink_intros)
  have token_error: "\<forall>why. e \<noteq> IeBadRequest why" if "active_token w bearer v = (Inl e, v')" for v v' e
    using that by (auto simp: active_token_def action_defs select_a_def statement_def Let_def split: option.splits if_splits)
  have register_error: "\<forall>why. e \<noteq> IeBadRequest why" if "register_a w identity token p v = (Inl e, v')" for identity token p v v' e
    using that ingest_of_register.elims [of _ e] by (fastforce simp: register_a_def split: prod.splits sum.splits)
  obtain r1 s1 where a: "active_token w bearer s = (r1, s1)" by fastforce
  obtain r2 s2 where b: "active_token w bearer s1 = (r2, s2)" by fastforce
  have s1: "gs_sink s1 = gs_sink s" and s2: "gs_sink s2 = gs_sink s"
    using keepsD_a' [OF sink a refl] keepsD_a' [OF sink b] by simp_all
  show ?thesis
  proof (cases r1)
    case (Inl e')
    then show ?thesis using assms(1) s1 token_error a by (auto simp: ingest_route_def bind_a_def)
  next
    case (Inr i)
    show ?thesis
    proof (cases "validate_batch batch")
      case (Inl why)
      then show ?thesis using assms(1) s1 by (auto simp: ingest_route_def ingest_def action_defs a Inr)
    next
      case valid: (Inr x)
      show ?thesis
      proof (cases r2)
        case (Inl e')
        then show ?thesis
          using assms(1) s2 token_error b by (auto simp: ingest_route_def ingest_def action_defs a Inr valid)
      next
        case r2: (Inr token)
        obtain r3 s3 where c: "register_a w (pb_identity batch) token (extract_secret secret) s2 = (r3, s3)" by fastforce
        have "gs_db s2 = gs_db s"
          using active_token_Inr a b Inr r2 by metis
        then have "r3 \<noteq> Inr reg" for reg using assms(2) c register_a_Inr by metis
        then obtain e' where "r3 = Inl e'" by (cases r3) auto
        moreover have "gs_sink s3 = gs_sink s" using keepsD_a' [OF sink_register_a c s2] .
        ultimately show ?thesis
          using assms(1) register_error c by (auto simp: ingest_route_def ingest_def action_defs a b Inr valid r2)
      qed
    qed
  qed
qed

text \<open>The server as the network of an agent.\<close>

definition server_network :: "agent_world \<Rightarrow> string \<Rightarrow> agent_sys network" where
  "server_network w token batch secret s =
     (case ingest_route w (Some (''Bearer '' @ token)) secret batch s of
        (Inr ack, s') \<Rightarrow> (Reply 200 (Some ack) [], s')
      | (Inl e, s') \<Rightarrow> (Reply (ingest_status e) None (ingest_message e), s'))"

lemma refused_flush:
  assumes "server_network w token (push_batch_new (ag_identity a) samples now_ms) (ag_client_secret a) s =
      (Reply status None message, u)" "status = 401 \<or> status = 403 \<or> status = 500"
    and "buffer_wf (ag_buffer a)" "ag_client_secret a = None"
    and "buffer_take (ag_buffer a) MAX_BATCH_SAMPLES = (samples, rest)" "samples \<noteq> []"
  shows "\<exists>e a'. agent_flush h (server_network w token) now_ms a s = (FlFailed e, a', u) \<and> ag_client_secret a' = None \<and>
    ag_identity a' = ag_identity a \<and> bf_samples (ag_buffer a') = bf_samples (ag_buffer a)"
proof -
  have restored: "bf_samples (buffer_restore rest samples) = bf_samples (ag_buffer a)"
    by (rule pb.take_put_back(2) [OF assms(3,5)])
  show ?thesis
    using assms(1,2,4,5,6) restored
    by (auto simp: agent_flush_def rejection_def on_binding_refused_def)
qed

lemma server_network_refuses:
  assumes "bound_to i (agent_key (gw_lower w) (ag_identity a)) h (gs_db t)" "trim (ai_hostname (ag_identity a)) \<noteq> []"
    and "length samples \<le> MAX_BATCH_SAMPLES"
  shows "\<exists>status message u. server_network w token (push_batch_new (ag_identity a) samples now_ms) None t =
      (Reply status None message, u) \<and> status \<in> {401, 403, 500} \<and> gs_sink u = gs_sink t"
proof -
  let ?batch = "push_batch_new (ag_identity a) samples now_ms"
  obtain r u where m: "ingest_route w (Some (''Bearer '' @ token)) None ?batch t = (r, u)" by fastforce
  have valid: "validate_batch ?batch = Inr ()"
    using assms(2,3) by (simp add: validate_batch_def push_batch_new_def)
  have none: "register w (pb_identity ?batch) x (extract_secret None) v \<noteq> (Inr reg, v')"
    if "gs_db v = gs_db t" for x reg v v'
    using register_bound [of i _ h v w "ag_identity a" x None reg v'] assms(1) that
    by (auto simp: push_batch_new_def extract_secret_def secret_matches_def)
  have "r \<noteq> Inr ack" for ack
    using ingest_route_Inr [of w _ None ?batch t ack u] none m by metis
  then obtain e where e: "r = Inl e" by (cases r) auto
  then have "gs_sink u = gs_sink t" "\<forall>why. e \<noteq> IeBadRequest why"
    using ingest_route_Inl [of w _ None ?batch t e u] none m valid by metis+
  then show ?thesis
    using m e by (cases e) (auto simp: server_network_def)
qed


section \<open>Commands\<close>


lemma one_open_empty: "one_open (gs_db agent_sys_empty)"
  by (simp add: one_open_def commands_wf_def registry_wf_def agent_sys_empty_def agent_db_empty_def)

text \<open>
  a command that is closed keeps its status, its result and its dates, whatever is reported or asked afterwards.
\<close>

theorem closed_command_stays:
  assumes "agent_served cal w (\<lambda>call. call \<noteq> CallDeleteTarget (cm_target_id c)) s t" "commands_wf (gs_db s)"
    and "c \<in> set (gb_commands (gs_db s))" "is_final (cm_status c)"
  shows "c \<in> set (gb_commands (gs_db t))"
proof -
  have "has_closed c (gs_db s)" using assms(2-) by (simp add: has_closed_def)
  then have "has_closed c (gs_db t)"
    by (rule closed.served.kept_served [OF assms(1)]) (auto simp: closed.served.permitted_def split: agent_call.split)
  then show ?thesis by (simp add: has_closed_def)
qed

text \<open>
  a command whose final report is lost stays open for ever: it neither expires nor can be cancelled, and no other command
  of its kind is accepted for its container, unless the machine is removed.
\<close>

theorem lost_final_report_blocks:
  assumes "agent_served cal w (\<lambda>call. (\<forall>b x key rep. call \<noteq> CallReport b x key (cm_id c) rep) \<and>
      call \<noteq> CallDeleteTarget (cm_target_id c)) s t"
    and "commands_wf (gs_db s)" "c \<in> set (gb_commands (gs_db s))" "cm_status c = Running"
    and "container_name (cm_args c) = Some n" "container_name args = Some n"
  shows "(\<forall>who row u. command_enqueue w (cm_target_id c) (cm_kind c) args who t \<noteq> (Inr row, u)) \<and>
    (\<forall>who u. command_cancel w (cm_target_id c) (cm_id c) who t \<noteq> (Inr (), u))"
proof -
  have "has_running c (gs_db s)" using assms(2-4) by (simp add: has_running_def)
  then have run: "has_running c (gs_db t)"
    by (rule running.served.kept_served [OF assms(1)]) (auto simp: running.served.permitted_def split: agent_call.split)
  then have "has_pending (cm_target_id c) (cm_kind c) n (gs_db t)"
    using container_name_Some [OF assms(5)] by (auto simp: has_pending_def list_ex_iff has_running_def is_open_def)
  then have refused: "command_enqueue w (cm_target_id c) (cm_kind c) args who t \<noteq> (Inr row, u)" for who row u
    using assms(6) by (auto simp: command_enqueue_def Let_def action_Inr registry_Inr split: if_splits)
  have unique: "d = c" if "d \<in> set (gb_commands (gs_db t))" "cm_id d = cm_id c" for d
    using that run by (auto simp: has_running_def commands_wf_def distinct_map dest: inj_onD)
  have "cm_status d \<noteq> Queued" if "find (\<lambda>d. cm_id d = cm_id c \<and> cm_target_id d = cm_target_id c) (gb_commands (gs_db t)) = Some d" for d
    using find_SomeD [OF that] unique [of d] assms(4) by simp
  then have "command_cancel w (cm_target_id c) (cm_id c) who t \<noteq> (Inr (), u)" for who u
    by (auto simp: command_cancel_def action_Inr select_a_Inr split: option.splits if_splits)
  with refused show ?thesis by blast
qed

lemma enqueue_decisions_writes:
  assumes "enqueue_decisions w i ds queued s = (Inr n :: 'e + nat, t)"
  shows "\<exists>new. gb_commands (gs_db t) = gb_commands (gs_db s) @ new \<and>
    (\<forall>c \<in> set new. cm_target_id c = i \<and> cm_status c = Queued \<and> (\<exists>d \<in> set ds. cm_kind c = dc_kind d \<and> cm_args c = dc_args d))"
  using assms
proof (induction ds arbitrary: queued s)
  case Nil
  then show ?case by (auto simp: return_a_Inr)
next
  case (Cons d ds)
  obtain q s1 where one: "enqueue_decision w i d queued s = (Inr q :: 'e + nat, s1)" "enqueue_decisions w i ds q s1 = (Inr n :: 'e + nat, t)"
    using Cons.prems by (auto simp: bind_a_Inr)
  from Cons.IH [OF one(2)] obtain new where new: "gb_commands (gs_db t) = gb_commands (gs_db s1) @ new"
      "\<forall>c \<in> set new. cm_target_id c = i \<and> cm_status c = Queued \<and> (\<exists>d \<in> set ds. cm_kind c = dc_kind d \<and> cm_args c = dc_args d)"
    by blast
  obtain r where r: "command_enqueue w i (dc_kind d) (dc_args d) ''policy'' s = (r, s1)"
    using one(1) by (auto simp: enqueue_decision_def split: prod.splits sum.splits)
  have "\<exists>cs. gb_commands (gs_db s1) = gb_commands (gs_db s) @ cs \<and>
      (\<forall>c \<in> set cs. cm_target_id c = i \<and> cm_status c = Queued \<and> cm_kind c = dc_kind d \<and> cm_args c = dc_args d)"
  proof (cases r)
    case (Inl e)
    then have "gs_db s1 = gs_db s"
      using r by (auto simp: command_enqueue_def Let_def action_defs select_a_def statement_def split: option.splits if_splits)
    then show ?thesis by simp
  next
    case (Inr c)
    then show ?thesis
      using r command_insert_tables(6,9)
      by (fastforce simp: command_enqueue_def Let_def action_Inr registry_Inr split: if_splits)
  qed
  then show ?case using new by (fastforce simp: ball_Un)
qed

lemma observed_name: "observe_containers readings (i, name) = Some obs \<Longrightarrow> co_name obs = name"
proof -
  have step: "co_name o' = snd k" if "\<And>k o'. m k = Some o' \<Longrightarrow> co_name o' = snd k" "observe_step m r k = Some o'" for m r k o'
    using that by (cases r) (auto simp: observe_step_def Let_def split: if_splits option.splits)
  have "co_name o' = snd k" if "\<And>k o'. m k = Some o' \<Longrightarrow> co_name o' = snd k" "foldl observe_step m readings k = Some o'" for m k o'
    using that by (induction readings arbitrary: m) (simp, use step in \<open>metis foldl_Cons\<close>)
  from this [of Map.empty "(i, name)" obs] show "observe_containers readings (i, name) = Some obs \<Longrightarrow> ?thesis"
    by (simp add: observe_containers_def)
qed

text \<open>
  C14: the automaton queues something for a container only if its policy asks for it, its agent runs commands, nothing is
  already queued or running for it, the delay since the last attempt has passed, and, for an update that must wait for
  one, in a maintenance window.
\<close>

theorem automaton_restrained:
  assumes "policy_step cal w (observe_containers readings) silences now ((i, name), policy) queued s = (Inr n, t)"
  shows "\<exists>new. gb_commands (gs_db t) = gb_commands (gs_db s) @ new \<and>
    (\<forall>c \<in> set new. cm_target_id c = i \<and> cm_status c = Queued \<and> names_container (cm_args c) name \<and>
       (\<exists>obs host. observe_containers readings (i, name) = Some obs \<and> host_of i (gs_db s) = Some host \<and> commands_supported host \<and>
          \<not> has_pending i CMD_CONTAINER_RESTART name (gs_db s) \<and> \<not> has_pending i CMD_CONTAINER_UPDATE name (gs_db s) \<and>
          (cm_kind c = CMD_CONTAINER_RESTART \<and> cp_auto_restart policy \<and> \<not> co_up obs \<and>
             cooled now (last_command_at i CMD_CONTAINER_RESTART name (gs_db s)) RESTART_COOLDOWN \<or>
           cm_kind c = CMD_CONTAINER_UPDATE \<and> cp_auto_update policy \<and> co_update_available obs \<and>
             cooled now (last_command_at i CMD_CONTAINER_UPDATE name (gs_db s)) UPDATE_COOLDOWN \<and>
             (cp_only_in_maintenance policy \<longrightarrow>
                first_match cal silences now (Some i) [(''container'', name)] \<noteq> None))))"
proof -
  consider (nothing) "gs_db t = gs_db s" |
    (some) obs host s1 where "observe_containers readings (i, name) = Some obs" "host_of i (gs_db s) = Some host" "commands_supported host"
      "enqueue_decisions w i
        (decide_container policy obs now (last_command_at i CMD_CONTAINER_RESTART name (gs_db s))
          (last_command_at i CMD_CONTAINER_UPDATE name (gs_db s))
          (has_pending i CMD_CONTAINER_RESTART name (gs_db s) \<or> has_pending i CMD_CONTAINER_UPDATE name (gs_db s))
          (first_match cal silences now (Some i) [(''container'', name)] \<noteq> None)) queued s1 = (Inr n :: unit + nat, t)"
      "gs_db s1 = gs_db s"
    using assms
    by (auto simp: policy_step_def Let_def bind_a_Inr select_a_Inr return_a_Inr split: option.splits if_splits)
  then show ?thesis
  proof cases
    case nothing
    then show ?thesis by simp
  next
    case (some obs host s1)
    obtain new where new: "gb_commands (gs_db t) = gb_commands (gs_db s) @ new"
        "\<forall>c \<in> set new. cm_target_id c = i \<and> cm_status c = Queued \<and>
          (\<exists>d \<in> set (decide_container policy obs now (last_command_at i CMD_CONTAINER_RESTART name (gs_db s))
              (last_command_at i CMD_CONTAINER_UPDATE name (gs_db s))
              (has_pending i CMD_CONTAINER_RESTART name (gs_db s) \<or> has_pending i CMD_CONTAINER_UPDATE name (gs_db s))
              (first_match cal silences now (Some i) [(''container'', name)] \<noteq> None)). cm_kind c = dc_kind d \<and> cm_args c = dc_args d)"
      using enqueue_decisions_writes [OF some(4)] some(5) by auto
    show ?thesis
      using some(1-3) observed_name [OF some(1)]
      by (intro exI [of _ new] conjI new(1) ballI)
        (use new(2) in \<open>fastforce simp: decide_container_def names_container_def split: if_splits\<close>)+
  qed
qed

section \<open>Two machines and one token\<close>

lemma enrol_counts:
  assumes "enrol w key identity token s = (Inr reg, t)" "distinct (map en_id (gb_tokens (gs_db s)))"
    "r \<in> set (gb_tokens (gs_db s))" "en_id r = token"
  shows "r\<lparr>en_uses := en_uses r + 1\<rparr> \<in> set (gb_tokens (gs_db t)) \<and> distinct (map en_id (gb_tokens (gs_db t)))"
proof -
  obtain i p s2 s3 where steps: "gb_hosts (gs_db s2) = gb_hosts (gs_db s)" "gb_tokens (gs_db s2) = gb_tokens (gs_db s)"
      "statement w RegisterInternal (insert_host w i key identity token (Some p)) s2 = (Inr (), s3)"
      "execute_a w RegisterInternal (\<lambda>_. consume_enrolment token) s3 = (Inr (), t)"
      "rg_target_id reg = i" "rg_issued_secret reg = Some p"
    by (rule enrol_steps [OF assms(1)])
  have "gb_tokens (gs_db s3) = gb_tokens (gs_db s2)"
    using steps(3) by (auto simp: statement_Inr dest!: insert_host_tokens)
  moreover define f :: "enrolment_row \<Rightarrow> enrolment_row" where "f = (\<lambda>r. if en_id r = token then r\<lparr>en_uses := en_uses r + 1\<rparr> else r)"
  ultimately have tokens: "gb_tokens (gs_db t) = map f (gb_tokens (gs_db s))"
    using steps(2,4) by (simp add: execute_a_Inr consume_enrolment_def update_enrolment_def)
  have "map en_id (map f (gb_tokens (gs_db s))) = map en_id (gb_tokens (gs_db s))" by (simp add: f_def)
  moreover have "f r \<in> set (map f (gb_tokens (gs_db s)))" using assms(3) by simp
  moreover have "f r = r\<lparr>en_uses := en_uses r + 1\<rparr>" using assms(4) by (simp add: f_def)
  ultimately show ?thesis using assms(2) unfolding tokens by metis
qed

text \<open>
  the verdict on a token is read before the machine is written: two machines that present the same single-use token at the
  same time both get in.
\<close>

theorem crossed_enrolments_exceed_limit:
  assumes "may_enrol w a token s = (Inr (), s1)" "may_enrol w b token s1 = (Inr (), s2)"
    and "enrol w key_a a token s2 = (Inr reg_a, s3)" "enrol w key_b b token s3 = (Inr reg_b, s4)"
    and "registry_wf (gs_db s)" "r \<in> set (gb_tokens (gs_db s))" "en_id r = token" "en_max_uses r = Some (en_uses r + 1)"
  shows "\<exists>r' \<in> set (gb_tokens (gs_db s4)). en_id r' = token \<and> en_max_uses r' = Some (en_uses r + 1) \<and> en_uses r' = en_uses r + 2"
proof -
  have same: "gs_db s2 = gs_db s"
    using assms(1,2) by (auto simp: may_enrol_def fail_a_def dest!: require_enrolment_Inr split: if_splits)
  have "distinct (map en_id (gb_tokens (gs_db s2)))" using assms(5) same by (simp add: registry_wf_def)
  from enrol_counts [OF assms(3) this, of r] assms(6,7) same
  have first_in: "r\<lparr>en_uses := en_uses r + 1\<rparr> \<in> set (gb_tokens (gs_db s3))" and d: "distinct (map en_id (gb_tokens (gs_db s3)))"
    by simp_all
  from enrol_counts [OF assms(4) d first_in] assms(7)
  have "r\<lparr>en_uses := en_uses r + 1, en_uses := en_uses r + 1 + 1\<rparr> \<in> set (gb_tokens (gs_db s4))" by simp
  then show ?thesis using assms(7,8) by (rule_tac bexI) auto
qed

section \<open>Samples on their way\<close>

text \<open>
  a batch that the server acknowledges may still be lost: when the queue of its writer is full, nothing is written, the
  acknowledgement counts the samples all the same, and the agent lets them go.
\<close>

theorem acknowledged_samples_dropped:
  assumes "\<forall>n. gw_sink_full w n" "buffer_wf (ag_buffer a)"
    and "agent_flush h (server_network w token) now_ms a s = (FlSent n, a', u)"
  shows "gs_sink u = gs_sink s \<and> bf_samples (ag_buffer a') = drop n (bf_samples (ag_buffer a))"
proof -
  let ?I = "\<lambda>v. gs_sink v = gs_sink s"
  have send: "keeps_a ?I (sink_send w xs)" for xs
    using assms(1) by (auto simp: keeps_a_def sink_send_def Let_def)
  have quiet: "keeps_a ?I (ingest_route w bearer secret batch)" for bearer secret batch
    unfolding ingest_route_def ingest_def store_batch_def active_token_def target_get_def Let_def
    by (intro sink_intros sink_register_a send)
  have net: "gs_sink v = gs_sink s" if "server_network w token batch secret s = (r, v)" for batch secret r v
    using that keepsD_a [OF quiet, of s "Some (''Bearer '' @ token)" secret batch]
    by (auto simp: server_network_def split: prod.splits sum.splits)
  obtain samples rest where taken: "buffer_take (ag_buffer a) MAX_BATCH_SAMPLES = (samples, rest)" by fastforce
  then have "samples = take MAX_BATCH_SAMPLES (bf_samples (ag_buffer a))"
      "bf_samples rest = drop MAX_BATCH_SAMPLES (bf_samples (ag_buffer a))"
    using pb.take_content [OF assms(2), of MAX_BATCH_SAMPLES] by simp_all
  then have "bf_samples rest = drop (length samples) (bf_samples (ag_buffer a))" by (simp add: min_def)
  then show ?thesis
    using assms(3) taken net
    by (auto simp: agent_flush_def adopt_interval_def adopt_binding_def Let_def split: prod.splits sum.splits if_splits option.splits push_error.splits)
qed

section \<open>The buffer of the agent\<close>

text \<open>
  over a run, the buffer holds the latest samples that were collected, and each of the others was either settled with the
  server, in order, or counted as dropped.
\<close>

definition accounted :: "run_log \<Rightarrow> run_state \<Rightarrow> bool" where
  "accounted l r \<longleftrightarrow>
     (\<exists>k. pb.holds_after k (rl_collected l) (ag_buffer (rs_agent r)) \<and> subseq (rl_departed l) (take k (rl_collected l)) \<and>
        bf_dropped (ag_buffer (rs_agent r)) = min u64_limit (k - length (rl_departed l)))"

lemma saturating_sum: "d \<le> k \<Longrightarrow> min m (min m (k - d) + e) = min m (k + e - d)" for d k m e :: nat
  by linarith

lemma accounted_collect:
  assumes "accounted l r"
  shows "accounted (l\<lparr>rl_collected := rl_collected l @ agent_collect measured took now_ms (rs_agent r)\<rparr>)
    (collect_turn measured took now_ms later r)"
proof -
  let ?b = "ag_buffer (rs_agent r)" and ?xs = "agent_collect measured took now_ms (rs_agent r)"
  obtain k where k: "pb.holds_after k (rl_collected l) ?b" "subseq (rl_departed l) (take k (rl_collected l))"
      "bf_dropped ?b = min u64_limit (k - length (rl_departed l))"
    using assms by (auto simp: accounted_def)
  let ?e = "length (bf_samples ?b) + length ?xs - bf_capacity ?b"
  have wf: "buffer_wf ?b" and bound: "k \<le> length (rl_collected l)" using k(1) by (simp_all add: pb.holds_after_def)
  have few: "length (rl_departed l) \<le> k"
    using list_emb_length [OF k(2)] by simp
  have "bf_dropped (buffer_push ?b ?xs) = min u64_limit (k + ?e - length (rl_departed l))"
    unfolding pb.push_lost [OF wf] k(3) using few by (rule saturating_sum)
  moreover have "subseq (rl_departed l) (take (k + ?e) (rl_collected l @ ?xs))"
  proof -
    have "take (k + ?e) (rl_collected l @ ?xs) = take k (rl_collected l) @ take ?e (drop k (rl_collected l @ ?xs))"
      using bound by (simp only: take_add) simp
    then show ?thesis using list_emb_prefix [OF k(2)] by simp
  qed
  moreover have "pb.holds_after (k + ?e) (rl_collected l @ ?xs) (buffer_push ?b ?xs)" by (rule pb.push_holds [OF k(1)])
  ultimately show ?thesis by (auto simp: accounted_def collect_turn_def Let_def)
qed

lemma accounted_send:
  assumes "accounted l r" "send_turn h net now_ms later r n = Some (outcome, r', n')"
  shows "accounted (l\<lparr>rl_departed := rl_departed l @ departed r outcome\<rparr>) r'"
proof -
  let ?b = "ag_buffer (rs_agent r)"
  obtain k where k: "pb.holds_after k (rl_collected l) ?b" "subseq (rl_departed l) (take k (rl_collected l))"
      "bf_dropped ?b = min u64_limit (k - length (rl_departed l))"
    using assms(1) by (auto simp: accounted_def)
  have wf: "buffer_wf ?b" using k(1) by (simp add: pb.holds_after_def)
  obtain xs rest where taken: "buffer_take ?b MAX_BATCH_SAMPLES = (xs, rest)" by fastforce
  obtain a n2 where flush: "agent_flush h net now_ms (rs_agent r) n = (outcome, a, n2)" and a: "ag_buffer (rs_agent r') = ag_buffer a"
    using assms(2) by (auto simp: send_turn_def split: prod.splits flush_outcome.splits option.splits)
  consider (settled) m where "outcome = FlSent m" "m = length xs" "ag_buffer a = rest"
    | (kept) "\<And>m. outcome \<noteq> FlSent m" "pb.holds_after k (rl_collected l) (ag_buffer a)" "bf_dropped (ag_buffer a) = bf_dropped ?b"
  proof (cases "xs = []")
    case True
    then have "outcome = FlIdle" "ag_buffer a = rest" using flush taken by (auto simp: agent_flush_def)
    moreover have "pb.holds_after k (rl_collected l) rest" using pb.take_holds(1) [OF k(1) taken] True by simp
    moreover have "bf_dropped rest = bf_dropped ?b" using pb.take_frame [OF wf, of MAX_BATCH_SAMPLES] taken by simp
    ultimately show ?thesis using kept by simp
  next
    case False
    have restored: "pb.holds_after k (rl_collected l) (buffer_restore rest xs)" "bf_dropped (buffer_restore rest xs) = bf_dropped ?b"
      using pb.take_put_back [OF wf taken] k(1) by (simp_all add: pb.holds_after_def)
    obtain reply n3 where net: "net (push_batch_new (ag_identity (rs_agent r)) xs now_ms) (ag_client_secret (rs_agent r)) n = (reply, n3)"
      by fastforce
    have "(\<exists>m. outcome = FlSent m \<and> m = length xs \<and> ag_buffer a = rest) \<or>
        (\<exists>e. outcome = FlFailed e) \<and> ag_buffer a = buffer_restore rest xs"
      using flush taken False net
      by (auto simp: agent_flush_def adopt_interval_def adopt_binding_def on_binding_refused_def Let_def
          split: sum.splits push_error.splits if_splits option.splits)
    then show ?thesis using settled kept restored by auto
  qed
  then show ?thesis
  proof cases
    case settled
    have "departed r outcome = xs"
      using settled pb.take_content [OF wf, of MAX_BATCH_SAMPLES] taken by (auto simp: departed_def min_def)
    moreover have "bf_dropped rest = bf_dropped ?b" using pb.take_frame [OF wf, of MAX_BATCH_SAMPLES] taken by simp
    moreover have "subseq (rl_departed l @ xs) (take (k + length xs) (rl_collected l))"
      unfolding pb.take_holds(2) [OF k(1) taken] by (intro list_emb_append_mono k(2)) simp
    ultimately show ?thesis
      using pb.take_holds(1) [OF k(1) taken] k(3) settled(3) a
      by (auto simp: accounted_def intro!: exI [of _ "k + length xs"])
  next
    case kept
    then have "departed r outcome = []" by (cases outcome) (auto simp: departed_def)
    then show ?thesis using k kept(2,3) a by (auto simp: accounted_def)
  qed
qed


end
