(* ===== verification/Agent_Witnesses.thy ===== *)
theory Agent_Witnesses
  imports Agent_Properties
begin

text \<open>
  The properties of the agents on a concrete server: one token, one machine bound to the secret \<^verbatim>\<open>s\<close>, one command.
\<close>

definition sample_agent_world :: agent_world where
  "sample_agent_world =
     \<lparr>gw_utc = \<lambda>_. 0, gw_random = \<lambda>_ _. 0, gw_sql_fails = \<lambda>_. False, gw_sink_full = \<lambda>_. False, gw_sha256 = \<lambda>x. x,
      gw_lower = \<lambda>x. x, gw_credential_readable = \<lambda>_. True\<rparr>"

definition sample_agent_identity :: agent_identity where
  "sample_agent_identity =
     \<lparr>ai_hostname = ''k'', ai_os = ''linux'', ai_os_version = None, ai_kernel_version = None, ai_arch = None,
      ai_agent_version = ''1'', ai_commands_enabled = Some True, ai_relay = False, ai_site = None, ai_machine_id = None,
      ai_tags = [], ai_binding_supported = True\<rparr>"

definition sample_token :: enrolment_row where
  "sample_token =
     \<lparr>en_id = 1, en_name = ''t'', en_hash = agent_fingerprint sample_agent_world ''b'', en_prefix = ''b'', en_created_at = 0,
      en_last_used_at = None, en_revoked_at = None, en_max_uses = Some 1, en_uses = 0, en_expires_at = None\<rparr>"

definition sample_target :: target_row where
  "sample_target =
     \<lparr>tr_id = 1, tr_name = ''k'', tr_address = ''k'', tr_kind = ''agent'', tr_interval_secs = 30, tr_enabled = True,
      tr_tags = [], tr_credential_enc = None, tr_via_agent = None, tr_group_name = [], tr_position = 1,
      tr_last_probe_at = None, tr_last_error = None\<rparr>"

definition sample_host :: host_row where
  "sample_host =
     \<lparr>ho_target_id = 1, ho_key = ''k'', ho_hostname = ''k'', ho_os = ''linux'', ho_os_version = None, ho_kernel_version = None,
      ho_arch = None, ho_agent_version = ''1'', ho_commands_enabled = Some True, ho_relay = False, ho_site = None,
      ho_token_id = Some 1, ho_secret_hash = Some (agent_fingerprint sample_agent_world ''s''), ho_binding_supported = True,
      ho_bound_at = Some 0, ho_rebind_until = None, ho_last_seen_ms = None, ho_last_seen_at = None, ho_last_samples = 0\<rparr>"

definition sample_command :: "command_status \<Rightarrow> command_row" where
  "sample_command st =
     \<lparr>cm_id = 1, cm_target_id = 1, cm_kind = CMD_CONTAINER_RESTART, cm_args = JObject [(''name'', JString ''web'')],
      cm_status = st, cm_requested_by = Some ''kim'', cm_created_at = 0, cm_started_at = None, cm_finished_at = None,
      cm_result = None\<rparr>"

definition token_only :: agent_sys where
  "token_only = agent_sys_empty\<lparr>gs_db := agent_db_empty\<lparr>gb_tokens := [sample_token], gb_next_token := 2\<rparr>\<rparr>"

definition one_machine :: "command_row list \<Rightarrow> agent_sys" where
  "one_machine commands = agent_sys_empty\<lparr>gs_db := agent_db_empty\<lparr>gb_tokens := [sample_token], gb_next_token := 2,
     gb_targets := [sample_target], gb_next_target := 2, gb_hosts := [sample_host], gb_commands := commands,
     gb_next_command := 2\<rparr>\<rparr>"

lemmas sample_rows = sample_token_def sample_target_def sample_host_def sample_command_def
lemmas sample_states = token_only_def one_machine_def agent_sys_empty_def agent_db_empty_def

lemma sample_registry: "registry_ok (gs_db token_only)" "registry_wf (gs_db (one_machine cs))"
  by (simp_all add: sample_states registry_ok_def registry_wf_def within_limit_def) (simp_all add: sample_rows)

lemma sample_commands_wf: "commands_wf (gs_db (one_machine [sample_command st]))"
  using sample_registry(2) by (simp add: commands_wf_def) (simp add: sample_states sample_rows)

lemma sample_bound: "bound_to 1 ''k'' (agent_fingerprint sample_agent_world ''s'') (gs_db (one_machine cs))"
  using sample_registry(2) by (simp add: bound_to_def) (simp add: sample_states sample_rows)

lemma sample_world_simps:
  "gw_utc sample_agent_world n = 0" "\<not> gw_sql_fails sample_agent_world n" "gw_sink_full sample_agent_world n = False"
  "gw_lower sample_agent_world x = x" "gw_sha256 sample_agent_world y = y"
  by (simp_all add: sample_agent_world_def)

lemma sample_key: "agent_key (gw_lower sample_agent_world) sample_agent_identity = ''k''"
  by (simp add: agent_key_def sample_agent_identity_def sample_world_simps trim_plain plain_char_def)

section \<open>Tokens, bindings\<close>


lemma bearer_scheme: "eq_ignore_ascii_case ''Bearer'' ''bearer''"
  by code_simp

lemma sample_bearer: "agent_bearer (Some ''Bearer b'') = Some ''b''"
  by (simp add: agent_bearer_def trim_plain plain_char_def bearer_scheme)

definition sample_batch :: "sample list \<Rightarrow> push_batch" where
  "sample_batch samples = push_batch_new sample_agent_identity samples 0"

lemma sample_batch_valid: "length samples \<le> MAX_BATCH_SAMPLES \<Longrightarrow> validate_batch (sample_batch samples) = Inr ()"
  by (simp add: validate_batch_def sample_batch_def push_batch_new_def sample_agent_identity_def trim_plain plain_char_def)

lemma sample_active:
  "gb_tokens (gs_db s) = [sample_token] \<Longrightarrow>
     active_token sample_agent_world (Some ''Bearer b'') s = (Inr 1, s\<lparr>gs_tick := Suc (gs_tick s)\<rparr>)"
  by (simp add: active_token_def sample_bearer action_defs select_a_def statement_def Let_def sample_world_simps find_active_token_def)
    (simp add: sample_token_def)

lemma sample_register_known:
  assumes "gb_hosts (gs_db s) = [sample_host]"
  shows "register sample_agent_world sample_agent_identity 1 (Some ''s'') s =
    (Inr \<lparr>rg_target_id = 1, rg_created = False, rg_issued_secret = None, rg_bound = True\<rparr>,
     s\<lparr>gs_tick := Suc (Suc (gs_tick s)), gs_db := update_host 1 sample_agent_identity (gs_db s)\<rparr>)"
  by (simp add: register_def sample_key Let_def action_defs select_a_def execute_a_def statement_def sample_world_simps find_host_def
      assms claim_def)
    (simp add: sample_host_def secret_matches_def action_defs execute_a_def statement_def sample_world_simps Let_def)

lemma sample_target_read:
  "gb_targets (gs_db s) = [sample_target] \<Longrightarrow>
     target_get sample_agent_world err 1 s = (Inr (Some (target_of_row sample_target)), s\<lparr>gs_tick := Suc (gs_tick s)\<rparr>)"
  by (simp add: target_get_def action_defs select_a_def statement_def Let_def sample_world_simps)
    (simp add: sample_target_def return_a_def)

lemma sample_store:
  assumes "gb_targets (gs_db s) = [sample_target]" "rg_target_id reg = 1"
  shows "\<exists>ack u. store_batch sample_agent_world 1 reg samples s = (Inr ack, u)"
  using assms(2)
  by (simp add: store_batch_def sample_target_read assms(1) action_defs execute_a_def statement_def clock_a_def Let_def
      sample_world_simps sink_send_def prepare_def)

lemma sample_ingest:
  assumes "length samples \<le> MAX_BATCH_SAMPLES"
  shows "\<exists>ack u. ingest_route sample_agent_world (Some ''Bearer b'') (Some ''s'') (sample_batch samples) (one_machine cs) = (Inr ack, u)"
proof -
  have rows: "gb_tokens (gs_db (one_machine cs)) = [sample_token]" "gb_hosts (gs_db (one_machine cs)) = [sample_host]"
    "gb_targets (gs_db (one_machine cs)) = [sample_target]" by (simp_all add: sample_states)
  have secret: "extract_secret (Some ''s'') = Some ''s''" by (simp add: extract_secret_def trim_plain plain_char_def)
  have batch: "pb_identity (sample_batch samples) = sample_agent_identity" by (simp add: sample_batch_def push_batch_new_def)
  show ?thesis
    unfolding ingest_route_def ingest_def
    by (simp add: bind_a_def then_a_def lift_a_def sample_active rows sample_batch_valid [OF assms] batch secret register_a_def
        sample_register_known sample_store update_host_def modify_host_def)
qed

theorem bound_machine_safe_witness:
  "\<exists>ack u. ingest_route sample_agent_world (Some ''Bearer b'') (Some ''s'') (sample_batch []) (one_machine []) = (Inr ack, u) \<and>
     pa_target_id ack = 1"
proof -
  obtain ack u where run: "ingest_route sample_agent_world (Some ''Bearer b'') (Some ''s'') (sample_batch []) (one_machine []) = (Inr ack, u)"
    using sample_ingest [of "[]" "[]"] by auto
  have "pb_identity (sample_batch []) = sample_agent_identity" by (simp add: sample_batch_def push_batch_new_def)
  then show ?thesis
    using bound_machine_safe [OF served_none sample_bound run] run sample_key by simp
qed

lemma sample_may:
  "gb_tokens (gs_db s) = [sample_token] \<Longrightarrow> ai_binding_supported identity \<Longrightarrow>
     may_enrol sample_agent_world identity 1 s = (Inr (), s\<lparr>gs_tick := Suc (gs_tick s)\<rparr>)"
  by (simp add: may_enrol_def require_enrolment_def enrolment_allowed_def action_defs select_a_def statement_def sample_world_simps
      enrolment_verdict_def Let_def) (simp add: sample_token_def return_a_def)

lemma sample_enrol:
  "\<exists>p t. enrol sample_agent_world ''k'' sample_agent_identity 1 (token_only\<lparr>gs_tick := n\<rparr>) =
     (Inr \<lparr>rg_target_id = 1, rg_created = True, rg_issued_secret = Some p, rg_bound = True\<rparr>, t)"
  by (simp add: enrol_def Let_def action_defs select_a_def execute_a_def statement_def random_a_def sample_world_simps sample_states
      target_insert_def enrolled_target_def insert_host_def DEFAULT_INTERVAL_SECS_def) (simp add: sample_token_def)

lemma sample_enrols:
  "\<exists>reg t p. register sample_agent_world sample_agent_identity 1 None token_only = (Inr reg, t) \<and> rg_issued_secret reg = Some p"
proof -
  have "gb_tokens (gs_db token_only) = [sample_token]" "gb_hosts (gs_db token_only) = []" "ai_binding_supported sample_agent_identity"
    by (simp_all add: sample_states sample_agent_identity_def)
  moreover obtain p t where "enrol sample_agent_world ''k'' sample_agent_identity 1 (token_only\<lparr>gs_tick := Suc (Suc (gs_tick token_only))\<rparr>) =
     (Inr \<lparr>rg_target_id = 1, rg_created = True, rg_issued_secret = Some p, rg_bound = True\<rparr>, t)"
    using sample_enrol by blast
  ultimately show ?thesis
    by (simp add: register_def sample_key Let_def bind_a_def then_a_def select_a_def statement_def sample_world_simps find_host_def sample_may)
qed

definition sample_running_agent :: agent where
  "sample_running_agent =
     (agent_new sample_agent_identity ''b'' 10 0 FileMissing 42)
       \<lparr>ag_buffer := buffer_push (buffer_new 10) [sample_new ''m'' (Fin 1) Gauge 0]\<rparr>"

lemma sample_agent_fields:
  "ag_identity sample_running_agent = sample_agent_identity" "ag_client_secret sample_running_agent = None"
  "buffer_wf (ag_buffer sample_running_agent)" "trim (ai_hostname sample_agent_identity) \<noteq> []"
  by (simp_all add: sample_running_agent_def agent_new_def binding_load_def pb.push_wf buffer_new_wf)
    (simp add: sample_agent_identity_def trim_plain plain_char_def)

definition sample_agent_host :: agent_host where
  "sample_agent_host = \<lparr>ah_can_write = True, ah_can_remove = True\<rparr>"


lemma sample_enrol_two:
  "\<exists>a s b t. enrol sample_agent_world ''k'' sample_agent_identity 1 (token_only\<lparr>gs_tick := n\<rparr>) = (Inr a, s) \<and>
     enrol sample_agent_world ''l'' sample_agent_identity 1 s = (Inr b, t)"
  by (simp add: enrol_def Let_def action_defs select_a_def execute_a_def statement_def random_a_def sample_world_simps sample_states
      target_insert_def enrolled_target_def insert_host_def DEFAULT_INTERVAL_SECS_def consume_enrolment_def update_enrolment_def)
    (simp add: sample_token_def)

theorem crossed_enrolments_exceed_limit_witness:
  "\<exists>s a u b t. enrol sample_agent_world ''k'' sample_agent_identity 1 s = (Inr a, u) \<and>
     enrol sample_agent_world ''l'' sample_agent_identity 1 u = (Inr b, t) \<and>
     (\<exists>r \<in> set (gb_tokens (gs_db t)). en_max_uses r = Some 1 \<and> en_uses r = 2)"
proof -
  have token: "gb_tokens (gs_db token_only) = [sample_token]" and bind: "ai_binding_supported sample_agent_identity"
    by (simp_all add: sample_states sample_agent_identity_def)
  obtain a s b t where run: "enrol sample_agent_world ''k'' sample_agent_identity 1 (token_only\<lparr>gs_tick := Suc (Suc (gs_tick token_only))\<rparr>) = (Inr a, s)"
      "enrol sample_agent_world ''l'' sample_agent_identity 1 s = (Inr b, t)"
    using sample_enrol_two by blast
  have may: "may_enrol sample_agent_world sample_agent_identity 1 token_only = (Inr (), token_only\<lparr>gs_tick := Suc (gs_tick token_only)\<rparr>)"
    "may_enrol sample_agent_world sample_agent_identity 1 (token_only\<lparr>gs_tick := Suc (gs_tick token_only)\<rparr>) =
      (Inr (), token_only\<lparr>gs_tick := Suc (Suc (gs_tick token_only))\<rparr>)"
    using sample_may [OF token bind] sample_may [OF _ bind, of "token_only\<lparr>gs_tick := Suc (gs_tick token_only)\<rparr>"] token by simp_all
  have "registry_wf (gs_db token_only)" using sample_registry(1) by (simp add: registry_ok_def)
  moreover have "sample_token \<in> set (gb_tokens (gs_db token_only))" using token by simp
  moreover have "en_id sample_token = 1" "en_max_uses sample_token = Some (en_uses sample_token + 1)" "en_uses sample_token = 0"
    by (simp_all add: sample_token_def)
  ultimately have "\<exists>r \<in> set (gb_tokens (gs_db t)). en_id r = 1 \<and> en_max_uses r = Some 1 \<and> en_uses r = 2"
    using crossed_enrolments_exceed_limit [OF may run, of sample_token] by simp
  then show ?thesis using run by blast
qed

section \<open>Commands\<close>

lemma sample_one_open: "one_open (gs_db (one_machine [sample_command st]))"
  using sample_commands_wf [of st] by (simp add: one_open_def) (simp add: sample_states)


theorem closed_command_stays_witness:
  "sample_command Done \<in> set (gb_commands (gs_db (agent_serve spring_calendar sample_agent_world
     (CallReport (Some ''Bearer b'') (Some ''s'') ''k'' 1 \<lparr>cr_status = Failed, cr_result = []\<rparr>) (one_machine [sample_command Done]))))"
proof -
  have "sample_command Done \<in> set (gb_commands (gs_db (one_machine [sample_command Done])))" "is_final (cm_status (sample_command Done))"
    by (simp_all add: sample_states sample_command_def)
  then show ?thesis
    by (intro closed_command_stays [OF served_call [OF served_none] sample_commands_wf]) simp_all
qed

theorem lost_final_report_blocks_witness:
  "\<forall>who row u. command_enqueue sample_agent_world 1 CMD_CONTAINER_RESTART (JObject [(''name'', JString ''web'')]) who
     (agent_serve spring_calendar sample_agent_world (CallAutomaton None None) (one_machine [sample_command Running])) \<noteq> (Inr row, u)"
proof -
  have c: "sample_command Running \<in> set (gb_commands (gs_db (one_machine [sample_command Running])))" "cm_status (sample_command Running) = Running"
    "container_name (cm_args (sample_command Running)) = Some ''web''" "container_name (JObject [(''name'', JString ''web'')]) = Some ''web''"
    "cm_target_id (sample_command Running) = 1" "cm_kind (sample_command Running) = CMD_CONTAINER_RESTART"
    by (simp_all add: sample_states sample_command_def container_name_def)
  show ?thesis
    using lost_final_report_blocks [OF served_call [OF served_none, where c = "CallAutomaton None None"] sample_commands_wf c(1-4)] c(5,6)
    by simp
qed

definition restart_policy :: container_policy where
  "restart_policy = container_policy_default\<lparr>cp_auto_restart := True\<rparr>"

lemma enqueue_decisions_returns: "\<exists>n t. enqueue_decisions w i ds queued s = (Inr n :: 'e + nat, t)"
proof (induction ds arbitrary: queued s)
  case (Cons d ds)
  obtain q s1 where "enqueue_decision w i d queued s = (Inr q :: 'e + nat, s1)"
    by (cases "command_enqueue w i (dc_kind d) (dc_args d) ''policy'' s"; cases "fst (command_enqueue w i (dc_kind d) (dc_args d) ''policy'' s)")
      (auto simp: enqueue_decision_def)
  then show ?case using Cons.IH [of q s1] by (simp add: bind_a_def)
qed (simp add: return_a_def)

theorem automaton_restrained_witness:
  "\<exists>n t. policy_step spring_calendar sample_agent_world (observe_containers [(1, ''web'', ''dumbmonit_container_up'', Fin 0)]) [] 0
      ((1, ''web''), restart_policy) 0 (one_machine []) = (Inr n, t) \<and>
    (\<forall>c \<in> set (gb_commands (gs_db t)). names_container (cm_args c) ''web'')"
proof -
  have "\<exists>n t. policy_step spring_calendar sample_agent_world (observe_containers [(1, ''web'', ''dumbmonit_container_up'', Fin 0)]) [] 0
      ((1, ''web''), restart_policy) 0 (one_machine []) = (Inr n :: unit + nat, t)"
  proof -
    have "host_of 1 (gs_db (one_machine [])) = Some sample_host" "commands_supported sample_host"
      by (simp_all add: host_of_def sample_states) (simp_all add: sample_host_def commands_supported_def)
    moreover obtain obs where "observe_containers [(1, ''web'', ''dumbmonit_container_up'', Fin 0)] (1, ''web'') = Some obs"
      by (simp add: observe_containers_def observe_step_def Let_def)
    ultimately show ?thesis
      by (simp add: policy_step_def bind_a_def select_a_def statement_def sample_world_simps Let_def enqueue_decisions_returns)
  qed
  then obtain n t where run: "policy_step spring_calendar sample_agent_world
      (observe_containers [(1, ''web'', ''dumbmonit_container_up'', Fin 0)]) [] 0 ((1, ''web''), restart_policy) 0 (one_machine []) = (Inr n, t)"
    by blast
  show ?thesis using automaton_restrained [OF run] run by (fastforce simp: sample_states)
qed

section \<open>The agent\<close>

definition sample_run :: run_state where
  "sample_run = \<lparr>rs_agent = agent_new sample_agent_identity ''b'' 2 0 FileMissing 42, rs_next_collect = 0, rs_next_send = 0\<rparr>"


end
