(* ===== verification/Docker_Client.thy ===== *)
theory Docker_Client
  imports Wire_Protocol
begin

text \<open>
  The agent's client of the Docker daemon (\<^verbatim>\<open>crates/agent/src/collect/docker.rs\<close>): the request it writes on the socket,
  the reading of the answer, chunked bodies included, and the delay it grants. Bytes are characters; reading JSON is
  the parameter \<open>parse\<close>, which gives a value or the message of its error, the daemon and the time it takes are parameters of the requests.
\<close>

section \<open>Bytes as text\<close>

text \<open>
  \<^verbatim>\<open>String::from_utf8_lossy\<close>: each longest beginning of a character that cannot be completed becomes U+FFFD.
  \<open>utf8_step\<close> says whether a character stands in front, and how many bytes it or its beginning takes.
\<close>

definition utf8_width :: "nat \<Rightarrow> nat" where
  "utf8_width b =
     (if b < 0x80 then 1 else if 0xC2 \<le> b \<and> b < 0xE0 then 2 else if 0xE0 \<le> b \<and> b < 0xF0 then 3
      else if 0xF0 \<le> b \<and> b < 0xF5 then 4 else 0)"

definition utf8_second :: "nat \<Rightarrow> nat \<Rightarrow> bool" where
  "utf8_second b c =
     ((if b = 0xE0 then 0xA0 else if b = 0xF0 then 0x90 else 0x80) \<le> c \<and>
      c < (if b = 0xED then 0xA0 else if b = 0xF4 then 0x90 else 0xC0))"

definition utf8_step :: "string \<Rightarrow> bool \<times> nat" where
  "utf8_step s =
     (let b = of_char (s ! 0); w = utf8_width b
      in if w \<le> 1 then (w = 1, 1)
         else if length s < 2 \<or> \<not> utf8_second b (of_char (s ! 1)) then (False, 1)
         else if w = 2 then (True, 2)
         else if length s < 3 \<or> \<not> continues_char (s ! 2) then (False, 2)
         else if w = 3 then (True, 3)
         else if length s < 4 \<or> \<not> continues_char (s ! 3) then (False, 3)
         else (True, 4))"

lemma utf8_step_positive: "utf8_step s = (ok, n) \<Longrightarrow> 0 < n"
  by (auto simp: utf8_step_def Let_def split: if_splits)

function from_utf8_lossy :: "string \<Rightarrow> string" where
  "from_utf8_lossy s =
     (if s = [] then []
      else case utf8_step s of
             (ok, n) \<Rightarrow> (if ok then take n s else [CHR 0xEF, CHR 0xBF, CHR 0xBD]) @ from_utf8_lossy (drop n s))"
  by auto

termination
  by (relation "measure length") (auto simp: utf8_step_positive [OF sym])

declare from_utf8_lossy.simps [simp del]

text \<open>\<^verbatim>\<open>s.chars().take(n).collect()\<close>.\<close>

fun take_chars :: "nat \<Rightarrow> string \<Rightarrow> string" where
  "take_chars 0 s = []"
| "take_chars (Suc n) [] = []"
| "take_chars (Suc n) (c # cs) = c # takeWhile continues_char cs @ take_chars n (dropWhile continues_char cs)"

text \<open>The index of the first occurrence of a pattern, and \<^verbatim>\<open>str::lines\<close>: a carriage return counts in front of a line feed alone.\<close>

fun position_of :: "string \<Rightarrow> string \<Rightarrow> nat option" where
  "position_of pat [] = (if pat = [] then Some 0 else None)"
| "position_of pat (c # cs) = (if starts_with (c # cs) pat then Some 0 else map_option Suc (position_of pat cs))"

definition strip_cr :: "string \<Rightarrow> string" where
  "strip_cr l = (case strip_suffix [CHR 0x0D] l of None \<Rightarrow> l | Some l' \<Rightarrow> l')"

definition text_lines :: "string \<Rightarrow> string list" where
  "text_lines s =
     (let pieces = split_on (CHR 0x0A) s
      in map strip_cr (butlast pieces) @ (if last pieces = [] then [] else [last pieces]))"

section \<open>Answers\<close>

definition crlf :: string where
  "crlf = [CHR 0x0D, CHR 0x0A]"

record docker_response =
  dk_status :: nat
  dk_body :: string

definition is_success :: "docker_response \<Rightarrow> bool" where
  "is_success r = (200 \<le> dk_status r \<and> dk_status r < 300)"

definition dk_message :: "(string \<Rightarrow> string + json) \<Rightarrow> docker_response \<Rightarrow> string" where
  "dk_message parse r =
     (case (case parse (dk_body r) of Inl _ \<Rightarrow> None | Inr v \<Rightarrow> Option.bind (json_get v ''message'') json_str) of
        Some m \<Rightarrow> m
      | None \<Rightarrow> take_chars 200 (trim (from_utf8_lossy (dk_body r))))"

definition dk_json :: "(string \<Rightarrow> string + json) \<Rightarrow> string \<Rightarrow> docker_response \<Rightarrow> string + json" where
  "dk_json parse what r =
     (if \<not> is_success r
      then Inl (''Docker answered '' @ show_nat (dk_status r) @ '' to '' @ what @ '': '' @ dk_message parse r)
      else case parse (dk_body r) of
             Inl e \<Rightarrow> Inl (''unreadable '' @ what @ '': '' @ e)
           | Inr v \<Rightarrow> Inr v)"

text \<open>\<^verbatim>\<open>usize::from_str_radix(_, 16)\<close> on 64 bits: an optional plus sign, at least one digit, no overflow.\<close>

definition hex_value :: "char \<Rightarrow> nat option" where
  "hex_value c =
     (let n = (of_char c :: nat)
      in if 48 \<le> n \<and> n \<le> 57 then Some (n - 48)
         else if 65 \<le> n \<and> n \<le> 70 then Some (n - 55)
         else if 97 \<le> n \<and> n \<le> 102 then Some (n - 87)
         else None)"

fun parse_hex :: "nat \<Rightarrow> string \<Rightarrow> string + nat" where
  "parse_hex acc [] = Inr acc"
| "parse_hex acc (c # cs) =
     (case hex_value c of
        None \<Rightarrow> Inl ''invalid digit found in string''
      | Some d \<Rightarrow>
          if acc * 16 + d < 2 ^ 64 then parse_hex (acc * 16 + d) cs
          else Inl ''number too large to fit in target type'')"

definition from_str_radix_16 :: "string \<Rightarrow> string + nat" where
  "from_str_radix_16 s =
     (let digits = (case s of c # cs \<Rightarrow> if c = CHR ''+'' then cs else s | [] \<Rightarrow> [])
      in if s = [] then Inl ''cannot parse integer from empty string''
         else if digits = [] then Inl ''invalid digit found in string'' else parse_hex 0 digits)"

definition chunk_size :: "string \<Rightarrow> string + nat" where
  "chunk_size header =
     (let size_text = trim (hd (split_on (CHR '';'') (from_utf8_lossy header)))
      in case from_str_radix_16 size_text of
           Inl e \<Rightarrow> Inl (''invalid chunk size '' @ [CHR 0x27] @ size_text @ [CHR 0x27] @ '': '' @ e)
         | Inr n \<Rightarrow> Inr n)"

lemma position_of_Some:
  "position_of pat s = Some i \<Longrightarrow> i + length pat \<le> length s \<and> take (length pat) (drop i s) = pat"
proof (induction s arbitrary: i)
  case (Cons c s)
  show ?case
  proof (cases "starts_with (c # s) pat")
    case True
    then obtain t where "c # s = pat @ t" by (auto simp: starts_with_iff)
    moreover have "i = 0" using True Cons.prems by simp
    ultimately show ?thesis by simp
  next
    case False
    then show ?thesis using Cons by auto
  qed
qed (auto split: if_splits)

function dechunk :: "string \<Rightarrow> string \<Rightarrow> string + string" where
  "dechunk out rest =
     (case position_of crlf rest of
        None \<Rightarrow> Inl ''HTTP chunk without a line ending''
      | Some line_end \<Rightarrow>
          (case chunk_size (take line_end rest) of
             Inl e \<Rightarrow> Inl e
           | Inr n \<Rightarrow>
               let rest = drop (line_end + 2) rest
               in if n = 0 then Inr out
                  else if length rest < n
                  then Inl (''truncated HTTP chunk: '' @ show_nat n @ '' bytes expected, '' @ show_nat (length rest) @ '' received'')
                  else dechunk (out @ take n rest) (drop (n + 2) rest)))"
  by auto

termination
  by (relation "measure (\<lambda>(_, rest). length rest)") (auto dest!: position_of_Some simp: crlf_def)

declare dechunk.simps [simp del]

definition parse_u16 :: "string \<Rightarrow> nat option" where
  "parse_u16 s =
     (case parse_nat (case s of c # cs \<Rightarrow> if c = CHR ''+'' then cs else s | [] \<Rightarrow> []) of
        None \<Rightarrow> None
      | Some n \<Rightarrow> if n < 2 ^ 16 then Some n else None)"

definition status_of :: "string \<Rightarrow> nat option" where
  "status_of head =
     (case text_lines head of
        [] \<Rightarrow> None
      | line # _ \<Rightarrow> (case split_whitespace line of _ # code # _ \<Rightarrow> parse_u16 code | _ \<Rightarrow> None))"

definition is_chunked :: "string \<Rightarrow> bool" where
  "is_chunked head =
     list_ex (\<lambda>line.
        case split_once (CHR '':'') line of
          None \<Rightarrow> False
        | Some (name, val) \<Rightarrow>
            eq_ignore_ascii_case name ''transfer-encoding'' \<and> position_of ''chunked'' (map ascii_lower val) \<noteq> None)
       (drop 1 (text_lines head))"

definition parse_response :: "string \<Rightarrow> string + docker_response" where
  "parse_response response =
     (case position_of (crlf @ crlf) response of
        None \<Rightarrow> Inl ''truncated HTTP response: incomplete headers''
      | Some split \<Rightarrow>
          let head = from_utf8_lossy (take split response); body = drop (split + 4) response
          in case status_of head of
               None \<Rightarrow> Inl ''unreadable HTTP status line''
             | Some status \<Rightarrow>
                 (case (if is_chunked head then dechunk [] body else Inr body) of
                    Inl e \<Rightarrow> Inl e
                  | Inr body \<Rightarrow> Inr \<lparr>dk_status = status, dk_body = body\<rparr>))"

section \<open>Requests\<close>

definition API_VERSION :: string where
  "API_VERSION = ''/v1.41''"

definition READ_TIMEOUT :: duration where
  "READ_TIMEOUT = from_secs 3"

datatype docker_method = GET | POST | DELETE

fun method_text :: "docker_method \<Rightarrow> string" where
  "method_text GET = ''GET''"
| "method_text POST = ''POST''"
| "method_text DELETE = ''DELETE''"

record docker_request =
  dr_method :: docker_method
  dr_path :: string
  dr_body :: "string option"

text \<open>\<open>version\<close> is the version of the agent.\<close>

definition request_text :: "string \<Rightarrow> docker_request \<Rightarrow> string" where
  "request_text version q =
     method_text (dr_method q) @ '' '' @ API_VERSION @ dr_path q @ '' HTTP/1.1'' @ crlf @
     ''Host: localhost'' @ crlf @
     ''Accept: application/json'' @ crlf @
     ''User-Agent: dumbmonit-agent/'' @ version @ crlf @
     ''Connection: close'' @ crlf @
     (case dr_body q of
        Some json \<Rightarrow>
          ''Content-Type: application/json'' @ crlf @ ''Content-Length: '' @ show_nat (length json) @ crlf @ crlf @ json
      | None \<Rightarrow> if dr_method q = POST then ''Content-Length: 0'' @ crlf @ crlf else crlf)"

text \<open>
  The daemon takes the text of a request and gives back what the socket carried, or the error of the socket, with the
  time it took; the client waits no longer than its delay, whatever the daemon goes on doing.
\<close>

definition docker_send ::
  "string \<Rightarrow> (string \<Rightarrow> 'd \<Rightarrow> (string + string) \<times> duration \<times> 'd) \<Rightarrow> docker_request \<Rightarrow> duration \<Rightarrow> 'd \<Rightarrow>
     (string + docker_response) \<times> duration \<times> 'd" where
  "docker_send version daemon q timeout d =
     (case daemon (request_text version q) d of
        (raw, took, d') \<Rightarrow>
          if timeout < took
          then (Inl (''the Docker daemon did not answer '' @ method_text (dr_method q) @ '' '' @ dr_path q @ '' in time''), timeout, d')
          else ((case raw of Inl e \<Rightarrow> Inl e | Inr bytes \<Rightarrow> parse_response bytes), took, d'))"

section \<open>Properties\<close>

text \<open>A client waits no longer than its delay.\<close>

lemma docker_send_in_time: "docker_send version daemon q timeout d = (r, took, d') \<Longrightarrow> took \<le> timeout"
  by (auto simp: docker_send_def split: prod.splits if_splits)

lemma position_of_crlf: "position_of crlf h = None \<Longrightarrow> position_of crlf (h @ crlf @ r) = Some (length h)"
proof (induction h)
  case (Cons c h)
  then have "\<not> starts_with (c # h) crlf" "position_of crlf h = None" by (auto split: if_splits)
  moreover from this have "\<not> starts_with ((c # h) @ crlf @ r) crlf"
    by (cases h) (auto simp: crlf_def)
  ultimately show ?case using Cons.IH by simp
qed (simp add: crlf_def)

text \<open>
  A body cut into pieces as HTTP prescribes, each behind a line that gives its size, up to a piece of size zero, is put
  together again, whatever the extensions behind the sizes and whatever follows.
\<close>

fun chunk_text :: "string \<times> string \<Rightarrow> string" where
  "chunk_text (header, piece) = header @ crlf @ piece @ crlf"

fun chunk_ok :: "string \<times> string \<Rightarrow> bool" where
  "chunk_ok (header, piece) = (position_of crlf header = None \<and> chunk_size header = Inr (length piece))"

lemma dechunk_step:
  assumes "chunk_ok (header, piece)" "piece \<noteq> []"
  shows "dechunk out (chunk_text (header, piece) @ rest) = dechunk (out @ piece) rest"
proof -
  have "position_of crlf (header @ crlf @ piece @ crlf @ rest) = Some (length header)"
    using assms position_of_crlf by simp
  then show ?thesis
    using assms by (subst dechunk.simps) (simp add: crlf_def)
qed

lemma dechunk_last:
  assumes "position_of crlf header = None" "chunk_size header = Inr 0"
  shows "dechunk out (header @ crlf @ trailer) = Inr out"
  using assms position_of_crlf [of header trailer] by (subst dechunk.simps) simp

lemma dechunk_chunks:
  assumes "list_all (\<lambda>c. chunk_ok c \<and> snd c \<noteq> []) pieces" "position_of crlf end_header = None" "chunk_size end_header = Inr 0"
  shows "dechunk out (concat (map chunk_text pieces) @ end_header @ crlf @ trailer) = Inr (out @ concat (map snd pieces))"
  using assms(1)
proof (induction pieces arbitrary: out)
  case Nil
  then show ?case using assms by (simp add: dechunk_last)
next
  case (Cons c pieces)
  obtain header piece where c: "c = (header, piece)" by (cases c)
  then have "dechunk out (chunk_text c @ concat (map chunk_text pieces) @ end_header @ crlf @ trailer) =
      dechunk (out @ piece) (concat (map chunk_text pieces) @ end_header @ crlf @ trailer)"
    using Cons.prems by (simp add: dechunk_step del: chunk_text.simps chunk_ok.simps)
  then show ?case using Cons by (simp add: c)
qed

text \<open>The sizes as a server writes them.\<close>

lemma of_hex_char: "d < 16 \<Longrightarrow> (of_char (hex_char d) :: nat) = (if d < 10 then 48 + d else 87 + d)"
  by (simp add: hex_char_def)

lemma hex_value_hex_char: "d < 16 \<Longrightarrow> hex_value (hex_char d) = Some d"
  by (simp add: hex_value_def of_hex_char Let_def)

lemma hex_char_plain: "d < 16 \<Longrightarrow> plain_char (hex_char d) \<and> hex_char d \<noteq> CHR '';'' \<and> hex_char d \<noteq> CHR ''+'' \<and> hex_char d \<noteq> CHR 0x0D"
  using of_hex_char [of d] by (auto simp: plain_char_def Let_def split: if_splits)

lemma hex_digits_plain: "c \<in> set (hex_digits k n) \<Longrightarrow> plain_char c \<and> c \<noteq> CHR '';'' \<and> c \<noteq> CHR ''+'' \<and> c \<noteq> CHR 0x0D"
  by (induction k arbitrary: n) (auto simp: hex_char_plain)

lemma parse_hex_append:
  "parse_hex acc s = Inr m \<Longrightarrow> hex_value c = Some d \<Longrightarrow> m * 16 + d < 2 ^ 64 \<Longrightarrow> parse_hex acc (s @ [c]) = Inr (m * 16 + d)"
  by (induction s arbitrary: acc) (auto split: option.splits if_splits)

lemma parse_hex_digits: "n < 16 ^ k \<Longrightarrow> n < 2 ^ 64 \<Longrightarrow> parse_hex 0 (hex_digits k n) = Inr n"
proof (induction k arbitrary: n)
  case (Suc k)
  have "n div 16 < 16 ^ k" using Suc.prems by (simp add: less_mult_imp_div_less mult.commute)
  moreover have "n div 16 < 2 ^ 64" using Suc.prems(2) by simp
  ultimately have "parse_hex 0 (hex_digits k (n div 16)) = Inr (n div 16)" by (rule Suc.IH)
  then have "parse_hex 0 (hex_digits k (n div 16) @ [hex_char (n mod 16)]) = Inr (n div 16 * 16 + n mod 16)"
    by (rule parse_hex_append) (use Suc.prems in \<open>simp_all add: hex_value_hex_char\<close>)
  then show ?case by simp
qed simp

lemma lossy_ascii: "list_all (\<lambda>c. (of_char c :: nat) < 128) s \<Longrightarrow> from_utf8_lossy s = s"
proof (induction s)
  case (Cons c s)
  then have "utf8_step (c # s) = (True, 1)" by (simp add: utf8_step_def utf8_width_def Let_def)
  moreover have "from_utf8_lossy s = s" using Cons by simp
  ultimately show ?case by (subst from_utf8_lossy.simps) simp
qed (simp add: from_utf8_lossy.simps)

lemma split_on_without: "d \<notin> set s \<Longrightarrow> split_on d s = [s]"
  by (induction s) auto

lemma position_of_crlf_none: "CHR 0x0D \<notin> set s \<Longrightarrow> position_of crlf s = None"
  by (induction s) (auto simp: crlf_def)

lemma chunk_size_hex:
  assumes "n < 2 ^ 64"
  shows "chunk_size (hex_digits 16 n) = Inr n"
proof -
  let ?s = "hex_digits 16 n"
  have ne: "?s \<noteq> []" using length_hex_digits [of 16 n] by (metis list.size(3) zero_neq_numeral)
  have "list_all (\<lambda>c. (of_char c :: nat) < 128) ?s"
    using hex_digits_plain [of _ 16 n] by (fastforce simp: list_all_iff plain_char_def Let_def)
  then have "from_utf8_lossy ?s = ?s" by (rule lossy_ascii)
  moreover have "split_on (CHR '';'') ?s = [?s]" by (rule split_on_without) (use hex_digits_plain in blast)
  moreover have "trim ?s = ?s" using ne hex_digits_plain [OF hd_in_set [OF ne]] hex_digits_plain [OF last_in_set [OF ne]]
    by (intro trim_plain) simp
  moreover have "parse_hex 0 ?s = Inr n" using assms by (intro parse_hex_digits) simp_all
  moreover have "hd ?s \<noteq> CHR ''+''" using ne hex_digits_plain hd_in_set by blast
  ultimately show ?thesis using ne
    by (cases ?s) (simp_all add: chunk_size_def from_str_radix_16_def)
qed

definition encode_chunks :: "string list \<Rightarrow> string" where
  "encode_chunks pieces =
     concat (map (\<lambda>p. hex_digits 16 (length p) @ crlf @ p @ crlf) pieces) @ ''0'' @ crlf @ crlf"

lemma dechunk_encode_chunks:
  assumes "list_all (\<lambda>p. p \<noteq> [] \<and> length p < 2 ^ 64) pieces"
  shows "dechunk [] (encode_chunks pieces) = Inr (concat pieces)"
proof -
  let ?cs = "map (\<lambda>p. (hex_digits 16 (length p), p)) pieces"
  have "list_all (\<lambda>c. chunk_ok c \<and> snd c \<noteq> []) ?cs"
    using assms by (auto simp: list_all_iff chunk_size_hex dest: hex_digits_plain intro!: position_of_crlf_none)
  moreover have "position_of crlf ''0'' = None" by (simp add: crlf_def)
  moreover have "chunk_size ''0'' = Inr 0"
  proof -
    have "plain_char (CHR ''0'')" by (simp add: plain_char_def)
    then have "from_utf8_lossy ''0'' = ''0''" "trim ''0'' = ''0''" by (auto intro: lossy_ascii trim_plain)
    then show ?thesis by (simp add: chunk_size_def from_str_radix_16_def hex_value_def)
  qed
  ultimately have "dechunk [] (concat (map chunk_text ?cs) @ ''0'' @ crlf @ crlf) = Inr ([] @ concat (map snd ?cs))"
    by (rule dechunk_chunks)
  then show ?thesis by (simp add: encode_chunks_def comp_def)
qed

text \<open>Words between spaces, for a text of visible ASCII characters.\<close>

lemma words_from_plain: "plain_char c \<Longrightarrow> words_from w (c # cs) = words_from (c # w) cs"
  using no_white_prefix [of white_space "c # cs"] white_space_ends by (subst words_from.simps) simp

lemma words_from_space: "words_from w (CHR '' '' # cs) = (if w = [] then [] else [rev w]) @ words_from [] cs"
proof -
  have "find_map (\<lambda>w. if w = [] then None else strip_prefix w (CHR '' '' # cs)) white_space = Some cs"
    by (simp add: white_space_def strip_prefix_def char_of_def bit_0)
  then show ?thesis by (subst words_from.simps) simp
qed

lemma words_from_nil: "words_from w [] = (if w = [] then [] else [rev w])"
  using no_white_prefix [of white_space "[]"] white_space_ends by (subst words_from.simps) simp

definition chunked_head :: string where
  "chunked_head = ''HTTP/1.1 200 OK'' @ crlf @ ''Transfer-Encoding: chunked''"

lemma chunked_head_lines: "text_lines chunked_head = [''HTTP/1.1 200 OK'', ''Transfer-Encoding: chunked'']"
  by (simp add: text_lines_def chunked_head_def crlf_def strip_cr_def strip_suffix_def strip_prefix_def)

lemma chunked_head_read: "from_utf8_lossy chunked_head = chunked_head" "status_of chunked_head = Some 200" "is_chunked chunked_head"
proof -
  show "from_utf8_lossy chunked_head = chunked_head" by (rule lossy_ascii) (simp add: chunked_head_def crlf_def)
  have "parse_u16 ''200'' = Some 200" by (simp add: parse_u16_def parse_nat_def char_digit_def)
  then show "status_of chunked_head = Some 200"
    by (simp add: status_of_def chunked_head_lines split_whitespace_def words_from_plain words_from_space words_from_nil plain_char_def)
  show "is_chunked chunked_head"
    unfolding is_chunked_def chunked_head_lines by code_simp
qed

lemma chunked_head_position: "position_of (crlf @ crlf) (chunked_head @ crlf @ crlf @ rest) = Some (length chunked_head)"
  by (simp add: chunked_head_def crlf_def)


end
