(* ===== verification/Container_Spec.thy ===== *)
theory Container_Spec
  imports Docker_Client
begin

text \<open>
  What the agent accepts to do to a container, and the request that recreates one
  (\<^verbatim>\<open>crates/agent/src/commands.rs\<close>): the names it refuses, the excerpt of its log, the reading of the progress of a
  pull, the configuration that is kept from an inspection. A JSON object lists its entries by key, as
  \<^verbatim>\<open>serde_json::Map\<close> does.
\<close>

section \<open>JSON\<close>

fun json_array :: "json \<Rightarrow> json list option" where
  "json_array (JArray xs) = Some xs"
| "json_array _ = None"

fun json_object :: "json \<Rightarrow> (string \<times> json) list option" where
  "json_object (JObject m) = Some m"
| "json_object _ = None"

definition items_of :: "json \<Rightarrow> json list" where
  "items_of j = (case json_array j of None \<Rightarrow> [] | Some xs \<Rightarrow> xs)"

definition str_or :: "string \<Rightarrow> json \<Rightarrow> string" where
  "str_or d j = (case json_str j of None \<Rightarrow> d | Some s \<Rightarrow> s)"

definition map_remove :: "string \<Rightarrow> (string \<times> json) list \<Rightarrow> (string \<times> json) list" where
  "map_remove k m = filter (\<lambda>(j, _). j \<noteq> k) m"

section \<open>Actions\<close>

definition CONTAINER_RESERVED_PREFIXES :: "string list" where
  "CONTAINER_RESERVED_PREFIXES = [''dumbmonit'', ''ezymonit'']"

datatype container_action = Restart string | Update string bool

fun action_name :: "container_action \<Rightarrow> string" where
  "action_name (Restart name) = name"
| "action_name (Update name _) = name"

definition in_quotes :: "string \<Rightarrow> string" where
  "in_quotes s = [CHR 0x27] @ s @ [CHR 0x27]"

definition is_reserved :: "string \<Rightarrow> bool" where
  "is_reserved name =
     list_ex (starts_with (map ascii_lower (dropWhile (\<lambda>c. c = CHR ''/'') name))) CONTAINER_RESERVED_PREFIXES"

definition refuse_reserved :: "string \<Rightarrow> string + unit" where
  "refuse_reserved name =
     (if is_reserved name then Inl (in_quotes name @ '' belongs to the monitoring stack and cannot be managed remotely'')
      else Inr ())"

definition rest_char :: "char \<Rightarrow> bool" where
  "rest_char c = (is_ascii_alphanumeric c \<or> c = CHR ''_'' \<or> c = CHR ''.'' \<or> c = CHR ''-'')"

definition validate_container_name :: "string \<Rightarrow> string + unit" where
  "validate_container_name name =
     (if name = [] \<or> \<not> is_ascii_alphanumeric (hd name) \<or> \<not> list_all rest_char (tl name) \<or> length name > 128
      then Inl (''invalid container name '' @ in_quotes name)
      else refuse_reserved name)"

definition action_from_command :: "agent_command \<Rightarrow> string + container_action" where
  "action_from_command command =
     (case arg_str command ''name'' of
        None \<Rightarrow> Inl ''missing container name''
      | Some name \<Rightarrow>
          (case validate_container_name name of
             Inl why \<Rightarrow> Inl why
           | Inr _ \<Rightarrow>
               if ac_kind command = CMD_CONTAINER_RESTART then Inr (Restart name)
               else if ac_kind command = CMD_CONTAINER_UPDATE
               then Inr (Update name (case arg_bool command ''prune'' of None \<Rightarrow> True | Some b \<Rightarrow> b))
               else Inl (''unknown command kind '' @ in_quotes (ac_kind command))))"

definition is_hex_char :: "char \<Rightarrow> bool" where
  "is_hex_char c =
     (let n = (of_char c :: nat) in (48 \<le> n \<and> n \<le> 57) \<or> (65 \<le> n \<and> n \<le> 70) \<or> (97 \<le> n \<and> n \<le> 102))"

text \<open>
  The container the process runs in, read in the text of \<^verbatim>\<open>/proc/self/cgroup\<close> where it can be read: the last segment of
  the path of a line, without what decorates it.
\<close>

function trim_end_text :: "string \<Rightarrow> string \<Rightarrow> string" where
  "trim_end_text pat s =
     (if pat = [] then s else case strip_suffix pat s of None \<Rightarrow> s | Some r \<Rightarrow> trim_end_text pat r)"
  by auto

termination
  by (relation "measure (\<lambda>(_, s). length s)") (auto simp: strip_suffix_Some)

declare trim_end_text.simps [simp del]

definition cgroup_line_id :: "string \<Rightarrow> string option" where
  "cgroup_line_id line =
     (let path = last (split_on (CHR '':'') line);
          segment = last (split_on (CHR ''/'') path);
          i = last (split_on (CHR ''-'') (trim_end_text ''.scope'' segment))
      in if length i = 64 \<and> list_all is_hex_char i then Some i else None)"

definition self_container_id :: "string option \<Rightarrow> string option" where
  "self_container_id cgroup =
     (case cgroup of None \<Rightarrow> None | Some content \<Rightarrow> find_map cgroup_line_id (text_lines content))"

text \<open>The container the daemon designates, and the one the agent runs in, if it runs in one.\<close>

definition refuse_reserved_container :: "string option \<Rightarrow> json \<Rightarrow> string \<Rightarrow> string + unit" where
  "refuse_reserved_container own inspected asked =
     (let name = str_or [] (json_at inspected ''Name'')
      in if is_reserved name
         then Inl (in_quotes asked @ '' is the monitoring container '' @ dropWhile (\<lambda>c. c = CHR ''/'') name @
                '' and cannot be managed remotely'')
         else if own \<noteq> None \<and> json_str (json_at inspected ''Id'') = own
         then Inl (in_quotes asked @ '' is this agent'' @ [CHR 0x27] @ ''s own container: it cannot restart or replace itself'')
         else Inr ())"

section \<open>Log\<close>

text \<open>The ellipsis is three bytes long.\<close>

definition ellipsis :: string where
  "ellipsis = [CHR 0xE2, CHR 0x80, CHR 0xA6]"

fun join_lines :: "string list \<Rightarrow> string" where
  "join_lines [] = []"
| "join_lines [l] = l"
| "join_lines (l # ls) = l @ [CHR 0x0A] @ join_lines ls"

definition excerpt :: "string list \<Rightarrow> string" where
  "excerpt lines =
     (let full = join_lines lines
      in if length full \<le> COMMAND_RESULT_MAX_BYTES then full
         else ellipsis @ drop_to_boundary (length full - COMMAND_RESULT_MAX_BYTES + 1) full)"

section \<open>Pull\<close>

text \<open>\<open>events\<close> are the values of the stream up to the first that cannot be read.\<close>

fun pull_events :: "json list \<Rightarrow> string option \<Rightarrow> string + string" where
  "pull_events [] last_status = Inr (case last_status of None \<Rightarrow> ''pulled'' | Some s \<Rightarrow> s)"
| "pull_events (e # es) last_status =
     (case Option.bind (json_get e ''error'') json_str of
        Some error \<Rightarrow>
          Inl (''pull failed: '' @ str_or error (json_at (json_at e ''errorDetail'') ''message''))
      | None \<Rightarrow>
          pull_events es
            (case Option.bind (json_get e ''status'') json_str of Some s \<Rightarrow> Some s | None \<Rightarrow> last_status))"

definition pull_outcome :: "json list \<Rightarrow> string + string" where
  "pull_outcome events = pull_events events None"

section \<open>Names in requests\<close>

definition looks_like_an_image_id :: "string \<Rightarrow> bool" where
  "looks_like_an_image_id reference =
     (starts_with reference ''sha256:'' \<or> (length reference = 64 \<and> list_all is_hex_char reference))"

definition short_id :: "string \<Rightarrow> string" where
  "short_id i =
     (let i = (case strip_prefix ''sha256:'' i of None \<Rightarrow> i | Some r \<Rightarrow> r)
      in if length i < 12 \<or> (length i > 12 \<and> continues_char (i ! 12)) then i else take 12 i)"

definition unreserved_char :: "char \<Rightarrow> bool" where
  "unreserved_char c = (is_ascii_alphanumeric c \<or> c \<in> set ''-_.~'')"

definition encode_query :: "string \<Rightarrow> string" where
  "encode_query s =
     concat (map (\<lambda>c. if unreserved_char c then [c] else CHR ''%'' # map ascii_upper (hex_digits 2 (of_char c))) s)"

definition is_our_previous :: "json \<Rightarrow> json \<Rightarrow> bool" where
  "is_our_previous stale current =
     (json_at (json_at stale ''Config'') ''Image'' = json_at (json_at current ''Config'') ''Image'' \<and>
      json_at (json_at stale ''Config'') ''Labels'' = json_at (json_at current ''Config'') ''Labels'')"

section \<open>Recreation\<close>

record create_spec =
  sp_body :: json
  sp_extra_networks :: "(string \<times> json) list"

definition subtract_key :: "json \<Rightarrow> string \<Rightarrow> (string \<times> json) list \<Rightarrow> (string \<times> json) list" where
  "subtract_key img key config =
     (case json_get img key of
        None \<Rightarrow> config
      | Some from_image \<Rightarrow>
          if from_image = JNull then config
          else (case map_of config key of
                  Some (JArray entries) \<Rightarrow>
                    bt_insert key (JArray (filter (\<lambda>e. e \<notin> set (items_of from_image)) entries)) config
                | Some (JObject entries) \<Rightarrow>
                    (case json_object from_image of
                       None \<Rightarrow> config
                     | Some inherited \<Rightarrow>
                         bt_insert key (JObject (filter (\<lambda>(k, v). map_of inherited k \<noteq> Some v) entries)) config)
                | _ \<Rightarrow> config))"

definition subtract_choice :: "json \<Rightarrow> string \<Rightarrow> (string \<times> json) list \<Rightarrow> (string \<times> json) list" where
  "subtract_choice img key config =
     (case json_get img key of
        None \<Rightarrow> config
      | Some from_image \<Rightarrow> if map_of config key = Some from_image then map_remove key config else config)"

definition subtract_image_defaults :: "(string \<times> json) list \<Rightarrow> json \<Rightarrow> (string \<times> json) list" where
  "subtract_image_defaults config img =
     fold (subtract_choice img) [''Cmd'', ''Entrypoint'', ''WorkingDir'', ''User'']
       (fold (subtract_key img) [''Env'', ''ExposedPorts'', ''Volumes'', ''Labels''] config)"

definition keep_alias :: "string \<Rightarrow> json list \<Rightarrow> json \<Rightarrow> json list" where
  "keep_alias short acc alias_value =
     (case json_str alias_value of
        None \<Rightarrow> acc
      | Some a \<Rightarrow> if a = short \<or> JString a \<in> set acc then acc else acc @ [JString a])"

definition keep_endpoint_key :: "json \<Rightarrow> string \<Rightarrow> (string \<times> json) list \<Rightarrow> (string \<times> json) list" where
  "keep_endpoint_key endpoint key out =
     (case json_get endpoint key of
        None \<Rightarrow> out
      | Some v \<Rightarrow> if v = JNull then out else bt_insert key v out)"

definition clean_endpoint :: "json \<Rightarrow> string \<Rightarrow> json" where
  "clean_endpoint endpoint short =
     (let aliases = foldl (keep_alias short) [] (items_of (json_at endpoint ''Aliases''));
          out = (if aliases = [] then [] else bt_insert ''Aliases'' (JArray aliases) [])
      in JObject (fold (keep_endpoint_key endpoint) [''IPAMConfig'', ''Links'', ''DriverOpts''] out))"

text \<open>What the binds and the mounts of the configuration already cover, and the anonymous volumes to attach again.\<close>

definition bind_target :: "json \<Rightarrow> string option" where
  "bind_target bind =
     (case json_str bind of
        None \<Rightarrow> None
      | Some s \<Rightarrow> (case split_on (CHR '':'') s of _ # d # _ \<Rightarrow> Some d | _ \<Rightarrow> None))"

definition covered_targets :: "(string \<times> json) list \<Rightarrow> json list \<Rightarrow> string list" where
  "covered_targets host_config binds =
     List.map_filter bind_target binds @
     List.map_filter (\<lambda>m. json_str (json_at m ''Target''))
       (case map_of host_config ''Mounts'' of None \<Rightarrow> [] | Some m \<Rightarrow> items_of m)"

definition anonymous_bind :: "string list \<Rightarrow> json \<Rightarrow> json option" where
  "anonymous_bind covered mount =
     (case (json_str (json_at mount ''Name''), json_str (json_at mount ''Destination'')) of
        (Some volume, Some destination) \<Rightarrow>
          if json_str (json_at mount ''Type'') \<noteq> Some ''volume'' \<or> volume = [] \<or> destination \<in> set covered then None
          else Some (JString (volume @ '':'' @ destination @
                  (if json_bool (json_at mount ''RW'') = Some False then '':ro'' else [])))
      | _ \<Rightarrow> None)"

definition all_binds :: "json \<Rightarrow> (string \<times> json) list \<Rightarrow> json list" where
  "all_binds inspected host_config =
     (let binds = (case map_of host_config ''Binds'' of None \<Rightarrow> [] | Some b \<Rightarrow> items_of b)
      in binds @ List.map_filter (anonymous_bind (covered_targets host_config binds)) (items_of (json_at inspected ''Mounts'')))"

definition kept_config :: "json \<Rightarrow> json option \<Rightarrow> (string \<times> json) list \<Rightarrow> (string \<times> json) list" where
  "kept_config inspected old_image_config config =
     (let config = (case old_image_config of None \<Rightarrow> config | Some img \<Rightarrow> subtract_image_defaults config img)
      in if Option.bind (map_of config ''Hostname'') json_str = Some (short_id (str_or [] (json_at inspected ''Id'')))
         then map_remove ''Hostname'' config else config)"

definition kept_networks :: "json \<Rightarrow> (string \<times> json) list" where
  "kept_networks inspected =
     (case json_object (json_at (json_at inspected ''NetworkSettings'') ''Networks'') of
        None \<Rightarrow> []
      | Some m \<Rightarrow> map (\<lambda>(network, endpoint). (network, clean_endpoint endpoint (short_id (str_or [] (json_at inspected ''Id''))))) m)"

definition spec_from_inspect :: "json \<Rightarrow> json option \<Rightarrow> string + create_spec" where
  "spec_from_inspect inspected old_image_config =
     (case json_object (json_at inspected ''Config'') of
        None \<Rightarrow> Inl ''inspection without a Config block''
      | Some config \<Rightarrow>
          (case json_object (json_at inspected ''HostConfig'') of
             None \<Rightarrow> Inl ''inspection without a HostConfig block''
           | Some host_config \<Rightarrow>
               let binds = all_binds inspected host_config;
                   host_config = (if binds = [] then host_config else bt_insert ''Binds'' (JArray binds) host_config);
                   networks = kept_networks inspected
               in Inr \<lparr>sp_body = JObject (bt_insert ''NetworkingConfig''
                           (JObject [(''EndpointsConfig'', JObject (take 1 networks))])
                           (bt_insert ''HostConfig'' (JObject host_config) (kept_config inspected old_image_config config))),
                       sp_extra_networks = drop 1 networks\<rparr>))"

section \<open>Properties\<close>

text \<open>The log that is reported may be two bytes longer than what the server keeps, and is then cut again.\<close>

lemma excerpt_length: "length (excerpt lines) \<le> COMMAND_RESULT_MAX_BYTES + 2"
proof -
  let ?s = "length (join_lines lines) - COMMAND_RESULT_MAX_BYTES + 1"
  have "length (drop_to_boundary ?s (join_lines lines)) \<le> length (join_lines lines) - ?s"
    by (rule drop_to_boundary_length)
  then show ?thesis by (auto simp: excerpt_def Let_def ellipsis_def COMMAND_RESULT_MAX_BYTES_def)
qed

lemma bt_wf_remove: "bt_wf m \<Longrightarrow> bt_wf (map_remove k m)"
  unfolding bt_wf_def map_remove_def by (simp add: sorted_wrt_map sorted_wrt_filter)

lemma bt_wf_subtract_key: "bt_wf m \<Longrightarrow> bt_wf (subtract_key img k m)"
  by (simp add: subtract_key_def bt_wf_insert split: option.split json.split)

lemma bt_wf_subtract_choice: "bt_wf m \<Longrightarrow> bt_wf (subtract_choice img k m)"
  by (simp add: subtract_choice_def bt_wf_remove split: option.split)

lemma bt_wf_kept_config: "bt_wf m \<Longrightarrow> bt_wf (kept_config inspected img m)"
  by (simp add: kept_config_def Let_def subtract_image_defaults_def bt_wf_remove bt_wf_subtract_key bt_wf_subtract_choice
      split: option.split)

text \<open>
  The host configuration of the new container is that of the old one, its binds completed: nothing the user asked for is
  lost, and every volume that was attached without a name of the user's is attached again, unless something else is attached
  at its place.
\<close>

lemma new_host_config:
  assumes "spec_from_inspect inspected img = Inr sp" "json_object (json_at inspected ''Config'') = Some config"
    "json_object (json_at inspected ''HostConfig'') = Some host" "bt_wf config"
  shows "json_at (sp_body sp) ''HostConfig'' =
    JObject (if all_binds inspected host = [] then host else bt_insert ''Binds'' (JArray (all_binds inspected host)) host)"
proof -
  have wf: "bt_wf (kept_config inspected img config)" using assms(4) by (rule bt_wf_kept_config)
  show ?thesis
    using assms(1-3)
    by (auto simp: spec_from_inspect_def Let_def json_at_def map_of_bt_insert [OF bt_wf_insert [OF wf]] map_of_bt_insert [OF wf])
qed

lemma in_map_filter: "y \<in> set (List.map_filter f xs) \<longleftrightarrow> (\<exists>x \<in> set xs. f x = Some y)"
  by (induction xs) (auto simp: List.map_filter_simps split: option.splits)

lemma volumes_kept:
  assumes "spec_from_inspect inspected img = Inr sp" "json_object (json_at inspected ''Config'') = Some config"
    "json_object (json_at inspected ''HostConfig'') = Some host" "bt_wf config" "bt_wf host"
    and m: "m \<in> set (items_of (json_at inspected ''Mounts''))" "json_str (json_at m ''Type'') = Some ''volume''"
      "json_str (json_at m ''Name'') = Some v" "v \<noteq> []" "json_str (json_at m ''Destination'') = Some d"
  shows "d \<in> set (covered_targets host (case map_of host ''Binds'' of None \<Rightarrow> [] | Some b \<Rightarrow> items_of b)) \<or>
    (\<exists>mode \<in> {[], '':ro''}. JString (v @ '':'' @ d @ mode) \<in> set (items_of (json_at (json_at (sp_body sp) ''HostConfig'') ''Binds'')))"
proof (cases "d \<in> set (covered_targets host (case map_of host ''Binds'' of None \<Rightarrow> [] | Some b \<Rightarrow> items_of b))")
  case False
  define mode where "mode = (if json_bool (json_at m ''RW'') = Some False then '':ro'' else [])"
  have "anonymous_bind (covered_targets host (case map_of host ''Binds'' of None \<Rightarrow> [] | Some b \<Rightarrow> items_of b)) m = Some (JString (v @ '':'' @ d @ mode))"
    using m(2-5) False by (simp add: anonymous_bind_def mode_def)
  then have "JString (v @ '':'' @ d @ mode) \<in> set (all_binds inspected host)"
    using m(1) by (auto simp: all_binds_def Let_def in_map_filter)
  then have mode: "mode \<in> {[], '':ro''}" "JString (v @ '':'' @ d @ mode) \<in> set (all_binds inspected host)"
    by (simp_all add: mode_def)
  then have "all_binds inspected host \<noteq> []" by auto
  then have "items_of (json_at (json_at (sp_body sp) ''HostConfig'') ''Binds'') = all_binds inspected host"
    using new_host_config [OF assms(1-4)] assms(5) by (simp add: json_at_def [of _ "''Binds''"] map_of_bt_insert items_of_def)
  then show ?thesis using mode by auto
qed simp

end
