(* ===== verification/Container_Update.thy ===== *)
theory Container_Update
  imports Container_Spec
begin

text \<open>
  The actions on containers (\<^verbatim>\<open>crates/agent/src/commands.rs\<close>): restart, update with the old container kept aside until the
  new one stands, rollback, and the execution of a command with its reports. The daemon is a parameter; the calls
  it received are recorded with their answers, in order.
\<close>

section \<open>Constants\<close>

definition PREVIOUS_SUFFIX :: string where
  "PREVIOUS_SUFFIX = ''.previous''"

definition STOP_GRACE_SECS :: nat where
  "STOP_GRACE_SECS = 30"

definition RESTART_GRACE_SECS :: nat where
  "RESTART_GRACE_SECS = 10"

definition API_TIMEOUT :: duration where
  "API_TIMEOUT = from_secs 30"

definition PULL_TIMEOUT :: duration where
  "PULL_TIMEOUT = from_secs 600"

definition HEALTH_WAIT :: duration where
  "HEALTH_WAIT = from_secs 120"

definition SETTLE_WAIT :: duration where
  "SETTLE_WAIT = from_secs 10"

definition HEALTH_POLL :: duration where
  "HEALTH_POLL = from_secs 2"

section \<open>The daemon and the state of an execution\<close>

text \<open>
  What stands outside: the daemon, the version of the agent, the reading of a JSON text, of a stream of JSON texts (up to
  the first that cannot be read) and of an integer, the writing of JSON, the text of \<^verbatim>\<open>/proc/self/cgroup\<close>, and how much
  longer than asked a pause lasts.
\<close>

record 'd docker_world =
  dw_daemon :: "string \<Rightarrow> 'd \<Rightarrow> (string + string) \<times> duration \<times> 'd"
  dw_version :: string
  dw_parse :: "string \<Rightarrow> string + json"
  dw_stream :: "string \<Rightarrow> json list"
  dw_as_i64 :: "json \<Rightarrow> int option"
  dw_to_string :: "json \<Rightarrow> string"
  dw_cgroup :: "string option"
  dw_oversleep :: "'d \<Rightarrow> duration"

type_synonym docker_call = "docker_request \<times> (string + docker_response)"

record 'd docker_run =
  du_daemon :: 'd
  du_now :: instant
  du_calls :: "docker_call list"
  du_log :: "string list"
  du_reports :: "(int \<times> command_report) list"

type_synonym ('d, 'a) docker_action = "('d docker_run, string, 'a) action"

definition docker_call :: "'d docker_world \<Rightarrow> docker_request \<Rightarrow> duration \<Rightarrow> ('d, docker_response) docker_action" where
  "docker_call W q timeout s =
     (case docker_send (dw_version W) (dw_daemon W) q timeout (du_daemon s) of
        (r, took, d) \<Rightarrow> (r, s\<lparr>du_daemon := d, du_now := du_now s + int took, du_calls := du_calls s @ [(q, r)]\<rparr>))"

definition log_line :: "string \<Rightarrow> ('d, unit) docker_action" where
  "log_line l = write_a (\<lambda>s. s\<lparr>du_log := du_log s @ [l]\<rparr>)"

text \<open>\<^verbatim>\<open>anyhow::Context\<close>, as \<^verbatim>\<open>{error:#}\<close> shows it.\<close>

definition context_a :: "string \<Rightarrow> ('s, string, 'a) action \<Rightarrow> ('s, string, 'a) action" where
  "context_a what m s = (case m s of (Inl e, t) \<Rightarrow> (Inl (what @ '': '' @ e), t) | (Inr x, t) \<Rightarrow> (Inr x, t))"

section \<open>Requests\<close>

definition inspect_request :: "string \<Rightarrow> docker_request" where
  "inspect_request name = \<lparr>dr_method = GET, dr_path = ''/containers/'' @ name @ ''/json'', dr_body = None\<rparr>"

definition inspect_image_request :: "string \<Rightarrow> docker_request" where
  "inspect_image_request reference = \<lparr>dr_method = GET, dr_path = ''/images/'' @ reference @ ''/json'', dr_body = None\<rparr>"

definition restart_request :: "string \<Rightarrow> docker_request" where
  "restart_request name =
     \<lparr>dr_method = POST, dr_path = ''/containers/'' @ name @ ''/restart?t='' @ show_nat RESTART_GRACE_SECS, dr_body = None\<rparr>"

definition pull_request :: "string \<Rightarrow> docker_request" where
  "pull_request reference =
     \<lparr>dr_method = POST, dr_path = ''/images/create?fromImage='' @ encode_query reference, dr_body = None\<rparr>"

definition rename_request :: "string \<Rightarrow> string \<Rightarrow> docker_request" where
  "rename_request i name =
     \<lparr>dr_method = POST, dr_path = ''/containers/'' @ i @ ''/rename?name='' @ name, dr_body = None\<rparr>"

definition create_request :: "string \<Rightarrow> string \<Rightarrow> docker_request" where
  "create_request name body =
     \<lparr>dr_method = POST, dr_path = ''/containers/create?name='' @ name, dr_body = Some body\<rparr>"

definition connect_request :: "string \<Rightarrow> string \<Rightarrow> docker_request" where
  "connect_request network body =
     \<lparr>dr_method = POST, dr_path = ''/networks/'' @ network @ ''/connect'', dr_body = Some body\<rparr>"

definition start_request :: "string \<Rightarrow> docker_request" where
  "start_request i = \<lparr>dr_method = POST, dr_path = ''/containers/'' @ i @ ''/start'', dr_body = None\<rparr>"

definition stop_request :: "string \<Rightarrow> docker_request" where
  "stop_request i =
     \<lparr>dr_method = POST, dr_path = ''/containers/'' @ i @ ''/stop?t='' @ show_nat STOP_GRACE_SECS, dr_body = None\<rparr>"

definition remove_request :: "string \<Rightarrow> docker_request" where
  "remove_request i = \<lparr>dr_method = DELETE, dr_path = ''/containers/'' @ i @ ''?force=1&v=0'', dr_body = None\<rparr>"

definition remove_image_request :: "string \<Rightarrow> docker_request" where
  "remove_image_request i = \<lparr>dr_method = DELETE, dr_path = ''/images/'' @ i, dr_body = None\<rparr>"

section \<open>Steps\<close>

definition check_response :: "'d docker_world \<Rightarrow> docker_response \<Rightarrow> string \<Rightarrow> ('d, unit) docker_action" where
  "check_response W r what =
     (if is_success r then return_a ()
      else fail_a (''Docker refused the '' @ what @ '' ('' @ show_nat (dk_status r) @ ''): '' @ dk_message (dw_parse W) r))"

definition inspect :: "'d docker_world \<Rightarrow> string \<Rightarrow> ('d, json) docker_action" where
  "inspect W name =
     bind_a (docker_call W (inspect_request name) READ_TIMEOUT) (\<lambda>r.
       if dk_status r = 404 then fail_a (''no container named '' @ name)
       else bind_a (lift_a (dk_json (dw_parse W) ''container inspection'' r)) (\<lambda>v.
         then_a (lift_a (refuse_reserved_container (self_container_id (dw_cgroup W)) v name)) (return_a v)))"

definition inspect_image :: "'d docker_world \<Rightarrow> string \<Rightarrow> ('d, json) docker_action" where
  "inspect_image W reference =
     bind_a (docker_call W (inspect_image_request reference) READ_TIMEOUT) (\<lambda>r.
       lift_a (dk_json (dw_parse W) ''image inspection'' r))"

definition stop_container :: "'d docker_world \<Rightarrow> string \<Rightarrow> string \<Rightarrow> ('d, unit) docker_action" where
  "stop_container W i what =
     bind_a (docker_call W (stop_request i) (API_TIMEOUT + from_secs STOP_GRACE_SECS)) (\<lambda>r.
       if \<not> is_success r \<and> dk_status r \<noteq> 304
       then fail_a (''cannot stop the '' @ what @ '': '' @ dk_message (dw_parse W) r)
       else log_line (''stopped the '' @ what))"

definition remove_container :: "'d docker_world \<Rightarrow> string \<Rightarrow> string \<Rightarrow> ('d, unit) docker_action" where
  "remove_container W i what =
     bind_a (attempt_a (docker_call W (remove_request i) (API_TIMEOUT + from_secs STOP_GRACE_SECS))) (\<lambda>r.
       case r of
         Inl e \<Rightarrow> log_line (''cannot remove the '' @ what @ '': '' @ e)
       | Inr r \<Rightarrow>
           if is_success r \<or> dk_status r = 404 then log_line (''removed the '' @ what)
           else log_line (''cannot remove the '' @ what @ '': '' @ dk_message (dw_parse W) r))"

definition prune_image :: "'d docker_world \<Rightarrow> string \<Rightarrow> ('d, unit) docker_action" where
  "prune_image W i =
     bind_a (attempt_a (docker_call W (remove_image_request i) API_TIMEOUT)) (\<lambda>r.
       case r of
         Inl e \<Rightarrow> log_line (''old image kept: '' @ e)
       | Inr r \<Rightarrow>
           if is_success r then log_line (''removed the old image '' @ short_id i)
           else if dk_status r = 409 then log_line (''old image '' @ short_id i @ '' kept: still in use'')
           else log_line (''old image kept: '' @ dk_message (dw_parse W) r))"

definition pull :: "'d docker_world \<Rightarrow> string \<Rightarrow> ('d, unit) docker_action" where
  "pull W reference =
     bind_a (context_a ''pulling the image'' (docker_call W (pull_request reference) PULL_TIMEOUT)) (\<lambda>r.
       then_a (check_response W r ''pull'')
         (bind_a (lift_a (pull_outcome (dw_stream W (dk_body r)))) log_line))"

section \<open>Health\<close>

definition json_running :: "json \<Rightarrow> bool" where
  "json_running v = (json_bool (json_at (json_at v ''State'') ''Running'') = Some True)"

definition health_status :: "json \<Rightarrow> string option" where
  "health_status v = json_str (json_at (json_at (json_at v ''State'') ''Health'') ''Status'')"

definition not_running_message :: "'d docker_world \<Rightarrow> json \<Rightarrow> string" where
  "not_running_message W v =
     (let state = json_at v ''State''
      in ''container is not running (status '' @ str_or ''unknown'' (json_at state ''Status'') @ '', exit code '' @
         show_int (case dw_as_i64 W (json_at state ''ExitCode'') of None \<Rightarrow> - 1 | Some n \<Rightarrow> n) @ '')'')"

text \<open>One round of the wait: whether it is over.\<close>

definition health_round :: "'d docker_world \<Rightarrow> string \<Rightarrow> instant \<Rightarrow> ('d, bool) docker_action" where
  "health_round W i started =
     bind_a (inspect W i) (\<lambda>v.
       if \<not> json_running v then fail_a (not_running_message W v)
       else bind_a (read_a du_now) (\<lambda>now.
         let elapsed = duration_since now started
         in case health_status v of
              None \<Rightarrow>
                if elapsed \<ge> int SETTLE_WAIT then then_a (log_line ''running (no healthcheck)'') (return_a True)
                else return_a False
            | Some h \<Rightarrow>
                if h = ''healthy'' then then_a (log_line ''healthy'') (return_a True)
                else if h = ''unhealthy'' then fail_a ''container reports unhealthy''
                else if elapsed \<ge> int HEALTH_WAIT
                then fail_a (''container still not healthy after '' @ show_int (num_seconds (int HEALTH_WAIT)) @ '' s'')
                else return_a False))"

definition health_pause :: "'d docker_world \<Rightarrow> 'd docker_run \<Rightarrow> 'd docker_run" where
  "health_pause W s = s\<lparr>du_now := du_now s + int (HEALTH_POLL + dw_oversleep W (du_daemon s))\<rparr>"

lemma keeps_docker_call_time: "keeps_a (\<lambda>t. n \<le> du_now t) (docker_call W q timeout)"
  by (auto simp: keeps_a_def docker_call_def split: prod.split)

lemma keeps_inspect_time: "keeps_a (\<lambda>t. n \<le> du_now t) (inspect W name)"
  unfolding inspect_def by (intro keeps_intros keeps_docker_call_time)

lemma inspect_time: "du_now s \<le> du_now (snd (inspect W name s))"
  using keepsD_a [OF keeps_inspect_time] by blast

lemma health_round_time:
  assumes "health_round W i started s = (r, t)"
  shows "du_now s \<le> du_now t" "r = Inr False \<Longrightarrow> du_now t - started < int HEALTH_WAIT"
proof -
  obtain a u where a: "inspect W i s = (a, u)" by (cases "inspect W i s")
  then have u: "du_now s \<le> du_now u" using inspect_time [of s W i] by simp
  have "du_now t = du_now u \<and> (r = Inr False \<longrightarrow> duration_since (du_now u) started < int HEALTH_WAIT)"
    using assms a
    by (auto simp: health_round_def action_defs log_line_def Let_def SETTLE_WAIT_def HEALTH_WAIT_def from_secs_def
        split: sum.splits option.splits if_splits)
  then show "du_now s \<le> du_now t" "r = Inr False \<Longrightarrow> du_now t - started < int HEALTH_WAIT"
    using u by (auto simp: duration_since_def)
qed

lemma health_pause_decreases:
  assumes "health_round W i started s = (Inr False, t)"
  shows "nat (started + int HEALTH_WAIT - du_now (health_pause W t)) < nat (started + int HEALTH_WAIT - du_now s)"
  using health_round_time [OF assms] by (simp add: health_pause_def HEALTH_POLL_def from_secs_def)

text \<open>The wait ends: a round is the last once two minutes have passed, and two seconds at least pass between two rounds.\<close>

function wait_rounds :: "'d docker_world \<Rightarrow> string \<Rightarrow> instant \<Rightarrow> ('d, unit) docker_action" where
  "wait_rounds W i started s =
     (case health_round W i started s of
        (Inl e, t) \<Rightarrow> (Inl e, t)
      | (Inr over, t) \<Rightarrow> if over then (Inr (), t) else wait_rounds W i started (health_pause W t))"
  by auto

termination
  by (relation "measure (\<lambda>(W, i, started, s). nat (started + int HEALTH_WAIT - du_now s))")
    (auto dest!: sym [where s = "(_, _)"] health_pause_decreases)

declare wait_rounds.simps [simp del]

definition wait_until_healthy :: "'d docker_world \<Rightarrow> string \<Rightarrow> ('d, unit) docker_action" where
  "wait_until_healthy W i = bind_a (read_a du_now) (wait_rounds W i)"

section \<open>Actions\<close>

definition image_of :: "json \<Rightarrow> json" where
  "image_of v = json_at (json_at v ''Config'') ''Image''"

definition restart_container :: "'d docker_world \<Rightarrow> string \<Rightarrow> ('d, unit) docker_action" where
  "restart_container W name =
     bind_a (inspect W name) (\<lambda>before.
       then_a (log_line (''restarting '' @ name @ '' ('' @ str_or ''unknown image'' (image_of before) @ '')''))
         (then_a
           (bind_a (docker_call W (restart_request name) (API_TIMEOUT + from_secs RESTART_GRACE_SECS))
             (\<lambda>r. check_response W r ''restart''))
           (wait_until_healthy W name)))"

definition remove_stale_previous :: "'d docker_world \<Rightarrow> string \<Rightarrow> json \<Rightarrow> ('d, unit) docker_action" where
  "remove_stale_previous W previous_name current =
     bind_a (docker_call W (inspect_request previous_name) READ_TIMEOUT) (\<lambda>r.
       if dk_status r = 404 then return_a ()
       else bind_a (lift_a (dk_json (dw_parse W) ''container inspection'' r)) (\<lambda>stale.
         if \<not> is_our_previous stale current
         then fail_a (''a container named '' @ previous_name @ '' already exists and is not ours'')
         else then_a (log_line (''removing '' @ previous_name @ '' left by an earlier update''))
           (remove_container W (str_or previous_name (json_at stale ''Id'')) previous_name)))"

text \<open>\<open>connect_network\<close> is the body of the loop over the other networks.\<close>

definition connect_network :: "'d docker_world \<Rightarrow> string \<Rightarrow> string \<Rightarrow> string \<times> json \<Rightarrow> ('d, unit) docker_action" where
  "connect_network W name i n =
     (case n of (network, endpoint) \<Rightarrow>
        then_a
          (bind_a
            (docker_call W
              (connect_request network (dw_to_string W (JObject [(''Container'', JString i), (''EndpointConfig'', endpoint)])))
              API_TIMEOUT)
            (\<lambda>r. context_a (''connecting '' @ name @ '' to network '' @ network) (check_response W r ''network connect'')))
          (log_line (''connected to network '' @ network)))"

definition create_container :: "'d docker_world \<Rightarrow> string \<Rightarrow> create_spec \<Rightarrow> ('d, string) docker_action" where
  "create_container W name spec =
     bind_a (docker_call W (create_request name (dw_to_string W (sp_body spec))) API_TIMEOUT) (\<lambda>r.
       bind_a (lift_a (dk_json (dw_parse W) ''container creation'' r)) (\<lambda>created.
         case json_str (json_at created ''Id'') of
           None \<Rightarrow> fail_a ''creation answer without an id''
         | Some i \<Rightarrow> return_a i))"

definition install_container ::
  "'d docker_world \<Rightarrow> string \<Rightarrow> string \<Rightarrow> bool \<Rightarrow> create_spec \<Rightarrow> string \<Rightarrow> ('d, unit) docker_action" where
  "install_container W name old_id was_running spec i =
     then_a (log_line (''created '' @ name @ '' ('' @ short_id i @ '')''))
       (then_a (each_a (connect_network W name i) (sp_extra_networks spec))
         (if was_running
          then then_a (stop_container W old_id ''previous container'')
            (then_a
              (bind_a (docker_call W (start_request i) API_TIMEOUT)
                (\<lambda>r. context_a ''starting the new container'' (check_response W r ''start'')))
              (then_a (log_line (''started '' @ name)) (wait_until_healthy W i)))
          else log_line (name @ '' was stopped: left stopped'')))"

text \<open>The identifier of the new container, as soon as there is one, and how the replacement ended.\<close>

definition replace_container ::
  "'d docker_world \<Rightarrow> string \<Rightarrow> string \<Rightarrow> bool \<Rightarrow> create_spec \<Rightarrow> ('d, string option \<times> (string + unit)) docker_action" where
  "replace_container W name old_id was_running spec =
     bind_a (attempt_a (create_container W name spec)) (\<lambda>c.
       case c of
         Inl e \<Rightarrow> return_a (None, Inl e)
       | Inr i \<Rightarrow>
           bind_a (attempt_a (install_container W name old_id was_running spec i)) (\<lambda>r. return_a (Some i, r)))"

definition rollback ::
  "'d docker_world \<Rightarrow> string \<Rightarrow> string \<Rightarrow> bool \<Rightarrow> string option \<Rightarrow> ('d, unit) docker_action" where
  "rollback W name old_id was_running new_id =
     then_a (case new_id of None \<Rightarrow> return_a () | Some i \<Rightarrow> remove_container W i ''new container'')
       (then_a
         (bind_a (attempt_a (docker_call W (rename_request old_id name) API_TIMEOUT)) (\<lambda>r.
            case r of
              Inl e \<Rightarrow> log_line (''cannot restore the name '' @ name @ '': '' @ e)
            | Inr r \<Rightarrow>
                if is_success r then log_line (''restored the name '' @ name)
                else log_line (''cannot restore the name '' @ name @ '': '' @ dk_message (dw_parse W) r)))
         (when_a was_running
           (bind_a (attempt_a (docker_call W (start_request old_id) API_TIMEOUT)) (\<lambda>r.
              case r of
                Inl e \<Rightarrow> log_line (''cannot restart the previous container: '' @ e)
              | Inr r \<Rightarrow>
                  if is_success r \<or> dk_status r = 304 then log_line ''previous container back in service''
                  else log_line (''cannot restart the previous container: '' @ dk_message (dw_parse W) r)))))"

text \<open>
  \<^verbatim>\<open>update\<close> up to the renaming of the current container: nothing when it already runs the latest image, otherwise what
  the replacement needs. From there on, a failure puts the old container back.
\<close>

record replacement =
  rp_old_id :: string
  rp_old_image_id :: string
  rp_reference :: string
  rp_was_running :: bool
  rp_spec :: create_spec

definition previous_of :: "string \<Rightarrow> string" where
  "previous_of name = name @ PREVIOUS_SUFFIX"

definition set_aside ::
  "'d docker_world \<Rightarrow> string \<Rightarrow> json \<Rightarrow> string \<Rightarrow> create_spec \<Rightarrow> ('d, replacement option) docker_action" where
  "set_aside W name old old_id spec =
     then_a (remove_stale_previous W (previous_of name) old)
       (then_a
         (bind_a (docker_call W (rename_request old_id (previous_of name)) API_TIMEOUT)
           (\<lambda>r. context_a ''renaming the current container'' (check_response W r ''rename'')))
         (then_a (log_line (''current container kept as '' @ previous_of name))
           (return_a (Some
             \<lparr>rp_old_id = old_id, rp_old_image_id = str_or [] (json_at old ''Image''), rp_reference = str_or [] (image_of old),
              rp_was_running = json_running old, rp_spec = spec\<rparr>))))"

text \<open>With the image that was pulled: nothing to do, or the specification of the new container.\<close>

definition compare_images ::
  "'d docker_world \<Rightarrow> string \<Rightarrow> json \<Rightarrow> string \<Rightarrow> json \<Rightarrow> ('d, replacement option) docker_action" where
  "compare_images W name old old_id new_image =
     (let old_image_id = str_or [] (json_at old ''Image''); new_image_id = str_or [] (json_at new_image ''Id'')
      in if new_image_id = old_image_id
         then then_a (log_line (name @ '' already runs the latest '' @ str_or [] (image_of old) @ '': nothing to do'')) (return_a None)
         else then_a (log_line (''new image '' @ short_id new_image_id @ '' (was '' @ short_id old_image_id @ '')''))
           (bind_a (attempt_a (inspect_image W old_image_id)) (\<lambda>old_image.
             bind_a (lift_a (spec_from_inspect old (case old_image of Inl _ \<Rightarrow> None | Inr v \<Rightarrow> Some (json_at v ''Config''))))
               (set_aside W name old old_id))))"

definition prepare_update :: "'d docker_world \<Rightarrow> string \<Rightarrow> ('d, replacement option) docker_action" where
  "prepare_update W name =
     bind_a (inspect W name) (\<lambda>old.
       case json_str (json_at old ''Id'') of
         None \<Rightarrow> fail_a ''container without an id''
       | Some old_id \<Rightarrow>
           let reference = str_or [] (image_of old)
           in if reference = [] \<or> looks_like_an_image_id reference
              then fail_a (name @ '' was created from an image id, not from a reference that can be pulled'')
              else then_a (log_line (''pulling '' @ reference))
                (then_a (pull W reference) (bind_a (inspect_image W reference) (compare_images W name old old_id))))"

definition finish_update ::
  "'d docker_world \<Rightarrow> string \<Rightarrow> bool \<Rightarrow> replacement \<Rightarrow> string option \<times> (string + unit) \<Rightarrow> ('d, unit) docker_action" where
  "finish_update W name prune p r =
     (case r of
        (_, Inr _) \<Rightarrow>
          then_a (log_line (name @ '' updated to '' @ rp_reference p))
            (then_a (remove_container W (rp_old_id p) ''previous container'')
              (when_a (prune \<and> rp_old_image_id p \<noteq> []) (prune_image W (rp_old_image_id p))))
      | (new_id, Inl e) \<Rightarrow>
          then_a (log_line (''update failed, rolling back: '' @ e))
            (then_a (rollback W name (rp_old_id p) (rp_was_running p) new_id) (fail_a e)))"

definition update_container :: "'d docker_world \<Rightarrow> string \<Rightarrow> bool \<Rightarrow> ('d, unit) docker_action" where
  "update_container W name prune =
     bind_a (prepare_update W name) (\<lambda>prepared.
       case prepared of
         None \<Rightarrow> return_a ()
       | Some p \<Rightarrow>
           bind_a (replace_container W name (rp_old_id p) (rp_was_running p) (rp_spec p)) (finish_update W name prune p))"

section \<open>Execution\<close>

text \<open>The sending of a report; whether it arrives changes nothing for the agent.\<close>

definition report_outcome :: "int \<Rightarrow> command_status \<Rightarrow> string \<Rightarrow> ('d, unit) docker_action" where
  "report_outcome i status result =
     write_a (\<lambda>s. s\<lparr>du_reports := du_reports s @ [(i, \<lparr>cr_status = status, cr_result = result\<rparr>)]\<rparr>)"

fun perform_action :: "'d docker_world \<Rightarrow> container_action \<Rightarrow> ('d, unit) docker_action" where
  "perform_action W (Restart name) = restart_container W name"
| "perform_action W (Update name prune) = update_container W name prune"

definition execute_command :: "'d docker_world \<Rightarrow> agent_command \<Rightarrow> ('d, unit) docker_action" where
  "execute_command W command =
     (case action_from_command command of
        Inl why \<Rightarrow> report_outcome (ac_id command) Failed why
      | Inr action \<Rightarrow>
          then_a (report_outcome (ac_id command) Running [])
            (then_a (write_a (\<lambda>s. s\<lparr>du_log := []\<rparr>))
              (bind_a (attempt_a (perform_action W action)) (\<lambda>outcome.
                bind_a
                  (case outcome of
                     Inr _ \<Rightarrow> return_a Done
                   | Inl e \<Rightarrow> then_a (log_line (''error: '' @ e)) (return_a Failed))
                  (\<lambda>status. bind_a (read_a du_log) (\<lambda>lines. report_outcome (ac_id command) status (excerpt lines)))))))"

text \<open>
  A turn of the runner: nothing while actions are disabled, while a command runs, or when the commands cannot be fetched;
  otherwise the commands that are too old are reported and the first other one is handed to a task of its own.
\<close>

fun take_command :: "int \<Rightarrow> agent_command list \<Rightarrow> ('d, agent_command option) docker_action" where
  "take_command now_ms [] = return_a None"
| "take_command now_ms (c # cs) =
     (if is_expired c now_ms
      then then_a (report_outcome (ac_id c) Failed ''command expired (older than 10 min)'') (take_command now_ms cs)
      else return_a (Some c))"

definition runner_poll ::
  "bool \<Rightarrow> bool \<Rightarrow> 'e + agent_command list \<Rightarrow> int \<Rightarrow> ('d, agent_command option) docker_action" where
  "runner_poll enabled busy fetched now_ms =
     (if \<not> enabled \<or> busy then return_a None
      else case fetched of Inl _ \<Rightarrow> return_a None | Inr commands \<Rightarrow> take_command now_ms commands)"

end
