(* ===== verification/Container_Properties.thy ===== *)
theory Container_Properties
  imports Container_Update
begin

text \<open>
  What the actions on containers guarantee: the monitoring stack is left alone, the old container is removed only once the
  new one stands, a failed update puts it back, the wait ends; and what an interrupted update leads to.
\<close>

section \<open>The calls an action makes\<close>

text \<open>\<open>does m Q\<close>: whatever the state, the calls that \<open>m\<close> adds are related to its result by \<open>Q\<close>.\<close>

definition does :: "('d docker_run, 'e, 'a) action \<Rightarrow> ('e + 'a \<Rightarrow> docker_call list \<Rightarrow> bool) \<Rightarrow> bool" where
  "does m Q = (\<forall>s. \<exists>cs. du_calls (snd (m s)) = du_calls s @ cs \<and> Q (fst (m s)) cs)"

lemma doesD: "does m Q \<Longrightarrow> m s = (r, t) \<Longrightarrow> du_calls s = [] \<Longrightarrow> Q r (du_calls t)"
  unfolding does_def by (metis append_Nil fst_conv snd_conv)

lemma does_weaken: "does m Q \<Longrightarrow> (\<And>r cs. Q r cs \<Longrightarrow> Q' r cs) \<Longrightarrow> does m Q'"
  unfolding does_def by meson

lemma does_conj: "does m Q \<Longrightarrow> does m R \<Longrightarrow> does m (\<lambda>r cs. Q r cs \<and> R r cs)"
  unfolding does_def by (metis same_append_eq)

lemma does_bind:
  assumes m: "does m R" and err: "\<And>e cs. R (Inl e) cs \<Longrightarrow> Q (Inl e) cs"
    and f: "\<And>x cs. R (Inr x) cs \<Longrightarrow> does (f x) (\<lambda>r cs'. Q r (cs @ cs'))"
  shows "does (bind_a m f) Q"
  unfolding does_def
proof
  fix s
  obtain r t where r: "m s = (r, t)" by (cases "m s")
  then obtain cs where cs: "du_calls t = du_calls s @ cs" "R r cs"
    using m unfolding does_def by (metis fst_conv snd_conv)
  show "\<exists>cs. du_calls (snd (bind_a m f s)) = du_calls s @ cs \<and> Q (fst (bind_a m f s)) cs"
  proof (cases r)
    case (Inl e)
    then show ?thesis using r cs err by (auto simp: bind_a_def)
  next
    case (Inr x)
    then have "does (f x) (\<lambda>r cs'. Q r (cs @ cs'))" using cs f by simp
    then obtain cs' where "du_calls (snd (f x t)) = du_calls t @ cs'" "Q (fst (f x t)) (cs @ cs')"
      unfolding does_def by meson
    then show ?thesis using r Inr cs by (auto simp: bind_a_def)
  qed
qed

lemma does_then:
  "does m R \<Longrightarrow> (\<And>e cs. R (Inl e) cs \<Longrightarrow> Q (Inl e) cs) \<Longrightarrow>
   (\<And>x cs. R (Inr x) cs \<Longrightarrow> does n (\<lambda>r cs'. Q r (cs @ cs'))) \<Longrightarrow> does (then_a m n) Q"
  unfolding then_a_def by (rule does_bind)

lemma does_return: "does (return_a x) Q \<longleftrightarrow> Q (Inr x) []"
  by (auto simp: does_def return_a_def)

lemma does_fail: "does (fail_a e) Q \<longleftrightarrow> Q (Inl e) []"
  by (auto simp: does_def fail_a_def)

lemma does_lift: "does (lift_a r) Q \<longleftrightarrow> Q r []"
  by (auto simp: does_def lift_a_def)

lemma does_log: "does (log_line l) Q \<longleftrightarrow> Q (Inr ()) []"
  by (auto simp: does_def log_line_def write_a_def)

lemma does_attempt: "does (attempt_a m) Q \<longleftrightarrow> does m (\<lambda>r. Q (Inr r))"
  by (simp add: does_def attempt_a_def case_prod_beta)

lemma does_then_log: "does (n :: ('d docker_run, string, 'a) action) Q \<Longrightarrow> does (then_a (log_line l) n) Q"
  unfolding does_def
proof
  fix s :: "'d docker_run"
  let ?s = "s\<lparr>du_log := du_log s @ [l]\<rparr>"
  assume "\<forall>s. \<exists>cs. du_calls (snd (n s)) = du_calls s @ cs \<and> Q (fst (n s)) cs"
  then obtain cs where "du_calls (snd (n ?s)) = du_calls ?s @ cs" "Q (fst (n ?s)) cs" by meson
  then show "\<exists>cs. du_calls (snd (then_a (log_line l) n s)) = du_calls s @ cs \<and> Q (fst (then_a (log_line l) n s)) cs"
    by (auto simp: then_a_def bind_a_def log_line_def write_a_def)
qed

lemma does_when: "does (when_a c m) Q \<longleftrightarrow> (if c then does m Q else Q (Inr ()) [])"
  by (simp add: when_a_def does_return)

lemma does_check: "does (check_response W r what) (\<lambda>x cs. cs = [] \<and> (x = Inr () \<longleftrightarrow> is_success r))"
  by (simp add: check_response_def does_return does_fail)

lemma does_context:
  assumes "does m (\<lambda>x cs. Q x cs \<and> (\<forall>e. x = Inl e \<longrightarrow> Q (Inl (what @ '': '' @ e)) cs))"
  shows "does (context_a what m) Q"
  unfolding does_def
proof
  fix s
  show "\<exists>cs. du_calls (snd (context_a what m s)) = du_calls s @ cs \<and> Q (fst (context_a what m s)) cs"
    using assms [unfolded does_def, rule_format, of s]
    by (auto simp: context_a_def split: prod.splits sum.splits)
qed

lemma does_call: "does (docker_call W q timeout) (\<lambda>r cs. cs = [(q, r)])"
  by (simp add: does_def docker_call_def split: prod.split)

lemma does_bind_call:
  "(\<And>e. Q (Inl e) [(q, Inl e)]) \<Longrightarrow> (\<And>x. does (f x) (\<lambda>r cs. Q r ((q, Inr x) # cs))) \<Longrightarrow>
   does (bind_a (docker_call W q timeout) f) Q"
  by (rule does_bind [OF does_call]) auto

lemma does_bind_lift:
  "(\<And>e. v = Inl e \<Longrightarrow> Q (Inl e) []) \<Longrightarrow> (\<And>x. v = Inr x \<Longrightarrow> does (f x) Q) \<Longrightarrow> does (bind_a (lift_a v) f) Q"
  by (cases v) (auto simp: does_def bind_a_def lift_a_def)

text \<open>An answer that was read, and what the first inspection established.\<close>

definition gave :: "'d docker_world \<Rightarrow> docker_request \<Rightarrow> json \<Rightarrow> docker_call \<Rightarrow> bool" where
  "gave W q v c = (\<exists>r. c = (q, Inr r) \<and> is_success r \<and> dw_parse W (dk_body r) = Inr v)"

definition allowed :: "'d docker_world \<Rightarrow> json \<Rightarrow> bool" where
  "allowed W v =
     (\<not> is_reserved (str_or [] (json_at v ''Name'')) \<and>
      (self_container_id (dw_cgroup W) = None \<or> json_str (json_at v ''Id'') \<noteq> self_container_id (dw_cgroup W)))"

lemma gave_unique: "gave W q v c \<Longrightarrow> gave W q v' c \<Longrightarrow> v = v'"
  by (auto simp: gave_def)

lemma refuse_reserved_allowed: "refuse_reserved_container (self_container_id (dw_cgroup W)) v name = Inr x \<longleftrightarrow> allowed W v"
  by (auto simp: refuse_reserved_container_def allowed_def Let_def)

lemma dk_json_Inr: "dk_json parse what r = Inr v \<longleftrightarrow> is_success r \<and> parse (dk_body r) = Inr v"
  by (auto simp: dk_json_def split: sum.splits)

lemma does_inspect:
  "does (inspect W name)
     (\<lambda>r cs. \<exists>c. cs = [c] \<and> fst c = inspect_request name \<and> (\<forall>v. r = Inr v \<longrightarrow> gave W (inspect_request name) v c \<and> allowed W v))"
  unfolding inspect_def
  by (intro does_bind_call) (auto simp: does_fail does_return dk_json_Inr gave_def refuse_reserved_allowed then_a_def
      intro!: does_bind_lift)

text \<open>Nothing but what keeps to the predicate \<open>C\<close>.\<close>

definition makes :: "(docker_request \<Rightarrow> bool) \<Rightarrow> ('d docker_run, 'e, 'a) action \<Rightarrow> bool" where
  "makes C m = does m (\<lambda>_. list_all (\<lambda>c. C (fst c)))"

named_theorems makes_intros

lemma makes_bind [makes_intros]: "makes C m \<Longrightarrow> (\<And>x. makes C (f x)) \<Longrightarrow> makes C (bind_a m f)"
  unfolding makes_def by (erule does_bind) (auto elim: does_weaken)

lemma makes_then [makes_intros]: "makes C m \<Longrightarrow> makes C n \<Longrightarrow> makes C (then_a m n)"
  by (simp add: then_a_def makes_bind)

lemma makes_basic [makes_intros]:
  "makes C (return_a x)" "makes C (fail_a e)" "makes C (lift_a v)" "makes C (log_line l)"
  "makes C (check_response W r what)"
  by (simp_all add: makes_def does_return does_fail does_lift does_log check_response_def)

lemma makes_call [makes_intros]: "C q \<Longrightarrow> makes C (docker_call W q timeout)"
  unfolding makes_def by (rule does_weaken [OF does_call]) simp

lemma makes_context [makes_intros]: "makes C m \<Longrightarrow> makes C (context_a what m)"
  unfolding makes_def by (rule does_context) (auto elim: does_weaken)

lemma makes_attempt [makes_intros]: "makes C m \<Longrightarrow> makes C (attempt_a m)"
  by (simp add: makes_def does_attempt)

lemma makes_if [makes_intros]: "(b \<Longrightarrow> makes C m) \<Longrightarrow> (\<not> b \<Longrightarrow> makes C n) \<Longrightarrow> makes C (if b then m else n)"
  by simp

lemma makes_each [makes_intros]: "(\<And>x. makes C (f x)) \<Longrightarrow> makes C (each_a f xs)"
  by (induction xs) (auto intro: makes_intros)

lemma makes_case [makes_intros]:
  "(\<And>x y. p = (x, y) \<Longrightarrow> makes C (h x y)) \<Longrightarrow> makes C (case p of (x, y) \<Rightarrow> h x y)"
  by (cases p) simp

lemma makes_inspect [makes_intros]: "C (inspect_request name) \<Longrightarrow> makes C (inspect W name)"
  unfolding inspect_def by (intro makes_intros)

section \<open>The wait\<close>

text \<open>What an inspection says of a container that stands.\<close>

definition standing :: "'d docker_world \<Rightarrow> string \<Rightarrow> docker_call \<Rightarrow> bool" where
  "standing W i c =
     (\<exists>v. gave W (inspect_request i) v c \<and> json_running v \<and> (health_status v = None \<or> health_status v = Some ''healthy''))"

lemma does_health_round:
  "does (health_round W i started)
     (\<lambda>r cs. \<exists>c. cs = [c] \<and> fst c = inspect_request i \<and> (r = Inr True \<longrightarrow> standing W i c))"
proof -
  have "does (bind_a (read_a du_now) (f :: instant \<Rightarrow> ('d, bool) docker_action)) Q" if "\<And>n. does (f n) Q" for f Q
    using that by (auto simp: does_def bind_a_def read_a_def)
  note read = this
  show ?thesis
    unfolding health_round_def
  proof (rule does_bind [OF does_inspect], goal_cases)
    case (2 v cs)
    then obtain c where "cs = [c]" "fst c = inspect_request i" "gave W (inspect_request i) v c" by auto
    then show ?case
      by (auto simp: Let_def does_fail does_return standing_def intro!: read does_then_log exI [of _ v] split: option.split)
  qed auto
qed

lemma wait_rounds_calls:
  "wait_rounds W i started s = (r, t) \<Longrightarrow>
   \<exists>cs. du_calls t = du_calls s @ cs \<and> list_all (\<lambda>c. fst c = inspect_request i) cs \<and>
     (r = Inr () \<longrightarrow> cs \<noteq> [] \<and> standing W i (last cs))"
proof (induction W i started s arbitrary: r t rule: wait_rounds.induct)
  case (1 W i started s)
  obtain x u where x: "health_round W i started s = (x, u)" by (cases "health_round W i started s")
  obtain c where c: "du_calls u = du_calls s @ [c]" "fst c = inspect_request i" "x = Inr True \<longrightarrow> standing W i c"
    using does_health_round [of W i started] x unfolding does_def by (metis fst_conv snd_conv)
  show ?case
  proof (cases "x = Inr False")
    case True
    then have "wait_rounds W i started (health_pause W u) = (r, t)"
      using 1(2) x by (simp add: wait_rounds.simps [of W i started s])
    moreover from True x have "\<exists>cs. du_calls t = du_calls (health_pause W u) @ cs \<and> list_all (\<lambda>c. fst c = inspect_request i) cs \<and>
        (r = Inr () \<longrightarrow> cs \<noteq> [] \<and> standing W i (last cs))"
      using 1(1) [of x u False] calculation by simp
    ultimately show ?thesis using c by (auto simp: health_pause_def)
  next
    case False
    then have "r = (case x of Inl e \<Rightarrow> Inl e | Inr _ \<Rightarrow> Inr ()) \<and> t = u"
      using 1(2) x by (subst (asm) wait_rounds.simps) (auto split: sum.splits if_splits)
    then show ?thesis using c False by (cases x) auto
  qed
qed

lemma does_wait:
  "does (wait_until_healthy W i)
     (\<lambda>r cs. list_all (\<lambda>c. fst c = inspect_request i) cs \<and> (r = Inr () \<longrightarrow> cs \<noteq> [] \<and> standing W i (last cs)))"
proof -
  have "\<exists>cs. du_calls (snd (wait_rounds W i n s)) = du_calls s @ cs \<and> list_all (\<lambda>c. fst c = inspect_request i) cs \<and>
     (fst (wait_rounds W i n s) = Inr () \<longrightarrow> cs \<noteq> [] \<and> standing W i (last cs))" for n s
    by (rule wait_rounds_calls [of W i n s]) simp
  then show ?thesis by (simp add: does_def wait_until_healthy_def bind_a_def read_a_def)
qed

lemma makes_wait [makes_intros]: "C (inspect_request i) \<Longrightarrow> makes C (wait_until_healthy W i)"
  unfolding makes_def by (rule does_weaken [OF does_wait]) (auto simp: list_all_iff)

text \<open>An inspection, and with it a round, takes three seconds at most, as the client gives up by then.\<close>

lemma inspect_took: "du_now (snd (inspect W name s)) \<le> du_now s + int READ_TIMEOUT"
proof -
  obtain r t where "docker_call W (inspect_request name) READ_TIMEOUT s = (r, t)"
    by (cases "docker_call W (inspect_request name) READ_TIMEOUT s")
  moreover from this have "du_now t \<le> du_now s + int READ_TIMEOUT"
    by (auto simp: docker_call_def dest: docker_send_in_time split: prod.splits)
  ultimately show ?thesis
    by (auto simp: inspect_def action_defs split: sum.splits)
qed

lemma health_round_took: "health_round W i started s = (r, t) \<Longrightarrow> du_now t \<le> du_now s + int READ_TIMEOUT"
proof -
  assume "health_round W i started s = (r, t)"
  moreover obtain a u where "inspect W i s = (a, u)" by (cases "inspect W i s")
  moreover from this have "du_now u \<le> du_now s + int READ_TIMEOUT" using inspect_took [of W i s] by simp
  ultimately show ?thesis
    by (auto simp: health_round_def action_defs log_line_def Let_def split: sum.splits option.splits if_splits)
qed

lemma wait_rounds_bounded:
  assumes "\<And>d. dw_oversleep W d \<le> late"
  shows "wait_rounds W i started s = (r, t) \<Longrightarrow>
    \<exists>cs. du_calls t = du_calls s @ cs \<and>
      (length cs = 1 \<or> int HEALTH_POLL * (int (length cs) - 2) < started + int HEALTH_WAIT - du_now s) \<and>
      du_now t \<le> max (du_now s) (started + int (HEALTH_WAIT + HEALTH_POLL + late)) + int READ_TIMEOUT"
  using assms
proof (induction W i started s arbitrary: r t rule: wait_rounds.induct)
  case (1 W i started s)
  obtain x u where x: "health_round W i started s = (x, u)" by (cases "health_round W i started s")
  obtain c where c: "du_calls u = du_calls s @ [c]"
    using does_health_round [of W i started] x unfolding does_def by (metis snd_conv)
  have took: "du_now u \<le> du_now s + int READ_TIMEOUT" using x by (rule health_round_took)
  show ?case
  proof (cases "x = Inr False")
    case True
    let ?p = "health_pause W u"
    have u: "du_now s \<le> du_now u" "du_now u - started < int HEALTH_WAIT"
      using health_round_time [of W i started s x u] x True by auto
    have p: "du_now u + int HEALTH_POLL \<le> du_now ?p" "du_now ?p \<le> du_now u + int HEALTH_POLL + int late"
      "du_calls ?p = du_calls u"
      using 1(3) [of "du_daemon u"] by (simp_all add: health_pause_def)
    have "wait_rounds W i started ?p = (r, t)"
      using 1(2) x True by (simp add: wait_rounds.simps [of W i started s])
    then obtain cs where cs: "du_calls t = du_calls ?p @ cs"
        "length cs = 1 \<or> int HEALTH_POLL * (int (length cs) - 2) < started + int HEALTH_WAIT - du_now ?p"
        "du_now t \<le> max (du_now ?p) (started + int (HEALTH_WAIT + HEALTH_POLL + late)) + int READ_TIMEOUT"
      using 1(1) [of x u False] 1(3) x True by fastforce
    have "int HEALTH_POLL * (int (length (c # cs)) - 2) < started + int HEALTH_WAIT - du_now s"
      using cs(2) u p by (auto simp: algebra_simps)
    moreover have "du_now t \<le> max (du_now s) (started + int (HEALTH_WAIT + HEALTH_POLL + late)) + int READ_TIMEOUT"
      using cs(3) u p by simp
    ultimately show ?thesis using cs(1) c p by (intro exI [of _ "c # cs"]) simp
  next
    case False
    then have "t = u"
      using 1(2) x by (subst (asm) wait_rounds.simps) (auto split: sum.splits if_splits)
    then show ?thesis using c took by (intro exI [of _ "[c]"]) simp
  qed
qed

text \<open>
  C27: The wait for a container to stand ends, whatever the daemon answers and however long it takes: after at most
  sixty-one inspections, and within two minutes, one pause and one inspection. It succeeds only if the last inspection shows
  the container running, and healthy where it has a health check.
\<close>

theorem wait_ends:
  assumes "wait_until_healthy W i s = (r, t)" "\<And>d. dw_oversleep W d \<le> late"
  shows "\<exists>cs. du_calls t = du_calls s @ cs \<and> length cs \<le> 61 \<and>
    du_now t \<le> du_now s + int (HEALTH_WAIT + HEALTH_POLL + late + READ_TIMEOUT) \<and>
    (r = Inr () \<longrightarrow> standing W i (last cs))"
proof -
  have w: "wait_rounds W i (du_now s) s = (r, t)"
    using assms(1) by (simp add: wait_until_healthy_def bind_a_def read_a_def)
  obtain cs where cs: "du_calls t = du_calls s @ cs"
      "length cs = 1 \<or> int HEALTH_POLL * (int (length cs) - 2) < du_now s + int HEALTH_WAIT - du_now s"
      "du_now t \<le> max (du_now s) (du_now s + int (HEALTH_WAIT + HEALTH_POLL + late)) + int READ_TIMEOUT"
    using wait_rounds_bounded [OF assms(2) w] by blast
  have "length cs \<le> 61"
    using cs(2) by (auto simp: HEALTH_POLL_def HEALTH_WAIT_def from_secs_def)
  moreover have "r = Inr () \<longrightarrow> standing W i (last cs)"
    using wait_rounds_calls [OF w] cs(1) by auto
  ultimately show ?thesis using cs by (intro exI [of _ cs]) auto
qed

section \<open>The steps of an update\<close>

text \<open>The requests are told apart by their methods and paths.\<close>

lemma request_simps [simp]:
  "dr_method (inspect_request n) = GET" "dr_method (inspect_image_request n) = GET" "dr_method (restart_request n) = POST"
  "dr_method (pull_request n) = POST" "dr_method (rename_request i n) = POST" "dr_method (create_request n b) = POST"
  "dr_method (connect_request n b) = POST" "dr_method (start_request i) = POST" "dr_method (stop_request i) = POST"
  "dr_method (remove_request i) = DELETE" "dr_method (remove_image_request i) = DELETE"
  by (simp_all add: inspect_request_def inspect_image_request_def restart_request_def pull_request_def rename_request_def
      create_request_def connect_request_def start_request_def stop_request_def remove_request_def remove_image_request_def)

lemma remove_request_eq [simp]: "remove_request i = remove_request j \<longleftrightarrow> i = j"
  by (simp add: remove_request_def)

lemma remove_request_image [simp]: "remove_request i \<noteq> remove_image_request j" "remove_image_request j \<noteq> remove_request i"
  by (simp_all add: remove_request_def remove_image_request_def)

lemma request_neq_method [simp]: "dr_method p \<noteq> dr_method q \<Longrightarrow> p \<noteq> q"
  by auto

text \<open>Cleaning calls the daemon once, whatever comes of it.\<close>

lemma does_log_case_sum:
  "(case r of Inl e \<Rightarrow> log_line (f e) | Inr x \<Rightarrow> if b x then log_line (g x) else log_line (h x)) =
   log_line (case r of Inl e \<Rightarrow> f e | Inr x \<Rightarrow> if b x then g x else h x)"
  by (simp split: sum.split)

lemma does_bind_attempt_call:
  "(\<And>a. does (f a) (\<lambda>r cs. Q r ((q, a) # cs))) \<Longrightarrow> does (bind_a (attempt_a (docker_call W q timeout)) f) Q"
  by (rule does_bind [where R = "\<lambda>x cs. \<exists>a. x = Inr a \<and> cs = [(q, a)]"])
    (auto simp: does_attempt intro: does_weaken [OF does_call])

lemma does_remove_container:
  "does (remove_container W i what) (\<lambda>r cs. r = Inr () \<and> (\<exists>a. cs = [(remove_request i, a)]))"
  unfolding remove_container_def does_log_case_sum
  by (intro does_bind_attempt_call) (simp add: does_log)

lemma does_prune_image:
  "does (prune_image W i) (\<lambda>r cs. r = Inr () \<and> (\<exists>a. cs = [(remove_image_request i, a)]))"
  unfolding prune_image_def
  by (intro does_bind_attempt_call) (simp add: does_log split: sum.split)

lemma does_pull: "does (pull W reference) (\<lambda>r cs. list_all (\<lambda>c. fst c = pull_request reference) cs)"
proof -
  have "makes (\<lambda>q. q = pull_request reference) (pull W reference)"
    unfolding pull_def by (intro makes_intros) simp
  then show ?thesis by (simp add: makes_def)
qed

lemma makes_inspect_image [makes_intros]: "C (inspect_image_request i) \<Longrightarrow> makes C (inspect_image W i)"
  unfolding inspect_image_def by (intro makes_intros)

text \<open>The container that an earlier update left aside, as far as the calls show it.\<close>

definition stale_known :: "'d docker_world \<Rightarrow> string \<Rightarrow> docker_call list \<Rightarrow> string \<Rightarrow> bool" where
  "stale_known W name cs i =
     (\<exists>cur stale c c'. c \<in> set cs \<and> c' \<in> set cs \<and> gave W (inspect_request name) cur c \<and>
        gave W (inspect_request (previous_of name)) stale c' \<and> is_our_previous stale cur \<and>
        i = str_or (previous_of name) (json_at stale ''Id''))"

lemma does_remove_stale:
  "does (remove_stale_previous W p cur)
     (\<lambda>r cs. \<exists>a. (cs = [(inspect_request p, a)] \<and> (r = Inr () \<longrightarrow> (\<forall>stale. \<not> gave W (inspect_request p) stale (inspect_request p, a)))) \<or>
        (\<exists>stale b. cs = [(inspect_request p, a), (remove_request (str_or p (json_at stale ''Id'')), b)] \<and>
           gave W (inspect_request p) stale (inspect_request p, a) \<and> is_our_previous stale cur))"
  unfolding remove_stale_previous_def
proof (intro does_bind_call, goal_cases)
  case (2 x)
  show ?case
  proof (cases "dk_status x = 404")
    case False
    have "does (bind_a (lift_a (dk_json (dw_parse W) ''container inspection'' x)) (\<lambda>stale.
         if \<not> is_our_previous stale cur
         then fail_a (''a container named '' @ p @ '' already exists and is not ours'')
         else then_a (log_line (''removing '' @ p @ '' left by an earlier update''))
           (remove_container W (str_or p (json_at stale ''Id'')) p)))
       (\<lambda>r cs. (cs = [] \<and> r \<noteq> Inr ()) \<or> (\<exists>stale b. cs = [(remove_request (str_or p (json_at stale ''Id'')), b)] \<and>
           gave W (inspect_request p) stale (inspect_request p, Inr x) \<and> is_our_previous stale cur))" (is "does _ ?Q")
    proof (rule does_bind_lift, goal_cases)
      case (2 stale)
      then have "gave W (inspect_request p) stale (inspect_request p, Inr x)" by (simp add: dk_json_Inr gave_def)
      then show ?case
        by (auto simp: does_fail intro!: does_then_log does_weaken [OF does_remove_container])
    qed simp
    then show ?thesis unfolding if_not_P [OF False] by (rule does_weaken) auto
  qed (simp add: does_return gave_def is_success_def)
qed simp

text \<open>What an update may do before it sets the current container aside, without harm to any container in service.\<close>

definition harmless :: "'d docker_world \<Rightarrow> string \<Rightarrow> docker_call list \<Rightarrow> docker_call \<Rightarrow> bool" where
  "harmless W name cs c =
     (dr_method (fst c) = GET \<or> (\<exists>reference. fst c = pull_request reference) \<or>
      (\<exists>i. fst c = remove_request i \<and> stale_known W name cs i))"

definition refused_rename :: "string \<Rightarrow> docker_call \<Rightarrow> bool" where
  "refused_rename name c = (\<exists>i a. c = (rename_request i (previous_of name), a) \<and> (\<forall>r. a = Inr r \<longrightarrow> \<not> is_success r))"

text \<open>A container found under the name of the old one is removed, whether it runs or not.\<close>

definition stale_removed :: "'d docker_world \<Rightarrow> string \<Rightarrow> docker_call list \<Rightarrow> bool" where
  "stale_removed W name cs =
     (\<exists>c \<in> set cs. fst c = inspect_request (previous_of name) \<and>
        (\<forall>stale. gave W (inspect_request (previous_of name)) stale c \<longrightarrow>
           (\<exists>a. (remove_request (str_or (previous_of name) (json_at stale ''Id'')), a) \<in> set cs)))"

lemma stale_removedI:
  assumes "\<exists>a. (cs = [(inspect_request (previous_of name), a)] \<and> (\<forall>stale. \<not> gave W (inspect_request (previous_of name)) stale (inspect_request (previous_of name), a))) \<or>
     (\<exists>stale b. cs = [(inspect_request (previous_of name), a), (remove_request (str_or (previous_of name) (json_at stale ''Id'')), b)] \<and>
        gave W (inspect_request (previous_of name)) stale (inspect_request (previous_of name), a))"
  shows "stale_removed W name (front @ cs)"
proof -
  from assms obtain a where a: "(inspect_request (previous_of name), a) \<in> set cs"
      "\<And>stale. gave W (inspect_request (previous_of name)) stale (inspect_request (previous_of name), a) \<Longrightarrow>
         \<exists>b. (remove_request (str_or (previous_of name) (json_at stale ''Id'')), b) \<in> set cs"
    using gave_unique by fastforce
  then show ?thesis unfolding stale_removed_def by (intro bexI [of _ "(inspect_request (previous_of name), a)"]) auto
qed

definition set_aside_calls :: "'d docker_world \<Rightarrow> string \<Rightarrow> replacement \<Rightarrow> docker_call list \<Rightarrow> bool" where
  "set_aside_calls W name p cs =
     (\<exists>front resp cur. cs = front @ [(rename_request (rp_old_id p) (previous_of name), Inr resp)] \<and> is_success resp \<and>
        front \<noteq> [] \<and> list_all (harmless W name front) front \<and> stale_removed W name front \<and> gave W (inspect_request name) cur (hd front) \<and>
        json_str (json_at cur ''Id'') = Some (rp_old_id p) \<and> json_running cur = rp_was_running p)"

lemma stale_knownI:
  "gave W (inspect_request name) cur c \<Longrightarrow> gave W (inspect_request (previous_of name)) stale c' \<Longrightarrow> is_our_previous stale cur \<Longrightarrow>
   c \<in> set cs \<Longrightarrow> c' \<in> set cs \<Longrightarrow> stale_known W name cs (str_or (previous_of name) (json_at stale ''Id''))"
  unfolding stale_known_def by blast

lemma stale_known_mono: "stale_known W name cs i \<Longrightarrow> set cs \<subseteq> set cs' \<Longrightarrow> stale_known W name cs' i"
  unfolding stale_known_def by blast

lemma harmless_mono: "harmless W name cs c \<Longrightarrow> set cs \<subseteq> set cs' \<Longrightarrow> harmless W name cs' c"
  unfolding harmless_def by (meson stale_known_mono)

text \<open>What the removal of a stale container adds is harmless.\<close>

lemma stale_calls_harmless:
  assumes "front \<noteq> []" "list_all (harmless W name front) front" "gave W (inspect_request name) old (hd front)"
    and cs: "\<exists>a. cs = [(inspect_request (previous_of name), a)] \<or>
        (\<exists>stale b. cs = [(inspect_request (previous_of name), a), (remove_request (str_or (previous_of name) (json_at stale ''Id'')), b)] \<and>
           gave W (inspect_request (previous_of name)) stale (inspect_request (previous_of name), a) \<and> is_our_previous stale old)"
  shows "list_all (harmless W name (front @ cs)) (front @ cs)"
proof -
  have front: "list_all (harmless W name (front @ cs)) front"
    using assms(2) by (auto simp: list_all_iff intro: harmless_mono [where cs = front])
  from cs consider (one) a where "cs = [(inspect_request (previous_of name), a)]"
    | (two) a stale b where
        "cs = [(inspect_request (previous_of name), a), (remove_request (str_or (previous_of name) (json_at stale ''Id'')), b)]"
        "gave W (inspect_request (previous_of name)) stale (inspect_request (previous_of name), a)" "is_our_previous stale old"
    by blast
  then show ?thesis
  proof cases
    case one
    then show ?thesis using front by (simp add: harmless_def)
  next
    case two
    have "stale_known W name (front @ cs) (str_or (previous_of name) (json_at stale ''Id''))"
      using assms(1,3) two by (intro stale_knownI) auto
    then show ?thesis using front two(1) by (simp add: harmless_def)
  qed
qed

text \<open>\<open>front\<close> is what was called before.\<close>

lemma does_set_aside:
  assumes "front \<noteq> []" "list_all (harmless W name front) front" "gave W (inspect_request name) old (hd front)"
    "json_str (json_at old ''Id'') = Some old_id"
  shows "does (set_aside W name old old_id spec)
     (\<lambda>r cs. (\<exists>e. r = Inl e \<and> list_all (\<lambda>c. harmless W name (front @ cs) c \<or> refused_rename name c) (front @ cs)) \<or>
        (\<exists>p. r = Inr (Some p) \<and> rp_old_id p = old_id \<and> set_aside_calls W name p (front @ cs)))"
  unfolding set_aside_def
proof (rule does_then [OF does_remove_stale], goal_cases)
  case (1 e cs)
  then have "list_all (harmless W name (front @ cs)) (front @ cs)" using assms by (intro stale_calls_harmless) auto
  then show ?case by (auto simp: list_all_iff)
next
  case (2 x cs)
  then have front: "list_all (harmless W name (front @ cs)) (front @ cs)"
    using assms by (intro stale_calls_harmless) auto
  have stale: "stale_removed W name (front @ cs)"
    using 2 by (intro stale_removedI) auto
  let ?q = "rename_request old_id (previous_of name)"
  have grow: "list_all (harmless W name (front @ cs @ [c])) (front @ cs)" for c
    using front by (auto simp: list_all_iff intro: harmless_mono [where cs = "front @ cs"])
  show ?case
  proof (rule does_then [where R = "\<lambda>r cs'. \<exists>a. cs' = [(?q, a)] \<and> (r = Inr () \<longleftrightarrow> (\<exists>x. a = Inr x \<and> is_success x))"], goal_cases)
    case 1
    show ?case
      by (intro does_bind_call does_context) (auto intro: does_weaken [OF does_check])
  next
    case (2 e cs')
    then obtain a where "cs' = [(?q, a)]" "\<forall>x. a = Inr x \<longrightarrow> \<not> is_success x" by auto
    then show ?case using grow by (auto simp: list_all_iff refused_rename_def)
  next
    case (3 u cs')
    then obtain x where "cs' = [(?q, Inr x)]" "is_success x" by auto
    then show ?case using front stale assms
      by (intro does_then_log) (auto simp: does_return set_aside_calls_def hd_append intro!: exI [of _ "front @ cs"] exI [of _ old])
  qed
qed

lemma harmless_append:
  assumes "list_all (harmless W name cs) cs" "list_all (\<lambda>c. dr_method (fst c) = GET \<or> (\<exists>r. fst c = pull_request r)) cs'"
  shows "list_all (harmless W name (cs @ cs')) (cs @ cs')"
proof -
  have "list_all (harmless W name (cs @ cs')) cs" using assms(1) by (auto simp: list_all_iff intro: harmless_mono [where cs = cs])
  moreover have "list_all (harmless W name (cs @ cs')) cs'" using assms(2) by (auto simp: list_all_iff harmless_def)
  ultimately show ?thesis by simp
qed

text \<open>
  \<open>quiet W name old cs\<close>: the calls began with the inspection of the container and did no harm. \<open>prepared\<close> is what the
  preparation of an update comes to.
\<close>

definition quiet :: "'d docker_world \<Rightarrow> string \<Rightarrow> json \<Rightarrow> docker_call list \<Rightarrow> bool" where
  "quiet W name old cs = (cs \<noteq> [] \<and> gave W (inspect_request name) old (hd cs) \<and> list_all (harmless W name cs) cs)"

definition prepared :: "'d docker_world \<Rightarrow> string \<Rightarrow> string + replacement option \<Rightarrow> docker_call list \<Rightarrow> bool" where
  "prepared W name r cs =
     (case r of
        Inl _ \<Rightarrow> list_all (\<lambda>c. harmless W name cs c \<or> refused_rename name c) cs
      | Inr None \<Rightarrow> list_all (harmless W name cs) cs
      | Inr (Some p) \<Rightarrow> set_aside_calls W name p cs)"

lemma quiet_append:
  "quiet W name old cs \<Longrightarrow> list_all (\<lambda>c. dr_method (fst c) = GET \<or> (\<exists>r. fst c = pull_request r)) cs' \<Longrightarrow> quiet W name old (cs @ cs')"
  using harmless_append [of W name cs cs'] by (simp add: quiet_def)

lemma quiet_prepared: "quiet W name old cs \<Longrightarrow> prepared W name (Inl e) cs" "quiet W name old cs \<Longrightarrow> prepared W name (Inr None) cs"
  by (auto simp: quiet_def prepared_def list_all_iff)

lemma does_inspect_image: "does (inspect_image W i) (\<lambda>r cs. list_all (\<lambda>c. dr_method (fst c) = GET \<or> (\<exists>r. fst c = pull_request r)) cs)"
  using makes_inspect_image [of "\<lambda>q. dr_method q = GET \<or> (\<exists>r. q = pull_request r)" i W] by (simp add: makes_def)

lemma does_compare_images:
  assumes q: "quiet W name old front" and i: "json_str (json_at old ''Id'') = Some old_id"
  shows "does (compare_images W name old old_id new_image) (\<lambda>r cs. prepared W name r (front @ cs))"
proof -
  have aside: "does (set_aside W name old old_id spec) (\<lambda>r cs'. prepared W name r (front @ cs @ cs'))"
    if "quiet W name old (front @ cs)" for cs spec
    using does_set_aside [of "front @ cs" W name old old_id spec] that i
    by (auto simp: quiet_def prepared_def elim!: does_weaken)
  show ?thesis
  proof (cases "str_or [] (json_at new_image ''Id'') = str_or [] (json_at old ''Image'')")
    case True
    then show ?thesis
      using q by (simp add: compare_images_def) (intro does_then_log, simp add: does_return quiet_prepared)
  next
    case False
    show ?thesis
      unfolding compare_images_def Let_def if_not_P [OF False]
    proof (rule does_then_log, rule does_bind [where R = "\<lambda>x cs. (\<exists>r. x = Inr r) \<and> quiet W name old (front @ cs)"], goal_cases)
      case 1
      show ?case by (auto simp: does_attempt intro: does_weaken [OF does_inspect_image] quiet_append [OF q])
    next
      case (3 x cs)
      then show ?case by (intro does_bind_lift) (auto intro: quiet_prepared aside)
    qed auto
  qed
qed

lemma does_prepare_update: "does (prepare_update W name) (prepared W name)"
  unfolding prepare_update_def
proof (rule does_bind [OF does_inspect], goal_cases)
  case (1 e cs)
  then show ?case by (auto simp: prepared_def harmless_def)
next
  case (2 old cs)
  then have q: "quiet W name old cs" by (auto simp: quiet_def harmless_def)
  have "does (then_a (pull W reference) (bind_a (inspect_image W reference) (compare_images W name old old_id)))
      (\<lambda>r cs'. prepared W name r (cs @ cs'))"
    if "json_str (json_at old ''Id'') = Some old_id" for reference old_id
  proof (rule does_then [where R = "\<lambda>_ cs'. quiet W name old (cs @ cs')"], goal_cases)
    case 1
    show ?case by (rule does_weaken [OF does_pull]) (auto simp: list_all_iff intro!: quiet_append [OF q])
  next
    case (3 u cs')
    show ?case
    proof (rule does_bind [where R = "\<lambda>_ cs''. quiet W name old ((cs @ cs') @ cs'')"], goal_cases)
      case 1
      show ?case by (rule does_weaken [OF does_inspect_image]) (rule quiet_append [OF 3])
    next
      case (3 v cs'')
      then show ?case using does_compare_images [OF _ that, of _ _ "(cs @ cs') @ cs''"] by simp
    qed (use quiet_prepared in fastforce)
  qed (rule quiet_prepared)
  then show ?case
    using quiet_prepared [OF q]
    by (auto simp: Let_def does_fail intro!: does_then_log split: option.split)
qed

text \<open>The new container, as the daemon designated it, and what a replacement amounts to.\<close>

definition created :: "'d docker_world \<Rightarrow> string \<Rightarrow> string \<Rightarrow> docker_call \<Rightarrow> bool" where
  "created W name i c = (\<exists>body v. gave W (create_request name body) v c \<and> json_str (json_at v ''Id'') = Some i)"

definition replaced :: "'d docker_world \<Rightarrow> string \<Rightarrow> bool \<Rightarrow> string option \<times> (string + unit) \<Rightarrow> docker_call list \<Rightarrow> bool" where
  "replaced W name was_running x cs =
     (list_all (\<lambda>c. dr_method (fst c) \<noteq> DELETE) cs \<and>
      (case fst x of None \<Rightarrow> snd x \<noteq> Inr () | Some i \<Rightarrow> \<exists>c \<in> set cs. created W name i c) \<and>
      (snd x = Inr () \<longrightarrow> was_running \<longrightarrow> (\<exists>i. fst x = Some i \<and> cs \<noteq> [] \<and> standing W i (last cs))))"

lemma does_create_container:
  "does (create_container W name spec)
     (\<lambda>r cs. \<exists>c. cs = [c] \<and> dr_method (fst c) = POST \<and> (\<forall>i. r = Inr i \<longrightarrow> created W name i c))"
  unfolding create_container_def
proof (rule does_bind_call, goal_cases)
  case (2 x)
  show ?case
    by (rule does_bind_lift) (auto simp: does_fail does_return dk_json_Inr created_def gave_def split: option.split)
qed simp

lemma makes_not_delete:
  "makes (\<lambda>q. dr_method q \<noteq> DELETE) (connect_network W name i n)"
  "makes (\<lambda>q. dr_method q \<noteq> DELETE) (stop_container W i what)"
  unfolding connect_network_def stop_container_def by (intro makes_intros; simp)+

lemma does_install_container:
  "does (install_container W name old_id was_running spec i)
     (\<lambda>r cs. list_all (\<lambda>c. dr_method (fst c) \<noteq> DELETE) cs \<and>
        (r = Inr () \<longrightarrow> was_running \<longrightarrow> cs \<noteq> [] \<and> standing W i (last cs)))"
proof -
  let ?C = "\<lambda>q. dr_method q \<noteq> DELETE" and ?start = "bind_a (docker_call W (start_request i) API_TIMEOUT)
      (\<lambda>r. context_a ''starting the new container'' (check_response W r ''start''))"
  let ?D = "\<lambda>cs. list_all (\<lambda>c. dr_method (fst c) \<noteq> DELETE) cs"
  have lift: "does m (\<lambda>r cs. ?D cs)" if "makes ?C m" for m :: "('d, unit) docker_action"
    using that by (simp add: makes_def)
  have "does (wait_until_healthy W i) (\<lambda>r cs. ?D cs \<and> (r = Inr () \<longrightarrow> cs \<noteq> [] \<and> standing W i (last cs)))"
    by (rule does_weaken [OF does_wait]) (auto simp: list_all_iff)
  then have run: "does (then_a (stop_container W old_id ''previous container'') (then_a ?start (then_a (log_line l) (wait_until_healthy W i))))
      (\<lambda>r cs. ?D cs \<and> (r = Inr () \<longrightarrow> cs \<noteq> [] \<and> standing W i (last cs)))" for l
    by (intro does_then [OF lift] makes_intros makes_not_delete does_then_log) (auto elim!: does_weaken)
  show ?thesis
    unfolding install_container_def
    by (intro does_then_log does_then [OF lift] makes_intros makes_not_delete)
      (auto simp: does_log intro!: does_weaken [OF run])
qed

lemma does_replace_container:
  "does (replace_container W name old_id was_running spec) (\<lambda>r cs. \<exists>x. r = Inr x \<and> replaced W name was_running x cs)"
  unfolding replace_container_def
proof (rule does_bind [where R = "\<lambda>r cs. \<exists>x c. r = Inr x \<and> cs = [c] \<and> dr_method (fst c) = POST \<and> (\<forall>i. x = Inr i \<longrightarrow> created W name i c)"], goal_cases)
  case 1
  show ?case by (auto simp: does_attempt intro: does_weaken [OF does_create_container])
next
  case (3 x cs)
  then obtain c where c: "cs = [c]" "dr_method (fst c) = POST" "\<forall>i. x = Inr i \<longrightarrow> created W name i c" by auto
  show ?case
  proof (cases x)
    case (Inl e)
    then show ?thesis using c by (simp add: does_return replaced_def)
  next
    case (Inr i)
    have "does (bind_a (attempt_a (install_container W name old_id was_running spec i)) (\<lambda>r. return_a (Some i, r)))
        (\<lambda>r cs'. \<exists>x. r = Inr x \<and> replaced W name was_running x (cs @ cs'))"
      by (rule does_bind [where R = "\<lambda>r cs. \<exists>x. r = Inr x \<and> list_all (\<lambda>c. dr_method (fst c) \<noteq> DELETE) cs \<and>
          (x = Inr () \<longrightarrow> was_running \<longrightarrow> cs \<noteq> [] \<and> standing W i (last cs))"])
        (use c Inr in \<open>auto simp: does_attempt does_return replaced_def intro: does_weaken [OF does_install_container]\<close>)
    then show ?thesis using Inr by simp
  qed
qed auto

text \<open>A rollback removes the new container where there is one, renames the old one back and starts it if it ran.\<close>

definition rolled_back :: "string \<Rightarrow> string \<Rightarrow> bool \<Rightarrow> string option \<Rightarrow> docker_call list \<Rightarrow> bool" where
  "rolled_back name old_id was_running new_id cs =
     (map fst cs =
        (case new_id of None \<Rightarrow> [] | Some i \<Rightarrow> [remove_request i]) @ [rename_request old_id name] @
        (if was_running then [start_request old_id] else []))"

lemma does_rollback:
  "does (rollback W name old_id was_running new_id) (\<lambda>r cs. r = Inr () \<and> rolled_back name old_id was_running new_id cs)"
proof -
  have start: "does (when_a was_running (bind_a (attempt_a (docker_call W q timeout)) (\<lambda>r. log_line (f r))))
      (\<lambda>r cs. r = Inr () \<and> map fst cs = (if was_running then [q] else []))" for q timeout f
    by (auto simp: does_when does_log intro!: does_bind_attempt_call)
  have rename: "does (bind_a (attempt_a (docker_call W q timeout)) (\<lambda>r. log_line (f r))) (\<lambda>r cs. r = Inr () \<and> map fst cs = [q])"
    for q timeout f
    by (auto simp: does_log intro!: does_bind_attempt_call)
  have remove: "does (case new_id of None \<Rightarrow> return_a () | Some i \<Rightarrow> remove_container W i ''new container'')
      (\<lambda>r cs. r = Inr () \<and> map fst cs = (case new_id of None \<Rightarrow> [] | Some i \<Rightarrow> [remove_request i]))"
    by (auto simp: does_return split: option.split intro: does_weaken [OF does_remove_container])
  show ?thesis
    unfolding rollback_def does_log_case_sum
    by (rule does_then [OF remove], simp, rule does_then [OF rename], simp, rule does_weaken [OF start])
      (auto simp: rolled_back_def)
qed

lemma does_finish_update:
  "does (finish_update W name prune p (new_id, x))
     (\<lambda>r cs. case x of
        Inr _ \<Rightarrow> r = Inr () \<and> (\<exists>a cs'. cs = (remove_request (rp_old_id p), a) # cs' \<and> (\<forall>c \<in> set cs'. \<exists>i. fst c = remove_image_request i))
      | Inl e \<Rightarrow> r = Inl e \<and> rolled_back name (rp_old_id p) (rp_was_running p) new_id cs)"
proof (cases x)
  case (Inl e)
  show ?thesis
    unfolding finish_update_def Inl prod.case sum.case
    by (intro does_then_log) (rule does_then [OF does_rollback], auto simp: does_fail)
next
  case (Inr u)
  show ?thesis
    unfolding finish_update_def Inr prod.case sum.case
    by (intro does_then_log) (rule does_then [OF does_remove_container], simp,
        auto simp: does_when intro!: does_weaken [OF does_prune_image])
qed

text \<open>
  An update comes to nothing before the current container was set aside, or else the replacement ends it: with the
  removal of the old container, or with the rollback.
\<close>

definition updated :: "'d docker_world \<Rightarrow> string \<Rightarrow> string + unit \<Rightarrow> docker_call list \<Rightarrow> bool" where
  "updated W name r cs =
     ((\<exists>e. r = Inl e \<and> list_all (\<lambda>c. harmless W name cs c \<or> refused_rename name c) cs) \<or>
      (r = Inr () \<and> list_all (harmless W name cs) cs) \<or>
      (\<exists>p x before middle end_calls. cs = before @ middle @ end_calls \<and> set_aside_calls W name p before \<and>
         replaced W name (rp_was_running p) x middle \<and>
         (case snd x of
            Inl e \<Rightarrow> r = Inl e \<and> rolled_back name (rp_old_id p) (rp_was_running p) (fst x) end_calls
          | Inr _ \<Rightarrow> r = Inr () \<and> (\<exists>a after. end_calls = (remove_request (rp_old_id p), a) # after \<and>
              (\<forall>c \<in> set after. \<exists>i. fst c = remove_image_request i)))))"

lemma updatedE:
  assumes "updated W name r cs"
  obtains (early) "list_all (\<lambda>c. harmless W name cs c \<or> refused_rename name c) cs"
    | (late) p x before middle end_calls where "cs = before @ middle @ end_calls" "set_aside_calls W name p before"
        "replaced W name (rp_was_running p) x middle"
        "case snd x of
            Inl e \<Rightarrow> r = Inl e \<and> rolled_back name (rp_old_id p) (rp_was_running p) (fst x) end_calls
          | Inr _ \<Rightarrow> r = Inr () \<and> (\<exists>a after. end_calls = (remove_request (rp_old_id p), a) # after \<and>
              (\<forall>c \<in> set after. \<exists>i. fst c = remove_image_request i))"
proof -
  from assms have "list_all (\<lambda>c. harmless W name cs c \<or> refused_rename name c) cs \<or> (\<exists>p x before middle end_calls.
      cs = before @ middle @ end_calls \<and> set_aside_calls W name p before \<and> replaced W name (rp_was_running p) x middle \<and>
      (case snd x of
            Inl e \<Rightarrow> r = Inl e \<and> rolled_back name (rp_old_id p) (rp_was_running p) (fst x) end_calls
          | Inr _ \<Rightarrow> r = Inr () \<and> (\<exists>a after. end_calls = (remove_request (rp_old_id p), a) # after \<and>
              (\<forall>c \<in> set after. \<exists>i. fst c = remove_image_request i))))"
    unfolding updated_def by (elim disjE) (auto simp: list_all_iff)
  then show ?thesis
    by (elim disjE exE conjE) (rule early, assumption, rule late, assumption+)
qed

lemma updatedI:
  "set_aside_calls W name p before \<Longrightarrow> replaced W name (rp_was_running p) (new_id, z) middle \<Longrightarrow>
   (case z of
      Inr _ \<Rightarrow> r = Inr () \<and> (\<exists>a after. end_calls = (remove_request (rp_old_id p), a) # after \<and>
        (\<forall>c \<in> set after. \<exists>i. fst c = remove_image_request i))
    | Inl e \<Rightarrow> r = Inl e \<and> rolled_back name (rp_old_id p) (rp_was_running p) new_id end_calls) \<Longrightarrow>
   updated W name r (before @ middle @ end_calls)"
  unfolding updated_def
  by (intro disjI2, rule exI [of _ p], rule exI [of _ "(new_id, z)"], rule exI [of _ before], rule exI [of _ middle],
      rule exI [of _ end_calls]) (cases z; simp)

lemma does_update: "does (update_container W name prune) (updated W name)"
  unfolding update_container_def
proof (rule does_bind [OF does_prepare_update], goal_cases)
  case (1 e cs)
  then show ?case by (auto simp: prepared_def updated_def)
next
  case (2 x cs)
  show ?case
  proof (cases x)
    case None
    then show ?thesis using 2 by (simp add: does_return prepared_def updated_def)
  next
    case (Some p)
    then have p: "set_aside_calls W name p cs" using 2 by (simp add: prepared_def)
    have "does (bind_a (replace_container W name (rp_old_id p) (rp_was_running p) (rp_spec p)) (finish_update W name prune p))
        (\<lambda>r cs'. updated W name r (cs @ cs'))"
    proof (rule does_bind [OF does_replace_container], goal_cases)
      case (2 y cs')
      obtain new_id z where y: "y = (new_id, z)" by (cases y)
      then have rep: "replaced W name (rp_was_running p) (new_id, z) cs'" using 2 by simp
      show ?case
        unfolding y
      by (rule does_weaken [OF does_finish_update]) (rule updatedI [OF p rep])
    qed simp
    then show ?thesis using Some by simp
  qed
qed

section \<open>Starts\<close>

lemma rename_previous_not_start: "rename_request i (previous_of name) \<noteq> start_request j"
proof
  assume "rename_request i (previous_of name) = start_request j"
  then have "last (dr_path (rename_request i (previous_of name))) = last (dr_path (start_request j))" by simp
  then show False by (simp add: rename_request_def start_request_def previous_of_def PREVIOUS_SUFFIX_def)
qed

abbreviation no_start :: "docker_request \<Rightarrow> bool" where
  "no_start q \<equiv> \<forall>i. q \<noteq> start_request i"

lemma pull_not_start: "pull_request r \<noteq> start_request i"
  by (simp add: pull_request_def start_request_def)

lemma connect_not_start: "connect_request n b \<noteq> start_request i" "create_request n b \<noteq> start_request i"
  by (simp_all add: connect_request_def create_request_def start_request_def)

lemma makes_case_option [makes_intros]:
  "(x = None \<Longrightarrow> makes C m) \<Longrightarrow> (\<And>y. x = Some y \<Longrightarrow> makes C (f y)) \<Longrightarrow> makes C (case x of None \<Rightarrow> m | Some y \<Rightarrow> f y)"
  by (cases x) simp_all

lemma makes_cleaning: "C (remove_request i) \<Longrightarrow> makes C (remove_container W i what)"
  "C (remove_image_request i) \<Longrightarrow> makes C (prune_image W i)"
  unfolding makes_def
  by (auto intro: does_weaken [OF does_remove_container] does_weaken [OF does_prune_image])

lemma makes_pull [makes_intros]: "C (pull_request r) \<Longrightarrow> makes C (pull W r)"
  unfolding makes_def by (rule does_weaken [OF does_pull]) (auto simp: list_all_iff)

lemma makes_prepare_no_start: "makes no_start (prepare_update W name)"
  unfolding prepare_update_def compare_images_def set_aside_def remove_stale_previous_def Let_def
  by (intro makes_intros makes_cleaning) (auto simp: rename_previous_not_start pull_not_start)

lemma makes_replace_no_start: "makes no_start (replace_container W name old_id False spec)"
proof -
  have "makes no_start (connect_network W name i n)" "makes no_start (create_container W name spec)" for i n
    unfolding connect_network_def create_container_def
    by (intro makes_intros; simp add: connect_not_start)+
  then show ?thesis
    unfolding replace_container_def install_container_def if_False
    by (auto intro!: makes_intros split: sum.split)
qed

lemma does_replace_no_start:
  "does (replace_container W name old_id was_running spec) (\<lambda>_ cs. \<not> was_running \<longrightarrow> list_all (\<lambda>c. no_start (fst c)) cs)"
  using makes_replace_no_start [of W name old_id spec, unfolded makes_def]
  by (cases was_running) (auto intro: does_weaken [OF does_replace_container])

lemma does_finish_no_start:
  "does (finish_update W name prune p x) (\<lambda>r cs. r = Inr () \<longrightarrow> list_all (\<lambda>c. no_start (fst c)) cs)"
proof -
  obtain new_id y where x: "x = (new_id, y)" by (cases x)
  show ?thesis
    unfolding x by (rule does_weaken [OF does_finish_update]) (fastforce simp: list_all_iff split: sum.splits)
qed

lemma does_update_no_start:
  "does (update_container W name prune)
     (\<lambda>r cs. r = Inr () \<longrightarrow> (\<exists>cur. gave W (inspect_request name) cur (hd cs) \<and> \<not> json_running cur) \<longrightarrow> list_all (\<lambda>c. no_start (fst c)) cs)"
  (is "does _ ?Q")
  unfolding update_container_def
proof (rule does_bind [OF does_conj [OF does_prepare_update makes_prepare_no_start [unfolded makes_def]]], goal_cases)
  case (2 x cs)
  show ?case
  proof (cases x)
    case (Some p)
    then obtain cur where cur: "gave W (inspect_request name) cur (hd cs)" "json_running cur = rp_was_running p" "cs \<noteq> []"
      using 2 by (auto simp: prepared_def set_aside_calls_def)
    have running: "json_running v = rp_was_running p" if "gave W (inspect_request name) v (hd cs)" for v
      using gave_unique [OF cur(1) that] cur(2) by simp
    have imp: "?Q r (cs @ cs')" if "\<not> rp_was_running p \<longrightarrow> r = Inr () \<longrightarrow> list_all (\<lambda>c. no_start (fst c)) cs'" for r cs'
      using that cur(3) 2 running by (simp add: hd_append) blast
    have "does (bind_a (replace_container W name (rp_old_id p) (rp_was_running p) (rp_spec p)) (finish_update W name prune p))
        (\<lambda>r cs'. \<not> rp_was_running p \<longrightarrow> r = Inr () \<longrightarrow> list_all (\<lambda>c. no_start (fst c)) cs')"
      by (rule does_bind [OF does_replace_no_start]) (auto intro: does_weaken [OF does_finish_no_start])
    then show ?thesis unfolding Some option.case by (rule does_weaken) (rule imp)
  qed (use 2 in \<open>simp add: does_return\<close>)
qed simp

section \<open>The monitoring stack\<close>

lemma does_any: "does m Q \<Longrightarrow> makes (\<lambda>_. True) m"
  unfolding makes_def by (rule does_weaken) (simp_all add: list_all_iff)

lemma does_guarded:
  assumes "\<And>v. makes (\<lambda>_. True) (f v)"
  shows "does (bind_a (inspect W name) f)
    (\<lambda>r cs. cs \<noteq> [] \<and> (list_all (\<lambda>c. dr_method (fst c) = GET) cs \<and> (\<exists>e. r = Inl e) \<or>
       (\<exists>v. gave W (inspect_request name) v (hd cs) \<and> allowed W v)))"
  by (rule does_bind [OF does_inspect])
    (auto intro!: does_weaken [OF assms [unfolded makes_def]])

lemma does_restart:
  "does (restart_container W name)
     (\<lambda>r cs. list_all (\<lambda>c. dr_method (fst c) = GET) cs \<or> (\<exists>v. gave W (inspect_request name) v (hd cs) \<and> allowed W v))"
  unfolding restart_container_def
  by (rule does_weaken [OF does_guarded]) (auto intro!: makes_intros)

lemma does_prepare_guarded:
  "does (prepare_update W name)
    (\<lambda>r cs. cs \<noteq> [] \<and> (list_all (\<lambda>c. dr_method (fst c) = GET) cs \<and> (\<exists>e. r = Inl e) \<or>
       (\<exists>v. gave W (inspect_request name) v (hd cs) \<and> allowed W v)))"
  unfolding prepare_update_def compare_images_def set_aside_def remove_stale_previous_def Let_def
  by (intro does_guarded makes_intros makes_cleaning TrueI)

lemma does_update_guarded:
  "does (update_container W name prune)
     (\<lambda>r cs. list_all (\<lambda>c. dr_method (fst c) = GET) cs \<or> (\<exists>v. gave W (inspect_request name) v (hd cs) \<and> allowed W v))"
  unfolding update_container_def
proof (rule does_bind [OF does_prepare_guarded], goal_cases)
  case (2 x cs)
  have "makes (\<lambda>_. True) (finish_update W name prune p y)" for p y
    by (cases y) (auto intro: does_any [OF does_finish_update])
  then have "makes (\<lambda>_. True) (case x of None \<Rightarrow> return_a () | Some p \<Rightarrow>
      bind_a (replace_container W name (rp_old_id p) (rp_was_running p) (rp_spec p)) (finish_update W name prune p))"
    by (intro makes_intros does_any [OF does_replace_container])
  then show ?case unfolding makes_def by (rule does_weaken) (use 2 in auto)
qed auto

text \<open>
  C17: Whatever the server asks for, by name or by identifier, no call of the agent changes anything unless the daemon
  has described the container first, and neither as one of the monitoring stack nor as the one the agent runs in.
\<close>

theorem monitoring_stack_untouched:
  assumes "perform_action W action s = (r, t)" "du_calls s = []" "c \<in> set (du_calls t)" "dr_method (fst c) \<noteq> GET"
  shows "\<exists>v. gave W (inspect_request (action_name action)) v (hd (du_calls t)) \<and> allowed W v"
proof -
  have "does (perform_action W action)
     (\<lambda>r cs. list_all (\<lambda>c. dr_method (fst c) = GET) cs \<or> (\<exists>v. gave W (inspect_request (action_name action)) v (hd cs) \<and> allowed W v))"
    by (cases action) (simp_all add: does_restart does_update_guarded)
  from doesD [OF this assms(1,2)] show ?thesis using assms(3,4) by (auto simp: list_all_iff)
qed

section \<open>Removals and failures\<close>

lemma set_aside_hd: "set_aside_calls W name p before \<Longrightarrow>
   before \<noteq> [] \<and> (\<exists>cur. gave W (inspect_request name) cur (hd before) \<and>
     json_str (json_at cur ''Id'') = Some (rp_old_id p) \<and> json_running cur = rp_was_running p)"
  by (auto simp: set_aside_calls_def)

lemma set_aside_front:
  assumes "set_aside_calls W name p before"
  shows "\<exists>front. set front \<subseteq> set before \<and> stale_removed W name front \<and> list_all (harmless W name front) front \<and>
    (\<forall>i a. (remove_request i, a) \<in> set before \<longrightarrow> (remove_request i, a) \<in> set front)"
proof -
  obtain front resp where "before = front @ [(rename_request (rp_old_id p) (previous_of name), Inr resp)]"
      "stale_removed W name front" "list_all (harmless W name front) front"
    using assms unfolding set_aside_calls_def by (elim exE conjE) (rule that)
  then show ?thesis by (intro exI [of _ front]) auto
qed

lemma set_aside_removal:
  assumes "set_aside_calls W name p before" "(remove_request i, a) \<in> set before"
  shows "stale_known W name before i"
proof -
  from assms obtain front where front: "set front \<subseteq> set before" "list_all (harmless W name front) front" "(remove_request i, a) \<in> set front"
    using set_aside_front by blast
  then have "harmless W name front (remove_request i, a)" by (simp add: list_all_iff)
  then have "stale_known W name front i" by (auto simp: harmless_def)
  then show ?thesis using front(1) by (rule stale_known_mono)
qed

text \<open>Where a call made once the current container was set aside may stand, and what a removal there is.\<close>

lemma late_removal:
  assumes rep: "replaced W name (rp_was_running p) x middle" and m: "(remove_request i, a) \<in> set (middle @ end_calls)"
    and e: "case snd x of
            Inl e \<Rightarrow> r = Inl e \<and> rolled_back name (rp_old_id p) (rp_was_running p) (fst x) end_calls
          | Inr _ \<Rightarrow> r = Inr () \<and> (\<exists>a after. end_calls = (remove_request (rp_old_id p), a) # after \<and>
              (\<forall>c \<in> set after. \<exists>i. fst c = remove_image_request i))"
  shows "(r \<noteq> Inr () \<and> (\<exists>c \<in> set middle. created W name i c)) \<or>
    (r = Inr () \<and> i = rp_old_id p \<and> (\<exists>after. end_calls = (remove_request i, a) # after) \<and>
      (rp_was_running p \<longrightarrow> (\<exists>new. middle \<noteq> [] \<and> (\<exists>c \<in> set middle. created W name new c) \<and> standing W new (last middle))))"
proof -
  have fin: "(remove_request i, a) \<in> set end_calls" using rep m by (auto simp: replaced_def list_all_iff)
  show ?thesis
  proof (cases "snd x")
    case (Inl e)
    then have "remove_request i \<in> set (map fst end_calls)" "rolled_back name (rp_old_id p) (rp_was_running p) (fst x) end_calls"
      using e fin by (auto simp: image_iff intro!: bexI [of _ "(remove_request i, a)"])
    then have "fst x = Some i" by (auto simp: rolled_back_def split: option.splits if_splits)
    then show ?thesis using rep e Inl by (auto simp: replaced_def)
  next
    case (Inr u)
    then obtain b after where "end_calls = (remove_request (rp_old_id p), b) # after" "r = Inr ()"
        "\<forall>c \<in> set after. \<exists>i. fst c = remove_image_request i"
      using e by auto
    then have "i = rp_old_id p" "a = b" "end_calls = (remove_request i, a) # after" "r = Inr ()" using fin by auto
    then show ?thesis using rep Inr by (auto simp: replaced_def split: option.splits)
  qed
qed

text \<open>
  C15: An update accounts for every container it removes: one that an earlier update left under the same name, with the
  same image and the same labels; the new one, when the update fails; or the old one, when the update succeeds, after the
  new one was created and, if the old one ran, last seen running and not unhealthy.
\<close>

theorem removals_accounted:
  assumes "update_container W name prune s = (r, t)" "du_calls s = []" "(remove_request i, a) \<in> set (du_calls t)"
  shows "stale_known W name (du_calls t) i \<or>
    (r \<noteq> Inr () \<and> (\<exists>c \<in> set (du_calls t). created W name i c)) \<or>
    (r = Inr () \<and> (\<exists>old before after. du_calls t = before @ (remove_request i, a) # after \<and>
       gave W (inspect_request name) old (hd before) \<and> json_str (json_at old ''Id'') = Some i \<and>
       (json_running old \<longrightarrow> (\<exists>new. (\<exists>c \<in> set before. created W name new c) \<and> standing W new (last before)))))"
proof -
  have "updated W name r (du_calls t)" using doesD [OF does_update assms(1,2)] .
  then show ?thesis
  proof (cases rule: updatedE)
    case early
    then show ?thesis using assms(3) by (auto simp: list_all_iff harmless_def refused_rename_def)
  next
    case (late p x before middle end_calls)
    obtain cur where cur: "before \<noteq> []" "gave W (inspect_request name) cur (hd before)"
        "json_str (json_at cur ''Id'') = Some (rp_old_id p)" "json_running cur = rp_was_running p"
      using set_aside_hd [OF late(2)] by auto
    show ?thesis
    proof (cases "(remove_request i, a) \<in> set before")
      case True
      then have "stale_known W name (du_calls t) i"
        using stale_known_mono [OF set_aside_removal [OF late(2)]] late(1) by auto
      then show ?thesis ..
    next
      case False
      then have "(remove_request i, a) \<in> set (middle @ end_calls)" using assms(3) late(1) by auto
      from late_removal [OF late(3) this late(4)] consider
          (failed) "r \<noteq> Inr ()" "\<exists>c \<in> set middle. created W name i c"
        | (ended) after where "r = Inr ()" "i = rp_old_id p" "end_calls = (remove_request i, a) # after"
            "rp_was_running p \<longrightarrow> (\<exists>new. middle \<noteq> [] \<and> (\<exists>c \<in> set middle. created W name new c) \<and> standing W new (last middle))"
        by blast
      then show ?thesis
      proof cases
        case failed
        then show ?thesis using late(1) by auto
      next
        case ended
        have "du_calls t = (before @ middle) @ (remove_request i, a) # after" using late(1) ended(3) by simp
        moreover have "json_running cur \<longrightarrow> (\<exists>new. (\<exists>c \<in> set (before @ middle). created W name new c) \<and> standing W new (last (before @ middle)))"
          using ended(4) cur(4) by auto
        ultimately show ?thesis using ended cur
          by - (rule disjI2, rule disjI2, rule conjI, rule ended(1), rule exI [of _ cur], rule exI [of _ "before @ middle"],
            rule exI [of _ after], simp)
      qed
    qed
  qed
qed


text \<open>
  C40: After an update that was interrupted between the creation of the new container and its start, the name belongs to
  a container that does not run and the service is with the one kept aside. A later update that succeeds with a newer image
  removes the container kept aside, although it runs, and starts nothing.
\<close>

theorem update_after_interruption_stops_service:
  assumes "update_container W name prune s = (Inr (), t)" "du_calls s = []"
    and new: "gave W (inspect_request name) cur (hd (du_calls t))" "\<not> json_running cur"
    and old: "\<And>c. c \<in> set (du_calls t) \<Longrightarrow> fst c = inspect_request (previous_of name) \<Longrightarrow> gave W (inspect_request (previous_of name)) aside c"
      "json_str (json_at aside ''Id'') = Some i"
    and newer: "\<exists>c \<in> set (du_calls t). \<exists>body. fst c = create_request name body"
  shows "(\<exists>a. (remove_request i, a) \<in> set (du_calls t)) \<and> (\<forall>j a. (start_request j, a) \<notin> set (du_calls t))"
proof -
  have "list_all (\<lambda>c. no_start (fst c)) (du_calls t)"
    using doesD [OF does_update_no_start assms(1,2)] new by blast
  moreover have "\<exists>a. (remove_request i, a) \<in> set (du_calls t)"
  proof -
    obtain c body where c: "c \<in> set (du_calls t)" "fst c = create_request name body" using newer by auto
    then have "\<not> harmless W name (du_calls t) c" "\<not> refused_rename name c"
      by (auto simp: harmless_def refused_rename_def create_request_def pull_request_def remove_request_def rename_request_def)
    with doesD [OF does_update assms(1,2)] c(1) obtain p before rest where
        before: "du_calls t = before @ rest" "set_aside_calls W name p before"
      by (elim updatedE) (auto simp: list_all_iff)
    obtain front where "set front \<subseteq> set (du_calls t)" "stale_removed W name front"
      using set_aside_front [OF before(2)] before(1) by auto
    then obtain d where d: "d \<in> set (du_calls t)" "fst d = inspect_request (previous_of name)"
        "\<And>stale. gave W (inspect_request (previous_of name)) stale d \<Longrightarrow>
           \<exists>a. (remove_request (str_or (previous_of name) (json_at stale ''Id'')), a) \<in> set (du_calls t)"
      unfolding stale_removed_def by blast
    show ?thesis using d(3) [OF old(1) [OF d(1,2)]] old(2) by (simp add: str_or_def)
  qed
  ultimately show ?thesis unfolding list_all_iff by (metis fst_conv)
qed

section \<open>Reports\<close>

abbreviation reports_are :: "(int \<times> command_report) list \<Rightarrow> 'd docker_run \<Rightarrow> bool" where
  "reports_are R s \<equiv> du_reports s = R"

lemma keeps_reports_call: "keeps_a (reports_are R) (docker_call W q timeout)"
  by (simp add: keeps_a_def docker_call_def split: prod.split)

lemma keeps_reports_log: "keeps_a (reports_are R) (log_line l)"
  unfolding log_line_def by (intro keeps_intros) simp

lemma keeps_reports_context: "keeps_a P m \<Longrightarrow> keeps_a P (context_a what m)"
  unfolding keeps_a_def context_a_def by (metis (mono_tags, lifting) case_prod_beta' snd_conv sum.case_eq_if)

lemmas keeps_reports_basic = keeps_intros keeps_reports_call keeps_reports_log keeps_reports_context

lemma keeps_reports_round: "keeps_a (reports_are R) (health_round W i started)"
  unfolding health_round_def inspect_def Let_def by (intro keeps_reports_basic)

lemma keeps_reports_wait: "keeps_a (reports_are R) (wait_until_healthy W i)"
proof -
  have "du_reports (snd (wait_rounds W i started s)) = du_reports s" for started s
  proof (induction W i started s rule: wait_rounds.induct)
    case (1 W i started s)
    obtain x u where x: "health_round W i started s = (x, u)" by (cases "health_round W i started s")
    then have "du_reports u = du_reports s" using keepsD_a' [OF keeps_reports_round x] by simp
    then show ?case
      using 1 [OF x [symmetric]] x by (subst wait_rounds.simps) (auto simp: health_pause_def split: sum.split)
  qed
  then show ?thesis by (simp add: keeps_a_def wait_until_healthy_def bind_a_def read_a_def)
qed

lemma keeps_reports_action: "keeps_a (reports_are R) (perform_action W action)"
proof (cases action)
  case (Restart name)
  then show ?thesis
    by (simp add: restart_container_def inspect_def check_response_def) (intro keeps_reports_basic keeps_reports_wait)
next
  case (Update name prune)
  have finish: "keeps_a (reports_are R) (finish_update W name prune p x)" for p x
    unfolding finish_update_def rollback_def remove_container_def prune_image_def
    by (intro keeps_reports_basic)
  have replace: "keeps_a (reports_are R) (replace_container W name i b spec)" for i b spec
    unfolding replace_container_def create_container_def install_container_def connect_network_def stop_container_def check_response_def
    by (intro keeps_reports_basic keeps_reports_wait)
  have "keeps_a (reports_are R) (prepare_update W name)"
    unfolding prepare_update_def compare_images_def set_aside_def remove_stale_previous_def remove_container_def pull_def
      inspect_def inspect_image_def check_response_def Let_def
    by (intro keeps_reports_basic)
  then show ?thesis
    using finish replace by (simp add: Update update_container_def) (intro keeps_reports_basic)
qed

text \<open>
  Every command that is executed is reported: at once with the reason when it is refused, and nothing is called; otherwise
  as running, then as done or failed, as the action ended, with the end of its log.
\<close>

lemma command_reported:
  assumes "execute_command W c s = (r, t)"
  shows "(\<exists>why. action_from_command c = Inl why \<and> du_calls t = du_calls s \<and>
      du_reports t = du_reports s @ [(ac_id c, \<lparr>cr_status = Failed, cr_result = why\<rparr>)]) \<or>
    (\<exists>action status result. action_from_command c = Inr action \<and> (status = Done \<or> status = Failed) \<and>
      length result \<le> COMMAND_RESULT_MAX_BYTES + 2 \<and>
      du_reports t = du_reports s @ [(ac_id c, \<lparr>cr_status = Running, cr_result = []\<rparr>), (ac_id c, \<lparr>cr_status = status, cr_result = result\<rparr>)])"
proof (cases "action_from_command c")
  case (Inl why)
  then show ?thesis using assms by (auto simp: execute_command_def report_outcome_def write_a_def)
next
  case (Inr action)
  let ?s = "s\<lparr>du_reports := du_reports s @ [(ac_id c, \<lparr>cr_status = Running, cr_result = []\<rparr>)], du_log := []\<rparr>"
  obtain x u where x: "perform_action W action ?s = (x, u)" by (cases "perform_action W action ?s")
  then have u: "du_reports u = du_reports ?s" using keepsD_a' [OF keeps_reports_action x] by simp
  show ?thesis
    using assms Inr x u excerpt_length
    by (auto simp: execute_command_def report_outcome_def action_defs log_line_def split: sum.splits)
qed

end
