(* ===== verification/Container_Witnesses.thy ===== *)
theory Container_Witnesses
  imports Container_Properties
begin

text \<open>
  The properties of the container actions on a concrete daemon, which gives the answers of a script one after the other,
  at once, whatever it is asked.
\<close>

definition ok_head :: string where
  "ok_head = ''HTTP/1.1 200 OK''"

definition missing_head :: string where
  "missing_head = ''HTTP/1.1 404 Missing''"

text \<open>An entry of the script is a body, or nothing for an answer 404.\<close>

fun scripted :: "string \<Rightarrow> string option list \<Rightarrow> (string + string) \<times> duration \<times> string option list" where
  "scripted q [] = (Inl ''closed'', 0, [])"
| "scripted q (None # answers) = (Inr (missing_head @ crlf @ crlf), 0, answers)"
| "scripted q (Some body # answers) = (Inr (ok_head @ crlf @ crlf @ body), 0, answers)"

lemma head_position:
  "position_of (crlf @ crlf) (ok_head @ crlf @ crlf @ rest) = Some (length ok_head)"
  "position_of (crlf @ crlf) (missing_head @ crlf @ crlf @ rest) = Some (length missing_head)"
  by (simp_all add: ok_head_def missing_head_def crlf_def)

lemma head_lines: "text_lines ok_head = [ok_head]" "text_lines missing_head = [missing_head]"
  by (simp_all add: text_lines_def ok_head_def missing_head_def)

lemma head_status: "status_of ok_head = Some 200" "status_of missing_head = Some 404"
proof -
  have "parse_u16 ''200'' = Some 200" "parse_u16 ''404'' = Some 404" by (simp_all add: parse_u16_def parse_nat_def char_digit_def)
  moreover have "split_whitespace ok_head = [''HTTP/1.1'', ''200'', ''OK'']"
      "split_whitespace missing_head = [''HTTP/1.1'', ''404'', ''Missing'']"
    by (simp_all add: ok_head_def missing_head_def split_whitespace_def words_from_plain words_from_space words_from_nil plain_char_def)
  ultimately show "status_of ok_head = Some 200" "status_of missing_head = Some 404"
    by (simp_all add: status_of_def head_lines)
qed

lemma head_text: "from_utf8_lossy ok_head = ok_head" "from_utf8_lossy missing_head = missing_head"
  by (rule lossy_ascii; simp add: ok_head_def missing_head_def)+

lemma parse_ok: "parse_response (ok_head @ crlf @ crlf @ body) = Inr \<lparr>dk_status = 200, dk_body = body\<rparr>"
proof -
  have "drop (length ok_head + 4) (ok_head @ crlf @ crlf @ body) = body" by (simp add: crlf_def)
  then show ?thesis by (simp add: parse_response_def head_position head_text head_status is_chunked_def head_lines)
qed

lemma parse_missing: "parse_response (missing_head @ crlf @ crlf) = Inr \<lparr>dk_status = 404, dk_body = []\<rparr>"
proof -
  have "drop (length missing_head + 4) (missing_head @ crlf @ crlf @ []) = []" by (simp add: crlf_def)
  then show ?thesis
    using head_position(2) [of "[]"] by (simp add: parse_response_def head_text head_status is_chunked_def head_lines)
qed

definition container_value :: "string \<Rightarrow> bool \<Rightarrow> json" where
  "container_value i running =
     JObject [(''Config'', JObject [(''Image'', JString ''app'')]), (''HostConfig'', JObject []), (''Id'', JString i),
       (''Image'', JString ''old''), (''Name'', JString ''/web''),
       (''State'', JObject [(''Health'', JObject [(''Status'', JString ''healthy'')]), (''Running'', JBool running)])]"

definition id_value :: "string \<Rightarrow> json" where
  "id_value i = JObject [(''Id'', JString i)]"

definition script_parse :: "string \<Rightarrow> string + json" where
  "script_parse body =
     (if body = ''a running'' then Inr (container_value ''a'' True)
      else if body = ''b running'' then Inr (container_value ''b'' True)
      else if body = ''b stopped'' then Inr (container_value ''b'' False)
      else if body = ''image'' then Inr (id_value ''new'')
      else if body = ''created'' then Inr (id_value ''c'')
      else Inl ''no value'')"

definition script_world :: "string option list docker_world" where
  "script_world =
     \<lparr>dw_daemon = scripted, dw_version = ''1'', dw_parse = script_parse, dw_stream = \<lambda>_. [], dw_as_i64 = \<lambda>_. None,
      dw_to_string = \<lambda>_. ''text'', dw_cgroup = None, dw_oversleep = \<lambda>_. 0\<rparr>"

definition script_start :: "string option list \<Rightarrow> string option list docker_run" where
  "script_start answers = \<lparr>du_daemon = answers, du_now = 0, du_calls = [], du_log = [], du_reports = []\<rparr>"

lemma script_call:
  "du_daemon s = Some body # answers \<Longrightarrow> docker_call script_world q timeout s =
     (Inr \<lparr>dk_status = 200, dk_body = body\<rparr>,
      s\<lparr>du_daemon := answers, du_calls := du_calls s @ [(q, Inr \<lparr>dk_status = 200, dk_body = body\<rparr>)]\<rparr>)"
  "du_daemon s = None # answers \<Longrightarrow> docker_call script_world q timeout s =
     (Inr \<lparr>dk_status = 404, dk_body = []\<rparr>,
      s\<lparr>du_daemon := answers, du_calls := du_calls s @ [(q, Inr \<lparr>dk_status = 404, dk_body = []\<rparr>)]\<rparr>)"
  by (simp_all add: docker_call_def docker_send_def script_world_def parse_ok parse_missing)

lemma script_parses [simp]:
  "dw_parse script_world ''a running'' = Inr (container_value ''a'' True)"
  "dw_parse script_world ''b running'' = Inr (container_value ''b'' True)"
  "dw_parse script_world ''b stopped'' = Inr (container_value ''b'' False)"
  "dw_parse script_world ''image'' = Inr (id_value ''new'')"
  "dw_parse script_world ''created'' = Inr (id_value ''c'')"
  "dw_parse script_world [] = Inl ''no value''"
  by (simp_all add: script_world_def script_parse_def)

lemma script_rest [simp]:
  "dw_cgroup script_world = None" "dw_stream script_world b = []" "dw_to_string script_world j = ''text''"
  "dw_oversleep script_world d = 0"
  by (simp_all add: script_world_def)

lemma json_parts [simp]:
  "json_at (container_value i r) ''Name'' = JString ''/web''" "json_at (container_value i r) ''Id'' = JString i"
  "json_at (container_value i r) ''Image'' = JString ''old''"
  "json_at (container_value i r) ''Config'' = JObject [(''Image'', JString ''app'')]"
  "image_of (container_value i r) = JString ''app''" "json_running (container_value i r) = r"
  "health_status (container_value i r) = Some ''healthy''"
  "json_at (id_value i) ''Id'' = JString i" "is_our_previous (container_value i r) (container_value j r')"
  by (simp_all add: container_value_def id_value_def json_at_def image_of_def json_running_def health_status_def is_our_previous_def)

lemma web_allowed [simp]: "refuse_reserved_container (self_container_id None) (container_value i r) name = Inr ()"
proof -
  have "\<not> is_reserved ''/web''" by code_simp
  then show ?thesis by (simp add: refuse_reserved_container_def self_container_id_def str_or_def)
qed

lemma script_inspect:
  "du_daemon s = Some body # answers \<Longrightarrow> dw_parse script_world body = Inr (container_value i r) \<Longrightarrow>
   inspect script_world name s = (Inr (container_value i r),
     s\<lparr>du_daemon := answers, du_calls := du_calls s @ [(inspect_request name, Inr \<lparr>dk_status = 200, dk_body = body\<rparr>)]\<rparr>)"
  by (simp add: inspect_def action_defs script_call dk_json_def is_success_def)

lemma app_reference: "\<not> looks_like_an_image_id ''app''"
  by (simp add: looks_like_an_image_id_def)

lemma script_spec: "spec_from_inspect (container_value i r) None = Inr
    \<lparr>sp_body = JObject [(''HostConfig'', JObject []), (''Image'', JString ''app''), (''NetworkingConfig'', JObject [(''EndpointsConfig'', JObject [])])],
     sp_extra_networks = []\<rparr>"
proof -
  have "bt_insert ''NetworkingConfig'' (JObject [(''EndpointsConfig'', JObject [])])
      (bt_insert ''HostConfig'' (JObject []) [(''Image'', JString ''app'')]) =
    [(''HostConfig'', JObject []), (''Image'', JString ''app''), (''NetworkingConfig'', JObject [(''EndpointsConfig'', JObject [])])]"
    by code_simp
  then show ?thesis
    by (simp add: spec_from_inspect_def container_value_def json_at_def all_binds_def kept_config_def kept_networks_def items_of_def)
qed

definition interrupted_script :: "string option list" where
  "interrupted_script =
     [Some ''b stopped'', Some [], Some ''image'', None, Some ''a running'', Some [], Some [], Some ''created'', Some []]"

definition interrupted :: "(string + unit) \<times> string option list docker_run" where
  "interrupted = update_container script_world ''web'' False (script_start interrupted_script)"

lemmas script_steps = action_defs script_inspect compare_images_def set_aside_def remove_stale_previous_def
  pull_def inspect_image_def context_a_def check_response_def is_success_def pull_outcome_def log_line_def
  script_call dk_json_def str_or_def app_reference Let_def script_spec remove_container_def stop_container_def
  replace_container_def create_container_def install_container_def finish_update_def rollback_def

abbreviation answer :: "string \<Rightarrow> string + docker_response" where
  "answer body \<equiv> Inr \<lparr>dk_status = 200, dk_body = body\<rparr>"

abbreviation missing :: "string + docker_response" where
  "missing \<equiv> Inr \<lparr>dk_status = 404, dk_body = []\<rparr>"

lemma interrupted_run:
  "fst interrupted = Inr ()"
  "du_calls (snd interrupted) =
     [(inspect_request ''web'', answer ''b stopped''), (pull_request ''app'', answer []),
      (inspect_image_request ''app'', answer ''image''), (inspect_image_request ''old'', missing),
      (inspect_request (previous_of ''web''), answer ''a running''), (remove_request ''a'', answer []),
      (rename_request ''b'' (previous_of ''web''), answer []), (create_request ''web'' ''text'', answer ''created''),
      (remove_request ''b'', answer [])]"
  unfolding interrupted_def update_container_def prepare_update_def interrupted_script_def script_start_def
  by (simp_all add: script_steps)

text \<open>An update that succeeds while the container runs.\<close>

definition success_script :: "string option list" where
  "success_script =
     [Some ''a running'', Some [], Some ''image'', None, None, Some [], Some ''created'', Some [], Some [],
      Some ''b running'', Some []]"

definition success :: "(string + unit) \<times> string option list docker_run" where
  "success = update_container script_world ''web'' False (script_start success_script)"

lemma success_run:
  "fst success = Inr ()"
  "du_calls (snd success) =
     [(inspect_request ''web'', answer ''a running''), (pull_request ''app'', answer []),
      (inspect_image_request ''app'', answer ''image''), (inspect_image_request ''old'', missing),
      (inspect_request (previous_of ''web''), missing), (rename_request ''a'' (previous_of ''web''), answer []),
      (create_request ''web'' ''text'', answer ''created''), (stop_request ''a'', answer []), (start_request ''c'', answer []),
      (inspect_request ''c'', answer ''b running''), (remove_request ''a'', answer [])]"
  unfolding success_def update_container_def prepare_update_def success_script_def script_start_def
  by (simp_all add: script_steps wait_until_healthy_def wait_rounds.simps health_round_def)

text \<open>An update whose new container cannot be started.\<close>

definition failing_script :: "string option list" where
  "failing_script =
     [Some ''a running'', Some [], Some ''image'', None, None, Some [], Some ''created'', Some [], None, Some [], Some [], Some []]"

definition failing :: "(string + unit) \<times> string option list docker_run" where
  "failing = update_container script_world ''web'' True (script_start failing_script)"

lemma failing_run:
  "\<exists>e. fst failing = Inl e"
  "map fst (du_calls (snd failing)) =
     [inspect_request ''web'', pull_request ''app'', inspect_image_request ''app'', inspect_image_request ''old'',
      inspect_request (previous_of ''web''), rename_request ''a'' (previous_of ''web''), create_request ''web'' ''text'',
      stop_request ''a'', start_request ''c'', remove_request ''c'', rename_request ''a'' ''web'', start_request ''a'']"
  unfolding failing_def update_container_def prepare_update_def failing_script_def script_start_def
  by (simp_all add: script_steps)

section \<open>Witnesses\<close>

lemma script_start_calls [simp]: "du_calls (script_start answers) = []"
  by (simp add: script_start_def)

lemma runs:
  "update_container script_world ''web'' False (script_start interrupted_script) = (Inr (), snd interrupted)"
  "update_container script_world ''web'' False (script_start success_script) = (fst success, snd success)"
  using interrupted_run(1) by (simp_all add: interrupted_def success_def prod_eq_iff)

lemma wait_ends_witness:
  "\<exists>cs. du_calls (snd (wait_until_healthy script_world ''c'' (script_start [Some ''b running'']))) =
     du_calls (script_start [Some ''b running'']) @ cs \<and> length cs \<le> 61 \<and>
   du_now (snd (wait_until_healthy script_world ''c'' (script_start [Some ''b running'']))) \<le>
     du_now (script_start [Some ''b running'']) + int (HEALTH_WAIT + HEALTH_POLL + 0 + READ_TIMEOUT) \<and>
   (fst (wait_until_healthy script_world ''c'' (script_start [Some ''b running''])) = Inr () \<longrightarrow> standing script_world ''c'' (last cs))"
  by (rule wait_ends [where r = "fst (wait_until_healthy script_world ''c'' (script_start [Some ''b running'']))"]) simp_all

lemma monitoring_stack_untouched_witness:
  "\<exists>v. gave script_world (inspect_request ''web'') v (hd (du_calls (snd interrupted))) \<and> allowed script_world v"
  using monitoring_stack_untouched [of script_world "Update ''web'' False" "script_start interrupted_script" "fst interrupted"
      "snd interrupted" "(remove_request ''a'', answer [])"]
  by (simp add: interrupted_run runs)

lemma gave_script: "dw_parse script_world body = Inr v \<Longrightarrow> gave script_world q v (q, answer body)"
  by (simp add: gave_def is_success_def)

lemma removals_accounted_witness:
  "stale_known script_world ''web'' (du_calls (snd success)) ''a'' \<or>
    (fst success \<noteq> Inr () \<and> (\<exists>c \<in> set (du_calls (snd success)). created script_world ''web'' ''a'' c)) \<or>
    (fst success = Inr () \<and> (\<exists>old before after. du_calls (snd success) = before @ (remove_request ''a'', answer []) # after \<and>
       gave script_world (inspect_request ''web'') old (hd before) \<and> json_str (json_at old ''Id'') = Some ''a'' \<and>
       (json_running old \<longrightarrow> (\<exists>new. (\<exists>c \<in> set before. created script_world ''web'' new c) \<and> standing script_world new (last before)))))"
  by (rule removals_accounted [of script_world "''web''" False "script_start success_script"])
    (simp_all add: success_run runs)


lemma update_after_interruption_stops_service_witness:
  "(\<exists>a. (remove_request ''a'', a) \<in> set (du_calls (snd interrupted))) \<and> (\<forall>j a. (start_request j, a) \<notin> set (du_calls (snd interrupted)))"
proof (rule update_after_interruption_stops_service [where W = script_world and name = "''web''" and prune = False
      and s = "script_start interrupted_script" and cur = "container_value ''b'' False" and aside = "container_value ''a'' True"])
  show "update_container script_world ''web'' False (script_start interrupted_script) = (Inr (), snd interrupted)" by (rule runs)
  show "gave script_world (inspect_request (previous_of ''web'')) (container_value ''a'' True) c"
    if "c \<in> set (du_calls (snd interrupted))" "fst c = inspect_request (previous_of ''web'')" for c
  proof -
    have "inspect_request ''web'' \<noteq> inspect_request (previous_of ''web'')"
      "inspect_image_request i \<noteq> inspect_request j" for i j
      by (simp_all add: inspect_request_def inspect_image_request_def previous_of_def PREVIOUS_SUFFIX_def)
    then show ?thesis using that by (auto simp: interrupted_run gave_script)
  qed
qed (auto simp: interrupted_run gave_script)


end
