(* ===== verification/Line_Diff.thy ===== *)
theory Line_Diff
  imports Prelude
begin

text \<open>
  The difference between two versions of a page, line by line (\<^verbatim>\<open>crates/server/src/webchange/diff.rs\<close>): the greedy
  algorithm of Myers with its array of furthest points and its trace, bounded in the number of edits, and the rendering that
  hides long runs of equal lines. What is pushed on a vector that is reversed at the end is put in front here.
\<close>

section \<open>The algorithm\<close>

definition MAX_EDIT_DISTANCE :: nat where
  "MAX_EDIT_DISTANCE = 1000"

definition CONTEXT :: nat where
  "CONTEXT = 3"

datatype edit = EdEqual | EdInsert | EdDelete

type_synonym edits = "(edit \<times> string) list"

text \<open>The diagonal run from a point: the loop that advances both coordinates over equal lines.\<close>

function snake :: "string list \<Rightarrow> string list \<Rightarrow> int \<Rightarrow> int \<Rightarrow> int \<times> int" where
  "snake a b x y =
     (if x < int (length a) \<and> y < int (length b) \<and> a ! nat x = b ! nat y then snake a b (x + 1) (y + 1) else (x, y))"
  by auto

termination
  by (relation "measure (\<lambda>(a, b, x, y). nat (int (length a) - x))") auto

declare snake.simps [simp del]

text \<open>\<open>index limit k\<close> is the place of diagonal \<open>k\<close> in the array, \<open>takes_down\<close> the choice between the two neighbours.\<close>

definition index :: "nat \<Rightarrow> int \<Rightarrow> nat" where
  "index limit k = nat (k + int limit + 1)"

definition takes_down :: "nat \<Rightarrow> int list \<Rightarrow> int \<Rightarrow> int \<Rightarrow> bool" where
  "takes_down limit v d k = (k = - d \<or> (k \<noteq> d \<and> v ! index limit (k - 1) < v ! index limit (k + 1)))"

text \<open>
  The diagonals of a round, from \<open>k\<close> by steps of two: nothing once the end is reached, the array otherwise.
\<close>

function diagonals :: "string list \<Rightarrow> string list \<Rightarrow> nat \<Rightarrow> int \<Rightarrow> int \<Rightarrow> int list \<Rightarrow> int list option" where
  "diagonals a b limit d k v =
     (if k \<le> d
      then let x = (if takes_down limit v d k then v ! index limit (k + 1) else v ! index limit (k - 1) + 1);
               (x, y) = snake a b x (x - k)
           in if int (length a) \<le> x \<and> int (length b) \<le> y then None
              else diagonals a b limit d (k + 2) (v[index limit k := x])
      else Some v)"
  by auto

termination
  by (relation "measure (\<lambda>(a, b, limit, d, k, v). nat (d - k + 1))") auto

declare diagonals.simps [simp del]

text \<open>The way back over equal lines, down to the point the round started from.\<close>

function back_snake :: "string list \<Rightarrow> int \<Rightarrow> int \<Rightarrow> int \<Rightarrow> int \<Rightarrow> edits \<Rightarrow> int \<times> int \<times> edits" where
  "back_snake a px py x y edits =
     (if px < x \<and> py < y then back_snake a px py (x - 1) (y - 1) ((EdEqual, a ! nat (x - 1)) # edits)
      else (x, y, edits))"
  by auto

termination
  by (relation "measure (\<lambda>(a, px, py, x, y, edits). nat (x - px))") auto

declare back_snake.simps [simp del]

fun backtrack_rounds ::
  "string list \<Rightarrow> string list \<Rightarrow> nat \<Rightarrow> int list list \<Rightarrow> nat \<Rightarrow> int \<Rightarrow> int \<Rightarrow> edits \<Rightarrow> int \<times> int \<times> edits" where
  "backtrack_rounds a b limit trace 0 x y edits = (x, y, edits)"
| "backtrack_rounds a b limit trace (Suc d) x y edits =
     (let v = trace ! Suc d; k = x - y;
          previous_k = (if takes_down limit v (int (Suc d)) k then k + 1 else k - 1);
          previous_x = v ! index limit previous_k;
          previous_y = previous_x - previous_k;
          (x, y, edits) = back_snake a previous_x previous_y x y edits
      in if x = previous_x
         then backtrack_rounds a b limit trace d x (y - 1) ((EdInsert, b ! nat (y - 1)) # edits)
         else backtrack_rounds a b limit trace d (x - 1) y ((EdDelete, a ! nat (x - 1)) # edits))"

definition backtrack :: "string list \<Rightarrow> string list \<Rightarrow> nat \<Rightarrow> int list list \<Rightarrow> nat \<Rightarrow> edits" where
  "backtrack a b limit trace distance =
     (case backtrack_rounds a b limit trace distance (int (length a)) (int (length b)) [] of
        (x, y, edits) \<Rightarrow> (case back_snake a 0 0 x y edits of (_, _, edits) \<Rightarrow> edits))"

function myers_rounds :: "string list \<Rightarrow> string list \<Rightarrow> nat \<Rightarrow> nat \<Rightarrow> int list \<Rightarrow> int list list \<Rightarrow> edits option" where
  "myers_rounds a b limit d v trace =
     (if d \<le> limit
      then case diagonals a b limit (int d) (- int d) v of
             None \<Rightarrow> Some (backtrack a b limit (trace @ [v]) d)
           | Some v' \<Rightarrow> myers_rounds a b limit (Suc d) v' (trace @ [v])
      else None)"
  by auto

termination
  by (relation "measure (\<lambda>(a, b, limit, d, v, trace). Suc limit - d)") auto

declare myers_rounds.simps [simp del]

definition myers :: "string list \<Rightarrow> string list \<Rightarrow> edits option" where
  "myers a b =
     (let limit = min MAX_EDIT_DISTANCE (length a + length b)
      in myers_rounds a b limit 0 (replicate (2 * limit + 3) 0) [])"

definition common_prefix :: "string list \<Rightarrow> string list \<Rightarrow> nat" where
  "common_prefix a b = length (takeWhile (\<lambda>(x, y). x = y) (zip a b))"

definition diff :: "string list \<Rightarrow> string list \<Rightarrow> edits" where
  "diff before after =
     (let prefix = common_prefix before after;
          suffix = common_prefix (rev (drop prefix before)) (rev (drop prefix after));
          middle_before = take (length before - suffix - prefix) (drop prefix before);
          middle_after = take (length after - suffix - prefix) (drop prefix after)
      in map (Pair EdEqual) (take prefix before) @
         (case myers middle_before middle_after of
            Some middle \<Rightarrow> middle
          | None \<Rightarrow> map (Pair EdDelete) middle_before @ map (Pair EdInsert) middle_after) @
         map (Pair EdEqual) (drop (length before - suffix) before))"

text \<open>Lines added and lines removed.\<close>

definition edit_counts :: "edits \<Rightarrow> nat \<times> nat" where
  "edit_counts es =
     (length (filter (\<lambda>(e, _). e = EdInsert) es), length (filter (\<lambda>(e, _). e = EdDelete) es))"

section \<open>Rendering\<close>

datatype diff_line = DlLine edit string | DlSkip nat

definition shown :: "edit \<times> string \<Rightarrow> diff_line" where
  "shown e = (case e of (op, line) \<Rightarrow> DlLine op line)"

text \<open>A run of equal lines: what is kept at its beginning and at its end, and what is hidden.\<close>

definition render_run :: "nat \<Rightarrow> bool \<Rightarrow> bool \<Rightarrow> edits \<Rightarrow> diff_line list" where
  "render_run ctx leading trailing run =
     (let head = (if leading then 0 else ctx); tail = (if trailing then 0 else ctx);
          hidden = length run - (head + tail)
      in if hidden < 2 then map shown run
         else map shown (take head run) @ [DlSkip hidden] @ map shown (drop (length run - tail) run))"

function render_from :: "nat \<Rightarrow> bool \<Rightarrow> edits \<Rightarrow> diff_line list" where
  "render_from ctx leading [] = []"
| "render_from ctx leading (e # es) =
     (if fst e \<noteq> EdEqual then shown e # render_from ctx False es
      else let run = takeWhile (\<lambda>e. fst e = EdEqual) (e # es); rest = dropWhile (\<lambda>e. fst e = EdEqual) (e # es)
           in render_run ctx leading (rest = []) run @ render_from ctx False rest)"
  by pat_completeness auto

termination
  by (relation "measure (\<lambda>(_, _, es). length es)") (auto simp: length_dropWhile_le less_Suc_eq_le)

definition render :: "edits \<Rightarrow> nat \<Rightarrow> diff_line list" where
  "render es ctx = render_from ctx True es"

end
