(* ===== verification/Line_Diff_Properties.thy ===== *)
theory Line_Diff_Properties
  imports Line_Diff
begin

text \<open>
  The script of the difference turns one version into the other, and no shorter script does, unless the limit on the
  number of edits was reached. The rendering hides equal lines only, and says how many.
\<close>

section \<open>Scripts\<close>

text \<open>What a script reads of the old version and writes of the new one, and how many edits it makes.\<close>

definition old_lines :: "edits \<Rightarrow> string list" where
  "old_lines es = map snd (filter (\<lambda>e. fst e \<noteq> EdInsert) es)"

definition new_lines :: "edits \<Rightarrow> string list" where
  "new_lines es = map snd (filter (\<lambda>e. fst e \<noteq> EdDelete) es)"

definition edit_distance :: "edits \<Rightarrow> nat" where
  "edit_distance es = length (filter (\<lambda>e. fst e \<noteq> EdEqual) es)"

lemma script_simps [simp]:
  "old_lines [] = []" "new_lines [] = []" "edit_distance [] = 0"
  "old_lines ((EdEqual, l) # es) = l # old_lines es" "new_lines ((EdEqual, l) # es) = l # new_lines es"
  "edit_distance ((EdEqual, l) # es) = edit_distance es"
  "old_lines ((EdInsert, l) # es) = old_lines es" "new_lines ((EdInsert, l) # es) = l # new_lines es"
  "edit_distance ((EdInsert, l) # es) = Suc (edit_distance es)"
  "old_lines ((EdDelete, l) # es) = l # old_lines es" "new_lines ((EdDelete, l) # es) = new_lines es"
  "edit_distance ((EdDelete, l) # es) = Suc (edit_distance es)"
  by (simp_all add: old_lines_def new_lines_def edit_distance_def)

lemma script_append [simp]:
  "old_lines (xs @ ys) = old_lines xs @ old_lines ys" "new_lines (xs @ ys) = new_lines xs @ new_lines ys"
  "edit_distance (xs @ ys) = edit_distance xs + edit_distance ys"
  by (simp_all add: old_lines_def new_lines_def edit_distance_def)

section \<open>The furthest points\<close>

text \<open>Paths in the grid of the two versions, which may leave it: \<open>d\<close> counts the moves that are not diagonal.\<close>

inductive path :: "string list \<Rightarrow> string list \<Rightarrow> nat \<Rightarrow> int \<Rightarrow> int \<Rightarrow> bool" for a b where
  path_start: "path a b 0 0 0"
| path_equal: "path a b d x y \<Longrightarrow> x < int (length a) \<Longrightarrow> y < int (length b) \<Longrightarrow> a ! nat x = b ! nat y \<Longrightarrow> path a b d (x + 1) (y + 1)"
| path_right: "path a b d x y \<Longrightarrow> path a b (Suc d) (x + 1) y"
| path_down: "path a b d x y \<Longrightarrow> path a b (Suc d) x (y + 1)"

text \<open>The furthest point of each diagonal with a number of edits, as the algorithm computes it.\<close>

fun furthest :: "string list \<Rightarrow> string list \<Rightarrow> nat \<Rightarrow> int \<Rightarrow> int" where
  "furthest a b 0 k = fst (snake a b 0 (0 - k))"
| "furthest a b (Suc d) k =
     (let x = (if k = - int (Suc d) \<or> (k \<noteq> int (Suc d) \<and> furthest a b d (k - 1) < furthest a b d (k + 1))
               then furthest a b d (k + 1) else furthest a b d (k - 1) + 1)
      in fst (snake a b x (x - k)))"

declare furthest.simps [simp del]

definition round_start :: "string list \<Rightarrow> string list \<Rightarrow> nat \<Rightarrow> int \<Rightarrow> int" where
  "round_start a b d k =
     (case d of
        0 \<Rightarrow> 0
      | Suc d \<Rightarrow> if k = - int (Suc d) \<or> (k \<noteq> int (Suc d) \<and> furthest a b d (k - 1) < furthest a b d (k + 1))
                then furthest a b d (k + 1) else furthest a b d (k - 1) + 1)"

lemma furthest_round: "furthest a b d k = fst (snake a b (round_start a b d k) (round_start a b d k - k))"
  by (cases d) (simp_all add: round_start_def furthest.simps Let_def)

lemma snake_run:
  "snake a b x y = (x', y') \<Longrightarrow>
   x \<le> x' \<and> x' - y' = x - y \<and> \<not> (x' < int (length a) \<and> y' < int (length b) \<and> a ! nat x' = b ! nat y') \<and>
   (\<forall>i. x \<le> i \<longrightarrow> i < x' \<longrightarrow> i < int (length a) \<and> i - (x - y) < int (length b) \<and> a ! nat i = b ! nat (i - (x - y)))"
proof (induction a b x y rule: snake.induct)
  case (1 a b x y)
  show ?case
  proof (cases "x < int (length a) \<and> y < int (length b) \<and> a ! nat x = b ! nat y")
    case True
    then have "snake a b (x + 1) (y + 1) = (x', y')" using 1(2) by (simp add: snake.simps [of a b x y])
    then have IH: "x + 1 \<le> x'" "x' - y' = x - y" "\<not> (x' < int (length a) \<and> y' < int (length b) \<and> a ! nat x' = b ! nat y')"
        "\<And>i. x + 1 \<le> i \<Longrightarrow> i < x' \<Longrightarrow> i < int (length a) \<and> i - (x - y) < int (length b) \<and> a ! nat i = b ! nat (i - (x - y))"
      using 1(1) [OF True] by auto
    have "i < int (length a) \<and> i - (x - y) < int (length b) \<and> a ! nat i = b ! nat (i - (x - y))"
      if "x \<le> i" "i < x'" for i
      using that True IH(4) [of i] by (cases "i = x") auto
    then show ?thesis using IH by auto
  next
    case False
    then show ?thesis using 1(2) by (auto simp: snake.simps [of a b x y])
  qed
qed

lemma path_nonneg: "path a b d x y \<Longrightarrow> 0 \<le> x \<and> 0 \<le> y \<and> \<bar>x - y\<bar> \<le> int d"
  by (induction rule: path.induct) auto

lemma furthest_run:
  "round_start a b d k \<le> furthest a b d k \<and>
   \<not> (furthest a b d k < int (length a) \<and> furthest a b d k - k < int (length b) \<and> a ! nat (furthest a b d k) = b ! nat (furthest a b d k - k)) \<and>
   (\<forall>i. round_start a b d k \<le> i \<longrightarrow> i < furthest a b d k \<longrightarrow> i < int (length a) \<and> i - k < int (length b) \<and> a ! nat i = b ! nat (i - k))"
proof -
  obtain x y where s: "snake a b (round_start a b d k) (round_start a b d k - k) = (x, y)"
    by (cases "snake a b (round_start a b d k) (round_start a b d k - k)")
  then have F: "furthest a b d k = x" and y: "y = x - k" using snake_run [OF s] by (simp_all add: furthest_round)
  show ?thesis using snake_run [OF s] unfolding F y by simp
qed

lemma path_diagonal:
  assumes "path a b d x y" "x \<le> x'"
    "\<And>i. x \<le> i \<Longrightarrow> i < x' \<Longrightarrow> i < int (length a) \<and> i - (x - y) < int (length b) \<and> a ! nat i = b ! nat (i - (x - y))"
  shows "path a b d x' (x' - (x - y))"
  using assms(2,3)
proof (induction "nat (x' - x)" arbitrary: x')
  case 0
  then show ?case using assms(1) by simp
next
  case (Suc n)
  then have "path a b d (x' - 1) (x' - 1 - (x - y))" by simp
  moreover have "x' - 1 < int (length a) \<and> x' - 1 - (x - y) < int (length b) \<and> a ! nat (x' - 1) = b ! nat (x' - 1 - (x - y))"
    using Suc(2,4) by simp
  ultimately have "path a b d (x' - 1 + 1) (x' - 1 - (x - y) + 1)" using path_equal by blast
  then show ?case by (simp add: algebra_simps)
qed

lemma path_snake: "path a b d x y \<Longrightarrow> snake a b x y = (x', y') \<Longrightarrow> path a b d x' y'"
proof -
  assume p: "path a b d x y" and s: "snake a b x y = (x', y')"
  have "path a b d x' (x' - (x - y))" using snake_run [OF s] by (intro path_diagonal [OF p]) auto
  moreover have "x' - (x - y) = y'" using snake_run [OF s] by linarith
  ultimately show ?thesis by simp
qed

abbreviation on_round :: "nat \<Rightarrow> int \<Rightarrow> bool" where
  "on_round d k \<equiv> \<bar>k\<bar> \<le> int d \<and> even (int d - k)"

lemma on_round_down: "on_round (Suc d) k \<Longrightarrow> k \<noteq> int (Suc d) \<Longrightarrow> on_round d (k + 1)"
  by presburger

lemma on_round_right: "on_round (Suc d) k \<Longrightarrow> k \<noteq> - int (Suc d) \<Longrightarrow> on_round d (k - 1)"
  by presburger

text \<open>The furthest point is reached, and nothing is further.\<close>

lemma furthest_reached: "on_round d k \<Longrightarrow> path a b d (furthest a b d k) (furthest a b d k - k)"
proof (induction d arbitrary: k)
  case 0
  then have "k = 0" by simp
  have "path a b 0 (furthest a b 0 k) (furthest a b 0 k - (0 - 0))"
    using furthest_run [of a b 0 k] \<open>k = 0\<close> by (intro path_diagonal [OF path_start]) (simp_all add: round_start_def)
  then show ?case using \<open>k = 0\<close> by simp
next
  case (Suc d)
  let ?x = "round_start a b (Suc d) k"
  have "path a b (Suc d) ?x (?x - k)"
  proof (cases "k = - int (Suc d) \<or> (k \<noteq> int (Suc d) \<and> furthest a b d (k - 1) < furthest a b d (k + 1))")
    case True
    then have "on_round d (k + 1)" using Suc.prems by (intro on_round_down) auto
    moreover have "?x = furthest a b d (k + 1)" unfolding round_start_def nat.case if_P [OF True] ..
    ultimately show ?thesis using path_down [OF Suc.IH [of "k + 1"]] by simp
  next
    case False
    then have "on_round d (k - 1)" using Suc.prems by (intro on_round_right) auto
    moreover have "?x = furthest a b d (k - 1) + 1" unfolding round_start_def nat.case if_not_P [OF False] ..
    ultimately show ?thesis using path_right [OF Suc.IH [of "k - 1"]] by (simp add: algebra_simps)
  qed
  then have "path a b (Suc d) (furthest a b (Suc d) k) (furthest a b (Suc d) k - (?x - (?x - k)))"
    using furthest_run [of a b "Suc d" k] by (intro path_diagonal) auto
  then show ?case by simp
qed

lemma furthest_step:
  "k \<noteq> int (Suc d) \<Longrightarrow> furthest a b d (k + 1) \<le> furthest a b (Suc d) k"
  "k \<noteq> - int (Suc d) \<Longrightarrow> furthest a b d (k - 1) + 1 \<le> furthest a b (Suc d) k"
  using furthest_run [of a b "Suc d" k] by (auto simp: round_start_def split: if_splits)

lemma furthest_bound: "path a b d x y \<Longrightarrow> x \<le> furthest a b d (x - y)"
proof (induction rule: path.induct)
  case path_start
  show ?case using furthest_run [of a b 0 0] by (simp add: round_start_def)
next
  case (path_equal d x y)
  have "x \<noteq> furthest a b d (x - y)"
    using furthest_run [of a b d "x - y"] path_equal.hyps by auto
  then show ?case using path_equal.IH by simp
next
  case (path_right d x y)
  have "\<bar>x - y\<bar> \<le> int d" using path_nonneg [OF path_right.hyps] by simp
  then have "furthest a b d (x - y + 1 - 1) + 1 \<le> furthest a b (Suc d) (x - y + 1)"
    by (intro furthest_step) simp
  then show ?case using path_right.IH by (simp add: algebra_simps)
next
  case (path_down d x y)
  have "\<bar>x - y\<bar> \<le> int d" using path_nonneg [OF path_down.hyps] by simp
  then have "furthest a b d (x - y - 1 + 1) \<le> furthest a b (Suc d) (x - y - 1)"
    by (intro furthest_step) simp
  then show ?case using path_down.IH by (simp add: algebra_simps)
qed

text \<open>A path that leaves the grid has wasted the edits that lead out of it.\<close>

lemma path_clipped:
  "path a b d x y \<Longrightarrow> \<exists>d'. path a b d' (min x (int (length a))) (min y (int (length b))) \<and>
     int d' + max 0 (x - int (length a)) + max 0 (y - int (length b)) \<le> int d"
proof (induction rule: path.induct)
  case path_start
  have "path a b 0 0 0" by (rule path.path_start)
  then show ?case by (intro exI [of _ 0]) simp
next
  case (path_equal d x y)
  then obtain d' where d': "path a b d' x y" "int d' \<le> int d" by auto
  then have "path a b d' (x + 1) (y + 1)" using path_equal.hyps by (intro path.path_equal)
  then show ?case using d' path_equal.hyps by (intro exI [of _ d']) auto
next
  case (path_right d x y)
  then obtain d' where d': "path a b d' (min x (int (length a))) (min y (int (length b)))"
      "int d' + max 0 (x - int (length a)) + max 0 (y - int (length b)) \<le> int d" by auto
  show ?case
  proof (cases "x < int (length a)")
    case True
    then have "path a b (Suc d') (x + 1) (min y (int (length b)))" using path.path_right [OF d'(1)] by simp
    then show ?thesis using d'(2) True by (intro exI [of _ "Suc d'"]) simp
  next
    case False
    then have "min (x + 1) (int (length a)) = min x (int (length a))" by simp
    then show ?thesis using d' False by (intro exI [of _ d']) simp
  qed
next
  case (path_down d x y)
  then obtain d' where d': "path a b d' (min x (int (length a))) (min y (int (length b)))"
      "int d' + max 0 (x - int (length a)) + max 0 (y - int (length b)) \<le> int d" by auto
  show ?case
  proof (cases "y < int (length b)")
    case True
    then have "path a b (Suc d') (min x (int (length a))) (y + 1)" using path.path_down [OF d'(1)] by simp
    then show ?thesis using d'(2) True by (intro exI [of _ "Suc d'"]) simp
  next
    case False
    then have "min (y + 1) (int (length b)) = min y (int (length b))" by simp
    then show ?thesis using d' False by (intro exI [of _ d']) simp
  qed
qed

lemma path_parity: "path a b d x y \<Longrightarrow> even (int d - (x - y))"
  by (induction rule: path.induct; presburger)

section \<open>The rounds\<close>

text \<open>The end of both versions is reached, or passed, on diagonal \<open>k\<close> in round \<open>d\<close>.\<close>

definition at_end :: "string list \<Rightarrow> string list \<Rightarrow> nat \<Rightarrow> int \<Rightarrow> bool" where
  "at_end a b d k = (int (length a) \<le> furthest a b d k \<and> int (length b) \<le> furthest a b d k - k)"

text \<open>In the first round that reaches the end, it is reached exactly.\<close>

lemma first_end_exact:
  assumes "on_round d j" "at_end a b d j" and first: "\<And>e k. e < d \<Longrightarrow> on_round e k \<Longrightarrow> \<not> at_end a b e k"
  shows "j = int (length a) - int (length b) \<and> furthest a b d j = int (length a)"
proof -
  let ?n = "int (length a)" and ?m = "int (length b)" and ?x = "furthest a b d j"
  obtain d' where d': "path a b d' ?n ?m" "int d' + max 0 (?x - ?n) + max 0 (?x - j - ?m) \<le> int d"
    using path_clipped [OF furthest_reached [OF assms(1)], of a b] assms(2) by (auto simp: at_end_def min_absorb2)
  have "on_round d' (?n - ?m)" using path_nonneg [OF d'(1)] path_parity [OF d'(1)] by simp
  moreover have "at_end a b d' (?n - ?m)" using furthest_bound [OF d'(1)] by (simp add: at_end_def)
  ultimately have "\<not> d' < d" using first by blast
  then have "?x \<le> ?n" "?x - j \<le> ?m" using d'(2) by auto
  then show ?thesis using assms(2) by (auto simp: at_end_def)
qed

text \<open>The array at the beginning of a round, and after it.\<close>

definition before_round :: "string list \<Rightarrow> string list \<Rightarrow> nat \<Rightarrow> int list \<Rightarrow> nat \<Rightarrow> bool" where
  "before_round a b limit v d =
     (length v = 2 * limit + 3 \<and>
      (case d of 0 \<Rightarrow> v ! index limit 1 = 0 | Suc d \<Rightarrow> \<forall>k. on_round d k \<longrightarrow> v ! index limit k = furthest a b d k))"

lemma index_eq: "- int limit - 1 \<le> k \<Longrightarrow> - int limit - 1 \<le> j \<Longrightarrow> index limit k = index limit j \<longleftrightarrow> k = j"
  by (auto simp: index_def)

lemma index_bound: "k \<le> int limit + 1 \<Longrightarrow> index limit k < 2 * limit + 3"
  by (auto simp: index_def)

definition goes_down :: "string list \<Rightarrow> string list \<Rightarrow> nat \<Rightarrow> int \<Rightarrow> bool" where
  "goes_down a b d k =
     (k = - int d \<or> (k \<noteq> int d \<and> furthest a b (d - 1) (k - 1) < furthest a b (d - 1) (k + 1)))"

lemma round_start_Suc:
  "round_start a b (Suc d) k = (if goes_down a b (Suc d) k then furthest a b d (k + 1) else furthest a b d (k - 1) + 1)"
  by (simp add: round_start_def goes_down_def)

lemma takes_down_goes_down:
  assumes "before_round a b limit v d" "on_round d k"
  shows "takes_down limit v (int d) k = goes_down a b d k"
proof (cases d)
  case 0
  then show ?thesis using assms(2) by (simp add: takes_down_def goes_down_def)
next
  case (Suc e)
  then have "k \<noteq> int d \<Longrightarrow> v ! index limit (k + 1) = furthest a b e (k + 1)"
      "k \<noteq> - int d \<Longrightarrow> v ! index limit (k - 1) = furthest a b e (k - 1)"
    using assms on_round_down [of k e] on_round_right [of k e] by (auto simp: before_round_def)
  then show ?thesis by (auto simp: takes_down_def goes_down_def Suc)
qed

lemma round_start_value:
  assumes "before_round a b limit v d" "on_round d k"
  shows "(if takes_down limit v (int d) k then v ! index limit (k + 1) else v ! index limit (k - 1) + 1) = round_start a b d k"
proof (cases d)
  case 0
  then show ?thesis using assms by (simp add: takes_down_def round_start_def before_round_def)
next
  case (Suc e)
  then have "k \<noteq> int d \<Longrightarrow> v ! index limit (k + 1) = furthest a b e (k + 1)"
      "k \<noteq> - int d \<Longrightarrow> v ! index limit (k - 1) = furthest a b e (k - 1)"
    using assms on_round_down [of k e] on_round_right [of k e] by (auto simp: before_round_def)
  then show ?thesis
    unfolding takes_down_goes_down [OF assms] by (auto simp: round_start_Suc Suc goes_down_def)
qed

lemma before_round_update:
  assumes "before_round a b limit v d" "on_round d k" "d \<le> limit"
  shows "before_round a b limit (v[index limit k := x]) d"
proof (cases d)
  case 0
  then show ?thesis using assms by (simp add: before_round_def index_def)
next
  case (Suc e)
  have "index limit k \<noteq> index limit j" if "on_round e j" for j
  proof -
    have "k \<noteq> j" using that assms(2) Suc by auto
    then show ?thesis using that assms(2,3) Suc by (subst index_eq) auto
  qed
  then show ?thesis using assms(1) Suc by (simp add: before_round_def)
qed

text \<open>One round: it stops at the end of both versions, or fills the array.\<close>

lemma diagonals_spec:
  assumes "before_round a b limit v d" "d \<le> limit" "- int d \<le> k" "even (int d - k)"
    "\<And>j. on_round d j \<Longrightarrow> j < k \<Longrightarrow> v ! index limit j = furthest a b d j \<and> \<not> at_end a b d j"
  shows "case diagonals a b limit (int d) k v of
      None \<Rightarrow> \<exists>j. on_round d j \<and> at_end a b d j
    | Some v' \<Rightarrow> before_round a b limit v' (Suc d) \<and> (\<forall>j. on_round d j \<longrightarrow> \<not> at_end a b d j)"
  using assms
proof (induction a b limit "int d" k v rule: diagonals.induct)
  case (1 a b limit k v)
  show ?case
  proof (cases "k \<le> int d")
    case False
    then have "diagonals a b limit (int d) k v = Some v" by (simp add: diagonals.simps)
    moreover have "v ! index limit j = furthest a b d j \<and> \<not> at_end a b d j" if "on_round d j" for j
    proof -
      have "j < k" using that False by arith
      then show ?thesis using 1(6) that by blast
    qed
    ultimately show ?thesis using 1(2) by (simp add: before_round_def)
  next
    case True
    then have k: "on_round d k" using 1(4,5) by simp
    let ?x = "if takes_down limit v (int d) k then v ! index limit (k + 1) else v ! index limit (k - 1) + 1"
    obtain x y where s: "snake a b ?x (?x - k) = (x, y)" by (cases "snake a b ?x (?x - k)")
    have x: "x = furthest a b d k"
      using s unfolding round_start_value [OF 1(2) k] by (simp add: furthest_round)
    have y: "y = x - k" using snake_run [OF s] by simp
    have at: "int (length a) \<le> x \<and> int (length b) \<le> y \<longleftrightarrow> at_end a b d k" using x y by (simp add: at_end_def)
    show ?thesis
    proof (cases "at_end a b d k")
      case True
      then have "diagonals a b limit (int d) k v = None"
        using \<open>k \<le> int d\<close> s at by (subst diagonals.simps) (simp add: Let_def)
      then show ?thesis using True k by auto
    next
      case False
      let ?v = "v[index limit k := x]"
      have step: "diagonals a b limit (int d) k v = diagonals a b limit (int d) (k + 2) ?v"
      proof -
        have no: "(int (length a) \<le> x \<and> int (length b) \<le> y) = False" using at False by simp
        show ?thesis
          unfolding diagonals.simps [of a b limit "int d" k v] if_P [OF \<open>k \<le> int d\<close>] Let_def s prod.case no if_False ..
      qed
      have v: "?v ! index limit j = furthest a b d j \<and> \<not> at_end a b d j" if "on_round d j" "j < k + 2" for j
      proof (cases "j = k")
        case True
        have "k \<le> int limit + 1" using k 1(3) by arith
        then have "index limit k < length v" using 1(2) index_bound [of k limit] by (simp add: before_round_def)
        then show ?thesis using False x True by simp
      next
        case ne: False
        have "j < k" using that k ne by presburger
        moreover have "index limit k \<noteq> index limit j" using that k ne 1(3) by (subst index_eq) auto
        ultimately show ?thesis using 1(6) [OF that(1)] by simp
      qed
      show ?thesis
        unfolding step
      proof (rule 1(1) [OF \<open>k \<le> int d\<close> refl s [symmetric] refl])
        show "before_round a b limit ?v d" using 1(2) k 1(3) by (rule before_round_update)
      qed (use False at v 1(3,4,5) in auto)
    qed
  qed
qed

lemma before_round_start: "before_round a b limit (replicate (2 * limit + 3) 0) 0"
  by (simp add: before_round_def index_def)

text \<open>The whole search: the first round that reaches the end, if the limit allows one, with the trace of the rounds before.\<close>

definition found :: "string list \<Rightarrow> string list \<Rightarrow> nat \<Rightarrow> nat \<Rightarrow> int list list \<Rightarrow> bool" where
  "found a b limit d trace =
     (d \<le> limit \<and> (\<exists>j. on_round d j \<and> at_end a b d j) \<and> (\<forall>e < d. \<forall>j. on_round e j \<longrightarrow> \<not> at_end a b e j) \<and>
      (\<forall>e \<le> d. before_round a b limit (trace ! e) e))"

lemma myers_rounds_spec:
  assumes "before_round a b limit v d" "length trace = d" "\<And>e. e < d \<Longrightarrow> before_round a b limit (trace ! e) e"
    "\<And>e j. e < d \<Longrightarrow> on_round e j \<Longrightarrow> \<not> at_end a b e j"
  shows "case myers_rounds a b limit d v trace of
      None \<Rightarrow> \<forall>e \<le> limit. \<forall>j. on_round e j \<longrightarrow> \<not> at_end a b e j
    | Some es \<Rightarrow> \<exists>d' trace'. es = backtrack a b limit trace' d' \<and> found a b limit d' trace'"
  using assms
proof (induction a b limit d v trace rule: myers_rounds.induct)
  case (1 a b limit d v trace)
  show ?case
  proof (cases "d \<le> limit")
    case False
    then show ?thesis using 1(5) by (subst myers_rounds.simps) simp
  next
    case True
    have trace: "before_round a b limit ((trace @ [v]) ! e) e" if "e \<le> d" for e
      using that 1(2,3,4) by (cases "e = d") (simp_all add: nth_append)
    have round: "case diagonals a b limit (int d) (- int d) v of
        None \<Rightarrow> \<exists>j. on_round d j \<and> at_end a b d j
      | Some v' \<Rightarrow> before_round a b limit v' (Suc d) \<and> (\<forall>j. on_round d j \<longrightarrow> \<not> at_end a b d j)"
      using 1(2) True by (intro diagonals_spec) auto
    show ?thesis
    proof (cases "diagonals a b limit (int d) (- int d) v")
      case None
      then have "myers_rounds a b limit d v trace = Some (backtrack a b limit (trace @ [v]) d)"
        using True by (subst myers_rounds.simps) simp
      moreover have "found a b limit d (trace @ [v])"
        using round None True trace 1(5) by (auto simp: found_def)
      ultimately show ?thesis by auto
    next
      case (Some v')
      then have step: "myers_rounds a b limit d v trace = myers_rounds a b limit (Suc d) v' (trace @ [v])"
        using True by (subst myers_rounds.simps) simp
      show ?thesis
        unfolding step
      proof (rule 1(1) [OF True Some])
        show "before_round a b limit v' (Suc d)" using round Some by simp
        show "before_round a b limit ((trace @ [v]) ! e) e" if "e < Suc d" for e using that trace by simp
        show "\<not> at_end a b e j" if "e < Suc d" "on_round e j" for e j
          using that round Some 1(5) by (cases "e = d") auto
      qed (simp add: 1(3))
    qed
  qed
qed

lemma myers_spec:
  "case myers a b of
      None \<Rightarrow> \<forall>e \<le> min MAX_EDIT_DISTANCE (length a + length b). \<forall>j. on_round e j \<longrightarrow> \<not> at_end a b e j
    | Some es \<Rightarrow> \<exists>limit d trace. es = backtrack a b limit trace d \<and> found a b limit d trace"
  using myers_rounds_spec [of a b "min MAX_EDIT_DISTANCE (length a + length b)" "replicate (2 * min MAX_EDIT_DISTANCE (length a + length b) + 3) 0" 0 "[]"]
    before_round_start
  by (auto simp: myers_def Let_def split: option.splits)

section \<open>The way back\<close>

text \<open>What is written so far rebuilds both versions from the point that was reached.\<close>

definition rebuilds :: "string list \<Rightarrow> string list \<Rightarrow> int \<Rightarrow> int \<Rightarrow> edits \<Rightarrow> bool" where
  "rebuilds a b x y es =
     (0 \<le> x \<and> x \<le> int (length a) \<and> 0 \<le> y \<and> y \<le> int (length b) \<and>
      old_lines es = drop (nat x) a \<and> new_lines es = drop (nat y) b)"

lemma drop_step: "0 < x \<Longrightarrow> x \<le> int (length a) \<Longrightarrow> a ! nat (x - 1) # drop (nat x) a = drop (nat (x - 1)) a"
  by (metis Cons_nth_drop_Suc Suc_nat_eq_nat_zadd1 diff_add_cancel int_one_le_iff_zero_less le_diff_eq nat_less_iff zle_diff1_eq add.commute add_0)

lemma back_snake_rebuilds:
  assumes "rebuilds a b x y es" "0 \<le> px" "0 \<le> py" "px \<le> x" "py \<le> y"
    "\<And>i. max px (py + (x - y)) \<le> i \<Longrightarrow> i < x \<Longrightarrow> a ! nat i = b ! nat (i - (x - y))"
  shows "\<exists>es'. back_snake a px py x y es = (max px (py + (x - y)), max px (py + (x - y)) - (x - y), es') \<and>
    rebuilds a b (max px (py + (x - y))) (max px (py + (x - y)) - (x - y)) es' \<and> edit_distance es' = edit_distance es"
  using assms
proof (induction a px py x y es rule: back_snake.induct)
  case (1 a px py x y es)
  show ?case
  proof (cases "px < x \<and> py < y")
    case True
    let ?es = "(EdEqual, a ! nat (x - 1)) # es"
    have "a ! nat (x - 1) = b ! nat (x - 1 - (x - y))" using 1(7) [of "x - 1"] True by simp
    then have same: "a ! nat (x - 1) = b ! nat (y - 1)" by simp
    have "rebuilds a b (x - 1) (y - 1) ?es"
      using 1(2,3,4) True same drop_step [of x a] drop_step [of y b] by (auto simp: rebuilds_def)
    from 1(1) [OF True this 1(3,4)] show ?thesis
      using True 1(7) by (auto simp: back_snake.simps [of a px py x y es])
  next
    case False
    then have "max px (py + (x - y)) = x" using 1(5,6) by auto
    then show ?thesis using False 1(2) by (auto simp: back_snake.simps [of a px py x y es])
  qed
qed

lemma backtrack_rounds_rebuilds:
  assumes "\<And>e. e \<le> d \<Longrightarrow> before_round a b limit (trace ! e) e" "on_round d k"
    "rebuilds a b (furthest a b d k) (furthest a b d k - k) es"
  shows "\<exists>es'. backtrack_rounds a b limit trace d (furthest a b d k) (furthest a b d k - k) es = (furthest a b 0 0, furthest a b 0 0, es') \<and>
    rebuilds a b (furthest a b 0 0) (furthest a b 0 0) es' \<and> edit_distance es' = d + edit_distance es"
  using assms
proof (induction d arbitrary: k es)
  case 0
  then have "k = 0" by simp
  then show ?case using 0 by simp
next
  case (Suc d)
  let ?x = "furthest a b (Suc d) k" and ?v = "trace ! Suc d"
  let ?pk = "if goes_down a b (Suc d) k then k + 1 else k - 1"
  let ?px = "furthest a b d ?pk" and ?py = "furthest a b d ?pk - ?pk"
  have v: "before_round a b limit ?v (Suc d)" by (simp add: Suc.prems(1))
  have pk: "on_round d ?pk"
  proof (cases "goes_down a b (Suc d) k")
    case True
    then have "k \<noteq> int (Suc d)" by (auto simp: goes_down_def)
    then show ?thesis using on_round_down [OF Suc.prems(2)] True by simp
  next
    case False
    then have "k \<noteq> - int (Suc d)" by (simp add: goes_down_def)
    then show ?thesis using on_round_right [OF Suc.prems(2)] False by simp
  qed
  then have px: "?v ! index limit ?pk = ?px" using v by (simp add: before_round_def)
  have "path a b d ?px ?py" using pk by (rule furthest_reached)
  then have pos: "0 \<le> ?px" "0 \<le> ?py" using path_nonneg by blast+
  have start: "round_start a b (Suc d) k = max ?px (?py + k)" by (simp add: round_start_Suc)
  have run: "max ?px (?py + k) \<le> ?x"
      "\<And>i. max ?px (?py + k) \<le> i \<Longrightarrow> i < ?x \<Longrightarrow> a ! nat i = b ! nat (i - k)"
    using furthest_run [of a b "Suc d" k] unfolding start by auto
  define z where "z = max ?px (?py + k)"
  obtain es1 where es1: "back_snake a ?px ?py ?x (?x - k) es = (z, z - k, es1)" "rebuilds a b z (z - k) es1" "edit_distance es1 = edit_distance es"
    using back_snake_rebuilds [OF Suc.prems(3), of ?px ?py] pos run by (auto simp: z_def)
  have IH: "\<exists>es'. backtrack_rounds a b limit trace d ?px ?py es2 = (furthest a b 0 0, furthest a b 0 0, es') \<and>
      rebuilds a b (furthest a b 0 0) (furthest a b 0 0) es' \<and> edit_distance es' = d + edit_distance es2"
    if "rebuilds a b ?px ?py es2" for es2
    using Suc.IH [OF _ pk that] Suc.prems(1) by simp
  have unfold_step: "backtrack_rounds a b limit trace (Suc d) ?x (?x - k) es =
      (if z = ?px then backtrack_rounds a b limit trace d z (z - k - 1) ((EdInsert, b ! nat (z - k - 1)) # es1)
       else backtrack_rounds a b limit trace d (z - 1) (z - k) ((EdDelete, a ! nat (z - 1)) # es1))"
  proof -
    have k: "?x - (?x - k) = k" by simp
    show ?thesis
      unfolding backtrack_rounds.simps(2) Let_def k takes_down_goes_down [OF v Suc.prems(2)] px es1(1) prod.case ..
  qed
  show ?case
  proof (cases "goes_down a b (Suc d) k")
    case True
    then have z: "?px = z" "?py = z - k - 1" by (simp_all add: z_def)
    have "rebuilds a b z (z - k - 1) ((EdInsert, b ! nat (z - k - 1)) # es1)"
      using es1(2) pos(1) [unfolded z(1)] pos(2) [unfolded z(2)] drop_step [of "z - k" b] by (auto simp: rebuilds_def)
    then show ?thesis
      using IH [of "(EdInsert, b ! nat (z - k - 1)) # es1"] es1(3) unfolding unfold_step z(2) unfolding z(1) by simp
  next
    case False
    then have z: "?px = z - 1" "?py = z - k" by (simp_all add: z_def)
    have "rebuilds a b (z - 1) (z - k) ((EdDelete, a ! nat (z - 1)) # es1)"
      using es1(2) pos(1) [unfolded z(1)] pos(2) [unfolded z(2)] drop_step [of z a] by (auto simp: rebuilds_def)
    then show ?thesis
      using IH [of "(EdDelete, a ! nat (z - 1)) # es1"] es1(3) unfolding unfold_step z(2) unfolding z(1) by simp
  qed
qed

text \<open>The script of the search rebuilds both versions, with as many edits as there were rounds before the last.\<close>

lemma found_rebuilds:
  assumes "found a b limit d trace"
  shows "old_lines (backtrack a b limit trace d) = a \<and> new_lines (backtrack a b limit trace d) = b \<and>
    edit_distance (backtrack a b limit trace d) = d"
proof -
  obtain j where j: "on_round d j" "at_end a b d j" "\<And>e k. e < d \<Longrightarrow> on_round e k \<Longrightarrow> \<not> at_end a b e k"
    using assms by (auto simp: found_def)
  have exact: "j = int (length a) - int (length b)" "furthest a b d j = int (length a)"
    using first_end_exact [OF j] by auto
  have "rebuilds a b (furthest a b d j) (furthest a b d j - j) []" using exact by (simp add: rebuilds_def)
  then obtain es where es: "backtrack_rounds a b limit trace d (int (length a)) (int (length b)) [] = (furthest a b 0 0, furthest a b 0 0, es)"
      "rebuilds a b (furthest a b 0 0) (furthest a b 0 0) es" "edit_distance es = d"
    using backtrack_rounds_rebuilds [OF _ j(1), of a b limit trace "[]"] assms exact by (auto simp: found_def)
  have "furthest a b 0 0 = fst (snake a b 0 0)" by (simp add: furthest.simps)
  have "\<exists>es'. back_snake a 0 0 (furthest a b 0 0) (furthest a b 0 0) es = (0, 0, es') \<and> rebuilds a b 0 0 es' \<and> edit_distance es' = edit_distance es"
    using back_snake_rebuilds [OF es(2), of 0 0] furthest_run [of a b 0 0] by (simp add: round_start_def)
  then show ?thesis using es by (auto simp: backtrack_def rebuilds_def)
qed

text \<open>Every script is a path.\<close>

lemma take_snoc: "xs @ [x] = take k ys \<Longrightarrow> k \<le> length ys \<Longrightarrow> \<exists>i. k = Suc i \<and> xs = take i ys \<and> x = ys ! i"
proof -
  assume *: "xs @ [x] = take k ys" "k \<le> length ys"
  then have "k = Suc (length xs)" by (metis length_append_singleton length_take min.absorb2)
  then show ?thesis using * by (auto simp: take_Suc_conv_app_nth)
qed

lemma script_path:
  "old_lines es = take i a \<Longrightarrow> new_lines es = take j b \<Longrightarrow> i \<le> length a \<Longrightarrow> j \<le> length b \<Longrightarrow> path a b (edit_distance es) (int i) (int j)"
proof (induction es arbitrary: i j rule: rev_induct)
  case Nil
  then have "i = 0" "j = 0" by (auto dest: sym)
  then show ?case by (simp add: path_start)
next
  case (snoc e es)
  obtain op l where e: "e = (op, l)" by (cases e)
  show ?case
  proof (cases op)
    case EdEqual
    then obtain i' j' where "i = Suc i'" "old_lines es = take i' a" "l = a ! i'" "j = Suc j'" "new_lines es = take j' b" "l = b ! j'"
      using snoc.prems e take_snoc [of "old_lines es" l i a] take_snoc [of "new_lines es" l j b] by auto
    then show ?thesis
      using path_equal [OF snoc.IH [of i' j']] snoc.prems EdEqual e by (simp add: add.commute)
  next
    case EdInsert
    then obtain j' where "j = Suc j'" "new_lines es = take j' b"
      using snoc.prems e take_snoc [of "new_lines es" l j b] by auto
    then show ?thesis
      using path_down [OF snoc.IH [of i j']] snoc.prems EdInsert e by (simp add: add.commute)
  next
    case EdDelete
    then obtain i' where "i = Suc i'" "old_lines es = take i' a"
      using snoc.prems e take_snoc [of "old_lines es" l i a] by auto
    then show ?thesis
      using path_right [OF snoc.IH [of i' j]] snoc.prems EdDelete e by (simp add: add.commute)
  qed
qed

section \<open>The search\<close>

lemma script_reaches_end:
  assumes "old_lines es = a" "new_lines es = b"
  shows "\<exists>j. on_round (edit_distance es) j \<and> at_end a b (edit_distance es) j"
proof -
  have p: "path a b (edit_distance es) (int (length a)) (int (length b))"
    using assms by (intro script_path) auto
  then have "on_round (edit_distance es) (int (length a) - int (length b))"
    using path_nonneg [OF p] path_parity [OF p] by simp
  moreover have "at_end a b (edit_distance es) (int (length a) - int (length b))"
    using furthest_bound [OF p] by (simp add: at_end_def)
  ultimately show ?thesis by blast
qed

lemma all_deleted [simp]:
  "old_lines (map (Pair EdDelete) ls) = ls" "new_lines (map (Pair EdDelete) ls) = []" "edit_distance (map (Pair EdDelete) ls) = length ls"
  by (induction ls) simp_all

lemma all_inserted [simp]:
  "old_lines (map (Pair EdInsert) ls) = []" "new_lines (map (Pair EdInsert) ls) = ls" "edit_distance (map (Pair EdInsert) ls) = length ls"
  by (induction ls) simp_all

lemma all_equal [simp]:
  "old_lines (map (Pair EdEqual) ls) = ls" "new_lines (map (Pair EdEqual) ls) = ls" "edit_distance (map (Pair EdEqual) ls) = 0"
  by (induction ls) simp_all

lemma myers_script:
  "myers a b = Some es \<Longrightarrow> old_lines es = a \<and> new_lines es = b"
  using myers_spec [of a b] found_rebuilds by fastforce

lemma myers_shortest:
  "myers a b = Some es \<Longrightarrow> old_lines es' = a \<Longrightarrow> new_lines es' = b \<Longrightarrow> edit_distance es \<le> edit_distance es'"
proof -
  assume m: "myers a b = Some es" and e: "old_lines es' = a" "new_lines es' = b"
  obtain limit d trace where f: "es = backtrack a b limit trace d" "found a b limit d trace"
    using myers_spec [of a b] m by auto
  have "\<not> edit_distance es' < d" using f(2) script_reaches_end [OF e] by (auto simp: found_def)
  then show ?thesis using found_rebuilds [OF f(2)] f(1) by simp
qed

lemma myers_gives_up:
  "myers a b = None \<Longrightarrow> old_lines es = a \<Longrightarrow> new_lines es = b \<Longrightarrow> MAX_EDIT_DISTANCE < edit_distance es"
proof -
  assume m: "myers a b = None" and e: "old_lines es = a" "new_lines es = b"
  have never: "\<not> at_end a b e j" if "e \<le> MAX_EDIT_DISTANCE" "e \<le> length a + length b" "on_round e j" for e j
    using myers_spec [of a b] m that by simp
  let ?all = "map (Pair EdDelete) a @ map (Pair EdInsert) b"
  have "MAX_EDIT_DISTANCE < length a + length b"
    using script_reaches_end [of ?all a b] never [of "length a + length b"] by (fastforce simp: not_less)
  moreover have "edit_distance es \<le> MAX_EDIT_DISTANCE \<Longrightarrow> \<not> edit_distance es \<le> length a + length b"
    using script_reaches_end [OF e] never by blast
  ultimately show ?thesis by linarith
qed

section \<open>The common beginning and end\<close>

lemma unwritten:
  "new_lines es = l # ls \<Longrightarrow> \<exists>es'. old_lines es' = old_lines es \<and> new_lines es' = ls \<and> edit_distance es' \<le> Suc (edit_distance es)"
proof (induction es)
  case (Cons e es)
  obtain op t where e: "e = (op, t)" by (cases e)
  show ?case
  proof (cases op)
    case EdEqual
    then show ?thesis using Cons.prems e by (intro exI [of _ "(EdDelete, t) # es"]) simp
  next
    case EdInsert
    then show ?thesis using Cons.prems e by (intro exI [of _ es]) simp
  next
    case EdDelete
    then obtain es' where "old_lines es' = old_lines es" "new_lines es' = ls" "edit_distance es' \<le> Suc (edit_distance es)"
      using Cons e by auto
    then show ?thesis using EdDelete e by (intro exI [of _ "(EdDelete, t) # es'"]) simp
  qed
qed simp

lemma unread:
  "old_lines es = l # ls \<Longrightarrow> \<exists>es'. new_lines es' = new_lines es \<and> old_lines es' = ls \<and> edit_distance es' \<le> Suc (edit_distance es)"
proof (induction es)
  case (Cons e es)
  obtain op t where e: "e = (op, t)" by (cases e)
  show ?case
  proof (cases op)
    case EdEqual
    then show ?thesis using Cons.prems e by (intro exI [of _ "(EdInsert, t) # es"]) simp
  next
    case EdDelete
    then show ?thesis using Cons.prems e by (intro exI [of _ es]) simp
  next
    case EdInsert
    then obtain es' where "new_lines es' = new_lines es" "old_lines es' = ls" "edit_distance es' \<le> Suc (edit_distance es)"
      using Cons e by auto
    then show ?thesis using EdInsert e by (intro exI [of _ "(EdInsert, t) # es'"]) simp
  qed
qed simp

lemma script_without_first:
  "old_lines es = l # as \<Longrightarrow> new_lines es = l # bs \<Longrightarrow>
   \<exists>es'. old_lines es' = as \<and> new_lines es' = bs \<and> edit_distance es' \<le> edit_distance es"
proof (cases es)
  case (Cons e r)
  assume s: "old_lines es = l # as" "new_lines es = l # bs"
  obtain op t where e: "e = (op, t)" by (cases e)
  show ?thesis
  proof (cases op)
    case EdEqual
    then show ?thesis using s Cons e by (intro exI [of _ r]) simp
  next
    case EdInsert
    then show ?thesis using s Cons e unread [of r l as] by auto
  next
    case EdDelete
    then show ?thesis using s Cons e unwritten [of r l bs] by auto
  qed
qed simp

lemma script_without_prefix:
  "old_lines es = p @ as \<Longrightarrow> new_lines es = p @ bs \<Longrightarrow>
   \<exists>es'. old_lines es' = as \<and> new_lines es' = bs \<and> edit_distance es' \<le> edit_distance es"
proof (induction p arbitrary: es)
  case (Cons l p)
  then obtain es1 where "old_lines es1 = p @ as" "new_lines es1 = p @ bs" "edit_distance es1 \<le> edit_distance es"
    using script_without_first [of es l "p @ as" "p @ bs"] by auto
  then show ?case using Cons.IH [of es1] by auto
qed auto

lemma script_rev: "old_lines (rev es) = rev (old_lines es)" "new_lines (rev es) = rev (new_lines es)" "edit_distance (rev es) = edit_distance es"
  by (simp_all add: old_lines_def new_lines_def edit_distance_def rev_map rev_filter [symmetric])

lemma script_without_ends:
  assumes "old_lines es = p @ as @ q" "new_lines es = p @ bs @ q"
  shows "\<exists>es'. old_lines es' = as \<and> new_lines es' = bs \<and> edit_distance es' \<le> edit_distance es"
proof -
  obtain es1 where 1: "old_lines es1 = as @ q" "new_lines es1 = bs @ q" "edit_distance es1 \<le> edit_distance es"
    using script_without_prefix [OF assms] by auto
  then obtain es2 where "old_lines es2 = rev as" "new_lines es2 = rev bs" "edit_distance es2 \<le> edit_distance es"
    using script_without_prefix [of "rev es1" "rev q" "rev as" "rev bs"] by (auto simp: script_rev)
  then show ?thesis by (intro exI [of _ "rev es2"]) (simp add: script_rev)
qed

lemma common_prefix_same: "n \<le> common_prefix a b \<Longrightarrow> take n a = take n b"
proof (induction a arbitrary: b n)
  case (Cons x a)
  then show ?case by (cases b; cases n) (auto simp: common_prefix_def split: if_splits)
qed (simp add: common_prefix_def)

lemma common_prefix_bound: "common_prefix a b \<le> length a \<and> common_prefix a b \<le> length b"
  unfolding common_prefix_def using length_takeWhile_le [of "\<lambda>(x, y). x = y" "zip a b"] by simp

text \<open>Both versions are the common beginning, their middle and the common end.\<close>

lemma diff_parts:
  obtains p as bs q where "before = p @ as @ q" "after = p @ bs @ q"
    "diff before after = map (Pair EdEqual) p @ (case myers as bs of Some m \<Rightarrow> m | None \<Rightarrow> map (Pair EdDelete) as @ map (Pair EdInsert) bs) @
       map (Pair EdEqual) q"
proof -
  define n where "n = common_prefix before after"
  define ra where "ra = drop n before"
  define rb where "rb = drop n after"
  define s where "s = common_prefix (rev ra) (rev rb)"
  have n: "n \<le> length before" "n \<le> length after" using common_prefix_bound by (simp_all add: n_def)
  have s: "s \<le> length ra" "s \<le> length rb" using common_prefix_bound [of "rev ra" "rev rb"] by (simp_all add: s_def)
  have p: "take n before = take n after" unfolding n_def by (rule common_prefix_same) simp
  have "take s (rev ra) = take s (rev rb)" unfolding s_def by (rule common_prefix_same) simp
  then have q: "drop (length ra - s) ra = drop (length rb - s) rb" by (simp add: take_rev)
  have la: "length before - s - n = length ra - s" and lb: "length after - s - n = length rb - s"
    and lq: "drop (length before - s) before = drop (length ra - s) ra"
    using n s by (simp_all add: ra_def rb_def)
  show thesis
  proof (rule that)
    show "before = take n before @ take (length ra - s) ra @ drop (length ra - s) ra" by (simp only: ra_def append_take_drop_id)
    show "after = take n before @ take (length rb - s) rb @ drop (length ra - s) ra" by (simp only: p q rb_def append_take_drop_id)
    show "diff before after = map (Pair EdEqual) (take n before) @
        (case myers (take (length ra - s) ra) (take (length rb - s) rb) of Some m \<Rightarrow> m
         | None \<Rightarrow> map (Pair EdDelete) (take (length ra - s) ra) @ map (Pair EdInsert) (take (length rb - s) rb)) @
        map (Pair EdEqual) (drop (length ra - s) ra)"
      unfolding diff_def Let_def n_def [symmetric] ra_def [symmetric] rb_def [symmetric] s_def [symmetric] la lb lq ..
  qed
qed

text \<open>
  C35: Page difference replays. The script of \<open>diff\<close> read from one side is the old page line by line, and from the other the
  new page, whatever the pages and whether or not the search gave up.
\<close>
theorem diff_replays: "old_lines (diff before after) = before \<and> new_lines (diff before after) = after"
proof -
  obtain p as bs q where "before = p @ as @ q" "after = p @ bs @ q"
    "diff before after = map (Pair EdEqual) p @ (case myers as bs of Some m \<Rightarrow> m | None \<Rightarrow> map (Pair EdDelete) as @ map (Pair EdInsert) bs) @
       map (Pair EdEqual) q"
    by (rule diff_parts)
  then show ?thesis using myers_script [of as bs] by (cases "myers as bs") auto
qed

text \<open>
  C36: Page difference is minimal. If any script that turns one page into the other has at most \<open>MAX_EDIT_DISTANCE\<close>
  edits, the script of \<open>diff\<close> has no more edits than it.
\<close>
theorem diff_minimal:
  assumes "old_lines es = before" "new_lines es = after" "edit_distance es \<le> MAX_EDIT_DISTANCE"
  shows "edit_distance (diff before after) \<le> edit_distance es"
proof -
  obtain p as bs q where d: "before = p @ as @ q" "after = p @ bs @ q"
    "diff before after = map (Pair EdEqual) p @ (case myers as bs of Some m \<Rightarrow> m | None \<Rightarrow> map (Pair EdDelete) as @ map (Pair EdInsert) bs) @
       map (Pair EdEqual) q"
    by (rule diff_parts)
  obtain es' where es': "old_lines es' = as" "new_lines es' = bs" "edit_distance es' \<le> edit_distance es"
    using script_without_ends [of es p as q bs] assms d by auto
  show ?thesis
  proof (cases "myers as bs")
    case None
    then show ?thesis using myers_gives_up [OF None es'(1,2)] es'(3) assms(3) by simp
  next
    case (Some m)
    then show ?thesis using myers_shortest [OF Some es'(1,2)] es'(3) d by simp
  qed
qed

theorem diff_minimal_witness:
  "edit_distance (diff [''a'', ''b''] [''b'', ''c'']) \<le> 2"
  using diff_minimal [of "[(EdDelete, ''a''), (EdEqual, ''b''), (EdInsert, ''c'')]" "[''a'', ''b'']" "[''b'', ''c'']"]
  by (simp add: MAX_EDIT_DISTANCE_def)

section \<open>The rendering\<close>

text \<open>A rendering accounts for a script: its lines in order, and for a skip as many equal lines, at least two.\<close>

fun accounts_for :: "diff_line list \<Rightarrow> edits \<Rightarrow> bool" where
  "accounts_for [] es = (es = [])"
| "accounts_for (DlLine op l # ds) es = (case es of [] \<Rightarrow> False | e # es' \<Rightarrow> e = (op, l) \<and> accounts_for ds es')"
| "accounts_for (DlSkip n # ds) es =
     (2 \<le> n \<and> n \<le> length es \<and> (\<forall>e \<in> set (take n es). fst e = EdEqual) \<and> accounts_for ds (drop n es))"

lemma accounts_shown [simp]: "accounts_for (map shown es @ ds) (es @ es') = accounts_for ds es'"
  by (induction es) (auto simp: shown_def split: prod.splits)

lemma accounts_run:
  assumes "\<forall>e \<in> set run. fst e = EdEqual" "accounts_for ds es"
  shows "accounts_for (render_run ctx leading trailing run @ ds) (run @ es)"
proof -
  define h t where "h = (if leading then 0 else ctx)" and "t = (if trailing then 0 else ctx)"
  show ?thesis
  proof (cases "length run - (h + t) < 2")
    case True
    then show ?thesis using assms(2) by (simp add: render_run_def h_def t_def Let_def)
  next
    case False
    let ?n = "length run - (h + t)"
    have split: "run = take h run @ take ?n (drop h run) @ drop (length run - t) run"
    proof -
      have "drop (length run - t) run = drop ?n (drop h run)" using False by (simp add: add.commute)
      then show ?thesis by (simp only: append_take_drop_id)
    qed
    have mid: "\<forall>e \<in> set (take ?n (drop h run)). fst e = EdEqual" "length (take ?n (drop h run)) = ?n"
      using assms(1) False by (auto dest!: in_set_takeD in_set_dropD)
    have r: "render_run ctx leading trailing run = map shown (take h run) @ DlSkip ?n # map shown (drop (length run - t) run)"
      using False by (simp add: render_run_def h_def t_def Let_def)
    have "accounts_for (DlSkip ?n # map shown (drop (length run - t) run) @ ds)
        (take ?n (drop h run) @ drop (length run - t) run @ es)"
      using mid assms(2) False by simp
    then show ?thesis
      unfolding r by (subst (3) split) simp
  qed
qed

lemma render_from_accounts: "accounts_for (render_from ctx leading es) es"
proof (induction ctx leading es rule: render_from.induct)
  case (2 ctx leading e es)
  show ?case
  proof (cases "fst e = EdEqual")
    case False
    then show ?thesis using 2(1) by (cases e) (simp add: shown_def)
  next
    case True
    let ?P = "\<lambda>e. fst e = EdEqual"
    have "accounts_for (render_run ctx leading (dropWhile ?P (e # es) = []) (takeWhile ?P (e # es)) @
        render_from ctx False (dropWhile ?P (e # es))) (takeWhile ?P (e # es) @ dropWhile ?P (e # es))"
      using 2(2) True by (intro accounts_run) (auto dest: set_takeWhileD)
    then show ?thesis using True by (simp only: takeWhile_dropWhile_id render_from.simps Let_def) simp
  qed
qed simp

text \<open>
  C37: Rendering hides equal lines only. The rendering of a script shows every line of it in order, but for skips, each of which
  stands for exactly as many consecutive equal lines as it says, at least two.
\<close>
theorem render_accounts: "accounts_for (render es ctx) es"
  unfolding render_def by (rule render_from_accounts)

lemma render_run_length:
  "length (render_run ctx leading trailing run) \<le> (if leading then 0 else ctx) + (if trailing then 0 else ctx) + 1"
  by (cases leading; cases trailing) (auto simp: render_run_def Let_def)

lemma distance_run: "edit_distance (dropWhile (\<lambda>e. fst e = EdEqual) es) = edit_distance es"
  by (induction es) (auto simp: edit_distance_def)

lemma render_from_length:
  "length (render_from ctx leading es) + (if es \<noteq> [] \<and> fst (hd es) \<noteq> EdEqual then ctx else 0) \<le>
   edit_distance es * (2 * ctx + 2) + (if es \<noteq> [] \<and> fst (hd es) \<noteq> EdEqual then 0 else if leading then 1 else ctx + 1)"
proof (induction ctx leading es rule: render_from.induct)
  case (2 ctx leading e es)
  show ?case
  proof (cases "fst e = EdEqual")
    case False
    then have "edit_distance (e # es) = Suc (edit_distance es)" by (simp add: edit_distance_def)
    then show ?thesis using 2(1) [OF False] False by (auto split: if_splits)
  next
    case True
    let ?P = "\<lambda>e. fst e = EdEqual" 
    define rest where "rest = dropWhile ?P (e # es)"
    have r: "render_from ctx leading (e # es) =
        render_run ctx leading (rest = []) (takeWhile ?P (e # es)) @ render_from ctx False rest"
      using True by (simp add: Let_def rest_def)
    have IH: "length (render_from ctx False rest) + (if rest \<noteq> [] \<and> fst (hd rest) \<noteq> EdEqual then ctx else 0) \<le>
        edit_distance rest * (2 * ctx + 2) + (if rest \<noteq> [] \<and> fst (hd rest) \<noteq> EdEqual then 0 else ctx + 1)"
      using 2(2) [OF _ refl refl, unfolded if_False] True unfolding rest_def by blast
    have d: "edit_distance rest = edit_distance (e # es)" unfolding rest_def by (rule distance_run)
    have hd: "rest \<noteq> [] \<Longrightarrow> fst (hd rest) \<noteq> EdEqual" unfolding rest_def by (rule hd_dropWhile)
    show ?thesis
    proof (cases "rest = []")
      case True
      then show ?thesis using render_run_length [of ctx leading True "takeWhile ?P (e # es)"] \<open>fst e = EdEqual\<close> r d
        by (simp split: if_splits)
    next
      case False
      then show ?thesis using render_run_length [of ctx leading False "takeWhile ?P (e # es)"] \<open>fst e = EdEqual\<close> r d hd IH
        by (simp split: if_splits)
    qed
  qed
qed simp

text \<open>
  Rendering is short. However long the pages, the rendering has at most \<open>2 * context + 2\<close> lines for each line added or
  removed, and one more.
\<close>
theorem render_short:
  "length (render es ctx) \<le> (fst (edit_counts es) + snd (edit_counts es)) * (2 * ctx + 2) + 1"
proof -
  have "edit_distance es = fst (edit_counts es) + snd (edit_counts es)"
  proof (induction es)
    case (Cons e es)
    then show ?case by (cases e; cases "fst e") (auto simp: edit_counts_def edit_distance_def)
  qed (simp add: edit_counts_def)
  then show ?thesis using render_from_length [of ctx True es] by (auto simp: render_def split: if_splits)
qed

end
