(* ===== verification/Spec2Isabelle.thy ===== *)
theory Spec2Isabelle
  imports Engine_Delivery Oidc_Properties Pending_Invariant Agent_Witnesses Container_Witnesses Line_Diff_Properties
begin

text \<open>
  \<^bold>\<open>DumbMonit: the alerting engine, the authentication and the agents, modelled and verified.\<close>

  DumbMonit is a monitoring server in Rust. Collectors and agents write series to a time series store; an
  alerting engine evaluates rules over these series every thirty seconds, follows one state per series, and
  tells the users through notification channels, as rarely as it can. People sign in with a password and a
  second factor, through an identity provider, or with an API token; machines report through an agent that
  holds a secret of its own and may be sent commands. This library models three subsystems of the server and
  the agent they talk to, each from its requests or its clock down to the rows of its tables, and proves what
  makes each trustworthy. Sources are under \<^verbatim>\<open>crates/server/src\<close> unless another crate is named.

  \<^bold>\<open>Shared theories.\<close>

  \<^item> \<^verbatim>\<open>Prelude\<close>: instants and durations in nanoseconds, IEEE doubles as rationals with rounding, decimal and
    hexadecimal texts, ordered maps (\<^verbatim>\<open>BTreeMap\<close>) with their contract as the locale \<open>ordered_entry_map\<close>, lemmas on
    folds that keep an invariant. \<^verbatim>\<open>Float_Bounds\<close> adds the bounds of a rounding.
  \<^item> \<^verbatim>\<open>Rust_Text\<close>: the operations of \<^verbatim>\<open>str\<close> (texts are their UTF-8 bytes), \<^verbatim>\<open>HashMap\<close>, \<^verbatim>\<open>Instant\<close> and unsigned integers.
  \<^item> \<^verbatim>\<open>State_Error\<close>: sequencing of fallible statements over a state, and the rules (\<open>keeps_a\<close>, \<open>triple_a\<close>) by which a
    predicate passes through every branch, the failures included. \<^verbatim>\<open>Auth_Monad\<close> is its counterpart for authentication.

  \<^bold>\<open>The alerting engine.\<close> In the order of the imports:

  \<^item> \<^verbatim>\<open>Alert_Model\<close> (\<^verbatim>\<open>alerting/model.rs\<close>): severities, operators with hysteresis, selectors, rules, devices, the key and the
    fingerprint of a series.
  \<^item> \<^verbatim>\<open>Alert_Machine\<close> (\<^verbatim>\<open>alerting/machine.rs\<close>): the phases of an alert and \<open>advance\<close>; the locale \<open>invariant_machine\<close>, interpreted
    there for one alert, in \<^verbatim>\<open>Policy_Store\<close> for the notification tables and in \<^verbatim>\<open>Engine_Properties\<close> for the server.
  \<^item> \<^verbatim>\<open>Dependency_Suppression\<close> (\<^verbatim>\<open>alerting/suppress.rs\<close>): the bounded search for an ancestor that is down.
  \<^item> \<^verbatim>\<open>Maintenance_Silence\<close> (\<^verbatim>\<open>alerting/silence.rs\<close>): schedules, covering windows, next openings, silences. The calendar
    and the time zones come from another crate and are a parameter.
  \<^item> \<^verbatim>\<open>Channel_Matcher\<close> (\<^verbatim>\<open>alerting/matcher.rs\<close>, \<^verbatim>\<open>alerting/overrides.rs\<close>): routing filters and per-device overrides.
  \<^item> \<^verbatim>\<open>Seasonal_Baseline\<close> (\<^verbatim>\<open>alerting/baseline.rs\<close>): the 168 weekly buckets of a series and the anomaly score.
  \<^item> \<^verbatim>\<open>Alert_Grouping\<close> (\<^verbatim>\<open>alerting/group.rs\<close>): what an alert has to say now and the messages per device.
  \<^item> \<^verbatim>\<open>Eval_Cycle\<close> and \<^verbatim>\<open>Cycle_Properties\<close> (\<^verbatim>\<open>alerting/cycle.rs\<close>): \<open>plan_cycle\<close>, the pure part of a cycle, as folds over rules,
    series and stored alerts.
  \<^item> \<^verbatim>\<open>Notify_Policy\<close>, \<^verbatim>\<open>Notify_Properties\<close> and \<^verbatim>\<open>Notify_Guarantees\<close> (\<^verbatim>\<open>alerting/notify_policy.rs\<close>): \<open>notify_plan\<close>, which decides
    what is queued, what leaves and what is dropped. The locales \<open>planner_pass\<close> and \<open>planner_invariant\<close> are the
    contract of an invariant of the planner; each guarantee is an interpretation.
  \<^item> \<^verbatim>\<open>Policy_Store\<close> (\<^verbatim>\<open>notify/policy_store.rs\<close>), \<^verbatim>\<open>Alert_Store\<close> (\<^verbatim>\<open>db/alerts.rs\<close>), \<^verbatim>\<open>Channel_Store\<close> (\<^verbatim>\<open>crypto.rs\<close>, channels of
    \<^verbatim>\<open>db/alerts.rs\<close>): the tables as records of rows, one function per operation. \<^verbatim>\<open>INSERT .. ON CONFLICT\<close> and
    \<^verbatim>\<open>UPDATE .. WHERE\<close> on a unique key are \<open>upsert_by\<close> and \<open>update_by\<close>, with the locale \<open>row_update\<close> for what they keep.
  \<^item> \<^verbatim>\<open>Alert_Engine\<close>, \<^verbatim>\<open>Engine_Properties\<close>, \<^verbatim>\<open>Engine_Delivery\<close> (\<^verbatim>\<open>alerting/engine.rs\<close>): a whole cycle with its reads, writes and
    deliveries, the maintenance, the loop, and the server as a step relation with the users' actions.

  \<^bold>\<open>Authentication.\<close>

  \<^item> \<^verbatim>\<open>Client_Address\<close>, \<^verbatim>\<open>Rate_Limit\<close> (\<^verbatim>\<open>auth/client_ip.rs\<close>, \<^verbatim>\<open>auth/rate_limit.rs\<close>): who the client is behind
    trusted proxies, and the buckets of failed attempts.
  \<^item> \<^verbatim>\<open>Base32\<close>, \<^verbatim>\<open>Second_Factor\<close> (\<^verbatim>\<open>auth/totp.rs\<close>, \<^verbatim>\<open>auth/totp_login.rs\<close>, \<^verbatim>\<open>auth/setup_code.rs\<close>): one-time codes, recovery codes, the
    sign-ins that wait for a code, the code of the first configuration.
  \<^item> \<^verbatim>\<open>Auth_Store\<close>, \<^verbatim>\<open>Api_Token\<close> (\<^verbatim>\<open>auth/users.rs\<close>, \<^verbatim>\<open>auth/session.rs\<close>, \<^verbatim>\<open>auth/token.rs\<close>): accounts, sessions and tokens as tables.
  \<^item> \<^verbatim>\<open>Auth_Guard\<close>, \<^verbatim>\<open>Guard_Properties\<close> (\<^verbatim>\<open>auth/middleware.rs\<close>, \<^verbatim>\<open>auth/cors.rs\<close>): what a protected request may do.
  \<^item> \<^verbatim>\<open>Oidc_Config\<close>, \<^verbatim>\<open>Oidc_Flow\<close>, \<^verbatim>\<open>Oidc_Routes\<close>, \<^verbatim>\<open>Oidc_Properties\<close> (\<^verbatim>\<open>auth/oidc\<close>, \<^verbatim>\<open>api/oidc.rs\<close>): single sign-on, from its settings to
    the account and the session it opens.
  \<^item> \<^verbatim>\<open>Auth_Handlers\<close>, \<^verbatim>\<open>Auth_Routes\<close> (\<^verbatim>\<open>api/auth.rs\<close>, \<^verbatim>\<open>api/totp.rs\<close>, \<^verbatim>\<open>api/users.rs\<close>, \<^verbatim>\<open>api/tokens.rs\<close>): the routes; \<open>auth_serve\<close> is the
    server as one transition per request.
  \<^item> \<^verbatim>\<open>Account_Invariants\<close>, \<^verbatim>\<open>Auth_Properties\<close>, \<^verbatim>\<open>Pending_Invariant\<close>: what every route keeps (a locale states the contract of the
    routes once, an invariant is an interpretation of it), and what the routes guarantee.

  \<^bold>\<open>Agents.\<close>

  \<^item> \<^verbatim>\<open>Wire_Protocol\<close> (\<^verbatim>\<open>crates/proto/src\<close>): samples, machine identities, batches, commands and reports, their validation.
  \<^item> \<^verbatim>\<open>Agent_Buffer\<close>, \<^verbatim>\<open>Agent_Client\<close> (\<^verbatim>\<open>crates/agent/src\<close>: \<^verbatim>\<open>buffer.rs\<close>, \<^verbatim>\<open>backoff.rs\<close>, \<^verbatim>\<open>client.rs\<close>, \<^verbatim>\<open>binding.rs\<close>, \<^verbatim>\<open>run.rs\<close>): the buffer that
    holds the samples while the server is away, the delay between attempts, what an answer means, the turns of collection and
    of sending.
  \<^item> \<^verbatim>\<open>Agent_Registry\<close>, \<^verbatim>\<open>Agent_Binding\<close>, \<^verbatim>\<open>Agent_Ingest\<close> (\<^verbatim>\<open>collectors/agent\<close>: \<^verbatim>\<open>store.rs\<close>, \<^verbatim>\<open>token.rs\<close>, \<^verbatim>\<open>receive.rs\<close>, \<^verbatim>\<open>mod.rs\<close>): enrolment
    tokens, registration, the binding of a machine to a secret and its window, the reception of a batch.
  \<^item> \<^verbatim>\<open>Command_Queue\<close> (\<^verbatim>\<open>commands.rs\<close>, \<^verbatim>\<open>policy.rs\<close> of the same directory): the commands, their life, the automaton that queues them.
  \<^item> \<^verbatim>\<open>Agent_Service\<close>, \<^verbatim>\<open>Agent_Tables\<close>: the server as one transition per request (\<open>agent_serve\<close>); the locales \<open>kept_by_enrolment\<close>,
    \<open>kept_by_routes\<close> and \<open>kept_commands\<close> are the contracts of an invariant, each invariant of the tables an interpretation.
  \<^item> \<^verbatim>\<open>Docker_Client\<close>, \<^verbatim>\<open>Container_Spec\<close>, \<^verbatim>\<open>Container_Update\<close> (\<^verbatim>\<open>collect/docker.rs\<close>, \<^verbatim>\<open>commands.rs\<close> of \<^verbatim>\<open>crates/agent/src\<close>): the agent's
    client of the container daemon with its reading of HTTP answers, the configuration that is kept from an old container,
    restart, update with rollback, execution and reports. \<^verbatim>\<open>Container_Properties\<close>, \<^verbatim>\<open>Container_Witnesses\<close>: what holds of the calls
    the daemon receives, whatever it answers (\<open>does\<close> relates the calls of an action to its result), and a scripted daemon.
  \<^item> \<^verbatim>\<open>Agent_Properties\<close>, \<^verbatim>\<open>Agent_Witnesses\<close>: guarantees over any history of requests, and over the agent and the server
    together; the concrete server on which they are applied.

  \<^bold>\<open>Web change detection.\<close>

  \<^item> \<^verbatim>\<open>Line_Diff\<close> (\<^verbatim>\<open>webchange/diff.rs\<close>): the difference between two versions of a page, by the greedy algorithm with its array
    of furthest points and its trace, and its rendering. \<^verbatim>\<open>Line_Diff_Properties\<close>: the script replays, is the shortest within the
    bound on edits, and the rendering accounts for every line.

  \<^bold>\<open>State and operations.\<close> Each Rust struct is a record whose fields carry a two-letter prefix, each enum a
  datatype, each function a definition of the same name (suffixed where HOL has the name already). Instants
  are integers of nanoseconds, durations naturals; the places where the code saturates, wraps or refuses
  (\<^verbatim>\<open>TimeDelta::from_std\<close>, \<^verbatim>\<open>as i64\<close>, hashes on 64 bits, IEEE rounding) are written out. A table is a list of rows in the
  order of insertion or a map; a transaction is the composition of its statements. A handler is a composition of
  statements each of which may fail, and keeps what was done before. Two requests that overlap are the interleaving of their
  statements, where a property is about that.

  \<^bold>\<open>Parameters.\<close> What the server does not control is an argument: the answers to the queries, the success of a delivery, the
  failure of any statement, the clocks, the random bytes, the calendar, the reading and writing of JSON,
  the network, the container daemon, and the code of other crates (the cipher, Argon2id, SHA-256, HMAC, the verification of
  a JWT, base64url, the tables of networks, URLs).
  The theorems that rely on one of them name what they rely on; most hold whatever these functions are.

  \<^bold>\<open>What is shown of the engine.\<close> Over the server: the tables stay consistent under every order of actions and every
  failure; a line whose delivery failed waits and is due at the next cycle; an outage of the metric store
  freezes the alerts; a cycle keeps exactly the alerts it knows; an acknowledgement is not overwritten by a
  cycle that runs; what is saved is read back. Over a cycle: nothing muted is announced, a failed query
  proves nothing, every stored alert is accounted for, grouping refines its specification. Over a plan: each
  row respects the settings of its channel, no waiting row is lost, ripe rows leave, the hourly cap and
  quiet hours hold, messages say exactly their rows. Over the parts: the \<open>for\<close> duration is exact, searches
  agree with their specification, identities survive renames, durations and bounds.

  \<^bold>\<open>What is shown of authentication.\<close> Over any sequence of requests an administrator remains and accounts stay consistent; a
  session opens only behind the right password, behind the second factor where there is one (a code serves once), or behind
  an attempt at the provider that was started here; a request is admitted only on a live session or token, with the proof of its
  origin or the scopes it needs; attempts are bounded; the table of waiting sign-ins is bounded.

  \<^bold>\<open>What is shown of agents.\<close> Over any sequence of requests, a bound machine is written to only with its secret; a token lets in
  no more machines than it says; a container never has two open commands of a kind; the automaton respects the policy, the cooldown
  and the windows; each sample collected is settled with the server, kept, or counted as dropped; the delay between attempts is
  bounded. On containers: nothing is changed before the daemon has described a container that is not of the monitoring stack; an
  update removes the old container only once the new one stands, and puts it back when it fails; the wait for a container ends;
  an answer sent in chunks is read back whole.

  \<^bold>\<open>What modelling showed.\<close> Several theorems state where the code does less than it means to. In the engine: a relapse that
  is not announced, a hand-off swallowed by an escalation, a window cut short by a clock change, a lost notice
  of flapping, a hand-off that overtakes the announcement, a resolution dropped because the ledger does not
  reach back to the announcement, and a baseline that is forgotten while its series is alive. In authentication: two
  administrators who demote each other at the same time, a first account made by the provider that closes the first
  configuration. With agents: a machine locked out because the answer with its secret was lost, a token used twice
  by requests that overlap, a command that stays open because its last report was lost, an update after an interrupted one
  that removes the container in service.

  \<^bold>\<open>Bounds.\<close> Searches that the code bounds (depth of the dependency search, days of the search for a window) have
  the bounds of the code. The draws of the setup code are over the stream of random bytes, with a proof that it ends; the wait for
  a container and the reading of a chunked body are recursions on the time that is left and on the bytes that are left, with
  their termination proved. Every other loop of the model is a fold or a structural recursion; the only count of steps is that of
  \<open>replace_steps\<close>, which replaces in a text and never needs more steps than the text has characters.

  \<^bold>\<open>Not modelled.\<close> The table of built-in rules (literals without logic, a parameter of \<open>seed_builtin_rules\<close>); the
  conversion of a metric store's answer into points; the rendering and the delivery of messages; the read-only views of the API;
  the collectors and the declarative packs (clients of device protocols); the probes of the agent, its relay, what it does
  when it stops (the final sending, the wait for a running command); the serialised forms of the wire types; the fetching of pages, security posture,
  reports, backups, demonstration data, the scheduler of the collectors and the writer of the metric store beyond its entrance:
  input and output, third-party protocols, or components that the modelled ones do not depend on. Logging and statistics are
  left out of the functions that are modelled.
\<close>

end
